(* ===== verification/Prelude.thy ===== *)
theory Prelude
  imports Main "HOL-Library.Word"
begin

text \<open>
  Shared material of the development: how a Go result is represented, the parts of the Go
  standard library the modelled sources call (\<open>strings\<close>, \<open>strconv\<close>), and generic lemmas on
  lists and maps.  A Go function that returns an \<open>error\<close> is a function into
  \<open>go_error option\<close> or \<open>'a res\<close>; a run-time panic is the constructor \<open>Panic\<close>.
\<close>

named_theorems go_simps \<open>unfolding rules of the small Go helpers\<close>
named_theorems inv_intros \<open>preservation lemmas of component invariants\<close>

section \<open>Values, errors and results\<close>

text \<open>
  \<open>E.New\<close>, \<open>E.Cause\<close> and \<open>E.Extend\<close> receive a list of values that a foreign package formats;
  an error keeps those values unformatted.  \<open>ERcode\<close> is the error type \<open>RcodeError\<close> of
  \<open>core/dns/rcode.go\<close>.  \<open>EForeign\<close> is an error made by code outside the model.
\<close>

datatype go_any = AStr string | AInt int | AErr go_error
and go_error =
    ENew "go_any list"
  | ECause go_error "go_any list"
  | EExtend go_error "go_any list"
  | ErrInvalid
  | ERcode int
  | EForeign string

datatype 'a res = Ok 'a | Err go_error | Panic string

fun res_of_error :: "go_error option \<Rightarrow> unit res" where
  "res_of_error None = Ok ()"
| "res_of_error (Some e) = Err e"

fun is_panic :: "'a res \<Rightarrow> bool" where
  "is_panic (Panic _) = True"
| "is_panic _ = False"

lemma is_panic_res_of_error [simp]: "\<not> is_panic (res_of_error e)"
  by (cases e) auto

lemma res_of_error_Ok_iff [simp]: "res_of_error e = Ok u \<longleftrightarrow> e = None"
  by (cases e) auto

text \<open>Functions that return a value or an error, one after the other.\<close>

fun bindE :: "'e + 'a \<Rightarrow> ('a \<Rightarrow> 'e + 'b) \<Rightarrow> 'e + 'b" where
  "bindE (Inl e) f = Inl e"
| "bindE (Inr x) f = f x"

lemma bindE_Inr: "bindE r f = Inr y \<longleftrightarrow> (\<exists>x. r = Inr x \<and> f x = Inr y)"
  by (cases r) auto

fun bindR :: "'a res \<Rightarrow> ('a \<Rightarrow> 'b res) \<Rightarrow> 'b res" where
  "bindR (Ok x) f = f x"
| "bindR (Err e) f = Err e"
| "bindR (Panic s) f = Panic s"

lemma bindR_Ok: "bindR r f = Ok y \<longleftrightarrow> (\<exists>x. r = Ok x \<and> f x = Ok y)"
  by (cases r) auto

section \<open>Package strings\<close>

fun strings_Join :: "string list \<Rightarrow> string \<Rightarrow> string" where
  "strings_Join [] sep = []"
| "strings_Join [s] sep = s"
| "strings_Join (s # t # ss) sep = s @ sep @ strings_Join (t # ss) sep"

fun strings_HasPrefix :: "string \<Rightarrow> string \<Rightarrow> bool" where
  "strings_HasPrefix s [] = True"
| "strings_HasPrefix [] (p # ps) = False"
| "strings_HasPrefix (c # s) (p # ps) = (c = p \<and> strings_HasPrefix s ps)"

text \<open>\<open>strings.Index(s, sep)\<close>: the first position at which \<open>sep\<close> occurs, -1 when there is none.\<close>

fun strings_Index :: "string \<Rightarrow> string \<Rightarrow> int" where
  "strings_Index [] sep = (if sep = [] then 0 else -1)"
| "strings_Index (c # s) sep =
     (if strings_HasPrefix (c # s) sep then 0
      else let i = strings_Index s sep in if i = -1 then -1 else i + 1)"

definition strings_Contains :: "string \<Rightarrow> string \<Rightarrow> bool" where
  "strings_Contains s sub = (strings_Index s sub \<noteq> -1)"

text \<open>\<open>strings.Split\<close> at a separator of one byte.\<close>

fun split_at :: "char \<Rightarrow> string \<Rightarrow> string list" where
  "split_at d [] = [[]]"
| "split_at d (c # s) =
     (if c = d then [] # split_at d s
      else case split_at d s of [] \<Rightarrow> [[c]] | w # ws \<Rightarrow> (c # w) # ws)"

lemma split_at_not_Nil [simp]: "split_at d s \<noteq> []"
  by (induction s) (auto split: list.splits)

lemma split_at_single: "d \<notin> set s \<Longrightarrow> split_at d s = [s]"
  by (induction s) auto

lemma split_at_append: "d \<notin> set a \<Longrightarrow> split_at d (a @ d # b) = a # split_at d b"
  by (induction a) auto

lemma strings_HasPrefix_single [simp]: "strings_HasPrefix s [d] \<longleftrightarrow> s \<noteq> [] \<and> hd s = d"
  by (cases s) auto

lemma strings_HasPrefix_append [simp]: "strings_HasPrefix (p @ s) p"
  by (induction p) auto

lemma strings_HasPrefix_iff: "strings_HasPrefix s p \<longleftrightarrow> (\<exists>t. s = p @ t)"
  by (induction s p rule: strings_HasPrefix.induct) auto

lemma strings_Index_ge: "strings_Index s sep \<ge> -1"
  by (induction s) (auto simp: Let_def)

lemma strings_Index_char: "strings_Index s [d] = -1 \<longleftrightarrow> d \<notin> set s"
proof (induction s)
  case (Cons c s)
  then show ?case using strings_Index_ge [of s "[d]"] by (auto simp: Let_def)
qed simp

lemma strings_Contains_char: "strings_Contains s [d] \<longleftrightarrow> d \<in> set s"
  by (simp add: strings_Contains_def strings_Index_char)

lemma strings_Index_append:
  "d \<notin> set a \<Longrightarrow> strings_Index (a @ d # b) [d] = int (length a)"
  by (induction a) (auto simp: Let_def)

section \<open>Package strconv\<close>

definition digit_val :: "char \<Rightarrow> nat option" where
  "digit_val c = (let n = of_char c :: nat in if 48 \<le> n \<and> n \<le> 57 then Some (n - 48) else None)"

text \<open>
  The digit loop of \<open>strconv.ParseUint\<close> in base 10: it stops at the first byte that is no digit
  and, before that, as soon as the value of the digits read so far exceeds the maximum.
\<close>

datatype scan_res = SValue nat | SSyntax | SRange

fun scan_uint :: "nat \<Rightarrow> nat \<Rightarrow> string \<Rightarrow> scan_res" where
  "scan_uint mx n [] = SValue n"
| "scan_uint mx n (c # s) =
     (case digit_val c of
        None \<Rightarrow> SSyntax
      | Some d \<Rightarrow> if n * 10 + d > mx then SRange else scan_uint mx (n * 10 + d) s)"

definition strconv_ParseUint :: "string \<Rightarrow> nat \<Rightarrow> go_error + nat" where
  "strconv_ParseUint s bitSize =
     (if s = [] then Inl (EForeign ''ErrSyntax'')
      else case scan_uint (2 ^ bitSize - 1) 0 s of
        SValue n \<Rightarrow> Inr n
      | SSyntax \<Rightarrow> Inl (EForeign ''ErrSyntax'')
      | SRange \<Rightarrow> Inl (EForeign ''ErrRange''))"

text \<open>\<open>filepath.Base\<close> on a system whose separator is the slash.\<close>

definition filepath_Base :: "string \<Rightarrow> string" where
  "filepath_Base path =
     (if path = [] then ''.''
      else
        let p = rev (dropWhile (\<lambda>c. c = CHR ''/'') (rev path));
            b = rev (takeWhile (\<lambda>c. c \<noteq> CHR ''/'') (rev p))
        in if b = [] then ''/'' else b)"

text \<open>
  \<open>strconv.Atoi\<close> with the value it returns beside an error: 0 on a syntax error, the nearest
  64-bit integer on a range error.  The sources modelled here drop the error and use the value.
\<close>

definition atoi_sign :: "string \<Rightarrow> bool \<times> string" where
  "atoi_sign s = (case s of [] \<Rightarrow> (False, [])
     | c # r \<Rightarrow> if c = CHR ''-'' then (True, r) else if c = CHR ''+'' then (False, r) else (False, s))"

definition strconv_Atoi :: "string \<Rightarrow> int \<times> bool" where
  "strconv_Atoi s =
     (let (neg, ds) = atoi_sign s in
      if ds = [] then (0, False)
      else case scan_uint (2 ^ 64 - 1) 0 ds of
        SSyntax \<Rightarrow> (0, False)
      | SRange \<Rightarrow> (if neg then - (2 ^ 63) else 2 ^ 63 - 1, False)
      | SValue n \<Rightarrow>
          if \<not> neg \<and> n \<ge> 2 ^ 63 then (2 ^ 63 - 1, False)
          else if neg \<and> n > 2 ^ 63 then (- (2 ^ 63), False)
          else (if neg then - int n else int n, True))"

text \<open>Decimal printing of integers (\<open>strconv.Itoa\<close>, \<open>strconv.FormatInt\<close> in base 10).\<close>

definition digit_chr :: "nat \<Rightarrow> char" where
  "digit_chr d = char_of (48 + d)"

fun utoa :: "nat \<Rightarrow> string" where
  "utoa n = (if n < 10 then [digit_chr n] else utoa (n div 10) @ [digit_chr (n mod 10)])"

declare utoa.simps [simp del]

definition strconv_Itoa :: "int \<Rightarrow> string" where
  "strconv_Itoa i = (if i < 0 then CHR ''-'' # utoa (nat (- i)) else utoa (nat i))"

lemma digit_val_chr [simp]: "d < 10 \<Longrightarrow> digit_val (digit_chr d) = Some d"
  by (simp add: digit_val_def digit_chr_def)

lemma utoa_not_Nil [simp]: "utoa n \<noteq> []"
  by (subst utoa.simps) simp

lemma utoa_digits: "c \<in> set (utoa n) \<Longrightarrow> \<exists>d < 10. c = digit_chr d"
proof (induction n rule: utoa.induct)
  case (1 n)
  have "\<exists>d < 10. digit_chr (n mod 10) = digit_chr d"
    by (rule exI [of _ "n mod 10"]) simp
  with 1 show ?case by (subst (asm) (2) utoa.simps) (auto split: if_splits)
qed

lemma scan_uint_append:
  "scan_uint mx n (a @ b) = (case scan_uint mx n a of SValue m \<Rightarrow> scan_uint mx m b | r \<Rightarrow> r)"
  by (induction a arbitrary: n) (auto split: option.splits)

lemma scan_uint_utoa: "n \<le> mx \<Longrightarrow> scan_uint mx 0 (utoa n) = SValue n"
proof (induction n rule: utoa.induct)
  case (1 n)
  show ?case
  proof (cases "n < 10")
    case True
    then show ?thesis using "1.prems" by (subst utoa.simps) simp
  next
    case False
    then have "scan_uint mx 0 (utoa (n div 10)) = SValue (n div 10)"
      using 1 by (simp add: order_trans [OF div_le_dividend])
    with False "1.prems" show ?thesis
      by (subst utoa.simps) (simp add: scan_uint_append)
  qed
qed

lemma digit_chr_ne:
  "d < 10 \<Longrightarrow> digit_chr d \<noteq> CHR ''.''" "d < 10 \<Longrightarrow> digit_chr d \<noteq> CHR ''-''"
  "d < 10 \<Longrightarrow> digit_chr d \<noteq> CHR ''+''" "d < 10 \<Longrightarrow> digit_chr d \<noteq> CHR '':''"
  "d < 10 \<Longrightarrow> digit_chr d \<noteq> CHR ''v''"
  using digit_val_chr [of d] by (auto simp: digit_val_def)

lemma utoa_no_sep:
  "CHR ''.'' \<notin> set (utoa n)" "CHR ''-'' \<notin> set (utoa n)" "CHR '':'' \<notin> set (utoa n)"
  "CHR ''+'' \<notin> set (utoa n)" "CHR ''v'' \<notin> set (utoa n)"
  using utoa_digits digit_chr_ne by metis+

lemma atoi_sign_utoa [simp]: "atoi_sign (utoa n) = (False, utoa n)"
  using utoa_no_sep [of n] by (cases "utoa n") (auto simp: atoi_sign_def)

lemma Atoi_utoa: "n < 2 ^ 63 \<Longrightarrow> strconv_Atoi (utoa n) = (int n, True)"
  by (simp add: strconv_Atoi_def scan_uint_utoa)

lemma ParseUint_utoa: "n < 2 ^ b \<Longrightarrow> strconv_ParseUint (utoa n) b = Inr n"
  by (simp add: strconv_ParseUint_def scan_uint_utoa)

section \<open>Lists\<close>

text \<open>The position of the first element with a property, -1 when there is none.\<close>

fun list_index :: "'a list \<Rightarrow> ('a \<Rightarrow> bool) \<Rightarrow> int" where
  "list_index [] p = -1"
| "list_index (x # xs) p =
     (if p x then 0 else let i = list_index xs p in if i = -1 then -1 else i + 1)"

definition remove_at :: "'a list \<Rightarrow> int \<Rightarrow> 'a list" where
  "remove_at xs i = take (nat i) xs @ drop (nat i + 1) xs"

lemma list_index_ge: "list_index xs p \<ge> -1"
  by (induction xs) (auto simp: Let_def)

lemma list_index_none: "list_index xs p = -1 \<longleftrightarrow> (\<forall>x \<in> set xs. \<not> p x)"
proof (induction xs)
  case (Cons x xs)
  then show ?case using list_index_ge [of xs p] by (auto simp: Let_def)
qed simp

text \<open>Cutting out the element that the index search found, when keys are distinct.\<close>

lemma remove_at_index:
  "distinct (map k xs) \<Longrightarrow> x \<in> set xs \<Longrightarrow>
   remove_at xs (list_index xs (\<lambda>y. k y = k x)) = filter (\<lambda>y. k y \<noteq> k x) xs"
proof (induction xs)
  case (Cons y ys)
  show ?case
  proof (cases "k y = k x")
    case True
    then have "filter (\<lambda>y. k y \<noteq> k x) ys = ys"
      using Cons.prems(1) by (auto simp: filter_id_conv image_iff)
    with True show ?thesis by (simp add: remove_at_def)
  next
    case False
    let ?i = "list_index ys (\<lambda>y. k y = k x)"
    from False Cons.prems have x: "x \<in> set ys" by auto
    then have "?i \<noteq> -1" by (auto simp: list_index_none)
    with list_index_ge [of ys "\<lambda>y. k y = k x"] have "?i \<ge> 0" by linarith
    then have "nat (?i + 1) = Suc (nat ?i)" by simp
    with False \<open>?i \<noteq> -1\<close> Cons x show ?thesis
      by (simp add: remove_at_def Let_def)
  qed
qed simp

end
