(* ===== verification/Adapter_Lifecycle.thy ===== *)
theory Adapter_Lifecycle
  imports Prelude
begin

text \<open>
  Package \<open>adapter\<close>, the start and stop protocol that every long-lived component follows
  (\<open>core/adapter/lifecycle.go\<close>, \<open>core/adapter/lifecycle_legacy.go\<close>).  A component is an \<open>obj\<close>:
  its identity (the pointer), type, tag and dependencies, which of the optional Go interfaces
  it implements, and what its methods return, which may depend on everything that was called
  before.  Every call is recorded, in order, in a trace.
\<close>

section \<open>Start stages\<close>

datatype StartStage =
    StartStateInitialize
  | StartStateStart
  | StartStatePostStart
  | StartStateStarted

fun stage_num :: "StartStage \<Rightarrow> nat" where
  "stage_num StartStateInitialize = 0"
| "stage_num StartStateStart = 1"
| "stage_num StartStatePostStart = 2"
| "stage_num StartStateStarted = 3"

lemma stage_num_inject [simp]: "stage_num a = stage_num b \<longleftrightarrow> a = b"
  by (cases a; cases b) auto

instantiation StartStage :: linorder
begin

definition less_eq_StartStage :: "StartStage \<Rightarrow> StartStage \<Rightarrow> bool" where
  "less_eq_StartStage a b \<longleftrightarrow> stage_num a \<le> stage_num b"

definition less_StartStage :: "StartStage \<Rightarrow> StartStage \<Rightarrow> bool" where
  "less_StartStage a b \<longleftrightarrow> stage_num a < stage_num b"

instance
  by standard (auto simp: less_eq_StartStage_def less_StartStage_def)

end

lemmas stage_order [go_simps] = less_eq_StartStage_def less_StartStage_def

definition ListStartStages :: "StartStage list" where
  "ListStartStages =
     [StartStateInitialize, StartStateStart, StartStatePostStart, StartStateStarted]"

fun StartStage_String :: "StartStage \<Rightarrow> string" where
  "StartStage_String StartStateInitialize = ''initialize''"
| "StartStage_String StartStateStart = ''start''"
| "StartStage_String StartStatePostStart = ''post-start''"
| "StartStage_String StartStateStarted = ''finish-start''"

section \<open>Components and calls\<close>

datatype call = CStart StartStage | CPreStart | CPlainStart | CPostStart | CClose

type_synonym trace = "(nat \<times> call) list"

record obj =
  obj_id :: nat
  obj_type :: string
  obj_tag :: string
  obj_deps :: "string list"
  is_lifecycle :: bool
  has_prestart :: bool
  has_start :: bool
  has_poststart :: bool
  is_closer :: bool
  obj_call :: "trace \<Rightarrow> call \<Rightarrow> go_error option"

definition do_call :: "obj \<Rightarrow> call \<Rightarrow> trace \<Rightarrow> trace \<times> go_error option" where
  "do_call x c tr = (tr @ [(obj_id x, c)], obj_call x tr c)"

definition LegacyStart :: "obj \<Rightarrow> StartStage \<Rightarrow> trace \<Rightarrow> trace \<times> go_error option" where
  "LegacyStart x st tr =
     (if is_lifecycle x then do_call x (CStart st) tr
      else case st of
        StartStateInitialize \<Rightarrow> if has_prestart x then do_call x CPreStart tr else (tr, None)
      | StartStateStart \<Rightarrow> if has_start x then do_call x CPlainStart tr else (tr, None)
      | StartStateStarted \<Rightarrow> if has_poststart x then do_call x CPostStart tr else (tr, None)
      | StartStatePostStart \<Rightarrow> (tr, None))"

text \<open>\<open>adapter.Start\<close>: the services are started one after the other; the first error stops it.\<close>

fun adapter_Start :: "StartStage \<Rightarrow> obj list \<Rightarrow> trace \<Rightarrow> trace \<times> go_error option" where
  "adapter_Start st [] tr = (tr, None)"
| "adapter_Start st (x # xs) tr =
     (case do_call x (CStart st) tr of
        (tr', Some e) \<Rightarrow> (tr', Some e)
      | (tr', None) \<Rightarrow> adapter_Start st xs tr')"

text \<open>\<open>adapter.StartNamed\<close>: the same over named services, with the name added to the error.\<close>

fun adapter_StartNamed ::
    "StartStage \<Rightarrow> (string \<times> obj) list \<Rightarrow> trace \<Rightarrow> trace \<times> go_error option" where
  "adapter_StartNamed st [] tr = (tr, None)"
| "adapter_StartNamed st ((nm, x) # xs) tr =
     (case do_call x (CStart st) tr of
        (tr', Some e) \<Rightarrow> (tr', Some (ECause e [AStr (StartStage_String st), AStr '' '', AStr nm]))
      | (tr', None) \<Rightarrow> adapter_StartNamed st xs tr')"

text \<open>The wrapper that makes a service with plain \<open>Start\<close> and \<open>Close\<close> a staged one.\<close>

record lifecycleServiceWrapper =
  wrapped :: obj
  service_name :: string

definition NewLifecycleService :: "obj \<Rightarrow> string \<Rightarrow> lifecycleServiceWrapper" where
  "NewLifecycleService x nm = \<lparr>wrapped = x, service_name = nm\<rparr>"

definition wrapper_Start ::
    "lifecycleServiceWrapper \<Rightarrow> StartStage \<Rightarrow> trace \<Rightarrow> trace \<times> go_error option" where
  "wrapper_Start l st tr = LegacyStart (wrapped l) st tr"

definition wrapper_Close :: "lifecycleServiceWrapper \<Rightarrow> trace \<Rightarrow> trace \<times> go_error option" where
  "wrapper_Close l tr = do_call (wrapped l) CClose tr"

section \<open>The loops the managers share\<close>

text \<open>
  The error a manager reports for one of its components:
  \<open>E.Cause(err, stage, " kind/", x.Type(), "[", x.Tag(), "]")\<close>.
\<close>

definition kind_err :: "go_error \<Rightarrow> string \<Rightarrow> obj \<Rightarrow> go_error" where
  "kind_err e what x =
     ECause e [AStr what, AStr (obj_type x), AStr ''['', AStr (obj_tag x), AStr '']'']"

definition stage_err :: "go_error \<Rightarrow> StartStage \<Rightarrow> string \<Rightarrow> obj \<Rightarrow> go_error" where
  "stage_err e st kind x =
     ECause e [AStr (StartStage_String st), AStr kind, AStr (obj_type x), AStr ''['',
       AStr (obj_tag x), AStr '']'']"

fun start_loop :: "string \<Rightarrow> StartStage \<Rightarrow> obj list \<Rightarrow> trace \<Rightarrow> trace \<times> go_error option" where
  "start_loop kind st [] tr = (tr, None)"
| "start_loop kind st (x # xs) tr =
     (case LegacyStart x st tr of
        (tr', Some e) \<Rightarrow> (tr', Some (stage_err e st kind x))
      | (tr', None) \<Rightarrow> start_loop kind st xs tr')"

text \<open>Starting one new component through all stages, as \<open>Create\<close> does once a manager runs.\<close>

fun stages_loop :: "string \<Rightarrow> StartStage list \<Rightarrow> obj \<Rightarrow> trace \<Rightarrow> trace \<times> go_error option" where
  "stages_loop kind [] x tr = (tr, None)"
| "stages_loop kind (st # sts) x tr =
     (case LegacyStart x st tr of
        (tr', Some e) \<Rightarrow> (tr', Some (stage_err e st kind x))
      | (tr', None) \<Rightarrow> stages_loop kind sts x tr')"

text \<open>
  Closing everything: every component is closed, and the accumulated error is not returned by
  the managers, so the loop keeps only the trace.
\<close>

fun close_loop :: "obj list \<Rightarrow> trace \<Rightarrow> trace" where
  "close_loop [] tr = tr"
| "close_loop (x # xs) tr = close_loop xs (fst (do_call x CClose tr))"

section \<open>Facts about the loops\<close>

lemma fst_do_call [simp]: "fst (do_call x c tr) = tr @ [(obj_id x, c)]"
  by (simp add: do_call_def)

lemma close_loop_trace: "close_loop xs tr = tr @ map (\<lambda>x. (obj_id x, CClose)) xs"
  by (induction xs arbitrary: tr) auto

text \<open>Every loop only appends to the trace.\<close>

lemma LegacyStart_extends: "LegacyStart x st tr = (tr', r) \<Longrightarrow> \<exists>ys. tr' = tr @ ys"
  by (auto simp: LegacyStart_def do_call_def split: if_splits StartStage.splits)

lemma start_loop_extends: "start_loop kind st xs tr = (tr', r) \<Longrightarrow> \<exists>ys. tr' = tr @ ys"
proof (induction xs arbitrary: tr)
  case (Cons x xs)
  obtain t1 e where c: "LegacyStart x st tr = (t1, e)" by fastforce
  then obtain ys where "t1 = tr @ ys" by (auto dest: LegacyStart_extends)
  with Cons c show ?case by (cases e) fastforce+
qed simp

text \<open>The calls a stage asks of one component; none for a plain service in the post-start stage.\<close>

definition stage_calls :: "obj \<Rightarrow> StartStage \<Rightarrow> (nat \<times> call) list" where
  "stage_calls x st =
     (if is_lifecycle x then [(obj_id x, CStart st)]
      else case st of
        StartStateInitialize \<Rightarrow> if has_prestart x then [(obj_id x, CPreStart)] else []
      | StartStateStart \<Rightarrow> if has_start x then [(obj_id x, CPlainStart)] else []
      | StartStateStarted \<Rightarrow> if has_poststart x then [(obj_id x, CPostStart)] else []
      | StartStatePostStart \<Rightarrow> [])"

lemma LegacyStart_calls: "fst (LegacyStart x st tr) = tr @ stage_calls x st"
  by (auto simp: LegacyStart_def stage_calls_def split: StartStage.split)

lemma start_loop_calls:
  "start_loop kind st xs tr = (tr', None) \<Longrightarrow> tr' = tr @ concat (map (\<lambda>x. stage_calls x st) xs)"
proof (induction xs arbitrary: tr)
  case (Cons x xs)
  obtain t1 e where c: "LegacyStart x st tr = (t1, e)" by fastforce
  then have "t1 = tr @ stage_calls x st" using LegacyStart_calls [of x st tr] by simp
  with Cons.prems c show ?case by (cases e) (auto dest: Cons.IH)
qed simp

end
