(* ===== verification/Manager_Base.thy ===== *)
theory Manager_Base
  imports Adapter_Lifecycle
begin

text \<open>
  What the five component managers have in common: the fields \<open>started\<close>, \<open>stage\<close>, the slice
  of components and the map from tag to component; the helpers of the package
  \<open>sing/common\<close> they call, which are a parameter; the invariant that ties the slice to the
  map; and the interface \<open>tag_manager\<close> that \<open>Create\<close> and \<open>Remove\<close> of every manager satisfy.
\<close>

section \<open>The helpers of sing/common\<close>

text \<open>
  \<open>sing_common\<close> holds the functions of the foreign package; \<open>sing_common_ok\<close> is what their
  documentation says: \<open>Index\<close> is the first position or -1, \<open>Find\<close> the first element or the zero
  value, \<open>Contains\<close>, \<open>Filter\<close> and \<open>Map\<close> are the list operations of these names, and \<open>Close\<close>
  closes what implements \<open>io.Closer\<close>.
\<close>

record sing_common =
  sc_Index :: "obj list \<Rightarrow> (obj \<Rightarrow> bool) \<Rightarrow> int"
  sc_FindObj :: "obj list \<Rightarrow> (obj \<Rightarrow> bool) \<Rightarrow> obj option"
  sc_FindStr :: "string list \<Rightarrow> (string \<Rightarrow> bool) \<Rightarrow> string"
  sc_Contains :: "string list \<Rightarrow> string \<Rightarrow> bool"
  sc_Filter :: "string list \<Rightarrow> (string \<Rightarrow> bool) \<Rightarrow> string list"
  sc_Map :: "obj list \<Rightarrow> (obj \<Rightarrow> obj) \<Rightarrow> obj list"
  sc_Close :: "obj \<Rightarrow> trace \<Rightarrow> trace \<times> go_error option"

definition find_or_empty :: "string list \<Rightarrow> (string \<Rightarrow> bool) \<Rightarrow> string" where
  "find_or_empty xs p = (case find p xs of None \<Rightarrow> [] | Some x \<Rightarrow> x)"

definition close_if_closer :: "obj \<Rightarrow> trace \<Rightarrow> trace \<times> go_error option" where
  "close_if_closer x tr = (if is_closer x then do_call x CClose tr else (tr, None))"

definition sing_ref :: sing_common where
  "sing_ref = \<lparr>sc_Index = list_index, sc_FindObj = (\<lambda>xs p. find p xs),
     sc_FindStr = find_or_empty, sc_Contains = (\<lambda>xs x. x \<in> set xs),
     sc_Filter = (\<lambda>xs p. filter p xs), sc_Map = (\<lambda>xs f. map f xs), sc_Close = close_if_closer\<rparr>"

definition sing_common_ok :: "sing_common \<Rightarrow> bool" where
  "sing_common_ok L \<longleftrightarrow>
     (\<forall>xs p. sc_Index L xs p = list_index xs p) \<and>
     (\<forall>xs p. sc_FindObj L xs p = find p xs) \<and>
     (\<forall>xs p. sc_FindStr L xs p = find_or_empty xs p) \<and>
     (\<forall>xs x. sc_Contains L xs x \<longleftrightarrow> x \<in> set xs) \<and>
     (\<forall>xs p. sc_Filter L xs p = filter p xs) \<and>
     (\<forall>xs f. sc_Map L xs f = map f xs) \<and>
     (\<forall>x tr. sc_Close L x tr = close_if_closer x tr)"

lemma sing_ref_ok [simp]: "sing_common_ok sing_ref"
  by (simp add: sing_common_ok_def sing_ref_def)

lemma sing_common_okD: "sing_common_ok L \<Longrightarrow> L = sing_ref"
  by (cases L) (auto simp: sing_common_ok_def sing_ref_def fun_eq_iff)

lemma sing_ref_simps [simp]:
  "sc_Index sing_ref = list_index"
  "sc_FindObj sing_ref xs p = find p xs"
  "sc_FindStr sing_ref = find_or_empty"
  "sc_Contains sing_ref ss s \<longleftrightarrow> s \<in> set ss"
  "sc_Filter sing_ref ss q = filter q ss"
  "sc_Map sing_ref ys f = map f ys"
  "sc_Close sing_ref = close_if_closer"
  by (simp_all add: sing_ref_def)

section \<open>The common state and its invariant\<close>

record manager =
  started :: bool
  stage :: StartStage
  objects :: "obj list"
  byTag :: "string \<rightharpoonup> obj"

definition mgr_inv :: "'a manager_scheme \<Rightarrow> bool" where
  "mgr_inv m \<longleftrightarrow>
     distinct (map obj_id (objects m)) \<and>
     ran (byTag m) = set (objects m) \<and>
     (\<forall>t x. byTag m t = Some x \<longrightarrow> obj_tag x = t)"

definition mgr_ids :: "'a manager_scheme \<Rightarrow> nat set" where
  "mgr_ids m = obj_id ` set (objects m)"

text \<open>
  \<open>index := common.Index(xs, func(it) bool { return it == x })\<close>, then
  \<open>xs = append(xs[:index], xs[index+1:]...)\<close>; \<open>None\<close> is the index -1, on which the callers panic.
\<close>

definition cut :: "sing_common \<Rightarrow> obj \<Rightarrow> obj list \<Rightarrow> obj list option" where
  "cut L x xs =
     (let i = sc_Index L xs (\<lambda>it. obj_id it = obj_id x)
      in if i = -1 then None else Some (remove_at xs i))"

lemma cut_Some:
  "distinct (map obj_id xs) \<Longrightarrow> x \<in> set xs \<Longrightarrow>
   cut sing_ref x xs = Some (filter (\<lambda>y. obj_id y \<noteq> obj_id x) xs)"
  by (auto simp: cut_def Let_def list_index_none remove_at_index)

lemma cut_Nil [simp]: "cut sing_ref x [] = None"
  by (simp add: cut_def)

lemma mgr_inv_byTag: "mgr_inv m \<Longrightarrow> byTag m t = Some x \<Longrightarrow> x \<in> set (objects m)"
  by (auto simp: mgr_inv_def ran_def)

lemma mgr_inv_tag: "mgr_inv m \<Longrightarrow> byTag m t = Some x \<Longrightarrow> obj_tag x = t"
  by (auto simp: mgr_inv_def)

lemma mgr_inv_cut:
  "mgr_inv m \<Longrightarrow> byTag m t = Some x \<Longrightarrow>
   cut sing_ref x (objects m) = Some (filter (\<lambda>y. obj_id y \<noteq> obj_id x) (objects m))"
  by (rule cut_Some) (auto simp: mgr_inv_def ran_def)

lemma mgr_inv_same_id:
  "mgr_inv m \<Longrightarrow> x \<in> set (objects m) \<Longrightarrow> y \<in> set (objects m) \<Longrightarrow> obj_id x = obj_id y \<longleftrightarrow> x = y"
  by (auto simp: mgr_inv_def distinct_map inj_on_def)

lemma ran_minus:
  "mgr_inv m \<Longrightarrow> byTag m t = Some x \<Longrightarrow> ran ((byTag m)(t := None)) = set (objects m) - {x}"
proof -
  assume i: "mgr_inv m" and b: "byTag m t = Some x"
  have "byTag m a = Some x \<longleftrightarrow> a = t" for a
    using mgr_inv_tag [OF i] b by metis
  then have "y \<in> ran ((byTag m)(t := None)) \<longleftrightarrow> y \<in> ran (byTag m) \<and> y \<noteq> x" for y
    using b by (auto simp: ran_def) (metis option.inject)
  with i show ?thesis by (auto simp: mgr_inv_def)
qed

text \<open>Unlinking one component, and linking a new one, keep the invariant.\<close>

lemma mgr_inv_unlink [inv_intros]:
  assumes "mgr_inv m" and "byTag m t = Some x"
  shows "mgr_inv (m\<lparr>byTag := (byTag m)(t := None),
           objects := filter (\<lambda>y. obj_id y \<noteq> obj_id x) (objects m)\<rparr>)"
proof -
  have "x \<in> set (objects m)" using assms by (rule mgr_inv_byTag)
  then have "set (filter (\<lambda>y. obj_id y \<noteq> obj_id x) (objects m)) = set (objects m) - {x}"
    using mgr_inv_same_id [OF assms(1)] by auto
  with assms ran_minus [OF assms] show ?thesis
    by (auto simp: mgr_inv_def distinct_map_filter)
qed

lemma mgr_inv_link [inv_intros]:
  assumes "mgr_inv m" and "byTag m t = None" and "obj_id x \<notin> mgr_ids m" and "obj_tag x = t"
  shows "mgr_inv (m\<lparr>objects := objects m @ [x], byTag := (byTag m)(t \<mapsto> x)\<rparr>)"
  using assms by (auto simp: mgr_inv_def mgr_ids_def)

lemma mgr_inv_fields [simp]:
  "mgr_inv (m\<lparr>started := b\<rparr>) = mgr_inv m" "mgr_inv (m\<lparr>stage := st\<rparr>) = mgr_inv m"
  by (simp_all add: mgr_inv_def)

text \<open>The state after linking a component under a tag, replacing what was there, and after unlinking.\<close>

definition linked :: "string \<Rightarrow> obj \<Rightarrow> 'a manager_scheme \<Rightarrow> 'a manager_scheme" where
  "linked t x m = m\<lparr>objects := (case byTag m t of
       None \<Rightarrow> objects m | Some old \<Rightarrow> filter (\<lambda>y. obj_id y \<noteq> obj_id old) (objects m)) @ [x],
     byTag := (byTag m)(t \<mapsto> x)\<rparr>"

definition unlinked :: "string \<Rightarrow> 'a manager_scheme \<Rightarrow> 'a manager_scheme" where
  "unlinked t m = (case byTag m t of None \<Rightarrow> m
     | Some x \<Rightarrow> m\<lparr>byTag := (byTag m)(t := None),
                   objects := filter (\<lambda>y. obj_id y \<noteq> obj_id x) (objects m)\<rparr>)"

lemma unlinked_inv [inv_intros]: "mgr_inv m \<Longrightarrow> mgr_inv (unlinked t m)"
  by (auto simp: unlinked_def intro: inv_intros split: option.splits)

lemma unlinked_byTag [simp]: "byTag (unlinked t m) = (byTag m)(t := None)"
  by (auto simp: unlinked_def split: option.splits)

lemma unlinked_ids: "mgr_ids (unlinked t m) \<subseteq> mgr_ids m"
  by (auto simp: unlinked_def mgr_ids_def split: option.splits)

lemma linked_unlinked:
  "linked t x m = (unlinked t m)\<lparr>objects := objects (unlinked t m) @ [x],
     byTag := (byTag (unlinked t m))(t \<mapsto> x)\<rparr>"
  by (auto simp: linked_def unlinked_def split: option.splits)

lemma linked_inv [inv_intros]:
  "mgr_inv m \<Longrightarrow> obj_id x \<notin> mgr_ids m \<Longrightarrow> obj_tag x = t \<Longrightarrow> mgr_inv (linked t x m)"
  using unlinked_ids [of t m] by (subst linked_unlinked, intro mgr_inv_link) (auto intro: unlinked_inv)

lemma linked_ids: "mgr_ids (linked t x m) \<subseteq> insert (obj_id x) (mgr_ids m)"
  by (auto simp: linked_def mgr_ids_def split: option.splits)

lemma linked_byTag [simp]: "byTag (linked t x m) = (byTag m)(t \<mapsto> x)"
  by (simp add: linked_def)

text \<open>
  The state a client of a manager works on is the manager and the trace; \<open>op_of\<close> regroups the
  result of an operation.
\<close>

definition op_of :: "('m \<Rightarrow> trace \<Rightarrow> 'm \<times> trace \<times> unit res) \<Rightarrow> 'm \<times> trace \<Rightarrow> ('m \<times> trace) \<times> unit res" where
  "op_of f s = (case f (fst s) (snd s) of (m, tr, r) \<Rightarrow> ((m, tr), r))"

definition create_op ::
    "(sing_common \<Rightarrow> (string \<Rightarrow> string \<Rightarrow> unit \<Rightarrow> go_error + obj) \<Rightarrow> string \<Rightarrow> string \<Rightarrow> unit \<Rightarrow>
      'm \<Rightarrow> trace \<Rightarrow> 'm \<times> trace \<times> unit res) \<Rightarrow>
     sing_common \<Rightarrow> string \<Rightarrow> obj \<Rightarrow> 'm \<times> trace \<Rightarrow> ('m \<times> trace) \<times> unit res" where
  "create_op C L t x = op_of (C L (\<lambda>_ _ _. Inr x) t (obj_type x) ())"

definition remove_op ::
    "(sing_common \<Rightarrow> string \<Rightarrow> 'm \<Rightarrow> trace \<Rightarrow> 'm \<times> trace \<times> unit res) \<Rightarrow>
     sing_common \<Rightarrow> string \<Rightarrow> 'm \<times> trace \<Rightarrow> ('m \<times> trace) \<times> unit res" where
  "remove_op R L t = op_of (R L t)"

section \<open>The interface of a manager\<close>

text \<open>
  A client of a manager creates and removes components by tag.  The state is seen through the
  map \<open>get\<close> from tag to component and the set \<open>ids\<close> of the identities held.  Every manager
  promises that from a state with its invariant neither operation panics, that a successful
  \<open>create\<close> binds the tag to the new component, that \<open>remove\<close> of a bound tag unbinds it whatever
  it returns, and that other tags keep what they had.
\<close>

datatype mop = MCreate string obj | MRemove string

text \<open>
  Programs over the two operations: one step, a whole run with the list of results, and the
  condition that every component created carries its tag and an identity not used before.
\<close>

fun step_op ::
    "(string \<Rightarrow> obj \<Rightarrow> 's \<Rightarrow> 's \<times> unit res) \<Rightarrow> (string \<Rightarrow> 's \<Rightarrow> 's \<times> unit res) \<Rightarrow>
     mop \<Rightarrow> 's \<Rightarrow> 's \<times> unit res" where
  "step_op create remove (MCreate t x) s = create t x s"
| "step_op create remove (MRemove t) s = remove t s"

fun run_ops ::
    "(string \<Rightarrow> obj \<Rightarrow> 's \<Rightarrow> 's \<times> unit res) \<Rightarrow> (string \<Rightarrow> 's \<Rightarrow> 's \<times> unit res) \<Rightarrow>
     mop list \<Rightarrow> 's \<Rightarrow> 's \<times> unit res list" where
  "run_ops create remove [] s = (s, [])"
| "run_ops create remove (p # ps) s =
     (case step_op create remove p s of (s1, r) \<Rightarrow>
      case run_ops create remove ps s1 of (s2, rs) \<Rightarrow> (s2, r # rs))"

fun fresh_ops :: "mop list \<Rightarrow> nat set \<Rightarrow> bool" where
  "fresh_ops [] used = True"
| "fresh_ops (MCreate t x # ps) used =
     (obj_id x \<notin> used \<and> obj_tag x = t \<and> fresh_ops ps (insert (obj_id x) used))"
| "fresh_ops (MRemove t # ps) used = fresh_ops ps used"

fun op_tag :: "mop \<Rightarrow> string" where
  "op_tag (MCreate t x) = t"
| "op_tag (MRemove t) = t"

text \<open>
  The abstract manager: a map from tag to component that a successful creation updates and a
  removal clears.
\<close>

fun map_step :: "mop \<Rightarrow> unit res \<Rightarrow> (string \<rightharpoonup> obj) \<Rightarrow> (string \<rightharpoonup> obj)" where
  "map_step (MCreate t x) (Ok u) m = m(t \<mapsto> x)"
| "map_step (MCreate t x) r m = m"
| "map_step (MRemove t) r m = m(t := None)"

fun map_run :: "mop list \<Rightarrow> unit res list \<Rightarrow> (string \<rightharpoonup> obj) \<Rightarrow> (string \<rightharpoonup> obj)" where
  "map_run (p # ps) (r # rs) m = map_run ps rs (map_step p r m)"
| "map_run ps rs m = m"

locale tag_manager =
  fixes get :: "'s \<Rightarrow> string \<Rightarrow> obj option"
    and ids :: "'s \<Rightarrow> nat set"
    and inv :: "'s \<Rightarrow> bool"
    and create :: "string \<Rightarrow> obj \<Rightarrow> 's \<Rightarrow> 's \<times> unit res"
    and remove :: "string \<Rightarrow> 's \<Rightarrow> 's \<times> unit res"
  assumes create_inv: "inv s \<Longrightarrow> obj_id x \<notin> ids s \<Longrightarrow> obj_tag x = t \<Longrightarrow> create t x s = (s', r) \<Longrightarrow> inv s'"
    and create_no_panic: "inv s \<Longrightarrow> create t x s = (s', r) \<Longrightarrow> \<not> is_panic r"
    and create_ids: "inv s \<Longrightarrow> create t x s = (s', r) \<Longrightarrow> ids s' \<subseteq> insert (obj_id x) (ids s)"
    and create_ok: "inv s \<Longrightarrow> create t x s = (s', Ok u) \<Longrightarrow> get s' = (get s)(t \<mapsto> x)"
    and create_get: "inv s \<Longrightarrow> create t x s = (s', r) \<Longrightarrow> get s' = get s \<or> get s' = (get s)(t \<mapsto> x)"
    and remove_inv: "inv s \<Longrightarrow> remove t s = (s', r) \<Longrightarrow> inv s'"
    and remove_no_panic: "inv s \<Longrightarrow> remove t s = (s', r) \<Longrightarrow> \<not> is_panic r"
    and remove_ids: "inv s \<Longrightarrow> remove t s = (s', r) \<Longrightarrow> ids s' \<subseteq> ids s"
    and remove_get: "inv s \<Longrightarrow> remove t s = (s', r) \<Longrightarrow> get s' = (get s)(t := None)"
    and remove_missing: "inv s \<Longrightarrow> get s t = None \<Longrightarrow> remove t s = (s, Err ErrInvalid)"
begin

lemma run_keeps:
  "inv s \<Longrightarrow> ids s \<subseteq> used \<Longrightarrow> fresh_ops ps used \<Longrightarrow> run_ops create remove ps s = (s', rs) \<Longrightarrow>
   inv s' \<and> (\<forall>r \<in> set rs. \<not> is_panic r)"
proof (induction ps arbitrary: s used rs)
  case (Cons p ps)
  obtain s1 r where st: "step_op create remove p s = (s1, r)" by fastforce
  obtain s2 rs2 where rn: "run_ops create remove ps s1 = (s2, rs2)" by fastforce
  from st rn Cons.prems(4) have out: "s' = s2" "rs = r # rs2" by simp_all
  show ?case
  proof (cases p)
    case (MCreate t x)
    with st Cons.prems have c: "create t x s = (s1, r)" "obj_id x \<notin> ids s" "obj_tag x = t" by auto
    have "inv s1" using create_inv [OF Cons.prems(1) c(2,3,1)] .
    moreover have "\<not> is_panic r" using create_no_panic [OF Cons.prems(1) c(1)] .
    moreover have "ids s1 \<subseteq> insert (obj_id x) used"
      using create_ids [OF Cons.prems(1) c(1)] Cons.prems(2) by auto
    ultimately show ?thesis
      using Cons.IH [of s1 "insert (obj_id x) used" rs2] Cons.prems(3) MCreate rn out by simp
  next
    case (MRemove t)
    with st have c: "remove t s = (s1, r)" by simp
    have "ids s1 \<subseteq> used" using remove_ids [OF Cons.prems(1) c] Cons.prems(2) by auto
    then show ?thesis
      using Cons.IH [of s1 used rs2] Cons.prems(3) MRemove rn out
        remove_inv [OF Cons.prems(1) c] remove_no_panic [OF Cons.prems(1) c] by simp
  qed
qed simp

text \<open>A tag no operation of the program names keeps its component.\<close>

lemma step_frame: "inv s \<Longrightarrow> step_op create remove p s = (s', r) \<Longrightarrow> t \<noteq> op_tag p \<Longrightarrow> get s' t = get s t"
proof (cases p)
  case (MCreate t' x)
  assume "inv s" "step_op create remove p s = (s', r)" "t \<noteq> op_tag p"
  with MCreate create_get [of s t' x s' r] show ?thesis by auto
next
  case (MRemove t')
  assume "inv s" "step_op create remove p s = (s', r)" "t \<noteq> op_tag p"
  with MRemove remove_get [of s t' s' r] show ?thesis by auto
qed

lemma create_then_remove:
  "inv s \<Longrightarrow> obj_id x \<notin> ids s \<Longrightarrow> obj_tag x = t \<Longrightarrow> get s t = None \<Longrightarrow>
   create t x s = (s1, Ok u) \<Longrightarrow> remove t s1 = (s2, r) \<Longrightarrow> get s2 = get s"
  using create_ok [of s t x s1 u] create_inv [of s x t s1 "Ok u"] remove_get [of s1 t s2 r]
  by (auto simp: fun_eq_iff)

end

text \<open>
  A manager whose \<open>create\<close> is all or nothing: when it fails, the map is as before.  Then the
  results of a program determine the map, as for an abstract map that is updated on success.
\<close>

locale atomic_tag_manager = tag_manager +
  assumes create_err: "inv s \<Longrightarrow> create t x s = (s', Err e) \<Longrightarrow> get s' = get s"
begin

lemma step_refines: "inv s \<Longrightarrow> step_op create remove p s = (s', r) \<Longrightarrow> get s' = map_step p r (get s)"
proof (cases p)
  case (MCreate t x)
  assume a: "inv s" "step_op create remove p s = (s', r)"
  with MCreate show ?thesis
    using create_ok [of s t x s'] create_err [of s t x s'] create_no_panic [of s t x s' r]
    by (cases r) auto
next
  case (MRemove t)
  assume "inv s" "step_op create remove p s = (s', r)"
  with MRemove remove_get [of s t s' r] show ?thesis by (cases r) auto
qed

lemma run_refines:
  "inv s \<Longrightarrow> ids s \<subseteq> used \<Longrightarrow> fresh_ops ps used \<Longrightarrow> run_ops create remove ps s = (s', rs) \<Longrightarrow>
   get s' = map_run ps rs (get s)"
proof (induction ps arbitrary: s used rs)
  case (Cons p ps)
  obtain s1 r where st: "step_op create remove p s = (s1, r)" by fastforce
  obtain s2 rs2 where rn: "run_ops create remove ps s1 = (s2, rs2)" by fastforce
  from st rn Cons.prems(4) have out: "s' = s2" "rs = r # rs2" by simp_all
  note rn' = rn [folded out(1)]
  have g: "get s1 = map_step p r (get s)" using step_refines Cons.prems(1) st by blast
  have "get s' = map_run ps rs2 (get s1)"
  proof (cases p)
    case (MCreate t x)
    with st Cons.prems have c: "create t x s = (s1, r)" "obj_id x \<notin> ids s" "obj_tag x = t" by auto
    have "ids s1 \<subseteq> insert (obj_id x) used"
      using create_ids [OF Cons.prems(1) c(1)] Cons.prems(2) by auto
    with create_inv [OF Cons.prems(1) c(2,3,1)] show ?thesis
      by (rule Cons.IH) (use Cons.prems(3) MCreate rn' in simp_all)
  next
    case (MRemove t)
    with st have c: "remove t s = (s1, r)" by simp
    have "ids s1 \<subseteq> used" using remove_ids [OF Cons.prems(1) c] Cons.prems(2) by auto
    with remove_inv [OF Cons.prems(1) c] show ?thesis
      by (rule Cons.IH) (use Cons.prems(3) MRemove rn' in simp_all)
  qed
  then show ?case by (simp only: out(2) g map_run.simps)
qed simp

end

section \<open>A component for the examples\<close>

text \<open>A staged component whose calls always succeed, used by the witnesses.\<close>

definition demo_obj :: "nat \<Rightarrow> string \<Rightarrow> obj" where
  "demo_obj i t = \<lparr>obj_id = i, obj_type = ''direct'', obj_tag = t, obj_deps = [],
     is_lifecycle = True, has_prestart = False, has_start = False, has_poststart = False,
     is_closer = True, obj_call = (\<lambda>_ _. None)\<rparr>"

lemma demo_obj_simps [simp]:
  "obj_id (demo_obj i t) = i" "obj_tag (demo_obj i t) = t" "obj_deps (demo_obj i t) = []"
  "is_lifecycle (demo_obj i t)" "is_closer (demo_obj i t)" "obj_call (demo_obj i t) tr c = None"
  by (simp_all add: demo_obj_def)


end
