(* ===== verification/Simple_Managers.thy ===== *)
theory Simple_Managers
  imports Manager_Base
begin

text \<open>
  The endpoint, inbound and service managers (\<open>core/adapter/endpoint/manager.go\<close>,
  \<open>core/adapter/inbound/manager.go\<close>, \<open>core/adapter/service/manager.go\<close>).  The three files are
  copies of each other up to names: \<open>simple_Close\<close>, \<open>simple_Remove\<close> and \<open>simple_Create\<close> are the
  shared bodies, with the word the messages use as an argument, and each manager's operations
  are instances of them.  \<open>Start\<close> differs and is written out for each.  The registry that
  makes a component from its options is an argument.
\<close>

section \<open>The shared bodies\<close>

definition new_manager :: manager where
  "new_manager = \<lparr>started = False, stage = StartStateInitialize, objects = [], byTag = Map.empty\<rparr>"

definition simple_Close :: "manager \<Rightarrow> trace \<Rightarrow> manager \<times> trace \<times> unit res" where
  "simple_Close m tr =
     (if \<not> started m then (m, tr, Ok ())
      else (m\<lparr>started := False, objects := []\<rparr>, close_loop (objects m) tr, Ok ()))"

definition simple_Remove ::
    "string \<Rightarrow> sing_common \<Rightarrow> string \<Rightarrow> manager \<Rightarrow> trace \<Rightarrow> manager \<times> trace \<times> unit res" where
  "simple_Remove kind L tag m tr =
     (case byTag m tag of
        None \<Rightarrow> (m, tr, Err ErrInvalid)
      | Some x \<Rightarrow>
          let m1 = m\<lparr>byTag := (byTag m)(tag := None)\<rparr> in
          (case cut L x (objects m1) of
             None \<Rightarrow> (m1, tr, Panic (''invalid '' @ kind @ '' index''))
           | Some xs \<Rightarrow>
               let m2 = m1\<lparr>objects := xs\<rparr> in
               if started m2
               then (case do_call x CClose tr of (tr', e) \<Rightarrow> (m2, tr', res_of_error e))
               else (m2, tr, Ok ())))"

definition simple_Create ::
    "string \<Rightarrow> sing_common \<Rightarrow> (string \<Rightarrow> string \<Rightarrow> 'opt \<Rightarrow> go_error + obj) \<Rightarrow>
     string \<Rightarrow> string \<Rightarrow> 'opt \<Rightarrow> manager \<Rightarrow> trace \<Rightarrow> manager \<times> trace \<times> unit res" where
  "simple_Create kind L registry tag typ options m tr =
     (case registry tag typ options of
        Inl e \<Rightarrow> (m, tr, Err e)
      | Inr x \<Rightarrow>
     (case (if started m then stages_loop ('' '' @ kind @ ''/'') ListStartStages x tr else (tr, None)) of
        (tr1, Some e) \<Rightarrow> (m, tr1, Err e)
      | (tr1, None) \<Rightarrow>
     (case byTag m tag of
        Some old \<Rightarrow>
          (case (if started m then do_call old CClose tr1 else (tr1, None)) of
             (tr2, Some e) \<Rightarrow> (m, tr2, Err (kind_err e (''close '' @ kind @ ''/'') old))
           | (tr2, None) \<Rightarrow>
               (case cut L old (objects m) of
                  None \<Rightarrow> (m, tr2, Panic (''invalid '' @ kind @ '' index''))
                | Some xs \<Rightarrow>
                    (m\<lparr>objects := xs @ [x], byTag := (byTag m)(tag \<mapsto> x)\<rparr>, tr2, Ok ())))
      | None \<Rightarrow>
          (m\<lparr>objects := objects m @ [x], byTag := (byTag m)(tag \<mapsto> x)\<rparr>, tr1, Ok ()))))"

section \<open>Endpoint manager\<close>

definition endpoint_NewManager :: manager where
  "endpoint_NewManager = new_manager"

definition endpoint_Start :: "StartStage \<Rightarrow> manager \<Rightarrow> trace \<Rightarrow> manager \<times> trace \<times> unit res" where
  "endpoint_Start st m tr =
     (if started m \<and> stage m \<ge> st then (m, tr, Panic ''already started'')
      else
        let m1 = m\<lparr>started := True, stage := st\<rparr> in
        if st = StartStateStart then (m1, tr, Ok ()) \<comment> \<open>started with the outbound manager\<close>
        else (case start_loop '' endpoint/'' st (objects m1) tr of
                (tr', e) \<Rightarrow> (m1, tr', res_of_error e)))"

definition endpoint_Close :: "manager \<Rightarrow> trace \<Rightarrow> manager \<times> trace \<times> unit res" where
  "endpoint_Close = simple_Close"

definition endpoint_Endpoints :: "manager \<Rightarrow> obj list" where
  "endpoint_Endpoints m = objects m"

definition endpoint_Get :: "manager \<Rightarrow> string \<Rightarrow> obj option" where
  "endpoint_Get m tag = byTag m tag"

definition endpoint_Remove ::
    "sing_common \<Rightarrow> string \<Rightarrow> manager \<Rightarrow> trace \<Rightarrow> manager \<times> trace \<times> unit res" where
  "endpoint_Remove = simple_Remove ''endpoint''"

definition endpoint_Create ::
    "sing_common \<Rightarrow> (string \<Rightarrow> string \<Rightarrow> 'opt \<Rightarrow> go_error + obj) \<Rightarrow>
     string \<Rightarrow> string \<Rightarrow> 'opt \<Rightarrow> manager \<Rightarrow> trace \<Rightarrow> manager \<times> trace \<times> unit res" where
  "endpoint_Create = simple_Create ''endpoint''"

section \<open>Inbound manager\<close>

definition inbound_NewManager :: manager where
  "inbound_NewManager = new_manager"

definition inbound_Start :: "StartStage \<Rightarrow> manager \<Rightarrow> trace \<Rightarrow> manager \<times> trace \<times> unit res" where
  "inbound_Start st m tr =
     (if started m \<and> stage m \<ge> st then (m, tr, Panic ''already started'')
      else
        let m1 = m\<lparr>started := True, stage := st\<rparr> in
        (case start_loop '' inbound/'' st (objects m1) tr of
           (tr', e) \<Rightarrow> (m1, tr', res_of_error e)))"

definition inbound_Close :: "manager \<Rightarrow> trace \<Rightarrow> manager \<times> trace \<times> unit res" where
  "inbound_Close = simple_Close"

definition inbound_Inbounds :: "manager \<Rightarrow> obj list" where
  "inbound_Inbounds m = objects m"

text \<open>\<open>Get\<close> falls back to the endpoint manager, which is the first argument.\<close>

definition inbound_Get :: "manager \<Rightarrow> manager \<Rightarrow> string \<Rightarrow> obj option" where
  "inbound_Get endpoint m tag =
     (case byTag m tag of Some x \<Rightarrow> Some x | None \<Rightarrow> endpoint_Get endpoint tag)"

definition inbound_Remove ::
    "sing_common \<Rightarrow> string \<Rightarrow> manager \<Rightarrow> trace \<Rightarrow> manager \<times> trace \<times> unit res" where
  "inbound_Remove = simple_Remove ''inbound''"

definition inbound_Create ::
    "sing_common \<Rightarrow> (string \<Rightarrow> string \<Rightarrow> 'opt \<Rightarrow> go_error + obj) \<Rightarrow>
     string \<Rightarrow> string \<Rightarrow> 'opt \<Rightarrow> manager \<Rightarrow> trace \<Rightarrow> manager \<times> trace \<times> unit res" where
  "inbound_Create = simple_Create ''inbound''"

section \<open>Service manager\<close>

definition service_NewManager :: manager where
  "service_NewManager = new_manager"

definition service_Start :: "StartStage \<Rightarrow> manager \<Rightarrow> trace \<Rightarrow> manager \<times> trace \<times> unit res" where
  "service_Start st m tr =
     (if started m \<and> stage m \<ge> st then (m, tr, Panic ''already started'')
      else
        let m1 = m\<lparr>started := True, stage := st\<rparr> in
        (case start_loop '' service/'' st (objects m1) tr of
           (tr', e) \<Rightarrow> (m1, tr', res_of_error e)))"

definition service_Close :: "manager \<Rightarrow> trace \<Rightarrow> manager \<times> trace \<times> unit res" where
  "service_Close = simple_Close"

definition service_Services :: "manager \<Rightarrow> obj list" where
  "service_Services m = objects m"

definition service_Get :: "manager \<Rightarrow> string \<Rightarrow> obj option" where
  "service_Get m tag = byTag m tag"

definition service_Remove ::
    "sing_common \<Rightarrow> string \<Rightarrow> manager \<Rightarrow> trace \<Rightarrow> manager \<times> trace \<times> unit res" where
  "service_Remove = simple_Remove ''service''"

definition service_Create ::
    "sing_common \<Rightarrow> (string \<Rightarrow> string \<Rightarrow> 'opt \<Rightarrow> go_error + obj) \<Rightarrow>
     string \<Rightarrow> string \<Rightarrow> 'opt \<Rightarrow> manager \<Rightarrow> trace \<Rightarrow> manager \<times> trace \<times> unit res" where
  "service_Create = simple_Create ''service''"

section \<open>The managers implement the interface\<close>

text \<open>
  The state a client works on is the manager and the trace.
\<close>

type_synonym mstate = "manager \<times> trace"

lemma simple_Create_cases:
  assumes "mgr_inv m" and "simple_Create kind sing_ref (\<lambda>_ _ _. Inr x) t ty opt m tr = (m', tr', r)"
  shows "(\<exists>e. m' = m \<and> r = Err e) \<or> (m' = linked t x m \<and> r = Ok ())"
  using assms mgr_inv_cut [OF assms(1), of t]
  by (cases "byTag m t")
     (auto simp: simple_Create_def linked_def split: option.splits prod.splits if_splits)

lemma simple_Remove_cases:
  assumes "mgr_inv m" and "simple_Remove kind sing_ref t m tr = (m', tr', r)"
  shows "m' = unlinked t m" and "\<not> is_panic r"
    and "byTag m t = None \<Longrightarrow> tr' = tr \<and> r = Err ErrInvalid"
  using assms mgr_inv_cut [OF assms(1), of t]
  by (cases "byTag m t", auto simp: simple_Remove_def unlinked_def Let_def split: prod.splits if_splits)+

lemma simple_create_cases:
  "mgr_inv (fst s) \<Longrightarrow> create_op (simple_Create kind) sing_ref t x s = (s', r) \<Longrightarrow>
   (\<exists>e. fst s' = fst s \<and> r = Err e) \<or> (fst s' = linked t x (fst s) \<and> r = Ok ())"
  by (cases s') (auto simp: create_op_def op_of_def split: prod.splits dest: simple_Create_cases)

lemma simple_remove_cases:
  assumes "mgr_inv (fst s)" and "remove_op (simple_Remove kind) sing_ref t s = (s', r)"
  shows "fst s' = unlinked t (fst s)" and "\<not> is_panic r"
    and "byTag (fst s) t = None \<Longrightarrow> s' = s \<and> r = Err ErrInvalid"
  using assms simple_Remove_cases [of "fst s" kind t "snd s" "fst s'" "snd s'" r]
  by (cases s; auto simp: remove_op_def op_of_def unlinked_def split: prod.splits)+

interpretation simple: atomic_tag_manager
  "\<lambda>s. byTag (fst s)" "\<lambda>s. mgr_ids (fst s)" "\<lambda>s :: mstate. mgr_inv (fst s)"
  "create_op (simple_Create kind) sing_ref" "remove_op (simple_Remove kind) sing_ref" for kind
proof (unfold_locales, goal_cases)
  case (1 s x t s' r) then show ?case by (metis simple_create_cases linked_inv)
next
  case (2 s t x s' r) then show ?case using simple_create_cases [of s kind t x s' r] by auto
next
  case (3 s t x s' r) then show ?case
    using simple_create_cases [of s kind t x s' r] linked_ids [of t x "fst s"] by auto
next
  case (4 s t x s' u) then show ?case using simple_create_cases [of s kind t x s' "Ok u"] by auto
next
  case (5 s t x s' r) then show ?case using simple_create_cases [of s kind t x s' r] by auto
next
  case (6 s t s' r) then show ?case by (simp add: simple_remove_cases unlinked_inv)
next
  case (7 s t s' r) then show ?case by (simp add: simple_remove_cases)
next
  case (8 s t s' r) then show ?case by (simp add: simple_remove_cases unlinked_ids)
next
  case (9 s t s' r) then show ?case by (simp add: simple_remove_cases)
next
  case (10 s t) then show ?case
    using simple_remove_cases(3) [of s kind t] by (metis prod.collapse)
next
  case (11 s t x s' e) then show ?case using simple_create_cases [of s kind t x s' "Err e"] by auto
qed

section \<open>Properties\<close>

lemma simple_run:
  assumes "sing_common_ok L" and "mgr_inv m" and "fresh_ops ps (mgr_ids m)"
    and "run_ops (create_op (simple_Create kind) L) (remove_op (simple_Remove kind) L) ps (m, tr)
         = ((m', tr'), rs)"
  shows "mgr_inv m'" and "\<forall>r \<in> set rs. \<not> is_panic r"
    and "byTag m' = map_run ps rs (byTag m)"
  using simple.run_keeps [of "(m, tr)" "mgr_ids m" ps kind "(m', tr')" rs]
    simple.run_refines [of "(m, tr)" "mgr_ids m" ps kind "(m', tr')" rs]
    assms sing_common_okD [OF assms(1)]
  by simp_all

text \<open>
  C28: For every sequence of \<open>Create\<close> and \<open>Remove\<close> calls on the endpoint manager, whose
  components carry their tag and are pairwise different objects, no call panics, the slice
  and the map stay in agreement, and \<open>Get\<close> answers exactly as a map that each successful
  \<open>Create\<close> updates and each \<open>Remove\<close> clears.
\<close>

theorem endpoint_refines_map:
  assumes "sing_common_ok L" and "mgr_inv m" and "fresh_ops ps (mgr_ids m)"
    and "run_ops (create_op endpoint_Create L) (remove_op endpoint_Remove L) ps (m, tr)
         = ((m', tr'), rs)"
  shows "mgr_inv m' \<and> (\<forall>r \<in> set rs. \<not> is_panic r) \<and>
         endpoint_Get m' = map_run ps rs (endpoint_Get m)"
proof -
  have g: "endpoint_Get = byTag" by (simp add: fun_eq_iff endpoint_Get_def)
  show ?thesis
    using simple_run [OF assms(1-3), of "''endpoint''" tr m' tr' rs] assms(4)
    by (simp add: g endpoint_Create_def endpoint_Remove_def)
qed

theorem endpoint_refines_map_witness:
  "\<exists>m' tr' rs.
     run_ops (create_op endpoint_Create sing_ref) (remove_op endpoint_Remove sing_ref)
       [MCreate ''wg'' (demo_obj 1 ''wg''), MCreate ''wg'' (demo_obj 2 ''wg'')]
       (endpoint_NewManager, []) = ((m', tr'), rs) \<and>
     mgr_inv m' \<and> endpoint_Get m' ''wg'' = Some (demo_obj 2 ''wg'')"
proof -
  let ?ps = "[MCreate ''wg'' (demo_obj 1 ''wg''), MCreate ''wg'' (demo_obj 2 ''wg'')]"
  let ?run = "run_ops (create_op endpoint_Create sing_ref) (remove_op endpoint_Remove sing_ref)
       ?ps (endpoint_NewManager, [])"
  obtain m' tr' rs where run: "?run = ((m', tr'), rs)" by (metis surj_pair)
  have rs: "snd ?run = [Ok (), Ok ()]"
    by (simp add: create_op_def op_of_def endpoint_Create_def simple_Create_def
        endpoint_NewManager_def new_manager_def cut_def remove_at_def)
  have "mgr_inv m' \<and> endpoint_Get m' = map_run ?ps rs (endpoint_Get endpoint_NewManager)"
    using endpoint_refines_map [OF sing_ref_ok _ _ run]
    by (simp add: endpoint_NewManager_def new_manager_def mgr_inv_def mgr_ids_def)
  with run rs show ?thesis by auto
qed

text \<open>
  A successful \<open>Start\<close> of the inbound manager makes exactly the calls the stage asks of
  each inbound, inbound by inbound in the order they were created, and records the stage;
  after it, \<open>Start\<close> panics for exactly the stages that are not later.
\<close>

theorem inbound_Start_calls:
  assumes "inbound_Start st m tr = (m', tr', Ok ())"
  shows "tr' = tr @ concat (map (\<lambda>x. stage_calls x st) (objects m)) \<and> objects m' = objects m \<and>
         (is_panic (snd (snd (inbound_Start st' m' tr''))) \<longleftrightarrow> st' \<le> st)"
  using assms start_loop_calls [of "'' inbound/''" st "objects m" tr tr']
  by (auto simp: inbound_Start_def Let_def split: if_splits prod.splits)

theorem inbound_Start_calls_witness:
  "inbound_Start StartStateStart (new_manager\<lparr>objects := [demo_obj 1 ''in'']\<rparr>) []
     = (new_manager\<lparr>objects := [demo_obj 1 ''in''], started := True, stage := StartStateStart\<rparr>,
        [(1, CStart StartStateStart)], Ok ()) \<and>
   \<not> is_panic (snd (snd (inbound_Start StartStatePostStart
      (new_manager\<lparr>objects := [demo_obj 1 ''in''], started := True, stage := StartStateStart\<rparr>) [])))"
proof -
  have run: "inbound_Start StartStateStart (new_manager\<lparr>objects := [demo_obj 1 ''in'']\<rparr>) []
     = (new_manager\<lparr>objects := [demo_obj 1 ''in''], started := True, stage := StartStateStart\<rparr>,
        [(1, CStart StartStateStart)], Ok ())"
    by (simp add: inbound_Start_def new_manager_def LegacyStart_def do_call_def)
  show ?thesis
    using run inbound_Start_calls [OF run, of StartStatePostStart "[]"]
    by (simp add: stage_order)
qed

text \<open>
  \<open>Close\<close> empties the slice but keeps the map of the endpoint manager, so a tag that was
  registered is still found by \<open>Get\<close> afterwards, and both \<open>Remove\<close> and \<open>Create\<close> of that tag
  panic with an invalid index.
\<close>

theorem endpoint_after_Close_panics:
  assumes "sing_common_ok L" and "started m" and "byTag m t = Some x"
    and "endpoint_Close m tr = (m', tr', r)" and "registry t ty opt = Inr y"
  shows "endpoint_Get m' t = Some x \<and>
         snd (snd (endpoint_Remove L t m' tr')) = Panic ''invalid endpoint index'' \<and>
         snd (snd (endpoint_Create L registry t ty opt m' tr')) = Panic ''invalid endpoint index''"
  using assms sing_common_okD [OF assms(1)]
  by (auto simp: endpoint_Close_def simple_Close_def endpoint_Get_def endpoint_Remove_def
      simple_Remove_def endpoint_Create_def simple_Create_def)

theorem endpoint_after_Close_panics_witness:
  "endpoint_Get (new_manager\<lparr>byTag := [''wg'' \<mapsto> demo_obj 1 ''wg'']\<rparr>) ''wg'' = Some (demo_obj 1 ''wg'') \<and>
   snd (snd (endpoint_Remove sing_ref ''wg'' (new_manager\<lparr>byTag := [''wg'' \<mapsto> demo_obj 1 ''wg'']\<rparr>)
      [(1, CClose)])) = Panic ''invalid endpoint index''"
proof -
  let ?m = "new_manager\<lparr>objects := [demo_obj 1 ''wg''], byTag := [''wg'' \<mapsto> demo_obj 1 ''wg''], started := True\<rparr>"
  have c: "endpoint_Close ?m [] = (new_manager\<lparr>byTag := [''wg'' \<mapsto> demo_obj 1 ''wg'']\<rparr>, [(1, CClose)], Ok ())"
    by (simp add: endpoint_Close_def simple_Close_def new_manager_def)
  show ?thesis
    using endpoint_after_Close_panics [OF sing_ref_ok _ _ c, of "''wg''" "demo_obj 1 ''wg''"
        "\<lambda>_ _ _. Inr (demo_obj 2 ''wg'')" "''x''" "()"]
    by simp
qed

end
