(* ===== verification/Dependency_Start.thy ===== *)
theory Dependency_Start
  imports Manager_Base "HOL-Library.Multiset"
begin

text \<open>
  Starting components in dependency order: the loop of \<open>startOutbounds\<close>
  (\<open>core/adapter/outbound/manager.go\<close>) and \<open>startTransports\<close>
  (\<open>core/dns/transport_manager.go\<close>), which are copies of each other.  Go's set \<open>started\<close> is
  the list of tags in the order they were added.  The arguments are the words the messages
  use and how one component is started.
\<close>

record start_words =
  w_start :: string      \<comment> \<open>prefix of the error of a failed start\<close>
  w_circular :: string   \<comment> \<open>prefix of the error for a cycle\<close>
  w_for :: string        \<comment> \<open>middle part of the error for a missing dependency\<close>

type_synonym starter = "obj \<Rightarrow> trace \<Rightarrow> trace \<times> go_error option"

text \<open>One pass over all components (the inner loop labelled \<open>startOne\<close>).\<close>

fun start_pass ::
    "start_words \<Rightarrow> starter \<Rightarrow> obj list \<Rightarrow> string list \<Rightarrow> bool \<Rightarrow> trace \<Rightarrow>
     trace \<times> string list \<times> bool \<times> go_error option" where
  "start_pass W start1 [] st cc tr = (tr, st, cc, None)"
| "start_pass W start1 (x # xs) st cc tr =
     (if obj_tag x \<in> set st then start_pass W start1 xs st cc tr
      else if list_ex (\<lambda>d. d \<notin> set st) (obj_deps x) then start_pass W start1 xs st cc tr
      else
        (case start1 x tr of
           (tr', Some e) \<Rightarrow> (tr', st @ [obj_tag x], True, Some (kind_err e (w_start W) x))
         | (tr', None) \<Rightarrow> start_pass W start1 xs (st @ [obj_tag x]) True tr'))"

text \<open>
  The explanation of a stuck loop (the closures \<open>lintOutbound\<close> and \<open>lintTransport\<close>): follow the
  first dependency that is not started until it closes a cycle or is not registered.  The
  recursion is bounded by fuel; running out of it would be Go's stack overflow.
\<close>

fun lint ::
    "nat \<Rightarrow> start_words \<Rightarrow> sing_common \<Rightarrow> string list \<Rightarrow> (string \<rightharpoonup> obj) \<Rightarrow> string list \<Rightarrow> obj \<Rightarrow>
     go_error option" where
  "lint 0 W L st bt oTree oCurrent = None"
| "lint (Suc n) W L st bt oTree oCurrent =
     (let problem = sc_FindStr L (obj_deps oCurrent) (\<lambda>it. it \<notin> set st) in
      if sc_Contains L oTree problem
      then Some (ENew [AStr (w_circular W), AStr (strings_Join oTree '' -> ''), AStr '' -> '', AStr problem])
      else case bt problem of
        None \<Rightarrow> Some (ENew [AStr ''dependency['', AStr problem, AStr (w_for W),
                  AStr (obj_tag oCurrent), AStr '']''])
      | Some q \<Rightarrow> lint n W L st bt (oTree @ [problem]) q)"

text \<open>The body of the outer loop after a pass, and the loop.\<close>

definition start_stuck ::
    "nat \<Rightarrow> start_words \<Rightarrow> sing_common \<Rightarrow> (string \<rightharpoonup> obj) \<Rightarrow> obj list \<Rightarrow> string list \<Rightarrow> unit res" where
  "start_stuck fuel W L bt outs st =
     (case sc_FindObj L outs (\<lambda>it. obj_tag it \<notin> set st) of
        None \<Rightarrow> Panic ''nil pointer dereference''
      | Some cur \<Rightarrow>
          (case lint fuel W L st bt [obj_tag cur] cur of
             None \<Rightarrow> Panic ''stack overflow''
           | Some e \<Rightarrow> Err e))"

lemma start_pass_grows:
  "start_pass W start1 xs st cc tr = (tr', st', cc', e) \<Longrightarrow>
   \<exists>ys. st' = st @ map obj_tag ys \<and> set ys \<subseteq> set xs \<and> (cc' \<longleftrightarrow> cc \<or> ys \<noteq> []) \<and>
        distinct (map obj_tag ys) \<and> obj_tag ` set ys \<inter> set st = {}"
proof (induction xs arbitrary: st cc tr)
  case (Cons x xs)
  show ?case
  proof (cases "obj_tag x \<in> set st \<or> list_ex (\<lambda>d. d \<notin> set st) (obj_deps x)")
    case True
    with Cons.prems have "start_pass W start1 xs st cc tr = (tr', st', cc', e)"
      by (auto split: if_splits)
    from Cons.IH [OF this] show ?thesis by auto
  next
    case False
    obtain t1 r where s: "start1 x tr = (t1, r)" by fastforce
    show ?thesis
    proof (cases r)
      case None
      with False s Cons.prems
      have "start_pass W start1 xs (st @ [obj_tag x]) True t1 = (tr', st', cc', e)" by simp
      from Cons.IH [OF this] obtain ys where
        ys: "st' = (st @ [obj_tag x]) @ map obj_tag ys" "set ys \<subseteq> set xs" "cc'"
        "distinct (map obj_tag ys)" "obj_tag ` set ys \<inter> set (st @ [obj_tag x]) = {}" by auto
      with False show ?thesis by (intro exI [of _ "x # ys"]) auto
    next
      case (Some _)
      with False s Cons.prems show ?thesis by (intro exI [of _ "[x]"]) auto
    qed
  qed
qed auto

function start_rounds ::
    "nat \<Rightarrow> start_words \<Rightarrow> starter \<Rightarrow> sing_common \<Rightarrow> (string \<rightharpoonup> obj) \<Rightarrow> obj list \<Rightarrow> string list \<Rightarrow>
     trace \<Rightarrow> trace \<times> unit res" where
  "start_rounds fuel W start1 L bt outs st tr =
     (case start_pass W start1 outs st False tr of
        (tr', st', cc, Some e) \<Rightarrow> (tr', Err e)
      | (tr', st', cc, None) \<Rightarrow>
          if length st' = length outs then (tr', Ok ())
          else if cc then start_rounds fuel W start1 L bt outs st' tr'
          else (tr', start_stuck fuel W L bt outs st'))"
  by pat_completeness auto
termination
proof (relation "measure (\<lambda>(fuel, W, start1, L, bt, outs, st, tr). card (obj_tag ` set outs - set st))",
    goal_cases)
  case (2 fuel W start1 L bt outs st tr tr' q st' u cc r)
  then have "start_pass W start1 outs st False tr = (tr', st', True, None)" by simp
  from start_pass_grows [OF this] obtain ys where ys: "st' = st @ map obj_tag ys"
    "set ys \<subseteq> set outs" "ys \<noteq> []" "obj_tag ` set ys \<inter> set st = {}" by auto
  then have "obj_tag ` set outs - set st' \<subset> obj_tag ` set outs - set st"
    by (cases ys) auto
  then show ?case by (simp add: psubset_card_mono)
qed simp

declare start_rounds.simps [simp del]

definition start_in_order ::
    "nat \<Rightarrow> start_words \<Rightarrow> starter \<Rightarrow> sing_common \<Rightarrow> (string \<rightharpoonup> obj) \<Rightarrow> obj list \<Rightarrow> trace \<Rightarrow> trace \<times> unit res" where
  "start_in_order fuel W start1 L bt outs tr = start_rounds fuel W start1 L bt outs [] tr"

section \<open>A successful run is a topological order\<close>

text \<open>\<open>topo st xs\<close>: every component of \<open>xs\<close> comes after its dependencies, given \<open>st\<close> started.\<close>

fun topo :: "string list \<Rightarrow> obj list \<Rightarrow> bool" where
  "topo st [] = True"
| "topo st (x # xs) = (set (obj_deps x) \<subseteq> set st \<and> topo (st @ [obj_tag x]) xs)"

lemma topo_append: "topo st (xs @ ys) \<longleftrightarrow> topo st xs \<and> topo (st @ map obj_tag xs) ys"
  by (induction xs arbitrary: st) auto

text \<open>
  \<open>appends calls start1\<close>: a start that succeeds appends exactly \<open>calls x\<close> to the trace, as the
  starters of both managers do.
\<close>

definition appends :: "(obj \<Rightarrow> (nat \<times> call) list) \<Rightarrow> starter \<Rightarrow> bool" where
  "appends calls start1 \<longleftrightarrow> (\<forall>x tr. fst (start1 x tr) = tr @ calls x)"

lemma start_pass_order:
  "appends calls start1 \<Longrightarrow> start_pass W start1 xs st cc tr = (tr', st', cc', None) \<Longrightarrow>
   \<exists>ys. st' = st @ map obj_tag ys \<and> set ys \<subseteq> set xs \<and> topo st ys \<and>
        distinct (map obj_tag ys) \<and> obj_tag ` set ys \<inter> set st = {} \<and>
        tr' = tr @ concat (map calls ys)"
proof (induction xs arbitrary: st cc tr)
  case (Cons x xs)
  show ?case
  proof (cases "obj_tag x \<in> set st \<or> list_ex (\<lambda>d. d \<notin> set st) (obj_deps x)")
    case True
    with Cons.prems have "start_pass W start1 xs st cc tr = (tr', st', cc', None)"
      by (auto split: if_splits)
    from Cons.IH [OF Cons.prems(1) this] show ?thesis by auto
  next
    case False
    obtain t1 r where s: "start1 x tr = (t1, r)" by fastforce
    with Cons.prems(1) have t1: "t1 = tr @ calls x" by (metis appends_def fst_conv)
    from False s Cons.prems(2) have "r = None" by (cases r) auto
    with False s Cons.prems(2)
    have "start_pass W start1 xs (st @ [obj_tag x]) True t1 = (tr', st', cc', None)" by simp
    from Cons.IH [OF Cons.prems(1) this] obtain ys where
      "st' = (st @ [obj_tag x]) @ map obj_tag ys" "set ys \<subseteq> set xs" "topo (st @ [obj_tag x]) ys"
      "distinct (map obj_tag ys)" "obj_tag ` set ys \<inter> set (st @ [obj_tag x]) = {}"
      "tr' = t1 @ concat (map calls ys)" by auto
    with False t1 show ?thesis
      by (intro exI [of _ "x # ys"]) (auto simp: list_ex_iff)
  qed
qed auto

lemma start_rounds_order:
  assumes "appends calls start1" and "start_rounds fuel W start1 L bt outs st tr = (tr', Ok u)"
  shows "\<exists>ys. length st + length ys = length outs \<and> set ys \<subseteq> set outs \<and> topo st ys \<and>
        distinct (map obj_tag ys) \<and> obj_tag ` set ys \<inter> set st = {} \<and>
        tr' = tr @ concat (map calls ys)"
  using assms
proof (induction fuel W start1 L bt outs st tr rule: start_rounds.induct)
  case (1 fuel W start1 L bt outs st tr)
  obtain t1 s1 cc e where p: "start_pass W start1 outs st False tr = (t1, s1, cc, e)"
    by (metis prod_cases4)
  with "1.prems"(2) have e: "e = None"
    by (subst (asm) start_rounds.simps) (auto split: option.splits)
  from start_pass_order [OF "1.prems"(1) p [unfolded e]] obtain ys where
    ys: "s1 = st @ map obj_tag ys" "set ys \<subseteq> set outs" "topo st ys" "distinct (map obj_tag ys)"
      "obj_tag ` set ys \<inter> set st = {}" "t1 = tr @ concat (map calls ys)" by auto
  show ?case
  proof (cases "length s1 = length outs")
    case True
    with "1.prems"(2) p e have "tr' = t1"
      by (subst (asm) start_rounds.simps) simp
    with True ys show ?thesis by (intro exI [of _ ys]) auto
  next
    case False
    with "1.prems"(2) p e have cc: "cc" and rec: "start_rounds fuel W start1 L bt outs s1 t1 = (tr', Ok u)"
      by (subst (asm) start_rounds.simps;
          auto simp: start_stuck_def split: if_splits option.splits)+
    from "1.IH" [OF p [symmetric, unfolded e] refl refl refl False cc "1.prems"(1) rec]
    obtain zs where zs: "length s1 + length zs = length outs" "set zs \<subseteq> set outs" "topo s1 zs"
      "distinct (map obj_tag zs)" "obj_tag ` set zs \<inter> set s1 = {}"
      "tr' = t1 @ concat (map calls zs)" by auto
    with ys show ?thesis
      by (intro exI [of _ "ys @ zs"]) (auto simp: topo_append)
  qed
qed

lemma same_length_mset:
  assumes "distinct (map k ys)" and "set ys \<subseteq> set xs" and "length ys = length xs"
  shows "mset ys = mset xs"
proof -
  have d: "distinct ys" using assms(1) by (simp add: distinct_map)
  then have c: "card (set ys) = length xs" using assms(3) by (simp add: distinct_card)
  moreover have "card (set ys) \<le> card (set xs)" using assms(2) by (simp add: card_mono)
  ultimately have "card (set xs) = length xs" using card_length [of xs] by linarith
  then have "distinct xs" by (simp add: card_distinct)
  moreover have "set ys = set xs"
    using assms(2) c \<open>card (set xs) = length xs\<close> by (simp add: card_subset_eq)
  ultimately show ?thesis using d by (simp add: set_eq_iff_mset_eq_distinct [symmetric])
qed

lemma start_in_order_Ok:
  assumes "appends calls start1" and "start_in_order fuel W start1 L bt outs tr = (tr', Ok u)"
  shows "\<exists>xs. mset xs = mset outs \<and> topo [] xs \<and> tr' = tr @ concat (map calls xs)"
proof -
  from start_rounds_order [OF assms(1) assms(2) [unfolded start_in_order_def]]
  obtain ys where "length ys = length outs" "set ys \<subseteq> set outs" "topo [] ys"
    "distinct (map obj_tag ys)" "tr' = tr @ concat (map calls ys)" by auto
  then show ?thesis by (auto intro!: exI [of _ ys] same_length_mset)
qed

section \<open>The loop succeeds whenever an order exists\<close>

lemma start_pass_stuck:
  "start_pass W start1 xs st cc tr = (tr', st', False, None) \<Longrightarrow>
   st' = st \<and> (\<forall>x \<in> set xs. obj_tag x \<in> set st \<or> \<not> set (obj_deps x) \<subseteq> set st)"
proof (induction xs arbitrary: st cc tr)
  case (Cons x xs)
  show ?case
  proof (cases "obj_tag x \<in> set st \<or> list_ex (\<lambda>d. d \<notin> set st) (obj_deps x)")
    case True
    with Cons.prems have "start_pass W start1 xs st cc tr = (tr', st', False, None)"
      by (auto split: if_splits)
    from Cons.IH [OF this] True show ?thesis by (auto simp: list_ex_iff)
  next
    case False
    obtain t1 r where "start1 x tr = (t1, r)" by fastforce
    with False Cons.prems have "start_pass W start1 xs (st @ [obj_tag x]) True t1 = (tr', st', False, None)"
      by (cases r) auto
    from start_pass_grows [OF this] show ?thesis by simp
  qed
qed auto

lemma start_pass_no_error:
  "\<forall>x \<in> set xs. \<forall>tr. snd (start1 x tr) = None \<Longrightarrow>
   start_pass W start1 xs st cc tr = (tr', st', cc', e) \<Longrightarrow> e = None"
proof (induction xs arbitrary: st cc tr)
  case (Cons x xs)
  obtain t1 r where s: "start1 x tr = (t1, r)" by fastforce
  have "snd (start1 x tr) = None" using Cons.prems(1) by simp
  with s have r: "r = None" by simp
  have ih: "start_pass W start1 xs st2 cc2 tr2 = (tr', st', cc', e) \<Longrightarrow> e = None" for st2 cc2 tr2
    by (rule Cons.IH) (use Cons.prems(1) in simp_all)
  show ?case
  proof (cases "obj_tag x \<in> set st \<or> list_ex (\<lambda>d. d \<notin> set st) (obj_deps x)")
    case True
    with Cons.prems(2) have "start_pass W start1 xs st cc tr = (tr', st', cc', e)"
      by (auto split: if_splits)
    then show ?thesis by (rule ih)
  next
    case False
    with Cons.prems(2) s r have "start_pass W start1 xs (st @ [obj_tag x]) True t1 = (tr', st', cc', e)"
      by simp
    then show ?thesis by (rule ih)
  qed
qed simp

text \<open>The first component of a topological order that is not started could be started.\<close>

lemma topo_next:
  assumes "topo [] xs" and "x \<in> set xs" and "obj_tag x \<notin> set st"
  shows "\<exists>y \<in> set xs. obj_tag y \<notin> set st \<and> set (obj_deps y) \<subseteq> set st"
proof -
  have "\<exists>x \<in> set xs. obj_tag x \<notin> set st" using assms(2,3) by blast
  then have "\<exists>as y bs. xs = as @ y # bs \<and> obj_tag y \<notin> set st \<and> (\<forall>z \<in> set as. \<not> obj_tag z \<notin> set st)"
    by (rule split_list_first_prop)
  then obtain as y bs where y: "xs = as @ y # bs" "obj_tag y \<notin> set st"
    "\<forall>z \<in> set as. \<not> obj_tag z \<notin> set st" by blast
  with assms(1) have "set (obj_deps y) \<subseteq> obj_tag ` set as" by (simp add: topo_append)
  with y show ?thesis by (intro bexI [of _ y]) auto
qed

lemma start_pass_tags:
  assumes "start_pass W start1 outs st cc tr = (tr', st', cc', e)"
    and "distinct st" and "set st \<subseteq> obj_tag ` set outs"
  shows "distinct st'" and "set st' \<subseteq> obj_tag ` set outs"
proof -
  from start_pass_grows [OF assms(1)] obtain ys where ys: "st' = st @ map obj_tag ys"
    "set ys \<subseteq> set outs" "distinct (map obj_tag ys)" "obj_tag ` set ys \<inter> set st = {}" by blast
  then show "distinct st'" using assms(2) by (simp add: Int_commute)
  show "set st' \<subseteq> obj_tag ` set outs" using ys assms(3) by (simp add: image_mono)
qed

lemma start_rounds_complete:
  assumes "\<forall>x \<in> set outs. \<forall>tr. snd (start1 x tr) = None"
    and "topo [] xs" and "mset xs = mset outs" and "distinct (map obj_tag outs)"
    and "distinct st" and "set st \<subseteq> obj_tag ` set outs"
  shows "snd (start_rounds fuel W start1 L bt outs st tr) = Ok ()"
  using assms
proof (induction fuel W start1 L bt outs st tr rule: start_rounds.induct)
  case (1 fuel W start1 L bt outs st tr)
  obtain t1 s1 cc e where p: "start_pass W start1 outs st False tr = (t1, s1, cc, e)"
    by (metis prod_cases4)
  have e: "e = None" using start_pass_no_error [OF "1.prems"(1) p] .
  note s1 = start_pass_tags [OF p "1.prems"(5,6)]
  show ?case
  proof (cases "length s1 = length outs")
    case True
    with p e show ?thesis by (subst start_rounds.simps) simp
  next
    case len: False
    have "cc"
    proof (rule ccontr)
      assume "\<not> cc"
      with p e have stuck: "s1 = st" "\<forall>x \<in> set outs. obj_tag x \<in> set s1 \<or> \<not> set (obj_deps x) \<subseteq> set s1"
        using start_pass_stuck [of W start1 outs st False tr t1 s1] by auto
      have "card (set s1) \<noteq> card (obj_tag ` set outs)"
        using len s1(1) "1.prems"(4) distinct_card [of s1] distinct_card [of "map obj_tag outs"]
        by simp
      then have "set s1 \<noteq> obj_tag ` set outs" by metis
      with s1(2) obtain x where "x \<in> set outs" "obj_tag x \<notin> set s1" by auto
      moreover have "set xs = set outs" using "1.prems"(3) by (metis set_mset_mset)
      ultimately show False using topo_next [OF "1.prems"(2), of x s1] stuck(2) by auto
    qed
    then have "snd (start_rounds fuel W start1 L bt outs s1 t1) = Ok ()"
      using "1.IH" [OF p [symmetric, unfolded e] refl refl refl len] "1.prems" s1 by simp
    with len p e \<open>cc\<close> show ?thesis by (subst start_rounds.simps) simp
  qed
qed

text \<open>A successful run means the tags are pairwise different; two equal tags end in a nil panic.\<close>

lemma start_rounds_duplicate:
  assumes "\<not> distinct (map obj_tag outs)" and "distinct st" and "set st \<subseteq> obj_tag ` set outs"
  shows "snd (start_rounds fuel W start1 L bt outs st tr) \<noteq> Ok u"
  using assms
proof (induction fuel W start1 L bt outs st tr rule: start_rounds.induct)
  case (1 fuel W start1 L bt outs st tr)
  obtain t1 s1 cc e where p: "start_pass W start1 outs st False tr = (t1, s1, cc, e)"
    by (metis prod_cases4)
  note s1 = start_pass_tags [OF p "1.prems"(2,3)]
  have "card (obj_tag ` set outs) \<noteq> length outs"
    using "1.prems"(1) card_distinct [of "map obj_tag outs"] by auto
  moreover have "card (obj_tag ` set outs) \<le> length outs"
    using card_length [of "map obj_tag outs"] by simp
  moreover have "card (set s1) \<le> card (obj_tag ` set outs)" using s1(2) by (simp add: card_mono)
  ultimately have len: "length s1 \<noteq> length outs" using s1(1) by (simp add: distinct_card)
  show ?case
  proof (cases e)
    case None
    with "1.IH" [OF p [symmetric, unfolded None] refl refl refl len] "1.prems"(1) s1 p len
    show ?thesis by (subst start_rounds.simps) (auto simp: start_stuck_def split: option.splits)
  next
    case (Some _)
    with p show ?thesis by (subst start_rounds.simps) simp
  qed
qed

section \<open>The explanation always ends\<close>

lemma lint_enough:
  "finite (dom bt) \<Longrightarrow> card (dom bt - set oTree) < fuel \<Longrightarrow> \<exists>e. lint fuel W sing_ref st bt oTree cur = Some e"
proof (induction fuel arbitrary: oTree cur)
  case (Suc n)
  let ?p = "find_or_empty (obj_deps cur) (\<lambda>it. it \<notin> set st)"
  show ?case
  proof (cases "?p \<in> set oTree \<or> bt ?p = None")
    case True
    then show ?thesis by (auto simp: Let_def split: option.splits)
  next
    case False
    then obtain q where q: "?p \<notin> set oTree" "bt ?p = Some q" by auto
    have "dom bt - set (oTree @ [?p]) \<subset> dom bt - set oTree" using q by auto
    then have "card (dom bt - set (oTree @ [?p])) < card (dom bt - set oTree)"
      by (rule psubset_card_mono [rotated]) (simp add: Suc.prems(1))
    with Suc.prems(2) have "card (dom bt - set (oTree @ [?p])) < n" by linarith
    with Suc.IH [of "oTree @ [?p]" q] Suc.prems(1) q show ?thesis by (simp add: Let_def)
  qed
qed simp

lemma start_stuck_no_overflow:
  assumes "finite (dom bt)" and "card (dom bt) < fuel"
  shows "start_stuck fuel W sing_ref bt outs st \<noteq> Panic ''stack overflow''"
proof -
  have "card (dom bt - set t) < fuel" for t
    using assms card_mono [of "dom bt" "dom bt - set t"] by auto
  with lint_enough [OF assms(1)] show ?thesis
    by (auto simp: start_stuck_def split: option.splits) (metis option.distinct(1))
qed

lemma start_rounds_no_overflow:
  assumes "L = sing_ref" and "finite (dom bt)" and "card (dom bt) < fuel"
  shows "snd (start_rounds fuel W start1 L bt outs st tr) \<noteq> Panic ''stack overflow''"
  using assms
proof (induction fuel W start1 L bt outs st tr rule: start_rounds.induct)
  case (1 fuel W start1 L bt outs st tr)
  obtain t1 s1 cc e where p: "start_pass W start1 outs st False tr = (t1, s1, cc, e)"
    by (metis prod_cases4)
  show ?case
  proof (cases e)
    case None
    show ?thesis
    proof (cases "length s1 = length outs")
      case True
      with p None show ?thesis by (subst start_rounds.simps) simp
    next
      case False
      with "1.IH" [OF p [symmetric, unfolded None] refl refl refl False] "1.prems" p None
        start_stuck_no_overflow [OF "1.prems"(2,3)]
      show ?thesis by (subst start_rounds.simps) auto
    qed
  next
    case (Some _)
    with p show ?thesis by (subst start_rounds.simps) simp
  qed
qed

end
