(* ===== verification/Outbound_Manager.thy ===== *)
theory Outbound_Manager
  imports Dependency_Start Simple_Managers
begin

text \<open>
  The outbound manager (\<open>core/adapter/outbound/manager.go\<close>): components with dependencies on
  each other, a default outbound, and a table of which outbounds depend on a tag.  The endpoint
  manager it falls back to is an argument of the operations that use it.
\<close>

section \<open>The table of dependants\<close>

record dep_manager = manager +
  defaultTag :: string
  dependByTag :: "string \<rightharpoonup> string list"
  defaultObj :: "obj option"

text \<open>Reading a missing key of a Go map of slices gives the empty slice.\<close>

definition dep_get :: "(string \<rightharpoonup> string list) \<Rightarrow> string \<Rightarrow> string list" where
  "dep_get d k = (case d k of None \<Rightarrow> [] | Some v \<Rightarrow> v)"

fun dep_add :: "string \<Rightarrow> string list \<Rightarrow> (string \<rightharpoonup> string list) \<Rightarrow> (string \<rightharpoonup> string list)" where
  "dep_add tag [] d = d"
| "dep_add tag (x # xs) d = dep_add tag xs (d(x \<mapsto> dep_get d x @ [tag]))"

fun dep_drop ::
    "sing_common \<Rightarrow> string \<Rightarrow> string list \<Rightarrow> (string \<rightharpoonup> string list) \<Rightarrow> (string \<rightharpoonup> string list)" where
  "dep_drop L tag [] d = d"
| "dep_drop L tag (x # xs) d =
     dep_drop L tag xs
       (if length (dep_get d x) = 1 then d(x := None)
        else d(x \<mapsto> sc_Filter L (dep_get d x) (\<lambda>it. it \<noteq> tag)))"

definition is_default :: "'a dep_manager_scheme \<Rightarrow> obj \<Rightarrow> bool" where
  "is_default m x = (case defaultObj m of None \<Rightarrow> False | Some d \<Rightarrow> obj_id d = obj_id x)"

section \<open>State and operations\<close>

record outbound_manager = dep_manager +
  defaultOutboundFallback :: "(go_error + obj) option" \<comment> \<open>what the fallback function returns; None for a nil function\<close>

definition outbound_NewManager :: "string \<Rightarrow> outbound_manager" where
  "outbound_NewManager dt =
     \<lparr>started = False, stage = StartStateInitialize, objects = [], byTag = Map.empty,
      defaultTag = dt, dependByTag = Map.empty, defaultObj = None, defaultOutboundFallback = None\<rparr>"

definition outbound_Initialize :: "go_error + obj \<Rightarrow> outbound_manager \<Rightarrow> outbound_manager" where
  "outbound_Initialize f m = m\<lparr>defaultOutboundFallback := Some f\<rparr>"

definition outbound_words :: start_words where
  "outbound_words = \<lparr>w_start = ''start outbound/'', w_circular = ''circular outbound dependency: '',
     w_for = ''] not found for outbound[''\<rparr>"

definition outbound_start1 :: starter where
  "outbound_start1 x tr =
     (if is_lifecycle x then do_call x (CStart StartStateStart) tr
      else if has_start x then do_call x CPlainStart tr
      else (tr, None))"

definition startOutbounds ::
    "nat \<Rightarrow> sing_common \<Rightarrow> (string \<rightharpoonup> obj) \<Rightarrow> obj list \<Rightarrow> trace \<Rightarrow> trace \<times> unit res" where
  "startOutbounds fuel L bt outs tr = start_in_order fuel outbound_words outbound_start1 L bt outs tr"

definition outbound_start_all ::
    "nat \<Rightarrow> sing_common \<Rightarrow> manager \<Rightarrow> outbound_manager \<Rightarrow> trace \<Rightarrow> outbound_manager \<times> trace \<times> unit res" where
  "outbound_start_all fuel L endpoint m tr =
     (case startOutbounds fuel L (byTag m)
             (objects m @ sc_Map L (endpoint_Endpoints endpoint) (\<lambda>it. it)) tr of
        (tr', r) \<Rightarrow> (m, tr', r))"

definition outbound_Start ::
    "nat \<Rightarrow> sing_common \<Rightarrow> manager \<Rightarrow> StartStage \<Rightarrow> outbound_manager \<Rightarrow> trace \<Rightarrow>
     outbound_manager \<times> trace \<times> unit res" where
  "outbound_Start fuel L endpoint st m tr =
     (if started m \<and> stage m \<ge> st then (m, tr, Panic ''already started'')
      else
        let m1 = m\<lparr>started := True, stage := st\<rparr> in
        if st = StartStateStart then
          (case (if defaultTag m1 \<noteq> [] \<and> Option.is_none (defaultObj m1)
                 then (case endpoint_Get endpoint (defaultTag m1) of
                         None \<Rightarrow> Inl (ENew [AStr ''default outbound not found: '', AStr (defaultTag m1)])
                       | Some x \<Rightarrow> Inr (m1\<lparr>defaultObj := Some x\<rparr>))
                 else Inr m1) of
             Inl e \<Rightarrow> (m1, tr, Err e)
           | Inr m2 \<Rightarrow>
               if Option.is_none (defaultObj m2) then
                 (case defaultOutboundFallback m2 of
                    None \<Rightarrow> (m2, tr, Panic ''nil pointer dereference'')
                  | Some (Inl e) \<Rightarrow> (m2, tr, Err (ECause e [AStr ''create direct outbound for fallback'']))
                  | Some (Inr d) \<Rightarrow>
                      outbound_start_all fuel L endpoint
                        (m2\<lparr>objects := objects m2 @ [d], byTag := (byTag m2)(obj_tag d \<mapsto> d),
                            defaultObj := Some d\<rparr>) tr)
               else outbound_start_all fuel L endpoint m2 tr)
        else (case start_loop '' outbound/'' st (objects m1) tr of
                (tr', e) \<Rightarrow> (m1, tr', res_of_error e)))"

fun close_closers :: "obj list \<Rightarrow> trace \<Rightarrow> trace" where
  "close_closers [] tr = tr"
| "close_closers (x # xs) tr =
     close_closers xs (if is_closer x then fst (do_call x CClose tr) else tr)"

definition outbound_Close :: "outbound_manager \<Rightarrow> trace \<Rightarrow> outbound_manager \<times> trace \<times> unit res" where
  "outbound_Close m tr =
     (if \<not> started m then (m, tr, Ok ())
      else (m\<lparr>started := False, objects := []\<rparr>, close_closers (objects m) tr, Ok ()))"

definition outbound_Outbounds :: "outbound_manager \<Rightarrow> obj list" where
  "outbound_Outbounds m = objects m"

definition outbound_Outbound :: "manager \<Rightarrow> outbound_manager \<Rightarrow> string \<Rightarrow> obj option" where
  "outbound_Outbound endpoint m tag =
     (case byTag m tag of Some x \<Rightarrow> Some x | None \<Rightarrow> endpoint_Get endpoint tag)"

definition outbound_Default :: "outbound_manager \<Rightarrow> obj option" where
  "outbound_Default m = defaultObj m"

definition outbound_Remove ::
    "sing_common \<Rightarrow> string \<Rightarrow> outbound_manager \<Rightarrow> trace \<Rightarrow> outbound_manager \<times> trace \<times> unit res" where
  "outbound_Remove L tag m tr =
     (case byTag m tag of
        None \<Rightarrow> (m, tr, Err ErrInvalid)
      | Some x \<Rightarrow>
          let m1 = m\<lparr>byTag := (byTag m)(tag := None)\<rparr> in
          (case cut L x (objects m1) of
             None \<Rightarrow> (m1, tr, Panic ''invalid inbound index'')
           | Some xs \<Rightarrow>
               let m2 = m1\<lparr>objects := xs\<rparr>;
                   m3 = (if is_default m2 x
                         then m2\<lparr>defaultObj := (case xs of [] \<Rightarrow> None | y # _ \<Rightarrow> Some y)\<rparr> else m2);
                   dependBy = dep_get (dependByTag m3) tag in
               if dependBy \<noteq> []
               then (m3, tr, Err (ENew [AStr ''outbound['', AStr tag, AStr ''] is depended by '',
                       AStr (strings_Join dependBy '', '')]))
               else
                 let m4 = m3\<lparr>dependByTag := dep_drop L tag (obj_deps x) (dependByTag m3)\<rparr> in
                 if started m then (case sc_Close L x tr of (tr', e) \<Rightarrow> (m4, tr', res_of_error e))
                 else (m4, tr, Ok ())))"

text \<open>The last part of \<open>Create\<close>: register the component, its dependencies and the default.\<close>

definition outbound_register :: "string \<Rightarrow> obj \<Rightarrow> obj list \<Rightarrow> outbound_manager \<Rightarrow> outbound_manager" where
  "outbound_register tag x xs m =
     (let m1 = m\<lparr>objects := xs @ [x], byTag := (byTag m)(tag \<mapsto> x),
                 dependByTag := dep_add tag (obj_deps x) (dependByTag m)\<rparr>
      in if tag = defaultTag m1 \<or> defaultTag m1 = [] \<and> Option.is_none (defaultObj m1)
         then m1\<lparr>defaultObj := Some x\<rparr> else m1)"

definition outbound_Create ::
    "sing_common \<Rightarrow> (string \<Rightarrow> string \<Rightarrow> 'opt \<Rightarrow> go_error + obj) \<Rightarrow>
     string \<Rightarrow> string \<Rightarrow> 'opt \<Rightarrow> outbound_manager \<Rightarrow> trace \<Rightarrow> outbound_manager \<times> trace \<times> unit res" where
  "outbound_Create L registry tag typ options m tr =
     (if tag = [] then (m, tr, Err ErrInvalid)
      else case registry tag typ options of
        Inl e \<Rightarrow> (m, tr, Err e)
      | Inr x \<Rightarrow>
     (case (if started m then stages_loop '' outbound/'' ListStartStages x tr else (tr, None)) of
        (tr1, Some e) \<Rightarrow> (m, tr1, Err e)
      | (tr1, None) \<Rightarrow>
     (case byTag m tag of
        Some old \<Rightarrow>
          (case (if started m then sc_Close L old tr1 else (tr1, None)) of
             (tr2, Some e) \<Rightarrow> (m, tr2, Err (kind_err e ''close outbound/'' old))
           | (tr2, None) \<Rightarrow>
               (case cut L old (objects m) of
                  None \<Rightarrow> (m, tr2, Panic ''invalid inbound index'')
                | Some xs \<Rightarrow> (outbound_register tag x xs m, tr2, Ok ())))
      | None \<Rightarrow> (outbound_register tag x (objects m) m, tr1, Ok ()))))"

section \<open>The manager implements the interface\<close>

lemma mgr_inv_dep_fields [simp]:
  "mgr_inv (m\<lparr>defaultObj := d\<rparr>) = mgr_inv m" "mgr_inv (m\<lparr>dependByTag := t\<rparr>) = mgr_inv m"
  "mgr_ids (m\<lparr>defaultObj := d\<rparr>) = mgr_ids m" "mgr_ids (m\<lparr>dependByTag := t\<rparr>) = mgr_ids m"
  by (simp_all add: mgr_inv_def mgr_ids_def)

text \<open>\<open>same_core a b\<close>: two states that differ at most in the default and the dependants.\<close>

definition same_core :: "'a manager_scheme \<Rightarrow> 'b manager_scheme \<Rightarrow> bool" where
  "same_core a b \<longleftrightarrow> objects a = objects b \<and> byTag a = byTag b"

lemma same_core_inv:
  "same_core a b \<Longrightarrow> mgr_inv a = mgr_inv b" "same_core a b \<Longrightarrow> mgr_ids a = mgr_ids b"
  "same_core a b \<Longrightarrow> byTag a = byTag b"
  by (auto simp: same_core_def mgr_inv_def mgr_ids_def)

lemma register_core:
  "same_core (outbound_register t x (case byTag m t of None \<Rightarrow> objects m
      | Some old \<Rightarrow> filter (\<lambda>y. obj_id y \<noteq> obj_id old) (objects m)) m) (linked t x m)"
  by (simp add: same_core_def outbound_register_def linked_def Let_def)

lemma outbound_Create_cases:
  assumes "mgr_inv m" and "outbound_Create sing_ref (\<lambda>_ _ _. Inr x) t ty opt m tr = (m', tr', r)"
  shows "(\<exists>e. m' = m \<and> r = Err e) \<or> (same_core m' (linked t x m) \<and> r = Ok ())"
  using assms mgr_inv_cut [OF assms(1), of t] register_core [of t x m]
  by (cases "byTag m t")
     (auto simp: outbound_Create_def split: option.splits prod.splits if_splits)

lemma outbound_Remove_cases:
  assumes "mgr_inv m" and "outbound_Remove sing_ref t m tr = (m', tr', r)"
  shows "same_core m' (unlinked t m)" and "\<not> is_panic r"
    and "byTag m t = None \<Longrightarrow> m' = m \<and> tr' = tr \<and> r = Err ErrInvalid"
  using assms mgr_inv_cut [OF assms(1), of t]
  by (cases "byTag m t", auto simp: outbound_Remove_def unlinked_def same_core_def Let_def
        split: prod.splits if_splits)+

lemma outbound_create_cases:
  "mgr_inv (fst s) \<Longrightarrow> create_op outbound_Create sing_ref t x s = (s', r) \<Longrightarrow>
   (\<exists>e. fst s' = fst s \<and> r = Err e) \<or> (same_core (fst s') (linked t x (fst s)) \<and> r = Ok ())"
  by (cases s') (auto simp: create_op_def op_of_def split: prod.splits dest: outbound_Create_cases)

lemma outbound_remove_cases:
  assumes "mgr_inv (fst s)" and "remove_op outbound_Remove sing_ref t s = (s', r)"
  shows "same_core (fst s') (unlinked t (fst s))" and "\<not> is_panic r"
    and "byTag (fst s) t = None \<Longrightarrow> s' = s \<and> r = Err ErrInvalid"
  using assms outbound_Remove_cases [of "fst s" t "snd s" "fst s'" "snd s'" r]
  by (cases s; auto simp: remove_op_def op_of_def split: prod.splits)+

interpretation outbound: atomic_tag_manager
  "\<lambda>s. byTag (fst s)" "\<lambda>s. mgr_ids (fst s)" "\<lambda>s :: outbound_manager \<times> trace. mgr_inv (fst s)"
  "create_op outbound_Create sing_ref" "remove_op outbound_Remove sing_ref"
proof (unfold_locales, goal_cases)
  case (1 s x t s' r)
  then show ?case
    using outbound_create_cases [of s t x s' r] linked_inv [of "fst s" x t] by (auto simp: same_core_inv)
next
  case (2 s t x s' r) then show ?case using outbound_create_cases [of s t x s' r] by auto
next
  case (3 s t x s' r) then show ?case
    using outbound_create_cases [of s t x s' r] linked_ids [of t x "fst s"] by (auto simp: same_core_inv)
next
  case (4 s t x s' u) then show ?case
    using outbound_create_cases [of s t x s' "Ok u"] by (auto simp: same_core_inv)
next
  case (5 s t x s' r) then show ?case
    using outbound_create_cases [of s t x s' r] by (auto simp: same_core_inv)
next
  case (6 s t s' r) then show ?case
    by (metis outbound_remove_cases(1) same_core_inv(1) unlinked_inv)
next
  case (7 s t s' r) then show ?case by (simp add: outbound_remove_cases)
next
  case (8 s t s' r) then show ?case
    using same_core_inv(2) [OF outbound_remove_cases(1)] unlinked_ids [of t "fst s"] by auto
next
  case (9 s t s' r) then show ?case
    using same_core_inv(3) [OF outbound_remove_cases(1)] by auto
next
  case (10 s t) then show ?case
    using outbound_remove_cases(3) [of s t] by (metis prod.collapse)
next
  case (11 s t x s' e) then show ?case using outbound_create_cases [of s t x s' "Err e"] by auto
qed

section \<open>The table of dependants is exact\<close>

text \<open>
  \<open>dep_inv\<close>: the outbounds listed under a tag are the registered ones that depend on it.
  Creating under a new tag and removing keep it, as long as no outbound names a dependency twice.
\<close>

definition dep_inv :: "'a dep_manager_scheme \<Rightarrow> bool" where
  "dep_inv m \<longleftrightarrow>
     (\<forall>d t. t \<in> set (dep_get (dependByTag m) d) \<longleftrightarrow> (\<exists>x. byTag m t = Some x \<and> d \<in> set (obj_deps x)))"

lemma dep_get_upd [simp]:
  "dep_get (d(x \<mapsto> v)) k = (if k = x then v else dep_get d k)"
  "dep_get (d(x := None)) k = (if k = x then [] else dep_get d k)"
  by (auto simp: dep_get_def)

lemma dep_get_add: "set (dep_get (dep_add tag xs d) k) = set (dep_get d k) \<union> (if k \<in> set xs then {tag} else {})"
  by (induction xs arbitrary: d) auto

lemma dep_get_drop:
  "distinct xs \<Longrightarrow> (\<forall>k \<in> set xs. tag \<in> set (dep_get d k)) \<Longrightarrow>
   set (dep_get (dep_drop sing_ref tag xs d) k)
     = (if k \<in> set xs then set (dep_get d k) - {tag} else set (dep_get d k))"
proof (induction xs arbitrary: d)
  case (Cons x xs)
  let ?d = "if length (dep_get d x) = 1 then d(x := None)
     else d(x \<mapsto> sc_Filter sing_ref (dep_get d x) (\<lambda>it. it \<noteq> tag))"
  have one: "length (dep_get d x) = 1 \<Longrightarrow> dep_get d x = [tag]"
    using Cons.prems(2) by (auto simp: length_Suc_conv)
  have g: "set (dep_get ?d k) = (if k = x then set (dep_get d k) - {tag} else set (dep_get d k))" for k
    using one by auto
  have "\<forall>k \<in> set xs. tag \<in> set (dep_get ?d k)"
    using Cons.prems by auto
  then have "set (dep_get (dep_drop sing_ref tag xs ?d) k)
      = (if k \<in> set xs then set (dep_get ?d k) - {tag} else set (dep_get ?d k))"
    using Cons.prems(1) by (intro Cons.IH) simp_all
  also have "\<dots> = (if k \<in> set (x # xs) then set (dep_get d k) - {tag} else set (dep_get d k))"
    unfolding g by simp
  finally show ?case by simp
qed simp

lemma outbound_Create_dep_inv:
  assumes "dep_inv m" and "byTag m t = None"
    and "outbound_Create L (\<lambda>_ _ _. Inr x) t ty opt m tr = (m', tr', r)"
  shows "dep_inv m'"
proof (cases "m' = m")
  case False
  with assms(2,3) have m': "m' = outbound_register t x (objects m) m"
    by (auto simp: outbound_Create_def split: if_splits option.splits prod.splits)
  then have "byTag m' = (byTag m)(t \<mapsto> x)" "dependByTag m' = dep_add t (obj_deps x) (dependByTag m)"
    by (simp_all add: outbound_register_def Let_def)
  with assms(1,2) show ?thesis by (auto simp: dep_inv_def dep_get_add)
qed (use assms in simp)

lemma outbound_Remove_dep_inv:
  assumes "mgr_inv m" and "dep_inv m" and "byTag m t = Some x" and "distinct (obj_deps x)"
    and "dep_get (dependByTag m) t = []" and "outbound_Remove sing_ref t m tr = (m', tr', r)"
  shows "dep_inv m'"
proof -
  have "byTag m' = (byTag m)(t := None)"
    using same_core_inv(3) [OF outbound_Remove_cases(1) [OF assms(1,6)]] by simp
  moreover have "dependByTag m' = dep_drop sing_ref t (obj_deps x) (dependByTag m)"
    using assms mgr_inv_cut [OF assms(1,3)]
    by (auto simp: outbound_Remove_def Let_def split: if_splits prod.splits)
  moreover have "\<forall>k \<in> set (obj_deps x). t \<in> set (dep_get (dependByTag m) k)"
    using assms(2,3) by (auto simp: dep_inv_def)
  ultimately show ?thesis
    using assms(2-4) dep_get_drop [OF assms(4), of t "dependByTag m"] by (auto simp: dep_inv_def)
qed

section \<open>Properties\<close>

lemma outbound_start1_appends: "appends (\<lambda>x. stage_calls x StartStateStart) outbound_start1"
  by (simp add: appends_def outbound_start1_def stage_calls_def)

definition demo_dep :: "nat \<Rightarrow> string \<Rightarrow> string list \<Rightarrow> obj" where
  "demo_dep i t ds = (demo_obj i t)\<lparr>obj_deps := ds\<rparr>"

lemma demo_dep_simps [simp]:
  "obj_id (demo_dep i t ds) = i" "obj_tag (demo_dep i t ds) = t" "obj_deps (demo_dep i t ds) = ds"
  "is_lifecycle (demo_dep i t ds)" "is_closer (demo_dep i t ds)" "obj_call (demo_dep i t ds) tr c = None"
  by (simp_all add: demo_dep_def)

text \<open>
  C6: When \<open>startOutbounds\<close> reports success, the outbounds were all started, each exactly once,
  in an order in which every outbound comes after all the outbounds it depends on, and no other
  call was made.
\<close>

theorem startOutbounds_order:
  assumes "startOutbounds fuel L bt outs tr = (tr', Ok ())"
  shows "\<exists>xs. mset xs = mset outs \<and> topo [] xs \<and>
           tr' = tr @ concat (map (\<lambda>x. stage_calls x StartStateStart) xs)"
  using start_in_order_Ok [OF outbound_start1_appends] assms by (simp add: startOutbounds_def)

theorem startOutbounds_order_witness:
  "\<exists>xs. mset xs = mset [demo_dep 1 ''group'' [''a''], demo_obj 2 ''a''] \<and> topo [] xs \<and>
     [(2, CStart StartStateStart), (1, CStart StartStateStart)]
       = [] @ concat (map (\<lambda>x. stage_calls x StartStateStart) xs)"
  by (rule startOutbounds_order [where fuel = 0 and L = sing_ref and bt = Map.empty])
     (simp add: startOutbounds_def start_in_order_def start_rounds.simps outbound_start1_def
        do_call_def)

text \<open>
  C32: Conversely, when the tags are pairwise different, some order puts every outbound after
  its dependencies, and no outbound fails to start, \<open>startOutbounds\<close> ends with success.
\<close>

theorem startOutbounds_complete:
  assumes "distinct (map obj_tag outs)" and "mset xs = mset outs" and "topo [] xs"
    and "\<forall>x \<in> set outs. \<forall>tr. snd (outbound_start1 x tr) = None"
  shows "snd (startOutbounds fuel L bt outs tr) = Ok ()"
  using start_rounds_complete [OF assms(4,3,2,1), of "[]"]
  by (simp add: startOutbounds_def start_in_order_def)

theorem startOutbounds_complete_witness:
  "snd (startOutbounds 0 sing_ref Map.empty
     [demo_dep 1 ''c'' [''b''], demo_dep 2 ''b'' [''a''], demo_obj 3 ''a''] []) = Ok ()"
  by (rule startOutbounds_complete
        [where xs = "[demo_obj 3 ''a'', demo_dep 2 ''b'' [''a''], demo_dep 1 ''c'' [''b'']]"])
     (auto simp: outbound_start1_def do_call_def)

text \<open>
  The search for the reason of a stuck start ends: in a state where the slice and the map
  agree, recursion to a depth of one more than the number of outbounds is enough.
\<close>

theorem startOutbounds_explains:
  assumes "sing_common_ok L" and "mgr_inv m" and "length (objects m) < fuel"
  shows "snd (startOutbounds fuel L (byTag m) outs tr) \<noteq> Panic ''stack overflow''"
proof -
  have "obj_tag ` ran (byTag m) = dom (byTag m)"
    using mgr_inv_tag [OF assms(2)] by (force simp: ran_def)
  then have "dom (byTag m) = obj_tag ` set (objects m)" using assms(2) by (simp add: mgr_inv_def)
  then have "finite (dom (byTag m))" "card (dom (byTag m)) \<le> length (objects m)"
    by (simp_all add: card_image_le [THEN order_trans] card_length)
  with assms(3) show ?thesis
    using start_rounds_no_overflow [OF sing_common_okD [OF assms(1)]]
    by (simp add: startOutbounds_def start_in_order_def)
qed

theorem startOutbounds_explains_witness:
  "startOutbounds 2 sing_ref [''a'' \<mapsto> demo_dep 1 ''a'' [''a'']] [demo_dep 1 ''a'' [''a'']] []
     = ([], Err (ENew [AStr ''circular outbound dependency: '', AStr ''a'', AStr '' -> '', AStr ''a'']))
   \<and> snd (startOutbounds 2 sing_ref [''a'' \<mapsto> demo_dep 1 ''a'' [''a'']] [demo_dep 1 ''a'' [''a'']] [])
       \<noteq> Panic ''stack overflow''"
proof -
  let ?m = "new_manager\<lparr>objects := [demo_dep 1 ''a'' [''a'']], byTag := [''a'' \<mapsto> demo_dep 1 ''a'' [''a'']]\<rparr>"
  have "mgr_inv ?m" by (simp add: mgr_inv_def)
  then show ?thesis
    using startOutbounds_explains [of sing_ref ?m 2 "[demo_dep 1 ''a'' [''a'']]" "[]"]
    by (simp add: startOutbounds_def start_in_order_def start_rounds.simps start_stuck_def
        numeral_2_eq_2 find_or_empty_def outbound_words_def Let_def)
qed

text \<open>
  C29: For every sequence of \<open>Create\<close> and \<open>Remove\<close> calls on the outbound manager with fresh
  components that carry their tag, no call panics, slice and map stay in agreement, and the
  manager's own map is the one an abstract map updated by the successful calls has.
\<close>

theorem outbound_refines_map:
  assumes "sing_common_ok L" and "mgr_inv m" and "fresh_ops ps (mgr_ids m)"
    and "run_ops (create_op outbound_Create L) (remove_op outbound_Remove L) ps (m, tr)
         = ((m', tr'), rs)"
  shows "mgr_inv m' \<and> (\<forall>r \<in> set rs. \<not> is_panic r) \<and> byTag m' = map_run ps rs (byTag m)"
  using outbound.run_keeps [of "(m, tr)" "mgr_ids m" ps "(m', tr')" rs]
    outbound.run_refines [of "(m, tr)" "mgr_ids m" ps "(m', tr')" rs]
    assms sing_common_okD [OF assms(1)]
  by simp

theorem outbound_refines_map_witness:
  "\<exists>m' tr' rs.
     run_ops (create_op outbound_Create sing_ref) (remove_op outbound_Remove sing_ref)
       [MCreate ''a'' (demo_obj 1 ''a''), MRemove ''a''] (outbound_NewManager [], [])
       = ((m', tr'), rs) \<and> mgr_inv m' \<and> byTag m' ''a'' = None"
proof -
  let ?ps = "[MCreate ''a'' (demo_obj 1 ''a''), MRemove ''a'']"
  let ?run = "run_ops (create_op outbound_Create sing_ref) (remove_op outbound_Remove sing_ref)
       ?ps (outbound_NewManager [], [])"
  obtain m' tr' rs where run: "?run = ((m', tr'), rs)" by (metis surj_pair)
  have rs: "snd ?run = [Ok (), Ok ()]"
    by (simp add: create_op_def remove_op_def op_of_def outbound_Create_def outbound_Remove_def
        outbound_register_def outbound_NewManager_def cut_def remove_at_def is_default_def dep_get_def)
  have "mgr_inv (outbound_NewManager [])" "fresh_ops ?ps (mgr_ids (outbound_NewManager []))"
    by (simp_all add: outbound_NewManager_def mgr_inv_def mgr_ids_def)
  from outbound_refines_map [OF sing_ref_ok this run]
  have "mgr_inv m' \<and> byTag m' = map_run ?ps rs (byTag (outbound_NewManager []))" by blast
  with run rs show ?thesis by auto
qed

text \<open>
  \<open>Remove\<close> of an outbound that others depend on returns an error, yet the outbound is
  already gone from the slice and the map, and it was not closed.
\<close>

theorem outbound_Remove_depended:
  assumes "sing_common_ok L" and "mgr_inv m" and "byTag m t = Some x"
    and "dep_get (dependByTag m) t \<noteq> []" and "outbound_Remove L t m tr = (m', tr', r)"
  shows "(\<exists>e. r = Err e) \<and> byTag m' t = None \<and> x \<notin> set (outbound_Outbounds m') \<and> tr' = tr"
  using assms sing_common_okD [OF assms(1)] mgr_inv_cut [OF assms(2,3)]
  by (auto simp: outbound_Remove_def outbound_Outbounds_def Let_def split: if_splits)

theorem outbound_Remove_depended_witness:
  "\<exists>m' tr' r.
     outbound_Remove sing_ref ''a''
       ((outbound_NewManager [])\<lparr>objects := [demo_obj 1 ''a'', demo_dep 2 ''g'' [''a'']],
          byTag := [''a'' \<mapsto> demo_obj 1 ''a'', ''g'' \<mapsto> demo_dep 2 ''g'' [''a'']],
          dependByTag := [''a'' \<mapsto> [''g'']]\<rparr>) [] = (m', tr', r) \<and>
     (\<exists>e. r = Err e) \<and> byTag m' ''a'' = None"
proof -
  let ?m = "(outbound_NewManager [])\<lparr>objects := [demo_obj 1 ''a'', demo_dep 2 ''g'' [''a'']],
          byTag := [''a'' \<mapsto> demo_obj 1 ''a'', ''g'' \<mapsto> demo_dep 2 ''g'' [''a'']],
          dependByTag := [''a'' \<mapsto> [''g'']]\<rparr>"
  obtain m' tr' r where run: "outbound_Remove sing_ref ''a'' ?m [] = (m', tr', r)" by (rule prod_cases3)
  have "mgr_inv ?m" by (auto simp: mgr_inv_def split: if_splits)
  with outbound_Remove_depended [OF sing_ref_ok _ _ _ run, of "demo_obj 1 ''a''"] run
  show ?thesis by (auto simp: dep_get_def)
qed

text \<open>
  After \<open>Start\<close> of the stage \<open>StartStateStart\<close> succeeded there is a default outbound, and
  it is the one chosen at creation if there was one.
\<close>

theorem outbound_Start_default:
  assumes "outbound_Start fuel L endpoint StartStateStart m tr = (m', tr', Ok ())"
  shows "\<exists>d. outbound_Default m' = Some d \<and>
             (outbound_Default m = Some d \<or> outbound_Default m = None \<and>
               (endpoint_Get endpoint (defaultTag m) = Some d \<or>
                defaultTag m = [] \<and> defaultOutboundFallback m = Some (Inr d)))"
  using assms
  by (cases "defaultObj m")
     (auto simp: outbound_Start_def outbound_Default_def outbound_start_all_def Let_def
       split: if_splits option.splits sum.splits prod.splits)

theorem outbound_Start_default_witness:
  "\<exists>d. outbound_Default (outbound_NewManager []\<lparr>started := True, stage := StartStateStart,
          objects := [demo_obj 1 ''direct''], byTag := [''direct'' \<mapsto> demo_obj 1 ''direct''],
          defaultObj := Some (demo_obj 1 ''direct''),
          defaultOutboundFallback := Some (Inr (demo_obj 1 ''direct''))\<rparr>) = Some d"
proof -
  let ?m = "outbound_Initialize (Inr (demo_obj 1 ''direct'')) (outbound_NewManager [])"
  let ?m' = "outbound_NewManager []\<lparr>started := True, stage := StartStateStart,
          objects := [demo_obj 1 ''direct''], byTag := [''direct'' \<mapsto> demo_obj 1 ''direct''],
          defaultObj := Some (demo_obj 1 ''direct''),
          defaultOutboundFallback := Some (Inr (demo_obj 1 ''direct''))\<rparr>"
  have "outbound_Start 1 sing_ref new_manager StartStateStart ?m []
      = (?m', [(1, CStart StartStateStart)], Ok ())"
    by (simp add: outbound_Start_def outbound_Initialize_def outbound_NewManager_def new_manager_def
        outbound_start_all_def startOutbounds_def start_in_order_def start_rounds.simps
        endpoint_Endpoints_def outbound_start1_def do_call_def)
  from outbound_Start_default [OF this] show ?thesis by blast
qed

end
