(* ===== verification/Dns_Transport_Manager.thy ===== *)
theory Dns_Transport_Manager
  imports Outbound_Manager
begin

text \<open>
  The DNS transport manager (\<open>core/dns/transport_manager.go\<close>): like the outbound manager, with
  a default server, a fallback for it, and at most one fakeip server, which must not be the
  default.  A transport of the type \<open>fakeip\<close> is taken to implement \<open>adapter.FakeIPTransport\<close>.
\<close>

definition DNSTypeFakeIP :: string where
  "DNSTypeFakeIP = ''fakeip''"

record transport_manager = dep_manager +
  defaultTransportFallback :: "obj option"
  fakeIPTransport :: "obj option"

definition transport_NewManager :: "string \<Rightarrow> transport_manager" where
  "transport_NewManager dt =
     \<lparr>started = False, stage = StartStateInitialize, objects = [], byTag = Map.empty,
      defaultTag = dt, dependByTag = Map.empty, defaultObj = None,
      defaultTransportFallback = None, fakeIPTransport = None\<rparr>"

definition transport_Initialize :: "obj \<Rightarrow> transport_manager \<Rightarrow> transport_manager" where
  "transport_Initialize x m = m\<lparr>defaultTransportFallback := Some x\<rparr>"

definition transport_words :: start_words where
  "transport_words = \<lparr>w_start = ''start dns/'', w_circular = ''circular server dependency: '',
     w_for = ''] not found for server[''\<rparr>"

definition transport_start1 :: starter where
  "transport_start1 x tr = (if is_lifecycle x then do_call x (CStart StartStateStart) tr else (tr, None))"

definition startTransports ::
    "nat \<Rightarrow> sing_common \<Rightarrow> (string \<rightharpoonup> obj) \<Rightarrow> obj list \<Rightarrow> trace \<Rightarrow> trace \<times> unit res" where
  "startTransports fuel L bt ts tr = start_in_order fuel transport_words transport_start1 L bt ts tr"

definition transport_Start ::
    "nat \<Rightarrow> sing_common \<Rightarrow> StartStage \<Rightarrow> transport_manager \<Rightarrow> trace \<Rightarrow> transport_manager \<times> trace \<times> unit res" where
  "transport_Start fuel L st m tr =
     (if started m \<and> stage m \<ge> st then (m, tr, Panic ''already started'')
      else
        let m1 = m\<lparr>started := True, stage := st\<rparr> in
        if st = StartStateStart then
          (if defaultTag m1 \<noteq> [] \<and> Option.is_none (defaultObj m1)
           then (m1, tr, Err (ENew [AStr ''default DNS server not found: '', AStr (defaultTag m1)]))
           else (case startTransports fuel L (byTag m1) (objects m1) tr of (tr', r) \<Rightarrow> (m1, tr', r)))
        else (case start_loop '' dns/'' st (objects m1) tr of
                (tr', e) \<Rightarrow> (m1, tr', res_of_error e)))"

definition transport_Close :: "transport_manager \<Rightarrow> trace \<Rightarrow> transport_manager \<times> trace \<times> unit res" where
  "transport_Close m tr =
     (if \<not> started m then (m, tr, Ok ())
      else (m\<lparr>started := False, objects := []\<rparr>, close_closers (objects m) tr, Ok ()))"

definition transport_Transports :: "transport_manager \<Rightarrow> obj list" where
  "transport_Transports m = objects m"

definition transport_Transport :: "transport_manager \<Rightarrow> string \<Rightarrow> obj option" where
  "transport_Transport m tag = byTag m tag"

definition transport_Default :: "transport_manager \<Rightarrow> obj option" where
  "transport_Default m = (case defaultObj m of Some d \<Rightarrow> Some d | None \<Rightarrow> defaultTransportFallback m)"

definition transport_FakeIP :: "transport_manager \<Rightarrow> obj option" where
  "transport_FakeIP m = fakeIPTransport m"

definition transport_Remove ::
    "sing_common \<Rightarrow> string \<Rightarrow> transport_manager \<Rightarrow> trace \<Rightarrow> transport_manager \<times> trace \<times> unit res" where
  "transport_Remove L tag m tr =
     (case byTag m tag of
        None \<Rightarrow> (m, tr, Err ErrInvalid)
      | Some x \<Rightarrow>
          let m1 = m\<lparr>byTag := (byTag m)(tag := None)\<rparr> in
          (case cut L x (objects m1) of
             None \<Rightarrow> (m1, tr, Panic ''invalid inbound index'')
           | Some xs \<Rightarrow>
               let m2 = m1\<lparr>objects := xs\<rparr> in
               (case (if is_default m2 x
                      then (case xs of
                              [] \<Rightarrow> Inr (m2\<lparr>defaultObj := None\<rparr>)
                            | y # _ \<Rightarrow>
                                if obj_type y \<noteq> DNSTypeFakeIP
                                then Inl (ENew [AStr ''default server cannot be fakeip''])
                                else Inr (m2\<lparr>defaultObj := Some y\<rparr>))
                      else Inr m2) of
                  Inl e \<Rightarrow> (m2, tr, Err e)
                | Inr m3 \<Rightarrow>
                    let dependBy = dep_get (dependByTag m3) tag in
                    if dependBy \<noteq> []
                    then (m3, tr, Err (ENew [AStr ''server['', AStr tag, AStr ''] is depended by '',
                            AStr (strings_Join dependBy '', '')]))
                    else
                      let m4 = m3\<lparr>dependByTag := dep_drop L tag (obj_deps x) (dependByTag m3)\<rparr> in
                      (m4, if started m then fst (do_call x CClose tr) else tr, Ok ()))))"

text \<open>The last part of \<open>Create\<close>; its two errors come after the transport is registered.\<close>

definition transport_register ::
    "string \<Rightarrow> obj \<Rightarrow> obj list \<Rightarrow> transport_manager \<Rightarrow> transport_manager \<times> unit res" where
  "transport_register tag x xs m =
     (let m1 = m\<lparr>objects := xs @ [x], byTag := (byTag m)(tag \<mapsto> x),
                 dependByTag := dep_add tag (obj_deps x) (dependByTag m)\<rparr> in
      (case (if tag = defaultTag m1 \<or> defaultTag m1 = [] \<and> Option.is_none (defaultObj m1)
             then if obj_type x = DNSTypeFakeIP
                  then Inl (ENew [AStr ''default server cannot be fakeip''])
                  else Inr (m1\<lparr>defaultObj := Some x\<rparr>)
             else Inr m1) of
         Inl e \<Rightarrow> (m1, Err e)
       | Inr m2 \<Rightarrow>
           if obj_type x = DNSTypeFakeIP
           then if \<not> Option.is_none (fakeIPTransport m2)
                then (m2, Err (ENew [AStr ''multiple fakeip server are not supported'']))
                else (m2\<lparr>fakeIPTransport := Some x\<rparr>, Ok ())
           else (m2, Ok ())))"

definition transport_Create ::
    "sing_common \<Rightarrow> (string \<Rightarrow> string \<Rightarrow> 'opt \<Rightarrow> go_error + obj) \<Rightarrow>
     string \<Rightarrow> string \<Rightarrow> 'opt \<Rightarrow> transport_manager \<Rightarrow> trace \<Rightarrow> transport_manager \<times> trace \<times> unit res" where
  "transport_Create L registry tag typ options m tr =
     (if tag = [] then (m, tr, Err ErrInvalid)
      else case registry tag typ options of
        Inl e \<Rightarrow> (m, tr, Err e)
      | Inr x \<Rightarrow>
     (case (if started m then stages_loop '' dns/'' ListStartStages x tr else (tr, None)) of
        (tr1, Some e) \<Rightarrow> (m, tr1, Err e)
      | (tr1, None) \<Rightarrow>
     (case byTag m tag of
        Some old \<Rightarrow>
          (case (if started m then sc_Close L old tr1 else (tr1, None)) of
             (tr2, Some e) \<Rightarrow> (m, tr2, Err (kind_err e ''close dns/'' old))
           | (tr2, None) \<Rightarrow>
               (case cut L old (objects m) of
                  None \<Rightarrow> (m, tr2, Panic ''invalid inbound index'')
                | Some xs \<Rightarrow> (case transport_register tag x xs m of (m', r) \<Rightarrow> (m', tr2, r))))
      | None \<Rightarrow> (case transport_register tag x (objects m) m of (m', r) \<Rightarrow> (m', tr1, r)))))"

section \<open>The manager implements the interface\<close>

lemma transport_register_core:
  assumes "transport_register t x (case byTag m t of None \<Rightarrow> objects m
      | Some old \<Rightarrow> filter (\<lambda>y. obj_id y \<noteq> obj_id old) (objects m)) m = (m', r)"
  shows "same_core m' (linked t x m) \<and> \<not> is_panic r"
  using assms
  by (auto simp: same_core_def transport_register_def linked_def Let_def split: if_splits)

lemma transport_Create_cases:
  assumes "mgr_inv m" and "transport_Create sing_ref (\<lambda>_ _ _. Inr x) t ty opt m tr = (m', tr', r)"
  shows "(\<exists>e. m' = m \<and> r = Err e) \<or> (same_core m' (linked t x m) \<and> \<not> is_panic r)"
proof (cases "\<exists>e. m' = m \<and> r = Err e")
  case False
  with assms mgr_inv_cut [OF assms(1), of t]
  have "transport_register t x (case byTag m t of None \<Rightarrow> objects m
      | Some old \<Rightarrow> filter (\<lambda>y. obj_id y \<noteq> obj_id old) (objects m)) m = (m', r)"
    by (cases "byTag m t")
       (auto simp: transport_Create_def split: option.splits prod.splits if_splits)
  then show ?thesis using transport_register_core by blast
qed simp

lemma transport_Remove_cases:
  assumes "mgr_inv m" and "transport_Remove sing_ref t m tr = (m', tr', r)"
  shows "same_core m' (unlinked t m)" and "\<not> is_panic r"
    and "byTag m t = None \<Longrightarrow> m' = m \<and> tr' = tr \<and> r = Err ErrInvalid"
  using assms mgr_inv_cut [OF assms(1), of t]
  by (cases "byTag m t", auto simp: transport_Remove_def unlinked_def same_core_def Let_def
        split: prod.splits if_splits list.splits)+

lemma transport_create_cases:
  "mgr_inv (fst s) \<Longrightarrow> create_op transport_Create sing_ref t x s = (s', r) \<Longrightarrow>
   (\<exists>e. fst s' = fst s \<and> r = Err e) \<or> (same_core (fst s') (linked t x (fst s)) \<and> \<not> is_panic r)"
  by (cases s') (auto simp: create_op_def op_of_def split: prod.splits dest: transport_Create_cases)

lemma transport_remove_cases:
  assumes "mgr_inv (fst s)" and "remove_op transport_Remove sing_ref t s = (s', r)"
  shows "same_core (fst s') (unlinked t (fst s))" and "\<not> is_panic r"
    and "byTag (fst s) t = None \<Longrightarrow> s' = s \<and> r = Err ErrInvalid"
  using assms transport_Remove_cases [of "fst s" t "snd s" "fst s'" "snd s'" r]
  by (cases s; auto simp: remove_op_def op_of_def split: prod.splits)+

interpretation transport: tag_manager
  "\<lambda>s. byTag (fst s)" "\<lambda>s. mgr_ids (fst s)" "\<lambda>s :: transport_manager \<times> trace. mgr_inv (fst s)"
  "create_op transport_Create sing_ref" "remove_op transport_Remove sing_ref"
proof (unfold_locales, goal_cases)
  case (1 s x t s' r)
  then show ?case
    using transport_create_cases [of s t x s' r] linked_inv [of "fst s" x t] by (auto simp: same_core_inv)
next
  case (2 s t x s' r) then show ?case using transport_create_cases [of s t x s' r] by auto
next
  case (3 s t x s' r) then show ?case
    using transport_create_cases [of s t x s' r] linked_ids [of t x "fst s"] by (auto simp: same_core_inv)
next
  case (4 s t x s' u) then show ?case
    using transport_create_cases [of s t x s' "Ok u"] by (auto simp: same_core_inv)
next
  case (5 s t x s' r) then show ?case
    using transport_create_cases [of s t x s' r] by (auto simp: same_core_inv)
next
  case (6 s t s' r) then show ?case
    by (metis transport_remove_cases(1) same_core_inv(1) unlinked_inv)
next
  case (7 s t s' r) then show ?case by (simp add: transport_remove_cases)
next
  case (8 s t s' r) then show ?case
    using same_core_inv(2) [OF transport_remove_cases(1)] unlinked_ids [of t "fst s"] by auto
next
  case (9 s t s' r) then show ?case
    using same_core_inv(3) [OF transport_remove_cases(1)] by auto
next
  case (10 s t) then show ?case
    using transport_remove_cases(3) [of s t] by (metis prod.collapse)
qed

section \<open>Properties\<close>

definition demo_server :: "nat \<Rightarrow> string \<Rightarrow> string \<Rightarrow> obj" where
  "demo_server i t ty = (demo_obj i t)\<lparr>obj_type := ty\<rparr>"

lemma demo_server_simps [simp]:
  "obj_id (demo_server i t ty) = i" "obj_tag (demo_server i t ty) = t"
  "obj_type (demo_server i t ty) = ty" "obj_deps (demo_server i t ty) = []"
  by (simp_all add: demo_server_def)



text \<open>
  No sequence of \<open>Create\<close> and \<open>Remove\<close> calls with fresh transports panics or breaks the
  agreement of slice and map, although \<open>Create\<close> can fail after it registered the transport.
\<close>

theorem transport_runs:
  assumes "sing_common_ok L" and "mgr_inv m" and "fresh_ops ps (mgr_ids m)"
    and "run_ops (create_op transport_Create L) (remove_op transport_Remove L) ps (m, tr)
         = ((m', tr'), rs)"
  shows "mgr_inv m' \<and> (\<forall>r \<in> set rs. \<not> is_panic r)"
  using transport.run_keeps [of "(m, tr)" "mgr_ids m" ps "(m', tr')" rs]
    assms sing_common_okD [OF assms(1)]
  by simp

theorem transport_runs_witness:
  "\<exists>m' tr' rs.
     run_ops (create_op transport_Create sing_ref) (remove_op transport_Remove sing_ref)
       [MCreate ''f'' (demo_server 1 ''f'' ''fakeip'')] (transport_NewManager [], []) = ((m', tr'), rs) \<and>
     mgr_inv m' \<and> rs = [Err (ENew [AStr ''default server cannot be fakeip''])] \<and>
     transport_Transport m' ''f'' = Some (demo_server 1 ''f'' ''fakeip'')"
proof -
  let ?run = "run_ops (create_op transport_Create sing_ref) (remove_op transport_Remove sing_ref)
       [MCreate ''f'' (demo_server 1 ''f'' ''fakeip'')] (transport_NewManager [], [])"
  obtain m' tr' rs where run: "?run = ((m', tr'), rs)" by (metis surj_pair)
  have out: "snd ?run = [Err (ENew [AStr ''default server cannot be fakeip''])]"
    "byTag (fst (fst ?run)) ''f'' = Some (demo_server 1 ''f'' ''fakeip'')"
    by (simp_all add: create_op_def op_of_def transport_Create_def transport_register_def
        transport_NewManager_def DNSTypeFakeIP_def Let_def)
  have "mgr_inv (transport_NewManager [])" by (simp add: transport_NewManager_def mgr_inv_def)
  from transport_runs [OF sing_ref_ok this _ run] have "mgr_inv m'"
    by (simp add: transport_NewManager_def mgr_ids_def)
  with run out show ?thesis by (simp add: transport_Transport_def)
qed

end
