(* ===== verification/Core_Service.thy ===== *)
theory Core_Service
  imports Prelude
begin

text \<open>
  The service layer of phantom-core: the global state of package \<open>v2\<close> (\<open>v2/custom.go\<close>,
  \<open>v2/coreinfo.go\<close>, \<open>v2/logproto.go\<close>, \<open>v2/service.go\<close>, \<open>v2/old_command_server.go\<close>,
  \<open>v2/old_commands.go\<close>, \<open>v2/old_constant.go\<close>) and the C interface on top of it
  (\<open>custom/custom.go\<close>).  The package variables are the fields of a record; what the core
  sends to its observers and asks of a box or of the command server is recorded in a list of
  events.  What a box, the command server or the operating system answers is decided by an
  environment, which may answer differently at every call (each call advances \<open>ticks\<close>).

  A Go panic is the outcome \<open>Throw\<close>.  \<open>BoxService.Close\<close> runs the shutdown in a goroutine of its
  own, where a panic ends the process: only its return values are represented.
\<close>

section \<open>Messages\<close>

datatype CoreState = STOPPED | STARTING | STARTED | STOPPING

datatype MessageType =
    EMPTY | EMPTY_CONFIGURATION | START_COMMAND_SERVER | CREATE_SERVICE | START_SERVICE
  | UNEXPECTED_ERROR | ALREADY_STARTED | ALREADY_STOPPED | INSTANCE_NOT_FOUND
  | INSTANCE_NOT_STOPPED | INSTANCE_NOT_STARTED | ERROR_BUILDING_CONFIG | ERROR_PARSING_CONFIG
  | ERROR_READING_CONFIG

datatype LogLevel = DEBUG | INFO | FATAL

fun CoreState_String :: "CoreState \<Rightarrow> string" where
  "CoreState_String STOPPED = ''STOPPED''"
| "CoreState_String STARTING = ''STARTING''"
| "CoreState_String STARTED = ''STARTED''"
| "CoreState_String STOPPING = ''STOPPING''"

fun MessageType_String :: "MessageType \<Rightarrow> string" where
  "MessageType_String EMPTY = ''EMPTY''"
| "MessageType_String EMPTY_CONFIGURATION = ''EMPTY_CONFIGURATION''"
| "MessageType_String START_COMMAND_SERVER = ''START_COMMAND_SERVER''"
| "MessageType_String CREATE_SERVICE = ''CREATE_SERVICE''"
| "MessageType_String START_SERVICE = ''START_SERVICE''"
| "MessageType_String UNEXPECTED_ERROR = ''UNEXPECTED_ERROR''"
| "MessageType_String ALREADY_STARTED = ''ALREADY_STARTED''"
| "MessageType_String ALREADY_STOPPED = ''ALREADY_STOPPED''"
| "MessageType_String INSTANCE_NOT_FOUND = ''INSTANCE_NOT_FOUND''"
| "MessageType_String INSTANCE_NOT_STOPPED = ''INSTANCE_NOT_STOPPED''"
| "MessageType_String INSTANCE_NOT_STARTED = ''INSTANCE_NOT_STARTED''"
| "MessageType_String ERROR_BUILDING_CONFIG = ''ERROR_BUILDING_CONFIG''"
| "MessageType_String ERROR_PARSING_CONFIG = ''ERROR_PARSING_CONFIG''"
| "MessageType_String ERROR_READING_CONFIG = ''ERROR_READING_CONFIG''"

text \<open>Text that may contain the rendering of an error (\<open>err.Error()\<close>).\<close>

datatype message = TStr string | TErr go_error | TCat "message list"

record CoreInfoResponse =
  info_state :: CoreState
  info_type :: MessageType
  info_message :: message

definition convert2OldState :: "CoreState \<Rightarrow> string" where
  "convert2OldState newStatus =
     (if newStatus = STOPPED then ''Stopped''
      else if newStatus = STARTED then ''Started''
      else if newStatus = STARTING then ''Starting''
      else if newStatus = STOPPING then ''Stopping''
      else ''Invalid'')"

record StatusMessage =
  sm_Status :: string
  sm_Alert :: "string option"
  sm_Message :: "message option"

datatype core_event =
    EvLog LogLevel message
  | EvInfo CoreInfoResponse
  | EvPort int StatusMessage
  | EvMemoryLimit bool
  | EvBoxNew nat
  | EvBoxStart nat bool
  | EvBoxClose nat
  | EvServerStart nat
  | EvServerClose nat
  | EvSetService nat "nat option"
  | EvServiceClose nat

section \<open>The state and its environment\<close>

record boxService =
  box_id :: nat
  box_clash :: bool

record core =
  CoreState :: CoreState
  Box :: "boxService option"
  oldCommandServer :: "nat option"
  coreLogFactory :: bool
  useFlutterBridge :: bool
  statusPropagationPort :: int
  sWorkingPath :: string
  sTempPath :: string
  oldStatusClient :: "nat option"
  oldGroupClient :: "nat option"
  oldGroupInfoOnlyClient :: "nat option"
  ticks :: nat
  events :: "core_event list"

definition core_init :: core where
  "core_init = \<lparr>CoreState = STOPPED, Box = None, oldCommandServer = None, coreLogFactory = False,
     useFlutterBridge = True, statusPropagationPort = 0, sWorkingPath = [], sTempPath = [],
     oldStatusClient = None, oldGroupClient = None, oldGroupInfoOnlyClient = None,
     ticks = 0, events = []\<rparr>"

text \<open>
  \<open>e_newBox\<close> answers \<open>B.New\<close>: an error, a panic, or a box, and whether it has a Clash API
  server.  The functions that take two numbers answer the call made at a time on an object.
\<close>

record 'o core_env =
  e_readOptions :: "string \<Rightarrow> go_error + 'o"
  e_newBox :: "nat \<Rightarrow> 'o \<Rightarrow> bool res"
  e_boxStart :: "nat \<Rightarrow> nat \<Rightarrow> unit res"
  e_boxClose :: "nat \<Rightarrow> nat \<Rightarrow> go_error option"
  e_serverStart :: "nat \<Rightarrow> nat \<Rightarrow> go_error option"
  e_serverClose :: "nat \<Rightarrow> nat \<Rightarrow> go_error option"
  e_clientConnect :: "nat \<Rightarrow> nat \<Rightarrow> go_error option"
  e_clientDisconnect :: "nat \<Rightarrow> nat \<Rightarrow> go_error option"
  e_libboxSetup :: "string \<Rightarrow> string \<Rightarrow> string \<Rightarrow> go_error option"
  e_chdir :: "string \<Rightarrow> go_error option"
  e_logNew :: "go_error option"
  e_stack :: string

datatype 'a run = Ret 'a | Throw string

type_synonym reply = "CoreInfoResponse option \<times> go_error option"

definition tick :: "core \<Rightarrow> core" where
  "tick s = s\<lparr>ticks := ticks s + 1\<rparr>"

definition emit :: "core_event \<Rightarrow> core \<Rightarrow> core" where
  "emit e s = s\<lparr>events := events s @ [e]\<rparr>"

section \<open>Status and logs\<close>

definition core_Log :: "LogLevel \<Rightarrow> message \<Rightarrow> core \<Rightarrow> core" where
  "core_Log level msg s = emit (EvLog level msg) s"

definition SetCoreStatus ::
    "CoreState \<Rightarrow> MessageType \<Rightarrow> message \<Rightarrow> core \<Rightarrow> core \<times> CoreInfoResponse" where
  "SetCoreStatus st msgType msg s =
     (let text = (if msgType = EMPTY
                  then TCat [TStr (CoreState_String st), TStr '': '', msg]
                  else TCat [TStr (CoreState_String st), TStr '': '',
                             TStr (MessageType_String msgType), TStr '' '', msg]);
          s1 = (core_Log INFO text s)\<lparr>CoreState := st\<rparr>;
          info = \<lparr>info_state = st, info_type = msgType, info_message = msg\<rparr>;
          s2 = emit (EvInfo info) s1;
          s3 = (if useFlutterBridge s2
                then emit (EvPort (statusPropagationPort s2)
                       \<lparr>sm_Status = convert2OldState (CoreState s2), sm_Alert = None,
                        sm_Message = None\<rparr>) s2
                else s2)
      in (s3, info))"

section \<open>The command server\<close>

text \<open>
  \<open>CommandServer.SetService\<close> asserts that a service given to it has a Clash API server of the
  expected type; without one the assertion panics before the service is stored.
\<close>

definition SetService :: "nat \<Rightarrow> boxService option \<Rightarrow> core \<Rightarrow> core \<times> unit run" where
  "SetService sv b s =
     (case b of
        Some x \<Rightarrow> if box_clash x then (emit (EvSetService sv (Some (box_id x))) s, Ret ())
                   else (s, Throw ''interface conversion'')
      | None \<Rightarrow> (emit (EvSetService sv None) s, Ret ()))"

text \<open>\<open>coreLogFactory\<close> is nil before \<open>Setup\<close>; then the first line of the function panics.\<close>

definition startCommandServer :: "'o core_env \<Rightarrow> core \<Rightarrow> core \<times> go_error option run" where
  "startCommandServer env s =
     (if \<not> coreLogFactory s
      then (s, Throw ''invalid memory address or nil pointer dereference'')
      else
        let sv = ticks s;
            s1 = emit (EvServerStart sv) (tick s\<lparr>oldCommandServer := Some sv\<rparr>)
        in (s1, Ret (e_serverStart env (ticks s) sv)))"

definition boxClose :: "'o core_env \<Rightarrow> boxService \<Rightarrow> core \<Rightarrow> core \<times> go_error option" where
  "boxClose env b s = (emit (EvBoxClose (box_id b)) (tick s), e_boxClose env (ticks s) (box_id b))"

definition serverClose :: "'o core_env \<Rightarrow> nat \<Rightarrow> core \<Rightarrow> core \<times> go_error option" where
  "serverClose env sv s = (emit (EvServerClose sv) (tick s), e_serverClose env (ticks s) sv)"

text \<open>Detaching the service from the command server, when there is one.\<close>

definition detach :: "core \<Rightarrow> core" where
  "detach s = (case oldCommandServer s of None \<Rightarrow> s | Some sv \<Rightarrow> fst (SetService sv None s))"

section \<open>Stopping with an alert\<close>

definition StopAndAlert :: "'o core_env \<Rightarrow> MessageType \<Rightarrow> message \<Rightarrow> core \<Rightarrow> core" where
  "StopAndAlert env msgType msg s =
     (let s1 = detach (fst (SetCoreStatus STOPPED msgType msg s));
          s2 = (case Box s1 of None \<Rightarrow> s1 | Some b \<Rightarrow> (fst (boxClose env b s1))\<lparr>Box := None\<rparr>);
          s3 = (case oldCommandServer s2 of None \<Rightarrow> s2 | Some sv \<Rightarrow> fst (serverClose env sv s2))
      in if useFlutterBridge s3
         then emit (EvPort (statusPropagationPort s3)
                \<lparr>sm_Status = convert2OldState (CoreState s3),
                 sm_Alert = Some (MessageType_String msgType), sm_Message = Some msg\<rparr>) s3
         else s3)"

text \<open>
  \<open>DeferPanicToError\<close> with the handler that \<open>Start\<close>, \<open>Stop\<close> and \<open>Restart\<close> give it.  A function
  that recovers returns the zero values of its results, here a nil response and a nil error.
\<close>

definition panic_error :: "'o core_env \<Rightarrow> string \<Rightarrow> string \<Rightarrow> go_error" where
  "panic_error env name r =
     ENew [AStr name, AStr '' panic: '', AStr r, AStr [CHR 0x0A], AStr (e_stack env)]"

definition DeferPanicToError ::
    "'o core_env \<Rightarrow> string \<Rightarrow> core \<times> reply run \<Rightarrow> core \<times> reply" where
  "DeferPanicToError env name x =
     (case x of
        (s, Ret r) \<Rightarrow> (s, r)
      | (s, Throw p) \<Rightarrow>
          let e = panic_error env name p in
          (StopAndAlert env UNEXPECTED_ERROR (TErr e) (core_Log FATAL (TErr e) s), (None, None)))"

section \<open>Starting\<close>

record StartRequest =
  ConfigContent :: string
  EnableOldCommandServer :: bool
  DelayStart :: bool
  DisableMemoryLimit :: bool

text \<open>\<open>NewService\<close> of \<open>v2/service.go\<close>: a fresh box, or the cause of the failure.\<close>

definition NewService :: "'o core_env \<Rightarrow> 'o \<Rightarrow> core \<Rightarrow> core \<times> boxService res" where
  "NewService env opts s =
     (case e_newBox env (ticks s) opts of
        Ok clash \<Rightarrow> (emit (EvBoxNew (ticks s)) (tick s), Ok \<lparr>box_id = ticks s, box_clash = clash\<rparr>)
      | Err e \<Rightarrow> (tick s, Err (ECause e [AStr ''create service'']))
      | Panic p \<Rightarrow> (tick s, Panic p))"

text \<open>The four error exits of \<open>StartService\<close> have the same shape.\<close>

definition start_failed ::
    "'o core_env \<Rightarrow> MessageType \<Rightarrow> go_error \<Rightarrow> core \<Rightarrow> core \<times> reply run" where
  "start_failed env mt e s =
     (case SetCoreStatus STOPPED mt (TErr e) (core_Log FATAL (TErr e) s) of
        (s1, resp) \<Rightarrow> (StopAndAlert env UNEXPECTED_ERROR (TErr e) s1, Ret (Some resp, Some e)))"

text \<open>\<open>instance.Start()\<close> and what follows it.\<close>

definition start_instance ::
    "'o core_env \<Rightarrow> StartRequest \<Rightarrow> boxService \<Rightarrow> core \<Rightarrow> core \<times> reply run" where
  "start_instance env req b s =
     (let r = e_boxStart env (ticks s) (box_id b);
          s1 = emit (EvBoxStart (box_id b) (r = Ok ())) (tick s)
      in case r of
           Panic p \<Rightarrow> (s1, Throw p)
         | Err e \<Rightarrow> start_failed env START_SERVICE e s1
         | Ok _ \<Rightarrow>
             let s2 = s1\<lparr>Box := Some b\<rparr> in
             (case (if EnableOldCommandServer req
                    then (case oldCommandServer s2 of
                            Some sv \<Rightarrow> SetService sv (Box s2) s2
                          | None \<Rightarrow> (s2, Throw ''invalid memory address or nil pointer dereference''))
                    else (s2, Ret ())) of
                (s3, Throw p) \<Rightarrow> (s3, Throw p)
              | (s3, Ret _) \<Rightarrow>
                  (case SetCoreStatus STARTED EMPTY (TStr []) s3 of
                     (s4, resp) \<Rightarrow> (s4, Ret (Some resp, None)))))"

definition StartService :: "'o core_env \<Rightarrow> StartRequest \<Rightarrow> core \<Rightarrow> core \<times> reply run" where
  "StartService env req s =
     (let s1 = core_Log DEBUG (TStr ''Parsed'') (core_Log DEBUG (TStr ''Parsing Config'')
                 (core_Log DEBUG (TStr ''Starting Core Service'') s))
      in case e_readOptions env (ConfigContent req) of
           Inl e \<Rightarrow> start_failed env ERROR_PARSING_CONFIG e s1
         | Inr opts \<Rightarrow>
     (let s2 = core_Log DEBUG (TStr ''Saving config'') s1 in
      case (if EnableOldCommandServer req
            then startCommandServer env (core_Log DEBUG (TStr ''Starting Command Server'') s2)
            else (s2, Ret None)) of
        (s3, Throw p) \<Rightarrow> (s3, Throw p)
      | (s3, Ret (Some e)) \<Rightarrow> start_failed env START_COMMAND_SERVER e s3
      | (s3, Ret None) \<Rightarrow>
     (case NewService env opts (core_Log DEBUG (TStr ''Stating Service '') s3) of
        (s4, Panic p) \<Rightarrow> (s4, Throw p)
      | (s4, Err e) \<Rightarrow> start_failed env CREATE_SERVICE e s4
      | (s4, Ok b) \<Rightarrow>
          start_instance env req b (core_Log DEBUG (TStr ''Service.. started'') s4))))"

section \<open>Stop, Start, Restart\<close>

definition reply_err ::
    "MessageType \<Rightarrow> string \<Rightarrow> string \<Rightarrow> core \<Rightarrow> core \<times> reply" where
  "reply_err mt m e s =
     (s, Some \<lparr>info_state = CoreState s, info_type = mt, info_message = TStr m\<rparr>,
      Some (ENew [AStr e]))"

text \<open>
  No call in the body of \<open>Stop\<close> can panic (\<open>SetService(nil)\<close> does not reach the assertion), so
  its deferred handler never runs.
\<close>

definition core_Stop :: "'o core_env \<Rightarrow> core \<Rightarrow> core \<times> reply" where
  "core_Stop env s =
     (if CoreState s \<noteq> STARTED
      then reply_err INSTANCE_NOT_STARTED ''instance is not started'' ''instance not started''
             (core_Log FATAL (TStr ''Core is not started'') s)
      else case Box s of
        None \<Rightarrow> reply_err INSTANCE_NOT_FOUND ''instance is not found'' ''instance not found'' s
      | Some b \<Rightarrow>
     (case boxClose env b (detach (fst (SetCoreStatus STOPPING EMPTY (TStr []) s))) of
        (s1, Some _) \<Rightarrow> reply_err UNEXPECTED_ERROR ''Error while stopping the service''
                          ''error while stopping the service'' s1
      | (s1, None) \<Rightarrow>
     (let s2 = s1\<lparr>Box := None\<rparr> in
      case (case oldCommandServer s2 of
              None \<Rightarrow> (s2, None)
            | Some sv \<Rightarrow> (case serverClose env sv s2 of
                  (s3, Some e) \<Rightarrow> (s3, Some e)
                | (s3, None) \<Rightarrow> (s3\<lparr>oldCommandServer := None\<rparr>, None))) of
        (s3, Some _) \<Rightarrow> reply_err UNEXPECTED_ERROR ''Error while Closing the comand server''
                          ''error while Closing the comand server'' s3
      | (s3, None) \<Rightarrow>
          (case SetCoreStatus STOPPED EMPTY (TStr []) s3 of (s4, resp) \<Rightarrow> (s4, Some resp, None)))))"

definition core_Start :: "'o core_env \<Rightarrow> StartRequest \<Rightarrow> core \<Rightarrow> core \<times> reply" where
  "core_Start env req s =
     DeferPanicToError env ''start''
       (let s1 = core_Log INFO (TStr ''Starting'') s;
            s2 = (if CoreState s1 \<noteq> STOPPED
                  then fst (core_Stop env (core_Log INFO (TStr ''Starting0000'') s1)) else s1);
            s3 = fst (SetCoreStatus STARTING EMPTY (TStr [])
                        (core_Log DEBUG (TStr ''Starting Core'') s2));
            s4 = emit (EvMemoryLimit (\<not> DisableMemoryLimit req)) s3
        in StartService env req s4)"

definition core_Restart :: "'o core_env \<Rightarrow> StartRequest \<Rightarrow> core \<Rightarrow> core \<times> reply" where
  "core_Restart env req s =
     DeferPanicToError env ''restart''
       (if CoreState s \<noteq> STARTED
        then (case reply_err INSTANCE_NOT_STARTED ''instance is not started''
                     ''instance not started'' s of (s', r) \<Rightarrow> (s', Ret r))
        else if Box s = None
        then (case reply_err INSTANCE_NOT_FOUND ''instance is not found''
                     ''instance not found'' s of (s', r) \<Rightarrow> (s', Ret r))
        else (case core_Stop env s of
                (s1, resp, Some e) \<Rightarrow> (s1, Ret (resp, Some e))
              | (s1, resp, None) \<Rightarrow>
                  StartService env req
                    (emit (EvMemoryLimit (\<not> DisableMemoryLimit req))
                       (fst (SetCoreStatus STARTING EMPTY (TStr []) s1)))))"

text \<open>
  \<open>CommandServerHandler.ServiceReload\<close>, which the command server calls in a goroutine that does
  not recover; the request it builds has no configuration.
\<close>

definition reload_request :: StartRequest where
  "reload_request = \<lparr>ConfigContent = [], EnableOldCommandServer = True, DelayStart = True,
     DisableMemoryLimit = False\<rparr>"

definition ServiceReload :: "'o core_env \<Rightarrow> core \<Rightarrow> core \<times> go_error option run" where
  "ServiceReload env s =
     (let s1 = fst (SetCoreStatus STARTING EMPTY (TStr []) s);
          s2 = (case oldCommandServer s1 of None \<Rightarrow> s1
                | Some sv \<Rightarrow> (fst (SetService sv None s1))\<lparr>oldCommandServer := None\<rparr>);
          s3 = (case Box s2 of None \<Rightarrow> s2 | Some b \<Rightarrow> (fst (boxClose env b s2))\<lparr>Box := None\<rparr>)
      in case StartService env reload_request s3 of
           (s4, Ret (_, e)) \<Rightarrow> (s4, Ret e)
         | (s4, Throw p) \<Rightarrow> (s4, Throw p))"

text \<open>\<open>SetSystemProxyEnabled\<close> of the handler ignores its argument and reloads.\<close>

definition SetSystemProxyEnabled :: "'o core_env \<Rightarrow> bool \<Rightarrow> core \<Rightarrow> core \<times> go_error option run" where
  "SetSystemProxyEnabled env isEnabled s = ServiceReload env s"

definition Setup ::
    "'o core_env \<Rightarrow> string \<Rightarrow> string \<Rightarrow> string \<Rightarrow> int \<Rightarrow> core \<Rightarrow> core \<times> go_error option" where
  "Setup env basePath workingPath tempPath statusPort s =
     (let s1 = s\<lparr>statusPropagationPort := statusPort\<rparr> in
      case e_libboxSetup env basePath workingPath tempPath of
        Some e \<Rightarrow> (s1, Some e)
      | None \<Rightarrow>
          let s2 = s1\<lparr>sWorkingPath := workingPath\<rparr> in
          (case e_chdir env workingPath of
             Some e \<Rightarrow> (s2, Some e)
           | None \<Rightarrow> (s2\<lparr>sTempPath := tempPath, coreLogFactory := (e_logNew env = None)\<rparr>,
                      e_logNew env)))"

section \<open>Command clients\<close>

text \<open>
  Three package variables hold the command clients; a client is made for every \<open>StartCommand\<close>
  and \<open>StopCommand\<close> on a nil client panics.
\<close>

definition CommandStatus :: int where "CommandStatus = 1"
definition CommandGroup :: int where "CommandGroup = 5"
definition CommandGroupInfoOnly :: int where "CommandGroupInfoOnly = 16"

definition connect_client ::
    "'o core_env \<Rightarrow> (nat option \<Rightarrow> core \<Rightarrow> core) \<Rightarrow> core \<Rightarrow> core \<times> go_error option run" where
  "connect_client env put s =
     (if \<not> coreLogFactory s
      then (s, Throw ''invalid memory address or nil pointer dereference'')
      else (put (Some (ticks s)) (tick s), Ret (e_clientConnect env (ticks s) (ticks s))))"

definition disconnect_client ::
    "'o core_env \<Rightarrow> nat option \<Rightarrow> (nat option \<Rightarrow> core \<Rightarrow> core) \<Rightarrow> core \<Rightarrow> core \<times> go_error option run" where
  "disconnect_client env c put s =
     (case c of
        None \<Rightarrow> (s, Throw ''invalid memory address or nil pointer dereference'')
      | Some i \<Rightarrow> (put None (tick s), Ret (e_clientDisconnect env (ticks s) i)))"

definition StartCommand :: "'o core_env \<Rightarrow> int \<Rightarrow> core \<Rightarrow> core \<times> go_error option run" where
  "StartCommand env command s =
     (if command = CommandStatus
      then connect_client env (\<lambda>c t. t\<lparr>oldStatusClient := c\<rparr>) s
      else if command = CommandGroup
      then connect_client env (\<lambda>c t. t\<lparr>oldGroupClient := c\<rparr>) s
      else if command = CommandGroupInfoOnly
      then connect_client env (\<lambda>c t. t\<lparr>oldGroupInfoOnlyClient := c\<rparr>) s
      else (s, Ret None))"

definition StopCommand :: "'o core_env \<Rightarrow> int \<Rightarrow> core \<Rightarrow> core \<times> go_error option run" where
  "StopCommand env command s =
     (if command = CommandStatus
      then disconnect_client env (oldStatusClient s) (\<lambda>c t. t\<lparr>oldStatusClient := c\<rparr>) s
      else if command = CommandGroup
      then disconnect_client env (oldGroupClient s) (\<lambda>c t. t\<lparr>oldGroupClient := c\<rparr>) s
      else if command = CommandGroupInfoOnly
      then disconnect_client env (oldGroupInfoOnlyClient s) (\<lambda>c t. t\<lparr>oldGroupInfoOnlyClient := c\<rparr>) s
      else (s, Ret None))"

section \<open>The C interface\<close>

text \<open>The text handed to the caller: empty for a nil error.\<close>

definition emptyOrErrorC :: "go_error option \<Rightarrow> message" where
  "emptyOrErrorC e = (case e of None \<Rightarrow> TStr [] | Some x \<Rightarrow> TErr x)"

definition c_request :: "string \<Rightarrow> bool \<Rightarrow> StartRequest" where
  "c_request config disableMemoryLimit =
     \<lparr>ConfigContent = config, EnableOldCommandServer = True, DelayStart = False,
      DisableMemoryLimit = disableMemoryLimit\<rparr>"

definition c_start :: "'o core_env \<Rightarrow> string \<Rightarrow> bool \<Rightarrow> core \<Rightarrow> core \<times> message" where
  "c_start env config dml s =
     (case core_Start env (c_request config dml) s of (s', _, e) \<Rightarrow> (s', emptyOrErrorC e))"

definition c_stop :: "'o core_env \<Rightarrow> core \<Rightarrow> core \<times> message" where
  "c_stop env s = (case core_Stop env s of (s', _, e) \<Rightarrow> (s', emptyOrErrorC e))"

definition c_restart :: "'o core_env \<Rightarrow> string \<Rightarrow> bool \<Rightarrow> core \<Rightarrow> core \<times> message" where
  "c_restart env config dml s =
     (case core_Restart env (c_request config dml) s of (s', _, e) \<Rightarrow> (s', emptyOrErrorC e))"

definition c_setup ::
    "'o core_env \<Rightarrow> string \<Rightarrow> string \<Rightarrow> string \<Rightarrow> int \<Rightarrow> core \<Rightarrow> core \<times> message" where
  "c_setup env baseDir workingDir tempDir statusPort s =
     (case Setup env baseDir workingDir tempDir statusPort s of (s', e) \<Rightarrow> (s', emptyOrErrorC e))"

section \<open>Closing through the command server\<close>

text \<open>
  The service that a command server has, by the last \<open>SetService\<close> on it.  \<open>handleServiceClose\<close> of
  \<open>core/experimental/libbox/command_power.go\<close> closes it and calls the handler, whose \<open>PostServiceClose\<close> is
  empty: the variables of the core stay as they are.  Without a service the call panics.
\<close>

fun service_step :: "core_event \<Rightarrow> (nat \<rightharpoonup> nat) \<Rightarrow> (nat \<rightharpoonup> nat)" where
  "service_step (EvSetService sv x) m = m(sv := x)"
| "service_step _ m = m"

definition service_of :: "core \<Rightarrow> nat \<rightharpoonup> nat" where
  "service_of s = fold service_step (events s) Map.empty"

definition PostServiceClose :: "core \<Rightarrow> core" where
  "PostServiceClose s = s"

definition handleServiceClose :: "'o core_env \<Rightarrow> nat \<Rightarrow> core \<Rightarrow> core \<times> go_error option run" where
  "handleServiceClose env sv s =
     (case service_of s sv of
        None \<Rightarrow> (s, Throw ''invalid memory address or nil pointer dereference'')
      | Some i \<Rightarrow>
          let s1 = emit (EvBoxClose i) (emit (EvServiceClose i) (tick s)) in
          (PostServiceClose s1, Ret (e_boxClose env (ticks s) i)))"

section \<open>What the events say\<close>

text \<open>
  \<open>dropped\<close>: the boxes that were closed through the command server since they started.  \<open>live\<close>: the boxes whose \<open>Start\<close> returned nil and that were not closed since.  \<open>seen\<close>: the
  status the port was told last.
\<close>

fun live_step :: "core_event \<Rightarrow> nat set \<Rightarrow> nat set" where
  "live_step (EvBoxStart i True) A = insert i A"
| "live_step (EvBoxClose i) A = A - {i}"
| "live_step _ A = A"

fun drop_step :: "core_event \<Rightarrow> nat set \<Rightarrow> nat set" where
  "drop_step (EvBoxStart i True) A = A - {i}"
| "drop_step (EvServiceClose i) A = insert i A"
| "drop_step _ A = A"

fun seen_step :: "core_event \<Rightarrow> string \<Rightarrow> string" where
  "seen_step (EvPort _ m) t = sm_Status m"
| "seen_step _ t = t"

definition live :: "core \<Rightarrow> nat set" where
  "live s = fold live_step (events s) {}"

definition dropped :: "core \<Rightarrow> nat set" where
  "dropped s = fold drop_step (events s) {}"

definition seen :: "core \<Rightarrow> string" where
  "seen s = fold seen_step (events s) ''Stopped''"

definition box_ids :: "core \<Rightarrow> nat set" where
  "box_ids s = set_option (map_option box_id (Box s))"

definition synced :: "core \<Rightarrow> bool" where
  "synced s = (useFlutterBridge s \<longrightarrow> seen s = convert2OldState (CoreState s))"

definition core_inv :: "core \<Rightarrow> bool" where
  "core_inv s \<longleftrightarrow>
     live s = (if CoreState s = STARTED then box_ids s - dropped s else {}) \<and>
     (CoreState s = STARTED \<longrightarrow> Box s \<noteq> None) \<and> (CoreState s = STOPPED \<longrightarrow> Box s = None) \<and>
     CoreState s \<noteq> STARTING \<and> synced s"

lemma emit_simps [simp]:
  "CoreState (emit e s) = CoreState s" "Box (emit e s) = Box s"
  "oldCommandServer (emit e s) = oldCommandServer s" "useFlutterBridge (emit e s) = useFlutterBridge s"
  "coreLogFactory (emit e s) = coreLogFactory s" "ticks (emit e s) = ticks s"
  "statusPropagationPort (emit e s) = statusPropagationPort s"
  "live (emit e s) = live_step e (live s)" "seen (emit e s) = seen_step e (seen s)"
  "dropped (emit e s) = drop_step e (dropped s)"
  by (simp_all add: emit_def live_def seen_def dropped_def)

lemma tick_simps [simp]:
  "CoreState (tick s) = CoreState s" "Box (tick s) = Box s"
  "oldCommandServer (tick s) = oldCommandServer s" "useFlutterBridge (tick s) = useFlutterBridge s"
  "coreLogFactory (tick s) = coreLogFactory s" "ticks (tick s) = Suc (ticks s)"
  "statusPropagationPort (tick s) = statusPropagationPort s"
  "live (tick s) = live s" "seen (tick s) = seen s" "dropped (tick s) = dropped s"
  by (simp_all add: tick_def live_def seen_def dropped_def)

lemma update_simps [simp]:
  "live (s\<lparr>CoreState := c\<rparr>) = live s" "seen (s\<lparr>CoreState := c\<rparr>) = seen s"
  "live (s\<lparr>Box := b\<rparr>) = live s" "seen (s\<lparr>Box := b\<rparr>) = seen s"
  "live (s\<lparr>oldCommandServer := sv\<rparr>) = live s" "seen (s\<lparr>oldCommandServer := sv\<rparr>) = seen s"
  "dropped (s\<lparr>CoreState := c\<rparr>) = dropped s" "dropped (s\<lparr>Box := b\<rparr>) = dropped s"
  "dropped (s\<lparr>oldCommandServer := sv\<rparr>) = dropped s"
  by (simp_all add: live_def seen_def dropped_def)

lemma core_Log_simps [simp]:
  "CoreState (core_Log l m s) = CoreState s" "Box (core_Log l m s) = Box s"
  "oldCommandServer (core_Log l m s) = oldCommandServer s"
  "useFlutterBridge (core_Log l m s) = useFlutterBridge s"
  "coreLogFactory (core_Log l m s) = coreLogFactory s" "ticks (core_Log l m s) = ticks s"
  "live (core_Log l m s) = live s" "seen (core_Log l m s) = seen s" "dropped (core_Log l m s) = dropped s"
  by (simp_all add: core_Log_def)

lemma SetCoreStatus_simps [simp]:
  "CoreState (fst (SetCoreStatus c mt m s)) = c" "Box (fst (SetCoreStatus c mt m s)) = Box s"
  "oldCommandServer (fst (SetCoreStatus c mt m s)) = oldCommandServer s"
  "useFlutterBridge (fst (SetCoreStatus c mt m s)) = useFlutterBridge s"
  "coreLogFactory (fst (SetCoreStatus c mt m s)) = coreLogFactory s"
  "ticks (fst (SetCoreStatus c mt m s)) = ticks s"
  "live (fst (SetCoreStatus c mt m s)) = live s" "dropped (fst (SetCoreStatus c mt m s)) = dropped s"
  "synced (fst (SetCoreStatus c mt m s))"
  "snd (SetCoreStatus c mt m s) = \<lparr>info_state = c, info_type = mt, info_message = m\<rparr>"
  by (simp_all add: SetCoreStatus_def synced_def Let_def)

lemma detach_simps [simp]:
  "CoreState (detach s) = CoreState s" "Box (detach s) = Box s"
  "oldCommandServer (detach s) = oldCommandServer s" "useFlutterBridge (detach s) = useFlutterBridge s"
  "live (detach s) = live s" "seen (detach s) = seen s" "synced (detach s) = synced s" "dropped (detach s) = dropped s"
  by (simp_all add: detach_def SetService_def synced_def split: option.splits)

lemma close_simps [simp]:
  "CoreState (fst (boxClose env b s)) = CoreState s" "Box (fst (boxClose env b s)) = Box s"
  "oldCommandServer (fst (boxClose env b s)) = oldCommandServer s"
  "live (fst (boxClose env b s)) = live s - {box_id b}" "synced (fst (boxClose env b s)) = synced s"
  "CoreState (fst (serverClose env sv s)) = CoreState s" "Box (fst (serverClose env sv s)) = Box s"
  "live (fst (serverClose env sv s)) = live s" "synced (fst (serverClose env sv s)) = synced s"
  by (simp_all add: boxClose_def serverClose_def synced_def)

lemma synced_update [simp]:
  "synced (s\<lparr>Box := b\<rparr>) = synced s" "synced (s\<lparr>oldCommandServer := sv\<rparr>) = synced s"
  "synced (core_Log l m s) = synced s" "synced (tick s) = synced s"
  "(\<And>p m. e \<noteq> EvPort p m) \<Longrightarrow> synced (emit e s) = synced s"
  by (simp_all add: synced_def) (cases e; auto)

section \<open>The invariant\<close>

text \<open>After \<open>StopAndAlert\<close> nothing runs, if at most the box in \<open>Box\<close> did before.\<close>

lemma StopAndAlert_stops:
  assumes "live s \<subseteq> box_ids s"
  shows "CoreState (StopAndAlert env mt m s) = STOPPED" and "Box (StopAndAlert env mt m s) = None"
    and "live (StopAndAlert env mt m s) = {}" and "core_inv (StopAndAlert env mt m s)"
proof -
  show c: "CoreState (StopAndAlert env mt m s) = STOPPED"
    and b: "Box (StopAndAlert env mt m s) = None"
    and l: "live (StopAndAlert env mt m s) = {}"
    using assms
    by (auto simp: StopAndAlert_def Let_def box_ids_def split: option.splits)
  have "synced (StopAndAlert env mt m s)"
    by (auto simp: StopAndAlert_def Let_def synced_def [of "emit _ _"] split: option.splits)
  with c b l show "core_inv (StopAndAlert env mt m s)" by (simp add: core_inv_def)
qed

lemma start_failed_stops:
  assumes "live s \<subseteq> box_ids s" and "start_failed env mt e s = (s', r)"
  shows "core_inv s' \<and> CoreState s' = STOPPED \<and> (\<exists>resp. r = Ret (Some resp, Some e))"
proof -
  have "live (fst (SetCoreStatus STOPPED mt (TErr e) (core_Log FATAL (TErr e) s)))
      \<subseteq> box_ids (fst (SetCoreStatus STOPPED mt (TErr e) (core_Log FATAL (TErr e) s)))"
    using assms(1) by (simp add: box_ids_def)
  from StopAndAlert_stops [OF this] assms(2) show ?thesis
    by (auto simp: start_failed_def split: prod.splits)
qed

text \<open>
  \<open>StartService\<close> from a state in which nothing runs: it returns with the core running, or with
  an error and the core stopped, or it panics with at most the box in \<open>Box\<close> running.
\<close>

definition start_ends :: "core \<Rightarrow> reply run \<Rightarrow> bool" where
  "start_ends s r =
     (case r of
        Ret (resp, None) \<Rightarrow> core_inv s \<and> CoreState s = STARTED \<and> live s = box_ids s \<and>
          resp = Some \<lparr>info_state = STARTED, info_type = EMPTY, info_message = TStr []\<rparr>
      | Ret (resp, Some e) \<Rightarrow> core_inv s \<and> CoreState s = STOPPED \<and> resp \<noteq> None
      | Throw p \<Rightarrow> live s \<subseteq> box_ids s)"

lemma start_failed_ends:
  "live s \<subseteq> box_ids s \<Longrightarrow> start_failed env mt e s = (s', r) \<Longrightarrow> start_ends s' r"
  by (drule (1) start_failed_stops) (auto simp: start_ends_def)

lemma start_instance_ends:
  assumes "live s = {}" and "start_instance env req b s = (s', r)"
  shows "start_ends s' r"
proof (cases "e_boxStart env (ticks s) (box_id b)")
  case (Err e)
  with assms show ?thesis
    by (intro start_failed_ends [of "emit (EvBoxStart (box_id b) False) (tick s)" env START_SERVICE e])
       (auto simp: start_instance_def Let_def)
next
  case (Panic p)
  with assms show ?thesis by (auto simp: start_instance_def start_ends_def)
next
  case (Ok u)
  let ?s = "(emit (EvBoxStart (box_id b) True) (tick s))\<lparr>Box := Some b\<rparr>"
  have l: "live ?s = {box_id b}" "box_ids ?s = {box_id b}" "Box ?s = Some b" "box_id b \<notin> dropped ?s"
    using assms(1) by (simp_all add: box_ids_def)
  have fin: "start_ends (fst (SetCoreStatus STARTED EMPTY (TStr []) t))
      (Ret (Some (snd (SetCoreStatus STARTED EMPTY (TStr []) t)), None))"
    if "live t = {box_id b}" "Box t = Some b" "box_id b \<notin> dropped t" for t
    using that by (auto simp: start_ends_def core_inv_def box_ids_def)
  consider "\<not> EnableOldCommandServer req" | "EnableOldCommandServer req" "oldCommandServer s = None"
    | sv where "EnableOldCommandServer req" "oldCommandServer s = Some sv" by auto
  then show ?thesis
  proof cases
    case 1
    with Ok assms(2) fin [of ?s] l show ?thesis
      by (auto simp: start_instance_def Let_def case_prod_beta)
  next
    case 2
    with Ok assms(2) l show ?thesis
      by (auto simp: start_instance_def Let_def start_ends_def)
  next
    case 3
    with Ok assms(2) l fin [of "emit (EvSetService sv (Some (box_id b))) ?s"] show ?thesis
      by (cases "box_clash b")
         (auto simp: start_instance_def SetService_def Let_def case_prod_beta start_ends_def box_ids_def)
  qed
qed

lemma StartService_ends:
  assumes "live s = {}" and "StartService env req s = (s', r)"
  shows "start_ends s' r"
proof -
  have fail: "start_ends s' r" if "start_failed env mt e t = (s', r)" "live t = {}" for mt e t
    using start_failed_ends [OF _ that(1)] that(2) by simp
  have go: "start_ends s' r" if "start_instance env req b t = (s', r)" "live t = {}" for b t
    using start_instance_ends [OF that(2,1)] .
  let ?sv = "startCommandServer env"
  have sv: "live (fst (?sv t)) = live t" for t
    by (simp add: startCommandServer_def Let_def)
  have nw: "live (fst (NewService env opts t)) = live t" for opts t
    by (simp add: NewService_def split: res.splits)
  have svl: "live t' = live t" if "?sv t = (t', q)" for t t' q using sv [of t] that by simp
  have nwl: "live t' = live t" if "NewService env opts t = (t', q)" for opts t t' q
    using nw [of opts t] that by simp
  have thr: "start_ends t (Throw p)" if "live t = {}" for t p using that by (simp add: start_ends_def)
  from assms show ?thesis
    by (auto simp: StartService_def Let_def split: sum.splits if_splits prod.splits run.splits
        option.splits res.splits dest!: svl nwl intro: fail go thr)
qed

text \<open>\<open>Stop\<close> leaves nothing running, whatever it returns.\<close>

lemma core_inv_reply: "core_inv (core_Log l m s) = core_inv s"
  by (simp add: core_inv_def box_ids_def)

lemma core_Stop_running:
  assumes "Box s = Some b" and "CoreState s = STARTED" and "live s \<subseteq> {box_id b}"
    and "core_Stop env s = (s', resp, e)"
  shows "core_inv s' \<and> live s' = {} \<and> (CoreState s' = STOPPED \<and> e = None \<or> CoreState s' = STOPPING \<and> e \<noteq> None)"
proof -
  let ?s = "detach (fst (SetCoreStatus STOPPING EMPTY (TStr []) s))"
  obtain s1 e1 where c: "boxClose env b ?s = (s1, e1)" by fastforce
  then have f1: "CoreState s1 = STOPPING" "live s1 = {}" "synced s1" "Box s1 = Some b"
    "oldCommandServer s1 = oldCommandServer s"
    using assms(1,3) close_simps(1-5) [of env b ?s] by auto
  show ?thesis
  proof (cases e1)
    case (Some x)
    with c f1 assms(1,2,4) show ?thesis
      by (auto simp: core_Stop_def reply_err_def core_inv_def)
  next
    case None
    note body = c None f1 assms(1,2,4)
    show ?thesis
    proof (cases "oldCommandServer s")
      case None
      with body show ?thesis by (auto simp: core_Stop_def core_inv_def Let_def case_prod_beta)
    next
      case (Some sv)
      obtain s3 e3 where d: "serverClose env sv (s1\<lparr>Box := None\<rparr>) = (s3, e3)" by fastforce
      then have "CoreState s3 = STOPPING" "live s3 = {}" "synced s3" "Box s3 = None"
        using f1 close_simps(6-9) [of env sv "s1\<lparr>Box := None\<rparr>"] by auto
      with body d Some show ?thesis
        by (cases e3) (auto simp: core_Stop_def reply_err_def core_inv_def Let_def case_prod_beta)
    qed
  qed
qed

lemma core_Stop_ends:
  assumes "core_inv s" and "core_Stop env s = (s', resp, e)"
  shows "core_inv s' \<and> live s' = {} \<and>
    (if CoreState s = STARTED then CoreState s' = STOPPED \<and> e = None \<or> CoreState s' = STOPPING \<and> e \<noteq> None
     else CoreState s' = CoreState s \<and> e \<noteq> None)"
proof (cases "CoreState s = STARTED")
  case True
  with assms(1) obtain b where "Box s = Some b" "live s \<subseteq> {box_id b}"
    by (auto simp: core_inv_def box_ids_def)
  with True assms(2) core_Stop_running show ?thesis by simp
next
  case False
  with assms show ?thesis
    by (auto simp: core_Stop_def reply_err_def core_inv_reply) (simp add: core_inv_def)
qed

lemma core_Stop_live: "core_inv s \<Longrightarrow> live (fst (core_Stop env s)) = {}"
  by (cases "core_Stop env s") (simp add: core_Stop_ends)

text \<open>The deferred handler turns a panic into a stopped core and two nil results.\<close>

lemma DeferPanicToError_ends:
  assumes "start_ends t r" and "DeferPanicToError env name (t, r) = (s', resp, e)"
  shows "core_inv s' \<and>
    (e = None \<and> CoreState s' = STARTED \<and> live s' = box_ids s' \<and> resp \<noteq> None \<or>
     e \<noteq> None \<and> CoreState s' = STOPPED \<and> resp \<noteq> None \<or>
     e = None \<and> CoreState s' = STOPPED \<and> resp = None)"
proof (cases r)
  case (Ret x)
  with assms show ?thesis
    by (cases x; cases e) (auto simp: DeferPanicToError_def start_ends_def)
next
  case (Throw p)
  let ?m = "TErr (panic_error env name p)"
  have "live (core_Log FATAL ?m t) \<subseteq> box_ids (core_Log FATAL ?m t)"
    using assms(1) Throw by (simp add: start_ends_def box_ids_def)
  from StopAndAlert_stops [OF this, of env UNEXPECTED_ERROR ?m] Throw assms(2) show ?thesis
    by (auto simp: DeferPanicToError_def Let_def)
qed

lemma core_Start_ends:
  assumes "core_inv s" and "core_Start env req s = (s', resp, e)"
  shows "core_inv s' \<and>
    (e = None \<and> CoreState s' = STARTED \<and> live s' = box_ids s' \<and> resp \<noteq> None \<or>
     e \<noteq> None \<and> CoreState s' = STOPPED \<and> resp \<noteq> None \<or>
     e = None \<and> CoreState s' = STOPPED \<and> resp = None)"
proof -
  let ?s1 = "core_Log INFO (TStr ''Starting'') s"
  let ?s2 = "if CoreState ?s1 \<noteq> STOPPED
      then fst (core_Stop env (core_Log INFO (TStr ''Starting0000'') ?s1)) else ?s1"
  let ?s4 = "emit (EvMemoryLimit (\<not> DisableMemoryLimit req))
      (fst (SetCoreStatus STARTING EMPTY (TStr []) (core_Log DEBUG (TStr ''Starting Core'') ?s2)))"
  have "core_inv (core_Log INFO (TStr ''Starting0000'') ?s1)"
    using assms(1) by (simp add: core_inv_reply)
  from core_Stop_live [OF this] have "live ?s2 = {}"
    using assms(1) by (auto simp: core_inv_def)
  then have "live ?s4 = {}" by simp
  moreover obtain t r where t: "StartService env req ?s4 = (t, r)" by fastforce
  ultimately have "start_ends t r" by (rule StartService_ends)
  with t assms(2) show ?thesis
    by (intro DeferPanicToError_ends [of t r env "''start''"]) (simp_all add: core_Start_def Let_def)
qed

lemma core_Restart_ends:
  assumes "core_inv s" and "core_Restart env req s = (s', resp, e)"
  shows "core_inv s'"
proof (cases "CoreState s = STARTED")
  case False
  with assms show ?thesis by (auto simp: core_Restart_def reply_err_def DeferPanicToError_def)
next
  case True
  with assms(1) obtain bx where b: "Box s = Some bx" by (auto simp: core_inv_def)
  obtain s1 resp1 e1 where st: "core_Stop env s = (s1, resp1, e1)" by (rule prod_cases3)
  with assms(1) have s1: "core_inv s1" "live s1 = {}" by (simp_all add: core_Stop_ends)
  show ?thesis
  proof (cases e1)
    case (Some x)
    with True b st s1 assms(2) show ?thesis by (simp add: core_Restart_def DeferPanicToError_def)
  next
    case None
    let ?s2 = "emit (EvMemoryLimit (\<not> DisableMemoryLimit req)) (fst (SetCoreStatus STARTING EMPTY (TStr []) s1))"
    obtain t r where t: "StartService env req ?s2 = (t, r)" by fastforce
    have "start_ends t r" using StartService_ends [OF _ t] s1 by simp
    from DeferPanicToError_ends [OF this, of env "''restart''" s' resp e] None True b st t assms(2)
    show ?thesis by (simp add: core_Restart_def)
  qed
qed

lemma ServiceReload_ends:
  assumes "core_inv s" and "ServiceReload env s = (s', Ret e)"
  shows "core_inv s' \<and> CoreState s' = (if e = None then STARTED else STOPPED)"
proof -
  let ?s1 = "fst (SetCoreStatus STARTING EMPTY (TStr []) s)"
  let ?s2 = "case oldCommandServer ?s1 of None \<Rightarrow> ?s1
                | Some sv \<Rightarrow> (fst (SetService sv None ?s1))\<lparr>oldCommandServer := None\<rparr>"
  let ?s3 = "case Box ?s2 of None \<Rightarrow> ?s2 | Some b \<Rightarrow> (fst (boxClose env b ?s2))\<lparr>Box := None\<rparr>"
  have "live ?s2 = live s" "Box ?s2 = Box s" by (simp_all add: SetService_def split: option.splits)
  moreover have "live s \<subseteq> box_ids s" using assms(1) by (auto simp: core_inv_def split: if_splits)
  ultimately have l: "live ?s3 = {}" by (auto simp: box_ids_def split: option.splits)
  obtain t r where t: "StartService env reload_request ?s3 = (t, r)" by fastforce
  with assms(2) obtain resp where "t = s'" "r = Ret (resp, e)"
    by (cases r) (auto simp: ServiceReload_def Let_def)
  with StartService_ends [OF l t] show ?thesis by (cases e) (auto simp: start_ends_def)
qed

section \<open>All runs of the core\<close>

text \<open>
  One call into the core that returns: by the embedding application, or a reload or a close requested
  through a command server, be it the current one or one of an earlier start.
\<close>

inductive core_step :: "'o core_env \<Rightarrow> core \<Rightarrow> core \<Rightarrow> bool" for env where
  step_setup: "Setup env bp wp tp port s = (s', e) \<Longrightarrow> core_step env s s'"
| step_start: "c_start env config dml s = (s', m) \<Longrightarrow> core_step env s s'"
| step_stop: "c_stop env s = (s', m) \<Longrightarrow> core_step env s s'"
| step_restart: "c_restart env config dml s = (s', m) \<Longrightarrow> core_step env s s'"
| step_reload: "ServiceReload env s = (s', Ret e) \<Longrightarrow> core_step env s s'"
| step_serviceClose: "handleServiceClose env sv s = (s', Ret e) \<Longrightarrow> core_step env s s'"
| step_startCommand: "StartCommand env c s = (s', Ret e) \<Longrightarrow> core_step env s s'"
| step_stopCommand: "StopCommand env c s = (s', Ret e) \<Longrightarrow> core_step env s s'"

inductive core_reachable :: "'o core_env \<Rightarrow> core \<Rightarrow> bool" for env where
  reach_init: "core_reachable env core_init"
| reach_step: "core_reachable env s \<Longrightarrow> core_step env s s' \<Longrightarrow> core_reachable env s'"

lemma core_inv_init: "core_inv core_init"
  by (simp add: core_inv_def core_init_def live_def synced_def seen_def convert2OldState_def)

lemma core_inv_cong:
  "CoreState s' = CoreState s \<Longrightarrow> Box s' = Box s \<Longrightarrow> useFlutterBridge s' = useFlutterBridge s \<Longrightarrow>
   events s' = events s \<Longrightarrow> core_inv s' = core_inv s"
  by (simp add: core_inv_def live_def dropped_def synced_def seen_def box_ids_def)

lemma handleServiceClose_simps:
  assumes "handleServiceClose env sv s = (s', Ret e)"
  obtains i where "service_of s sv = Some i" "CoreState s' = CoreState s" "Box s' = Box s" "synced s' = synced s"
    "live s' = live s - {i}" "dropped s' = insert i (dropped s)"
  using assms by (auto simp: handleServiceClose_def PostServiceClose_def Let_def split: option.splits)

lemma core_step_inv: "core_step env s s' \<Longrightarrow> core_inv s \<Longrightarrow> core_inv s'"
proof (induction rule: core_step.induct)
  case (step_setup bp wp tp port s s' e)
  then show ?case
    by (subst core_inv_cong [of _ s]) (auto simp: Setup_def Let_def split: option.splits)
next
  case (step_start config dml s s' m)
  then show ?case by (auto simp: c_start_def split: prod.splits dest: core_Start_ends)
next
  case (step_stop s s' m)
  then show ?case by (auto simp: c_stop_def core_Stop_ends split: prod.splits)
next
  case (step_restart config dml s s' m)
  then show ?case by (auto simp: c_restart_def split: prod.splits dest: core_Restart_ends)
next
  case (step_reload s s' e)
  then show ?case by (simp add: ServiceReload_ends)
next
  case (step_serviceClose sv s s' e)
  from step_serviceClose.hyps show ?case
    by (rule handleServiceClose_simps) (use step_serviceClose.prems in \<open>auto simp: core_inv_def box_ids_def\<close>)
next
  case (step_startCommand c s s' e)
  then show ?case
    by (subst core_inv_cong [of _ s])
       (auto simp: StartCommand_def connect_client_def tick_def split: if_splits)
next
  case (step_stopCommand c s s' e)
  then show ?case
    by (subst core_inv_cong [of _ s])
       (auto simp: StopCommand_def disconnect_client_def tick_def split: if_splits option.splits)
qed

lemma core_reachable_inv: "core_reachable env s \<Longrightarrow> core_inv s"
  by (induction rule: core_reachable.induct) (auto intro: core_inv_init core_step_inv)

section \<open>Properties\<close>

text \<open>An environment for the examples: every configuration but the empty one is accepted.\<close>

definition demo_env :: "bool \<Rightarrow> go_error option \<Rightarrow> string core_env" where
  "demo_env clash closeErr =
     \<lparr>e_readOptions = (\<lambda>c. if c = [] then Inl (EForeign ''EOF'') else Inr c),
      e_newBox = (\<lambda>_ _. Ok clash), e_boxStart = (\<lambda>_ _. Ok ()), e_boxClose = (\<lambda>_ _. closeErr),
      e_serverStart = (\<lambda>_ _. None), e_serverClose = (\<lambda>_ _. None),
      e_clientConnect = (\<lambda>_ _. None), e_clientDisconnect = (\<lambda>_ _. None),
      e_libboxSetup = (\<lambda>_ _ _. None), e_chdir = (\<lambda>_. None), e_logNew = None, e_stack = []\<rparr>"

lemmas run_defs = c_start_def c_request_def core_Start_def core_Stop_def StartService_def
  startCommandServer_def NewService_def start_instance_def SetService_def
  DeferPanicToError_def emptyOrErrorC_def boxClose_def reply_err_def Let_def case_prod_beta



text \<open>Closing the box through the command server leaves the core STARTED with nothing running.\<close>

lemma service_close_leaves_started:
  assumes "core_reachable env s" and "CoreState s = STARTED" and "Box s = Some b" and "service_of s sv = Some (box_id b)"
    and "handleServiceClose env sv s = (s', Ret e)"
  shows "CoreState s' = STARTED \<and> Box s' = Some b \<and> live s' = {}"
proof -
  have "live s \<subseteq> {box_id b}" using core_reachable_inv [OF assms(1)] assms(2,3) by (auto simp: core_inv_def box_ids_def)
  from assms(5) show ?thesis
    by (rule handleServiceClose_simps) (use assms \<open>live s \<subseteq> {box_id b}\<close> in auto)
qed

text \<open>
  What the C function \<open>start\<close> tells its caller, from any reachable state: after a non-empty
  text the core is stopped; after the empty text the core runs its one box, or a panic was
  recovered and the core is stopped.
\<close>

theorem c_start_outcome:
  assumes "core_reachable env s" and "c_start env config dml s = (s', m)"
  shows "(m \<noteq> TStr [] \<longrightarrow> CoreState s' = STOPPED \<and> live s' = {}) \<and>
         (m = TStr [] \<longrightarrow> CoreState s' = STARTED \<and> (\<exists>b. Box s' = Some b \<and> live s' = {box_id b}) \<or>
                          CoreState s' = STOPPED \<and> live s' = {})"
proof -
  obtain resp e where r: "core_Start env (c_request config dml) s = (s', resp, e)" "m = emptyOrErrorC e"
    using assms(2) by (auto simp: c_start_def split: prod.splits)
  from core_Start_ends [OF core_reachable_inv [OF assms(1)] r(1)] r(2) show ?thesis
    by (auto simp: emptyOrErrorC_def core_inv_def box_ids_def split: option.splits)
qed

theorem c_start_outcome_witness:
  "\<exists>s' m. c_start (demo_env True None) [] False core_init = (s', m) \<and> m = TErr (EForeign ''EOF'') \<and>
     CoreState s' = STOPPED \<and> live s' = {}"
proof -
  obtain s' m where r: "c_start (demo_env True None) [] False core_init = (s', m)" by fastforce
  then have "m = TErr (EForeign ''EOF'')"
    by (auto simp: run_defs start_failed_def demo_env_def core_init_def)
  with c_start_outcome [OF reach_init r] r show ?thesis by simp
qed

text \<open>
  A configuration without the Clash API: the box starts, handing it to the command server panics.
\<close>

lemma StartService_without_clash:
  assumes "coreLogFactory s" and "EnableOldCommandServer req"
    and "e_readOptions env (ConfigContent req) = Inr opts"
    and "\<And>t i. e_serverStart env t i = None" and "\<And>t. e_newBox env t opts = Ok False"
    and "\<And>t i. e_boxStart env t i = Ok ()"
  shows "\<exists>s' p. StartService env req s = (s', Throw p)"
  using assms
  by (simp add: StartService_def startCommandServer_def NewService_def start_instance_def
      SetService_def Let_def)

lemma core_Stop_factory: "coreLogFactory (fst (core_Stop env s)) = coreLogFactory s"
  by (auto simp: core_Stop_def reply_err_def boxClose_def serverClose_def detach_def SetService_def
      Let_def case_prod_beta split: option.splits)

text \<open>
  If the configuration parses, the command server starts, and the box is created without a
  Clash API server and starts, then \<open>start\<close> returns the empty text that stands for success,
  although the core is stopped and nothing runs.
\<close>

theorem c_start_without_clash:
  assumes "core_reachable env s" and "coreLogFactory s" and "e_readOptions env config = Inr opts"
    and "\<And>t i. e_serverStart env t i = None" and "\<And>t. e_newBox env t opts = Ok False"
    and "\<And>t i. e_boxStart env t i = Ok ()" and "c_start env config dml s = (s', m)"
  shows "m = TStr [] \<and> CoreState s' = STOPPED \<and> Box s' = None \<and> live s' = {}"
proof -
  let ?req = "c_request config dml"
  obtain resp e where r: "core_Start env ?req s = (s', resp, e)" "m = emptyOrErrorC e"
    using assms(7) by (auto simp: c_start_def split: prod.splits)
  have thr: "\<not> coreLogFactory t" if "StartService env ?req t = (u, Ret x)" for t u x
    using StartService_without_clash [of t ?req env opts] that assms(3-6) by (auto simp: c_request_def)
  have "resp = None" "e = None"
    using r(1) assms(2)
    by (auto simp: core_Start_def DeferPanicToError_def Let_def core_Stop_factory
        split: prod.splits run.splits if_splits dest!: thr)
  with core_Start_ends [OF core_reachable_inv [OF assms(1)] r(1)] r(2) show ?thesis
    by (auto simp: emptyOrErrorC_def core_inv_def)
qed

theorem c_start_without_clash_witness:
  "\<exists>s1 s2 m. Setup (demo_env False None) ''/b'' ''/w'' ''/t'' 5 core_init = (s1, None) \<and>
     c_start (demo_env False None) ''{}'' False s1 = (s2, m) \<and> m = TStr [] \<and> CoreState s2 = STOPPED"
proof -
  let ?env = "demo_env False None"
  obtain s1 e1 where a: "Setup ?env ''/b'' ''/w'' ''/t'' 5 core_init = (s1, e1)" by fastforce
  obtain s2 m2 where b: "c_start ?env ''{}'' False s1 = (s2, m2)" by fastforce
  have f: "coreLogFactory s1" "e1 = None" using a by (auto simp: Setup_def demo_env_def)
  have "core_reachable ?env s1" by (rule reach_step [OF reach_init step_setup [OF a]])
  from c_start_without_clash [OF this f(1) _ _ _ _ b, of "''{}''"] a b f(2)
  show ?thesis by (auto simp: demo_env_def)
qed

text \<open>
  A box whose \<open>Close\<close> reports an error leaves the core in the state STOPPING; from then on
  every \<open>stop\<close> is refused as "instance not started" and changes nothing but the log, and a
  \<open>restart\<close> is refused too.
\<close>

theorem core_Stop_stuck:
  assumes "CoreState s = STARTED" and "Box s = Some b"
    and "\<And>t. e_boxClose env t (box_id b) \<noteq> None" and "c_stop env s = (s1, m1)"
  shows "CoreState s1 = STOPPING \<and> Box s1 = Some b \<and>
    (\<exists>l. c_stop env s1 = (core_Log FATAL l s1, TErr (ENew [AStr ''instance not started'']))) \<and>
    c_restart env config dml s1 = (s1, TErr (ENew [AStr ''instance not started'']))"
proof -
  have "CoreState s1 = STOPPING \<and> Box s1 = Some b"
    using assms(1,2,4) assms(3) [of "ticks (detach (fst (SetCoreStatus STOPPING EMPTY (TStr []) s)))"]
    by (auto simp: c_stop_def core_Stop_def boxClose_def reply_err_def split: prod.splits option.splits)
  then show ?thesis
    by (auto simp: c_stop_def c_restart_def core_Stop_def core_Restart_def reply_err_def
        DeferPanicToError_def emptyOrErrorC_def)
qed

theorem core_Stop_stuck_witness:
  "\<exists>s1 s2 s3 m. Setup (demo_env True (Some ErrInvalid)) ''/b'' ''/w'' ''/t'' 5 core_init = (s1, None) \<and>
     c_start (demo_env True (Some ErrInvalid)) ''{}'' False s1 = (s2, TStr []) \<and>
     c_stop (demo_env True (Some ErrInvalid)) s2 = (s3, m) \<and> CoreState s3 = STOPPING \<and>
     c_restart (demo_env True (Some ErrInvalid)) ''{}'' False s3
       = (s3, TErr (ENew [AStr ''instance not started'']))"
proof -
  let ?env = "demo_env True (Some ErrInvalid)"
  obtain s1 e1 where a: "Setup ?env ''/b'' ''/w'' ''/t'' 5 core_init = (s1, e1)" by fastforce
  obtain s2 m2 where b: "c_start ?env ''{}'' False s1 = (s2, m2)" by fastforce
  obtain s3 m3 where c: "c_stop ?env s2 = (s3, m3)" by fastforce
  have s1: "s1 = core_init\<lparr>statusPropagationPort := 5, sWorkingPath := ''/w'', sTempPath := ''/t'',
      coreLogFactory := True\<rparr>" "e1 = None"
    using a by (simp_all add: Setup_def demo_env_def)
  have st: "CoreState s2 = STARTED" "Box s2 = Some \<lparr>box_id = 1, box_clash = True\<rparr>" "m2 = TStr []"
    using b unfolding s1 by (auto simp: run_defs demo_env_def core_init_def)
  have "e_boxClose ?env t i \<noteq> None" for t i by (simp add: demo_env_def)
  from core_Stop_stuck [OF st(1,2) this c, of "''{}''" False] a b c s1(2) st(3) show ?thesis by blast
qed

text \<open>
  A reload through the command server starts the service without a configuration.  When the
  parser refuses an empty document, every reload ends with that error: the box that ran is
  closed and the core is stopped.
\<close>

theorem ServiceReload_stops:
  assumes "core_reachable env s" and "e_readOptions env [] = Inl e" and "ServiceReload env s = (s', r)"
  shows "r = Ret (Some e) \<and> CoreState s' = STOPPED \<and> Box s' = None \<and> live s' = {}"
proof -
  have "\<exists>t. ServiceReload env s = (t, Ret (Some e))"
    using assms(2)
    by (auto simp: ServiceReload_def StartService_def reload_request_def start_failed_def Let_def
        split: prod.splits)
  with assms(3) have "r = Ret (Some e)" by auto
  with ServiceReload_ends [OF core_reachable_inv [OF assms(1)], of env s' "Some e"] assms(3)
  show ?thesis by (auto simp: core_inv_def)
qed

theorem ServiceReload_stops_witness:
  "\<exists>s'. ServiceReload (demo_env True None) core_init = (s', Ret (Some (EForeign ''EOF''))) \<and>
     CoreState s' = STOPPED"
proof -
  obtain s' r where r: "ServiceReload (demo_env True None) core_init = (s', r)" by fastforce
  have "e_readOptions (demo_env True None) [] = Inl (EForeign ''EOF'')" by (simp add: demo_env_def)
  from ServiceReload_stops [OF reach_init this r] r show ?thesis by simp
qed

end
