(* ===== verification/Rule_Items.thy ===== *)
theory Rule_Items
  imports Prelude
begin

text \<open>
  The metadata of a connection (\<open>core/adapter/inbound.go\<close>) and the conditions a routing rule is
  made of (\<open>core/route/rule/rule_item_*.go\<close>): for every item its data, its constructor, its
  \<open>Match\<close> and its \<open>String\<close>.  A Go \<open>map[K]bool\<close> is a function to bool; reading a missing key
  gives false.

  Foreign code is a parameter, gathered in the record \<open>rule_env\<close>: the Unicode tables behind
  \<open>strings.ToLower\<close> and \<open>strings.EqualFold\<close>, the regular expression engine, the address
  parsers of \<open>net/netip\<close>, the packages \<open>netipx\<close>, \<open>sing/common\<close> and \<open>miekg/dns\<close>.  A domain
  matcher and an address set are represented by the function their \<open>Match\<close> and \<open>Contains\<close>
  compute.  The network manager and the Clash server answer with the state they have now.
\<close>

section \<open>Addresses and metadata\<close>

datatype addr = AddrNone | Addr4 "32 word" | Addr6 "128 word" string

definition addr_IsValid :: "addr \<Rightarrow> bool" where
  "addr_IsValid a = (a \<noteq> AddrNone)"

type_synonym prefix = "addr \<times> nat"

record Socksaddr =
  sa_Addr :: addr
  sa_Port :: "16 word"
  sa_Fqdn :: string

text \<open>A byte; \<open>InterfaceTypeByte\<close> stands for the values that have no name.\<close>

datatype InterfaceType =
  InterfaceTypeWIFI | InterfaceTypeCellular | InterfaceTypeEthernet | InterfaceTypeOther | InterfaceTypeByte nat

fun InterfaceType_String :: "InterfaceType \<Rightarrow> string" where
  "InterfaceType_String InterfaceTypeWIFI = ''wifi''"
| "InterfaceType_String InterfaceTypeCellular = ''cellular''"
| "InterfaceType_String InterfaceTypeEthernet = ''ethernet''"
| "InterfaceType_String InterfaceTypeOther = ''other''"
| "InterfaceType_String (InterfaceTypeByte n) = utoa n"

datatype NetworkStrategy =
  NetworkStrategyDefault | NetworkStrategyFallback | NetworkStrategyHybrid

record NetworkInterface =
  ni_Type :: InterfaceType
  ni_Expensive :: bool
  ni_Constrained :: bool

text \<open>
  The GeoIP codes, which nothing modelled here reads, are left out of the metadata.  The state
  that a sniffer keeps between packets is opaque.  Durations are in nanoseconds.
\<close>

record ProcessInfo =
  pi_ProcessPath :: string
  pi_PackageName :: string
  pi_User :: string
  pi_UserId :: "32 word"

definition Socksaddr_zero :: Socksaddr where
  "Socksaddr_zero = \<lparr>sa_Addr = AddrNone, sa_Port = 0, sa_Fqdn = []\<rparr>"

record InboundOptions =
  io_SniffEnabled :: bool
  io_SniffOverrideDestination :: bool
  io_SniffTimeout :: int
  io_DomainStrategy :: nat
  io_UDPDisableDomainUnmapping :: bool
  io_Detour :: string

definition InboundOptions_zero :: InboundOptions where
  "InboundOptions_zero = \<lparr>io_SniffEnabled = False, io_SniffOverrideDestination = False, io_SniffTimeout = 0,
     io_DomainStrategy = 0, io_UDPDisableDomainUnmapping = False, io_Detour = []\<rparr>"

record InboundContext =
  m_Inbound :: string
  m_InboundType :: string
  m_IPVersion :: "8 word"
  m_Network :: string
  m_Source :: Socksaddr
  m_Destination :: Socksaddr
  m_User :: string
  m_Outbound :: string
  m_Protocol :: string
  m_Domain :: string
  m_Client :: string
  m_SniffContext :: "string list"
  m_SnifferNames :: "string list"
  m_SniffError :: "go_error option"
  m_InboundOptions :: InboundOptions
  m_InboundDetour :: string
  m_LastInbound :: string
  m_OriginDestination :: Socksaddr
  m_RouteOriginalDestination :: Socksaddr
  m_UDPDisableDomainUnmapping :: bool
  m_UDPConnect :: bool
  m_UDPTimeout :: int
  m_TLSFragment :: bool
  m_TLSFragmentFallbackDelay :: int
  m_TLSRecordFragment :: bool
  m_NetworkStrategy :: "NetworkStrategy option"
  m_NetworkType :: "InterfaceType list"
  m_FallbackNetworkType :: "InterfaceType list"
  m_FallbackDelay :: int
  m_DestinationAddresses :: "addr list"
  m_ProcessInfo :: "ProcessInfo option"
  m_QueryType :: "16 word"
  m_FakeIP :: bool
  IPCIDRMatchSource :: bool
  IPCIDRAcceptEmpty :: bool
  SourceAddressMatch :: bool
  SourcePortMatch :: bool
  DestinationAddressMatch :: bool
  DestinationPortMatch :: bool
  DidMatch :: bool
  IgnoreDestinationIPCIDRMatch :: bool

definition ResetRuleCache :: "InboundContext \<Rightarrow> InboundContext" where
  "ResetRuleCache c = c\<lparr>IPCIDRMatchSource := False, IPCIDRAcceptEmpty := False,
     SourceAddressMatch := False, SourcePortMatch := False, DestinationAddressMatch := False,
     DestinationPortMatch := False, DidMatch := False\<rparr>"

section \<open>The environment\<close>

record rule_env =
  strings_ToLower :: "string \<Rightarrow> string"
  strings_EqualFold :: "string \<Rightarrow> string \<Rightarrow> bool"
  regexp_Compile :: "string \<Rightarrow> go_error + (string \<Rightarrow> bool)"
  netip_ParsePrefix :: "string \<Rightarrow> go_error + prefix"
  netip_ParseAddr :: "string \<Rightarrow> go_error + addr"
  netipx_IPSet :: "(prefix + addr) list \<Rightarrow> go_error + (addr \<Rightarrow> bool)"
  domain_NewMatcher :: "string list \<Rightarrow> string list \<Rightarrow> bool \<Rightarrow> string \<Rightarrow> bool"
  domain_NewAdGuardMatcher :: "string list \<Rightarrow> string \<Rightarrow> bool"
  N_IsPublicAddr :: "addr \<Rightarrow> bool"
  F_ToString :: "go_any list \<Rightarrow> string"
  Socksaddr_IsIP :: "Socksaddr \<Rightarrow> bool"
  Socksaddr_IsIPv6 :: "Socksaddr \<Rightarrow> bool"
  mDNS_TypeToString :: "16 word \<rightharpoonup> string"
  DefaultNetworkInterface :: "NetworkInterface option"
  WIFIState_SSID :: string
  WIFIState_BSSID :: string
  ClashServer_Mode :: "string option"
  common_Contains :: "InterfaceType list \<Rightarrow> InterfaceType \<Rightarrow> bool"

text \<open>The three shapes in which items print a list of strings.\<close>

definition named_string :: "rule_env \<Rightarrow> string \<Rightarrow> string list \<Rightarrow> string" where
  "named_string env key xs =
     (if length xs = 1 then F_ToString env [AStr (key @ ''=''), AStr (hd xs)]
      else F_ToString env [AStr (key @ ''=[''), AStr (strings_Join xs '' ''), AStr '']''])"

definition plain_string :: "string \<Rightarrow> string list \<Rightarrow> string" where
  "plain_string key xs =
     (if length xs = 1 then key @ ''='' @ hd xs else key @ ''=['' @ strings_Join xs '' '' @ '']'')"

definition capped_string :: "string \<Rightarrow> string list \<Rightarrow> string" where
  "capped_string key xs =
     (if length xs = 1 then key @ ''='' @ hd xs
      else if length xs > 3 then key @ ''=['' @ strings_Join (take 3 xs) '' '' @ ''...]''
      else key @ ''=['' @ strings_Join xs '' '' @ '']'')"

text \<open>The map that a constructor fills with the listed keys.\<close>

definition set_map :: "'k list \<Rightarrow> 'k \<Rightarrow> bool" where
  "set_map ks = fold (\<lambda>k m. m(k := True)) ks (\<lambda>_. False)"

lemma set_map_iff [simp]: "set_map ks k \<longleftrightarrow> k \<in> set ks"
proof -
  have "fold (\<lambda>k m. m(k := True)) ks f k \<longleftrightarrow> f k \<or> k \<in> set ks" for f :: "'a \<Rightarrow> bool"
    by (induction ks arbitrary: f) auto
  then show ?thesis by (simp add: set_map_def)
qed

section \<open>Items that look a name up\<close>

record name_item =
  names :: "string list"
  nameMap :: "string \<Rightarrow> bool"

definition mk_names :: "string list \<Rightarrow> name_item" where
  "mk_names xs = \<lparr>names = xs, nameMap = set_map xs\<rparr>"

definition NewInboundRule :: "string list \<Rightarrow> name_item" where
  "NewInboundRule inbounds = mk_names inbounds"

definition InboundItem_Match :: "name_item \<Rightarrow> InboundContext \<Rightarrow> bool" where
  "InboundItem_Match r c = nameMap r (m_Inbound c)"

definition InboundItem_String :: "rule_env \<Rightarrow> name_item \<Rightarrow> string" where
  "InboundItem_String env r = named_string env ''inbound'' (names r)"

definition NewAuthUserItem :: "string list \<Rightarrow> name_item" where
  "NewAuthUserItem users = mk_names users"

definition AuthUserItem_Match :: "name_item \<Rightarrow> InboundContext \<Rightarrow> bool" where
  "AuthUserItem_Match r c = nameMap r (m_User c)"

definition AuthUserItem_String :: "rule_env \<Rightarrow> name_item \<Rightarrow> string" where
  "AuthUserItem_String env r = named_string env ''auth_user'' (names r)"

definition NewProtocolItem :: "string list \<Rightarrow> name_item" where
  "NewProtocolItem protocols = mk_names protocols"

definition ProtocolItem_Match :: "name_item \<Rightarrow> InboundContext \<Rightarrow> bool" where
  "ProtocolItem_Match r c = nameMap r (m_Protocol c)"

definition ProtocolItem_String :: "rule_env \<Rightarrow> name_item \<Rightarrow> string" where
  "ProtocolItem_String env r = named_string env ''protocol'' (names r)"

definition NewClientItem :: "string list \<Rightarrow> name_item" where
  "NewClientItem clients = mk_names clients"

definition ClientItem_Match :: "name_item \<Rightarrow> InboundContext \<Rightarrow> bool" where
  "ClientItem_Match r c = nameMap r (m_Client c)"

definition ClientItem_String :: "rule_env \<Rightarrow> name_item \<Rightarrow> string" where
  "ClientItem_String env r = named_string env ''client'' (names r)"

definition NewNetworkItem :: "string list \<Rightarrow> name_item" where
  "NewNetworkItem networks = mk_names networks"

definition NetworkItem_Match :: "name_item \<Rightarrow> InboundContext \<Rightarrow> bool" where
  "NetworkItem_Match r c = nameMap r (m_Network c)"

definition NetworkItem_String :: "rule_env \<Rightarrow> name_item \<Rightarrow> string" where
  "NetworkItem_String env r = plain_string ''network'' (map (\<lambda>x. F_ToString env [AStr x]) (names r))"

definition NewProcessItem :: "string list \<Rightarrow> name_item" where
  "NewProcessItem processNameList = mk_names processNameList"

definition ProcessItem_Match :: "name_item \<Rightarrow> InboundContext \<Rightarrow> bool" where
  "ProcessItem_Match r c =
     (case m_ProcessInfo c of
        None \<Rightarrow> False
      | Some p \<Rightarrow> if pi_ProcessPath p = [] then False else nameMap r (filepath_Base (pi_ProcessPath p)))"

definition ProcessItem_String :: "name_item \<Rightarrow> string" where
  "ProcessItem_String r = plain_string ''process_name'' (names r)"

definition NewProcessPathItem :: "string list \<Rightarrow> name_item" where
  "NewProcessPathItem processNameList = mk_names processNameList"

definition ProcessPathItem_Match :: "name_item \<Rightarrow> InboundContext \<Rightarrow> bool" where
  "ProcessPathItem_Match r c =
     (case m_ProcessInfo c of
        None \<Rightarrow> False
      | Some p \<Rightarrow> if pi_ProcessPath p = [] then False else nameMap r (pi_ProcessPath p))"

definition ProcessPathItem_String :: "name_item \<Rightarrow> string" where
  "ProcessPathItem_String r = plain_string ''process_path'' (names r)"

definition NewPackageNameItem :: "string list \<Rightarrow> name_item" where
  "NewPackageNameItem packageNameList = mk_names packageNameList"

definition PackageNameItem_Match :: "name_item \<Rightarrow> InboundContext \<Rightarrow> bool" where
  "PackageNameItem_Match r c =
     (case m_ProcessInfo c of
        None \<Rightarrow> False
      | Some p \<Rightarrow> if pi_PackageName p = [] then False else nameMap r (pi_PackageName p))"

definition PackageNameItem_String :: "name_item \<Rightarrow> string" where
  "PackageNameItem_String r = plain_string ''package_name'' (names r)"

definition NewUserItem :: "string list \<Rightarrow> name_item" where
  "NewUserItem users = mk_names users"

definition UserItem_Match :: "name_item \<Rightarrow> InboundContext \<Rightarrow> bool" where
  "UserItem_Match r c =
     (case m_ProcessInfo c of
        None \<Rightarrow> False
      | Some p \<Rightarrow> if pi_User p = [] then False else nameMap r (pi_User p))"

definition UserItem_String :: "rule_env \<Rightarrow> name_item \<Rightarrow> string" where
  "UserItem_String env r = named_string env ''user'' (names r)"

definition NewWIFISSIDItem :: "string list \<Rightarrow> name_item" where
  "NewWIFISSIDItem ssidList = mk_names ssidList"

definition WIFISSIDItem_Match :: "rule_env \<Rightarrow> name_item \<Rightarrow> bool" where
  "WIFISSIDItem_Match env r = nameMap r (WIFIState_SSID env)"

definition WIFISSIDItem_String :: "rule_env \<Rightarrow> name_item \<Rightarrow> string" where
  "WIFISSIDItem_String env r = named_string env ''wifi_ssid'' (names r)"

definition NewWIFIBSSIDItem :: "string list \<Rightarrow> name_item" where
  "NewWIFIBSSIDItem bssidList = mk_names bssidList"

definition WIFIBSSIDItem_Match :: "rule_env \<Rightarrow> name_item \<Rightarrow> bool" where
  "WIFIBSSIDItem_Match env r = nameMap r (WIFIState_BSSID env)"

definition WIFIBSSIDItem_String :: "rule_env \<Rightarrow> name_item \<Rightarrow> string" where
  "WIFIBSSIDItem_String env r = named_string env ''wifi_bssid'' (names r)"

text \<open>The outbound item of DNS rules: the name \<open>any\<close> stands for every outbound but none.\<close>

record OutboundItem =
  outboundItem_outbounds :: "string list"
  outboundMap :: "string \<Rightarrow> bool"
  matchAny :: bool

definition NewOutboundRule :: "string list \<Rightarrow> OutboundItem" where
  "NewOutboundRule obs =
     fold (\<lambda>ob r. if ob = ''any'' then r\<lparr>matchAny := True\<rparr>
                  else r\<lparr>outboundMap := (outboundMap r)(ob := True)\<rparr>) obs
       \<lparr>outboundItem_outbounds = obs, outboundMap = (\<lambda>_. False), matchAny = False\<rparr>"

definition OutboundItem_Match :: "OutboundItem \<Rightarrow> InboundContext \<Rightarrow> bool" where
  "OutboundItem_Match r c = (if matchAny r then m_Outbound c \<noteq> [] else outboundMap r (m_Outbound c))"

definition OutboundItem_String :: "rule_env \<Rightarrow> OutboundItem \<Rightarrow> string" where
  "OutboundItem_String env r = named_string env ''outbound'' (outboundItem_outbounds r)"

section \<open>Numbers\<close>

record UserIdItem =
  userIds :: "32 word list"
  userIdMap :: "32 word \<Rightarrow> bool"

definition NewUserIDItem :: "32 word list \<Rightarrow> UserIdItem" where
  "NewUserIDItem userIdList = \<lparr>userIds = userIdList, userIdMap = set_map userIdList\<rparr>"

definition UserIdItem_Match :: "UserIdItem \<Rightarrow> InboundContext \<Rightarrow> bool" where
  "UserIdItem_Match r c =
     (case m_ProcessInfo c of
        None \<Rightarrow> False
      | Some p \<Rightarrow> if pi_UserId p = -1 then False else userIdMap r (pi_UserId p))"

definition UserIdItem_String :: "rule_env \<Rightarrow> UserIdItem \<Rightarrow> string" where
  "UserIdItem_String env r =
     plain_string ''user_id'' (map (\<lambda>i. F_ToString env [AInt (sint i)]) (userIds r))"

record QueryTypeItem =
  typeList :: "16 word list"
  typeMap :: "16 word \<Rightarrow> bool"

definition NewQueryTypeItem :: "16 word list \<Rightarrow> QueryTypeItem" where
  "NewQueryTypeItem ts = \<lparr>typeList = ts, typeMap = set_map ts\<rparr>"

definition QueryTypeItem_Match :: "QueryTypeItem \<Rightarrow> InboundContext \<Rightarrow> bool" where
  "QueryTypeItem_Match r c = (if m_QueryType c = 0 then False else typeMap r (m_QueryType c))"

definition DNSQueryTypeToString :: "rule_env \<Rightarrow> 16 word \<Rightarrow> string" where
  "DNSQueryTypeToString env t =
     (case mDNS_TypeToString env t of Some n \<Rightarrow> n | None \<Rightarrow> F_ToString env [AInt (uint t)])"

definition QueryTypeItem_String :: "rule_env \<Rightarrow> QueryTypeItem \<Rightarrow> string" where
  "QueryTypeItem_String env r =
     plain_string ''query_type'' (map (DNSQueryTypeToString env) (typeList r))"

record PortItem =
  ports :: "16 word list"
  portMap :: "16 word \<Rightarrow> bool"
  port_isSource :: bool

definition NewPortItem :: "bool \<Rightarrow> 16 word list \<Rightarrow> PortItem" where
  "NewPortItem isSource ps = \<lparr>ports = ps, portMap = set_map ps, port_isSource = isSource\<rparr>"

definition PortItem_Match :: "PortItem \<Rightarrow> InboundContext \<Rightarrow> bool" where
  "PortItem_Match r c =
     (if port_isSource r then portMap r (sa_Port (m_Source c))
      else portMap r (sa_Port (m_Destination c)))"

definition PortItem_String :: "rule_env \<Rightarrow> PortItem \<Rightarrow> string" where
  "PortItem_String env r =
     plain_string (if port_isSource r then ''source_port'' else ''port'')
       (map (\<lambda>p. F_ToString env [AInt (uint p)]) (ports r))"

record PortRangeItem =
  range_isSource :: bool
  portRanges :: "string list"
  portRangeList :: "(16 word \<times> 16 word) list"

definition ErrBadPortRange :: go_error where
  "ErrBadPortRange = ENew [AStr ''bad port range'']"

text \<open>One range \<open>a:b\<close>; either side may be missing.\<close>

definition parse_range :: "string \<Rightarrow> go_error + 16 word \<times> 16 word" where
  "parse_range portRange =
     (let bad = EExtend ErrBadPortRange [AStr portRange] in
      if \<not> strings_Contains portRange '':'' then Inl bad
      else
        let subIndex = strings_Index portRange '':'' in
        case (if subIndex > 0 then strconv_ParseUint (take (nat subIndex) portRange) 16 else Inr 0) of
          Inl e \<Rightarrow> Inl (ECause e [AErr bad])
        | Inr start \<Rightarrow>
            (case (if subIndex = int (length portRange) - 1 then Inr 0xFFFF
                   else strconv_ParseUint (drop (nat subIndex + 1) portRange) 16) of
               Inl e \<Rightarrow> Inl (ECause e [AErr bad])
             | Inr end' \<Rightarrow> Inr (of_nat start, of_nat end')))"

fun parse_ranges :: "string list \<Rightarrow> go_error + (16 word \<times> 16 word) list" where
  "parse_ranges [] = Inr []"
| "parse_ranges (s # ss) =
     (case parse_range s of
        Inl e \<Rightarrow> Inl e
      | Inr p \<Rightarrow> (case parse_ranges ss of Inl e \<Rightarrow> Inl e | Inr ps \<Rightarrow> Inr (p # ps)))"

definition NewPortRangeItem :: "bool \<Rightarrow> string list \<Rightarrow> go_error + PortRangeItem" where
  "NewPortRangeItem isSource rangeList =
     (case parse_ranges rangeList of
        Inl e \<Rightarrow> Inl e
      | Inr ps \<Rightarrow> Inr \<lparr>range_isSource = isSource, portRanges = rangeList, portRangeList = ps\<rparr>)"

definition PortRangeItem_Match :: "PortRangeItem \<Rightarrow> InboundContext \<Rightarrow> bool" where
  "PortRangeItem_Match r c =
     (let port = (if range_isSource r then sa_Port (m_Source c) else sa_Port (m_Destination c)) in
      list_ex (\<lambda>(start, end'). port \<ge> start \<and> port \<le> end') (portRangeList r))"

definition PortRangeItem_String :: "PortRangeItem \<Rightarrow> string" where
  "PortRangeItem_String r =
     plain_string (if range_isSource r then ''source_port_range'' else ''port_range'') (portRanges r)"

section \<open>Domains\<close>

text \<open>The host a domain condition looks at: the sniffed domain, else the name in the destination.\<close>

definition domain_host :: "InboundContext \<Rightarrow> string" where
  "domain_host c = (if m_Domain c \<noteq> [] then m_Domain c else sa_Fqdn (m_Destination c))"

record DomainItem =
  matcher :: "string \<Rightarrow> bool"
  domain_description :: string

definition NewDomainItem :: "rule_env \<Rightarrow> string list \<Rightarrow> string list \<Rightarrow> go_error + DomainItem" where
  "NewDomainItem env domains domainSuffixes =
     (if [] \<in> set domains then Inl (ENew [AStr ''domain: empty item is not allowed''])
      else if [] \<in> set domainSuffixes then Inl (ENew [AStr ''domain_suffix: empty item is not allowed''])
      else
        let d1 = (if domains \<noteq> [] then capped_string ''domain'' domains else []);
            d2 = (if domainSuffixes \<noteq> []
                  then (if d1 \<noteq> [] then d1 @ '' '' else d1) @ capped_string ''domain_suffix'' domainSuffixes
                  else d1)
        in Inr \<lparr>matcher = domain_NewMatcher env domains domainSuffixes False, domain_description = d2\<rparr>)"

definition NewRawDomainItem :: "(string \<Rightarrow> bool) \<Rightarrow> DomainItem" where
  "NewRawDomainItem m = \<lparr>matcher = m, domain_description = ''domain/domain_suffix=<binary>''\<rparr>"

definition DomainItem_Match :: "rule_env \<Rightarrow> DomainItem \<Rightarrow> InboundContext \<Rightarrow> bool" where
  "DomainItem_Match env r c =
     (if domain_host c = [] then False else matcher r (strings_ToLower env (domain_host c)))"

definition DomainItem_String :: "DomainItem \<Rightarrow> string" where
  "DomainItem_String r = domain_description r"

definition NewAdGuardDomainItem :: "rule_env \<Rightarrow> string list \<Rightarrow> string \<Rightarrow> bool" where
  "NewAdGuardDomainItem env ruleLines = domain_NewAdGuardMatcher env ruleLines"

definition NewRawAdGuardDomainItem :: "(string \<Rightarrow> bool) \<Rightarrow> string \<Rightarrow> bool" where
  "NewRawAdGuardDomainItem m = m"

definition AdGuardDomainItem_Match :: "rule_env \<Rightarrow> (string \<Rightarrow> bool) \<Rightarrow> InboundContext \<Rightarrow> bool" where
  "AdGuardDomainItem_Match env m c =
     (if domain_host c = [] then False else m (strings_ToLower env (domain_host c)))"

definition AdGuardDomainItem_String :: string where
  "AdGuardDomainItem_String = ''!adguard_domain_rules=<binary>''"

definition DomainKeywordItem_Match :: "rule_env \<Rightarrow> string list \<Rightarrow> InboundContext \<Rightarrow> bool" where
  "DomainKeywordItem_Match env keywords c =
     (if domain_host c = [] then False
      else list_ex (strings_Contains (strings_ToLower env (domain_host c))) keywords)"

definition DomainKeywordItem_String :: "string list \<Rightarrow> string" where
  "DomainKeywordItem_String keywords = capped_string ''domain_keyword'' keywords"

record RegexItem =
  matchers :: "(string \<Rightarrow> bool) list"
  regex_description :: string

fun compile_all :: "rule_env \<Rightarrow> nat \<Rightarrow> string list \<Rightarrow> go_error + (string \<Rightarrow> bool) list" where
  "compile_all env i [] = Inr []"
| "compile_all env i (x # xs) =
     (case regexp_Compile env x of
        Inl e \<Rightarrow> Inl (ECause e [AStr ''parse expression '', AInt (int i)])
      | Inr m \<Rightarrow> (case compile_all env (i + 1) xs of Inl e \<Rightarrow> Inl e | Inr ms \<Rightarrow> Inr (m # ms)))"

definition new_regex :: "rule_env \<Rightarrow> string \<Rightarrow> string list \<Rightarrow> go_error + RegexItem" where
  "new_regex env key expressions =
     (case compile_all env 0 expressions of
        Inl e \<Rightarrow> Inl e
      | Inr ms \<Rightarrow> Inr \<lparr>matchers = ms, regex_description =
          (if length expressions = 1 then key @ ''='' @ hd expressions
           else if length expressions > 3
           then key @ ''='' @ F_ToString env [AStr ''['', AStr (strings_Join (take 3 expressions) '' ''), AStr '']'']
           else key @ ''='' @ F_ToString env [AStr ''['', AStr (strings_Join expressions '' ''), AStr '']''])\<rparr>)"

definition NewDomainRegexItem :: "rule_env \<Rightarrow> string list \<Rightarrow> go_error + RegexItem" where
  "NewDomainRegexItem env expressions = new_regex env ''domain_regex'' expressions"

definition DomainRegexItem_Match :: "rule_env \<Rightarrow> RegexItem \<Rightarrow> InboundContext \<Rightarrow> bool" where
  "DomainRegexItem_Match env r c =
     (if domain_host c = [] then False
      else list_ex (\<lambda>m. m (strings_ToLower env (domain_host c))) (matchers r))"

definition NewProcessPathRegexItem :: "rule_env \<Rightarrow> string list \<Rightarrow> go_error + RegexItem" where
  "NewProcessPathRegexItem env expressions = new_regex env ''process_path_regex'' expressions"

definition ProcessPathRegexItem_Match :: "RegexItem \<Rightarrow> InboundContext \<Rightarrow> bool" where
  "ProcessPathRegexItem_Match r c =
     (case m_ProcessInfo c of
        None \<Rightarrow> False
      | Some p \<Rightarrow> if pi_ProcessPath p = [] then False
                  else list_ex (\<lambda>m. m (pi_ProcessPath p)) (matchers r))"

section \<open>Addresses\<close>

record IPCIDRItem =
  ipSet :: "addr \<Rightarrow> bool"
  cidr_isSource :: bool
  cidr_description :: string

fun parse_prefixes :: "rule_env \<Rightarrow> nat \<Rightarrow> string list \<Rightarrow> go_error + (prefix + addr) list" where
  "parse_prefixes env i [] = Inr []"
| "parse_prefixes env i (x # xs) =
     (case (case netip_ParsePrefix env x of
              Inr p \<Rightarrow> Inr (Inl p)
            | Inl e \<Rightarrow> (case netip_ParseAddr env x of
                  Inr a \<Rightarrow> Inr (Inr a)
                | Inl _ \<Rightarrow> Inl (ECause e [AStr ''parse ['', AInt (int i), AStr '']'']))) of
        Inl e \<Rightarrow> Inl e
      | Inr p \<Rightarrow> (case parse_prefixes env (i + 1) xs of Inl e \<Rightarrow> Inl e | Inr ps \<Rightarrow> Inr (p # ps)))"

definition NewIPCIDRItem :: "rule_env \<Rightarrow> bool \<Rightarrow> string list \<Rightarrow> go_error + IPCIDRItem" where
  "NewIPCIDRItem env isSource prefixStrings =
     (case parse_prefixes env 0 prefixStrings of
        Inl e \<Rightarrow> Inl e
      | Inr ps \<Rightarrow>
          (case netipx_IPSet env ps of
             Inl e \<Rightarrow> Inl e
           | Inr st \<Rightarrow> Inr \<lparr>ipSet = st, cidr_isSource = isSource, cidr_description =
               capped_string (if isSource then ''source_ip_cidr'' else ''ip_cidr'') prefixStrings\<rparr>))"

definition NewRawIPCIDRItem :: "bool \<Rightarrow> (addr \<Rightarrow> bool) \<Rightarrow> IPCIDRItem" where
  "NewRawIPCIDRItem isSource st = \<lparr>ipSet = st, cidr_isSource = isSource, cidr_description =
     (if isSource then ''source_ip_cidr='' else ''ip_cidr='') @ ''<binary>''\<rparr>"

definition IPCIDRItem_Match :: "rule_env \<Rightarrow> IPCIDRItem \<Rightarrow> InboundContext \<Rightarrow> bool" where
  "IPCIDRItem_Match env r c =
     (if cidr_isSource r \<or> IPCIDRMatchSource c then ipSet r (sa_Addr (m_Source c))
      else if Socksaddr_IsIP env (m_Destination c) then ipSet r (sa_Addr (m_Destination c))
      else if m_DestinationAddresses c \<noteq> [] then list_ex (ipSet r) (m_DestinationAddresses c)
      else IPCIDRAcceptEmpty c)"

definition IPCIDRItem_String :: "IPCIDRItem \<Rightarrow> string" where
  "IPCIDRItem_String r = cidr_description r"

definition IPIsPrivateItem_Match :: "rule_env \<Rightarrow> bool \<Rightarrow> InboundContext \<Rightarrow> bool" where
  "IPIsPrivateItem_Match env isSource c =
     (let destination = (if isSource then sa_Addr (m_Source c) else sa_Addr (m_Destination c)) in
      if addr_IsValid destination then \<not> N_IsPublicAddr env destination
      else if \<not> isSource then list_ex (\<lambda>a. \<not> N_IsPublicAddr env a) (m_DestinationAddresses c)
      else False)"

definition IPIsPrivateItem_String :: "bool \<Rightarrow> string" where
  "IPIsPrivateItem_String isSource = (if isSource then ''source_ip_is_private=true'' else ''ip_is_private=true'')"

definition IPAcceptAnyItem_Match :: "InboundContext \<Rightarrow> bool" where
  "IPAcceptAnyItem_Match c = (m_DestinationAddresses c \<noteq> [])"

definition IPAcceptAnyItem_String :: string where
  "IPAcceptAnyItem_String = ''ip_accept_any=true''"

text \<open>In Go \<open>a == 6 == b\<close> compares the truth value of \<open>a == 6\<close> with \<open>b\<close>.\<close>

definition IPVersionItem_Match :: "rule_env \<Rightarrow> bool \<Rightarrow> InboundContext \<Rightarrow> bool" where
  "IPVersionItem_Match env isIPv6 c =
     (m_IPVersion c \<noteq> 0 \<and> ((m_IPVersion c = 6) = isIPv6) \<or>
      Socksaddr_IsIP env (m_Destination c) \<and> Socksaddr_IsIPv6 env (m_Destination c) = isIPv6)"

definition IPVersionItem_String :: "bool \<Rightarrow> string" where
  "IPVersionItem_String isIPv6 = ''ip_version='' @ (if isIPv6 then ''6'' else ''4'')"

section \<open>The state of the network and of the Clash server\<close>

definition NetworkTypeItem_Match :: "rule_env \<Rightarrow> InterfaceType list \<Rightarrow> bool" where
  "NetworkTypeItem_Match env networkType =
     (case DefaultNetworkInterface env of None \<Rightarrow> False | Some i \<Rightarrow> common_Contains env networkType (ni_Type i))"

definition NetworkTypeItem_String :: "rule_env \<Rightarrow> InterfaceType list \<Rightarrow> string" where
  "NetworkTypeItem_String env ts =
     (if length ts = 1 then F_ToString env [AStr ''network_type='', AStr (InterfaceType_String (hd ts))]
      else F_ToString env [AStr ''network_type='',
             AStr (''['' @ strings_Join (map (\<lambda>t. F_ToString env [AStr (InterfaceType_String t)]) ts) '' '' @ '']'')])"

definition NetworkIsExpensiveItem_Match :: "rule_env \<Rightarrow> bool" where
  "NetworkIsExpensiveItem_Match env =
     (case DefaultNetworkInterface env of None \<Rightarrow> False | Some i \<Rightarrow> ni_Expensive i)"

definition NetworkIsExpensiveItem_String :: string where
  "NetworkIsExpensiveItem_String = ''network_is_expensive=true''"

definition NetworkIsConstrainedItem_Match :: "rule_env \<Rightarrow> bool" where
  "NetworkIsConstrainedItem_Match env =
     (case DefaultNetworkInterface env of None \<Rightarrow> False | Some i \<Rightarrow> ni_Constrained i)"

text \<open>The source prints the key of the other item here.\<close>

definition NetworkIsConstrainedItem_String :: string where
  "NetworkIsConstrainedItem_String = ''network_is_expensive=true''"

text \<open>The Clash server is looked up when the item is started; before that nothing matches.\<close>

record ClashModeItem =
  clash_mode :: string
  clash_started :: bool

definition NewClashModeItem :: "string \<Rightarrow> ClashModeItem" where
  "NewClashModeItem mode = \<lparr>clash_mode = mode, clash_started = False\<rparr>"

definition ClashModeItem_Start :: "ClashModeItem \<Rightarrow> ClashModeItem" where
  "ClashModeItem_Start r = r\<lparr>clash_started := True\<rparr>"

definition ClashModeItem_Match :: "rule_env \<Rightarrow> ClashModeItem \<Rightarrow> bool" where
  "ClashModeItem_Match env r =
     (if \<not> clash_started r then False
      else case ClashServer_Mode env of None \<Rightarrow> False | Some m \<Rightarrow> strings_EqualFold env m (clash_mode r))"

definition ClashModeItem_String :: "ClashModeItem \<Rightarrow> string" where
  "ClashModeItem_String r = ''clash_mode='' @ clash_mode r"

section \<open>Rule sets\<close>

text \<open>
  An \<open>adapter.RuleSet\<close> as its users see it: its name, its \<open>Match\<close>, which works on the metadata
  it is given, and whether its metadata says that it has conditions on destination addresses.
\<close>

record rule_set =
  set_Name :: string
  set_Match :: "InboundContext \<Rightarrow> bool \<times> InboundContext"
  ContainsIPCIDRRule :: bool

record RuleSetItem =
  tagList :: "string list"
  setList :: "rule_set list"
  ipCidrMatchSource :: bool
  ipCidrAcceptEmpty :: bool

definition NewRuleSetItem :: "string list \<Rightarrow> bool \<Rightarrow> bool \<Rightarrow> RuleSetItem" where
  "NewRuleSetItem tags matchSource acceptEmpty =
     \<lparr>tagList = tags, setList = [], ipCidrMatchSource = matchSource, ipCidrAcceptEmpty = acceptEmpty\<rparr>"

text \<open>
  \<open>Start\<close> looks every tag up in the router and takes a reference; the references taken are
  returned as the list of names, in order, also when a later tag is missing.
\<close>

fun start_sets ::
    "(string \<rightharpoonup> rule_set) \<Rightarrow> string list \<Rightarrow> rule_set list \<Rightarrow> string list \<Rightarrow>
     rule_set list \<times> string list \<times> go_error option" where
  "start_sets router [] sets refs = (sets, refs, None)"
| "start_sets router (t # ts) sets refs =
     (case router t of
        None \<Rightarrow> (sets, refs, Some (ENew [AStr ''rule-set not found: '', AStr t]))
      | Some s \<Rightarrow> start_sets router ts (sets @ [s]) (refs @ [t]))"

definition RuleSetItem_Start ::
    "(string \<rightharpoonup> rule_set) \<Rightarrow> RuleSetItem \<Rightarrow> RuleSetItem \<times> string list \<times> go_error option" where
  "RuleSetItem_Start router r =
     (case start_sets router (tagList r) (setList r) [] of
        (sets, refs, e) \<Rightarrow> (r\<lparr>setList := sets\<rparr>, refs, e))"

fun match_sets :: "rule_set list \<Rightarrow> InboundContext \<Rightarrow> bool \<times> InboundContext" where
  "match_sets [] c = (False, c)"
| "match_sets (s # ss) c =
     (case set_Match s c of (True, c') \<Rightarrow> (True, c') | (False, c') \<Rightarrow> match_sets ss c')"

definition RuleSetItem_Match :: "RuleSetItem \<Rightarrow> InboundContext \<Rightarrow> bool \<times> InboundContext" where
  "RuleSetItem_Match r c =
     match_sets (setList r) (c\<lparr>IPCIDRMatchSource := ipCidrMatchSource r,
       IPCIDRAcceptEmpty := ipCidrAcceptEmpty r\<rparr>)"

definition ContainsDestinationIPCIDRRule :: "(bool list \<Rightarrow> bool) \<Rightarrow> RuleSetItem \<Rightarrow> bool" where
  "ContainsDestinationIPCIDRRule common_Any r =
     (if ipCidrMatchSource r then False else common_Any (map ContainsIPCIDRRule (setList r)))"

definition RuleSetItem_String :: "rule_env \<Rightarrow> RuleSetItem \<Rightarrow> string" where
  "RuleSetItem_String env r = named_string env ''rule_set'' (tagList r)"

text \<open>A connection from one port to another.\<close>

definition demo_ctx :: "16 word \<Rightarrow> 16 word \<Rightarrow> InboundContext" where
  "demo_ctx sp dp = \<lparr>m_Inbound = [], m_InboundType = [], m_IPVersion = 0, m_Network = ''tcp'',
     m_Source = \<lparr>sa_Addr = AddrNone, sa_Port = sp, sa_Fqdn = []\<rparr>,
     m_Destination = \<lparr>sa_Addr = AddrNone, sa_Port = dp, sa_Fqdn = ''a.com''\<rparr>,
     m_User = [], m_Outbound = [], m_Protocol = [], m_Domain = [], m_Client = [], m_SniffContext = [],
     m_SnifferNames = [], m_SniffError = None, m_InboundOptions = InboundOptions_zero, m_InboundDetour = [], m_LastInbound = [],
     m_OriginDestination = Socksaddr_zero, m_RouteOriginalDestination = Socksaddr_zero,
     m_UDPDisableDomainUnmapping = False, m_UDPConnect = False, m_UDPTimeout = 0,
     m_TLSFragment = False, m_TLSFragmentFallbackDelay = 0, m_TLSRecordFragment = False,
     m_NetworkStrategy = None, m_NetworkType = [], m_FallbackNetworkType = [], m_FallbackDelay = 0,
     m_DestinationAddresses = [], m_ProcessInfo = None, m_QueryType = 0, m_FakeIP = False,
     IPCIDRMatchSource = False, IPCIDRAcceptEmpty = False, SourceAddressMatch = False,
     SourcePortMatch = False, DestinationAddressMatch = False, DestinationPortMatch = False,
     DidMatch = False, IgnoreDestinationIPCIDRMatch = False\<rparr>"

end
