(* ===== verification/Rule_Match.thy ===== *)
theory Rule_Match
  imports Rule_Items
begin

text \<open>
  How a rule decides (\<open>core/route/rule/rule_abstract.go\<close>, \<open>rule_dns.go\<close>, \<open>rule_set.go\<close>,
  \<open>rule_set_local.go\<close>): the default rule with its groups of items and the cache flags in the
  metadata, the logical rules, the two ways a DNS rule is matched, and rule sets.  Every
  \<open>Match\<close> returns the decision and the metadata as it leaves them.
\<close>

section \<open>Items\<close>

datatype rule_item =
    IInbound name_item | IIPVersion bool | INetwork name_item | IAuthUser name_item
  | IProtocol name_item | IClient name_item | IQueryType QueryTypeItem | IOutbound OutboundItem
  | IDomain DomainItem | IDomainKeyword "string list" | IDomainRegex RegexItem
  | IAdGuard "string \<Rightarrow> bool" | IIPCIDR IPCIDRItem | IIPIsPrivate bool | IIPAcceptAny
  | IPort PortItem | IPortRange PortRangeItem | IProcess name_item | IProcessPath name_item
  | IProcessPathRegex RegexItem | IPackageName name_item | IUser name_item | IUserId UserIdItem
  | IClashMode ClashModeItem | INetworkType "InterfaceType list" | INetworkIsExpensive
  | INetworkIsConstrained | IWIFISSID name_item | IWIFIBSSID name_item | IRuleSet RuleSetItem

fun is_RuleSetItem :: "rule_item \<Rightarrow> bool" where
  "is_RuleSetItem (IRuleSet r) = True"
| "is_RuleSetItem _ = False"

text \<open>The \<open>Match\<close> of every item but the rule-set item leaves the metadata alone.\<close>

fun plain_Match :: "rule_env \<Rightarrow> rule_item \<Rightarrow> InboundContext \<Rightarrow> bool" where
  "plain_Match env (IInbound r) c = InboundItem_Match r c"
| "plain_Match env (IIPVersion b) c = IPVersionItem_Match env b c"
| "plain_Match env (INetwork r) c = NetworkItem_Match r c"
| "plain_Match env (IAuthUser r) c = AuthUserItem_Match r c"
| "plain_Match env (IProtocol r) c = ProtocolItem_Match r c"
| "plain_Match env (IClient r) c = ClientItem_Match r c"
| "plain_Match env (IQueryType r) c = QueryTypeItem_Match r c"
| "plain_Match env (IOutbound r) c = OutboundItem_Match r c"
| "plain_Match env (IDomain r) c = DomainItem_Match env r c"
| "plain_Match env (IDomainKeyword ks) c = DomainKeywordItem_Match env ks c"
| "plain_Match env (IDomainRegex r) c = DomainRegexItem_Match env r c"
| "plain_Match env (IAdGuard m) c = AdGuardDomainItem_Match env m c"
| "plain_Match env (IIPCIDR r) c = IPCIDRItem_Match env r c"
| "plain_Match env (IIPIsPrivate b) c = IPIsPrivateItem_Match env b c"
| "plain_Match env IIPAcceptAny c = IPAcceptAnyItem_Match c"
| "plain_Match env (IPort r) c = PortItem_Match r c"
| "plain_Match env (IPortRange r) c = PortRangeItem_Match r c"
| "plain_Match env (IProcess r) c = ProcessItem_Match r c"
| "plain_Match env (IProcessPath r) c = ProcessPathItem_Match r c"
| "plain_Match env (IProcessPathRegex r) c = ProcessPathRegexItem_Match r c"
| "plain_Match env (IPackageName r) c = PackageNameItem_Match r c"
| "plain_Match env (IUser r) c = UserItem_Match r c"
| "plain_Match env (IUserId r) c = UserIdItem_Match r c"
| "plain_Match env (IClashMode r) c = ClashModeItem_Match env r"
| "plain_Match env (INetworkType ts) c = NetworkTypeItem_Match env ts"
| "plain_Match env INetworkIsExpensive c = NetworkIsExpensiveItem_Match env"
| "plain_Match env INetworkIsConstrained c = NetworkIsConstrainedItem_Match env"
| "plain_Match env (IWIFISSID r) c = WIFISSIDItem_Match env r"
| "plain_Match env (IWIFIBSSID r) c = WIFIBSSIDItem_Match env r"
| "plain_Match env (IRuleSet r) c = False"

definition item_Match :: "rule_env \<Rightarrow> rule_item \<Rightarrow> InboundContext \<Rightarrow> bool \<times> InboundContext" where
  "item_Match env i c = (case i of IRuleSet r \<Rightarrow> RuleSetItem_Match r c | _ \<Rightarrow> (plain_Match env i c, c))"

fun item_String :: "rule_env \<Rightarrow> rule_item \<Rightarrow> string" where
  "item_String env (IInbound r) = InboundItem_String env r"
| "item_String env (IIPVersion b) = IPVersionItem_String b"
| "item_String env (INetwork r) = NetworkItem_String env r"
| "item_String env (IAuthUser r) = AuthUserItem_String env r"
| "item_String env (IProtocol r) = ProtocolItem_String env r"
| "item_String env (IClient r) = ClientItem_String env r"
| "item_String env (IQueryType r) = QueryTypeItem_String env r"
| "item_String env (IOutbound r) = OutboundItem_String env r"
| "item_String env (IDomain r) = DomainItem_String r"
| "item_String env (IDomainKeyword ks) = DomainKeywordItem_String ks"
| "item_String env (IDomainRegex r) = regex_description r"
| "item_String env (IAdGuard m) = AdGuardDomainItem_String"
| "item_String env (IIPCIDR r) = IPCIDRItem_String r"
| "item_String env (IIPIsPrivate b) = IPIsPrivateItem_String b"
| "item_String env IIPAcceptAny = IPAcceptAnyItem_String"
| "item_String env (IPort r) = PortItem_String env r"
| "item_String env (IPortRange r) = PortRangeItem_String r"
| "item_String env (IProcess r) = ProcessItem_String r"
| "item_String env (IProcessPath r) = ProcessPathItem_String r"
| "item_String env (IProcessPathRegex r) = regex_description r"
| "item_String env (IPackageName r) = PackageNameItem_String r"
| "item_String env (IUser r) = UserItem_String env r"
| "item_String env (IUserId r) = UserIdItem_String env r"
| "item_String env (IClashMode r) = ClashModeItem_String r"
| "item_String env (INetworkType ts) = NetworkTypeItem_String env ts"
| "item_String env INetworkIsExpensive = NetworkIsExpensiveItem_String"
| "item_String env INetworkIsConstrained = NetworkIsConstrainedItem_String"
| "item_String env (IWIFISSID r) = WIFISSIDItem_String env r"
| "item_String env (IWIFIBSSID r) = WIFIBSSIDItem_String env r"
| "item_String env (IRuleSet r) = RuleSetItem_String env r"

section \<open>The default rule\<close>

record 'act abstractDefaultRule =
  items :: "rule_item list"
  sourceAddressItems :: "rule_item list"
  sourcePortItems :: "rule_item list"
  destinationAddressItems :: "rule_item list"
  destinationIPCIDRItems :: "rule_item list"
  destinationPortItems :: "rule_item list"
  allItems :: "rule_item list"
  invert :: bool
  action :: 'act

text \<open>The loop over a group: the first item that matches ends it.\<close>

fun any_item :: "rule_env \<Rightarrow> rule_item list \<Rightarrow> InboundContext \<Rightarrow> bool \<times> InboundContext" where
  "any_item env [] c = (False, c)"
| "any_item env (i # is) c =
     (case item_Match env i c of (True, c') \<Rightarrow> (True, c') | (False, c') \<Rightarrow> any_item env is c')"

text \<open>The loop over the remaining items; the first that does not match ends it.\<close>

fun all_items :: "rule_env \<Rightarrow> rule_item list \<Rightarrow> InboundContext \<Rightarrow> bool \<times> InboundContext" where
  "all_items env [] c = (True, c)"
| "all_items env (i # is) c =
     (case item_Match env i (if is_RuleSetItem i then c else c\<lparr>DidMatch := True\<rparr>) of
        (False, c') \<Rightarrow> (False, c')
      | (True, c') \<Rightarrow> all_items env is c')"

definition group_phase ::
    "rule_env \<Rightarrow> rule_item list \<Rightarrow> (InboundContext \<Rightarrow> bool) \<Rightarrow> (InboundContext \<Rightarrow> InboundContext) \<Rightarrow>
     InboundContext \<Rightarrow> InboundContext" where
  "group_phase env is flag set_flag c =
     (if is \<noteq> [] \<and> \<not> flag c
      then (case any_item env is (c\<lparr>DidMatch := True\<rparr>) of
              (True, c') \<Rightarrow> set_flag c' | (False, c') \<Rightarrow> c')
      else c)"

text \<open>The five groups, in the order of the source.\<close>

definition match_groups ::
    "rule_env \<Rightarrow> 'act abstractDefaultRule \<Rightarrow> InboundContext \<Rightarrow> InboundContext" where
  "match_groups env r c =
     (let c1 = group_phase env (sourceAddressItems r) SourceAddressMatch
                 (\<lambda>c. c\<lparr>SourceAddressMatch := True\<rparr>) c;
          c2 = group_phase env (sourcePortItems r) SourcePortMatch
                 (\<lambda>c. c\<lparr>SourcePortMatch := True\<rparr>) c1;
          c3 = group_phase env (destinationAddressItems r) DestinationAddressMatch
                 (\<lambda>c. c\<lparr>DestinationAddressMatch := True\<rparr>) c2;
          c4 = (if \<not> IgnoreDestinationIPCIDRMatch c3
                then group_phase env (destinationIPCIDRItems r) DestinationAddressMatch
                       (\<lambda>c. c\<lparr>DestinationAddressMatch := True\<rparr>) c3
                else c3)
      in group_phase env (destinationPortItems r) DestinationPortMatch
           (\<lambda>c. c\<lparr>DestinationPortMatch := True\<rparr>) c4)"

text \<open>The checks after the loops.\<close>

definition flags_hold :: "'act abstractDefaultRule \<Rightarrow> InboundContext \<Rightarrow> bool" where
  "flags_hold r c =
     (\<not> (sourceAddressItems r \<noteq> [] \<and> \<not> SourceAddressMatch c) \<and>
      \<not> (sourcePortItems r \<noteq> [] \<and> \<not> SourcePortMatch c) \<and>
      \<not> ((\<not> IgnoreDestinationIPCIDRMatch c \<and> destinationIPCIDRItems r \<noteq> [] \<or>
          destinationAddressItems r \<noteq> []) \<and> \<not> DestinationAddressMatch c) \<and>
      \<not> (destinationPortItems r \<noteq> [] \<and> \<not> DestinationPortMatch c))"

definition abstractDefaultRule_Match ::
    "rule_env \<Rightarrow> 'act abstractDefaultRule \<Rightarrow> InboundContext \<Rightarrow> bool \<times> InboundContext" where
  "abstractDefaultRule_Match env r c =
     (if allItems r = [] then (True, c)
      else case all_items env (items r) (match_groups env r c) of
        (False, c') \<Rightarrow> (invert r, c')
      | (True, c') \<Rightarrow>
          if \<not> flags_hold r c' then (invert r, c')
          else if \<not> DidMatch c' then (True, c')
          else (\<not> invert r, c'))"

definition abstractDefaultRule_String :: "rule_env \<Rightarrow> 'act abstractDefaultRule \<Rightarrow> string" where
  "abstractDefaultRule_String env r =
     (let s = strings_Join (map (item_String env) (allItems r)) '' '' in
      if \<not> invert r then s else ''!('' @ s @ '')'')"

section \<open>Logical rules\<close>

text \<open>
  A rule tree; \<open>'act\<close> is the type of the actions (a headless rule has none).  \<open>common.All\<close> and
  \<open>common.Any\<close> are foreign: they receive the list of the calls they may make, each of which
  works on the shared metadata.
\<close>

datatype 'act rule =
    DefaultRule "'act abstractDefaultRule"
  | LogicalRule (rules: "'act rule list") (mode: string) (logical_invert: bool) (logical_action: 'act)

type_synonym matching = "InboundContext \<Rightarrow> bool \<times> InboundContext"

record loops =
  common_All :: "matching list \<Rightarrow> matching"
  common_Any :: "matching list \<Rightarrow> matching"

definition LogicalTypeAnd :: string where "LogicalTypeAnd = ''and''"
definition LogicalTypeOr :: string where "LogicalTypeOr = ''or''"

text \<open>The common body of the \<open>Match\<close> methods of logical rules.\<close>

definition logical_Match :: "loops \<Rightarrow> string \<Rightarrow> bool \<Rightarrow> matching list \<Rightarrow> matching" where
  "logical_Match L md neg calls c =
     (let calls' = map (\<lambda>f c. f (ResetRuleCache c)) calls in
      case (if md = LogicalTypeAnd then common_All L calls' c else common_Any L calls' c) of
        (b, c') \<Rightarrow> (b \<noteq> neg, c'))"

text \<open>\<open>Match\<close> of route and headless rules.\<close>

fun rule_Match :: "loops \<Rightarrow> rule_env \<Rightarrow> 'act rule \<Rightarrow> matching" where
  "rule_Match L env (DefaultRule r) c = abstractDefaultRule_Match env r c"
| "rule_Match L env (LogicalRule rs md neg act) c =
     logical_Match L md neg (map (rule_Match L env) rs) c"

text \<open>\<open>Match\<close> and \<open>MatchAddressLimit\<close> of DNS rules.\<close>

definition DefaultDNSRule_Match :: "rule_env \<Rightarrow> 'act abstractDefaultRule \<Rightarrow> matching" where
  "DefaultDNSRule_Match env r c =
     (case abstractDefaultRule_Match env r (c\<lparr>IgnoreDestinationIPCIDRMatch := True\<rparr>) of
        (b, c') \<Rightarrow> (b, c'\<lparr>IgnoreDestinationIPCIDRMatch := False\<rparr>))"

fun DNSRule_Match :: "loops \<Rightarrow> rule_env \<Rightarrow> 'act rule \<Rightarrow> matching" where
  "DNSRule_Match L env (DefaultRule r) c = DefaultDNSRule_Match env r c"
| "DNSRule_Match L env (LogicalRule rs md neg act) c =
     logical_Match L md neg (map (DNSRule_Match L env) rs) c"

fun DNSRule_MatchAddressLimit :: "loops \<Rightarrow> rule_env \<Rightarrow> 'act rule \<Rightarrow> matching" where
  "DNSRule_MatchAddressLimit L env (DefaultRule r) c = abstractDefaultRule_Match env r c"
| "DNSRule_MatchAddressLimit L env (LogicalRule rs md neg act) c =
     logical_Match L md neg (map (DNSRule_MatchAddressLimit L env) rs) c"

definition DefaultDNSRule_WithAddressLimit ::
    "(bool list \<Rightarrow> bool) \<Rightarrow> 'act abstractDefaultRule \<Rightarrow> bool" where
  "DefaultDNSRule_WithAddressLimit any r =
     (if destinationIPCIDRItems r \<noteq> [] then True
      else list_ex (\<lambda>i. case i of IRuleSet s \<Rightarrow> ContainsDestinationIPCIDRRule any s | _ \<Rightarrow> False) (items r))"

fun DNSRule_WithAddressLimit :: "(bool list \<Rightarrow> bool) \<Rightarrow> 'act rule \<Rightarrow> bool" where
  "DNSRule_WithAddressLimit any (DefaultRule r) = DefaultDNSRule_WithAddressLimit any r"
| "DNSRule_WithAddressLimit any (LogicalRule rs md neg act) =
     list_ex (DNSRule_WithAddressLimit any) rs"

fun rule_String :: "rule_env \<Rightarrow> 'act rule \<Rightarrow> string" where
  "rule_String env (DefaultRule r) = abstractDefaultRule_String env r"
| "rule_String env (LogicalRule rs md neg act) =
     (let op = (if md = LogicalTypeAnd then ''&&'' else if md = LogicalTypeOr then ''||'' else []);
          s = strings_Join (map (rule_String env) rs) ('' '' @ op @ '' '') in
      if \<not> neg then s else ''!('' @ s @ '')'')"

section \<open>Rule sets\<close>

text \<open>\<open>Match\<close> of local and remote rule sets: the rules in order, on the same metadata.\<close>

fun match_rules :: "loops \<Rightarrow> rule_env \<Rightarrow> 'act rule list \<Rightarrow> matching" where
  "match_rules L env [] c = (False, c)"
| "match_rules L env (r # rs) c =
     (case rule_Match L env r c of (True, c') \<Rightarrow> (True, c') | (False, c') \<Rightarrow> match_rules L env rs c')"

record LocalRuleSet =
  lrs_tag :: string
  lrs_rules :: "unit rule list"
  lrs_ContainsProcessRule :: bool
  lrs_ContainsWIFIRule :: bool
  lrs_ContainsIPCIDRRule :: bool
  lrs_refs :: int

definition LocalRuleSet_Match :: "loops \<Rightarrow> rule_env \<Rightarrow> LocalRuleSet \<Rightarrow> matching" where
  "LocalRuleSet_Match L env s c = match_rules L env (lrs_rules s) c"

definition LocalRuleSet_IncRef :: "LocalRuleSet \<Rightarrow> LocalRuleSet" where
  "LocalRuleSet_IncRef s = s\<lparr>lrs_refs := lrs_refs s + 1\<rparr>"

definition LocalRuleSet_DecRef :: "LocalRuleSet \<Rightarrow> LocalRuleSet res" where
  "LocalRuleSet_DecRef s =
     (if lrs_refs s - 1 < 0 then Panic ''rule-set: negative refs'' else Ok (s\<lparr>lrs_refs := lrs_refs s - 1\<rparr>))"

definition LocalRuleSet_Cleanup :: "LocalRuleSet \<Rightarrow> LocalRuleSet" where
  "LocalRuleSet_Cleanup s = (if lrs_refs s = 0 then s\<lparr>lrs_rules := []\<rparr> else s)"

definition as_rule_set :: "loops \<Rightarrow> rule_env \<Rightarrow> LocalRuleSet \<Rightarrow> rule_set" where
  "as_rule_set L env s = \<lparr>set_Name = lrs_tag s, set_Match = LocalRuleSet_Match L env s,
     ContainsIPCIDRRule = lrs_ContainsIPCIDRRule s\<rparr>"

text \<open>\<open>extractIPSetFromRule\<close>: the address sets in the destination conditions of a rule.\<close>

fun extractIPSetFromRule :: "'act rule \<Rightarrow> (addr \<Rightarrow> bool) list" where
  "extractIPSetFromRule (DefaultRule r) =
     concat (map (\<lambda>i. case i of IIPCIDR s \<Rightarrow> [ipSet s] | _ \<Rightarrow> []) (destinationIPCIDRItems r))"
| "extractIPSetFromRule (LogicalRule rs md neg act) = concat (map extractIPSetFromRule rs)"

end
