(* ===== verification/Rule_Semantics.thy ===== *)
theory Rule_Semantics
  imports Rule_Match
begin

text \<open>
  What rules mean.  The cache flags make the matching of a rule depend on what was matched
  before; here the decision of a rule, of a tree of rules and of a rule set is characterised
  by formulas over the single items.
\<close>

section \<open>Items do not read the match flags\<close>

lemmas item_Match_defs = InboundItem_Match_def IPVersionItem_Match_def NetworkItem_Match_def
  AuthUserItem_Match_def ProtocolItem_Match_def ClientItem_Match_def QueryTypeItem_Match_def
  OutboundItem_Match_def DomainItem_Match_def DomainKeywordItem_Match_def DomainRegexItem_Match_def
  AdGuardDomainItem_Match_def IPCIDRItem_Match_def IPIsPrivateItem_Match_def IPAcceptAnyItem_Match_def
  PortItem_Match_def PortRangeItem_Match_def ProcessItem_Match_def ProcessPathItem_Match_def
  ProcessPathRegexItem_Match_def PackageNameItem_Match_def UserItem_Match_def UserIdItem_Match_def
  domain_host_def

lemma plain_Match_flags [simp]:
  "plain_Match env i (c\<lparr>SourceAddressMatch := b\<rparr>) = plain_Match env i c"
  "plain_Match env i (c\<lparr>SourcePortMatch := b\<rparr>) = plain_Match env i c"
  "plain_Match env i (c\<lparr>DestinationAddressMatch := b\<rparr>) = plain_Match env i c"
  "plain_Match env i (c\<lparr>DestinationPortMatch := b\<rparr>) = plain_Match env i c"
  "plain_Match env i (c\<lparr>DidMatch := b\<rparr>) = plain_Match env i c"
  "plain_Match env i (c\<lparr>IgnoreDestinationIPCIDRMatch := b\<rparr>) = plain_Match env i c"
  by (cases i; simp add: item_Match_defs)+

abbreviation plain :: "rule_item list \<Rightarrow> bool" where
  "plain is \<equiv> list_all (\<lambda>i. \<not> is_RuleSetItem i) is"

definition any :: "rule_env \<Rightarrow> rule_item list \<Rightarrow> InboundContext \<Rightarrow> bool" where
  "any env is c = (\<exists>i \<in> set is. plain_Match env i c)"

definition every :: "rule_env \<Rightarrow> rule_item list \<Rightarrow> InboundContext \<Rightarrow> bool" where
  "every env is c = (\<forall>i \<in> set is. plain_Match env i c)"

lemma any_simps [simp]:
  "any env [] c = False" "any env (is @ js) c = (any env is c \<or> any env js c)"
  "any env is (c\<lparr>SourceAddressMatch := b\<rparr>) = any env is c"
  "any env is (c\<lparr>SourcePortMatch := b\<rparr>) = any env is c"
  "any env is (c\<lparr>DestinationAddressMatch := b\<rparr>) = any env is c"
  "any env is (c\<lparr>DestinationPortMatch := b\<rparr>) = any env is c"
  "any env is (c\<lparr>DidMatch := b\<rparr>) = any env is c"
  "any env is (c\<lparr>IgnoreDestinationIPCIDRMatch := b\<rparr>) = any env is c"
  by (auto simp: any_def)

lemma every_simps [simp]:
  "every env [] c" "every env (is @ js) c = (every env is c \<and> every env js c)"
  "every env is (c\<lparr>SourceAddressMatch := b\<rparr>) = every env is c"
  "every env is (c\<lparr>SourcePortMatch := b\<rparr>) = every env is c"
  "every env is (c\<lparr>DestinationAddressMatch := b\<rparr>) = every env is c"
  "every env is (c\<lparr>DestinationPortMatch := b\<rparr>) = every env is c"
  "every env is (c\<lparr>DidMatch := b\<rparr>) = every env is c"
  "every env is (c\<lparr>IgnoreDestinationIPCIDRMatch := b\<rparr>) = every env is c"
  by (auto simp: every_def)

lemma item_Match_plain: "\<not> is_RuleSetItem i \<Longrightarrow> item_Match env i c = (plain_Match env i c, c)"
  by (cases i) (simp_all add: item_Match_def)

lemma any_item_plain: "plain is \<Longrightarrow> any_item env is c = (any env is c, c)"
  by (induction "is") (auto simp: item_Match_plain any_def split: bool.splits)

lemma all_items_plain:
  "plain is \<Longrightarrow> all_items env is c = (every env is c, if is = [] then c else c\<lparr>DidMatch := True\<rparr>)"
proof (induction "is" arbitrary: c)
  case (Cons i "is")
  then show ?case
    by (cases "plain_Match env i c") (auto simp: item_Match_plain every_def)
qed simp

lemma all_items_append:
  "plain is \<Longrightarrow> all_items env (is @ js) c =
    (if every env is c then all_items env js (if is = [] then c else c\<lparr>DidMatch := True\<rparr>)
     else (False, c\<lparr>DidMatch := True\<rparr>))"
proof (induction "is" arbitrary: c)
  case (Cons i "is")
  then show ?case
    by (cases "plain_Match env i c") (auto simp: item_Match_plain every_def)
qed simp

lemma group_phase_plain:
  "plain is \<Longrightarrow> group_phase env is flag set_flag c =
    (if is = [] \<or> flag c then c
     else if any env is c then set_flag (c\<lparr>DidMatch := True\<rparr>) else c\<lparr>DidMatch := True\<rparr>)"
  by (simp add: group_phase_def any_item_plain split: bool.splits)

section \<open>A default rule without rule sets\<close>

definition plain_groups :: "'act abstractDefaultRule \<Rightarrow> bool" where
  "plain_groups r \<longleftrightarrow> plain (sourceAddressItems r) \<and> plain (sourcePortItems r) \<and>
     plain (destinationAddressItems r) \<and> plain (destinationIPCIDRItems r) \<and>
     plain (destinationPortItems r)"

definition plain_rule :: "'act abstractDefaultRule \<Rightarrow> bool" where
  "plain_rule r \<longleftrightarrow> plain_groups r \<and> plain (items r)"

text \<open>The constructors put every item into exactly one group and into \<open>allItems\<close>.\<close>

definition wf_rule :: "'act abstractDefaultRule \<Rightarrow> bool" where
  "wf_rule r \<longleftrightarrow> set (allItems r) = set (items r) \<union> set (sourceAddressItems r) \<union>
     set (sourcePortItems r) \<union> set (destinationAddressItems r) \<union>
     set (destinationIPCIDRItems r) \<union> set (destinationPortItems r)"

text \<open>The flags after the five groups, from any state of the cache.\<close>

definition dest_any :: "rule_env \<Rightarrow> 'act abstractDefaultRule \<Rightarrow> InboundContext \<Rightarrow> bool" where
  "dest_any env r c \<longleftrightarrow> any env (destinationAddressItems r) c \<or>
     \<not> IgnoreDestinationIPCIDRMatch c \<and> any env (destinationIPCIDRItems r) c"

definition tested :: "rule_env \<Rightarrow> 'act abstractDefaultRule \<Rightarrow> InboundContext \<Rightarrow> bool" where
  "tested env r c \<longleftrightarrow>
     sourceAddressItems r \<noteq> [] \<and> \<not> SourceAddressMatch c \<or>
     sourcePortItems r \<noteq> [] \<and> \<not> SourcePortMatch c \<or>
     destinationAddressItems r \<noteq> [] \<and> \<not> DestinationAddressMatch c \<or>
     \<not> IgnoreDestinationIPCIDRMatch c \<and> destinationIPCIDRItems r \<noteq> [] \<and>
       \<not> (DestinationAddressMatch c \<or> any env (destinationAddressItems r) c) \<or>
     destinationPortItems r \<noteq> [] \<and> \<not> DestinationPortMatch c"

lemma flag_noop:
  "SourceAddressMatch c = b \<Longrightarrow> c\<lparr>SourceAddressMatch := b\<rparr> = c"
  "SourcePortMatch c = b \<Longrightarrow> c\<lparr>SourcePortMatch := b\<rparr> = c"
  "DestinationAddressMatch c = b \<Longrightarrow> c\<lparr>DestinationAddressMatch := b\<rparr> = c"
  "DestinationPortMatch c = b \<Longrightarrow> c\<lparr>DestinationPortMatch := b\<rparr> = c"
  by auto

lemma group_phase_flags:
  assumes "plain is"
  shows "group_phase env is SourceAddressMatch (\<lambda>c. c\<lparr>SourceAddressMatch := True\<rparr>) c =
      c\<lparr>SourceAddressMatch := SourceAddressMatch c \<or> any env is c,
        DidMatch := DidMatch c \<or> is \<noteq> [] \<and> \<not> SourceAddressMatch c\<rparr>"
    and "group_phase env is SourcePortMatch (\<lambda>c. c\<lparr>SourcePortMatch := True\<rparr>) c =
      c\<lparr>SourcePortMatch := SourcePortMatch c \<or> any env is c,
        DidMatch := DidMatch c \<or> is \<noteq> [] \<and> \<not> SourcePortMatch c\<rparr>"
    and "group_phase env is DestinationAddressMatch (\<lambda>c. c\<lparr>DestinationAddressMatch := True\<rparr>) c =
      c\<lparr>DestinationAddressMatch := DestinationAddressMatch c \<or> any env is c,
        DidMatch := DidMatch c \<or> is \<noteq> [] \<and> \<not> DestinationAddressMatch c\<rparr>"
    and "group_phase env is DestinationPortMatch (\<lambda>c. c\<lparr>DestinationPortMatch := True\<rparr>) c =
      c\<lparr>DestinationPortMatch := DestinationPortMatch c \<or> any env is c,
        DidMatch := DidMatch c \<or> is \<noteq> [] \<and> \<not> DestinationPortMatch c\<rparr>"
  subgoal by (cases "SourceAddressMatch c"; cases "is = []"; cases "any env is c")
    (use assms in \<open>simp_all add: group_phase_plain flag_noop\<close>)
  subgoal by (cases "SourcePortMatch c"; cases "is = []"; cases "any env is c")
    (use assms in \<open>simp_all add: group_phase_plain flag_noop\<close>)
  subgoal by (cases "DestinationAddressMatch c"; cases "is = []"; cases "any env is c")
    (use assms in \<open>simp_all add: group_phase_plain flag_noop\<close>)
  subgoal by (cases "DestinationPortMatch c"; cases "is = []"; cases "any env is c")
    (use assms in \<open>simp_all add: group_phase_plain flag_noop\<close>)
  done

lemma match_groups_plain:
  assumes "plain_groups r"
  shows "match_groups env r c =
    c\<lparr>SourceAddressMatch := SourceAddressMatch c \<or> any env (sourceAddressItems r) c,
      SourcePortMatch := SourcePortMatch c \<or> any env (sourcePortItems r) c,
      DestinationAddressMatch := DestinationAddressMatch c \<or> dest_any env r c,
      DestinationPortMatch := DestinationPortMatch c \<or> any env (destinationPortItems r) c,
      DidMatch := DidMatch c \<or> tested env r c\<rparr>"
proof -
  show ?thesis
  proof (cases "IgnoreDestinationIPCIDRMatch c")
    case True
    with assms show ?thesis
      by (simp add: match_groups_def plain_groups_def group_phase_flags dest_any_def tested_def
          Let_def disj_assoc)
  next
    case False
    with assms show ?thesis
      by (simp add: match_groups_def plain_groups_def group_phase_flags dest_any_def tested_def
          Let_def disj_assoc)
  qed
qed

text \<open>What the checks after the groups ask, and the decision of a rule, from any cache.\<close>

definition conds :: "rule_env \<Rightarrow> 'act abstractDefaultRule \<Rightarrow> InboundContext \<Rightarrow> bool" where
  "conds env r c \<longleftrightarrow> every env (items r) c \<and>
     (sourceAddressItems r = [] \<or> SourceAddressMatch c \<or> any env (sourceAddressItems r) c) \<and>
     (sourcePortItems r = [] \<or> SourcePortMatch c \<or> any env (sourcePortItems r) c) \<and>
     (destinationAddressItems r = [] \<and> (IgnoreDestinationIPCIDRMatch c \<or> destinationIPCIDRItems r = [])
       \<or> DestinationAddressMatch c \<or> dest_any env r c) \<and>
     (destinationPortItems r = [] \<or> DestinationPortMatch c \<or> any env (destinationPortItems r) c)"

lemma abstractDefaultRule_Match_plain:
  assumes "plain_rule r" and "allItems r \<noteq> []"
  shows "fst (abstractDefaultRule_Match env r c) =
      (if conds env r c then DidMatch c \<or> tested env r c \<or> items r \<noteq> [] \<longrightarrow> \<not> invert r else invert r)"
    and "snd (abstractDefaultRule_Match env r c) =
      (match_groups env r c)\<lparr>DidMatch := DidMatch c \<or> tested env r c \<or> items r \<noteq> []\<rparr>"
proof -
  let ?g = "match_groups env r c"
  have g: "plain_groups r" "plain (items r)" using assms(1) by (simp_all add: plain_rule_def)
  note m = match_groups_plain [OF g(1), of env c]
  have e: "every env (items r) ?g = every env (items r) c" by (simp add: m)
  have run: "all_items env (items r) ?g =
      (every env (items r) c, ?g\<lparr>DidMatch := DidMatch c \<or> tested env r c \<or> items r \<noteq> []\<rparr>)"
    using all_items_plain [OF g(2), of env ?g] e by (simp add: m)
  have f: "flags_hold r (?g\<lparr>DidMatch := b\<rparr>) \<and> every env (items r) c \<longleftrightarrow> conds env r c" for b
    by (auto simp: flags_hold_def conds_def m)
  have d: "every env (items r) c" if "conds env r c" using that by (simp add: conds_def)
  show "fst (abstractDefaultRule_Match env r c) =
      (if conds env r c then DidMatch c \<or> tested env r c \<or> items r \<noteq> [] \<longrightarrow> \<not> invert r else invert r)"
    using assms(2) f d
    by (cases "every env (items r) c")
       (auto simp: abstractDefaultRule_Match_def run simp del: InboundContext.update_convs)
  show "snd (abstractDefaultRule_Match env r c) =
      ?g\<lparr>DidMatch := DidMatch c \<or> tested env r c \<or> items r \<noteq> []\<rparr>"
    using assms(2)
    by (cases "every env (items r) c")
       (auto simp: abstractDefaultRule_Match_def run simp del: InboundContext.update_convs)
qed

text \<open>The decision from an empty cache.\<close>

definition fresh :: "InboundContext \<Rightarrow> bool" where
  "fresh c \<longleftrightarrow> \<not> SourceAddressMatch c \<and> \<not> SourcePortMatch c \<and> \<not> DestinationAddressMatch c \<and>
     \<not> DestinationPortMatch c \<and> \<not> DidMatch c"

lemma fresh_Reset [simp]: "fresh (ResetRuleCache c)"
  by (simp add: fresh_def ResetRuleCache_def)

text \<open>Whether a rule tests anything: with the address conditions of DNS rules ignored it may not.\<close>

definition decides :: "'act abstractDefaultRule \<Rightarrow> bool \<Rightarrow> bool" where
  "decides r ign \<longleftrightarrow> items r \<noteq> [] \<or> sourceAddressItems r \<noteq> [] \<or> sourcePortItems r \<noteq> [] \<or>
     destinationAddressItems r \<noteq> [] \<or> (\<not> ign \<and> destinationIPCIDRItems r \<noteq> []) \<or>
     destinationPortItems r \<noteq> []"

definition default_formula :: "rule_env \<Rightarrow> 'act abstractDefaultRule \<Rightarrow> InboundContext \<Rightarrow> bool" where
  "default_formula env r c \<longleftrightarrow>
     \<not> decides r (IgnoreDestinationIPCIDRMatch c) \<or>
     (every env (items r) c \<and>
      (sourceAddressItems r \<noteq> [] \<longrightarrow> any env (sourceAddressItems r) c) \<and>
      (sourcePortItems r \<noteq> [] \<longrightarrow> any env (sourcePortItems r) c) \<and>
      (if IgnoreDestinationIPCIDRMatch c
       then destinationAddressItems r \<noteq> [] \<longrightarrow> any env (destinationAddressItems r) c
       else destinationAddressItems r @ destinationIPCIDRItems r \<noteq> [] \<longrightarrow>
            any env (destinationAddressItems r @ destinationIPCIDRItems r) c) \<and>
      (destinationPortItems r \<noteq> [] \<longrightarrow> any env (destinationPortItems r) c)) \<noteq> invert r"

lemma any_nonempty: "any env is c \<Longrightarrow> is \<noteq> []"
  by auto

lemma tested_fresh: "fresh c \<Longrightarrow> tested env r c \<or> items r \<noteq> [] \<longleftrightarrow> decides r (IgnoreDestinationIPCIDRMatch c)"
  using any_nonempty [of env "destinationAddressItems r" c]
  by (auto simp: tested_def decides_def fresh_def)

lemma allItems_empty: "wf_rule r \<Longrightarrow> allItems r = [] \<Longrightarrow> \<not> decides r b"
  by (auto simp: wf_rule_def decides_def)

lemma default_rule_decision:
  assumes "plain_rule r" and "wf_rule r" and "fresh c"
  shows "fst (abstractDefaultRule_Match env r c) = default_formula env r c"
proof (cases "allItems r = []")
  case True
  with assms(2) allItems_empty [of r] show ?thesis
    by (simp add: abstractDefaultRule_Match_def default_formula_def)
next
  case False
  have c: "conds env r c \<longleftrightarrow> every env (items r) c \<and>
      (sourceAddressItems r \<noteq> [] \<longrightarrow> any env (sourceAddressItems r) c) \<and>
      (sourcePortItems r \<noteq> [] \<longrightarrow> any env (sourcePortItems r) c) \<and>
      (if IgnoreDestinationIPCIDRMatch c
       then destinationAddressItems r \<noteq> [] \<longrightarrow> any env (destinationAddressItems r) c
       else destinationAddressItems r @ destinationIPCIDRItems r \<noteq> [] \<longrightarrow>
            any env (destinationAddressItems r @ destinationIPCIDRItems r) c) \<and>
      (destinationPortItems r \<noteq> [] \<longrightarrow> any env (destinationPortItems r) c)"
    using assms(3) by (auto simp: conds_def fresh_def dest_any_def)
  have u: "\<not> decides r (IgnoreDestinationIPCIDRMatch c) \<Longrightarrow> conds env r c"
    by (auto simp: conds_def decides_def)
  have d: "DidMatch c = False" using assms(3) by (simp add: fresh_def)
  show ?thesis
    unfolding abstractDefaultRule_Match_plain(1) [OF assms(1) False] default_formula_def c [symmetric] d
    using tested_fresh [OF assms(3), of env r] u by auto
qed

section \<open>Trees of rules\<close>

text \<open>What \<open>common.All\<close> and \<open>common.Any\<close> do: call in order and stop at the first answer that decides.\<close>

fun all_loop :: "matching list \<Rightarrow> matching" where
  "all_loop [] c = (True, c)"
| "all_loop (f # fs) c = (case f c of (True, c') \<Rightarrow> all_loop fs c' | (False, c') \<Rightarrow> (False, c'))"

fun any_loop :: "matching list \<Rightarrow> matching" where
  "any_loop [] c = (False, c)"
| "any_loop (f # fs) c = (case f c of (True, c') \<Rightarrow> (True, c') | (False, c') \<Rightarrow> any_loop fs c')"

definition loops_ok :: "loops \<Rightarrow> bool" where
  "loops_ok L \<longleftrightarrow> common_All L = all_loop \<and> common_Any L = any_loop"

definition loops_ref :: loops where
  "loops_ref = \<lparr>common_All = all_loop, common_Any = any_loop\<rparr>"

lemma loops_ref_ok: "loops_ok loops_ref"
  by (simp add: loops_ok_def loops_ref_def)

abbreviation resetting :: "matching \<Rightarrow> matching" where
  "resetting f \<equiv> \<lambda>c. f (ResetRuleCache c)"

lemma Reset_idem [simp]: "ResetRuleCache (ResetRuleCache c) = ResetRuleCache c"
  by (simp add: ResetRuleCache_def)

lemma all_loop_result:
  assumes "\<forall>f \<in> set fs. ResetRuleCache (snd (f c0)) = c0" and "ResetRuleCache c = c0"
  shows "fst (all_loop (map resetting fs) c) = list_all (\<lambda>f. fst (f c0)) fs \<and>
         ResetRuleCache (snd (all_loop (map resetting fs) c)) = c0"
  using assms
proof (induction fs arbitrary: c)
  case (Cons f fs)
  obtain b c' where f: "f c0 = (b, c')" by fastforce
  have c': "ResetRuleCache c' = c0" using Cons.prems(1) f by (metis list.set_intros(1) snd_conv)
  show ?case using Cons.IH [of c'] f c' Cons.prems by (cases b) auto
qed simp

lemma any_loop_result:
  assumes "\<forall>f \<in> set fs. ResetRuleCache (snd (f c0)) = c0" and "ResetRuleCache c = c0"
  shows "fst (any_loop (map resetting fs) c) = list_ex (\<lambda>f. fst (f c0)) fs \<and>
         ResetRuleCache (snd (any_loop (map resetting fs) c)) = c0"
  using assms
proof (induction fs arbitrary: c)
  case (Cons f fs)
  obtain b c' where f: "f c0 = (b, c')" by fastforce
  have c': "ResetRuleCache c' = c0" using Cons.prems(1) f by (metis list.set_intros(1) snd_conv)
  show ?case using Cons.IH [of c'] f c' Cons.prems by (cases b) auto
qed simp

lemma logical_Match_result:
  assumes "loops_ok L" and "\<forall>f \<in> set fs. ResetRuleCache (snd (f c0)) = c0"
    and "ResetRuleCache c = c0"
  shows "fst (logical_Match L md neg fs c) =
      ((if md = LogicalTypeAnd then list_all (\<lambda>f. fst (f c0)) fs else list_ex (\<lambda>f. fst (f c0)) fs) \<noteq> neg)"
    and "ResetRuleCache (snd (logical_Match L md neg fs c)) = c0"
  using all_loop_result [OF assms(2,3)] any_loop_result [OF assms(2,3)] assms(1)
  by (auto simp: logical_Match_def loops_ok_def Let_def split: prod.splits)

text \<open>The truth value of a tree when the truth values of its default rules are known.\<close>

fun tree_formula :: "('act abstractDefaultRule \<Rightarrow> bool) \<Rightarrow> 'act rule \<Rightarrow> bool" where
  "tree_formula p (DefaultRule r) = p r"
| "tree_formula p (LogicalRule rs md neg act) =
     ((if md = LogicalTypeAnd then list_all (tree_formula p) rs else list_ex (tree_formula p) rs) \<noteq> neg)"

fun leaves :: "('act abstractDefaultRule \<Rightarrow> bool) \<Rightarrow> 'act rule \<Rightarrow> bool" where
  "leaves p (DefaultRule r) = p r"
| "leaves p (LogicalRule rs md neg act) = list_all (leaves p) rs"

lemma tree_formula_cong: "leaves (\<lambda>r. p r = q r) R \<Longrightarrow> tree_formula p R = tree_formula q R"
  by (induction R) (auto simp: list_all_iff list_ex_iff)

lemma leaves_mono: "leaves p R \<Longrightarrow> (\<And>r. p r \<Longrightarrow> q r) \<Longrightarrow> leaves q R"
  by (induction R) (auto simp: list_all_iff)

text \<open>
  A way to match trees of rules: a \<open>Match\<close> for default rules that leaves nothing but the cache
  changed, and the logical rules on top of it.
\<close>

locale tree_matching =
  fixes tree :: "loops \<Rightarrow> 'act rule \<Rightarrow> matching"
    and leaf :: "'act abstractDefaultRule \<Rightarrow> matching"
    and good :: "'act abstractDefaultRule \<Rightarrow> bool"
    and usable :: "InboundContext \<Rightarrow> bool"
  assumes tree_leaf: "tree L (DefaultRule r) c = leaf r c"
    and tree_logical: "tree L (LogicalRule rs md neg act) c = logical_Match L md neg (map (tree L) rs) c"
    and leaf_keeps: "good r \<Longrightarrow> usable c \<Longrightarrow> ResetRuleCache (snd (leaf r (ResetRuleCache c))) = ResetRuleCache c"
begin

lemma tree_result:
  assumes "loops_ok L" and "usable c"
  shows "leaves good R \<Longrightarrow>
    fst (tree L R (ResetRuleCache c)) = tree_formula (\<lambda>r. fst (leaf r (ResetRuleCache c))) R \<and>
    ResetRuleCache (snd (tree L R (ResetRuleCache c))) = ResetRuleCache c"
proof (induction R)
  case (DefaultRule r)
  then show ?case using leaf_keeps assms(2) by (simp add: tree_leaf)
next
  case (LogicalRule rs md neg act)
  let ?c = "ResetRuleCache c"
  have sub: "fst (tree L R ?c) = tree_formula (\<lambda>r. fst (leaf r ?c)) R"
    "ResetRuleCache (snd (tree L R ?c)) = ?c" if "R \<in> set rs" for R
    using LogicalRule that by (auto simp: list_all_iff)
  have "\<forall>f \<in> set (map (tree L) rs). ResetRuleCache (snd (f ?c)) = ?c"
    using sub(2) by auto
  note res = logical_Match_result [OF assms(1) this, of ?c md neg]
  from sub(1) have "list_all (\<lambda>f. fst (f ?c)) (map (tree L) rs) = list_all (tree_formula (\<lambda>r. fst (leaf r ?c))) rs"
    "list_ex (\<lambda>f. fst (f ?c)) (map (tree L) rs) = list_ex (tree_formula (\<lambda>r. fst (leaf r ?c))) rs"
    by (auto simp: list_all_iff list_ex_iff)
  with res show ?case by (simp add: tree_logical)
qed

end

section \<open>The three ways to match\<close>

lemma match_groups_reset: "plain_groups r \<Longrightarrow> ResetRuleCache (match_groups env r c) = ResetRuleCache c"
  by (simp add: match_groups_plain ResetRuleCache_def)

lemma default_keeps:
  "plain_rule r \<Longrightarrow> ResetRuleCache (snd (abstractDefaultRule_Match env r c)) = ResetRuleCache c"
proof (cases "allItems r = []")
  case False
  assume "plain_rule r"
  moreover have "ResetRuleCache (c\<lparr>DidMatch := b\<rparr>) = ResetRuleCache c" for c b
    by (simp add: ResetRuleCache_def)
  ultimately show ?thesis
    using False by (simp add: abstractDefaultRule_Match_plain match_groups_reset plain_rule_def)
qed (simp add: abstractDefaultRule_Match_def)

lemma Ignore_Reset [simp]: "IgnoreDestinationIPCIDRMatch (ResetRuleCache c) = IgnoreDestinationIPCIDRMatch c"
  by (simp add: ResetRuleCache_def)

lemma Reset_Ignore: "ResetRuleCache (c\<lparr>IgnoreDestinationIPCIDRMatch := b\<rparr>) =
    (ResetRuleCache c)\<lparr>IgnoreDestinationIPCIDRMatch := b\<rparr>"
  by (simp add: ResetRuleCache_def)

lemma dns_keeps:
  assumes "plain_rule r" and "\<not> IgnoreDestinationIPCIDRMatch c"
  shows "ResetRuleCache (snd (DefaultDNSRule_Match env r (ResetRuleCache c))) = ResetRuleCache c"
proof -
  let ?c = "(ResetRuleCache c)\<lparr>IgnoreDestinationIPCIDRMatch := True\<rparr>"
  have "ResetRuleCache (snd (DefaultDNSRule_Match env r (ResetRuleCache c))) =
      (ResetRuleCache (snd (abstractDefaultRule_Match env r ?c)))\<lparr>IgnoreDestinationIPCIDRMatch := False\<rparr>"
    by (simp add: DefaultDNSRule_Match_def Reset_Ignore split: prod.split)
  also have "\<dots> = (ResetRuleCache c)\<lparr>IgnoreDestinationIPCIDRMatch := False\<rparr>"
    using default_keeps [OF assms(1), of env ?c] by (simp add: Reset_Ignore)
  also have "\<dots> = ResetRuleCache c" using assms(2) by (auto simp: ResetRuleCache_def)
  finally show ?thesis .
qed

interpretation route: tree_matching "\<lambda>L. rule_Match L env" "abstractDefaultRule_Match env" plain_rule "\<lambda>_. True"
  for env
  by unfold_locales (simp_all add: default_keeps)

interpretation dns: tree_matching "\<lambda>L. DNSRule_Match L env" "DefaultDNSRule_Match env" plain_rule
  "\<lambda>c. \<not> IgnoreDestinationIPCIDRMatch c" for env
  by unfold_locales (simp_all add: dns_keeps)

interpretation dns_address: tree_matching "\<lambda>L. DNSRule_MatchAddressLimit L env"
  "abstractDefaultRule_Match env" plain_rule "\<lambda>_. True" for env
  by unfold_locales (simp_all add: default_keeps)

section \<open>Rule sets and the rules that use them\<close>

text \<open>The rule that has the conditions of both: groups are joined, single items added.\<close>

definition merged ::
    "'act abstractDefaultRule \<Rightarrow> rule_item list \<Rightarrow> unit abstractDefaultRule \<Rightarrow> 'act abstractDefaultRule" where
  "merged r base q = r\<lparr>items := base @ items q,
     sourceAddressItems := sourceAddressItems r @ sourceAddressItems q,
     sourcePortItems := sourcePortItems r @ sourcePortItems q,
     destinationAddressItems := destinationAddressItems r @ destinationAddressItems q,
     destinationIPCIDRItems := destinationIPCIDRItems r @ destinationIPCIDRItems q,
     destinationPortItems := destinationPortItems r @ destinationPortItems q\<rparr>"

lemma source_flags_noop:
  "\<not> IPCIDRMatchSource c \<Longrightarrow> \<not> IPCIDRAcceptEmpty c \<Longrightarrow>
   c\<lparr>IPCIDRMatchSource := False, IPCIDRAcceptEmpty := False\<rparr> = c"
  by auto

lemma RuleSetItem_Match_single:
  assumes "setList s = [as_rule_set L env ls]" and "lrs_rules ls = [DefaultRule q]"
    and "\<not> ipCidrMatchSource s" "\<not> ipCidrAcceptEmpty s"
    and "\<not> IPCIDRMatchSource c" "\<not> IPCIDRAcceptEmpty c"
  shows "RuleSetItem_Match s c = abstractDefaultRule_Match env q c"
  using assms
  by (auto simp: RuleSetItem_Match_def as_rule_set_def LocalRuleSet_Match_def source_flags_noop
      split: prod.split bool.split)

text \<open>The cache after the groups of a rule were matched from an empty cache.\<close>

lemma after_groups:
  fixes env :: rule_env and d :: bool
  assumes "plain_groups r" and "fresh c"
  defines "g \<equiv> (match_groups env r c)\<lparr>DidMatch := d\<rparr>"
  shows "SourceAddressMatch g = any env (sourceAddressItems r) c"
    "SourcePortMatch g = any env (sourcePortItems r) c"
    "DestinationAddressMatch g = dest_any env r c"
    "DestinationPortMatch g = any env (destinationPortItems r) c"
    "IgnoreDestinationIPCIDRMatch g = IgnoreDestinationIPCIDRMatch c"
    "IPCIDRMatchSource g = IPCIDRMatchSource c" "IPCIDRAcceptEmpty g = IPCIDRAcceptEmpty c"
    "any env is g = any env is c" "every env is g = every env is c"
    "dest_any env q g = dest_any env q c" "DidMatch g = d"
  using assms(1,2) by (simp_all add: g_def match_groups_plain fresh_def dest_any_def)

lemma merged_decision:
  fixes env :: rule_env
  assumes p: "plain_groups r" "plain base" "plain_rule q" and "fresh c" and q: "allItems q \<noteq> []" "\<not> invert q"
  defines "g \<equiv> (match_groups env r c)\<lparr>DidMatch := tested env r c \<or> base \<noteq> []\<rparr>"
  shows "conds env q g \<and> flags_hold r (snd (abstractDefaultRule_Match env q g)) \<and> every env base c \<longleftrightarrow>
      conds env (merged r base q) c"
    and "DidMatch (snd (abstractDefaultRule_Match env q g)) \<longleftrightarrow>
      decides (merged r base q) (IgnoreDestinationIPCIDRMatch c)"
proof -
  note ag = after_groups [OF p(1) \<open>fresh c\<close>, where env = env and d = "tested env r c \<or> base \<noteq> []", folded g_def]
  have pq: "plain_groups q" using p(3) by (simp add: plain_rule_def)
  let ?h = "snd (abstractDefaultRule_Match env q g)"
  have h: "?h = (match_groups env q g)\<lparr>DidMatch := DidMatch g \<or> tested env q g \<or> items q \<noteq> []\<rparr>"
    by (rule abstractDefaultRule_Match_plain(2) [OF p(3) q(1)])
  have hf: "SourceAddressMatch ?h = (any env (sourceAddressItems r) c \<or> any env (sourceAddressItems q) c)"
    "SourcePortMatch ?h = (any env (sourcePortItems r) c \<or> any env (sourcePortItems q) c)"
    "DestinationAddressMatch ?h = (dest_any env r c \<or> dest_any env q c)"
    "DestinationPortMatch ?h = (any env (destinationPortItems r) c \<or> any env (destinationPortItems q) c)"
    "IgnoreDestinationIPCIDRMatch ?h = IgnoreDestinationIPCIDRMatch c"
    "DidMatch ?h = (tested env r c \<or> base \<noteq> [] \<or> tested env q g \<or> items q \<noteq> [])"
    unfolding h by (simp_all add: match_groups_plain [OF pq] ag)
  show "conds env q g \<and> flags_hold r ?h \<and> every env base c \<longleftrightarrow> conds env (merged r base q) c"
    using \<open>fresh c\<close>
    by (auto simp: conds_def flags_hold_def merged_def hf ag fresh_def dest_any_def)
  have t: "tested env r c \<longleftrightarrow> sourceAddressItems r \<noteq> [] \<or> sourcePortItems r \<noteq> [] \<or>
      destinationAddressItems r \<noteq> [] \<or> \<not> IgnoreDestinationIPCIDRMatch c \<and> destinationIPCIDRItems r \<noteq> [] \<or>
      destinationPortItems r \<noteq> []"
    using \<open>fresh c\<close> any_nonempty [of env "destinationAddressItems r" c] by (auto simp: tested_def fresh_def)
  show "DidMatch ?h \<longleftrightarrow> decides (merged r base q) (IgnoreDestinationIPCIDRMatch c)"
    unfolding hf t
    using any_nonempty [of env "sourceAddressItems r" c] any_nonempty [of env "sourcePortItems r" c]
      any_nonempty [of env "destinationAddressItems r" c] any_nonempty [of env "destinationIPCIDRItems r" c]
      any_nonempty [of env "destinationPortItems r" c] any_nonempty [of env "destinationAddressItems q" c]
    by (auto simp: decides_def merged_def tested_def ag dest_any_def)
qed

lemma all_items_rule_set:
  assumes "plain base" and "every env base c"
  shows "all_items env (base @ [IRuleSet s]) c = RuleSetItem_Match s (if base = [] then c else c\<lparr>DidMatch := True\<rparr>)"
  using assms by (auto simp: all_items_append item_Match_def split: prod.split bool.split)

section \<open>Properties\<close>

definition demo_rule_env :: rule_env where
  "demo_rule_env = \<lparr>strings_ToLower = id, strings_EqualFold = (=), regexp_Compile = (\<lambda>s. Inr ((=) s)),
     netip_ParsePrefix = (\<lambda>_. Inl ErrInvalid), netip_ParseAddr = (\<lambda>_. Inl ErrInvalid),
     netipx_IPSet = (\<lambda>_. Inr (\<lambda>_. False)), domain_NewMatcher = (\<lambda>ds _ _ s. s \<in> set ds),
     domain_NewAdGuardMatcher = (\<lambda>_ _. False), N_IsPublicAddr = (\<lambda>_. True),
     F_ToString = (\<lambda>_. []), Socksaddr_IsIP = (\<lambda>a. sa_Addr a \<noteq> AddrNone),
     Socksaddr_IsIPv6 = (\<lambda>_. False), mDNS_TypeToString = Map.empty, DefaultNetworkInterface = None,
     WIFIState_SSID = [], WIFIState_BSSID = [], ClashServer_Mode = None,
     common_Contains = (\<lambda>xs x. x \<in> set xs)\<rparr>"

text \<open>A rule with a condition on the source port and one on the destination port.\<close>

definition port_rule :: "16 word \<Rightarrow> 16 word \<Rightarrow> unit abstractDefaultRule" where
  "port_rule sp dp = \<lparr>items = [], sourceAddressItems = [], sourcePortItems = [IPort (NewPortItem True [sp])],
     destinationAddressItems = [], destinationIPCIDRItems = [],
     destinationPortItems = [IPort (NewPortItem False [dp])],
     allItems = [IPort (NewPortItem True [sp]), IPort (NewPortItem False [dp])],
     invert = False, action = ()\<rparr>"

lemma port_rule_plain [simp]: "plain_rule (port_rule sp dp)" "wf_rule (port_rule sp dp)"
  "allItems (port_rule sp dp) \<noteq> []" "invert (port_rule sp dp) = False"
  "plain_groups (port_rule sp dp)"
  by (auto simp: port_rule_def plain_rule_def plain_groups_def wf_rule_def)

lemma demo_ctx_fresh [simp]: "fresh (demo_ctx sp dp)" "ResetRuleCache (demo_ctx sp dp) = demo_ctx sp dp"
  "\<not> IgnoreDestinationIPCIDRMatch (demo_ctx sp dp)"
  by (simp_all add: fresh_def demo_ctx_def ResetRuleCache_def)

lemmas demo_eval = default_formula_def decides_def every_def any_def port_rule_def demo_ctx_def
  NewPortItem_def PortItem_Match_def

lemma tree_decision:
  assumes "loops_ok L" and "leaves (\<lambda>r. plain_rule r \<and> wf_rule r) R"
  shows "fst (rule_Match L env R (ResetRuleCache c)) =
         tree_formula (\<lambda>r. default_formula env r (ResetRuleCache c)) R"
    and "ResetRuleCache (snd (rule_Match L env R (ResetRuleCache c))) = ResetRuleCache c"
proof -
  have p: "leaves plain_rule R" using assms(2) by (rule leaves_mono) simp
  have "leaves (\<lambda>r. fst (abstractDefaultRule_Match env r (ResetRuleCache c))
      = default_formula env r (ResetRuleCache c)) R"
    using assms(2) by (rule leaves_mono) (simp add: default_rule_decision)
  note t = tree_formula_cong [OF this] route.tree_result [OF assms(1) TrueI p, of env c]
  show "fst (rule_Match L env R (ResetRuleCache c)) =
      tree_formula (\<lambda>r. default_formula env r (ResetRuleCache c)) R" using t by simp
  show "ResetRuleCache (snd (rule_Match L env R (ResetRuleCache c))) = ResetRuleCache c" using t by simp
qed



text \<open>
  A DNS rule that reports no limit on addresses decides the same before the addresses are
  known (\<open>Match\<close>, which ignores the conditions on them) and after (\<open>MatchAddressLimit\<close>), for
  trees whose default rules use no rule set.
\<close>

theorem dns_no_address_limit:
  assumes "loops_ok L" and "leaves (\<lambda>r. plain_rule r \<and> wf_rule r) R"
    and "\<not> IgnoreDestinationIPCIDRMatch c" and "\<not> DNSRule_WithAddressLimit anyb R"
  shows "fst (DNSRule_Match L env R (ResetRuleCache c)) = fst (DNSRule_MatchAddressLimit L env R (ResetRuleCache c))"
proof -
  let ?c = "ResetRuleCache c"
  have p: "leaves plain_rule R" using assms(2) by (rule leaves_mono) simp
  have n: "leaves (\<lambda>r. destinationIPCIDRItems r = []) R" using assms(4)
    by (induction R) (auto simp: list_all_iff list_ex_iff DefaultDNSRule_WithAddressLimit_def split: if_splits)
  have leaf: "fst (DefaultDNSRule_Match env r ?c) = fst (abstractDefaultRule_Match env r ?c)"
    if "plain_rule r" "wf_rule r" "destinationIPCIDRItems r = []" for r :: "'a abstractDefaultRule"
  proof -
    let ?d = "?c\<lparr>IgnoreDestinationIPCIDRMatch := True\<rparr>"
    have "fresh ?d" by (simp add: fresh_def ResetRuleCache_def)
    from default_rule_decision [OF that(1,2) this, of env]
    have "fst (DefaultDNSRule_Match env r ?c) = default_formula env r ?d"
      by (simp add: DefaultDNSRule_Match_def case_prod_beta)
    also have "\<dots> = default_formula env r ?c"
      using that(3) assms(3) by (simp add: default_formula_def decides_def)
    finally show ?thesis using default_rule_decision [OF that(1,2), of ?c env] by simp
  qed
  have "leaves (\<lambda>r. plain_rule r \<and> wf_rule r \<and> destinationIPCIDRItems r = []) R"
    using assms(2) n by (induction R) (auto simp: list_all_iff)
  then have "leaves (\<lambda>r. fst (DefaultDNSRule_Match env r ?c) = fst (abstractDefaultRule_Match env r ?c)) R"
    by (rule leaves_mono) (simp add: leaf)
  from tree_formula_cong [OF this] dns.tree_result [OF assms(1,3) p, of env]
    dns_address.tree_result [OF assms(1) TrueI p, of env c]
  show ?thesis by simp
qed

theorem dns_no_address_limit_witness:
  "fst (DNSRule_Match loops_ref demo_rule_env (DefaultRule (port_rule 1000 443)) (demo_ctx 1000 443)) =
   fst (DNSRule_MatchAddressLimit loops_ref demo_rule_env (DefaultRule (port_rule 1000 443)) (demo_ctx 1000 443))"
proof -
  have "\<not> DNSRule_WithAddressLimit (list_ex id) (DefaultRule (port_rule 1000 443))"
    by (simp add: DefaultDNSRule_WithAddressLimit_def port_rule_def)
  from dns_no_address_limit [OF loops_ref_ok _ demo_ctx_fresh(3) this, of demo_rule_env 1000 443]
  show ?thesis by simp
qed

text \<open>
  A rule that uses a rule set with one rule that is not inverted decides like the rule that
  has the conditions of both, in which the groups of addresses and ports are joined: the cache
  flags make the two source or destination conditions alternatives of each other.
\<close>

theorem rule_set_merges:
  assumes "plain_groups r" and "items r = base @ [IRuleSet s]" and "plain base" and "allItems r \<noteq> []"
    and "setList s = [as_rule_set L env ls]" and "lrs_rules ls = [DefaultRule q]"
    and "\<not> ipCidrMatchSource s" and "\<not> ipCidrAcceptEmpty s"
    and "plain_rule q" and "allItems q \<noteq> []" and "\<not> invert q"
  shows "fst (abstractDefaultRule_Match env r (ResetRuleCache c)) =
         default_formula env (merged r base q) (ResetRuleCache c)"
proof -
  let ?c = "ResetRuleCache c" and ?m = "merged r base q"
  let ?base = "match_groups env r ?c"
  let ?g = "?base\<lparr>DidMatch := tested env r ?c \<or> base \<noteq> []\<rparr>"
  note ag = after_groups [OF assms(1) fresh_Reset [of c], where env = env]
  note md = merged_decision [OF assms(1,3,9) fresh_Reset [of c] assms(10,11), where env = env]
  have did: "(if base = [] then ?base else ?base\<lparr>DidMatch := True\<rparr>) = ?g"
    by (simp add: match_groups_plain [OF assms(1)]) (simp add: ResetRuleCache_def)
  have ev: "every env base ?base = every env base ?c" by (simp add: match_groups_plain [OF assms(1)])
  have run: "all_items env (items r) ?base = abstractDefaultRule_Match env q ?g" if "every env base ?c"
  proof -
    have "all_items env (items r) ?base = RuleSetItem_Match s ?g"
      using all_items_rule_set [OF assms(3), of env ?base s] that ev assms(2) did by simp
    also have "\<dots> = abstractDefaultRule_Match env q ?g"
      using assms(5-8) by (intro RuleSetItem_Match_single) (simp_all add: ag, simp_all add: ResetRuleCache_def)
    finally show ?thesis .
  qed
  have q: "fst (abstractDefaultRule_Match env q ?g) = conds env q ?g"
    using abstractDefaultRule_Match_plain(1) [OF assms(9,10), of env ?g] assms(11) by auto
  have form: "default_formula env ?m ?c \<longleftrightarrow>
      \<not> decides ?m (IgnoreDestinationIPCIDRMatch ?c) \<or> conds env ?m ?c \<noteq> invert r"
    using fresh_Reset [of c]
    by (auto simp: default_formula_def conds_def fresh_def dest_any_def merged_def)
  have u: "\<not> decides ?m (IgnoreDestinationIPCIDRMatch ?c) \<Longrightarrow> conds env ?m ?c"
    by (auto simp: conds_def decides_def)
  show ?thesis
  proof (cases "every env base ?c")
    case False
    then have "\<not> conds env ?m ?c" by (auto simp: conds_def merged_def)
    moreover have "all_items env (items r) (match_groups env r ?c)
        = (False, (match_groups env r ?c)\<lparr>DidMatch := True\<rparr>)"
      using False ev assms(2,3) by (simp add: all_items_append)
    ultimately show ?thesis
      using form u assms(4) by (auto simp: abstractDefaultRule_Match_def)
  next
    case True
    note run' = run [OF True]
    obtain b h where bh: "abstractDefaultRule_Match env q ?g = (b, h)" by fastforce
    have "conds env ?m ?c \<longleftrightarrow> b \<and> flags_hold r h" using md(1) True q bh by auto
    moreover have "DidMatch h \<longleftrightarrow> decides ?m (IgnoreDestinationIPCIDRMatch ?c)" using md(2) bh by simp
    ultimately show ?thesis
      using form u assms(4) run' bh
      by (cases b) (auto simp: abstractDefaultRule_Match_def [of env r])
  qed
qed

text \<open>A rule on the destination port that also uses a rule set.\<close>

definition port_set_rule :: "16 word \<Rightarrow> RuleSetItem \<Rightarrow> unit abstractDefaultRule" where
  "port_set_rule dp s = \<lparr>items = [IRuleSet s], sourceAddressItems = [], sourcePortItems = [],
     destinationAddressItems = [], destinationIPCIDRItems = [],
     destinationPortItems = [IPort (NewPortItem False [dp])],
     allItems = [IPort (NewPortItem False [dp]), IRuleSet s], invert = False, action = ()\<rparr>"

definition demo_set :: "unit abstractDefaultRule list \<Rightarrow> LocalRuleSet" where
  "demo_set rs = \<lparr>lrs_tag = ''s'', lrs_rules = map DefaultRule rs, lrs_ContainsProcessRule = False, lrs_ContainsWIFIRule = False,
        lrs_ContainsIPCIDRRule = False, lrs_refs = 1\<rparr>"

theorem rule_set_merges_witness:
  "fst (abstractDefaultRule_Match demo_rule_env
     (port_set_rule 443 ((NewRuleSetItem [''s''] False False)
        \<lparr>setList := [as_rule_set loops_ref demo_rule_env (demo_set [port_rule 1000 80])]\<rparr>))
     (demo_ctx 1000 443))"
proof -
  let ?s = "(NewRuleSetItem [''s''] False False)
        \<lparr>setList := [as_rule_set loops_ref demo_rule_env (demo_set [port_rule 1000 80])]\<rparr>"
  have "default_formula demo_rule_env (merged (port_set_rule 443 ?s) [] (port_rule 1000 80)) (demo_ctx 1000 443)"
    by (simp add: merged_def port_set_rule_def demo_eval)
  moreover have "plain_groups (port_set_rule 443 ?s)" by (simp add: port_set_rule_def plain_groups_def)
  ultimately show ?thesis
    using rule_set_merges [of "port_set_rule 443 ?s" "[]" ?s loops_ref demo_rule_env "demo_set [port_rule 1000 80]"
        "port_rule 1000 80" "demo_ctx 1000 443"]
    by (simp add: NewRuleSetItem_def demo_set_def port_set_rule_def)
qed

text \<open>The conditions of a second rule when the flags set by a first one count for it.\<close>

definition borrowing :: "rule_env \<Rightarrow> 'a abstractDefaultRule \<Rightarrow> 'b abstractDefaultRule \<Rightarrow> InboundContext \<Rightarrow> bool" where
  "borrowing env r1 r2 c \<longleftrightarrow> every env (items r2) c \<and>
     (sourceAddressItems r2 \<noteq> [] \<longrightarrow> any env (sourceAddressItems r1 @ sourceAddressItems r2) c) \<and>
     (sourcePortItems r2 \<noteq> [] \<longrightarrow> any env (sourcePortItems r1 @ sourcePortItems r2) c) \<and>
     (destinationAddressItems r2 \<noteq> [] \<or>
        \<not> IgnoreDestinationIPCIDRMatch c \<and> destinationIPCIDRItems r2 \<noteq> [] \<longrightarrow>
        dest_any env r1 c \<or> dest_any env r2 c) \<and>
     (destinationPortItems r2 \<noteq> [] \<longrightarrow> any env (destinationPortItems r1 @ destinationPortItems r2) c)"

text \<open>
  The rules of a rule set share the cache flags: after a first rule that does not match, a
  second one takes every group as matched in which an item of the first matched.  So a rule set
  can match although none of its rules does; the flags are not reset between the rules.
\<close>

theorem rule_set_shares_flags:
  assumes "plain_rule r1" and "plain_rule r2" and "allItems r1 \<noteq> []" and "allItems r2 \<noteq> []"
    and "\<not> invert r1" and "\<not> invert r2" and "lrs_rules s = [DefaultRule r1, DefaultRule r2]"
  shows "fst (LocalRuleSet_Match L env s (ResetRuleCache c)) \<longleftrightarrow>
     default_formula env r1 (ResetRuleCache c) \<or> borrowing env r1 r2 (ResetRuleCache c)"
proof -
  let ?c = "ResetRuleCache c"
  let ?g = "snd (abstractDefaultRule_Match env r1 ?c)"
  have p: "plain_groups r1" using assms(1) by (simp add: plain_rule_def)
  have "?g = (match_groups env r1 ?c)\<lparr>DidMatch := DidMatch ?c \<or> tested env r1 ?c \<or> items r1 \<noteq> []\<rparr>"
    by (rule abstractDefaultRule_Match_plain(2) [OF assms(1,3)])
  note ag = after_groups [OF p fresh_Reset [of c], where env = env
      and d = "DidMatch ?c \<or> tested env r1 ?c \<or> items r1 \<noteq> []", folded this]
  have "conds env r1 ?c \<longleftrightarrow> default_formula env r1 ?c"
    using fresh_Reset [of c] assms(5)
    by (auto simp: conds_def default_formula_def decides_def fresh_def dest_any_def)
  then have r1: "fst (abstractDefaultRule_Match env r1 ?c) = default_formula env r1 ?c"
    using abstractDefaultRule_Match_plain(1) [OF assms(1,3), of env ?c] assms(5) by auto
  have "fst (abstractDefaultRule_Match env r2 ?g) = conds env r2 ?g"
    using abstractDefaultRule_Match_plain(1) [OF assms(2,4), of env ?g] assms(6) by auto
  also have "\<dots> = borrowing env r1 r2 ?c"
    by (auto simp: conds_def borrowing_def ag)
  finally show ?thesis
    using r1 assms(7) by (auto simp: LocalRuleSet_Match_def split: prod.split bool.split)
qed

theorem rule_set_shares_flags_witness:
  "fst (LocalRuleSet_Match loops_ref demo_rule_env (demo_set [port_rule 1000 80, port_rule 2000 443])
      (demo_ctx 1000 443)) \<and>
   \<not> fst (abstractDefaultRule_Match demo_rule_env (port_rule 1000 80) (demo_ctx 1000 443)) \<and>
   \<not> fst (abstractDefaultRule_Match demo_rule_env (port_rule 2000 443) (demo_ctx 1000 443))"
proof -
  have "borrowing demo_rule_env (port_rule 1000 80) (port_rule 2000 443) (demo_ctx 1000 443)"
    by (simp add: borrowing_def demo_eval)
  then have "fst (LocalRuleSet_Match loops_ref demo_rule_env (demo_set [port_rule 1000 80, port_rule 2000 443])
      (demo_ctx 1000 443))"
    using rule_set_shares_flags [of "port_rule 1000 80" "port_rule 2000 443"
        "demo_set [port_rule 1000 80, port_rule 2000 443]" loops_ref demo_rule_env "demo_ctx 1000 443"]
    by (simp add: demo_set_def)
  moreover have "\<not> default_formula demo_rule_env (port_rule 1000 80) (demo_ctx 1000 443)"
    "\<not> default_formula demo_rule_env (port_rule 2000 443) (demo_ctx 1000 443)"
    by (simp_all add: demo_eval)
  ultimately show ?thesis by (simp add: default_rule_decision)
qed

end
