(* ===== verification/Netip.thy ===== *)
theory Netip
  imports Rule_Items
begin

text \<open>
  What the sources use of \<open>net/netip\<close> and \<open>encoding/binary\<close>: the successor of an address, the
  prefix that contains an address, big-endian encodings; and the binary form of the fakeip
  metadata built on them (\<open>core/adapter/fakeip_metadata.go\<close>).  A byte slice is a \<open>string\<close>.
\<close>

unbundle bit_operations_syntax

section \<open>Big-endian numbers\<close>

primrec be_bytes :: "nat \<Rightarrow> nat \<Rightarrow> string" where
  "be_bytes 0 v = []"
| "be_bytes (Suc n) v = be_bytes n (v div 256) @ [char_of (v mod 256)]"

definition be_value :: "string \<Rightarrow> nat" where
  "be_value bs = foldl (\<lambda>v c. v * 256 + of_char c) 0 bs"

lemma length_be_bytes [simp]: "length (be_bytes n v) = n"
  by (induction n arbitrary: v) auto

lemma be_value_bytes: "v < 256 ^ n \<Longrightarrow> be_value (be_bytes n v) = v"
proof (induction n arbitrary: v)
  case 0
  then show ?case by (simp add: be_value_def)
next
  case (Suc n)
  from Suc.prems have "v div 256 < 256 ^ n" by (simp add: less_mult_imp_div_less mult.commute)
  from Suc.IH [OF this] show ?case by (simp add: be_value_def)
qed

lemma be_bytes_inject:
  assumes "v < 256 ^ n" and "w < 256 ^ n"
  shows "be_bytes n v = be_bytes n w \<longleftrightarrow> v = w"
  using be_value_bytes [OF assms(1)] be_value_bytes [OF assms(2)] by metis

lemma unat_bound: "unat (w :: 'a::len word) < 2 ^ LENGTH('a)"
  by (rule unsigned_less)

lemma be_value_word16: "be_value (be_bytes 2 (unat (w :: 16 word))) = unat w"
  using unat_bound [of w] by (intro be_value_bytes) simp

lemma be_value_word32: "be_value (be_bytes 4 (unat (w :: 32 word))) = unat w"
  using unat_bound [of w] by (intro be_value_bytes) simp

lemma be_value_word64: "be_value (be_bytes 8 (unat (w :: 64 word))) = unat w"
  using unat_bound [of w] by (intro be_value_bytes) simp

lemma be_value_word128: "be_value (be_bytes 16 (unat (w :: 128 word))) = unat w"
  using unat_bound [of w] by (intro be_value_bytes) simp

lemmas be_value_word = be_value_word16 be_value_word32 be_value_word64 be_value_word128

section \<open>Addresses\<close>

definition addr_Is4 :: "addr \<Rightarrow> bool" where
  "addr_Is4 a = (case a of Addr4 _ \<Rightarrow> True | _ \<Rightarrow> False)"

fun addr_BitLen :: "addr \<Rightarrow> nat" where
  "addr_BitLen AddrNone = 0"
| "addr_BitLen (Addr4 _) = 32"
| "addr_BitLen (Addr6 _ _) = 128"

fun addr_withoutZone :: "addr \<Rightarrow> addr" where
  "addr_withoutZone (Addr6 w _) = Addr6 w []"
| "addr_withoutZone a = a"

text \<open>
  The successor; the last address of a family has none.  (Go gives the zero address a successor
  that is still not valid; it is represented by the zero address.)
\<close>

fun addr_Next :: "addr \<Rightarrow> addr" where
  "addr_Next AddrNone = AddrNone"
| "addr_Next (Addr4 w) = (if w + 1 = 0 then AddrNone else Addr4 (w + 1))"
| "addr_Next (Addr6 w z) = (if w + 1 = 0 then AddrNone else Addr6 (w + 1) z)"

fun addr_AsSlice :: "addr \<Rightarrow> string" where
  "addr_AsSlice AddrNone = []"
| "addr_AsSlice (Addr4 w) = be_bytes 4 (unat w)"
| "addr_AsSlice (Addr6 w _) = be_bytes 16 (unat w)"

fun addr_MarshalBinary :: "addr \<Rightarrow> string" where
  "addr_MarshalBinary AddrNone = []"
| "addr_MarshalBinary (Addr4 w) = be_bytes 4 (unat w)"
| "addr_MarshalBinary (Addr6 w z) = be_bytes 16 (unat w) @ z"

definition addr_UnmarshalBinary :: "string \<Rightarrow> go_error + addr" where
  "addr_UnmarshalBinary b =
     (if length b = 0 then Inr AddrNone
      else if length b = 4 then Inr (Addr4 (word_of_nat (be_value b)))
      else if length b = 16 then Inr (Addr6 (word_of_nat (be_value b)) [])
      else if length b > 16 then Inr (Addr6 (word_of_nat (be_value (take 16 b))) (drop 16 b))
      else Inl (EForeign ''unexpected slice size''))"

lemma addr_Unmarshal_Marshal: "addr_UnmarshalBinary (addr_MarshalBinary a) = Inr a"
  by (cases a) (auto simp: addr_UnmarshalBinary_def be_value_word)

lemma addr_AsSlice_inject:
  "addr_withoutZone a = a \<Longrightarrow> addr_withoutZone b = b \<Longrightarrow> addr_AsSlice a = addr_AsSlice b \<longleftrightarrow> a = b"
proof (cases a; cases b)
  fix v w assume "a = Addr4 v" and "b = Addr4 w"
  then show ?thesis using unat_bound [of v] unat_bound [of w] by (simp add: be_bytes_inject word_unat_eq_iff)
next
  fix v w y z
  assume "a = Addr6 v y" and "b = Addr6 w z" and "addr_withoutZone a = a" and "addr_withoutZone b = b"
  then show ?thesis using unat_bound [of v] unat_bound [of w] by (simp add: be_bytes_inject word_unat_eq_iff)
qed (auto dest: arg_cong [where f = length])

section \<open>Prefixes\<close>

text \<open>\<open>netip.Prefix\<close>: the zero value and everything with \<open>bitsPlusOne\<close> 0 is not valid.\<close>

record Prefix =
  pf_ip :: addr
  pf_bitsPlusOne :: nat

definition Prefix_zero :: Prefix where
  "Prefix_zero = \<lparr>pf_ip = AddrNone, pf_bitsPlusOne = 0\<rparr>"

definition PrefixFrom :: "addr \<Rightarrow> nat \<Rightarrow> Prefix" where
  "PrefixFrom a bits =
     \<lparr>pf_ip = addr_withoutZone a,
      pf_bitsPlusOne = (if a \<noteq> AddrNone \<and> bits \<le> addr_BitLen a then bits + 1 else 0)\<rparr>"

definition Prefix_IsValid :: "Prefix \<Rightarrow> bool" where
  "Prefix_IsValid p = (pf_bitsPlusOne p > 0)"

definition Prefix_Contains :: "Prefix \<Rightarrow> addr \<Rightarrow> bool" where
  "Prefix_Contains p a =
     (Prefix_IsValid p \<and>
      (case (pf_ip p, a) of
         (Addr4 v, Addr4 w) \<Rightarrow> drop_bit (32 - (pf_bitsPlusOne p - 1)) (w XOR v) = 0
       | (Addr6 v _, Addr6 w z) \<Rightarrow> z = [] \<and> drop_bit (128 - (pf_bitsPlusOne p - 1)) (w XOR v) = 0
       | _ \<Rightarrow> False))"

text \<open>\<open>Bits\<close> of a prefix that is not valid is -1, which is the byte 255.\<close>

definition Prefix_MarshalBinary :: "Prefix \<Rightarrow> string" where
  "Prefix_MarshalBinary p =
     addr_MarshalBinary (addr_withoutZone (pf_ip p)) @
     [char_of (if Prefix_IsValid p then pf_bitsPlusOne p - 1 else 255 :: nat)]"

definition Prefix_UnmarshalBinary :: "string \<Rightarrow> go_error + Prefix" where
  "Prefix_UnmarshalBinary b =
     (if b = [] then Inl (EForeign ''unexpected slice size'')
      else case addr_UnmarshalBinary (butlast b) of
        Inl e \<Rightarrow> Inl e
      | Inr a \<Rightarrow> Inr (PrefixFrom a (of_char (last b))))"

text \<open>The prefixes \<open>PrefixFrom\<close> makes, which are all a program can get.\<close>

definition Prefix_wf :: "Prefix \<Rightarrow> bool" where
  "Prefix_wf p = (addr_withoutZone (pf_ip p) = pf_ip p \<and>
     pf_bitsPlusOne p \<le> (if pf_ip p = AddrNone then 0 else addr_BitLen (pf_ip p) + 1))"

lemma addr_withoutZone_idem [simp]: "addr_withoutZone (addr_withoutZone a) = addr_withoutZone a"
  by (cases a) auto

lemma addr_BitLen_withoutZone [simp]: "addr_BitLen (addr_withoutZone a) = addr_BitLen a"
  by (cases a) auto

lemma addr_withoutZone_None [simp]: "addr_withoutZone a = AddrNone \<longleftrightarrow> a = AddrNone"
  by (cases a) auto

lemma PrefixFrom_wf [simp]: "Prefix_wf (PrefixFrom a n)"
  by (simp add: Prefix_wf_def PrefixFrom_def)

lemma Prefix_wf_zero [simp]: "Prefix_wf Prefix_zero"
  by (simp add: Prefix_wf_def Prefix_zero_def)

lemma addr_BitLen_le: "addr_BitLen a \<le> 128"
  by (cases a) auto

lemma Prefix_Unmarshal_Marshal:
  assumes "Prefix_wf p"
  shows "Prefix_UnmarshalBinary (Prefix_MarshalBinary p) = Inr p"
proof -
  have "pf_bitsPlusOne p \<le> 129"
    using assms addr_BitLen_le [of "pf_ip p"] by (auto simp: Prefix_wf_def split: if_splits)
  then have "PrefixFrom (pf_ip p) (of_char (char_of
      (if Prefix_IsValid p then pf_bitsPlusOne p - 1 else 255 :: nat))) = p"
    using assms addr_BitLen_le [of "pf_ip p"]
    by (cases p) (auto simp: PrefixFrom_def Prefix_wf_def Prefix_IsValid_def split: if_splits)
  with assms show ?thesis
    by (simp add: Prefix_UnmarshalBinary_def Prefix_MarshalBinary_def addr_Unmarshal_Marshal
        Prefix_wf_def)
qed

section \<open>The fakeip metadata\<close>

record FakeIPMetadata =
  md_Inet4Range :: Prefix
  md_Inet6Range :: Prefix
  md_Inet4Current :: addr
  md_Inet6Current :: addr

text \<open>One element: its length in two bytes, wrapped around at 65536, and its bytes.\<close>

definition md_element :: "string \<Rightarrow> string" where
  "md_element data = be_bytes 2 (length data mod 2 ^ 16) @ data"

definition FakeIPMetadata_MarshalBinary :: "FakeIPMetadata \<Rightarrow> string" where
  "FakeIPMetadata_MarshalBinary m =
     concat (map md_element
       [Prefix_MarshalBinary (md_Inet4Range m), Prefix_MarshalBinary (md_Inet6Range m),
        addr_MarshalBinary (md_Inet4Current m), addr_MarshalBinary (md_Inet6Current m)])"

text \<open>
  Reading one element with its decoder.  \<open>common.Must\<close> panics when the length is cut off; a
  cut-off element is an error.
\<close>

definition read_element ::
    "(string \<Rightarrow> go_error + 'a) \<Rightarrow> string \<Rightarrow> ('a \<times> string) res" where
  "read_element unmarshal r =
     (if length r < 2 then Panic ''unexpected EOF''
      else
        let len = be_value (take 2 r); rest = drop 2 r in
        if length rest < len then Err (EForeign ''unexpected EOF'')
        else case unmarshal (take len rest) of
          Inl e \<Rightarrow> Err e
        | Inr x \<Rightarrow> Ok (x, drop len rest))"

definition FakeIPMetadata_UnmarshalBinary :: "string \<Rightarrow> FakeIPMetadata res" where
  "FakeIPMetadata_UnmarshalBinary data =
     bindR (read_element Prefix_UnmarshalBinary data) (\<lambda>(p4, r1).
     bindR (read_element Prefix_UnmarshalBinary r1) (\<lambda>(p6, r2).
     bindR (read_element addr_UnmarshalBinary r2) (\<lambda>(c4, r3).
     bindR (read_element addr_UnmarshalBinary r3) (\<lambda>(c6, r4).
       Ok \<lparr>md_Inet4Range = p4, md_Inet6Range = p6, md_Inet4Current = c4, md_Inet6Current = c6\<rparr>))))"

lemma read_element_append:
  assumes "length data < 2 ^ 16" and "unmarshal data = Inr x"
  shows "read_element unmarshal (md_element data @ r) = Ok (x, r)"
proof -
  have "be_value (be_bytes 2 (length data)) = length data"
    using assms(1) by (intro be_value_bytes) simp
  with assms show ?thesis by (simp add: read_element_def md_element_def Let_def)
qed

lemma length_addr_Marshal: "length (addr_MarshalBinary (addr_withoutZone a)) \<le> 16"
  by (cases a) auto

lemma length_Prefix_Marshal: "length (Prefix_MarshalBinary p) < 2 ^ 16"
  using length_addr_Marshal [of "pf_ip p"] by (simp add: Prefix_MarshalBinary_def)

text \<open>
  The zones must fit: an address whose zone has 65520 bytes or more would be written with a
  wrapped length.
\<close>

definition FakeIPMetadata_wf :: "FakeIPMetadata \<Rightarrow> bool" where
  "FakeIPMetadata_wf m =
     (Prefix_wf (md_Inet4Range m) \<and> Prefix_wf (md_Inet6Range m) \<and>
      length (addr_MarshalBinary (md_Inet4Current m)) < 2 ^ 16 \<and>
      length (addr_MarshalBinary (md_Inet6Current m)) < 2 ^ 16)"

lemma FakeIPMetadata_Unmarshal_Marshal:
  assumes "FakeIPMetadata_wf m"
  shows "FakeIPMetadata_UnmarshalBinary (FakeIPMetadata_MarshalBinary m @ r) = Ok m"
  using assms
  by (simp add: FakeIPMetadata_UnmarshalBinary_def FakeIPMetadata_MarshalBinary_def
      FakeIPMetadata_wf_def length_Prefix_Marshal [simplified] Prefix_Unmarshal_Marshal
      addr_Unmarshal_Marshal read_element_append [simplified])

end
