(* ===== verification/Dns_Message.thy ===== *)
theory Dns_Message
  imports Netip Adapter_Lifecycle
begin

text \<open>
  Messages of the domain name system as the sources read and write them (the structs of the
  package they come from, field by field), the error that carries a response code
  (\<open>core/dns/rcode.go\<close>), the options of a query (\<open>core/adapter/dns.go\<close>), the adapter that every
  transport embeds (\<open>core/dns/transport_adapter.go\<close>), the client subnet option
  (\<open>core/dns/extension_edns0_subnet.go\<close>) and the fixed responses of \<open>core/dns/client.go\<close>.
  A \<open>net.IP\<close> is a byte string.  Header bits that no modelled function touches are left out.
\<close>

section \<open>Messages\<close>

definition TypeA :: "16 word" where "TypeA = 1"
definition TypeCNAME :: "16 word" where "TypeCNAME = 5"
definition TypeAAAA :: "16 word" where "TypeAAAA = 28"
definition TypeOPT :: "16 word" where "TypeOPT = 41"
definition TypeHTTPS :: "16 word" where "TypeHTTPS = 65"
definition ClassINET :: "16 word" where "ClassINET = 1"
definition EDNS0SUBNET :: "16 word" where "EDNS0SUBNET = 8"
definition SVCB_IPV4HINT :: "16 word" where "SVCB_IPV4HINT = 4"
definition SVCB_IPV6HINT :: "16 word" where "SVCB_IPV6HINT = 6"

definition RcodeSuccess :: int where "RcodeSuccess = 0"
definition RcodeFormatError :: int where "RcodeFormatError = 1"
definition RcodeNameError :: int where "RcodeNameError = 3"
definition RcodeRefused :: int where "RcodeRefused = 5"

lemmas dns_types = TypeA_def TypeCNAME_def TypeAAAA_def TypeOPT_def TypeHTTPS_def ClassINET_def
lemmas rcodes = RcodeSuccess_def RcodeFormatError_def RcodeNameError_def RcodeRefused_def

record dns_Question =
  q_Name :: string
  q_Qtype :: "16 word"
  q_Qclass :: "16 word"

record RR_Header =
  h_Name :: string
  h_Rrtype :: "16 word"
  h_Class :: "16 word"
  h_Ttl :: "32 word"

record EDNS0_SUBNET =
  es_Code :: "16 word"
  es_Family :: "16 word"
  es_SourceNetmask :: "8 word"
  es_Address :: string

datatype edns0_option = OSubnet EDNS0_SUBNET | OOther "16 word" string

text \<open>A parameter of a service binding: the results of its methods \<open>Key\<close> and \<open>String\<close>.\<close>

record SVCBKeyValue =
  sv_Key :: "16 word"
  sv_String :: string

datatype rdata =
    RD_A string
  | RD_AAAA string
  | RD_CNAME string
  | RD_TXT "string list"
  | RD_MX "16 word" string
  | RD_SOA "32 word"
  | RD_HTTPS "SVCBKeyValue list"
  | RD_OPT "edns0_option list"
  | RD_Other string

record RR =
  rr_Hdr :: RR_Header
  rr_Data :: rdata

record dns_msg =
  msg_Id :: "16 word"
  msg_Response :: bool
  msg_Authoritative :: bool
  msg_RecursionDesired :: bool
  msg_RecursionAvailable :: bool
  msg_Truncated :: bool
  msg_Rcode :: int
  msg_Question :: "dns_Question list"
  msg_Answer :: "RR list"
  msg_Ns :: "RR list"
  msg_Extra :: "RR list"

definition dns_msg_zero :: dns_msg where
  "dns_msg_zero = \<lparr>msg_Id = 0, msg_Response = False, msg_Authoritative = False, msg_RecursionDesired = False,
     msg_RecursionAvailable = False, msg_Truncated = False, msg_Rcode = RcodeSuccess, msg_Question = [],
     msg_Answer = [], msg_Ns = [], msg_Extra = []\<rparr>"

definition rr_Ttl :: "RR \<Rightarrow> 32 word" where
  "rr_Ttl r = h_Ttl (rr_Hdr r)"

definition rr_set_Ttl :: "32 word \<Rightarrow> RR \<Rightarrow> RR" where
  "rr_set_Ttl t r = r\<lparr>rr_Hdr := (rr_Hdr r)\<lparr>h_Ttl := t\<rparr>\<rparr>"

text \<open>The three lists that the loops over all records of a message run through, in this order.\<close>

definition msg_records :: "dns_msg \<Rightarrow> RR list" where
  "msg_records m = msg_Answer m @ msg_Ns m @ msg_Extra m"

definition map_records :: "(RR \<Rightarrow> RR) \<Rightarrow> dns_msg \<Rightarrow> dns_msg" where
  "map_records f m = m\<lparr>msg_Answer := map f (msg_Answer m), msg_Ns := map f (msg_Ns m),
     msg_Extra := map f (msg_Extra m)\<rparr>"

lemma rr_Ttl_set [simp]: "rr_Ttl (rr_set_Ttl t r) = t"
  by (simp add: rr_Ttl_def rr_set_Ttl_def)

lemma rr_Data_set [simp]: "rr_Data (rr_set_Ttl t r) = rr_Data r"
  by (simp add: rr_set_Ttl_def)

lemma rr_set_set [simp]: "rr_set_Ttl t (rr_set_Ttl u r) = rr_set_Ttl t r"
  by (simp add: rr_set_Ttl_def)

lemma msg_records_map [simp]: "msg_records (map_records f m) = map f (msg_records m)"
  by (simp add: msg_records_def map_records_def)

lemma map_records_map_records [simp]: "map_records f (map_records g m) = map_records (\<lambda>r. f (g r)) m"
  by (simp add: map_records_def comp_def)

lemma map_records_simps [simp]:
  "msg_Id (map_records f m) = msg_Id m" "msg_Rcode (map_records f m) = msg_Rcode m"
  "msg_Question (map_records f m) = msg_Question m" "msg_Answer (map_records f m) = map f (msg_Answer m)"
  "msg_Ns (map_records f m) = map f (msg_Ns m)" "msg_Extra (map_records f m) = map f (msg_Extra m)"
  by (simp_all add: map_records_def)

lemma map_records_cong:
  "(\<And>r. r \<in> set (msg_records m) \<Longrightarrow> f r = g r) \<Longrightarrow> map_records f m = map_records g m"
  by (simp add: map_records_def msg_records_def)

section \<open>The query options\<close>

definition DomainStrategyAsIS :: nat where "DomainStrategyAsIS = 0"
definition DomainStrategyPreferIPv4 :: nat where "DomainStrategyPreferIPv4 = 1"
definition DomainStrategyPreferIPv6 :: nat where "DomainStrategyPreferIPv6 = 2"
definition DomainStrategyIPv4Only :: nat where "DomainStrategyIPv4Only = 3"
definition DomainStrategyIPv6Only :: nat where "DomainStrategyIPv6Only = 4"

lemmas strategies = DomainStrategyAsIS_def DomainStrategyPreferIPv4_def DomainStrategyPreferIPv6_def
  DomainStrategyIPv4Only_def DomainStrategyIPv6Only_def

record DNSQueryOptions =
  qo_Transport :: "obj option"
  qo_Strategy :: nat
  qo_LookupStrategy :: nat
  qo_DisableCache :: bool
  qo_RewriteTTL :: "32 word option"
  qo_ClientSubnet :: prefix

definition DNSQueryOptions_zero :: DNSQueryOptions where
  "DNSQueryOptions_zero = \<lparr>qo_Transport = None, qo_Strategy = 0, qo_LookupStrategy = 0, qo_DisableCache = False,
     qo_RewriteTTL = None, qo_ClientSubnet = (AddrNone, 0)\<rparr>"

definition subnet_IsValid :: "prefix \<Rightarrow> bool" where
  "subnet_IsValid p = addr_IsValid (fst p)"

record DomainResolveOptions =
  dro_Server :: string
  dro_Strategy :: nat
  dro_DisableCache :: bool
  dro_RewriteTTL :: "32 word option"
  dro_ClientSubnet :: prefix

definition DNSQueryOptionsFrom ::
    "(string \<Rightarrow> obj option) \<Rightarrow> DomainResolveOptions option \<Rightarrow> go_error + DNSQueryOptions" where
  "DNSQueryOptionsFrom transport options =
     (case options of
        None \<Rightarrow> Inr DNSQueryOptions_zero
      | Some opt \<Rightarrow>
          (case transport (dro_Server opt) of
             None \<Rightarrow> Inl (ENew [AStr (''domain resolver not found: '' @ dro_Server opt)])
           | Some t \<Rightarrow> Inr \<lparr>qo_Transport = Some t, qo_Strategy = dro_Strategy opt, qo_LookupStrategy = 0,
               qo_DisableCache = dro_DisableCache opt, qo_RewriteTTL = dro_RewriteTTL opt,
               qo_ClientSubnet = dro_ClientSubnet opt\<rparr>))"

section \<open>The transport adapter\<close>

record TransportAdapter =
  ta_transportType :: string
  ta_transportTag :: string
  ta_dependencies :: "string list"
  ta_strategy :: nat
  ta_clientSubnet :: prefix

definition NewTransportAdapter :: "string \<Rightarrow> string \<Rightarrow> string list \<Rightarrow> TransportAdapter" where
  "NewTransportAdapter typ tag deps =
     \<lparr>ta_transportType = typ, ta_transportTag = tag, ta_dependencies = deps, ta_strategy = 0,
      ta_clientSubnet = (AddrNone, 0)\<rparr>"

text \<open>The options of a local and of a remote server, as far as the adapter reads them.\<close>

record LocalDNSServerOptions =
  lo_DomainResolver :: "DomainResolveOptions option"
  lo_LegacyStrategy :: nat
  lo_LegacyClientSubnet :: prefix

record RemoteDNSServerOptions = LocalDNSServerOptions +
  lo_LegacyAddressResolver :: string

definition resolver_dependency :: "('a LocalDNSServerOptions_scheme) \<Rightarrow> string list" where
  "resolver_dependency opt =
     (case lo_DomainResolver opt of
        Some r \<Rightarrow> if dro_Server r \<noteq> [] then [dro_Server r] else []
      | None \<Rightarrow> [])"

definition NewTransportAdapterWithLocalOptions ::
    "string \<Rightarrow> string \<Rightarrow> LocalDNSServerOptions \<Rightarrow> TransportAdapter" where
  "NewTransportAdapterWithLocalOptions typ tag opt =
     \<lparr>ta_transportType = typ, ta_transportTag = tag, ta_dependencies = resolver_dependency opt,
      ta_strategy = lo_LegacyStrategy opt, ta_clientSubnet = lo_LegacyClientSubnet opt\<rparr>"

definition NewTransportAdapterWithRemoteOptions ::
    "string \<Rightarrow> string \<Rightarrow> RemoteDNSServerOptions \<Rightarrow> TransportAdapter" where
  "NewTransportAdapterWithRemoteOptions typ tag opt =
     \<lparr>ta_transportType = typ, ta_transportTag = tag,
      ta_dependencies = resolver_dependency opt @
        (if lo_LegacyAddressResolver opt \<noteq> [] then [lo_LegacyAddressResolver opt] else []),
      ta_strategy = lo_LegacyStrategy opt, ta_clientSubnet = lo_LegacyClientSubnet opt\<rparr>"

section \<open>The client subnet option\<close>

text \<open>
  The search of \<open>setClientSubnet\<close>.  Both loop variables are assigned by every type assertion, also
  by one that fails: after the loop \<open>optRecord\<close> is nil unless the last record is an OPT record
  or the loop was left at a subnet option.  The result is the position of the record and that of
  the option.
\<close>

fun find_subnet :: "edns0_option list \<Rightarrow> nat \<Rightarrow> nat option" where
  "find_subnet [] j = None"
| "find_subnet (OSubnet _ # opts) j = Some j"
| "find_subnet (OOther _ _ # opts) j = find_subnet opts (Suc j)"

fun find_opt :: "RR list \<Rightarrow> nat \<Rightarrow> (nat \<times> nat option) option \<Rightarrow> (nat \<times> nat option) option" where
  "find_opt [] i found = found"
| "find_opt (r # rs) i found =
     (case rr_Data r of
        RD_OPT opts \<Rightarrow>
          (case find_subnet opts 0 of
             Some j \<Rightarrow> Some (i, Some j)
           | None \<Rightarrow> find_opt rs (Suc i) (Some (i, None)))
      | _ \<Rightarrow> find_opt rs (Suc i) None)"

definition subnet_option :: "prefix \<Rightarrow> EDNS0_SUBNET \<Rightarrow> EDNS0_SUBNET" where
  "subnet_option p s = s\<lparr>es_Family := (if addr_Is4 (fst p) then 1 else 2),
     es_SourceNetmask := word_of_nat (snd p), es_Address := addr_AsSlice (fst p)\<rparr>"

definition new_subnet :: EDNS0_SUBNET where
  "new_subnet = \<lparr>es_Code = EDNS0SUBNET, es_Family = 0, es_SourceNetmask = 0, es_Address = []\<rparr>"

fun set_option :: "prefix \<Rightarrow> nat option \<Rightarrow> edns0_option list \<Rightarrow> edns0_option list" where
  "set_option p None opts = opts @ [OSubnet (subnet_option p new_subnet)]"
| "set_option p (Some j) opts =
     opts[j := (case opts ! j of OSubnet s \<Rightarrow> OSubnet (subnet_option p s) | x \<Rightarrow> x)]"

text \<open>
  An OPT record that is there is changed in a deep copy of the message, a new one is appended to a
  shallow copy: the message of the caller is never changed.
\<close>

definition SetClientSubnet :: "dns_msg \<Rightarrow> prefix \<Rightarrow> dns_msg" where
  "SetClientSubnet message p =
     (case find_opt (msg_Extra message) 0 None of
        None \<Rightarrow> message\<lparr>msg_Extra := msg_Extra message @
          [\<lparr>rr_Hdr = \<lparr>h_Name = ''.'', h_Rrtype = TypeOPT, h_Class = 0, h_Ttl = 0\<rparr>,
            rr_Data = RD_OPT (set_option p None [])\<rparr>]\<rparr>
      | Some (i, j) \<Rightarrow>
          let r = msg_Extra message ! i in
          message\<lparr>msg_Extra := (msg_Extra message)[i := r\<lparr>rr_Data :=
            (case rr_Data r of RD_OPT opts \<Rightarrow> RD_OPT (set_option p j opts) | d \<Rightarrow> d)\<rparr>]\<rparr>)"

section \<open>Fixed responses\<close>

definition FixedResponseStatus :: "dns_msg \<Rightarrow> int \<Rightarrow> dns_msg" where
  "FixedResponseStatus message rcode =
     dns_msg_zero\<lparr>msg_Id := msg_Id message, msg_Response := True, msg_Authoritative := True,
       msg_RecursionDesired := True, msg_RecursionAvailable := True, msg_Rcode := rcode,
       msg_Question := msg_Question message\<rparr>"

definition fixed_header :: "16 word \<Rightarrow> dns_Question \<Rightarrow> dns_msg" where
  "fixed_header ident question =
     dns_msg_zero\<lparr>msg_Id := ident, msg_Response := True, msg_Authoritative := True,
       msg_RecursionDesired := True, msg_RecursionAvailable := True, msg_Rcode := RcodeSuccess,
       msg_Question := [question]\<rparr>"

definition fixed_rr :: "dns_Question \<Rightarrow> 16 word \<Rightarrow> 32 word \<Rightarrow> rdata \<Rightarrow> RR" where
  "fixed_rr question typ ttl d =
     \<lparr>rr_Hdr = \<lparr>h_Name = q_Name question, h_Rrtype = typ, h_Class = ClassINET, h_Ttl = ttl\<rparr>, rr_Data = d\<rparr>"

fun addr_Is6 :: "addr \<Rightarrow> bool" where
  "addr_Is6 (Addr6 _ _) = True"
| "addr_Is6 _ = False"

fun fixed_answers :: "dns_Question \<Rightarrow> 32 word \<Rightarrow> addr list \<Rightarrow> RR list" where
  "fixed_answers question ttl [] = []"
| "fixed_answers question ttl (a # as) =
     (if addr_Is4 a \<and> q_Qtype question = TypeA
      then [fixed_rr question TypeA ttl (RD_A (addr_AsSlice a))]
      else if addr_Is6 a \<and> q_Qtype question = TypeAAAA
      then [fixed_rr question TypeAAAA ttl (RD_AAAA (addr_AsSlice a))]
      else []) @ fixed_answers question ttl as"

definition FixedResponse :: "16 word \<Rightarrow> dns_Question \<Rightarrow> addr list \<Rightarrow> 32 word \<Rightarrow> dns_msg" where
  "FixedResponse ident question addresses ttl =
     (fixed_header ident question)\<lparr>msg_Answer := fixed_answers question ttl addresses\<rparr>"

definition FixedResponseCNAME :: "16 word \<Rightarrow> dns_Question \<Rightarrow> string \<Rightarrow> 32 word \<Rightarrow> dns_msg" where
  "FixedResponseCNAME ident question record' ttl =
     (fixed_header ident question)\<lparr>msg_Answer := [fixed_rr question TypeCNAME ttl (RD_CNAME record')]\<rparr>"

text \<open>The header of the TXT and of the MX records says A.\<close>

definition FixedResponseTXT :: "16 word \<Rightarrow> dns_Question \<Rightarrow> string list \<Rightarrow> 32 word \<Rightarrow> dns_msg" where
  "FixedResponseTXT ident question records ttl =
     (fixed_header ident question)\<lparr>msg_Answer := [fixed_rr question TypeA ttl (RD_TXT records)]\<rparr>"

definition FixedResponseMX :: "16 word \<Rightarrow> dns_Question \<Rightarrow> (16 word \<times> string) list \<Rightarrow> 32 word \<Rightarrow> dns_msg" where
  "FixedResponseMX ident question records ttl =
     (fixed_header ident question)\<lparr>msg_Answer :=
       map (\<lambda>(pref, host). fixed_rr question TypeA ttl (RD_MX pref host)) records\<rparr>"

section \<open>Properties\<close>

lemma find_subnet_range: "find_subnet opts k = Some j \<Longrightarrow> k \<le> j \<and> j < k + length opts \<and> (\<exists>s. opts ! (j - k) = OSubnet s)"
proof (induction opts k rule: find_subnet.induct)
  case (3 c d opts k)
  then have "Suc k \<le> j" "j < Suc k + length opts" "\<exists>s. opts ! (j - Suc k) = OSubnet s" by auto
  moreover from \<open>Suc k \<le> j\<close> have "j - k = Suc (j - Suc k)" by simp
  ultimately show ?case by auto
qed auto

text \<open>What the search finds is an OPT record of the list, with the option at the position given.\<close>

definition opt_at :: "RR list \<Rightarrow> nat \<times> nat option \<Rightarrow> bool" where
  "opt_at rs p \<longleftrightarrow> fst p < length rs \<and> (\<exists>opts. rr_Data (rs ! fst p) = RD_OPT opts \<and>
     (case snd p of None \<Rightarrow> find_subnet opts 0 = None
      | Some j \<Rightarrow> j < length opts \<and> (\<exists>s. opts ! j = OSubnet s)))"

lemma find_opt_sound_aux:
  assumes "find_opt rs (length done') found = Some p" and "\<And>q. found = Some q \<Longrightarrow> opt_at (done' @ rs) q"
  shows "opt_at (done' @ rs) p"
  using assms
proof (induction rs arbitrary: done' found)
  case (Cons r rs)
  have IH: "find_opt rs (Suc (length done')) f = Some p \<Longrightarrow> (\<And>q. f = Some q \<Longrightarrow> opt_at (done' @ r # rs) q) \<Longrightarrow>
      opt_at (done' @ r # rs) p" for f
    using Cons.IH [of "done' @ [r]" f] by simp
  show ?case
  proof (cases "rr_Data r")
    case (RD_OPT opts)
    show ?thesis
    proof (cases "find_subnet opts 0")
      case None
      then have "opt_at (done' @ r # rs) (length done', None)" using RD_OPT by (simp add: opt_at_def)
      with Cons.prems(1) None RD_OPT show ?thesis by (intro IH [of "Some (length done', None)"]) auto
    next
      case (Some j)
      with find_subnet_range [OF Some] Cons.prems(1) RD_OPT show ?thesis by (auto simp: opt_at_def)
    qed
  qed (use Cons.prems(1) in \<open>auto intro: IH [of None]\<close>)
qed simp

lemma find_opt_sound: "find_opt rs 0 None = Some p \<Longrightarrow> opt_at rs p"
  using find_opt_sound_aux [of rs "[]" None p] by simp

definition has_subnet :: "prefix \<Rightarrow> RR \<Rightarrow> bool" where
  "has_subnet p r \<longleftrightarrow> (\<exists>opts s. rr_Data r = RD_OPT opts \<and> OSubnet s \<in> set opts \<and>
     es_Address s = addr_AsSlice (fst p) \<and> es_SourceNetmask s = word_of_nat (snd p) \<and>
     es_Family s = (if addr_Is4 (fst p) then 1 else 2))"

lemma set_option_has:
  "(\<And>i. j = Some i \<Longrightarrow> i < length opts \<and> (\<exists>s. opts ! i = OSubnet s)) \<Longrightarrow>
   rr_Data r = RD_OPT (set_option p j opts) \<Longrightarrow> has_subnet p r"
proof (cases j)
  case (Some i)
  assume a: "\<And>i. j = Some i \<Longrightarrow> i < length opts \<and> (\<exists>s. opts ! i = OSubnet s)" and r: "rr_Data r = RD_OPT (set_option p j opts)"
  from a [OF Some] obtain s where s: "opts ! i = OSubnet s" "i < length opts" by blast
  then have "OSubnet (subnet_option p s) \<in> set (set_option p j opts)" using Some by (simp add: set_update_memI)
  with r show ?thesis by (force simp: has_subnet_def subnet_option_def)
qed (force simp: has_subnet_def subnet_option_def)

text \<open>The message that is sent carries the subnet, and differs from the given one in that only.\<close>

lemma SetClientSubnet_sets:
  "\<exists>r \<in> set (msg_Extra (SetClientSubnet m p)). has_subnet p r"
proof (cases "find_opt (msg_Extra m) 0 None")
  case None
  then show ?thesis by (auto simp: SetClientSubnet_def has_subnet_def subnet_option_def)
next
  case (Some q)
  obtain i j where q: "q = (i, j)" by fastforce
  from find_opt_sound [OF Some] obtain opts where o1: "i < length (msg_Extra m)" "rr_Data (msg_Extra m ! i) = RD_OPT opts"
    and o2: "\<And>n. j = Some n \<Longrightarrow> n < length opts \<and> (\<exists>s. opts ! n = OSubnet s)"
    by (auto simp: opt_at_def q split: option.splits)
  let ?r = "(msg_Extra m ! i)\<lparr>rr_Data := RD_OPT (set_option p j opts)\<rparr>"
  have "?r \<in> set (msg_Extra (SetClientSubnet m p))"
    using Some o1 by (simp add: SetClientSubnet_def q set_update_memI)
  moreover have "has_subnet p ?r" using o2 by (intro set_option_has [of j opts]) auto
  ultimately show ?thesis by blast
qed

lemma SetClientSubnet_keeps:
  "msg_Id (SetClientSubnet m p) = msg_Id m" "msg_Question (SetClientSubnet m p) = msg_Question m"
  "msg_Answer (SetClientSubnet m p) = msg_Answer m" "msg_Ns (SetClientSubnet m p) = msg_Ns m"
  by (auto simp: SetClientSubnet_def Let_def split: option.splits)

text \<open>An OPT record that is not the last record and has no subnet option is not found: a second one is added.\<close>

lemma SetClientSubnet_second_OPT:
  assumes "msg_Extra m = [r, s]" and "rr_Data r = RD_OPT []" and "\<forall>opts. rr_Data s \<noteq> RD_OPT opts"
  shows "length (filter (\<lambda>r. \<exists>opts. rr_Data r = RD_OPT opts) (msg_Extra (SetClientSubnet m p))) = 2"
proof -
  have "find_opt (msg_Extra m) 0 None = None" using assms by (cases "rr_Data s") auto
  then show ?thesis using assms by (simp add: SetClientSubnet_def)
qed

lemma fixed_answers_map:
  "q_Qtype q = TypeA \<Longrightarrow> \<forall>a \<in> set as. addr_Is4 a \<Longrightarrow>
     fixed_answers q ttl as = map (\<lambda>a. fixed_rr q TypeA ttl (RD_A (addr_AsSlice a))) as"
  "q_Qtype q = TypeAAAA \<Longrightarrow> \<forall>a \<in> set as. addr_Is6 a \<Longrightarrow>
     fixed_answers q ttl as = map (\<lambda>a. fixed_rr q TypeAAAA ttl (RD_AAAA (addr_AsSlice a))) as"
  by (induction as) (auto simp: dns_types)

end
