(* ===== verification/Rule_Action.thy ===== *)
theory Rule_Action
  imports Rule_Items Dns_Message
begin

text \<open>
  The actions of rules (\<open>core/route/rule/rule_action.go\<close>): how they are built from the options
  (\<open>core/option/rule_action.go\<close>), how they print, the flood protection of \<open>reject\<close>, and the
  records a \<open>predefined\<close> DNS answer is made of.
\<close>

section \<open>Foreign code\<close>

record 'd action_env =
  M_ParseSocksaddrHostPort :: "string \<Rightarrow> 16 word \<Rightarrow> Socksaddr"
  Socksaddr_IsValid :: "Socksaddr \<Rightarrow> bool"
  Socksaddr_AddrString :: "Socksaddr \<Rightarrow> string"
  dialer_New :: "'d \<Rightarrow> go_error + nat"
  Descriptions_of :: "'d \<Rightarrow> string list"
  Duration_String :: "int \<Rightarrow> string"
  Prefix_String :: "prefix \<Rightarrow> string"
  Rcode_String :: "int \<Rightarrow> string"
  A_ToString :: "go_any list \<Rightarrow> string"

section \<open>Options\<close>

record RawRouteOptions =
  ro_OverrideAddress :: string
  ro_OverridePort :: "16 word"
  ro_NetworkStrategy :: "NetworkStrategy option"
  ro_FallbackDelay :: "32 word"
  ro_UDPDisableDomainUnmapping :: bool
  ro_UDPConnect :: bool
  ro_UDPTimeout :: int
  ro_TLSFragment :: bool
  ro_TLSFragmentFallbackDelay :: int
  ro_TLSRecordFragment :: bool

record ResolveOptions =
  rs_Server :: string
  rs_Strategy :: nat
  rs_DisableCache :: bool
  rs_RewriteTTL :: "32 word option"
  rs_ClientSubnet :: prefix

record 'd RuleActionOptions =
  ao_Action :: string
  ao_Outbound :: string
  ao_RouteOptions :: RawRouteOptions
  ao_RouteOptionsOptions :: RawRouteOptions
  ao_DirectOptions :: 'd
  ao_RejectMethod :: string
  ao_RejectNoDrop :: bool
  ao_Sniffer :: "string list"
  ao_SniffTimeout :: int
  ao_ResolveOptions :: ResolveOptions

section \<open>Actions\<close>

record RuleActionRouteOptions =
  OverrideAddress :: Socksaddr
  OverridePort :: "16 word"
  NetworkStrategy :: "NetworkStrategy option"
  NetworkType :: "InterfaceType list"
  FallbackNetworkType :: "InterfaceType list"
  FallbackDelay :: int
  UDPDisableDomainUnmapping :: bool
  UDPConnect :: bool
  UDPTimeout :: int
  TLSFragment :: bool
  TLSFragmentFallbackDelay :: int
  TLSRecordFragment :: bool

record RuleActionReject =
  Method :: string
  NoDrop :: bool
  dropCounter :: "int list"

datatype StreamSniffer = TLSClientHello | HTTPHost | StreamDomainNameQuery | BitTorrent | SSH | RDP

datatype PacketSniffer =
  QUICClientHello | DomainNameQuery | STUNMessage | UTP | UDPTracker | DTLSRecord | NTP

record RuleActionSniff =
  SnifferNames :: "string list"
  StreamSniffers :: "StreamSniffer list"
  PacketSniffers :: "PacketSniffer list"
  SniffTimeout :: int
  OverrideDestination :: bool

datatype RuleAction =
    RuleActionRoute string RuleActionRouteOptions
  | RuleActionRouteOptions RuleActionRouteOptions
  | RuleActionDirect nat string
  | RuleActionReject RuleActionReject
  | RuleActionHijackDNS
  | RuleActionSniff RuleActionSniff
  | RuleActionResolve ResolveOptions

fun RuleAction_Type :: "RuleAction \<Rightarrow> string" where
  "RuleAction_Type (RuleActionRoute _ _) = ''route''"
| "RuleAction_Type (RuleActionRouteOptions _) = ''route-options''"
| "RuleAction_Type (RuleActionDirect _ _) = ''direct''"
| "RuleAction_Type (RuleActionReject _) = ''reject''"
| "RuleAction_Type RuleActionHijackDNS = ''hijack-dns''"
| "RuleAction_Type (RuleActionSniff _) = ''sniff''"
| "RuleAction_Type (RuleActionResolve _) = ''resolve''"

text \<open>\<open>RuleActionSniff.build\<close>: the sniffers for the listed protocols, until an unknown name.\<close>

fun sniffers_of :: "string \<Rightarrow> (StreamSniffer list \<times> PacketSniffer list) option" where
  "sniffers_of name =
     (if name = ''tls'' then Some ([TLSClientHello], [])
      else if name = ''http'' then Some ([HTTPHost], [])
      else if name = ''quic'' then Some ([], [QUICClientHello])
      else if name = ''dns'' then Some ([StreamDomainNameQuery], [DomainNameQuery])
      else if name = ''stun'' then Some ([], [STUNMessage])
      else if name = ''bittorrent'' then Some ([BitTorrent], [UTP, UDPTracker])
      else if name = ''dtls'' then Some ([], [DTLSRecord])
      else if name = ''ssh'' then Some ([SSH], [])
      else if name = ''rdp'' then Some ([RDP], [])
      else if name = ''ntp'' then Some ([], [NTP])
      else None)"

fun build_sniffers :: "string list \<Rightarrow> RuleActionSniff \<Rightarrow> RuleActionSniff \<times> go_error option" where
  "build_sniffers [] r = (r, None)"
| "build_sniffers (n # ns) r =
     (case sniffers_of n of
        None \<Rightarrow> (r, Some (ENew [AStr ''unknown sniffer: '', AStr n]))
      | Some (ss, ps) \<Rightarrow>
          build_sniffers ns (r\<lparr>StreamSniffers := StreamSniffers r @ ss, PacketSniffers := PacketSniffers r @ ps\<rparr>))"

definition RuleActionSniff_build :: "RuleActionSniff \<Rightarrow> RuleActionSniff \<times> go_error option" where
  "RuleActionSniff_build r = build_sniffers (SnifferNames r) r"

text \<open>
  The two conversions of route options differ in the source: the one for \<open>route\<close> does not name
  the field \<open>UDPTimeout\<close>, which therefore is zero.
\<close>

definition route_options :: "'d action_env \<Rightarrow> RawRouteOptions \<Rightarrow> RuleActionRouteOptions" where
  "route_options env o' =
     \<lparr>OverrideAddress = M_ParseSocksaddrHostPort env (ro_OverrideAddress o') 0,
      OverridePort = ro_OverridePort o', NetworkStrategy = ro_NetworkStrategy o',
      NetworkType = [], FallbackNetworkType = [], FallbackDelay = uint (ro_FallbackDelay o'),
      UDPDisableDomainUnmapping = ro_UDPDisableDomainUnmapping o', UDPConnect = ro_UDPConnect o',
      UDPTimeout = 0, TLSFragment = ro_TLSFragment o',
      TLSFragmentFallbackDelay = ro_TLSFragmentFallbackDelay o',
      TLSRecordFragment = ro_TLSRecordFragment o'\<rparr>"

definition route_options_options :: "'d action_env \<Rightarrow> RawRouteOptions \<Rightarrow> RuleActionRouteOptions" where
  "route_options_options env o' =
     \<lparr>OverrideAddress = M_ParseSocksaddrHostPort env (ro_OverrideAddress o') 0,
      OverridePort = ro_OverridePort o', NetworkStrategy = ro_NetworkStrategy o',
      NetworkType = [], FallbackNetworkType = [], FallbackDelay = uint (ro_FallbackDelay o'),
      UDPDisableDomainUnmapping = ro_UDPDisableDomainUnmapping o', UDPConnect = ro_UDPConnect o',
      UDPTimeout = ro_UDPTimeout o', TLSFragment = ro_TLSFragment o',
      TLSFragmentFallbackDelay = ro_TLSFragmentFallbackDelay o',
      TLSRecordFragment = ro_TLSRecordFragment o'\<rparr>"

definition NewRuleAction :: "'d action_env \<Rightarrow> 'd RuleActionOptions \<Rightarrow> RuleAction option res" where
  "NewRuleAction env a =
     (if ao_Action a = [] then Ok None
      else if ao_Action a = ''route''
      then Ok (Some (RuleActionRoute (ao_Outbound a) (route_options env (ao_RouteOptions a))))
      else if ao_Action a = ''route-options''
      then Ok (Some (RuleActionRouteOptions (route_options_options env (ao_RouteOptionsOptions a))))
      else if ao_Action a = ''direct''
      then (case dialer_New env (ao_DirectOptions a) of
              Inl e \<Rightarrow> Err e
            | Inr d \<Rightarrow>
                Ok (Some (RuleActionDirect d
                  (case Descriptions_of env (ao_DirectOptions a) of
                     [] \<Rightarrow> []
                   | [x] \<Rightarrow> A_ToString env [AStr ''('', AStr x, AStr '')'']
                   | [x, y] \<Rightarrow> A_ToString env [AStr ''('', AStr x, AStr '','', AStr y, AStr '')'']
                   | x # y # _ \<Rightarrow> A_ToString env [AStr ''('', AStr x, AStr '','', AStr y, AStr '',...)'']))))
      else if ao_Action a = ''reject''
      then Ok (Some (RuleActionReject \<lparr>Method = ao_RejectMethod a, NoDrop = ao_RejectNoDrop a, dropCounter = []\<rparr>))
      else if ao_Action a = ''hijack-dns'' then Ok (Some RuleActionHijackDNS)
      else if ao_Action a = ''sniff''
      then (case RuleActionSniff_build \<lparr>SnifferNames = ao_Sniffer a, StreamSniffers = [],
                   PacketSniffers = [], SniffTimeout = ao_SniffTimeout a, OverrideDestination = False\<rparr> of
              (r, Some e) \<Rightarrow> Err e
            | (r, None) \<Rightarrow> Ok (Some (RuleActionSniff r)))
      else if ao_Action a = ''resolve'' then Ok (Some (RuleActionResolve (ao_ResolveOptions a)))
      else Panic (A_ToString env [AStr ''unknown rule action: '', AStr (ao_Action a)]))"

section \<open>Printing\<close>

text \<open>
  \<open>Descriptions\<close>.  A nil slice of interface types is the empty list here.  The line for the
  fallback types prints \<open>NetworkType\<close> in the source.
\<close>

definition Descriptions :: "'d action_env \<Rightarrow> (NetworkStrategy \<Rightarrow> string) \<Rightarrow> RuleActionRouteOptions \<Rightarrow> string list" where
  "Descriptions env strategy r =
     (if Socksaddr_IsValid env (OverrideAddress r)
      then [A_ToString env [AStr ''override-address='', AStr (Socksaddr_AddrString env (OverrideAddress r))]] else []) @
     (if OverridePort r > 0 then [A_ToString env [AStr ''override-port='', AInt (uint (OverridePort r))]] else []) @
     (case NetworkStrategy r of None \<Rightarrow> []
      | Some s \<Rightarrow> [A_ToString env [AStr ''network-strategy='', AStr (strategy s)]]) @
     (if NetworkType r \<noteq> []
      then [A_ToString env [AStr ''network-type='', AStr (strings_Join (map InterfaceType_String (NetworkType r)) '','')]]
      else []) @
     (if FallbackNetworkType r \<noteq> []
      then [A_ToString env [AStr (''fallback-network-type='' @ strings_Join (map InterfaceType_String (NetworkType r)) '','')]]
      else []) @
     (if FallbackDelay r > 0
      then [A_ToString env [AStr ''fallback-delay='', AStr (Duration_String env (FallbackDelay r))]] else []) @
     (if UDPDisableDomainUnmapping r then [''udp-disable-domain-unmapping''] else []) @
     (if UDPConnect r then [''udp-connect''] else []) @
     (if UDPTimeout r > 0 then [''udp-timeout''] else []) @
     (if TLSFragment r then [''tls-fragment''] else []) @
     (if TLSFragmentFallbackDelay r > 0
      then [A_ToString env [AStr ''tls-fragment-fallback-delay='',
              AStr (Duration_String env (TLSFragmentFallbackDelay r))]] else []) @
     (if TLSRecordFragment r then [''tls-record-fragment''] else [])"

definition Resolve_String :: "'d action_env \<Rightarrow> (nat \<Rightarrow> string) \<Rightarrow> ResolveOptions \<Rightarrow> string" where
  "Resolve_String env strategy r =
     (let options =
        (if rs_Server r \<noteq> [] then [rs_Server r] else []) @
        (if rs_Strategy r \<noteq> 0 then [A_ToString env [AStr (strategy (rs_Strategy r))]] else []) @
        (if rs_DisableCache r then [''disable_cache''] else []) @
        (case rs_RewriteTTL r of None \<Rightarrow> []
         | Some t \<Rightarrow> [A_ToString env [AStr ''rewrite_ttl='', AInt (uint t)]]) @
        (if fst (rs_ClientSubnet r) \<noteq> AddrNone
         then [A_ToString env [AStr ''client_subnet='', AStr (Prefix_String env (rs_ClientSubnet r))]] else [])
      in if options = [] then ''resolve''
         else A_ToString env [AStr ''resolve('', AStr (strings_Join options '',''), AStr '')''])"

definition Sniff_String :: "'d action_env \<Rightarrow> RuleActionSniff \<Rightarrow> string" where
  "Sniff_String env r =
     (if SnifferNames r = [] \<and> SniffTimeout r = 0 then ''sniff''
      else if SnifferNames r \<noteq> [] \<and> SniffTimeout r = 0
      then A_ToString env [AStr ''sniff('', AStr (strings_Join (SnifferNames r) '',''), AStr '')'']
      else if SnifferNames r = [] \<and> SniffTimeout r > 0
      then A_ToString env [AStr ''sniff('', AStr (Duration_String env (SniffTimeout r)), AStr '')'']
      else A_ToString env [AStr ''sniff('', AStr (strings_Join (SnifferNames r) '',''), AStr '','',
             AStr (Duration_String env (SniffTimeout r)), AStr '')''])"

fun RuleAction_String ::
    "'d action_env \<Rightarrow> (NetworkStrategy \<Rightarrow> string) \<Rightarrow> (nat \<Rightarrow> string) \<Rightarrow> RuleAction \<Rightarrow> string" where
  "RuleAction_String env ns ds (RuleActionRoute ob r) =
     A_ToString env [AStr ''route('', AStr (strings_Join (ob # Descriptions env ns r) '',''), AStr '')'']"
| "RuleAction_String env ns ds (RuleActionRouteOptions r) =
     A_ToString env [AStr ''route-options('', AStr (strings_Join (Descriptions env ns r) '',''), AStr '')'']"
| "RuleAction_String env ns ds (RuleActionDirect d s) = ''direct'' @ s"
| "RuleAction_String env ns ds (RuleActionReject r) =
     (if Method r = ''default'' then ''reject'' else A_ToString env [AStr ''reject('', AStr (Method r), AStr '')''])"
| "RuleAction_String env ns ds RuleActionHijackDNS = ''hijack-dns''"
| "RuleAction_String env ns ds (RuleActionSniff r) = Sniff_String env r"
| "RuleAction_String env ns ds (RuleActionResolve r) = Resolve_String env ds r"

section \<open>Rejecting\<close>

datatype RejectedError = ECONNREFUSED | ErrDrop

definition drop_window :: int where "drop_window = 30 * 10 ^ 9"
definition drop_limit :: nat where "drop_limit = 50"

text \<open>
  \<open>RuleActionReject.Error\<close> at a time: the first result is what it returns.  \<open>common.Filter\<close> is
  a parameter.
\<close>

definition RuleActionReject_Error ::
    "((int \<Rightarrow> bool) \<Rightarrow> int list \<Rightarrow> int list) \<Rightarrow> int \<Rightarrow> RuleActionReject \<Rightarrow> RejectedError res \<times> RuleActionReject" where
  "RuleActionReject_Error common_Filter now r =
     (if Method r = ''drop'' then (Ok ErrDrop, r)
      else if Method r \<noteq> ''default'' then (Panic (''unknown reject method: '' @ Method r), r)
      else if NoDrop r then (Ok ECONNREFUSED, r)
      else
        let kept = common_Filter (\<lambda>t. now - t \<le> drop_window) (dropCounter r) @ [now];
            r' = r\<lparr>dropCounter := kept\<rparr>
        in if length kept > drop_limit then (Ok ErrDrop, r') else (Ok ECONNREFUSED, r'))"

fun run_reject ::
    "((int \<Rightarrow> bool) \<Rightarrow> int list \<Rightarrow> int list) \<Rightarrow> int list \<Rightarrow> RuleActionReject \<Rightarrow> RejectedError res list" where
  "run_reject F [] r = []"
| "run_reject F (t # ts) r =
     (case RuleActionReject_Error F t r of (e, r') \<Rightarrow> e # run_reject F ts r')"

section \<open>Actions of DNS rules\<close>

record RuleActionDNSRouteOptions =
  dr_Strategy :: nat
  dr_DisableCache :: bool
  dr_RewriteTTL :: "32 word option"
  dr_ClientSubnet :: prefix

record RuleActionPredefined =
  pd_Rcode :: int
  pd_Answer :: "RR list"
  pd_Ns :: "RR list"
  pd_Extra :: "RR list"

datatype DNSRuleAction =
    RuleActionDNSRoute string RuleActionDNSRouteOptions
  | RuleActionDNSRouteOptions RuleActionDNSRouteOptions
  | DNSRuleActionReject RuleActionReject
  | RuleActionPredefined RuleActionPredefined

record DNSRuleActionOptions =
  do_Action :: string
  do_Server :: string
  do_RouteOptions :: RuleActionDNSRouteOptions
  do_RouteOptionsOptions :: RuleActionDNSRouteOptions
  do_RejectMethod :: string
  do_RejectNoDrop :: bool
  do_Predefined :: RuleActionPredefined

definition NewDNSRuleAction :: "'d action_env \<Rightarrow> DNSRuleActionOptions \<Rightarrow> DNSRuleAction option res" where
  "NewDNSRuleAction env a =
     (if do_Action a = [] then Ok None
      else if do_Action a = ''route'' then Ok (Some (RuleActionDNSRoute (do_Server a) (do_RouteOptions a)))
      else if do_Action a = ''route-options'' then Ok (Some (RuleActionDNSRouteOptions (do_RouteOptionsOptions a)))
      else if do_Action a = ''reject''
      then Ok (Some (DNSRuleActionReject \<lparr>Method = do_RejectMethod a, NoDrop = do_RejectNoDrop a, dropCounter = []\<rparr>))
      else if do_Action a = ''predefined'' then Ok (Some (RuleActionPredefined (do_Predefined a)))
      else Panic (A_ToString env [AStr ''unknown rule action: '', AStr (do_Action a)]))"

definition dns_descriptions :: "'d action_env \<Rightarrow> RuleActionDNSRouteOptions \<Rightarrow> string list" where
  "dns_descriptions env r =
     (if dr_DisableCache r then [''disable-cache''] else []) @
     (case dr_RewriteTTL r of None \<Rightarrow> [] | Some t \<Rightarrow> [A_ToString env [AStr ''rewrite-ttl='', AInt (uint t)]]) @
     (if fst (dr_ClientSubnet r) \<noteq> AddrNone
      then [A_ToString env [AStr ''client-subnet='', AStr (Prefix_String env (dr_ClientSubnet r))]] else [])"

fun DNSRuleAction_String :: "'d action_env \<Rightarrow> (RR \<Rightarrow> string) \<Rightarrow> DNSRuleAction \<Rightarrow> string" where
  "DNSRuleAction_String env rr (RuleActionDNSRoute server r) =
     A_ToString env [AStr ''route('', AStr (strings_Join (server # dns_descriptions env r) '',''), AStr '')'']"
| "DNSRuleAction_String env rr (RuleActionDNSRouteOptions r) =
     A_ToString env [AStr ''route-options('', AStr (strings_Join (dns_descriptions env r) '',''), AStr '')'']"
| "DNSRuleAction_String env rr (DNSRuleActionReject r) =
     (if Method r = ''default'' then ''reject'' else A_ToString env [AStr ''reject('', AStr (Method r), AStr '')''])"
| "DNSRuleAction_String env rr (RuleActionPredefined p) =
     A_ToString env [AStr ''predefined('', AStr (strings_Join (Rcode_String env (pd_Rcode p) #
       map rr (pd_Answer p) @ map rr (pd_Ns p) @ map rr (pd_Extra p)) '',''), AStr '')'']"

definition strings_HasSuffix :: "string \<Rightarrow> string \<Rightarrow> bool" where
  "strings_HasSuffix s suf = strings_HasPrefix (rev s) (rev suf)"

text \<open>\<open>rewriteRecords\<close>: a record with a wildcard name takes the name that was asked for.\<close>

definition rewriteRecords :: "RR list \<Rightarrow> dns_Question \<Rightarrow> RR list" where
  "rewriteRecords records question =
     map (\<lambda>it. if strings_HasPrefix (h_Name (rr_Hdr it)) ''*'' \<and>
                  strings_HasSuffix (q_Name question) (tl (h_Name (rr_Hdr it)))
               then it\<lparr>rr_Hdr := (rr_Hdr it)\<lparr>h_Name := q_Name question\<rparr>\<rparr> else it) records"

text \<open>\<open>Response\<close> reads the first question; without one the index expression panics.\<close>

definition Predefined_Response :: "RuleActionPredefined \<Rightarrow> dns_msg \<Rightarrow> dns_msg res" where
  "Predefined_Response p request =
     (case msg_Question request of
        [] \<Rightarrow> Panic ''index out of range''
      | q # _ \<Rightarrow> Ok (dns_msg_zero\<lparr>msg_Id := msg_Id request, msg_Response := True, msg_Authoritative := True,
          msg_RecursionDesired := True, msg_RecursionAvailable := True, msg_Rcode := pd_Rcode p,
          msg_Question := msg_Question request, msg_Answer := rewriteRecords (pd_Answer p) q,
          msg_Ns := rewriteRecords (pd_Ns p) q, msg_Extra := rewriteRecords (pd_Extra p) q\<rparr>))"

section \<open>Properties\<close>

text \<open>
  The calls that still count at a time are those in the window, whatever was dropped before.
\<close>

definition recent :: "int \<Rightarrow> int list \<Rightarrow> int list" where
  "recent now ts = filter (\<lambda>t. now - t \<le> drop_window) ts"

lemma recent_recent: "s \<le> t \<Longrightarrow> recent t (recent s ts) = recent t ts"
  by (auto simp: recent_def intro!: filter_cong)

lemma recent_self: "recent t (ts @ [t]) = recent t ts @ [t]"
  by (simp add: recent_def drop_window_def)

lemma run_reject_window:
  assumes "Method r = ''default''" and "\<not> NoDrop r" and "sorted ts"
    and "dropCounter r = recent s before" and "\<forall>t \<in> set ts. s \<le> t"
  shows "run_reject filter ts r = map (\<lambda>n. Ok (if length (recent (ts ! n) (before @ take (Suc n) ts)) > drop_limit
      then ErrDrop else ECONNREFUSED)) [0..<length ts]"
  using assms
proof (induction ts arbitrary: r s before)
  case (Cons t ts)
  let ?kept = "filter (\<lambda>u. t - u \<le> drop_window) (dropCounter r) @ [t]"
  let ?r = "r\<lparr>dropCounter := ?kept\<rparr>"
  have kept: "?kept = recent t (before @ [t])"
    using Cons.prems(4,5) recent_recent [of s t before] recent_self [of t before]
    by (simp add: recent_def)
  have rest: "run_reject filter ts ?r = map (\<lambda>n. Ok (if length (recent (ts ! n) ((before @ [t]) @ take (Suc n) ts)) > drop_limit
      then ErrDrop else ECONNREFUSED)) [0..<length ts]"
    using Cons.prems(1-3) kept
    by (intro Cons.IH [of ?r t "before @ [t]"]) auto
  have "run_reject filter (t # ts) r = Ok (if length ?kept > drop_limit then ErrDrop else ECONNREFUSED) #
      run_reject filter ts ?r"
    using Cons.prems(1,2) by (simp add: RuleActionReject_Error_def Let_def)
  also have "\<dots> = map (\<lambda>n. Ok (if length (recent ((t # ts) ! n) (before @ take (Suc n) (t # ts))) > drop_limit
      then ErrDrop else ECONNREFUSED)) (0 # map Suc [0..<length ts])"
    unfolding kept rest [unfolded kept] by (simp add: comp_def)
  also have "0 # map Suc [0..<length ts] = [0..<length (t # ts)]"
    by (simp only: map_Suc_upt length_Cons upt_conv_Cons)
  finally show ?case .
qed simp

text \<open>
  C39: The flood protection of a new \<open>reject\<close> action with the default method: in a series of
  rejections at times that do not decrease, a rejection is answered with a silent drop exactly
  when more than 50 rejections, itself included, lie within the last 30 seconds.
\<close>

theorem reject_flood:
  assumes "F = filter" and "sorted ts" and "n < length ts"
  shows "run_reject F ts \<lparr>Method = ''default'', NoDrop = False, dropCounter = []\<rparr> ! n =
    Ok (if length (filter (\<lambda>t. ts ! n - t \<le> 30 * 10 ^ 9) (take (Suc n) ts)) > 50 then ErrDrop else ECONNREFUSED)"
proof (cases ts)
  case (Cons t ts')
  have "run_reject filter ts \<lparr>Method = ''default'', NoDrop = False, dropCounter = []\<rparr> =
    map (\<lambda>n. Ok (if length (recent (ts ! n) ([] @ take (Suc n) ts)) > drop_limit
      then ErrDrop else ECONNREFUSED)) [0..<length ts]"
    using assms(2) Cons by (intro run_reject_window [where s = t]) (auto simp: recent_def)
  with assms(1,3) show ?thesis by (simp add: recent_def drop_window_def drop_limit_def)
qed (use assms(3) in simp)

theorem reject_flood_witness:
  "run_reject filter (replicate 51 0) \<lparr>Method = ''default'', NoDrop = False, dropCounter = []\<rparr> ! 50 = Ok ErrDrop"
proof -
  have "length (filter (\<lambda>t. replicate 51 0 ! 50 - t \<le> 30 * 10 ^ 9) (take (Suc 50) (replicate 51 (0::int)))) = 51"
    by (simp add: filter_replicate)
  with reject_flood [OF refl, of "replicate 51 0" 50] show ?thesis by simp
qed

text \<open>
  The options of a \<open>route\<close> action and of a \<open>route-options\<close> action built from the same
  settings agree in every field but one: the timeout for UDP, which \<open>route\<close> sets to zero.
\<close>

theorem route_loses_udp_timeout:
  assumes "ao_Action a = ''route''" and "ao_Action b = ''route-options''"
    and "ao_RouteOptionsOptions b = ao_RouteOptions a"
  shows "\<exists>r. NewRuleAction env a = Ok (Some (RuleActionRoute (ao_Outbound a) (r\<lparr>UDPTimeout := 0\<rparr>))) \<and>
             NewRuleAction env b = Ok (Some (RuleActionRouteOptions r)) \<and>
             UDPTimeout r = ro_UDPTimeout (ao_RouteOptions a)"
  using assms by (auto simp: NewRuleAction_def route_options_def route_options_options_def)

definition demo_action :: "string \<Rightarrow> int \<Rightarrow> unit RuleActionOptions" where
  "demo_action kind timeout =
     (let o' = \<lparr>ro_OverrideAddress = [], ro_OverridePort = 0, ro_NetworkStrategy = None, ro_FallbackDelay = 0,
        ro_UDPDisableDomainUnmapping = False, ro_UDPConnect = False, ro_UDPTimeout = timeout, ro_TLSFragment = False,
        ro_TLSFragmentFallbackDelay = 0, ro_TLSRecordFragment = False\<rparr>
      in \<lparr>ao_Action = kind, ao_Outbound = ''proxy'', ao_RouteOptions = o', ao_RouteOptionsOptions = o',
          ao_DirectOptions = (), ao_RejectMethod = ''default'', ao_RejectNoDrop = False, ao_Sniffer = [], ao_SniffTimeout = 0,
          ao_ResolveOptions = \<lparr>rs_Server = [], rs_Strategy = 0, rs_DisableCache = False, rs_RewriteTTL = None,
            rs_ClientSubnet = (AddrNone, 0)\<rparr>\<rparr>)"

theorem route_loses_udp_timeout_witness:
  "\<forall>env :: unit action_env. \<exists>r. NewRuleAction env (demo_action ''route-options'' 60) = Ok (Some (RuleActionRouteOptions r)) \<and>
     UDPTimeout r = 60 \<and>
     NewRuleAction env (demo_action ''route'' 60) = Ok (Some (RuleActionRoute ''proxy'' (r\<lparr>UDPTimeout := 0\<rparr>)))"
proof
  fix env :: "unit action_env"
  from route_loses_udp_timeout [of "demo_action ''route'' 60" "demo_action ''route-options'' 60" env]
  show "\<exists>r. NewRuleAction env (demo_action ''route-options'' 60) = Ok (Some (RuleActionRouteOptions r)) \<and>
     UDPTimeout r = 60 \<and>
     NewRuleAction env (demo_action ''route'' 60) = Ok (Some (RuleActionRoute ''proxy'' (r\<lparr>UDPTimeout := 0\<rparr>)))"
    by (auto simp: demo_action_def Let_def)
qed

end
