(* ===== verification/Rule_Build.thy ===== *)
theory Rule_Build
  imports Rule_Semantics Rule_Action
begin

text \<open>
  How rules are built from the configuration (\<open>core/route/rule/rule_default.go\<close>,
  \<open>rule_headless.go\<close>, \<open>rule_dns.go\<close>, \<open>rule_set.go\<close>, \<open>rule_set_local.go\<close>).  A constructor is a
  list of steps, one for every \<open>if\<close> of the source and in its order; a step adds an item to one
  group and to \<open>allItems\<close>, or ends the construction with an error.  An absent list of the
  configuration and an empty one are both the empty list.
\<close>

section \<open>Options\<close>

record common_options =
  o_QueryType :: "16 word list"
  o_Network :: "string list"
  o_Domain :: "string list"
  o_DomainSuffix :: "string list"
  o_DomainKeyword :: "string list"
  o_DomainRegex :: "string list"
  o_SourceIPCIDR :: "string list"
  o_IPCIDR :: "string list"
  o_SourcePort :: "16 word list"
  o_SourcePortRange :: "string list"
  o_Port :: "16 word list"
  o_PortRange :: "string list"
  o_ProcessName :: "string list"
  o_ProcessPath :: "string list"
  o_ProcessPathRegex :: "string list"
  o_PackageName :: "string list"
  o_NetworkType :: "InterfaceType list"
  o_NetworkIsExpensive :: bool
  o_NetworkIsConstrained :: bool
  o_WIFISSID :: "string list"
  o_WIFIBSSID :: "string list"
  o_Invert :: bool

text \<open>\<open>option.DefaultHeadlessRule\<close>.\<close>

record headless_options = common_options +
  o_DomainMatcher :: "(string \<Rightarrow> bool) option"
  o_SourceIPSet :: "(addr \<Rightarrow> bool) option"
  o_IPSet :: "(addr \<Rightarrow> bool) option"
  o_AdGuardDomain :: "string list"
  o_AdGuardDomainMatcher :: "(string \<Rightarrow> bool) option"

text \<open>
  The fields of \<open>option.RawDefaultRule\<close> and \<open>option.RawDefaultDNSRule\<close> beyond the common ones;
  \<open>o_Client\<close> is used by route rules only, the last three by DNS rules only.
\<close>

record full_options = common_options +
  o_Inbound :: "string list"
  o_IPVersion :: int
  o_AuthUser :: "string list"
  o_Protocol :: "string list"
  o_Client :: "string list"
  o_Geosite :: "string list"
  o_SourceGeoIP :: "string list"
  o_GeoIP :: "string list"
  o_SourceIPIsPrivate :: bool
  o_IPIsPrivate :: bool
  o_User :: "string list"
  o_UserID :: "32 word list"
  o_ClashMode :: string
  o_RuleSet :: "string list"
  o_RuleSetIPCIDRMatchSource :: bool
  o_DeprecatedMatchSource :: bool
  o_Outbound :: "string list"
  o_IPAcceptAny :: bool
  o_RuleSetIPCIDRAcceptEmpty :: bool

section \<open>Steps\<close>

datatype group = GItems | GSourceAddress | GSourcePort | GDestinationAddress | GDestinationIPCIDR | GDestinationPort

fun put :: "group \<Rightarrow> rule_item \<Rightarrow> 'act abstractDefaultRule \<Rightarrow> 'act abstractDefaultRule" where
  "put GItems i r = r\<lparr>items := items r @ [i], allItems := allItems r @ [i]\<rparr>"
| "put GSourceAddress i r = r\<lparr>sourceAddressItems := sourceAddressItems r @ [i], allItems := allItems r @ [i]\<rparr>"
| "put GSourcePort i r = r\<lparr>sourcePortItems := sourcePortItems r @ [i], allItems := allItems r @ [i]\<rparr>"
| "put GDestinationAddress i r =
     r\<lparr>destinationAddressItems := destinationAddressItems r @ [i], allItems := allItems r @ [i]\<rparr>"
| "put GDestinationIPCIDR i r =
     r\<lparr>destinationIPCIDRItems := destinationIPCIDRItems r @ [i], allItems := allItems r @ [i]\<rparr>"
| "put GDestinationPort i r =
     r\<lparr>destinationPortItems := destinationPortItems r @ [i], allItems := allItems r @ [i]\<rparr>"

text \<open>A step: add nothing, an item to a group, or fail.\<close>

datatype step = Skip | Add group rule_item | Fail go_error

definition add_if :: "bool \<Rightarrow> group \<Rightarrow> rule_item \<Rightarrow> step" where
  "add_if b g i = (if b then Add g i else Skip)"

definition try_if :: "bool \<Rightarrow> group \<Rightarrow> go_error + 'x \<Rightarrow> ('x \<Rightarrow> rule_item) \<Rightarrow> step" where
  "try_if b g x f = (if b then (case x of Inl e \<Rightarrow> Fail e | Inr v \<Rightarrow> Add g (f v)) else Skip)"

definition fail_if :: "bool \<Rightarrow> go_error \<Rightarrow> step" where
  "fail_if b e = (if b then Fail e else Skip)"

definition or_else :: "bool \<Rightarrow> step \<Rightarrow> step \<Rightarrow> step" where
  "or_else b s t = (if b then s else t)"

definition with_cause :: "string \<Rightarrow> go_error + 'x \<Rightarrow> go_error + 'x" where
  "with_cause s x = (case x of Inl e \<Rightarrow> Inl (ECause e [AStr s]) | Inr v \<Rightarrow> Inr v)"

definition raw_if :: "'x option \<Rightarrow> group \<Rightarrow> ('x \<Rightarrow> rule_item) \<Rightarrow> step" where
  "raw_if x g f = (case x of None \<Rightarrow> Skip | Some v \<Rightarrow> Add g (f v))"

fun run_steps :: "step list \<Rightarrow> 'act abstractDefaultRule \<Rightarrow> go_error + 'act abstractDefaultRule" where
  "run_steps [] r = Inr r"
| "run_steps (Skip # ss) r = run_steps ss r"
| "run_steps (Add g i # ss) r = run_steps ss (put g i r)"
| "run_steps (Fail e # ss) r = Inl e"

definition empty_rule :: "bool \<Rightarrow> 'act \<Rightarrow> 'act abstractDefaultRule" where
  "empty_rule neg act = \<lparr>items = [], sourceAddressItems = [], sourcePortItems = [],
     destinationAddressItems = [], destinationIPCIDRItems = [], destinationPortItems = [],
     allItems = [], invert = neg, action = act\<rparr>"

definition geo_error :: "string \<Rightarrow> go_error" where
  "geo_error db = ENew [AStr (db @ '' database is deprecated in sing-box 1.8.0 and removed in sing-box 1.12.0'')]"

definition ip_version_step :: "int \<Rightarrow> step" where
  "ip_version_step v =
     (if v > 0 then (if v = 4 \<or> v = 6 then Add GItems (IIPVersion (v = 6))
                     else Fail (ENew [AStr ''invalid ip version: '', AInt v]))
      else Skip)"

text \<open>The steps that the source repeats in the three constructors.\<close>

definition domain_step :: "rule_env \<Rightarrow> 'a common_options_scheme \<Rightarrow> step" where
  "domain_step env o' =
     try_if (o_Domain o' \<noteq> [] \<or> o_DomainSuffix o' \<noteq> []) GDestinationAddress
       (NewDomainItem env (o_Domain o') (o_DomainSuffix o')) IDomain"

definition keyword_steps :: "rule_env \<Rightarrow> 'a common_options_scheme \<Rightarrow> step list" where
  "keyword_steps env o' =
     [add_if (o_DomainKeyword o' \<noteq> []) GDestinationAddress (IDomainKeyword (o_DomainKeyword o')),
      try_if (o_DomainRegex o' \<noteq> []) GDestinationAddress
        (with_cause ''domain_regex'' (NewDomainRegexItem env (o_DomainRegex o'))) IDomainRegex]"

definition source_cidr_step :: "rule_env \<Rightarrow> 'a common_options_scheme \<Rightarrow> step" where
  "source_cidr_step env o' =
     try_if (o_SourceIPCIDR o' \<noteq> []) GSourceAddress
       (with_cause ''source_ip_cidr'' (NewIPCIDRItem env True (o_SourceIPCIDR o'))) IIPCIDR"

definition cidr_step :: "rule_env \<Rightarrow> string \<Rightarrow> 'a common_options_scheme \<Rightarrow> step" where
  "cidr_step env name o' =
     try_if (o_IPCIDR o' \<noteq> []) GDestinationIPCIDR
       (with_cause name (NewIPCIDRItem env False (o_IPCIDR o'))) IIPCIDR"

definition port_steps :: "'a common_options_scheme \<Rightarrow> step list" where
  "port_steps o' =
     [add_if (o_SourcePort o' \<noteq> []) GSourcePort (IPort (NewPortItem True (o_SourcePort o'))),
      try_if (o_SourcePortRange o' \<noteq> []) GSourcePort
        (with_cause ''source_port_range'' (NewPortRangeItem True (o_SourcePortRange o'))) IPortRange,
      add_if (o_Port o' \<noteq> []) GDestinationPort (IPort (NewPortItem False (o_Port o'))),
      try_if (o_PortRange o' \<noteq> []) GDestinationPort
        (with_cause ''port_range'' (NewPortRangeItem False (o_PortRange o'))) IPortRange]"

definition process_steps :: "rule_env \<Rightarrow> 'a common_options_scheme \<Rightarrow> step list" where
  "process_steps env o' =
     [add_if (o_ProcessName o' \<noteq> []) GItems (IProcess (NewProcessItem (o_ProcessName o'))),
      add_if (o_ProcessPath o' \<noteq> []) GItems (IProcessPath (NewProcessPathItem (o_ProcessPath o'))),
      try_if (o_ProcessPathRegex o' \<noteq> []) GItems
        (with_cause ''process_path_regex'' (NewProcessPathRegexItem env (o_ProcessPathRegex o'))) IProcessPathRegex,
      add_if (o_PackageName o' \<noteq> []) GItems (IPackageName (NewPackageNameItem (o_PackageName o')))]"

definition network_steps :: "'a common_options_scheme \<Rightarrow> step list" where
  "network_steps o' =
     [add_if (o_NetworkType o' \<noteq> []) GItems (INetworkType (o_NetworkType o')),
      add_if (o_NetworkIsExpensive o') GItems INetworkIsExpensive,
      add_if (o_NetworkIsConstrained o') GItems INetworkIsConstrained,
      add_if (o_WIFISSID o' \<noteq> []) GItems (IWIFISSID (NewWIFISSIDItem (o_WIFISSID o'))),
      add_if (o_WIFIBSSID o' \<noteq> []) GItems (IWIFIBSSID (NewWIFIBSSIDItem (o_WIFIBSSID o')))]"

definition geo_steps :: "full_options \<Rightarrow> step list" where
  "geo_steps o' =
     [fail_if (o_Geosite o' \<noteq> []) (geo_error ''geosite''),
      fail_if (o_SourceGeoIP o' \<noteq> []) (geo_error ''geoip''),
      fail_if (o_GeoIP o' \<noteq> []) (geo_error ''geoip'')]"

definition user_steps :: "full_options \<Rightarrow> step list" where
  "user_steps o' =
     [add_if (o_User o' \<noteq> []) GItems (IUser (NewUserItem (o_User o'))),
      add_if (o_UserID o' \<noteq> []) GItems (IUserId (NewUserIDItem (o_UserID o')))]"

definition rule_set_step :: "full_options \<Rightarrow> bool \<Rightarrow> step" where
  "rule_set_step o' acceptEmpty =
     add_if (o_RuleSet o' \<noteq> []) GItems
       (IRuleSet (NewRuleSetItem (o_RuleSet o') (o_RuleSetIPCIDRMatchSource o' \<or> o_DeprecatedMatchSource o') acceptEmpty))"

section \<open>The constructors of default rules\<close>

definition NewDefaultRule :: "rule_env \<Rightarrow> full_options \<Rightarrow> 'act \<Rightarrow> go_error + 'act abstractDefaultRule" where
  "NewDefaultRule env o' act =
     run_steps
       ([add_if (o_Inbound o' \<noteq> []) GItems (IInbound (NewInboundRule (o_Inbound o'))),
         ip_version_step (o_IPVersion o'),
         add_if (o_Network o' \<noteq> []) GItems (INetwork (NewNetworkItem (o_Network o'))),
         add_if (o_AuthUser o' \<noteq> []) GItems (IAuthUser (NewAuthUserItem (o_AuthUser o'))),
         add_if (o_Protocol o' \<noteq> []) GItems (IProtocol (NewProtocolItem (o_Protocol o'))),
         add_if (o_Client o' \<noteq> []) GItems (IClient (NewClientItem (o_Client o'))),
         domain_step env o'] @ keyword_steps env o' @ geo_steps o' @
        [source_cidr_step env o',
         add_if (o_SourceIPIsPrivate o') GSourceAddress (IIPIsPrivate True),
         cidr_step env ''ipcidr'' o',
         add_if (o_IPIsPrivate o') GDestinationIPCIDR (IIPIsPrivate False)] @
        port_steps o' @ process_steps env o' @ user_steps o' @
        [add_if (o_ClashMode o' \<noteq> []) GItems (IClashMode (NewClashModeItem (o_ClashMode o')))] @
        network_steps o' @ [rule_set_step o' False])
       (empty_rule (o_Invert o') act)"

definition NewDefaultDNSRule :: "rule_env \<Rightarrow> full_options \<Rightarrow> 'act \<Rightarrow> go_error + 'act abstractDefaultRule" where
  "NewDefaultDNSRule env o' act =
     run_steps
       ([add_if (o_Inbound o' \<noteq> []) GItems (IInbound (NewInboundRule (o_Inbound o'))),
         ip_version_step (o_IPVersion o'),
         add_if (o_QueryType o' \<noteq> []) GItems (IQueryType (NewQueryTypeItem (o_QueryType o'))),
         add_if (o_Network o' \<noteq> []) GItems (INetwork (NewNetworkItem (o_Network o'))),
         add_if (o_AuthUser o' \<noteq> []) GItems (IAuthUser (NewAuthUserItem (o_AuthUser o'))),
         add_if (o_Protocol o' \<noteq> []) GItems (IProtocol (NewProtocolItem (o_Protocol o'))),
         domain_step env o'] @ keyword_steps env o' @ geo_steps o' @
        [source_cidr_step env o',
         cidr_step env ''ip_cidr'' o',
         add_if (o_SourceIPIsPrivate o') GSourceAddress (IIPIsPrivate True),
         add_if (o_IPIsPrivate o') GDestinationIPCIDR (IIPIsPrivate False),
         add_if (o_IPAcceptAny o') GDestinationIPCIDR IIPAcceptAny] @
        port_steps o' @ process_steps env o' @ user_steps o' @
        [add_if (o_Outbound o' \<noteq> []) GItems (IOutbound (NewOutboundRule (o_Outbound o'))),
         add_if (o_ClashMode o' \<noteq> []) GItems (IClashMode (NewClashModeItem (o_ClashMode o')))] @
        network_steps o' @ [rule_set_step o' (o_RuleSetIPCIDRAcceptEmpty o')])
       (empty_rule (o_Invert o') act)"

text \<open>
  \<open>NewDefaultHeadlessRule\<close>; \<open>hasManager\<close> tells whether the context has a network manager.  The
  option \<open>query_type\<close> has no step in the source.
\<close>

definition NewDefaultHeadlessRule ::
    "rule_env \<Rightarrow> bool \<Rightarrow> headless_options \<Rightarrow> go_error + unit abstractDefaultRule" where
  "NewDefaultHeadlessRule env hasManager o' =
     run_steps
       ([add_if (o_Network o' \<noteq> []) GItems (INetwork (NewNetworkItem (o_Network o'))),
         or_else (o_Domain o' \<noteq> [] \<or> o_DomainSuffix o' \<noteq> []) (domain_step env o')
           (raw_if (o_DomainMatcher o') GDestinationAddress (\<lambda>m. IDomain (NewRawDomainItem m)))] @
        keyword_steps env o' @
        [or_else (o_SourceIPCIDR o' \<noteq> []) (source_cidr_step env o')
           (raw_if (o_SourceIPSet o') GSourceAddress (\<lambda>s. IIPCIDR (NewRawIPCIDRItem True s))),
         or_else (o_IPCIDR o' \<noteq> []) (cidr_step env ''ipcidr'' o')
           (raw_if (o_IPSet o') GDestinationIPCIDR (\<lambda>s. IIPCIDR (NewRawIPCIDRItem False s)))] @
        port_steps o' @ process_steps env o' @
        (if hasManager then network_steps o' else []) @
        [or_else (o_AdGuardDomain o' \<noteq> [])
           (Add GDestinationAddress (IAdGuard (NewAdGuardDomainItem env (o_AdGuardDomain o'))))
           (raw_if (o_AdGuardDomainMatcher o') GDestinationAddress (\<lambda>m. IAdGuard (NewRawAdGuardDomainItem m)))])
       (empty_rule (o_Invert o') ())"

section \<open>Logical rules\<close>

text \<open>
  The options of a rule: a default rule, a logical rule with its sub-rules, or an unknown type.
  \<open>IsValid\<close> of a default rule compares with the empty options of the same \<open>Invert\<close>.
\<close>

datatype 'o rule_options =
    DefaultOptions 'o
  | LogicalOptions "'o rule_options list" string bool
  | UnknownType string

definition empty_common :: common_options where
  "empty_common = \<lparr>o_QueryType = [], o_Network = [], o_Domain = [], o_DomainSuffix = [], o_DomainKeyword = [],
     o_DomainRegex = [], o_SourceIPCIDR = [], o_IPCIDR = [], o_SourcePort = [], o_SourcePortRange = [],
     o_Port = [], o_PortRange = [], o_ProcessName = [], o_ProcessPath = [], o_ProcessPathRegex = [],
     o_PackageName = [], o_NetworkType = [], o_NetworkIsExpensive = False, o_NetworkIsConstrained = False,
     o_WIFISSID = [], o_WIFIBSSID = [], o_Invert = False\<rparr>"

definition empty_headless :: headless_options where
  "empty_headless = common_options.extend empty_common
     (headless_options.fields None None None [] None)"

definition DefaultHeadlessRule_IsValid :: "headless_options \<Rightarrow> bool" where
  "DefaultHeadlessRule_IsValid o' = (o' \<noteq> empty_headless\<lparr>o_Invert := o_Invert o'\<rparr>)"

text \<open>
  \<open>common.All\<close> over the sub-rules is a parameter: it gets the answers the calls would give, and
  a panic in one of them is a panic of the whole.
\<close>

type_synonym all_answers = "bool res list \<Rightarrow> bool res"

fun HeadlessRule_IsValid :: "all_answers \<Rightarrow> headless_options rule_options \<Rightarrow> bool res" where
  "HeadlessRule_IsValid A (DefaultOptions o') = Ok (DefaultHeadlessRule_IsValid o')"
| "HeadlessRule_IsValid A (LogicalOptions rs md neg) =
     (if rs = [] then Ok False else A (map (HeadlessRule_IsValid A) rs))"
| "HeadlessRule_IsValid A (UnknownType t) = Panic (''unknown rule type: '' @ t)"

text \<open>
  \<open>NewHeadlessRule\<close> and \<open>NewLogicalHeadlessRule\<close>: the sub-rules are built in order, the first
  error ends the construction and carries the index.
\<close>

fun NewHeadlessRule :: "all_answers \<Rightarrow> rule_env \<Rightarrow> bool \<Rightarrow> headless_options rule_options \<Rightarrow> unit rule res"
  and sub_rules ::
    "all_answers \<Rightarrow> rule_env \<Rightarrow> bool \<Rightarrow> nat \<Rightarrow> headless_options rule_options list \<Rightarrow> unit rule list res" where
  "NewHeadlessRule A env mgr (DefaultOptions o') =
     (if \<not> DefaultHeadlessRule_IsValid o' then Err (ENew [AStr ''missing conditions''])
      else case NewDefaultHeadlessRule env mgr o' of Inl e \<Rightarrow> Err e | Inr r \<Rightarrow> Ok (DefaultRule r))"
| "NewHeadlessRule A env mgr (LogicalOptions rs md neg) =
     (case HeadlessRule_IsValid A (LogicalOptions rs md neg) of
        Panic p \<Rightarrow> Panic p | Err e \<Rightarrow> Err e
      | Ok False \<Rightarrow> Err (ENew [AStr ''missing conditions''])
      | Ok True \<Rightarrow>
          if md \<noteq> LogicalTypeAnd \<and> md \<noteq> LogicalTypeOr then Err (ENew [AStr ''unknown logical mode: '', AStr md])
          else (case sub_rules A env mgr 0 rs of
                  Panic p \<Rightarrow> Panic p | Err e \<Rightarrow> Err e | Ok subs \<Rightarrow> Ok (LogicalRule subs md neg ())))"
| "NewHeadlessRule A env mgr (UnknownType t) = Err (ENew [AStr ''unknown rule type: '', AStr t])"
| "sub_rules A env mgr i [] = Ok []"
| "sub_rules A env mgr i (r # rs) =
     (case NewHeadlessRule A env mgr r of
        Panic p \<Rightarrow> Panic p
      | Err e \<Rightarrow> Err (ECause e [AStr ''sub rule['', AInt (int i), AStr '']''])
      | Ok x \<Rightarrow> (case sub_rules A env mgr (i + 1) rs of Panic p \<Rightarrow> Panic p | Err e \<Rightarrow> Err e | Ok xs \<Rightarrow> Ok (x # xs)))"

text \<open>
  \<open>NewRule\<close>, \<open>NewLogicalRule\<close> and their DNS counterparts differ in the constructor of default
  rules, in the action and in the field an unnamed or \<open>route\<close> action must have.  \<open>ok\<close> is the
  answer of \<open>IsValid\<close>; sub-rules are built without the check of that field.
\<close>

datatype 'a route_options =
    RouteDefault full_options 'a
  | RouteLogical "'a route_options list" string bool 'a
  | RouteUnknown string

record ('a, 'act) rule_maker =
  mk_valid :: "'a route_options \<Rightarrow> bool"
  mk_kind :: "'a \<Rightarrow> string"
  mk_target :: "'a \<Rightarrow> string"
  mk_missing :: string
  mk_action :: "'a \<Rightarrow> 'act res"
  mk_default :: "full_options \<Rightarrow> 'act \<Rightarrow> go_error + 'act abstractDefaultRule"

definition target_missing :: "('a, 'act) rule_maker \<Rightarrow> bool \<Rightarrow> 'a \<Rightarrow> bool" where
  "target_missing M check a \<longleftrightarrow>
     (mk_kind M a = [] \<or> mk_kind M a = ''route'') \<and> mk_target M a = [] \<and> check"

fun new_rule :: "('a, 'act) rule_maker \<Rightarrow> bool \<Rightarrow> 'a route_options \<Rightarrow> 'act rule res"
  and new_sub_rules :: "('a, 'act) rule_maker \<Rightarrow> nat \<Rightarrow> 'a route_options list \<Rightarrow> 'act rule list res" where
  "new_rule M check (RouteDefault o' a) =
     (if \<not> mk_valid M (RouteDefault o' a) then Err (ENew [AStr ''missing conditions''])
      else if target_missing M check a then Err (ENew [AStr (mk_missing M)])
      else case mk_action M a of
        Panic p \<Rightarrow> Panic p | Err e \<Rightarrow> Err (ECause e [AStr ''action''])
      | Ok act \<Rightarrow> (case mk_default M o' act of Inl e \<Rightarrow> Err e | Inr r \<Rightarrow> Ok (DefaultRule r)))"
| "new_rule M check (RouteLogical rs md neg a) =
     (if \<not> mk_valid M (RouteLogical rs md neg a) then Err (ENew [AStr ''missing conditions''])
      else if target_missing M check a then Err (ENew [AStr (mk_missing M)])
      else case mk_action M a of
        Panic p \<Rightarrow> Panic p | Err e \<Rightarrow> Err (ECause e [AStr ''action''])
      | Ok act \<Rightarrow>
          if md \<noteq> LogicalTypeAnd \<and> md \<noteq> LogicalTypeOr then Err (ENew [AStr ''unknown logical mode: '', AStr md])
          else (case new_sub_rules M 0 rs of
                  Panic p \<Rightarrow> Panic p | Err e \<Rightarrow> Err e | Ok subs \<Rightarrow> Ok (LogicalRule subs md neg act)))"
| "new_rule M check (RouteUnknown t) = Err (ENew [AStr ''unknown rule type: '', AStr t])"
| "new_sub_rules M i [] = Ok []"
| "new_sub_rules M i (r # rs) =
     (case new_rule M False r of
        Panic p \<Rightarrow> Panic p
      | Err e \<Rightarrow> Err (ECause e [AStr ''sub rule['', AInt (int i), AStr '']''])
      | Ok x \<Rightarrow> (case new_sub_rules M (i + 1) rs of Panic p \<Rightarrow> Panic p | Err e \<Rightarrow> Err e | Ok xs \<Rightarrow> Ok (x # xs)))"

definition NewRule ::
    "rule_env \<Rightarrow> 'd action_env \<Rightarrow> ('d RuleActionOptions route_options \<Rightarrow> bool) \<Rightarrow> bool \<Rightarrow>
     'd RuleActionOptions route_options \<Rightarrow> RuleAction option rule res" where
  "NewRule env aenv ok checkOutbound o' =
     new_rule \<lparr>mk_valid = ok, mk_kind = ao_Action, mk_target = ao_Outbound,
       mk_missing = ''missing outbound field'', mk_action = NewRuleAction aenv,
       mk_default = NewDefaultRule env\<rparr> checkOutbound o'"

definition NewDNSRule ::
    "rule_env \<Rightarrow> 'd action_env \<Rightarrow> (DNSRuleActionOptions route_options \<Rightarrow> bool) \<Rightarrow> bool \<Rightarrow>
     DNSRuleActionOptions route_options \<Rightarrow> DNSRuleAction option rule res" where
  "NewDNSRule env aenv ok checkServer o' =
     new_rule \<lparr>mk_valid = ok, mk_kind = do_Action, mk_target = do_Server,
       mk_missing = ''missing server field'', mk_action = NewDNSRuleAction aenv,
       mk_default = NewDefaultDNSRule env\<rparr> checkServer o'"

section \<open>Local rule sets\<close>

text \<open>Whether a condition holds for some default rule anywhere in a list of rules.\<close>

fun hasHeadlessRule :: "(headless_options \<Rightarrow> bool) \<Rightarrow> headless_options rule_options list \<Rightarrow> bool" where
  "hasHeadlessRule cond [] = False"
| "hasHeadlessRule cond (DefaultOptions o' # rs) = (if cond o' then True else hasHeadlessRule cond rs)"
| "hasHeadlessRule cond (LogicalOptions subs md neg # rs) =
     (if hasHeadlessRule cond subs then True else hasHeadlessRule cond rs)"
| "hasHeadlessRule cond (UnknownType t # rs) = hasHeadlessRule cond rs"

definition isProcessHeadlessRule :: "headless_options \<Rightarrow> bool" where
  "isProcessHeadlessRule o' \<longleftrightarrow> o_ProcessName o' \<noteq> [] \<or> o_ProcessPath o' \<noteq> [] \<or>
     o_ProcessPathRegex o' \<noteq> [] \<or> o_PackageName o' \<noteq> []"

definition isWIFIHeadlessRule :: "headless_options \<Rightarrow> bool" where
  "isWIFIHeadlessRule o' \<longleftrightarrow> o_WIFISSID o' \<noteq> [] \<or> o_WIFIBSSID o' \<noteq> []"

definition isIPCIDRHeadlessRule :: "headless_options \<Rightarrow> bool" where
  "isIPCIDRHeadlessRule o' \<longleftrightarrow> o_IPCIDR o' \<noteq> [] \<or> o_IPSet o' \<noteq> None"

fun load_rules ::
    "all_answers \<Rightarrow> rule_env \<Rightarrow> bool \<Rightarrow> nat \<Rightarrow> headless_options rule_options list \<Rightarrow> unit rule list res" where
  "load_rules A env mgr i [] = Ok []"
| "load_rules A env mgr i (r # rs) =
     (case NewHeadlessRule A env mgr r of
        Panic p \<Rightarrow> Panic p
      | Err e \<Rightarrow> Err (ECause e [AStr ''parse rule_set.rules.['', AInt (int i), AStr '']''])
      | Ok x \<Rightarrow> (case load_rules A env mgr (i + 1) rs of Panic p \<Rightarrow> Panic p | Err e \<Rightarrow> Err e | Ok xs \<Rightarrow> Ok (x # xs)))"

text \<open>\<open>reloadRules\<close>: the rule set is changed only when every rule could be built.\<close>

definition reloadRules ::
    "all_answers \<Rightarrow> rule_env \<Rightarrow> bool \<Rightarrow> headless_options rule_options list \<Rightarrow> LocalRuleSet \<Rightarrow> LocalRuleSet \<times> unit res" where
  "reloadRules A env mgr hs s =
     (case load_rules A env mgr 0 hs of
        Panic p \<Rightarrow> (s, Panic p)
      | Err e \<Rightarrow> (s, Err e)
      | Ok rs \<Rightarrow> (s\<lparr>lrs_rules := rs, lrs_ContainsProcessRule := hasHeadlessRule isProcessHeadlessRule hs,
          lrs_ContainsWIFIRule := hasHeadlessRule isWIFIHeadlessRule hs,
          lrs_ContainsIPCIDRRule := hasHeadlessRule isIPCIDRHeadlessRule hs\<rparr>, Ok ()))"

text \<open>\<open>NewLocalRuleSet\<close> for an inline rule set.\<close>

definition NewInlineRuleSet ::
    "all_answers \<Rightarrow> rule_env \<Rightarrow> bool \<Rightarrow> string \<Rightarrow> headless_options rule_options list \<Rightarrow> LocalRuleSet res" where
  "NewInlineRuleSet A env mgr tag hs =
     (if hs = [] then Err (ENew [AStr ''empty inline rule-set''])
      else case reloadRules A env mgr hs
                  \<lparr>lrs_tag = tag, lrs_rules = [], lrs_ContainsProcessRule = False, lrs_ContainsWIFIRule = False,
        lrs_ContainsIPCIDRRule = False, lrs_refs = 0\<rparr> of
        (s, Ok _) \<Rightarrow> Ok s | (s, Err e) \<Rightarrow> Err e | (s, Panic p) \<Rightarrow> Panic p)"

section \<open>Built rules are well formed\<close>

fun step_plain :: "step \<Rightarrow> bool" where
  "step_plain (Add g i) = (\<not> is_RuleSetItem i)"
| "step_plain _ = True"

lemma put_wf: "wf_rule r \<Longrightarrow> wf_rule (put g i r)"
  by (cases g) (auto simp: wf_rule_def)

lemma put_plain: "plain_rule r \<Longrightarrow> \<not> is_RuleSetItem i \<Longrightarrow> plain_rule (put g i r)"
  by (cases g) (auto simp: plain_rule_def plain_groups_def)

lemma put_keeps: "invert (put g i r) = invert r" "action (put g i r) = action r"
  by (cases g; simp)+

lemma run_steps_wf: "run_steps ss r = Inr r' \<Longrightarrow> wf_rule r \<Longrightarrow> wf_rule r' \<and> invert r' = invert r \<and> action r' = action r"
  by (induction ss r rule: run_steps.induct) (auto simp: put_wf put_keeps)

lemma run_steps_plain: "run_steps ss r = Inr r' \<Longrightarrow> list_all step_plain ss \<Longrightarrow> plain_rule r \<Longrightarrow> plain_rule r'"
  by (induction ss r rule: run_steps.induct) (auto simp: put_plain)

lemma empty_rule_wf [simp]: "wf_rule (empty_rule neg act)" "plain_rule (empty_rule neg act)"
  "invert (empty_rule neg act) = neg" "action (empty_rule neg act) = act"
  by (simp_all add: empty_rule_def wf_rule_def plain_rule_def plain_groups_def)

lemma step_plain_simps [simp]:
  "step_plain (add_if b g i) = (b \<longrightarrow> \<not> is_RuleSetItem i)"
  "step_plain (fail_if b e)" "step_plain (ip_version_step v)"
  "step_plain (or_else b s t) = (if b then step_plain s else step_plain t)"
  "(\<And>v. \<not> is_RuleSetItem (f v)) \<Longrightarrow> step_plain (try_if b g x f)"
  "(\<And>v. \<not> is_RuleSetItem (f v)) \<Longrightarrow> step_plain (raw_if y g f)"
  by (auto simp: add_if_def fail_if_def ip_version_step_def or_else_def try_if_def raw_if_def
      split: sum.splits option.splits)

lemmas step_defs = domain_step_def keyword_steps_def source_cidr_step_def cidr_step_def port_steps_def
  process_steps_def network_steps_def geo_steps_def user_steps_def rule_set_step_def

lemma NewDefaultRule_wf:
  assumes "NewDefaultRule env o' act = Inr r"
  shows "wf_rule r" "invert r = o_Invert o'" "action r = act" "o_RuleSet o' = [] \<Longrightarrow> plain_rule r"
  using assms unfolding NewDefaultRule_def
  by (auto dest!: run_steps_wf intro: run_steps_plain [OF assms [unfolded NewDefaultRule_def]] simp: step_defs)

lemma NewDefaultDNSRule_wf:
  assumes "NewDefaultDNSRule env o' act = Inr r"
  shows "wf_rule r" "invert r = o_Invert o'" "action r = act" "o_RuleSet o' = [] \<Longrightarrow> plain_rule r"
  using assms unfolding NewDefaultDNSRule_def
  by (auto dest!: run_steps_wf intro: run_steps_plain [OF assms [unfolded NewDefaultDNSRule_def]] simp: step_defs)

lemma NewDefaultHeadlessRule_wf:
  assumes "NewDefaultHeadlessRule env mgr o' = Inr r"
  shows "wf_rule r" "invert r = o_Invert o'" "plain_rule r"
  using assms unfolding NewDefaultHeadlessRule_def
  by (auto dest!: run_steps_wf intro: run_steps_plain [OF assms [unfolded NewDefaultHeadlessRule_def]] simp: step_defs)

lemma NewHeadlessRule_wf:
  "NewHeadlessRule A env mgr o' = Ok R \<Longrightarrow> leaves (\<lambda>r. plain_rule r \<and> wf_rule r) R"
  "sub_rules A env mgr i os = Ok Rs \<Longrightarrow> list_all (leaves (\<lambda>r. plain_rule r \<and> wf_rule r)) Rs"
proof (induction A env mgr o' and A env mgr i os arbitrary: R and Rs rule: NewHeadlessRule_sub_rules.induct)
  case (1 A env mgr o')
  then show ?case by (auto split: if_splits sum.splits dest: NewDefaultHeadlessRule_wf)
next
  case (2 A env mgr rs md neg)
  then show ?case by (auto split: if_splits res.splits bool.splits)
next
  case (5 A env mgr i r rs)
  then show ?case by (auto split: res.splits)
qed simp_all

text \<open>The items a list of steps adds to the group of destination networks.\<close>

fun cidr_of :: "step \<Rightarrow> rule_item list" where
  "cidr_of (Add GDestinationIPCIDR i) = [i]"
| "cidr_of _ = []"

lemma run_steps_cidr:
  "run_steps ss r = Inr r' \<Longrightarrow> destinationIPCIDRItems r' = destinationIPCIDRItems r @ concat (map cidr_of ss)"
proof (induction ss r rule: run_steps.induct)
  case (3 g i ss r)
  then show ?case by (cases g) auto
qed simp_all

lemma cidr_of_simps [simp]:
  "g \<noteq> GDestinationIPCIDR \<Longrightarrow> cidr_of (add_if b g i) = []"
  "g \<noteq> GDestinationIPCIDR \<Longrightarrow> cidr_of (try_if b g x f) = []"
  "g \<noteq> GDestinationIPCIDR \<Longrightarrow> cidr_of (raw_if y g f) = []"
  "cidr_of (fail_if b e) = []" "cidr_of (or_else b s t) = (if b then cidr_of s else cidr_of t)"
  by (cases g; auto simp: add_if_def try_if_def raw_if_def fail_if_def or_else_def split: sum.splits option.splits)+

lemma run_steps_no_fail: "run_steps ss r = Inr r' \<Longrightarrow> Fail e \<notin> set ss"
  by (induction ss r rule: run_steps.induct) auto

lemma NewDefaultHeadlessRule_cidr:
  assumes "NewDefaultHeadlessRule env mgr o' = Inr r"
  shows "extractIPSetFromRule (DefaultRule r) \<noteq> [] \<longleftrightarrow> isIPCIDRHeadlessRule o'"
proof -
  let ?st = "or_else (o_IPCIDR o' \<noteq> []) (cidr_step env ''ipcidr'' o')
           (raw_if (o_IPSet o') GDestinationIPCIDR (\<lambda>s. IIPCIDR (NewRawIPCIDRItem False s)))"
  note run = assms [unfolded NewDefaultHeadlessRule_def]
  have d: "destinationIPCIDRItems r = cidr_of ?st"
    using run_steps_cidr [OF run] by (cases mgr) (simp_all add: step_defs empty_rule_def)
  have nf: "with_cause ''ipcidr'' (NewIPCIDRItem env False (o_IPCIDR o')) \<noteq> Inl e" if "o_IPCIDR o' \<noteq> []" for e
    using run_steps_no_fail [OF run, of e] that by (auto simp: or_else_def cidr_step_def try_if_def)
  show ?thesis
    by (auto dest: nf simp: d isIPCIDRHeadlessRule_def or_else_def cidr_step_def try_if_def raw_if_def
        split: sum.splits option.splits if_splits)
qed

lemma NewHeadlessRule_cidr:
  "NewHeadlessRule A env mgr o' = Ok R \<Longrightarrow> extractIPSetFromRule R \<noteq> [] \<longleftrightarrow> hasHeadlessRule isIPCIDRHeadlessRule [o']"
  "sub_rules A env mgr i os = Ok Rs \<Longrightarrow>
     (\<exists>R \<in> set Rs. extractIPSetFromRule R \<noteq> []) \<longleftrightarrow> hasHeadlessRule isIPCIDRHeadlessRule os"
proof (induction A env mgr o' and A env mgr i os arbitrary: R and Rs rule: NewHeadlessRule_sub_rules.induct)
  case (1 A env mgr o')
  then obtain r where "R = DefaultRule r" "NewDefaultHeadlessRule env mgr o' = Inr r"
    by (auto split: if_splits sum.splits)
  then show ?case using NewDefaultHeadlessRule_cidr by (simp del: extractIPSetFromRule.simps)
next
  case (2 A env mgr rs md neg)
  from "2.prems" obtain subs where s: "sub_rules A env mgr 0 rs = Ok subs" "R = LogicalRule subs md neg ()"
    "HeadlessRule_IsValid A (LogicalOptions rs md neg) = Ok True" "md = LogicalTypeAnd \<or> md = LogicalTypeOr"
    by (auto split: if_splits res.splits bool.splits)
  have "(\<exists>R \<in> set subs. extractIPSetFromRule R \<noteq> []) \<longleftrightarrow> hasHeadlessRule isIPCIDRHeadlessRule rs"
    using "2.IH" [OF s(3) refl _ s(1)] s(4) by blast
  with s(2) show ?case by auto
next
  case (5 A env mgr i r rs)
  then obtain x xs where x: "NewHeadlessRule A env mgr r = Ok x" "sub_rules A env mgr (i + 1) rs = Ok xs" "Rs = x # xs"
    by (auto split: res.splits)
  have "hasHeadlessRule isIPCIDRHeadlessRule (r # rs) =
      (hasHeadlessRule isIPCIDRHeadlessRule [r] \<or> hasHeadlessRule isIPCIDRHeadlessRule rs)"
    by (cases r) auto
  with 5 x show ?case by auto
qed simp_all

lemma load_rules_cidr:
  "load_rules A env mgr i os = Ok Rs \<Longrightarrow>
     (\<exists>R \<in> set Rs. extractIPSetFromRule R \<noteq> []) \<longleftrightarrow> hasHeadlessRule isIPCIDRHeadlessRule os"
proof (induction os arbitrary: i Rs)
  case (Cons r rs)
  then obtain x xs where x: "NewHeadlessRule A env mgr r = Ok x" "load_rules A env mgr (i + 1) rs = Ok xs" "Rs = x # xs"
    by (auto split: res.splits)
  have "hasHeadlessRule isIPCIDRHeadlessRule (r # rs) =
      (hasHeadlessRule isIPCIDRHeadlessRule [r] \<or> hasHeadlessRule isIPCIDRHeadlessRule rs)"
    by (cases r) auto
  with Cons.IH [OF x(2)] NewHeadlessRule_cidr(1) [OF x(1)] x(3) show ?case by auto
qed simp

section \<open>Properties\<close>

text \<open>
  Every rule of a rule set that could be built from its options decides by the formula over
  its items, negation and logical connectives included.
\<close>

theorem headless_rule_decision:
  assumes "loops_ok L" and "NewHeadlessRule A env mgr o' = Ok R"
  shows "fst (rule_Match L env R (ResetRuleCache c)) =
         tree_formula (\<lambda>r. default_formula env r (ResetRuleCache c)) R"
proof -
  have p: "leaves plain_rule R" using NewHeadlessRule_wf(1) [OF assms(2)] by (rule leaves_mono) simp
  have "leaves (\<lambda>r. fst (abstractDefaultRule_Match env r (ResetRuleCache c))
      = default_formula env r (ResetRuleCache c)) R"
    using NewHeadlessRule_wf(1) [OF assms(2)] by (rule leaves_mono) (simp add: default_rule_decision)
  from tree_formula_cong [OF this] route.tree_result [OF assms(1) TrueI p, of env c]
  show ?thesis by simp
qed

text \<open>The options that ask for one destination port, and the rule built from them.\<close>

definition port_options :: "16 word \<Rightarrow> headless_options" where
  "port_options p = empty_headless\<lparr>o_Port := [p]\<rparr>"

lemmas build_eval = NewDefaultHeadlessRule_def step_defs add_if_def try_if_def raw_if_def or_else_def
  empty_headless_def empty_common_def common_options.defs headless_options.defs
  DefaultHeadlessRule_IsValid_def empty_rule_def

lemma port_options_rule:
  "NewHeadlessRule A env mgr (DefaultOptions (port_options p)) =
   Ok (DefaultRule ((empty_rule False ())\<lparr>destinationPortItems := [IPort (NewPortItem False [p])],
      allItems := [IPort (NewPortItem False [p])]\<rparr>))"
  by (simp add: port_options_def build_eval)

theorem headless_rule_decision_witness:
  "\<exists>R. NewHeadlessRule hd demo_rule_env True (DefaultOptions (port_options 443)) = Ok R \<and>
       fst (rule_Match loops_ref demo_rule_env R (demo_ctx 1000 443)) \<and>
       \<not> fst (rule_Match loops_ref demo_rule_env R (demo_ctx 1000 80))"
proof -
  note r = port_options_rule [of hd demo_rule_env True 443]
  note d = headless_rule_decision [OF loops_ref_ok r]
  from d [of "demo_ctx 1000 443"] d [of "demo_ctx 1000 80"] r show ?thesis
    by (simp del: rule_Match.simps)
       (simp add: default_formula_def decides_def empty_rule_def any_def every_def NewPortItem_def
          PortItem_Match_def demo_ctx_def del: rule_Match.simps)
qed

text \<open>
  A rule of a rule set whose only condition is on the type of the DNS query is accepted,
  but the condition is not used: the rule matches every connection and every query, inverted or
  not.
\<close>

theorem headless_query_type_ignored:
  assumes "q \<noteq> []"
  shows "\<exists>R. NewHeadlessRule A env mgr (DefaultOptions (empty_headless\<lparr>o_QueryType := q, o_Invert := b\<rparr>)) = Ok R \<and>
             (\<forall>c. fst (rule_Match L env R c))"
  using assms by (simp add: build_eval abstractDefaultRule_Match_def)

theorem headless_query_type_ignored_witness:
  "\<exists>R. NewHeadlessRule hd demo_rule_env True (DefaultOptions (empty_headless\<lparr>o_QueryType := [28], o_Invert := True\<rparr>)) = Ok R \<and>
       fst (rule_Match loops_ref demo_rule_env R (demo_ctx 1 2))"
  using headless_query_type_ignored [where q = "[28]" and A = hd and env = demo_rule_env and mgr = True and b = True and L = loops_ref,
    OF list.distinct(2)]
  by blast

text \<open>
  The constructors of route rules and of DNS rules put every item into one group and into
  the list of all items and keep the negation and the action.  So a rule without rule sets that
  could be built decides by its formula.
\<close>

theorem built_rules_decide:
  assumes "o_RuleSet o' = []" and "build = NewDefaultRule \<or> build = NewDefaultDNSRule"
    and "build env o' act = Inr r"
  shows "wf_rule r \<and> invert r = o_Invert o' \<and> action r = act \<and>
         fst (abstractDefaultRule_Match env r (ResetRuleCache c)) = default_formula env r (ResetRuleCache c)"
proof -
  from assms have "wf_rule r" "invert r = o_Invert o'" "action r = act" "plain_rule r"
    by (auto dest: NewDefaultRule_wf NewDefaultDNSRule_wf)
  then show ?thesis by (simp add: default_rule_decision)
qed

definition empty_full :: full_options where
  "empty_full = common_options.extend empty_common
     (full_options.fields [] 0 [] [] [] [] [] [] False False [] [] [] [] False False [] False False)"

lemmas build_full_eval = NewDefaultRule_def step_defs add_if_def try_if_def raw_if_def or_else_def
  fail_if_def ip_version_step_def empty_full_def empty_common_def common_options.defs full_options.defs
  empty_rule_def

theorem built_rules_decide_witness:
  "\<exists>r. NewDefaultRule demo_rule_env (empty_full\<lparr>o_Port := [443], o_Network := [''udp''], o_Invert := True\<rparr>) () = Inr r \<and>
       fst (abstractDefaultRule_Match demo_rule_env r (demo_ctx 1000 443))"
proof -
  let ?o = "empty_full\<lparr>o_Port := [443], o_Network := [''udp''], o_Invert := True\<rparr>"
  let ?r = "(empty_rule True ())\<lparr>items := [INetwork (NewNetworkItem [''udp''])],
     destinationPortItems := [IPort (NewPortItem False [443])],
     allItems := [INetwork (NewNetworkItem [''udp'']), IPort (NewPortItem False [443])]\<rparr>"
  have b: "NewDefaultRule demo_rule_env ?o () = Inr ?r" by (simp add: build_full_eval)
  have "o_RuleSet ?o = []" by (simp add: build_full_eval)
  from built_rules_decide [OF this disjI1 [OF refl] b, of "demo_ctx 1000 443"] b
  show ?thesis
    by (simp add: default_formula_def every_def NewNetworkItem_def NetworkItem_Match_def mk_names_def)
       (simp add: demo_ctx_def)
qed

text \<open>
  Loading a rule set is all or nothing: when a rule cannot be built the rule set keeps its
  rules and its metadata; otherwise its metadata says that it has conditions on destination
  networks exactly when an address set can be extracted from one of the new rules.
\<close>

theorem reloadRules_atomic:
  assumes "reloadRules A env mgr hs s = (s', r)"
  shows "(r \<noteq> Ok () \<longrightarrow> s' = s) \<and>
         (r = Ok () \<longrightarrow> (lrs_ContainsIPCIDRRule s' \<longleftrightarrow> (\<exists>R \<in> set (lrs_rules s'). extractIPSetFromRule R \<noteq> [])) \<and>
            lrs_tag s' = lrs_tag s \<and> lrs_refs s' = lrs_refs s)"
  using assms load_rules_cidr [of A env mgr 0 hs]
  by (auto simp: reloadRules_def split: res.splits)

theorem reloadRules_atomic_witness:
  "\<exists>s'. reloadRules hd demo_rule_env True [DefaultOptions (empty_headless\<lparr>o_IPSet := Some (\<lambda>_. True)\<rparr>)] (demo_set [])
          = (s', Ok ()) \<and> lrs_ContainsIPCIDRRule s' \<and> (\<exists>R \<in> set (lrs_rules s'). extractIPSetFromRule R \<noteq> [])"
proof -
  let ?run = "reloadRules hd demo_rule_env True [DefaultOptions (empty_headless\<lparr>o_IPSet := Some (\<lambda>_. True)\<rparr>)] (demo_set [])"
  obtain s' r where run: "?run = (s', r)" by fastforce
  have "snd ?run = Ok ()" "lrs_ContainsIPCIDRRule (fst ?run)"
    by (simp_all add: reloadRules_def isIPCIDRHeadlessRule_def build_eval)
  with run reloadRules_atomic [OF run] show ?thesis by auto
qed

end
