(* ===== verification/Cache_File.thy ===== *)
theory Cache_File
  imports Netip
begin

text \<open>
  The cache file (\<open>core/experimental/cachefile/cache.go\<close>, \<open>rdrc.go\<close>) and the saved rule sets in
  it (\<open>core/adapter/experimental.go\<close>).  It is a bolt database of nested buckets; the database is a
  parameter, given by what its buckets contain and by its write operations, each of which may
  fail.  What is pending in memory until a goroutine has written it is part of the state.
\<close>

section \<open>The database\<close>

text \<open>
  A bucket is named by its path.  \<open>bolt_names\<close> lists the buckets in a bucket (in the root for the
  empty path) in the order of \<open>ForEach\<close>.
\<close>

type_synonym path = "string list"

record 'd bolt =
  bolt_view :: "'d \<Rightarrow> path \<Rightarrow> (string \<rightharpoonup> string) option"
  bolt_names :: "'d \<Rightarrow> path \<Rightarrow> string list"
  bolt_CreateBucketIfNotExists :: "path \<Rightarrow> string \<Rightarrow> 'd \<Rightarrow> go_error + 'd"
  bolt_DeleteBucket :: "path \<Rightarrow> string \<Rightarrow> 'd \<Rightarrow> go_error + 'd"
  bolt_Put :: "path \<Rightarrow> string \<Rightarrow> string \<Rightarrow> 'd \<Rightarrow> go_error + 'd"
  bolt_Delete :: "path \<Rightarrow> string \<Rightarrow> 'd \<Rightarrow> go_error + 'd"
  bolt_Commit :: "'d \<Rightarrow> go_error option"

definition is_under :: "path \<Rightarrow> path \<Rightarrow> bool" where
  "is_under p q = (take (length p) q = p)"

text \<open>
  What bolt documents of a successful operation, that a bucket that is not there cannot be
  deleted, and that the buckets form a tree.
\<close>

definition bolt_ok :: "'d bolt \<Rightarrow> bool" where
  "bolt_ok B \<longleftrightarrow>
     (\<forall>d p n d'. bolt_CreateBucketIfNotExists B p n d = Inr d' \<longrightarrow>
        bolt_view B d' = (bolt_view B d)(p @ [n] :=
          Some (case bolt_view B d (p @ [n]) of None \<Rightarrow> Map.empty | Some m \<Rightarrow> m))) \<and>
     (\<forall>d p n d'. bolt_DeleteBucket B p n d = Inr d' \<longrightarrow>
        bolt_view B d (p @ [n]) \<noteq> None \<and>
        bolt_view B d' = (\<lambda>q. if is_under (p @ [n]) q then None else bolt_view B d q)) \<and>
     (\<forall>d p k v d'. bolt_Put B p k v d = Inr d' \<longrightarrow>
        (\<exists>m. bolt_view B d p = Some m \<and> bolt_view B d' = (bolt_view B d)(p := Some (m(k \<mapsto> v))))) \<and>
     (\<forall>d p k d'. bolt_Delete B p k d = Inr d' \<longrightarrow>
        (\<exists>m. bolt_view B d p = Some m \<and> bolt_view B d' = (bolt_view B d)(p := Some (m(k := None))))) \<and>
     (\<forall>d p n. bolt_view B d (p @ [n]) \<noteq> None \<longrightarrow> p \<noteq> [] \<longrightarrow> bolt_view B d p \<noteq> None) \<and>
     (\<forall>d p. set (bolt_names B d p) = {n. bolt_view B d (p @ [n]) \<noteq> None})"

text \<open>\<open>Batch\<close> and \<open>Update\<close>: all writes of the function, or none of them.\<close>

definition db_Batch :: "'d bolt \<Rightarrow> ('d \<Rightarrow> go_error + 'd) \<Rightarrow> 'd \<Rightarrow> go_error option \<times> 'd" where
  "db_Batch B fn d =
     (case fn d of
        Inl e \<Rightarrow> (Some e, d)
      | Inr d' \<Rightarrow> (case bolt_Commit B d' of Some e \<Rightarrow> (Some e, d) | None \<Rightarrow> (None, d')))"

lemma db_Batch_None: "db_Batch B fn d = (None, d') \<longleftrightarrow> fn d = Inr d' \<and> bolt_Commit B d' = None"
  by (auto simp: db_Batch_def split: sum.splits option.splits)

lemma db_Batch_Some: "db_Batch B fn d = (Some e, d') \<Longrightarrow> d' = d"
  by (auto simp: db_Batch_def split: sum.splits option.splits)

lemma bolt_Create_view:
  "bolt_ok B \<Longrightarrow> bolt_CreateBucketIfNotExists B p n d = Inr d' \<Longrightarrow>
   bolt_view B d' = (bolt_view B d)(p @ [n] :=
     Some (case bolt_view B d (p @ [n]) of None \<Rightarrow> Map.empty | Some m \<Rightarrow> m))"
  by (simp add: bolt_ok_def)

lemma bolt_Put_view:
  "bolt_ok B \<Longrightarrow> bolt_Put B p k v d = Inr d' \<Longrightarrow>
   \<exists>m. bolt_view B d p = Some m \<and> bolt_view B d' = (bolt_view B d)(p := Some (m(k \<mapsto> v)))"
  unfolding bolt_ok_def by (elim conjE) blast

lemma bolt_Delete_view:
  "bolt_ok B \<Longrightarrow> bolt_Delete B p k d = Inr d' \<Longrightarrow>
   \<exists>m. bolt_view B d p = Some m \<and> bolt_view B d' = (bolt_view B d)(p := Some (m(k := None)))"
  unfolding bolt_ok_def by (elim conjE) blast

lemma bolt_DeleteBucket_view:
  "bolt_ok B \<Longrightarrow> bolt_DeleteBucket B p n d = Inr d' \<Longrightarrow>
   bolt_view B d (p @ [n]) \<noteq> None \<and>
   bolt_view B d' = (\<lambda>q. if is_under (p @ [n]) q then None else bolt_view B d q)"
  unfolding bolt_ok_def by (elim conjE) simp

lemma bolt_parent:
  assumes "bolt_ok B" and "bolt_view B d p = None" and "p \<noteq> []"
  shows "bolt_view B d (p @ [n]) = None"
proof -
  have "\<forall>d p n. bolt_view B d (p @ [n]) \<noteq> None \<longrightarrow> p \<noteq> [] \<longrightarrow> bolt_view B d p \<noteq> None"
    using assms(1) unfolding bolt_ok_def by (elim conjE)
  then have "bolt_view B d (p @ [n]) \<noteq> None \<longrightarrow> p \<noteq> [] \<longrightarrow> bolt_view B d p \<noteq> None" by blast
  with assms(2,3) show ?thesis by simp
qed

lemma bolt_names_view:
  "bolt_ok B \<Longrightarrow> n \<in> set (bolt_names B d p) \<longleftrightarrow> bolt_view B d (p @ [n]) \<noteq> None"
  unfolding bolt_ok_def by auto

section \<open>State\<close>

record cache_options =
  co_Path :: string
  co_CacheID :: string
  co_StoreFakeIP :: bool
  co_StoreRDRC :: bool
  co_RDRCTimeout :: int

record cache_config =
  cf_path :: string
  cf_cacheID :: string
  cf_storeFakeIP :: bool
  cf_storeRDRC :: bool
  cf_rdrcTimeout :: int

text \<open>
  The goroutines that write entries in the background: first the database, then, in a second
  step, they drop the pending entry.  The flag says that the first step is done.
\<close>

datatype save_job = FakeIPJob addr string | RDRCJob string string "16 word"

text \<open>
  A cache file after \<open>Start\<close>.  \<open>saveMetadataTimer\<close> is the metadata its callback captured and
  whether it is armed.  A nil \<open>cacheID\<close> is the empty string.
\<close>

record 'd CacheFile = cache_config +
  cf_DB :: 'd
  cf_saveMetadataTimer :: "(FakeIPMetadata \<times> bool) option"
  cf_saveDomain :: "addr \<rightharpoonup> string"
  cf_saveAddress4 :: "string \<rightharpoonup> addr"
  cf_saveAddress6 :: "string \<rightharpoonup> addr"
  cf_saveRDRC :: "string \<times> string \<times> 16 word \<Rightarrow> bool"
  cf_jobs :: "(save_job \<times> bool) list"

definition bucketSelected :: string where "bucketSelected = ''selected''"
definition bucketExpand :: string where "bucketExpand = ''group_expand''"
definition bucketMode :: string where "bucketMode = ''clash_mode''"
definition bucketRuleSet :: string where "bucketRuleSet = ''rule_set''"
definition bucketRDRC :: string where "bucketRDRC = ''rdrc2''"
definition cacheIDDefault :: string where "cacheIDDefault = ''default''"
definition fakeipBucketPrefix :: string where "fakeipBucketPrefix = ''fakeip_''"

definition bucketNameList :: "string list" where
  "bucketNameList = [bucketSelected, bucketExpand, bucketMode, bucketRuleSet, bucketRDRC]"

lemmas bucket_names = bucketSelected_def bucketExpand_def bucketMode_def bucketRuleSet_def
  bucketRDRC_def cacheIDDefault_def fakeipBucketPrefix_def

definition cache_New :: "(string \<Rightarrow> string) \<Rightarrow> cache_options \<Rightarrow> cache_config" where
  "cache_New filemanager_BasePath options =
     \<lparr>cf_path = filemanager_BasePath (if co_Path options \<noteq> [] then co_Path options else ''cache.db''),
      cf_cacheID = (if co_CacheID options \<noteq> [] then char_of (0 :: nat) # co_CacheID options else []),
      cf_storeFakeIP = co_StoreFakeIP options,
      cf_storeRDRC = co_StoreRDRC options,
      cf_rdrcTimeout =
        (if co_StoreRDRC options
         then if co_RDRCTimeout options > 0 then co_RDRCTimeout options
              else 7 * 24 * 3600 * 1000000000
         else 0)\<rparr>"

section \<open>Start\<close>

text \<open>
  The errors of \<open>bbolt.Open\<close> as \<open>Start\<close> tells them apart; \<open>open_try i\<close> is the answer of the
  \<open>i\<close>-th attempt and \<open>remove_ok i\<close> says whether the file could be removed after it.
\<close>

datatype open_error = OpenTimeout go_error | OpenCorrupt go_error | OpenOther go_error

record 'd open_env =
  open_try :: "nat \<Rightarrow> open_error + 'd"
  remove_ok :: "nat \<Rightarrow> bool"
  chown_result :: "go_error option"

fun open_loop :: "'d open_env \<Rightarrow> nat \<Rightarrow> nat \<Rightarrow> go_error option \<Rightarrow> go_error + 'd option" where
  "open_loop E i 0 err = (case err of Some e \<Rightarrow> Inl e | None \<Rightarrow> Inr None)"
| "open_loop E i (Suc n) err =
     (case open_try E i of
        Inr db \<Rightarrow> Inr (Some db)
      | Inl (OpenTimeout e) \<Rightarrow> open_loop E (i + 1) n (Some e)
      | Inl (OpenCorrupt e) \<Rightarrow> if \<not> remove_ok E i then Inl e else open_loop E (i + 1) n (Some e)
      | Inl (OpenOther e) \<Rightarrow> open_loop E (i + 1) n (Some e))"

text \<open>
  The cleaning of the database.  The walk visits the buckets that were there when it began.
  Errors of the deletions are dropped.  In a bucket of a cache ID, whose name begins with a zero
  byte, the bucket the source deletes is the one with the name of the cache ID.
\<close>

definition try_DeleteBucket :: "'d bolt \<Rightarrow> path \<Rightarrow> string \<Rightarrow> 'd \<Rightarrow> 'd" where
  "try_DeleteBucket B p n d = (case bolt_DeleteBucket B p n d of Inl _ \<Rightarrow> d | Inr d' \<Rightarrow> d')"

definition is_cache_id :: "string \<Rightarrow> bool" where
  "is_cache_id name = (name \<noteq> [] \<and> hd name = char_of (0 :: nat))"

definition clean_bucket :: "'d bolt \<Rightarrow> string \<Rightarrow> 'd \<Rightarrow> 'd" where
  "clean_bucket B name d =
     (if is_cache_id name
      then fold (\<lambda>k d. if k \<notin> set bucketNameList then try_DeleteBucket B [name] name d else d)
             (bolt_names B d [name]) d
      else if \<not> (name \<in> set bucketNameList \<or> strings_HasPrefix name fakeipBucketPrefix)
      then try_DeleteBucket B [] name d
      else d)"

definition clean_database :: "'d bolt \<Rightarrow> 'd \<Rightarrow> 'd" where
  "clean_database B d = fold (clean_bucket B) (bolt_names B d []) d"

definition cache_Start ::
    "'d bolt \<Rightarrow> 'd open_env \<Rightarrow> cache_config \<Rightarrow> go_error + 'd CacheFile option" where
  "cache_Start B E cfg =
     (case open_loop E 0 10 None of
        Inl e \<Rightarrow> Inl e
      | Inr None \<Rightarrow> Inr None
      | Inr (Some db) \<Rightarrow>
          (case chown_result E of
             Some e \<Rightarrow> Inl (ECause e [AStr ''platform chown''])
           | None \<Rightarrow>
               (case db_Batch B (\<lambda>d. Inr (clean_database B d)) db of
                  (Some e, _) \<Rightarrow> Inl e
                | (None, d) \<Rightarrow>
                    Inr (Some (cache_config.extend cfg
                      (CacheFile.fields d None Map.empty Map.empty Map.empty (\<lambda>_. False) []))))))"

section \<open>Modes, selections and rule sets\<close>

definition cf_Batch ::
    "'d bolt \<Rightarrow> ('d \<Rightarrow> go_error + 'd) \<Rightarrow> 'd CacheFile \<Rightarrow> go_error option \<times> 'd CacheFile" where
  "cf_Batch B fn c = (case db_Batch B fn (cf_DB c) of (e, d) \<Rightarrow> (e, c\<lparr>cf_DB := d\<rparr>))"

definition bucket_get :: "'d bolt \<Rightarrow> 'd \<Rightarrow> path option \<Rightarrow> string \<Rightarrow> string option" where
  "bucket_get B d b k =
     (case b of None \<Rightarrow> None
      | Some p \<Rightarrow> (case bolt_view B d p of None \<Rightarrow> None | Some m \<Rightarrow> m k))"

definition cf_bucket :: "'d bolt \<Rightarrow> 'd CacheFile \<Rightarrow> 'd \<Rightarrow> string \<Rightarrow> path option" where
  "cf_bucket B c d key =
     (if cf_cacheID c = []
      then if bolt_view B d [key] \<noteq> None then Some [key] else None
      else if bolt_view B d [cf_cacheID c] = None then None
      else if bolt_view B d [cf_cacheID c, key] \<noteq> None then Some [cf_cacheID c, key] else None)"

definition cf_createBucket ::
    "'d bolt \<Rightarrow> 'd CacheFile \<Rightarrow> string \<Rightarrow> 'd \<Rightarrow> go_error + path \<times> 'd" where
  "cf_createBucket B c key d =
     (if cf_cacheID c = []
      then bindE (bolt_CreateBucketIfNotExists B [] key d) (\<lambda>d'. Inr ([key], d'))
      else
        bindE (bolt_CreateBucketIfNotExists B [] (cf_cacheID c) d) (\<lambda>d1.
        bindE (bolt_CreateBucketIfNotExists B [cf_cacheID c] key d1) (\<lambda>d2.
          Inr ([cf_cacheID c, key], d2))))"

definition mode_key :: "'d CacheFile \<Rightarrow> string" where
  "mode_key c = (if length (cf_cacheID c) > 0 then cf_cacheID c else cacheIDDefault)"

definition LoadMode :: "'d bolt \<Rightarrow> 'd CacheFile \<Rightarrow> string" where
  "LoadMode B c =
     (case bolt_view B (cf_DB c) [bucketMode] of
        None \<Rightarrow> []
      | Some m \<Rightarrow> (case m (mode_key c) of None \<Rightarrow> [] | Some v \<Rightarrow> v))"

definition StoreMode :: "'d bolt \<Rightarrow> string \<Rightarrow> 'd CacheFile \<Rightarrow> go_error option \<times> 'd CacheFile" where
  "StoreMode B mode c =
     cf_Batch B (\<lambda>d. bindE (bolt_CreateBucketIfNotExists B [] bucketMode d)
       (bolt_Put B [bucketMode] (mode_key c) mode)) c"

definition LoadSelected :: "'d bolt \<Rightarrow> 'd CacheFile \<Rightarrow> string \<Rightarrow> string" where
  "LoadSelected B c grp =
     (case bucket_get B (cf_DB c) (cf_bucket B c (cf_DB c) bucketSelected) grp of
        None \<Rightarrow> [] | Some v \<Rightarrow> v)"

definition StoreSelected ::
    "'d bolt \<Rightarrow> string \<Rightarrow> string \<Rightarrow> 'd CacheFile \<Rightarrow> go_error option \<times> 'd CacheFile" where
  "StoreSelected B grp selected c =
     cf_Batch B (\<lambda>d. bindE (cf_createBucket B c bucketSelected d)
       (\<lambda>(p, d'). bolt_Put B p grp selected d')) c"

definition LoadGroupExpand :: "'d bolt \<Rightarrow> 'd CacheFile \<Rightarrow> string \<Rightarrow> bool \<times> bool" where
  "LoadGroupExpand B c grp =
     (case bucket_get B (cf_DB c) (cf_bucket B c (cf_DB c) bucketExpand) grp of
        None \<Rightarrow> (False, False)
      | Some v \<Rightarrow> if length v = 1 then (hd v = char_of (1 :: nat), True) else (False, False))"

definition StoreGroupExpand ::
    "'d bolt \<Rightarrow> string \<Rightarrow> bool \<Rightarrow> 'd CacheFile \<Rightarrow> go_error option \<times> 'd CacheFile" where
  "StoreGroupExpand B grp isExpand c =
     cf_Batch B (\<lambda>d. bindE (cf_createBucket B c bucketExpand d)
       (\<lambda>(p, d'). bolt_Put B p grp [char_of (if isExpand then 1 else 0 :: nat)] d')) c"

text \<open>A saved rule set.  \<open>LastUpdated\<close> is in nanoseconds; only whole seconds are written.\<close>

record SavedBinary =
  sb_Content :: string
  sb_LastUpdated :: int
  sb_LastEtag :: string

record varbin =
  varbin_Write :: "string \<Rightarrow> go_error + string"
  varbin_Read :: "string \<Rightarrow> go_error + string \<times> string"

definition varbin_ok :: "varbin \<Rightarrow> bool" where
  "varbin_ok V = (\<forall>s b r. varbin_Write V s = Inr b \<longrightarrow> varbin_Read V (b @ r) = Inr (s, r))"

definition unix_seconds :: "int \<Rightarrow> 64 word" where
  "unix_seconds t = word_of_int (t div 1000000000)"

definition SavedBinary_MarshalBinary :: "varbin \<Rightarrow> SavedBinary \<Rightarrow> go_error + string" where
  "SavedBinary_MarshalBinary V s =
     bindE (varbin_Write V (sb_Content s)) (\<lambda>content.
     bindE (varbin_Write V (sb_LastEtag s)) (\<lambda>etag.
       Inr (char_of (1 :: nat) # content @ be_bytes 8 (unat (unix_seconds (sb_LastUpdated s))) @ etag)))"

definition SavedBinary_UnmarshalBinary :: "varbin \<Rightarrow> string \<Rightarrow> go_error + SavedBinary" where
  "SavedBinary_UnmarshalBinary V data =
     (if data = [] then Inl (EForeign ''EOF'')
      else bindE (varbin_Read V (tl data)) (\<lambda>(content, r).
        if length r < 8 then Inl (EForeign (if r = [] then ''EOF'' else ''unexpected EOF''))
        else bindE (varbin_Read V (drop 8 r)) (\<lambda>(etag, _).
          Inr \<lparr>sb_Content = content,
               sb_LastUpdated = sint (word_of_nat (be_value (take 8 r)) :: 64 word) * 1000000000,
               sb_LastEtag = etag\<rparr>)))"

definition LoadRuleSet :: "'d bolt \<Rightarrow> varbin \<Rightarrow> 'd CacheFile \<Rightarrow> string \<Rightarrow> SavedBinary option" where
  "LoadRuleSet B V c tag =
     (case bucket_get B (cf_DB c) (cf_bucket B c (cf_DB c) bucketRuleSet) tag of
        None \<Rightarrow> None
      | Some setBinary \<Rightarrow>
          if setBinary = [] then None
          else case SavedBinary_UnmarshalBinary V setBinary of Inl _ \<Rightarrow> None | Inr s \<Rightarrow> Some s)"

definition SaveRuleSet ::
    "'d bolt \<Rightarrow> varbin \<Rightarrow> string \<Rightarrow> SavedBinary \<Rightarrow> 'd CacheFile \<Rightarrow> go_error option \<times> 'd CacheFile" where
  "SaveRuleSet B V tag s c =
     cf_Batch B (\<lambda>d. bindE (cf_createBucket B c bucketRuleSet d)
       (\<lambda>(p, d'). bindE (SavedBinary_MarshalBinary V s) (\<lambda>b. bolt_Put B p tag b d'))) c"

section \<open>Rejected DNS responses\<close>

definition rdrc_key :: "string \<Rightarrow> 16 word \<Rightarrow> string" where
  "rdrc_key qName qType = be_bytes 2 (unat qType) @ qName"

definition rdrc_bucket :: "'d bolt \<Rightarrow> 'd CacheFile \<Rightarrow> 'd \<Rightarrow> string \<Rightarrow> path option" where
  "rdrc_bucket B c d transportName =
     (case cf_bucket B c d bucketRDRC of
        None \<Rightarrow> None
      | Some p \<Rightarrow> if bolt_view B d (p @ [transportName]) \<noteq> None then Some (p @ [transportName]) else None)"

definition rdrc_delete ::
    "'d bolt \<Rightarrow> string \<Rightarrow> string \<Rightarrow> 16 word \<Rightarrow> 'd CacheFile \<Rightarrow> 'd CacheFile" where
  "rdrc_delete B transportName qName qType c =
     snd (cf_Batch B (\<lambda>d. case rdrc_bucket B c d transportName of
                            None \<Rightarrow> Inr d
                          | Some p \<Rightarrow> bolt_Delete B p (rdrc_key qName qType) d) c)"

text \<open>The time \<open>now\<close> is in nanoseconds.  An entry of less than eight bytes makes the decoder panic.\<close>

definition LoadRDRC ::
    "'d bolt \<Rightarrow> int \<Rightarrow> string \<Rightarrow> string \<Rightarrow> 16 word \<Rightarrow> 'd CacheFile \<Rightarrow> bool res \<times> 'd CacheFile" where
  "LoadRDRC B now transportName qName qType c =
     (if cf_saveRDRC c (transportName, qName, qType) then (Ok True, c)
      else case bucket_get B (cf_DB c) (rdrc_bucket B c (cf_DB c) transportName) (rdrc_key qName qType) of
        None \<Rightarrow> (Ok False, c)
      | Some content \<Rightarrow>
          if length content < 8 then (Panic ''index out of range'', c)
          else
            let expiresAt = sint (word_of_nat (be_value (take 8 content)) :: 64 word) * 1000000000 in
            if now > expiresAt
            then (Ok False, rdrc_delete B transportName qName qType c)
            else (Ok True, c))"

definition SaveRDRC ::
    "'d bolt \<Rightarrow> int \<Rightarrow> string \<Rightarrow> string \<Rightarrow> 16 word \<Rightarrow> 'd CacheFile \<Rightarrow> go_error option \<times> 'd CacheFile" where
  "SaveRDRC B now transportName qName qType c =
     cf_Batch B (\<lambda>d. bindE (cf_createBucket B c bucketRDRC d) (\<lambda>(p, d1).
       bindE (bolt_CreateBucketIfNotExists B p transportName d1)
         (bolt_Put B (p @ [transportName]) (rdrc_key qName qType)
            (be_bytes 8 (unat (unix_seconds (now + cf_rdrcTimeout c))))))) c"

definition SaveRDRCAsync :: "string \<Rightarrow> string \<Rightarrow> 16 word \<Rightarrow> 'd CacheFile \<Rightarrow> 'd CacheFile" where
  "SaveRDRCAsync transportName qName qType c =
     c\<lparr>cf_saveRDRC := (cf_saveRDRC c)((transportName, qName, qType) := True),
       cf_jobs := cf_jobs c @ [(RDRCJob transportName qName qType, False)]\<rparr>"

section \<open>What a write changes\<close>

definition cf_path_of :: "'d CacheFile \<Rightarrow> string \<Rightarrow> path" where
  "cf_path_of c key = (if cf_cacheID c = [] then [key] else [cf_cacheID c, key])"

lemma cf_bucket_eq:
  "bolt_ok B \<Longrightarrow> cf_bucket B c d key =
     (if bolt_view B d (cf_path_of c key) = None then None else Some (cf_path_of c key))"
  using bolt_parent [of B d "[cf_cacheID c]" key]
  by (auto simp: cf_bucket_def cf_path_of_def)

lemma bucket_get_cf_bucket:
  "bolt_ok B \<Longrightarrow> bucket_get B d (cf_bucket B c d key) k =
     (case bolt_view B d (cf_path_of c key) of None \<Rightarrow> None | Some m \<Rightarrow> m k)"
  by (simp add: cf_bucket_eq bucket_get_def)

text \<open>Creating a bucket only adds empty ones: no lookup changes.\<close>

definition content :: "'d bolt \<Rightarrow> 'd \<Rightarrow> path \<Rightarrow> string \<rightharpoonup> string" where
  "content B d p = case_option Map.empty (\<lambda>m. m) (bolt_view B d p)"

lemma content_get: "(case bolt_view B d p of None \<Rightarrow> None | Some m \<Rightarrow> m k) = content B d p k"
  by (simp add: content_def split: option.splits)

lemma bolt_Create_content:
  "bolt_ok B \<Longrightarrow> bolt_CreateBucketIfNotExists B p n d = Inr d' \<Longrightarrow>
   content B d' = content B d \<and> bolt_view B d' (p @ [n]) \<noteq> None"
  by (drule (1) bolt_Create_view) (auto simp: content_def fun_eq_iff split: option.splits)

lemma bolt_Put_content:
  "bolt_ok B \<Longrightarrow> bolt_Put B p k v d = Inr d' \<Longrightarrow>
   content B d' = (content B d)(p := (content B d p)(k \<mapsto> v))"
  by (drule (1) bolt_Put_view) (auto simp: content_def fun_eq_iff)

lemma bolt_Delete_content:
  "bolt_ok B \<Longrightarrow> bolt_Delete B p k d = Inr d' \<Longrightarrow>
   content B d' = (content B d)(p := (content B d p)(k := None))"
  by (drule (1) bolt_Delete_view) (auto simp: content_def fun_eq_iff)

lemma cf_createBucket_content:
  assumes "bolt_ok B" and "cf_createBucket B c key d = Inr (p, d')"
  shows "p = cf_path_of c key \<and> content B d' = content B d"
  using assms(2)
  by (auto simp: cf_createBucket_def cf_path_of_def bindE_Inr
      dest!: bolt_Create_content [OF assms(1)] split: if_splits)

lemma cf_Batch_None:
  "cf_Batch B fn c = (None, c') \<longleftrightarrow>
   (\<exists>d'. fn (cf_DB c) = Inr d' \<and> bolt_Commit B d' = None \<and> c' = c\<lparr>cf_DB := d'\<rparr>)"
  by (cases "db_Batch B fn (cf_DB c)") (auto simp: cf_Batch_def db_Batch_def split: sum.splits option.splits)

lemma cf_Batch_Some: "cf_Batch B fn c = (Some e, c') \<Longrightarrow> c' = c"
  by (auto simp: cf_Batch_def dest: db_Batch_Some split: prod.splits)

lemma cf_Put_content:
  assumes "bolt_ok B"
    and "cf_Batch B (\<lambda>d. bindE (cf_createBucket B c key d) (\<lambda>(p, d'). bolt_Put B p k v d')) c = (None, c')"
  shows "\<exists>d'. c' = c\<lparr>cf_DB := d'\<rparr> \<and>
    content B d' = (content B (cf_DB c))(cf_path_of c key := (content B (cf_DB c) (cf_path_of c key))(k \<mapsto> v))"
proof -
  from assms(2) obtain p d1 d2 where "cf_createBucket B c key (cf_DB c) = Inr (p, d1)"
    and "bolt_Put B p k v d1 = Inr d2" and "c' = c\<lparr>cf_DB := d2\<rparr>"
    by (auto simp: cf_Batch_None bindE_Inr)
  then show ?thesis
    using cf_createBucket_content [OF assms(1)] bolt_Put_content [OF assms(1)] by fastforce
qed

lemma LoadSelected_content:
  "bolt_ok B \<Longrightarrow> LoadSelected B c grp =
     (case content B (cf_DB c) (cf_path_of c bucketSelected) grp of None \<Rightarrow> [] | Some v \<Rightarrow> v)"
  by (simp add: LoadSelected_def bucket_get_cf_bucket content_get)

lemma LoadGroupExpand_content:
  "bolt_ok B \<Longrightarrow> LoadGroupExpand B c grp =
     (case content B (cf_DB c) (cf_path_of c bucketExpand) grp of
        None \<Rightarrow> (False, False)
      | Some v \<Rightarrow> if length v = 1 then (hd v = char_of (1 :: nat), True) else (False, False))"
  by (simp add: LoadGroupExpand_def bucket_get_cf_bucket content_get)

lemma LoadRuleSet_content:
  "bolt_ok B \<Longrightarrow> LoadRuleSet B V c tag =
     (case content B (cf_DB c) (cf_path_of c bucketRuleSet) tag of
        None \<Rightarrow> None
      | Some b \<Rightarrow> if b = [] then None
                  else case SavedBinary_UnmarshalBinary V b of Inl _ \<Rightarrow> None | Inr s \<Rightarrow> Some s)"
  by (simp add: LoadRuleSet_def bucket_get_cf_bucket content_get)

lemma LoadMode_content:
  "LoadMode B c =
     (case content B (cf_DB c) [bucketMode] (mode_key c) of None \<Rightarrow> [] | Some v \<Rightarrow> v)"
  by (simp add: LoadMode_def content_def split: option.splits)

section \<open>Cleaning\<close>

definition known_bucket :: "string \<Rightarrow> bool" where
  "known_bucket name \<longleftrightarrow> name \<in> set bucketNameList \<or> strings_HasPrefix name fakeipBucketPrefix"

text \<open>The buckets that the cleaning may remove.\<close>

fun removable :: "path \<Rightarrow> bool" where
  "removable [] = False"
| "removable (n # r) = (if is_cache_id n then r \<noteq> [] \<and> hd r = n else \<not> known_bucket n)"

lemma try_DeleteBucket_view:
  "bolt_ok B \<Longrightarrow> \<not> is_under (p @ [n]) q \<Longrightarrow> bolt_view B (try_DeleteBucket B p n d) q = bolt_view B d q"
  by (auto simp: try_DeleteBucket_def dest!: bolt_DeleteBucket_view split: sum.splits)

lemma is_under_pair: "is_under [a, b] q \<longleftrightarrow> (\<exists>r. q = a # b # r)"
  by (cases q; cases "tl q") (auto simp: is_under_def)

lemma is_under_single: "is_under [a] q \<longleftrightarrow> (\<exists>r. q = a # r)"
  by (cases q) (auto simp: is_under_def)

lemma fold_view:
  "(\<And>x d. x \<in> set xs \<Longrightarrow> v (f x d) = v d) \<Longrightarrow> v (fold f xs d) = v d"
  by (induction xs arbitrary: d) auto

lemma clean_bucket_keeps:
  assumes "bolt_ok B" and "\<not> removable q"
  shows "bolt_view B (clean_bucket B name d) q = bolt_view B d q"
proof -
  have nested: "is_cache_id name \<Longrightarrow> bolt_view B (try_DeleteBucket B [name] name d) q = bolt_view B d q" for d
    using assms by (intro try_DeleteBucket_view) (auto simp: is_under_pair)
  have top: "\<not> is_cache_id name \<Longrightarrow> \<not> known_bucket name \<Longrightarrow>
      bolt_view B (try_DeleteBucket B [] name d) q = bolt_view B d q"
    using assms by (intro try_DeleteBucket_view) (auto simp: is_under_single)
  show ?thesis
    by (auto simp: clean_bucket_def nested top known_bucket_def [symmetric]
        intro!: fold_view [where v = "\<lambda>d. bolt_view B d q"])
qed

lemma clean_database_keeps:
  "bolt_ok B \<Longrightarrow> \<not> removable q \<Longrightarrow> bolt_view B (clean_database B d) q = bolt_view B d q"
  unfolding clean_database_def
  by (rule fold_view [where v = "\<lambda>d. bolt_view B d q"]) (rule clean_bucket_keeps)

text \<open>A bucket at the top never comes back, and an outdated one goes if its deletion works.\<close>

lemma try_DeleteBucket_mono:
  "bolt_ok B \<Longrightarrow> bolt_view B d q = None \<Longrightarrow> bolt_view B (try_DeleteBucket B p n d) q = None"
  by (auto simp: try_DeleteBucket_def dest!: bolt_DeleteBucket_view split: sum.splits)

lemma clean_bucket_mono:
  assumes "bolt_ok B" and "bolt_view B d q = None"
  shows "bolt_view B (clean_bucket B name d) q = None"
proof -
  have "bolt_view B (fold (\<lambda>k d. if k \<notin> set bucketNameList then try_DeleteBucket B [name] name d else d) ks d) q = None"
    for ks using assms(2)
    by (induction ks arbitrary: d) (auto simp: try_DeleteBucket_mono [OF assms(1)])
  then show ?thesis using try_DeleteBucket_mono [OF assms] assms(2) by (simp add: clean_bucket_def)
qed

lemma clean_fold_mono:
  "bolt_ok B \<Longrightarrow> bolt_view B d q = None \<Longrightarrow> bolt_view B (fold (clean_bucket B) ns d) q = None"
  by (induction ns arbitrary: d) (auto simp: clean_bucket_mono)

definition deletes_work :: "'d bolt \<Rightarrow> bool" where
  "deletes_work B \<longleftrightarrow> (\<forall>d n. bolt_view B d [n] \<noteq> None \<longrightarrow> (\<exists>d'. bolt_DeleteBucket B [] n d = Inr d'))"

lemma clean_bucket_removes:
  assumes "bolt_ok B" and "deletes_work B" and "\<not> is_cache_id n" and "\<not> known_bucket n"
  shows "bolt_view B (clean_bucket B n d) [n] = None"
proof (cases "bolt_view B d [n]")
  case None
  then show ?thesis by (rule clean_bucket_mono [OF assms(1)])
next
  case (Some m)
  with assms(2) obtain d' where d': "bolt_DeleteBucket B [] n d = Inr d'"
    by (auto simp: deletes_work_def)
  have "bolt_view B d' [n] = None"
    using bolt_DeleteBucket_view [OF assms(1) d'] by (simp add: is_under_def)
  then show ?thesis
    using assms(3,4) d' by (simp add: clean_bucket_def known_bucket_def try_DeleteBucket_def)
qed

lemma clean_fold_removes:
  assumes "bolt_ok B" and "deletes_work B" and "\<not> is_cache_id n" and "\<not> known_bucket n"
  shows "n \<in> set ns \<Longrightarrow> bolt_view B (fold (clean_bucket B) ns d) [n] = None"
proof (induction ns arbitrary: d)
  case (Cons a ns)
  show ?case
  proof (cases "a = n")
    case True
    then show ?thesis using clean_bucket_removes [OF assms] clean_fold_mono [OF assms(1)] by simp
  next
    case False
    then show ?thesis using Cons by simp
  qed
qed simp

lemma clean_database_removes:
  assumes "bolt_ok B" and "deletes_work B" and "\<not> is_cache_id n" and "\<not> known_bucket n"
  shows "bolt_view B (clean_database B d) [n] = None"
proof (cases "bolt_view B d [n]")
  case None
  then show ?thesis unfolding clean_database_def by (rule clean_fold_mono [OF assms(1)])
next
  case (Some m)
  then have "n \<in> set (bolt_names B d [])" using bolt_names_view [OF assms(1), of n d "[]"] by simp
  then show ?thesis unfolding clean_database_def by (rule clean_fold_removes [OF assms])
qed

lemma cache_Start_DB:
  "cache_Start B E cfg = Inr (Some c) \<Longrightarrow>
   \<exists>d. open_loop E 0 10 None = Inr (Some d) \<and> cf_DB c = clean_database B d"
  by (auto simp: cache_Start_def CacheFile.defs cache_config.defs db_Batch_def split: sum.splits option.splits)

section \<open>A database of trees\<close>

text \<open>
  A database that satisfies \<open>bolt_ok\<close> and can be evaluated: buckets are trees, an association
  list of entries and one of sub-buckets, of which the first entry counts.
\<close>

datatype btree = BTree "(string \<times> string) list" "(string \<times> btree) list"

fun bt_entries :: "btree \<Rightarrow> (string \<times> string) list" where
  "bt_entries (BTree kv subs) = kv"

fun bt_subs :: "btree \<Rightarrow> (string \<times> btree) list" where
  "bt_subs (BTree kv subs) = subs"

fun bt_sub :: "btree \<Rightarrow> path \<Rightarrow> btree option" where
  "bt_sub t [] = Some t"
| "bt_sub t (n # p) = (case map_of (bt_subs t) n of None \<Rightarrow> None | Some s \<Rightarrow> bt_sub s p)"

fun bt_at :: "path \<Rightarrow> (btree \<Rightarrow> go_error + btree) \<Rightarrow> btree \<Rightarrow> go_error + btree" where
  "bt_at [] f t = f t"
| "bt_at (n # p) f t =
     (case map_of (bt_subs t) n of
        None \<Rightarrow> Inl (EForeign ''bucket not found'')
      | Some s \<Rightarrow> bindE (bt_at p f s) (\<lambda>s'. Inr (BTree (bt_entries t) ((n, s') # bt_subs t))))"

definition bolt_tree :: "btree bolt" where
  "bolt_tree =
     \<lparr>bolt_view = (\<lambda>t p. map_option (\<lambda>s. map_of (bt_entries s)) (bt_sub t p)),
      bolt_names = (\<lambda>t p. case bt_sub t p of None \<Rightarrow> [] | Some s \<Rightarrow> remdups (map fst (bt_subs s))),
      bolt_CreateBucketIfNotExists = (\<lambda>p n. bt_at p (\<lambda>t.
        if map_of (bt_subs t) n = None then Inr (BTree (bt_entries t) ((n, BTree [] []) # bt_subs t))
        else Inr t)),
      bolt_DeleteBucket = (\<lambda>p n. bt_at p (\<lambda>t.
        if map_of (bt_subs t) n = None then Inl (EForeign ''bucket not found'')
        else Inr (BTree (bt_entries t) (filter (\<lambda>x. fst x \<noteq> n) (bt_subs t))))),
      bolt_Put = (\<lambda>p k v. bt_at p (\<lambda>t.
        if k = [] then Inl (EForeign ''key required'')
        else Inr (BTree ((k, v) # bt_entries t) (bt_subs t)))),
      bolt_Delete = (\<lambda>p k. bt_at p (\<lambda>t.
        Inr (BTree (filter (\<lambda>x. fst x \<noteq> k) (bt_entries t)) (bt_subs t)))),
      bolt_Commit = (\<lambda>_. None)\<rparr>"

lemma bt_sub_append: "bt_sub t (p @ q) = (case bt_sub t p of None \<Rightarrow> None | Some s \<Rightarrow> bt_sub s q)"
  by (induction t p rule: bt_sub.induct) (auto split: option.splits)

lemma bt_at_sub:
  "bt_at p f t = Inr t' \<Longrightarrow>
   \<exists>s s'. bt_sub t p = Some s \<and> f s = Inr s' \<and>
     (\<forall>q. map_option bt_entries (bt_sub t' q) =
        (if is_under p q then map_option bt_entries (bt_sub s' (drop (length p) q))
         else map_option bt_entries (bt_sub t q)))"
proof (induction p f t arbitrary: t' rule: bt_at.induct)
  case (1 f t)
  then show ?case by (auto simp: is_under_def)
next
  case (2 n p f t)
  then obtain s s1 where s: "map_of (bt_subs t) n = Some s" and "bt_at p f s = Inr s1"
    and t': "t' = BTree (bt_entries t) ((n, s1) # bt_subs t)"
    by (auto simp: bindE_Inr split: option.splits)
  from "2.IH" [OF s this(2)] obtain r r' where r: "bt_sub s p = Some r" "f r = Inr r'"
    "\<And>q. map_option bt_entries (bt_sub s1 q) =
        (if is_under p q then map_option bt_entries (bt_sub r' (drop (length p) q))
         else map_option bt_entries (bt_sub s q))" by blast
  have "map_option bt_entries (bt_sub t' q) =
        (if is_under (n # p) q then map_option bt_entries (bt_sub r' (drop (length (n # p)) q))
         else map_option bt_entries (bt_sub t q))" for q
  proof (cases q)
    case (Cons m q')
    then show ?thesis using r(3) [of q'] by (auto simp: t' s is_under_def split: option.splits)
  qed (simp add: t' is_under_def)
  with r(1,2) s show ?case by auto
qed

definition bt_view :: "btree \<Rightarrow> path \<Rightarrow> (string \<rightharpoonup> string) option" where
  "bt_view t p = map_option map_of (map_option bt_entries (bt_sub t p))"

lemma bolt_view_tree: "bolt_view bolt_tree = bt_view"
  by (auto simp: bolt_tree_def bt_view_def fun_eq_iff option.map_comp comp_def)

lemma bt_at_view:
  assumes "bt_at p f t = Inr t'"
  obtains s s' where "bt_sub t p = Some s" and "f s = Inr s'"
    and "\<And>q. bt_view t' q = (if is_under p q then bt_view s' (drop (length p) q) else bt_view t q)"
    and "\<And>q. bt_view t (p @ q) = bt_view s q"
proof -
  from bt_at_sub [OF assms] obtain s s' where "bt_sub t p = Some s" "f s = Inr s'"
    "\<forall>q. map_option bt_entries (bt_sub t' q) =
        (if is_under p q then map_option bt_entries (bt_sub s' (drop (length p) q))
         else map_option bt_entries (bt_sub t q))" by blast
  with that show ?thesis by (simp add: bt_view_def bt_sub_append)
qed

lemma is_under_eq: "is_under p q \<Longrightarrow> q = p @ drop (length p) q"
  unfolding is_under_def by (metis append_take_drop_id)

lemma is_under_self [simp]: "is_under p (p @ q)"
  by (simp add: is_under_def)

lemma is_under_append: "is_under (p @ [n]) (p @ q) \<longleftrightarrow> q \<noteq> [] \<and> hd q = n"
  by (cases q) (auto simp: is_under_def)

lemma is_under_parent: "is_under (p @ [n]) q \<Longrightarrow> is_under p q"
  unfolding is_under_def by (metis append_eq_conv_conj append_take_drop_id append_assoc)

text \<open>Rewriting below a path: it is enough to compare the paths that extend it.\<close>

lemma bt_view_ext:
  assumes "\<And>q. bt_view t' q = (if is_under p q then bt_view s' (drop (length p) q) else bt_view t q)"
    and "\<And>q. bt_view s' q = g (p @ q)" and "\<And>q. \<not> is_under p q \<Longrightarrow> g q = bt_view t q"
  shows "bt_view t' = g"
proof
  fix q
  show "bt_view t' q = g q"
  proof (cases "is_under p q")
    case True
    with is_under_eq [OF True] show ?thesis by (metis assms(1,2))
  qed (simp add: assms(1,3))
qed

lemma bt_view_BTree:
  "bt_view (BTree kv subs) q = (case q of [] \<Rightarrow> Some (map_of kv)
     | n # r \<Rightarrow> (case map_of subs n of None \<Rightarrow> None | Some s \<Rightarrow> bt_view s r))"
  by (auto simp: bt_view_def split: list.splits option.splits)

lemma bt_view_simps:
  "bt_view t [] = Some (map_of (bt_entries t))"
  "bt_view t (n # r) = (case map_of (bt_subs t) n of None \<Rightarrow> None | Some s \<Rightarrow> bt_view s r)"
  by (auto simp: bt_view_def split: option.splits)

lemma map_of_filter_ne: "map_of (filter (\<lambda>x. fst x \<noteq> n) xs) = (map_of xs)(n := None)"
  by (induction xs) auto

lemma bolt_tree_Create:
  assumes "bolt_CreateBucketIfNotExists bolt_tree p n d = Inr d'"
  shows "bt_view d' = (bt_view d)(p @ [n] :=
     Some (case bt_view d (p @ [n]) of None \<Rightarrow> Map.empty | Some m \<Rightarrow> m))"
proof -
  from assms obtain s s' where s: "(if map_of (bt_subs s) n = None
      then Inr (BTree (bt_entries s) ((n, BTree [] []) # bt_subs s)) else Inr s) = (Inr s' :: go_error + btree)"
    and v: "\<And>q. bt_view d' q = (if is_under p q then bt_view s' (drop (length p) q) else bt_view d q)"
      "\<And>q. bt_view d (p @ q) = bt_view s q"
    by (auto simp: bolt_tree_def elim!: bt_at_view)
  show ?thesis
    by (rule bt_view_ext [OF v(1)], use s in \<open>auto simp: v(2) bt_view_simps bt_view_BTree
        split: if_splits list.splits option.splits\<close>)
qed

lemma bolt_tree_DeleteBucket:
  assumes "bolt_DeleteBucket bolt_tree p n d = Inr d'"
  shows "bt_view d (p @ [n]) \<noteq> None \<and>
    bt_view d' = (\<lambda>q. if is_under (p @ [n]) q then None else bt_view d q)"
proof -
  from assms obtain s s' where s: "map_of (bt_subs s) n \<noteq> None"
    "s' = BTree (bt_entries s) (filter (\<lambda>x. fst x \<noteq> n) (bt_subs s))"
    and v: "\<And>q. bt_view d' q = (if is_under p q then bt_view s' (drop (length p) q) else bt_view d q)"
      "\<And>q. bt_view d (p @ q) = bt_view s q"
    by (auto simp: bolt_tree_def elim!: bt_at_view split: if_splits)
  have sub: "bt_view s' q = (if q \<noteq> [] \<and> hd q = n then None else bt_view s q)" for q
    by (cases q) (auto simp: s(2) bt_view_simps map_of_filter_ne)
  have "bt_view d' = (\<lambda>q. if is_under (p @ [n]) q then None else bt_view d q)"
    by (rule bt_view_ext [OF v(1)]) (auto simp: v(2) sub is_under_append dest: is_under_parent)
  with s(1) show ?thesis by (auto simp: v(2) bt_view_simps)
qed

lemma bolt_tree_Put:
  assumes "bolt_Put bolt_tree p k w d = Inr d'"
  shows "\<exists>m. bt_view d p = Some m \<and> bt_view d' = (bt_view d)(p := Some (m(k \<mapsto> w)))"
proof -
  from assms obtain s s' where s: "s' = BTree ((k, w) # bt_entries s) (bt_subs s)"
    and v: "\<And>q. bt_view d' q = (if is_under p q then bt_view s' (drop (length p) q) else bt_view d q)"
      "\<And>q. bt_view d (p @ q) = bt_view s q"
    by (auto simp: bolt_tree_def elim!: bt_at_view split: if_splits)
  have p: "bt_view d p = Some (map_of (bt_entries s))" using v(2) [of "[]"] by (simp add: bt_view_simps)
  have "bt_view d' = (bt_view d)(p := Some ((map_of (bt_entries s))(k \<mapsto> w)))"
    by (rule bt_view_ext [OF v(1)], use s in \<open>auto simp: v(2) bt_view_simps bt_view_BTree is_under_def
        split: list.splits option.splits\<close>)
  with p show ?thesis by blast
qed

lemma bolt_tree_Delete:
  assumes "bolt_Delete bolt_tree p k d = Inr d'"
  shows "\<exists>m. bt_view d p = Some m \<and> bt_view d' = (bt_view d)(p := Some (m(k := None)))"
proof -
  from assms obtain s s' where s: "s' = BTree (filter (\<lambda>x. fst x \<noteq> k) (bt_entries s)) (bt_subs s)"
    and v: "\<And>q. bt_view d' q = (if is_under p q then bt_view s' (drop (length p) q) else bt_view d q)"
      "\<And>q. bt_view d (p @ q) = bt_view s q"
    by (auto simp: bolt_tree_def elim!: bt_at_view split: if_splits)
  have p: "bt_view d p = Some (map_of (bt_entries s))" using v(2) [of "[]"] by (simp add: bt_view_simps)
  have "bt_view d' = (bt_view d)(p := Some ((map_of (bt_entries s))(k := None)))"
    by (rule bt_view_ext [OF v(1)], use s in \<open>auto simp: v(2) bt_view_simps bt_view_BTree is_under_def
        map_of_filter_ne split: list.splits option.splits\<close>)
  with p show ?thesis by blast
qed

lemma bolt_tree_ok: "bolt_ok bolt_tree"
proof -
  have "bt_view d p \<noteq> None" if "bt_view d (p @ [n]) \<noteq> None" for d p n
    using that by (auto simp: bt_view_def bt_sub_append split: option.splits)
  moreover have "set (bolt_names bolt_tree d p) = {n. bt_view d (p @ [n]) \<noteq> None}" for d p
    by (cases "bt_sub d p")
      (auto simp: bolt_tree_def bt_view_def bt_sub_append map_of_eq_None_iff split: option.splits)
  ultimately show ?thesis
    unfolding bolt_ok_def bolt_view_tree
    using bolt_tree_Create bolt_tree_DeleteBucket bolt_tree_Put bolt_tree_Delete by simp
qed

section \<open>Properties\<close>

lemma cf_path_of_distinct:
  "key1 \<noteq> key2 \<Longrightarrow> cf_path_of c key1 \<noteq> cf_path_of c' key2"
  "cf_cacheID c \<noteq> cf_cacheID c' \<Longrightarrow> cf_path_of c key1 \<noteq> cf_path_of c' key1"
  by (auto simp: cf_path_of_def)

lemma cf_path_of_DB [simp]: "cf_path_of (c\<lparr>cf_DB := d\<rparr>) key = cf_path_of c key"
  by (simp add: cf_path_of_def)

lemma mode_key_DB [simp]: "mode_key (c\<lparr>cf_DB := d\<rparr>) = mode_key c"
  by (simp add: mode_key_def)

lemma cf_path_of_mode: "key \<noteq> bucketMode \<Longrightarrow> [bucketMode] \<noteq> cf_path_of c key"
  by (auto simp: cf_path_of_def)

definition demo_cache :: "btree CacheFile" where
  "demo_cache =
     \<lparr>cf_path = ''cache.db'', cf_cacheID = char_of (0 :: nat) # ''work'', cf_storeFakeIP = True,
      cf_storeRDRC = True, cf_rdrcTimeout = 60 * 1000000000, cf_DB = BTree [] [],
      cf_saveMetadataTimer = None, cf_saveDomain = Map.empty, cf_saveAddress4 = Map.empty,
      cf_saveAddress6 = Map.empty, cf_saveRDRC = (\<lambda>_. False), cf_jobs = []\<rparr>"

lemmas cache_eval = cf_Batch_def db_Batch_def cf_createBucket_def bolt_tree_def bucket_names demo_cache_def

lemma sint_unix_seconds:
  "- (2 ^ 63) \<le> t div 1000000000 \<Longrightarrow> t div 1000000000 < 2 ^ 63 \<Longrightarrow>
   sint (unix_seconds t) = t div 1000000000"
  unfolding unix_seconds_def by (simp add: int_word_sint)

lemma SavedBinary_roundtrip:
  assumes "varbin_ok V" and "SavedBinary_MarshalBinary V s = Inr b"
    and "- (2 ^ 63) \<le> sb_LastUpdated s div 1000000000" and "sb_LastUpdated s div 1000000000 < 2 ^ 63"
  shows "b \<noteq> [] \<and> SavedBinary_UnmarshalBinary V b =
    Inr (s\<lparr>sb_LastUpdated := sb_LastUpdated s div 1000000000 * 1000000000\<rparr>)"
proof -
  from assms(2) obtain x y where x: "varbin_Write V (sb_Content s) = Inr x"
    and y: "varbin_Write V (sb_LastEtag s) = Inr y"
    and b: "b = char_of (1 :: nat) # x @ be_bytes 8 (unat (unix_seconds (sb_LastUpdated s))) @ y"
    by (auto simp: SavedBinary_MarshalBinary_def bindE_Inr)
  have rx: "varbin_Read V (x @ r) = Inr (sb_Content s, r)" for r
    using assms(1) x by (simp add: varbin_ok_def)
  have ry: "varbin_Read V y = Inr (sb_LastEtag s, [])"
    using assms(1) y unfolding varbin_ok_def by (metis append_Nil2)
  have "sint (unix_seconds (sb_LastUpdated s)) = sb_LastUpdated s div 1000000000"
    using assms(3,4) by (rule sint_unix_seconds)
  then show ?thesis
    by (simp add: b rx ry SavedBinary_UnmarshalBinary_def be_value_word)
qed

lemma saved_rule_set_loads:
  assumes "bolt_ok B" and "varbin_ok V" and "SaveRuleSet B V tag s c = (None, c')"
    and "- (2 ^ 63) \<le> sb_LastUpdated s div 1000000000" and "sb_LastUpdated s div 1000000000 < 2 ^ 63"
  shows "LoadRuleSet B V c' tag =
      Some (s\<lparr>sb_LastUpdated := sb_LastUpdated s div 1000000000 * 1000000000\<rparr>) \<and>
    (\<forall>t. t \<noteq> tag \<longrightarrow> LoadRuleSet B V c' t = LoadRuleSet B V c t)"
proof -
  from assms(3) obtain b where b: "SavedBinary_MarshalBinary V s = Inr b"
    and put: "cf_Batch B (\<lambda>d. bindE (cf_createBucket B c bucketRuleSet d)
       (\<lambda>(p, d'). bolt_Put B p tag b d')) c = (None, c')"
    by (auto simp: SaveRuleSet_def cf_Batch_None bindE_Inr)
  from cf_Put_content [OF assms(1) put] obtain d' where d': "c' = c\<lparr>cf_DB := d'\<rparr>"
    "content B d' = (content B (cf_DB c))(cf_path_of c bucketRuleSet :=
       (content B (cf_DB c) (cf_path_of c bucketRuleSet))(tag \<mapsto> b))" by blast
  from SavedBinary_roundtrip [OF assms(2) b assms(4,5)] show ?thesis
    by (simp add: d' LoadRuleSet_content [OF assms(1)])
qed

text \<open>
  a rule set that was saved is loaded again with its content and etag; the time of its last
  update is cut to whole seconds.  The rule sets of other tags stay.
\<close>

theorem SaveRuleSet_load:
  assumes "bolt_ok B" and "varbin_ok V" and "SaveRuleSet B V tag s c = (None, c')"
    and "- (2 ^ 63) \<le> sb_LastUpdated s div 1000000000" and "sb_LastUpdated s div 1000000000 < 2 ^ 63"
  shows "LoadRuleSet B V c' tag =
      Some (s\<lparr>sb_LastUpdated := sb_LastUpdated s div 1000000000 * 1000000000\<rparr>) \<and>
    (\<forall>t. t \<noteq> tag \<longrightarrow> LoadRuleSet B V c' t = LoadRuleSet B V c t)"
  using assms by (rule saved_rule_set_loads)

definition demo_varbin :: varbin where
  "demo_varbin =
     \<lparr>varbin_Write = (\<lambda>s. if length s < 256 then Inr (char_of (length s) # s) else Inl (EForeign ''long'')),
      varbin_Read = (\<lambda>b. case b of [] \<Rightarrow> Inl (EForeign ''EOF'')
         | n # r \<Rightarrow> if length r < of_char n then Inl (EForeign ''EOF'')
                    else Inr (take (of_char n) r, drop (of_char n) r))\<rparr>"

lemma demo_varbin_ok: "varbin_ok demo_varbin"
  by (auto simp: varbin_ok_def demo_varbin_def split: if_splits)

definition demo_saved :: SavedBinary where
  "demo_saved = \<lparr>sb_Content = ''rules'', sb_LastUpdated = 1700000000123456789, sb_LastEtag = ''tag''\<rparr>"

lemma SaveRuleSet_load_witness:
  "LoadRuleSet bolt_tree demo_varbin (snd (SaveRuleSet bolt_tree demo_varbin ''geo'' demo_saved demo_cache)) ''geo'' =
     Some (demo_saved\<lparr>sb_LastUpdated := 1700000000000000000\<rparr>)"
proof -
  have "fst (SaveRuleSet bolt_tree demo_varbin ''geo'' demo_saved demo_cache) = None"
    by (simp add: SaveRuleSet_def SavedBinary_MarshalBinary_def demo_varbin_def demo_saved_def cache_eval)
  then have "SaveRuleSet bolt_tree demo_varbin ''geo'' demo_saved demo_cache =
      (None, snd (SaveRuleSet bolt_tree demo_varbin ''geo'' demo_saved demo_cache))"
    by (metis prod.collapse)
  from SaveRuleSet_load [OF bolt_tree_ok demo_varbin_ok this] show ?thesis
    by (simp add: demo_saved_def)
qed

lemma rdrc_key_inject [simp]: "rdrc_key q t = rdrc_key q' t' \<longleftrightarrow> q = q' \<and> t = t'"
proof -
  have "be_bytes 2 (unat t) = be_bytes 2 (unat t') \<longleftrightarrow> t = t'"
    using unat_bound [of t] unat_bound [of t'] by (simp add: be_bytes_inject word_unat_eq_iff)
  then show ?thesis by (auto simp: rdrc_key_def)
qed

lemma bucket_get_rdrc:
  assumes "bolt_ok B"
  shows "bucket_get B d (rdrc_bucket B c d tn) k = content B d (cf_path_of c bucketRDRC @ [tn]) k"
proof -
  have "cf_path_of c bucketRDRC \<noteq> []" by (simp add: cf_path_of_def)
  from bolt_parent [OF assms _ this, of d tn] show ?thesis
    by (auto simp: rdrc_bucket_def cf_bucket_eq [OF assms] bucket_get_def content_def split: option.splits)
qed

lemma SaveRDRC_content:
  assumes "bolt_ok B" and "SaveRDRC B t tn q ty c = (None, c')"
  shows "\<exists>d'. c' = c\<lparr>cf_DB := d'\<rparr> \<and>
    content B d' = (content B (cf_DB c))(cf_path_of c bucketRDRC @ [tn] :=
      (content B (cf_DB c) (cf_path_of c bucketRDRC @ [tn]))
        (rdrc_key q ty \<mapsto> be_bytes 8 (unat (unix_seconds (t + cf_rdrcTimeout c)))))"
proof -
  from assms(2) obtain p d1 d2 d3 where "cf_createBucket B c bucketRDRC (cf_DB c) = Inr (p, d1)"
    and "bolt_CreateBucketIfNotExists B p tn d1 = Inr d2"
    and "bolt_Put B (p @ [tn]) (rdrc_key q ty) (be_bytes 8 (unat (unix_seconds (t + cf_rdrcTimeout c)))) d2 = Inr d3"
    and "c' = c\<lparr>cf_DB := d3\<rparr>"
    by (auto simp: SaveRDRC_def cf_Batch_None bindE_Inr)
  note steps = this
  have "content B d3 = (content B d2)(p @ [tn] := (content B d2 (p @ [tn]))
      (rdrc_key q ty \<mapsto> be_bytes 8 (unat (unix_seconds (t + cf_rdrcTimeout c)))))"
    by (rule bolt_Put_content [OF assms(1) steps(3)])
  with bolt_Create_content [OF assms(1) steps(2)] cf_createBucket_content [OF assms(1) steps(1)] steps(4)
  show ?thesis by auto
qed

text \<open>What a lookup answers depends only on the entry, and an expired entry is at most removed.\<close>

definition rdrc_answer :: "int \<Rightarrow> string option \<Rightarrow> bool res" where
  "rdrc_answer now entry =
     (case entry of None \<Rightarrow> Ok False
      | Some b \<Rightarrow> if length b < 8 then Panic ''index out of range''
                  else Ok (now \<le> sint (word_of_nat (be_value (take 8 b)) :: 64 word) * 1000000000))"

lemma LoadRDRC_answer:
  assumes "bolt_ok B" and "\<not> cf_saveRDRC c (tn, q, ty)"
  shows "fst (LoadRDRC B now tn q ty c) =
    rdrc_answer now (content B (cf_DB c) (cf_path_of c bucketRDRC @ [tn]) (rdrc_key q ty))"
  by (simp add: LoadRDRC_def assms bucket_get_rdrc rdrc_answer_def Let_def not_less split: option.splits)

lemma LoadRDRC_cong:
  assumes "bolt_ok B" and "cf_saveRDRC c' = cf_saveRDRC c"
    and "content B (cf_DB c') (cf_path_of c' bucketRDRC @ [tn]) = content B (cf_DB c) (cf_path_of c bucketRDRC @ [tn])"
  shows "fst (LoadRDRC B now tn q ty c') = fst (LoadRDRC B now tn q ty c)"
  using assms LoadRDRC_answer [OF assms(1), of c tn q ty now] LoadRDRC_answer [OF assms(1), of c' tn q ty now]
  by (cases "cf_saveRDRC c (tn, q, ty)") (simp_all add: LoadRDRC_def)

text \<open>
  C37: a selection that was stored is what \<open>LoadSelected\<close> returns, and it is the only entry of the database that changes: every other key of every
  bucket keeps its value, at every path, and nothing outside the database changes.  So the rejected answers, every other selection, the expanded groups,
  the saved rule sets and the mode are loaded as before, the last four also by a cache file with another cache ID on the same database; a failed store
  changes nothing.
\<close>

theorem StoreSelected_load:
  assumes "bolt_ok B" and "StoreSelected B grp selected c = (e, c')"
  shows "(e \<noteq> None \<longrightarrow> c' = c) \<and>
    (e = None \<longrightarrow>
      LoadSelected B c' grp = selected \<and>
      c' = c\<lparr>cf_DB := cf_DB c'\<rparr> \<and>
      (\<forall>p k. (p, k) \<noteq> (cf_path_of c bucketSelected, grp) \<longrightarrow> content B (cf_DB c') p k = content B (cf_DB c) p k) \<and>
      (\<forall>g. g \<noteq> grp \<longrightarrow> LoadSelected B c' g = LoadSelected B c g) \<and>
      (\<forall>g. LoadGroupExpand B c' g = LoadGroupExpand B c g) \<and>
      (\<forall>V tag. LoadRuleSet B V c' tag = LoadRuleSet B V c tag) \<and>
      LoadMode B c' = LoadMode B c \<and>
      (\<forall>now tn q ty. fst (LoadRDRC B now tn q ty c') = fst (LoadRDRC B now tn q ty c)) \<and>
      (\<forall>c2. cf_cacheID c2 \<noteq> cf_cacheID c \<longrightarrow>
         (\<forall>g. LoadSelected B (c2\<lparr>cf_DB := cf_DB c'\<rparr>) g = LoadSelected B (c2\<lparr>cf_DB := cf_DB c\<rparr>) g) \<and>
         (\<forall>g. LoadGroupExpand B (c2\<lparr>cf_DB := cf_DB c'\<rparr>) g = LoadGroupExpand B (c2\<lparr>cf_DB := cf_DB c\<rparr>) g) \<and>
         (\<forall>V tag. LoadRuleSet B V (c2\<lparr>cf_DB := cf_DB c'\<rparr>) tag = LoadRuleSet B V (c2\<lparr>cf_DB := cf_DB c\<rparr>) tag) \<and>
         LoadMode B (c2\<lparr>cf_DB := cf_DB c'\<rparr>) = LoadMode B (c2\<lparr>cf_DB := cf_DB c\<rparr>)))"
proof (cases e)
  case None
  with cf_Put_content [OF assms(1) assms(2) [unfolded StoreSelected_def None]]
  obtain d' where d': "c' = c\<lparr>cf_DB := d'\<rparr>" "content B d' = (content B (cf_DB c))(cf_path_of c bucketSelected :=
      (content B (cf_DB c) (cf_path_of c bucketSelected))(grp \<mapsto> selected))" by blast
  have ne: "cf_path_of c2 bucketExpand \<noteq> cf_path_of c bucketSelected"
    "cf_path_of c2 bucketRuleSet \<noteq> cf_path_of c bucketSelected"
    "[bucketMode] \<noteq> cf_path_of c bucketSelected" for c2 :: "'a CacheFile"
    by (intro cf_path_of_distinct cf_path_of_mode, simp add: bucket_names)+
  have ids: "cf_path_of c2 bucketSelected \<noteq> cf_path_of c bucketSelected"
    if "cf_cacheID c2 \<noteq> cf_cacheID c" for c2 :: "'a CacheFile"
    using that by (rule cf_path_of_distinct(2))
  have "cf_path_of c bucketRDRC @ [tn] \<noteq> cf_path_of c bucketSelected" for tn
    by (simp add: cf_path_of_def)
  then have "fst (LoadRDRC B now tn q ty c') = fst (LoadRDRC B now tn q ty c)" for now tn q ty
    by (intro LoadRDRC_cong [OF assms(1)]) (simp_all add: d')
  then show ?thesis
    by (simp add: None d' ne ids LoadSelected_content [OF assms(1)] LoadGroupExpand_content [OF assms(1)]
        LoadRuleSet_content [OF assms(1)] LoadMode_content)
next
  case (Some x)
  with assms(2) show ?thesis by (auto simp: StoreSelected_def dest: cf_Batch_Some)
qed

lemma StoreSelected_load_witness:
  "fst (StoreSelected bolt_tree ''proxy'' ''hk'' demo_cache) = None \<and>
   LoadSelected bolt_tree (snd (StoreSelected bolt_tree ''proxy'' ''hk'' demo_cache)) ''proxy'' = ''hk''"
proof -
  have none: "fst (StoreSelected bolt_tree ''proxy'' ''hk'' demo_cache) = None"
    by (simp add: StoreSelected_def cache_eval)
  with StoreSelected_load [OF bolt_tree_ok, of "''proxy''" "''hk''" demo_cache] show ?thesis
    by (cases "StoreSelected bolt_tree ''proxy'' ''hk'' demo_cache") simp
qed

lemma rdrc_delete_content:
  assumes "bolt_ok B"
  shows "\<exists>d'. rdrc_delete B tn q ty c = c\<lparr>cf_DB := d'\<rparr> \<and>
    content B d' p k \<in> {None, content B (cf_DB c) p k}"
proof -
  define fn where "fn = (\<lambda>d. case rdrc_bucket B c d tn of None \<Rightarrow> Inr d
    | Some p \<Rightarrow> bolt_Delete B p (rdrc_key q ty) d)"
  obtain e c' where r: "cf_Batch B fn c = (e, c')" by (cases "cf_Batch B fn c")
  then have c': "rdrc_delete B tn q ty c = c'" by (simp add: rdrc_delete_def fn_def)
  show ?thesis
  proof (cases e)
    case None
    from r [unfolded None cf_Batch_None] obtain d' where "c' = c\<lparr>cf_DB := d'\<rparr>" and "fn (cf_DB c) = Inr d'"
      by blast
    moreover from this(2) have "content B d' p k \<in> {None, content B (cf_DB c) p k}"
      by (auto simp: fn_def dest!: bolt_Delete_content [OF assms] split: option.splits)
    ultimately show ?thesis using c' by blast
  next
    case (Some x)
    from r [unfolded Some, THEN cf_Batch_Some] c' have "rdrc_delete B tn q ty c = c\<lparr>cf_DB := cf_DB c\<rparr>" by simp
    then show ?thesis by blast
  qed
qed

lemma LoadRDRC_state:
  assumes "bolt_ok B" and "\<not> cf_saveRDRC c (tn, q, ty)"
  shows "\<exists>d'. snd (LoadRDRC B now tn q ty c) = c\<lparr>cf_DB := d'\<rparr> \<and>
    content B d' (cf_path_of c bucketRDRC @ [tn]) (rdrc_key q ty) \<in>
      {None, content B (cf_DB c) (cf_path_of c bucketRDRC @ [tn]) (rdrc_key q ty)}"
proof -
  define p where "p = cf_path_of c bucketRDRC @ [tn]"
  have same: "\<exists>d'. c = c\<lparr>cf_DB := d'\<rparr> \<and> content B d' p k \<in> {None, content B (cf_DB c) p k}" for k
    by (rule exI [of _ "cf_DB c"]) simp
  have "snd (LoadRDRC B now tn q ty c) \<in> {c, rdrc_delete B tn q ty c}"
    by (simp add: LoadRDRC_def Let_def split: option.split)
  then show ?thesis
    unfolding p_def [symmetric] using same rdrc_delete_content [OF assms(1)] p_def by auto
qed

text \<open>
  a rejected query that was saved is reported as rejected until its time is over, and from
  the first lookup after that never again.  The time is cut to whole seconds, so it can be over
  up to a second early.  Other queries and servers are not affected.
\<close>

theorem SaveRDRC_load:
  assumes "bolt_ok B" and "SaveRDRC B t tn q ty c = (None, c')" and "cf_saveRDRC c = (\<lambda>_. False)"
    and "0 \<le> t + cf_rdrcTimeout c" and "(t + cf_rdrcTimeout c) div 1000000000 < 2 ^ 63"
  defines "expiry \<equiv> (t + cf_rdrcTimeout c) div 1000000000 * 1000000000"
  shows "fst (LoadRDRC B now tn q ty c') = Ok (now \<le> expiry) \<and>
    (expiry < now \<and> now \<le> later \<longrightarrow>
      fst (LoadRDRC B later tn q ty (snd (LoadRDRC B now tn q ty c'))) = Ok False) \<and>
    ((tn', q', ty') \<noteq> (tn, q, ty) \<longrightarrow>
      fst (LoadRDRC B now tn' q' ty' c') = fst (LoadRDRC B now tn' q' ty' c))"
proof -
  define p where "p = cf_path_of c bucketRDRC @ [tn]"
  from SaveRDRC_content [OF assms(1,2)] obtain d' where c': "c' = c\<lparr>cf_DB := d'\<rparr>"
    and d': "content B d' = (content B (cf_DB c))(p := (content B (cf_DB c) p)
        (rdrc_key q ty \<mapsto> be_bytes 8 (unat (unix_seconds (t + cf_rdrcTimeout c)))))"
    unfolding p_def by blast
  have "sint (unix_seconds (t + cf_rdrcTimeout c)) = (t + cf_rdrcTimeout c) div 1000000000"
    using assms(4,5) by (intro sint_unix_seconds) linarith+
  then have entry: "rdrc_answer n (content B d' p (rdrc_key q ty)) = Ok (n \<le> expiry)" for n
    by (simp add: d' rdrc_answer_def be_value_word expiry_def)
  have 1: "fst (LoadRDRC B n tn q ty c') = Ok (n \<le> expiry)" for n
    using LoadRDRC_answer [OF assms(1), of c' tn q ty n] entry by (simp add: c' assms(3) p_def)
  have 2: "fst (LoadRDRC B later tn q ty (snd (LoadRDRC B now tn q ty c'))) = Ok False"
    if late: "expiry < now" "now \<le> later"
  proof -
    from LoadRDRC_state [OF assms(1), of c' tn q ty now] obtain d'' where
      d'': "snd (LoadRDRC B now tn q ty c') = c'\<lparr>cf_DB := d''\<rparr>"
        "content B d'' p (rdrc_key q ty) \<in> {None, content B d' p (rdrc_key q ty)}"
      by (auto simp: c' assms(3) p_def)
    then have "rdrc_answer later (content B d'' p (rdrc_key q ty)) = Ok False"
      using entry late by (auto simp: rdrc_answer_def [of _ None])
    then show ?thesis
      using LoadRDRC_answer [OF assms(1), of "c'\<lparr>cf_DB := d''\<rparr>" tn q ty later]
      by (simp add: d''(1)) (simp add: c' assms(3) p_def)
  qed
  have 3: "fst (LoadRDRC B now tn' q' ty' c') = fst (LoadRDRC B now tn' q' ty' c)"
    if "(tn', q', ty') \<noteq> (tn, q, ty)"
    using LoadRDRC_answer [OF assms(1), of c' tn' q' ty' now] LoadRDRC_answer [OF assms(1), of c tn' q' ty' now] that
    by (auto simp: c' d' assms(3) p_def)
  from 1 2 3 show ?thesis by blast
qed

lemma SaveRDRC_load_witness:
  "fst (LoadRDRC bolt_tree 60000000000 ''remote'' ''example.com.'' 28
      (snd (SaveRDRC bolt_tree 500 ''remote'' ''example.com.'' 28 demo_cache))) = Ok True \<and>
   fst (LoadRDRC bolt_tree 60000000001 ''remote'' ''example.com.'' 28
      (snd (SaveRDRC bolt_tree 500 ''remote'' ''example.com.'' 28 demo_cache))) = Ok False"
proof -
  have "fst (SaveRDRC bolt_tree 500 ''remote'' ''example.com.'' 28 demo_cache) = None"
    by (simp add: SaveRDRC_def cache_eval rdrc_key_def)
  then have r: "SaveRDRC bolt_tree 500 ''remote'' ''example.com.'' 28 demo_cache =
      (None, snd (SaveRDRC bolt_tree 500 ''remote'' ''example.com.'' 28 demo_cache))"
    by (metis prod.collapse)
  have c: "cf_saveRDRC demo_cache = (\<lambda>_. False)" "cf_rdrcTimeout demo_cache = 60000000000"
    by (simp_all add: demo_cache_def)
  show ?thesis
    using SaveRDRC_load [OF bolt_tree_ok r c(1), of 60000000000] SaveRDRC_load [OF bolt_tree_ok r c(1), of 60000000001]
    by (simp add: c(2))
qed

text \<open>
  what \<open>Start\<close> removes from the database.  The buckets the program uses are kept with their
  content, and a bucket at the top with any other name is gone when its deletion works.  The
  bucket of a cache ID keeps everything, outdated buckets too, up to one whose name is the
  cache ID itself.
\<close>

theorem cache_Start_cleans:
  assumes "bolt_ok B" and "open_loop E 0 10 None = Inr (Some d)" and "cache_Start B E cfg = Inr (Some c)"
  shows "(known_bucket name \<and> \<not> is_cache_id name \<longrightarrow>
      bolt_view B (cf_DB c) (name # rest) = bolt_view B d (name # rest)) \<and>
    (deletes_work B \<and> \<not> known_bucket name \<and> \<not> is_cache_id name \<longrightarrow>
      bolt_view B (cf_DB c) [name] = None) \<and>
    (is_cache_id name \<and> outdated \<noteq> name \<longrightarrow>
      bolt_view B (cf_DB c) (name # outdated # rest) = bolt_view B d (name # outdated # rest))"
proof -
  from cache_Start_DB [OF assms(3)] assms(2) have "cf_DB c = clean_database B d" by simp
  then show ?thesis
    using clean_database_keeps [OF assms(1), of "name # rest" d]
      clean_database_keeps [OF assms(1), of "name # outdated # rest" d]
      clean_database_removes [OF assms(1), of name d] by simp
qed

definition demo_open :: "btree open_env" where
  "demo_open =
     \<lparr>open_try = (\<lambda>i. if i = 0 then Inl (OpenTimeout (EForeign ''timeout''))
        else Inr (BTree [] [(''old'', BTree [] []), (char_of (0 :: nat) # ''work'', BTree [] [(''rdrc'', BTree [] [])])])),
      remove_ok = (\<lambda>_. True), chown_result = None\<rparr>"

definition demo_config :: cache_config where
  "demo_config = cache_New (\<lambda>p. p)
     \<lparr>co_Path = [], co_CacheID = ''work'', co_StoreFakeIP = True, co_StoreRDRC = False, co_RDRCTimeout = 0\<rparr>"

lemma bolt_tree_deletes: "deletes_work bolt_tree"
  by (auto simp: deletes_work_def bolt_tree_def split: option.splits)

lemma cache_Start_cleans_witness:
  "\<exists>c. cache_Start bolt_tree demo_open demo_config = Inr (Some c) \<and>
     bolt_view bolt_tree (cf_DB c) [''old''] = None \<and>
     bolt_view bolt_tree (cf_DB c) [char_of (0 :: nat) # ''work'', ''rdrc''] = Some Map.empty"
proof -
  define d where "d = BTree [] [(''old'', BTree [] []), (char_of (0 :: nat) # ''work'', BTree [] [(''rdrc'', BTree [] [])])]"
  have d: "open_loop demo_open 0 10 None = Inr (Some d)"
    by (simp add: eval_nat_numeral demo_open_def d_def)
  then obtain c where c: "cache_Start bolt_tree demo_open demo_config = Inr (Some c)"
    by (auto simp: cache_Start_def demo_open_def [THEN arg_cong, of chown_result] db_Batch_def
        bolt_tree_def [THEN arg_cong, of bolt_Commit])
  have "known_bucket ''old'' = False" "is_cache_id ''old'' = False" "is_cache_id (char_of (0 :: nat) # ''work'')"
    by (simp_all add: known_bucket_def is_cache_id_def bucketNameList_def bucket_names char_of_def)
  moreover have "bolt_view bolt_tree d [char_of (0 :: nat) # ''work'', ''rdrc''] = Some Map.empty"
    by (simp add: d_def bolt_tree_def)
  ultimately show ?thesis
    using c cache_Start_cleans [OF bolt_tree_ok d c, of "''old''" "[]" "[]"]
      cache_Start_cleans [OF bolt_tree_ok d c, of "char_of (0 :: nat) # ''work''" "[]" "''rdrc''"]
      bolt_tree_deletes by simp
qed

end
