(* ===== verification/Fakeip_Store.thy ===== *)
theory Fakeip_Store
  imports Cache_File
begin

text \<open>
  The assignment of fake addresses to domains: the store (\<open>core/dns/transport/fakeip/store.go\<close>)
  over the interface \<open>adapter.FakeIPStorage\<close> (\<open>core/adapter/fakeip.go\<close>), and the two
  implementations of the interface, maps in memory (\<open>core/dns/transport/fakeip/memory.go\<close>) and the
  cache file (\<open>core/experimental/cachefile/fakeip.go\<close>).  A value of an interface type is the
  record of its methods.
\<close>

section \<open>The interface\<close>

record 's FakeIPStorage =
  st_Metadata :: "'s \<Rightarrow> FakeIPMetadata option res \<times> 's"
  st_SaveMetadata :: "FakeIPMetadata \<Rightarrow> 's \<Rightarrow> go_error option \<times> 's"
  st_SaveMetadataAsync :: "FakeIPMetadata \<Rightarrow> 's \<Rightarrow> 's"
  st_Store :: "addr \<Rightarrow> string \<Rightarrow> 's \<Rightarrow> go_error option \<times> 's"
  st_StoreAsync :: "addr \<Rightarrow> string \<Rightarrow> 's \<Rightarrow> 's"
  st_Load :: "'s \<Rightarrow> addr \<Rightarrow> string option"
  st_LoadDomain :: "'s \<Rightarrow> string \<Rightarrow> bool \<Rightarrow> addr option"
  st_Reset :: "'s \<Rightarrow> go_error option \<times> 's"

text \<open>Two implementations behind one interface.\<close>

definition map_Inl :: "'a \<times> 's \<Rightarrow> 'a \<times> ('s + 't)" where "map_Inl r = (fst r, Inl (snd r))"
definition map_Inr :: "'a \<times> 't \<Rightarrow> 'a \<times> ('s + 't)" where "map_Inr r = (fst r, Inr (snd r))"

definition sum_ops :: "'s FakeIPStorage \<Rightarrow> 't FakeIPStorage \<Rightarrow> ('s + 't) FakeIPStorage" where
  "sum_ops P Q =
     \<lparr>st_Metadata = case_sum (\<lambda>s. map_Inl (st_Metadata P s)) (\<lambda>t. map_Inr (st_Metadata Q t)),
      st_SaveMetadata = (\<lambda>m. case_sum (\<lambda>s. map_Inl (st_SaveMetadata P m s)) (\<lambda>t. map_Inr (st_SaveMetadata Q m t))),
      st_SaveMetadataAsync = (\<lambda>m. map_sum (st_SaveMetadataAsync P m) (st_SaveMetadataAsync Q m)),
      st_Store = (\<lambda>a d. case_sum (\<lambda>s. map_Inl (st_Store P a d s)) (\<lambda>t. map_Inr (st_Store Q a d t))),
      st_StoreAsync = (\<lambda>a d. map_sum (st_StoreAsync P a d) (st_StoreAsync Q a d)),
      st_Load = case_sum (st_Load P) (st_Load Q),
      st_LoadDomain = case_sum (st_LoadDomain P) (st_LoadDomain Q),
      st_Reset = case_sum (\<lambda>s. map_Inl (st_Reset P s)) (\<lambda>t. map_Inr (st_Reset Q t))\<rparr>"

section \<open>Maps in memory\<close>

record MemoryStorage =
  addressCache :: "addr \<rightharpoonup> string"
  domainCache4 :: "string \<rightharpoonup> addr"
  domainCache6 :: "string \<rightharpoonup> addr"

definition NewMemoryStorage :: MemoryStorage where
  "NewMemoryStorage = \<lparr>addressCache = Map.empty, domainCache4 = Map.empty, domainCache6 = Map.empty\<rparr>"

definition mem_FakeIPStore :: "addr \<Rightarrow> string \<Rightarrow> MemoryStorage \<Rightarrow> MemoryStorage" where
  "mem_FakeIPStore address domain s =
     (let s1 = (case addressCache s address of
                  None \<Rightarrow> s
                | Some oldDomain \<Rightarrow>
                    if addr_Is4 address then s\<lparr>domainCache4 := (domainCache4 s)(oldDomain := None)\<rparr>
                    else s\<lparr>domainCache6 := (domainCache6 s)(oldDomain := None)\<rparr>);
          s2 = s1\<lparr>addressCache := (addressCache s1)(address \<mapsto> domain)\<rparr>
      in if addr_Is4 address then s2\<lparr>domainCache4 := (domainCache4 s2)(domain \<mapsto> address)\<rparr>
         else s2\<lparr>domainCache6 := (domainCache6 s2)(domain \<mapsto> address)\<rparr>)"

definition mem_FakeIPLoad :: "MemoryStorage \<Rightarrow> addr \<Rightarrow> string option" where
  "mem_FakeIPLoad s address = addressCache s address"

definition mem_FakeIPLoadDomain :: "MemoryStorage \<Rightarrow> string \<Rightarrow> bool \<Rightarrow> addr option" where
  "mem_FakeIPLoadDomain s domain isIPv6 =
     (if \<not> isIPv6 then domainCache4 s domain else domainCache6 s domain)"

definition mem_FakeIPReset :: "MemoryStorage \<Rightarrow> MemoryStorage" where
  "mem_FakeIPReset s = s\<lparr>addressCache := Map.empty, domainCache4 := Map.empty, domainCache6 := Map.empty\<rparr>"

definition mem_ops :: "MemoryStorage FakeIPStorage" where
  "mem_ops =
     \<lparr>st_Metadata = (\<lambda>s. (Ok None, s)),
      st_SaveMetadata = (\<lambda>m s. (None, s)),
      st_SaveMetadataAsync = (\<lambda>m s. s),
      st_Store = (\<lambda>a d s. (None, mem_FakeIPStore a d s)),
      st_StoreAsync = mem_FakeIPStore,
      st_Load = mem_FakeIPLoad,
      st_LoadDomain = mem_FakeIPLoadDomain,
      st_Reset = (\<lambda>s. (None, mem_FakeIPReset s))\<rparr>"

section \<open>The cache file\<close>

definition bucketFakeIP :: string where "bucketFakeIP = fakeipBucketPrefix @ ''address''"
definition bucketFakeIPDomain4 :: string where "bucketFakeIPDomain4 = fakeipBucketPrefix @ ''domain4''"
definition bucketFakeIPDomain6 :: string where "bucketFakeIPDomain6 = fakeipBucketPrefix @ ''domain6''"
definition keyMetadata :: string where "keyMetadata = fakeipBucketPrefix @ ''metadata''"

lemmas fakeip_names = bucketFakeIP_def bucketFakeIPDomain4_def bucketFakeIPDomain6_def keyMetadata_def
  fakeipBucketPrefix_def

definition domain_bucket :: "bool \<Rightarrow> string" where
  "domain_bucket isIPv6 = (if isIPv6 then bucketFakeIPDomain6 else bucketFakeIPDomain4)"

text \<open>A panic of the decoder leaves the transaction, whose writes are lost.\<close>

definition cf_FakeIPMetadata ::
    "'d bolt \<Rightarrow> 'd CacheFile \<Rightarrow> FakeIPMetadata option res \<times> 'd CacheFile" where
  "cf_FakeIPMetadata B c =
     (case bolt_view B (cf_DB c) [bucketFakeIP] of
        None \<Rightarrow> (Ok None, c)
      | Some m \<Rightarrow>
          (case m keyMetadata of
             None \<Rightarrow> (Ok None, c)
           | Some metadataBinary \<Rightarrow>
               if metadataBinary = [] then (Ok None, c)
               else case bolt_Delete B [bucketFakeIP] keyMetadata (cf_DB c) of
                 Inl _ \<Rightarrow> (Ok None, c)
               | Inr d \<Rightarrow>
                   (case FakeIPMetadata_UnmarshalBinary metadataBinary of
                      Panic msg \<Rightarrow> (Panic msg, c)
                    | Err _ \<Rightarrow> (Ok None, c)
                    | Ok metadata \<Rightarrow>
                        (case bolt_Commit B d of
                           Some _ \<Rightarrow> (Ok None, c)
                         | None \<Rightarrow> (Ok (Some metadata), c\<lparr>cf_DB := d\<rparr>)))))"

definition cf_FakeIPSaveMetadata ::
    "'d bolt \<Rightarrow> FakeIPMetadata \<Rightarrow> 'd CacheFile \<Rightarrow> go_error option \<times> 'd CacheFile" where
  "cf_FakeIPSaveMetadata B metadata c =
     cf_Batch B (\<lambda>d. bindE (bolt_CreateBucketIfNotExists B [] bucketFakeIP d)
       (bolt_Put B [bucketFakeIP] keyMetadata (FakeIPMetadata_MarshalBinary metadata))) c"

text \<open>
  The timer keeps the callback it was made with: \<open>Reset\<close> arms it again and does not change the
  metadata the callback writes.  \<open>timer_fires\<close> is the callback running.
\<close>

definition cf_FakeIPSaveMetadataAsync :: "FakeIPMetadata \<Rightarrow> 'd CacheFile \<Rightarrow> 'd CacheFile" where
  "cf_FakeIPSaveMetadataAsync metadata c =
     (case cf_saveMetadataTimer c of
        None \<Rightarrow> c\<lparr>cf_saveMetadataTimer := Some (metadata, True)\<rparr>
      | Some (captured, _) \<Rightarrow> c\<lparr>cf_saveMetadataTimer := Some (captured, True)\<rparr>)"

definition timer_fires :: "'d bolt \<Rightarrow> 'd CacheFile \<Rightarrow> 'd CacheFile" where
  "timer_fires B c =
     (case cf_saveMetadataTimer c of
        Some (captured, True) \<Rightarrow>
          (snd (cf_FakeIPSaveMetadata B captured c))\<lparr>cf_saveMetadataTimer := Some (captured, False)\<rparr>
      | _ \<Rightarrow> c)"

definition fakeip_store_tx :: "'d bolt \<Rightarrow> addr \<Rightarrow> string \<Rightarrow> 'd \<Rightarrow> go_error + 'd" where
  "fakeip_store_tx B address domain d =
     bindE (bolt_CreateBucketIfNotExists B [] bucketFakeIP d) (\<lambda>d1.
       let oldDomain = bucket_get B d1 (Some [bucketFakeIP]) (addr_AsSlice address);
           bucket = domain_bucket (\<not> addr_Is4 address)
       in bindE (bolt_Put B [bucketFakeIP] (addr_AsSlice address) domain d1) (\<lambda>d2.
          bindE (bolt_CreateBucketIfNotExists B [] bucket d2) (\<lambda>d3.
          bindE (case oldDomain of None \<Rightarrow> Inr d3 | Some old \<Rightarrow> bolt_Delete B [bucket] old d3)
            (bolt_Put B [bucket] domain (addr_AsSlice address)))))"

definition cf_FakeIPStore ::
    "'d bolt \<Rightarrow> addr \<Rightarrow> string \<Rightarrow> 'd CacheFile \<Rightarrow> go_error option \<times> 'd CacheFile" where
  "cf_FakeIPStore B address domain c = cf_Batch B (fakeip_store_tx B address domain) c"

definition pending_address :: "'d CacheFile \<Rightarrow> bool \<Rightarrow> string \<rightharpoonup> addr" where
  "pending_address c isIPv6 = (if isIPv6 then cf_saveAddress6 c else cf_saveAddress4 c)"

definition set_pending_address ::
    "bool \<Rightarrow> (string \<rightharpoonup> addr) \<Rightarrow> 'd CacheFile \<Rightarrow> 'd CacheFile" where
  "set_pending_address isIPv6 m c =
     (if isIPv6 then c\<lparr>cf_saveAddress6 := m\<rparr> else c\<lparr>cf_saveAddress4 := m\<rparr>)"

definition cf_FakeIPStoreAsync :: "addr \<Rightarrow> string \<Rightarrow> 'd CacheFile \<Rightarrow> 'd CacheFile" where
  "cf_FakeIPStoreAsync address domain c =
     (let six = \<not> addr_Is4 address;
          c1 = (case cf_saveDomain c address of
                  None \<Rightarrow> c
                | Some oldDomain \<Rightarrow> set_pending_address six ((pending_address c six)(oldDomain := None)) c);
          c2 = c1\<lparr>cf_saveDomain := (cf_saveDomain c1)(address \<mapsto> domain)\<rparr>;
          c3 = set_pending_address six ((pending_address c2 six)(domain \<mapsto> address)) c2
      in c3\<lparr>cf_jobs := cf_jobs c3 @ [(FakeIPJob address domain, False)]\<rparr>)"

text \<open>The two steps of the goroutine that \<open>FakeIPStoreAsync\<close> and \<open>SaveRDRCAsync\<close> start.\<close>

definition job_write :: "'d bolt \<Rightarrow> int \<Rightarrow> save_job \<Rightarrow> 'd CacheFile \<Rightarrow> 'd CacheFile" where
  "job_write B now j c =
     (case j of
        FakeIPJob address domain \<Rightarrow> snd (cf_FakeIPStore B address domain c)
      | RDRCJob transportName qName qType \<Rightarrow> snd (SaveRDRC B now transportName qName qType c))"

definition job_finish :: "save_job \<Rightarrow> 'd CacheFile \<Rightarrow> 'd CacheFile" where
  "job_finish j c =
     (case j of
        FakeIPJob address domain \<Rightarrow>
          (let c1 = c\<lparr>cf_saveDomain := (cf_saveDomain c)(address := None)\<rparr>;
               six = \<not> addr_Is4 address
           in set_pending_address six ((pending_address c1 six)(domain := None)) c1)
      | RDRCJob transportName qName qType \<Rightarrow>
          c\<lparr>cf_saveRDRC := (cf_saveRDRC c)((transportName, qName, qType) := False)\<rparr>)"

definition cf_FakeIPLoad :: "'d bolt \<Rightarrow> 'd CacheFile \<Rightarrow> addr \<Rightarrow> string option" where
  "cf_FakeIPLoad B c address =
     (case cf_saveDomain c address of
        Some domain \<Rightarrow> Some domain
      | None \<Rightarrow>
          (case bolt_view B (cf_DB c) [bucketFakeIP] of
             None \<Rightarrow> None
           | Some m \<Rightarrow>
               (case m (addr_AsSlice address) of
                  None \<Rightarrow> None
                | Some domain \<Rightarrow> if domain \<noteq> [] then Some domain else None)))"

text \<open>\<open>M.AddrFromIP\<close> is foreign; \<open>Get\<close> of a missing key is nil, the empty slice.\<close>

definition cf_FakeIPLoadDomain ::
    "'d bolt \<Rightarrow> (string \<Rightarrow> addr) \<Rightarrow> 'd CacheFile \<Rightarrow> string \<Rightarrow> bool \<Rightarrow> addr option" where
  "cf_FakeIPLoadDomain B M_AddrFromIP c domain isIPv6 =
     (case pending_address c isIPv6 domain of
        Some address \<Rightarrow> Some address
      | None \<Rightarrow>
          (case bolt_view B (cf_DB c) [domain_bucket isIPv6] of
             None \<Rightarrow> None
           | Some m \<Rightarrow>
               (let address = M_AddrFromIP (case m domain of None \<Rightarrow> [] | Some b \<Rightarrow> b) in
                if addr_IsValid address then Some address else None)))"

definition cf_FakeIPReset :: "'d bolt \<Rightarrow> 'd CacheFile \<Rightarrow> go_error option \<times> 'd CacheFile" where
  "cf_FakeIPReset B c =
     cf_Batch B (\<lambda>d. bindE (bolt_DeleteBucket B [] bucketFakeIP d) (\<lambda>d1.
       bindE (bolt_DeleteBucket B [] bucketFakeIPDomain4 d1) (bolt_DeleteBucket B [] bucketFakeIPDomain6))) c"

definition cf_ops :: "'d bolt \<Rightarrow> (string \<Rightarrow> addr) \<Rightarrow> 'd CacheFile FakeIPStorage" where
  "cf_ops B M_AddrFromIP =
     \<lparr>st_Metadata = cf_FakeIPMetadata B,
      st_SaveMetadata = cf_FakeIPSaveMetadata B,
      st_SaveMetadataAsync = cf_FakeIPSaveMetadataAsync,
      st_Store = cf_FakeIPStore B,
      st_StoreAsync = cf_FakeIPStoreAsync,
      st_Load = cf_FakeIPLoad B,
      st_LoadDomain = cf_FakeIPLoadDomain B M_AddrFromIP,
      st_Reset = cf_FakeIPReset B\<rparr>"

definition any_ops ::
    "'d bolt \<Rightarrow> (string \<Rightarrow> addr) \<Rightarrow> (MemoryStorage + 'd CacheFile) FakeIPStorage" where
  "any_ops B M_AddrFromIP = sum_ops mem_ops (cf_ops B M_AddrFromIP)"

section \<open>The store\<close>

record 's Store =
  inet4Range :: Prefix
  inet6Range :: Prefix
  fs_storage :: "'s option"
  inet4Current :: addr
  inet6Current :: addr

definition NewStore :: "Prefix \<Rightarrow> Prefix \<Rightarrow> 's Store" where
  "NewStore range4 range6 =
     \<lparr>inet4Range = range4, inet6Range = range6, fs_storage = None,
      inet4Current = AddrNone, inet6Current = AddrNone\<rparr>"

definition store_metadata :: "'s Store \<Rightarrow> FakeIPMetadata" where
  "store_metadata s =
     \<lparr>md_Inet4Range = inet4Range s, md_Inet6Range = inet6Range s,
      md_Inet4Current = inet4Current s, md_Inet6Current = inet6Current s\<rparr>"

definition first_address :: "Prefix \<Rightarrow> addr" where
  "first_address p = addr_Next (addr_Next (pf_ip p))"

text \<open>\<open>Start\<close> without usable metadata; the error of the reset is dropped.\<close>

definition start_fresh :: "'s FakeIPStorage \<Rightarrow> 's \<Rightarrow> 's Store \<Rightarrow> 's Store \<times> 's" where
  "start_fresh ops st s =
     (let s1 = (if Prefix_IsValid (inet4Range s) then s\<lparr>inet4Current := first_address (inet4Range s)\<rparr> else s);
          s2 = (if Prefix_IsValid (inet6Range s1) then s1\<lparr>inet6Current := first_address (inet6Range s1)\<rparr> else s1)
      in (s2, snd (st_Reset ops st)))"

text \<open>\<open>Start\<close> after the choice of the storage.\<close>

definition start_with :: "'s FakeIPStorage \<Rightarrow> 's \<Rightarrow> 's Store \<Rightarrow> unit res \<times> 's Store" where
  "start_with ops st s =
     (case st_Metadata ops st of
        (Panic msg, st1) \<Rightarrow> (Panic msg, s)
      | (Err e, st1) \<Rightarrow> (Err e, s)
      | (Ok metadata, st1) \<Rightarrow>
          let s1 =
            (case metadata of
               Some m \<Rightarrow>
                 if md_Inet4Range m = inet4Range s \<and> md_Inet6Range m = inet6Range s
                 then (s\<lparr>inet4Current := md_Inet4Current m, inet6Current := md_Inet6Current m\<rparr>, st1)
                 else start_fresh ops st1 s
             | None \<Rightarrow> start_fresh ops st1 s)
          in (Ok (), (fst s1)\<lparr>fs_storage := Some (snd s1)\<rparr>))"

definition choose_storage :: "'d CacheFile option \<Rightarrow> MemoryStorage + 'd CacheFile" where
  "choose_storage cacheFile =
     (case cacheFile of
        Some c \<Rightarrow> if cf_storeFakeIP c then Inr c else Inl NewMemoryStorage
      | None \<Rightarrow> Inl NewMemoryStorage)"

definition store_Start ::
    "'d bolt \<Rightarrow> (string \<Rightarrow> addr) \<Rightarrow> 'd CacheFile option \<Rightarrow> (MemoryStorage + 'd CacheFile) Store \<Rightarrow>
     unit res \<times> (MemoryStorage + 'd CacheFile) Store" where
  "store_Start B M_AddrFromIP cacheFile s =
     start_with (any_ops B M_AddrFromIP) (choose_storage cacheFile) s"

definition store_Contains :: "'s Store \<Rightarrow> addr \<Rightarrow> bool" where
  "store_Contains s address =
     (Prefix_Contains (inet4Range s) address \<or> Prefix_Contains (inet6Range s) address)"

definition store_Close :: "'s FakeIPStorage \<Rightarrow> 's Store \<Rightarrow> go_error option \<times> 's Store" where
  "store_Close ops s =
     (case fs_storage s of
        None \<Rightarrow> (None, s)
      | Some st \<Rightarrow>
          (case st_SaveMetadata ops (store_metadata s) st of (e, st1) \<Rightarrow> (e, s\<lparr>fs_storage := Some st1\<rparr>)))"

definition next_address :: "Prefix \<Rightarrow> addr \<Rightarrow> addr" where
  "next_address p current =
     (if \<not> Prefix_Contains p (addr_Next current) then first_address p else addr_Next current)"

text \<open>Methods of the storage before \<open>Start\<close> are calls on a nil interface.\<close>

definition store_Create ::
    "'s FakeIPStorage \<Rightarrow> string \<Rightarrow> bool \<Rightarrow> 's Store \<Rightarrow> addr res \<times> 's Store" where
  "store_Create ops domain isIPv6 s =
     (case fs_storage s of
        None \<Rightarrow> (Panic ''nil pointer dereference'', s)
      | Some st \<Rightarrow>
          (case st_LoadDomain ops st domain isIPv6 of
             Some address \<Rightarrow> (Ok address, s)
           | None \<Rightarrow>
               let save = (\<lambda>address s1.
                     let st1 = st_StoreAsync ops address domain st;
                         st2 = st_SaveMetadataAsync ops (store_metadata s1) st1
                     in (Ok address, s1\<lparr>fs_storage := Some st2\<rparr>))
               in if \<not> isIPv6 then
                    if \<not> addr_IsValid (inet4Current s)
                    then (Err (ENew [AStr ''missing IPv4 fakeip address range'']), s)
                    else let address = next_address (inet4Range s) (inet4Current s)
                         in save address (s\<lparr>inet4Current := address\<rparr>)
                  else
                    if \<not> addr_IsValid (inet6Current s)
                    then (Err (ENew [AStr ''missing IPv6 fakeip address range'']), s)
                    else let address = next_address (inet6Range s) (inet6Current s)
                         in save address (s\<lparr>inet6Current := address\<rparr>)))"

definition store_Lookup :: "'s FakeIPStorage \<Rightarrow> 's Store \<Rightarrow> addr \<Rightarrow> string option res" where
  "store_Lookup ops s address =
     (case fs_storage s of None \<Rightarrow> Panic ''nil pointer dereference'' | Some st \<Rightarrow> Ok (st_Load ops st address))"

definition store_Reset :: "'s FakeIPStorage \<Rightarrow> 's Store \<Rightarrow> unit res \<times> 's Store" where
  "store_Reset ops s =
     (case fs_storage s of
        None \<Rightarrow> (Panic ''nil pointer dereference'', s)
      | Some st \<Rightarrow> (case st_Reset ops st of (e, st1) \<Rightarrow> (res_of_error e, s\<lparr>fs_storage := Some st1\<rparr>)))"

section \<open>What the store relies on\<close>

locale fakeip_storage =
  fixes ops :: "'s FakeIPStorage"
  assumes Load_StoreAsync:
      "st_Load ops (st_StoreAsync ops a d st) b = (if b = a then Some d else st_Load ops st b)"
    and LoadDomain_StoreAsync_same: "st_LoadDomain ops (st_StoreAsync ops a d st) d (\<not> addr_Is4 a) = Some a"
    and LoadDomain_StoreAsync_family:
      "st_LoadDomain ops (st_StoreAsync ops a d st) e (addr_Is4 a) = st_LoadDomain ops st e (addr_Is4 a)"
    and LoadDomain_StoreAsync_other:
      "st_Load ops st a \<noteq> Some e \<Longrightarrow> e \<noteq> d \<Longrightarrow>
       st_LoadDomain ops (st_StoreAsync ops a d st) e six = st_LoadDomain ops st e six"
    and Load_SaveMetadataAsync: "st_Load ops (st_SaveMetadataAsync ops m st) = st_Load ops st"
    and LoadDomain_SaveMetadataAsync: "st_LoadDomain ops (st_SaveMetadataAsync ops m st) = st_LoadDomain ops st"

interpretation mem: fakeip_storage mem_ops
  by unfold_locales
    (auto simp: mem_ops_def mem_FakeIPLoad_def mem_FakeIPLoadDomain_def mem_FakeIPStore_def Let_def
      split: option.splits)

interpretation cf: fakeip_storage "cf_ops B M_AddrFromIP" for B :: "'d bolt" and M_AddrFromIP
  by unfold_locales
    (auto simp: cf_ops_def cf_FakeIPLoad_def cf_FakeIPLoadDomain_def cf_FakeIPStoreAsync_def
      cf_FakeIPSaveMetadataAsync_def set_pending_address_def pending_address_def Let_def fun_eq_iff
      split: option.splits)

text \<open>Both behind one interface.\<close>

lemma sum_ops_storage:
  assumes "fakeip_storage P" and "fakeip_storage Q"
  shows "fakeip_storage (sum_ops P Q)"
proof -
  note laws = assms [THEN fakeip_storage.Load_StoreAsync] assms [THEN fakeip_storage.LoadDomain_StoreAsync_same]
    assms [THEN fakeip_storage.LoadDomain_StoreAsync_family] assms [THEN fakeip_storage.LoadDomain_StoreAsync_other]
    assms [THEN fakeip_storage.Load_SaveMetadataAsync] assms [THEN fakeip_storage.LoadDomain_SaveMetadataAsync]
  show ?thesis
  proof
    fix a b :: addr and d e :: string and st and six and m
    show "st_Load (sum_ops P Q) (st_StoreAsync (sum_ops P Q) a d st) b =
        (if b = a then Some d else st_Load (sum_ops P Q) st b)"
      by (cases st) (simp_all add: sum_ops_def laws)
    show "st_LoadDomain (sum_ops P Q) (st_StoreAsync (sum_ops P Q) a d st) d (\<not> addr_Is4 a) = Some a"
      by (cases st) (simp_all add: sum_ops_def laws del: not_not)
    show "st_LoadDomain (sum_ops P Q) (st_StoreAsync (sum_ops P Q) a d st) e (addr_Is4 a) =
        st_LoadDomain (sum_ops P Q) st e (addr_Is4 a)"
      by (cases st) (simp_all add: sum_ops_def laws)
    show "st_LoadDomain (sum_ops P Q) (st_StoreAsync (sum_ops P Q) a d st) e six =
        st_LoadDomain (sum_ops P Q) st e six"
      if "st_Load (sum_ops P Q) st a \<noteq> Some e" "e \<noteq> d"
      using that by (cases st) (simp_all add: sum_ops_def laws)
    show "st_Load (sum_ops P Q) (st_SaveMetadataAsync (sum_ops P Q) m st) = st_Load (sum_ops P Q) st"
      by (cases st) (simp_all add: sum_ops_def laws)
    show "st_LoadDomain (sum_ops P Q) (st_SaveMetadataAsync (sum_ops P Q) m st) = st_LoadDomain (sum_ops P Q) st"
      by (cases st) (simp_all add: sum_ops_def laws)
  qed
qed

interpretation any: fakeip_storage "any_ops B M_AddrFromIP" for B :: "'d bolt" and M_AddrFromIP
  unfolding any_ops_def by (rule sum_ops_storage [OF mem.fakeip_storage_axioms cf.fakeip_storage_axioms])

section \<open>The store over any storage\<close>

definition range_of :: "bool \<Rightarrow> 's Store \<Rightarrow> Prefix" where
  "range_of six s = (if six then inet6Range s else inet4Range s)"

definition current_of :: "bool \<Rightarrow> 's Store \<Rightarrow> addr" where
  "current_of six s = (if six then inet6Current s else inet4Current s)"

definition set_current :: "bool \<Rightarrow> addr \<Rightarrow> 's Store \<Rightarrow> 's Store" where
  "set_current six a s = (if six then s\<lparr>inet6Current := a\<rparr> else s\<lparr>inet4Current := a\<rparr>)"

definition in_family :: "bool \<Rightarrow> addr \<Rightarrow> bool" where
  "in_family six a = (case a of AddrNone \<Rightarrow> False | Addr4 _ \<Rightarrow> \<not> six | Addr6 _ _ \<Rightarrow> six)"

text \<open>
  A store that can assign addresses of a family: the position is an address of the family and
  the range has a third address, in the range.
\<close>

definition can_assign :: "bool \<Rightarrow> 's Store \<Rightarrow> bool" where
  "can_assign six s \<longleftrightarrow> in_family six (current_of six s) \<and> in_family six (first_address (range_of six s)) \<and>
     Prefix_Contains (range_of six s) (first_address (range_of six s))"

lemma in_family_simps:
  "in_family six a \<Longrightarrow> addr_IsValid a" "in_family six a \<Longrightarrow> addr_Is4 a = (\<not> six)"
  by (auto simp: in_family_def addr_IsValid_def addr_Is4_def split: addr.splits)

lemma in_family_Next: "in_family six a \<Longrightarrow> addr_Next a \<noteq> AddrNone \<Longrightarrow> in_family six (addr_Next a)"
  by (cases a) (auto simp: in_family_def split: if_splits)

lemma Prefix_Contains_None [simp]: "\<not> Prefix_Contains p AddrNone"
  by (simp add: Prefix_Contains_def split: addr.splits)

lemma next_address_family:
  "in_family six c \<Longrightarrow> in_family six (first_address p) \<Longrightarrow> in_family six (next_address p c)"
  by (cases "addr_Next c = AddrNone") (simp_all add: next_address_def in_family_Next)

lemma next_address_Contains:
  "Prefix_Contains p (first_address p) \<Longrightarrow> Prefix_Contains p (next_address p c)"
  by (simp add: next_address_def)

lemma set_current_simps [simp]:
  "current_of six (set_current six a s) = a" "range_of f (set_current six a s) = range_of f s"
  "six \<noteq> f \<Longrightarrow> current_of f (set_current six a s) = current_of f s"
  "fs_storage (set_current six a s) = fs_storage s"
  "current_of f (s\<lparr>fs_storage := x\<rparr>) = current_of f s" "range_of f (s\<lparr>fs_storage := x\<rparr>) = range_of f s"
  by (auto simp: current_of_def range_of_def set_current_def)

lemma store_Create_fresh:
  assumes "fs_storage s = Some st" and "st_LoadDomain ops st d six = None" and "addr_IsValid (current_of six s)"
  defines "a \<equiv> next_address (range_of six s) (current_of six s)"
  shows "store_Create ops d six s =
    (Ok a, (set_current six a s)\<lparr>fs_storage := Some (st_SaveMetadataAsync ops (store_metadata (set_current six a s))
       (st_StoreAsync ops a d st))\<rparr>)"
  using assms(1-3)
  by (cases six) (simp_all add: store_Create_def a_def Let_def range_of_def current_of_def set_current_def)

fun creates ::
    "'s FakeIPStorage \<Rightarrow> bool \<Rightarrow> string list \<Rightarrow> 's Store \<Rightarrow> addr res list \<times> 's Store" where
  "creates ops six [] s = ([], s)"
| "creates ops six (d # ds) s =
     (let r = store_Create ops d six s; rs = creates ops six ds (snd r) in (fst r # fst rs, snd rs))"

fun address_seq :: "Prefix \<Rightarrow> addr \<Rightarrow> nat \<Rightarrow> addr list" where
  "address_seq p c 0 = []"
| "address_seq p c (Suc n) = next_address p c # address_seq p (next_address p c) n"

context fakeip_storage
begin

text \<open>One fresh assignment: address and domain are found from each other, nothing else moves.\<close>

lemma create_fresh:
  assumes s: "fs_storage s = Some st" and d: "st_LoadDomain ops st d six = None" and c: "can_assign six s"
  shows "\<exists>st'. store_Create ops d six s =
      (Ok (next_address (range_of six s) (current_of six s)),
       (set_current six (next_address (range_of six s) (current_of six s)) s)\<lparr>fs_storage := Some st'\<rparr>) \<and>
    st_Load ops st' = (st_Load ops st)(next_address (range_of six s) (current_of six s) \<mapsto> d) \<and>
    st_LoadDomain ops st' d six = Some (next_address (range_of six s) (current_of six s)) \<and>
    (\<forall>e f. st_Load ops st (next_address (range_of six s) (current_of six s)) \<noteq> Some e \<longrightarrow> e \<noteq> d \<longrightarrow>
       st_LoadDomain ops st' e f = st_LoadDomain ops st e f)"
proof -
  define a where "a = next_address (range_of six s) (current_of six s)"
  from c have f: "in_family six a" unfolding a_def can_assign_def by (intro next_address_family) auto
  from c have "addr_IsValid (current_of six s)" by (auto simp: can_assign_def in_family_simps)
  from store_Create_fresh [OF s d this]
  show ?thesis
    unfolding a_def [symmetric]
    using f by (auto simp: Load_StoreAsync LoadDomain_StoreAsync_same [of a, unfolded in_family_simps(2) [OF f], simplified]
        LoadDomain_StoreAsync_other Load_SaveMetadataAsync LoadDomain_SaveMetadataAsync fun_eq_iff)
qed

lemma create_again:
  "fs_storage s = Some st \<Longrightarrow> st_LoadDomain ops st d six = Some a \<Longrightarrow> store_Create ops d six s = (Ok a, s)"
  by (simp add: store_Create_def)

text \<open>
  Several assignments in a row, of domains the storage does not know: a domain is found from its address and keeps it as long as the address
  was not given to a later one.
\<close>

lemma creates_addresses:
  assumes "fs_storage s = Some st" and "can_assign six s" and "distinct ds"
    and "\<forall>d \<in> set ds. st_LoadDomain ops st d six = None \<and> (\<forall>a. st_Load ops st a \<noteq> Some d)"
  defines "A \<equiv> address_seq (range_of six s) (current_of six s) (length ds)"
  shows "\<exists>s' st'. creates ops six ds s = (map Ok A, s') \<and>
    fs_storage s' = Some st' \<and> inet4Range s' = inet4Range s \<and> inet6Range s' = inet6Range s \<and>
    (\<forall>i < length ds. A ! i \<notin> set (drop (Suc i) A) \<longrightarrow>
       st_Load ops st' (A ! i) = Some (ds ! i) \<and> st_LoadDomain ops st' (ds ! i) six = Some (A ! i)) \<and>
    (\<forall>b. b \<notin> set A \<longrightarrow> st_Load ops st' b = st_Load ops st b) \<and>
    (\<forall>e. e \<notin> set ds \<longrightarrow> (\<forall>b \<in> set A. st_Load ops st b \<noteq> Some e) \<longrightarrow> st_LoadDomain ops st' e six = st_LoadDomain ops st e six)"
  using assms(1-4) unfolding A_def
proof (induction ds arbitrary: s st)
  case Nil
  then show ?case by simp
next
  case (Cons d ds)
  define a where "a = next_address (range_of six s) (current_of six s)"
  define L where "L = address_seq (range_of six s) a (length ds)"
  have seq: "address_seq (range_of six s) (current_of six s) (length (d # ds)) = a # L"
    by (simp add: a_def L_def)
  note prems = Cons.prems [unfolded seq]
  from create_fresh [OF prems(1) _ prems(2), of d] prems(4)
  obtain st1 where st1: "store_Create ops d six s = (Ok a, (set_current six a s)\<lparr>fs_storage := Some st1\<rparr>)"
    "st_Load ops st1 = (st_Load ops st)(a \<mapsto> d)" "st_LoadDomain ops st1 d six = Some a"
    "\<forall>e f. st_Load ops st a \<noteq> Some e \<longrightarrow> e \<noteq> d \<longrightarrow> st_LoadDomain ops st1 e f = st_LoadDomain ops st e f"
    by (auto simp: a_def)
  define s1 where "s1 = (set_current six a s)\<lparr>fs_storage := Some st1\<rparr>"
  have s1: "fs_storage s1 = Some st1" "range_of six s1 = range_of six s" "current_of six s1 = a"
    "inet4Range s1 = inet4Range s" "inet6Range s1 = inet6Range s"
    by (auto simp: s1_def set_current_def range_of_def current_of_def)
  have "can_assign six s1"
    using prems(2) by (auto simp: can_assign_def s1 a_def intro: next_address_family)
  moreover have "\<forall>d' \<in> set ds. st_LoadDomain ops st1 d' six = None \<and> (\<forall>b. st_Load ops st1 b \<noteq> Some d')"
  proof
    fix d' assume "d' \<in> set ds"
    with prems(3,4) have "d' \<noteq> d" "st_LoadDomain ops st d' six = None" "\<forall>b. st_Load ops st b \<noteq> Some d'" by auto
    with st1(2,4) show "st_LoadDomain ops st1 d' six = None \<and> (\<forall>b. st_Load ops st1 b \<noteq> Some d')" by simp
  qed
  ultimately obtain s' st' where IH: "creates ops six ds s1 = (map Ok L, s')" "fs_storage s' = Some st'"
    "inet4Range s' = inet4Range s" "inet6Range s' = inet6Range s"
    "\<forall>i < length ds. L ! i \<notin> set (drop (Suc i) L) \<longrightarrow>
       st_Load ops st' (L ! i) = Some (ds ! i) \<and> st_LoadDomain ops st' (ds ! i) six = Some (L ! i)"
    "\<forall>b. b \<notin> set L \<longrightarrow> st_Load ops st' b = st_Load ops st1 b"
    "\<forall>e. e \<notin> set ds \<longrightarrow> (\<forall>b \<in> set L. st_Load ops st1 b \<noteq> Some e) \<longrightarrow> st_LoadDomain ops st' e six = st_LoadDomain ops st1 e six"
    using Cons.IH [OF s1(1), unfolded s1 L_def [symmetric]] prems(3) by auto
  have "creates ops six (d # ds) s = (map Ok (a # L), s')"
    by (simp add: st1(1) s1_def [symmetric] IH(1))
  moreover have "st_Load ops st' ((a # L) ! i) = Some ((d # ds) ! i) \<and>
      st_LoadDomain ops st' ((d # ds) ! i) six = Some ((a # L) ! i)"
    if "i < length (d # ds)" "(a # L) ! i \<notin> set (drop (Suc i) (a # L))" for i
  proof (cases i)
    case 0
    with that have "a \<notin> set L" by simp
    moreover from this have "\<forall>b \<in> set L. st_Load ops st1 b \<noteq> Some d" using prems(4) by (auto simp: st1(2))
    ultimately show ?thesis using 0 IH(6,7) prems(3) st1(2,3) by auto
  next
    case (Suc j)
    then show ?thesis using that IH(5) by auto
  qed
  moreover have "\<forall>b. b \<notin> set (a # L) \<longrightarrow> st_Load ops st' b = st_Load ops st b"
    using IH(6) by (auto simp: st1(2))
  moreover have "st_LoadDomain ops st' e six = st_LoadDomain ops st e six"
    if "e \<notin> set (d # ds)" "\<forall>b \<in> set (a # L). st_Load ops st b \<noteq> Some e" for e
    using that IH(7) st1(4) by (auto simp: st1(2))
  ultimately show ?case unfolding seq using IH(2-4) by blast
qed

end

section \<open>Addresses of a range\<close>

text \<open>The address at a distance, and a range whose address has only zeros in its free bits, such as 198.18.0.0/15.\<close>

fun addr_plus :: "addr \<Rightarrow> nat \<Rightarrow> addr" where
  "addr_plus AddrNone j = AddrNone"
| "addr_plus (Addr4 w) j = Addr4 (w + of_nat j)"
| "addr_plus (Addr6 w z) j = Addr6 (w + of_nat j) z"

definition aligned_range :: "bool \<Rightarrow> Prefix \<Rightarrow> nat \<Rightarrow> bool" where
  "aligned_range six p m \<longleftrightarrow> Prefix_IsValid p \<and>
     (case pf_ip p of
        AddrNone \<Rightarrow> False
      | Addr4 w \<Rightarrow> \<not> six \<and> m + (pf_bitsPlusOne p - 1) = 32 \<and> take_bit m w = 0
      | Addr6 w z \<Rightarrow> six \<and> z = [] \<and> m + (pf_bitsPlusOne p - 1) = 128 \<and> take_bit m w = 0)"

lemma drop_xor_zero: "drop_bit m (x :: 'a :: len word) XOR drop_bit m y = 0 \<longleftrightarrow> unat x div 2 ^ m = unat y div 2 ^ m"
proof -
  have zero: "u XOR v = 0 \<longleftrightarrow> u = v" for u v :: "'a word" by (metis xor.assoc xor.left_neutral xor.right_neutral xor_self_eq)
  have "drop_bit m x XOR drop_bit m y = 0 \<longleftrightarrow> unat (drop_bit m x) = unat (drop_bit m y)" by (simp only: zero) (simp only: word_unat_eq_iff)
  then show ?thesis by (simp only: unat_drop_bit_eq drop_bit_eq_div [where 'a = nat])
qed

text \<open>An aligned address followed by its range: below the end the sum is exact and keeps the upper bits; at the end it wraps or changes them.\<close>

lemma aligned_bound:
  fixes w :: "'a :: len word"
  assumes "take_bit m w = 0" and "m \<le> LENGTH('a)"
  obtains k where "unat w = k * 2 ^ m" and "(k + 1) * 2 ^ m \<le> 2 ^ LENGTH('a)"
proof -
  have "unat (take_bit m w) = 0" using assms(1) by simp
  then have "take_bit m (unat w) = 0" by (simp only: unsigned_take_bit_eq)
  then have "unat w mod 2 ^ m = 0" by (simp add: take_bit_eq_mod)
  then obtain k where k: "unat w = k * 2 ^ m" by (metis dvdE mod_0_imp_dvd mult.commute)
  have L: "(2 :: nat) ^ LENGTH('a) = 2 ^ (LENGTH('a) - m) * 2 ^ m" using assms(2) by (simp flip: power_add)
  have "k * 2 ^ m < 2 ^ (LENGTH('a) - m) * 2 ^ m" using k L unsigned_less [of w, where 'a = nat] by simp
  then have "k + 1 \<le> 2 ^ (LENGTH('a) - m)" by simp
  then have "(k + 1) * 2 ^ m \<le> 2 ^ LENGTH('a)" unfolding L by (rule mult_le_mono1)
  with k show ?thesis by (rule that)
qed

lemma aligned_word:
  fixes w :: "'a :: len word"
  assumes "take_bit m w = 0" and "m \<le> LENGTH('a)" and "j < 2 ^ m"
  shows "unat (w + of_nat j) = unat w + j \<and> (unat w + j) div 2 ^ m = unat w div 2 ^ m"
proof -
  obtain k where k: "unat w = k * 2 ^ m" "(k + 1) * 2 ^ m \<le> 2 ^ LENGTH('a)" using assms(1,2) by (rule aligned_bound)
  have "unat w + j < 2 ^ LENGTH('a)" using k assms(3) by simp
  then have "unat (of_nat (unat w + j) :: 'a word) = unat w + j" by (simp add: unsigned_of_nat take_bit_nat_eq_self del: of_nat_add)
  then have "unat (w + of_nat j) = unat w + j" by simp
  then show ?thesis using k(1) assms(3) by simp
qed

lemma aligned_word_end:
  fixes w :: "'a :: len word"
  assumes "take_bit m w = 0" and "m \<le> LENGTH('a)"
  shows "w + of_nat (2 ^ m) = 0 \<or> unat (w + of_nat (2 ^ m)) div 2 ^ m \<noteq> unat w div 2 ^ m"
proof -
  obtain k where k: "unat w = k * 2 ^ m" "(k + 1) * 2 ^ m \<le> 2 ^ LENGTH('a)" using assms by (rule aligned_bound)
  have w: "w + of_nat (2 ^ m) = of_nat ((k + 1) * 2 ^ m)"
    using arg_cong [OF k(1), of "of_nat :: nat \<Rightarrow> 'a word"] by (simp add: algebra_simps)
  show ?thesis
  proof (cases "(k + 1) * 2 ^ m = 2 ^ LENGTH('a)")
    case True
    then have "w + of_nat (2 ^ m) = of_nat (2 ^ LENGTH('a))" using w by simp
    then show ?thesis by (simp add: word_eq_iff_unsigned)
  next
    case False
    then have "(k + 1) * 2 ^ m < 2 ^ LENGTH('a)" using k(2) by simp
    then have "unat (w + of_nat (2 ^ m)) = (k + 1) * 2 ^ m"
      unfolding w by (simp only: unsigned_of_nat take_bit_nat_eq_self of_nat_id)
    then have "unat (w + of_nat (2 ^ m)) div 2 ^ m = k + 1" by simp
    then show ?thesis using k(1) by simp
  qed
qed

lemma aligned_nonzero:
  fixes w :: "'a :: len word"
  assumes "take_bit m w = 0" and "m \<le> LENGTH('a)" and "Suc j < 2 ^ m"
  shows "w + of_nat (Suc j) \<noteq> 0"
  using aligned_word [OF assms] by (metis add_is_0 nat.distinct(1) unsigned_0)

lemma of_nat_pred_power: "of_nat (2 ^ m - Suc 0) + 1 = (of_nat (2 ^ m) :: 'a :: len word)"
proof -
  have "Suc (2 ^ m - Suc 0) = 2 ^ m" by simp
  then show ?thesis by (metis add.commute of_nat_Suc)
qed

lemma aligned_contains:
  assumes "aligned_range six p m" and "j < 2 ^ m"
  shows "Prefix_Contains p (addr_plus (pf_ip p) j)" and "in_family six (addr_plus (pf_ip p) j)"
proof -
  consider w where "pf_ip p = Addr4 w" "m + (pf_bitsPlusOne p - 1) = 32" "take_bit m w = 0" "\<not> six"
    | w where "pf_ip p = Addr6 w []" "m + (pf_bitsPlusOne p - 1) = 128" "take_bit m w = 0" "six"
    using assms(1) by (auto simp: aligned_range_def split: addr.splits)
  then have "Prefix_Contains p (addr_plus (pf_ip p) j) \<and> in_family six (addr_plus (pf_ip p) j)"
  proof cases
    case (1 w)
    then have "32 - (pf_bitsPlusOne p - 1) = m" by simp
    with 1 aligned_word [of m w j] assms show ?thesis
      by (simp add: Prefix_Contains_def aligned_range_def drop_xor_zero in_family_def)
  next
    case (2 w)
    then have "128 - (pf_bitsPlusOne p - 1) = m" by simp
    with 2 aligned_word [of m w j] assms show ?thesis
      by (simp add: Prefix_Contains_def aligned_range_def drop_xor_zero in_family_def)
  qed
  then show "Prefix_Contains p (addr_plus (pf_ip p) j)" and "in_family six (addr_plus (pf_ip p) j)" by auto
qed

lemma aligned_end:
  assumes "aligned_range six p m"
  shows "\<not> Prefix_Contains p (addr_Next (addr_plus (pf_ip p) (2 ^ m - 1)))"
proof -
  consider w where "pf_ip p = Addr4 w" "m + (pf_bitsPlusOne p - 1) = 32" "take_bit m w = 0"
    | w where "pf_ip p = Addr6 w []" "m + (pf_bitsPlusOne p - 1) = 128" "take_bit m w = 0"
    using assms by (auto simp: aligned_range_def split: addr.splits)
  then show ?thesis
  proof cases
    case (1 w)
    then have m: "32 - (pf_bitsPlusOne p - 1) = m" "m \<le> LENGTH(32)" by simp_all
    show ?thesis using 1 m aligned_word_end [OF 1(3) m(2)] by (auto simp: Prefix_Contains_def drop_xor_zero add.assoc of_nat_pred_power simp del: of_nat_power of_nat_diff)
  next
    case (2 w)
    then have m: "128 - (pf_bitsPlusOne p - 1) = m" "m \<le> LENGTH(128)" by simp_all
    show ?thesis using 2 m aligned_word_end [OF 2(3) m(2)] by (auto simp: Prefix_Contains_def drop_xor_zero add.assoc of_nat_pred_power simp del: of_nat_power of_nat_diff)
  qed
qed

lemma aligned_Next:
  assumes "aligned_range six p m" and "Suc j < 2 ^ m"
  shows "addr_Next (addr_plus (pf_ip p) j) = addr_plus (pf_ip p) (Suc j)"
proof -
  consider w where "pf_ip p = Addr4 w" "m \<le> LENGTH(32)" "take_bit m w = 0"
    | w z where "pf_ip p = Addr6 w z" "m \<le> LENGTH(128)" "take_bit m w = 0"
    using assms(1) by (auto simp: aligned_range_def split: addr.splits)
  then show ?thesis
  proof cases
    case (1 w)
    then show ?thesis using aligned_nonzero [OF 1(3,2) assms(2)] by (simp add: algebra_simps)
  next
    case (2 w z)
    then show ?thesis using aligned_nonzero [OF 2(3,2) assms(2)] by (simp add: algebra_simps)
  qed
qed

lemma first_address_aligned:
  assumes "aligned_range six p m" and "2 \<le> m"
  shows "first_address p = addr_plus (pf_ip p) 2"
proof -
  have "(2 :: nat) ^ 2 \<le> 2 ^ m" using assms(2) by (rule power_increasing) simp
  then have "addr_Next (addr_plus (pf_ip p) 0) = addr_plus (pf_ip p) 1" "addr_Next (addr_plus (pf_ip p) 1) = addr_plus (pf_ip p) 2"
    using aligned_Next [OF assms(1), of 0] aligned_Next [OF assms(1), of 1] by (simp_all add: numeral_2_eq_2)
  moreover have "addr_plus (pf_ip p) 0 = pf_ip p" by (cases "pf_ip p") simp_all
  ultimately show ?thesis by (simp add: first_address_def)
qed

text \<open>The addresses of an aligned range are given out in a circle that leaves out its first two.\<close>

definition circle_addr :: "Prefix \<Rightarrow> nat \<Rightarrow> nat \<Rightarrow> addr" where
  "circle_addr p m k = addr_plus (pf_ip p) (k mod (2 ^ m - 2) + 2)"

lemma circle_offset:
  assumes "2 \<le> m"
  shows "(k :: nat) mod (2 ^ m - 2) + 2 < 2 ^ m"
proof -
  have "(2 :: nat) ^ 2 \<le> 2 ^ m" using assms by (rule power_increasing) simp
  then have "0 < (2 :: nat) ^ m - 2" by simp
  then have "k mod (2 ^ m - 2) < 2 ^ m - 2" by (rule mod_less_divisor)
  then show ?thesis by linarith
qed

lemma next_address_aligned:
  assumes "aligned_range six p m" and "2 \<le> m"
  shows "next_address p (circle_addr p m k) = circle_addr p m (Suc k)"
proof -
  define N where "N = (2 :: nat) ^ m - 2"
  define j where "j = k mod N"
  have j: "j + 2 < 2 ^ m" "circle_addr p m k = addr_plus (pf_ip p) (j + 2)" "circle_addr p m (Suc k) = addr_plus (pf_ip p) (Suc j mod N + 2)"
    using circle_offset [OF assms(2), of k] by (simp_all add: j_def N_def circle_addr_def mod_Suc_eq)
  show ?thesis
  proof (cases "Suc j < N")
    case True
    then show ?thesis
      using aligned_Next [OF assms(1), of "j + 2"] aligned_contains(1) [OF assms(1), of "j + 3"]
      by (simp add: j next_address_def eval_nat_numeral N_def)
  next
    case False
    with j(1) have "j + 2 = 2 ^ m - 1" "Suc j = N" by (simp_all add: N_def)
    then show ?thesis
      using aligned_end [OF assms(1)] first_address_aligned [OF assms] by (simp add: j next_address_def numeral_2_eq_2)
  qed
qed

lemma address_seq_aligned:
  assumes "aligned_range six p m" and "2 \<le> m"
  shows "address_seq p (circle_addr p m k) n = map (\<lambda>i. circle_addr p m (k + i + 1)) [0..<n]"
proof (induction n arbitrary: k)
  case (Suc n)
  have "map (\<lambda>i. circle_addr p m (Suc k + i + 1)) [0..<n] = map (\<lambda>i. circle_addr p m (k + i + 1)) [Suc 0..<Suc n]"
    by (simp only: map_Suc_upt [symmetric] map_map comp_def) simp
  then show ?case
    using Suc.IH [of "Suc k"] next_address_aligned [OF assms] by (simp add: upt_conv_Cons del: upt_Suc)
qed simp

lemma addr_plus_inject:
  assumes "aligned_range six p m" and "i < 2 ^ m" and "j < 2 ^ m" and "addr_plus (pf_ip p) i = addr_plus (pf_ip p) j"
  shows "i = j"
proof -
  consider w where "pf_ip p = Addr4 w" "m \<le> LENGTH(32)" "take_bit m w = 0"
    | w z where "pf_ip p = Addr6 w z" "m \<le> LENGTH(128)" "take_bit m w = 0"
    using assms(1) by (auto simp: aligned_range_def split: addr.splits)
  then show ?thesis
  proof cases
    case (1 w)
    then have "w + of_nat i = w + of_nat j" using assms(4) by simp
    then have "unat w + i = unat w + j" using aligned_word [OF 1(3,2) assms(2)] aligned_word [OF 1(3,2) assms(3)] by metis
    then show ?thesis by simp
  next
    case (2 w z)
    then have "w + of_nat i = w + of_nat j" using assms(4) by simp
    then have "unat w + i = unat w + j" using aligned_word [OF 2(3,2) assms(2)] aligned_word [OF 2(3,2) assms(3)] by metis
    then show ?thesis by simp
  qed
qed

text \<open>An address comes again after \<open>2\<^sup>m - 2\<close> others, and not before.\<close>

lemma circle_addr_eq:
  assumes "aligned_range six p m" and "2 \<le> m"
  shows "circle_addr p m i = circle_addr p m j \<longleftrightarrow> i mod (2 ^ m - 2) = j mod (2 ^ m - 2)"
  using addr_plus_inject [OF assms(1) circle_offset [OF assms(2), of i] circle_offset [OF assms(2), of j]]
  by (auto simp: circle_addr_def)

lemma circle_addr_later:
  assumes "aligned_range six p m" and "2 \<le> m" and "i < j" and "j < i + (2 ^ m - 2)"
  shows "circle_addr p m i \<noteq> circle_addr p m j"
proof
  assume "circle_addr p m i = circle_addr p m j"
  then have "i mod (2 ^ m - 2) = j mod (2 ^ m - 2)" using circle_addr_eq [OF assms(1,2)] by simp
  then have "(2 ^ m - 2) dvd (j - i)" using assms(3) mod_eq_dvd_iff_nat [of i j "2 ^ m - 2"] by simp
  then show False using assms(3,4) by (auto dest: dvd_imp_le)
qed

section \<open>Properties\<close>

text \<open>
  C5: a domain that has no address yet gets one in the range of the family, for a storage in
  memory and for the cache file.  The address leads back to the domain, the domain keeps the
  address, and no other address changes its domain.
\<close>

theorem store_Create_assigns:
  assumes "fs_storage s = Some st" and "st_LoadDomain (any_ops B M) st d six = None" and "can_assign six s"
  shows "\<exists>a s'. store_Create (any_ops B M) d six s = (Ok a, s') \<and>
    Prefix_Contains (range_of six s) a \<and> addr_Is4 a = (\<not> six) \<and> can_assign six s' \<and>
    store_Lookup (any_ops B M) s' a = Ok (Some d) \<and>
    (\<forall>b. b \<noteq> a \<longrightarrow> store_Lookup (any_ops B M) s' b = store_Lookup (any_ops B M) s b) \<and>
    store_Create (any_ops B M) d six s' = (Ok a, s')"
proof -
  define a where "a = next_address (range_of six s) (current_of six s)"
  from any.create_fresh [OF assms] obtain st' where
    st': "store_Create (any_ops B M) d six s = (Ok a, (set_current six a s)\<lparr>fs_storage := Some st'\<rparr>)"
      "st_Load (any_ops B M) st' = (st_Load (any_ops B M) st)(a \<mapsto> d)"
      "st_LoadDomain (any_ops B M) st' d six = Some a"
    unfolding a_def by blast
  define s' where "s' = (set_current six a s)\<lparr>fs_storage := Some st'\<rparr>"
  have s': "fs_storage s' = Some st'" "range_of six s' = range_of six s" "current_of six s' = a"
    by (simp_all add: s'_def)
  have fam: "in_family six a"
    using assms(3) unfolding a_def can_assign_def by (intro next_address_family) auto
  then have "can_assign six s'" using assms(3) by (simp add: can_assign_def s')
  moreover have "Prefix_Contains (range_of six s) a"
    using assms(3) unfolding a_def can_assign_def by (intro next_address_Contains) auto
  moreover have "store_Create (any_ops B M) d six s' = (Ok a, s')"
    by (rule any.create_again [OF s'(1) st'(3)])
  ultimately show ?thesis
    using st'(1) fam
    by (intro exI [of _ a] exI [of _ s'])
      (simp add: s'_def [symmetric] s' store_Lookup_def st'(2) assms(1) in_family_simps)
qed

definition demo_range :: Prefix where
  "demo_range = PrefixFrom (Addr4 0xC6120000) 15"

definition demo_store :: "(MemoryStorage + btree CacheFile) Store" where
  "demo_store = snd (store_Start bolt_tree (\<lambda>_. AddrNone) None (NewStore demo_range Prefix_zero))"

lemma demo_store_eq:
  "demo_store = \<lparr>inet4Range = demo_range, inet6Range = Prefix_zero, fs_storage = Some (Inl NewMemoryStorage),
     inet4Current = Addr4 0xC6120002, inet6Current = AddrNone\<rparr>"
  by (simp add: demo_store_def store_Start_def start_with_def start_fresh_def choose_storage_def any_ops_def
      sum_ops_def mem_ops_def map_Inl_def NewStore_def demo_range_def PrefixFrom_def Prefix_IsValid_def
      Prefix_zero_def first_address_def mem_FakeIPReset_def NewMemoryStorage_def)

lemma store_Create_assigns_witness:
  "\<exists>a s'. store_Create (any_ops bolt_tree (\<lambda>_. AddrNone)) ''example.com'' False demo_store = (Ok a, s') \<and>
     store_Lookup (any_ops bolt_tree (\<lambda>_. AddrNone)) s' a = Ok (Some ''example.com'')"
proof -
  have "can_assign False demo_store"
    by (simp add: demo_store_eq can_assign_def demo_range_def current_of_def range_of_def in_family_def
        first_address_def PrefixFrom_def Prefix_Contains_def Prefix_IsValid_def)
  moreover have "st_LoadDomain (any_ops bolt_tree (\<lambda>_. AddrNone)) (Inl NewMemoryStorage) ''example.com'' False = None"
    by (simp add: any_ops_def sum_ops_def mem_ops_def mem_FakeIPLoadDomain_def NewMemoryStorage_def)
  ultimately show ?thesis
    using store_Create_assigns [of demo_store "Inl NewMemoryStorage" bolt_tree "\<lambda>_. AddrNone" "''example.com''" False]
    by (auto simp: demo_store_eq)
qed

lemma memory_Start:
  fixes B :: "'d bolt"
  assumes "store_Start B M None (NewStore range4 range6) = (Ok (), s)" and "Prefix_IsValid range4"
  shows "inet4Range s = range4 \<and> inet4Current s = first_address range4 \<and> fs_storage s = Some (Inl NewMemoryStorage)"
  using assms
  by (auto simp: store_Start_def start_with_def start_fresh_def choose_storage_def any_ops_def
      sum_ops_def mem_ops_def map_Inl_def NewStore_def mem_FakeIPReset_def NewMemoryStorage_def Let_def
      split: if_splits)


text \<open>A store that starts without metadata begins at the first position of its ranges.\<close>

lemma start_position:
  fixes B :: "'d bolt"
  assumes "store_Start B M None (NewStore range4 range6) = (Ok (), s)" and "aligned_range False range4 m" and "2 \<le> m"
  shows "inet4Range s = range4 \<and> inet4Current s = circle_addr range4 m 0 \<and> fs_storage s = Some (Inl NewMemoryStorage)"
  using memory_Start [OF assms(1)] assms(2) first_address_aligned [OF assms(2,3)]
  by (simp add: aligned_range_def circle_addr_def numeral_2_eq_2)

text \<open>In a range of four addresses the third domain gets the address of the first.\<close>

definition small_store :: "(MemoryStorage + btree CacheFile) Store" where
  "small_store = snd (store_Start bolt_tree (\<lambda>_. AddrNone) None (NewStore (PrefixFrom (Addr4 0xC6120000) 30) Prefix_zero))"


section \<open>Restart with a cache file\<close>

text \<open>A database whose writes do not fail.\<close>

definition bolt_works :: "'d bolt \<Rightarrow> bool" where
  "bolt_works B \<longleftrightarrow>
     (\<forall>d n. \<exists>d'. bolt_CreateBucketIfNotExists B [] n d = Inr d') \<and>
     (\<forall>d p k v. bolt_view B d p \<noteq> None \<and> k \<noteq> [] \<longrightarrow> (\<exists>d'. bolt_Put B p k v d = Inr d')) \<and>
     (\<forall>d p k. bolt_view B d p \<noteq> None \<longrightarrow> (\<exists>d'. bolt_Delete B p k d = Inr d')) \<and>
     (\<forall>d. bolt_Commit B d = None)"

lemma bolt_works_simps:
  "bolt_works B \<Longrightarrow> \<exists>d'. bolt_CreateBucketIfNotExists B [] n d = Inr d'"
  "bolt_works B \<Longrightarrow> bolt_view B d p \<noteq> None \<Longrightarrow> k \<noteq> [] \<Longrightarrow> \<exists>d'. bolt_Put B p k v d = Inr d'"
  "bolt_works B \<Longrightarrow> bolt_view B d p \<noteq> None \<Longrightarrow> \<exists>d'. bolt_Delete B p k d = Inr d'"
  "bolt_works B \<Longrightarrow> bolt_Commit B d = None"
  by (simp_all add: bolt_works_def)

lemma bolt_tree_works: "bolt_works bolt_tree"
proof -
  have at: "bt_view t p \<noteq> None \<Longrightarrow> (\<And>s. \<exists>s'. f s = Inr s') \<Longrightarrow> \<exists>t'. bt_at p f t = Inr t'" for t p f
    by (induction p f t rule: bt_at.induct) (fastforce simp: bt_view_simps bindE_Inr split: option.splits)+
  show ?thesis
    unfolding bolt_works_def bolt_view_tree
    by (intro conjI allI impI) (auto simp: bolt_tree_def intro!: at)
qed

lemma fakeip_names_ne [simp]:
  "bucketFakeIP \<noteq> bucketFakeIPDomain4" "bucketFakeIP \<noteq> bucketFakeIPDomain6"
  "bucketFakeIPDomain4 \<noteq> bucketFakeIPDomain6" "bucketFakeIP \<noteq> domain_bucket six"
  "bucketFakeIPDomain4 \<noteq> bucketFakeIP" "bucketFakeIPDomain6 \<noteq> bucketFakeIP"
  "bucketFakeIPDomain6 \<noteq> bucketFakeIPDomain4" "domain_bucket six \<noteq> bucketFakeIP"
  "domain_bucket six = domain_bucket six' \<longleftrightarrow> six = six'" "keyMetadata \<noteq> []"
  by (auto simp: fakeip_names domain_bucket_def)

lemma AsSlice_ne_keyMetadata [simp]: "addr_AsSlice a \<noteq> keyMetadata" "keyMetadata \<noteq> addr_AsSlice a"
proof -
  have "length (addr_AsSlice a) \<in> {0, 4, 16}" by (cases a) auto
  moreover have "length keyMetadata = 15" by (simp add: fakeip_names)
  ultimately have "length (addr_AsSlice a) \<noteq> length keyMetadata" by auto
  then show "addr_AsSlice a \<noteq> keyMetadata" "keyMetadata \<noteq> addr_AsSlice a" by metis+
qed

lemma cf_FakeIPLoad_content:
  "cf_FakeIPLoad B c a =
     (case cf_saveDomain c a of Some d \<Rightarrow> Some d
      | None \<Rightarrow> (case content B (cf_DB c) [bucketFakeIP] (addr_AsSlice a) of
                  None \<Rightarrow> None | Some d \<Rightarrow> if d \<noteq> [] then Some d else None))"
  by (simp add: cf_FakeIPLoad_def content_def split: option.splits)

text \<open>\<open>M.AddrFromIP\<close> of the empty slice is the zero address.\<close>

lemma cf_FakeIPLoadDomain_content:
  "M [] = AddrNone \<Longrightarrow> cf_FakeIPLoadDomain B M c d six =
     (case pending_address c six d of Some a \<Rightarrow> Some a
      | None \<Rightarrow> (let a = M (case content B (cf_DB c) [domain_bucket six] d of None \<Rightarrow> [] | Some b \<Rightarrow> b)
                 in if addr_IsValid a then Some a else None))"
  by (simp add: cf_FakeIPLoadDomain_def content_def addr_IsValid_def Let_def split: option.splits)

lemma cf_FakeIPSaveMetadata_content:
  assumes "bolt_ok B" and "cf_FakeIPSaveMetadata B m c = (None, c')"
  shows "\<exists>d'. c' = c\<lparr>cf_DB := d'\<rparr> \<and> content B d' = (content B (cf_DB c))([bucketFakeIP] :=
    (content B (cf_DB c) [bucketFakeIP])(keyMetadata \<mapsto> FakeIPMetadata_MarshalBinary m))"
proof -
  from assms(2) obtain d1 d2 where "bolt_CreateBucketIfNotExists B [] bucketFakeIP (cf_DB c) = Inr d1"
    and "bolt_Put B [bucketFakeIP] keyMetadata (FakeIPMetadata_MarshalBinary m) d1 = Inr d2"
    and "c' = c\<lparr>cf_DB := d2\<rparr>"
    by (auto simp: cf_FakeIPSaveMetadata_def cf_Batch_None bindE_Inr)
  with bolt_Create_content [OF assms(1) this(1)] bolt_Put_content [OF assms(1) this(2)]
  show ?thesis by auto
qed

lemma MarshalBinary_not_Nil [simp]: "FakeIPMetadata_MarshalBinary m \<noteq> []"
proof -
  have "length (md_element x) = 2 + length x" for x by (simp add: md_element_def)
  then show ?thesis by (auto simp: FakeIPMetadata_MarshalBinary_def Prefix_MarshalBinary_def simp flip: length_0_conv)
qed

text \<open>Reading the metadata that was saved; the entry is removed and nothing else.\<close>

lemma cf_FakeIPMetadata_saved:
  assumes "bolt_ok B" and "bolt_works B" and "FakeIPMetadata_wf m"
    and "content B (cf_DB c) [bucketFakeIP] keyMetadata = Some (FakeIPMetadata_MarshalBinary m)"
  shows "\<exists>d'. cf_FakeIPMetadata B c = (Ok (Some m), c\<lparr>cf_DB := d'\<rparr>) \<and>
    content B d' = (content B (cf_DB c))([bucketFakeIP] := (content B (cf_DB c) [bucketFakeIP])(keyMetadata := None))"
proof -
  from assms(4) obtain v where v: "bolt_view B (cf_DB c) [bucketFakeIP] = Some v"
    "v keyMetadata = Some (FakeIPMetadata_MarshalBinary m)"
    by (auto simp: content_def split: option.splits)
  from assms(2) v(1) obtain d' where d': "bolt_Delete B [bucketFakeIP] keyMetadata (cf_DB c) = Inr d'"
    "bolt_Commit B d' = None"
    using bolt_works_simps(3,4) [OF assms(2)] by (metis option.distinct(1))
  show ?thesis
    using v d' FakeIPMetadata_Unmarshal_Marshal [OF assms(3), of "[]"] bolt_Delete_content [OF assms(1) d'(1)]
    by (auto simp: cf_FakeIPMetadata_def)
qed

lemma any_ops_cf:
  "st_Metadata (any_ops B M) (Inr c) = map_Inr (cf_FakeIPMetadata B c)"
  "st_Reset (any_ops B M) (Inr c) = map_Inr (cf_FakeIPReset B c)"
  "st_SaveMetadata (any_ops B M) m (Inr c) = map_Inr (cf_FakeIPSaveMetadata B m c)"
  "st_Load (any_ops B M) (Inr c) = cf_FakeIPLoad B c"
  "st_LoadDomain (any_ops B M) (Inr c) = cf_FakeIPLoadDomain B M c"
  by (simp_all add: any_ops_def sum_ops_def cf_ops_def)

text \<open>
  C36: after a clean \<open>Close\<close>, a store that is started on the saved database with the same ranges
  goes on at the same addresses and finds every address and every domain as before, when
  nothing was pending.
\<close>

theorem fakeip_restart_continues:
  fixes B :: "'d bolt"
  assumes "bolt_ok B" and "bolt_works B" and "M [] = AddrNone"
    and "FakeIPMetadata_wf (store_metadata s)" and "fs_storage s = Some (Inr c)"
    and "cf_saveDomain c = Map.empty" and "cf_saveAddress4 c = Map.empty" and "cf_saveAddress6 c = Map.empty"
    and "store_Close (any_ops B M) s = (None, s1)" and "fs_storage s1 = Some (Inr c1)"
    and "cf_storeFakeIP c2" and "cf_DB c2 = cf_DB c1"
    and "cf_saveDomain c2 = Map.empty" and "cf_saveAddress4 c2 = Map.empty" and "cf_saveAddress6 c2 = Map.empty"
  shows "\<exists>s2. store_Start B M (Some c2) (NewStore (inet4Range s) (inet6Range s)) = (Ok (), s2) \<and>
    inet4Current s2 = inet4Current s \<and> inet6Current s2 = inet6Current s \<and>
    (\<forall>a. store_Lookup (any_ops B M) s2 a = store_Lookup (any_ops B M) s a) \<and>
    (\<forall>d six st2. fs_storage s2 = Some st2 \<longrightarrow>
       st_LoadDomain (any_ops B M) st2 d six = st_LoadDomain (any_ops B M) (Inr c) d six)"
proof -
  from assms(5,9,10) have "cf_FakeIPSaveMetadata B (store_metadata s) c = (None, c1)"
    by (auto simp: store_Close_def any_ops_cf map_Inr_def prod_eq_iff)
  from cf_FakeIPSaveMetadata_content [OF assms(1) this] assms(12) have
    c2: "content B (cf_DB c2) = (content B (cf_DB c))([bucketFakeIP] :=
      (content B (cf_DB c) [bucketFakeIP])(keyMetadata \<mapsto> FakeIPMetadata_MarshalBinary (store_metadata s)))"
    by auto
  then obtain d' where d': "cf_FakeIPMetadata B c2 = (Ok (Some (store_metadata s)), c2\<lparr>cf_DB := d'\<rparr>)"
    "content B d' = (content B (cf_DB c2))([bucketFakeIP] := (content B (cf_DB c2) [bucketFakeIP])(keyMetadata := None))"
    using cf_FakeIPMetadata_saved [OF assms(1,2,4), of c2] by auto
  define s2 where "s2 = \<lparr>inet4Range = inet4Range s, inet6Range = inet6Range s,
    fs_storage = Some (Inr (c2\<lparr>cf_DB := d'\<rparr>) :: MemoryStorage + 'd CacheFile),
    inet4Current = inet4Current s, inet6Current = inet6Current s\<rparr>"
  have start: "store_Start B M (Some c2) (NewStore (inet4Range s) (inet6Range s)) = (Ok (), s2)"
    by (simp add: store_Start_def choose_storage_def assms(11) start_with_def any_ops_cf d'(1) map_Inr_def
        store_metadata_def NewStore_def s2_def)
  have "cf_FakeIPLoad B (c2\<lparr>cf_DB := d'\<rparr>) a = cf_FakeIPLoad B c a" for a
    by (simp add: cf_FakeIPLoad_content d'(2) c2 assms(6,13))
  moreover have "cf_FakeIPLoadDomain B M (c2\<lparr>cf_DB := d'\<rparr>) d six = cf_FakeIPLoadDomain B M c d six" for d six
    by (simp add: cf_FakeIPLoadDomain_content [of M, OF assms(3)] d'(2) c2 pending_address_def assms(7,8,14,15))
  ultimately show ?thesis
    using start by (auto simp: s2_def store_Lookup_def assms(5) any_ops_cf)
qed

text \<open>The reset is all or nothing, and it fails when one of the three buckets was never made.\<close>

lemma cf_FakeIPReset_fails:
  assumes "bolt_ok B" and "bolt_view B (cf_DB c) [bucketFakeIPDomain6] = None"
  shows "\<exists>e. cf_FakeIPReset B c = (Some e, c)"
proof (cases "cf_FakeIPReset B c")
  case (Pair r c')
  show ?thesis
  proof (cases r)
    case None
    from Pair [unfolded None cf_FakeIPReset_def cf_Batch_None] obtain d1 d2 d3 where
      del: "bolt_DeleteBucket B [] bucketFakeIP (cf_DB c) = Inr d1"
        "bolt_DeleteBucket B [] bucketFakeIPDomain4 d1 = Inr d2"
        "bolt_DeleteBucket B [] bucketFakeIPDomain6 d2 = Inr d3"
      by (auto simp: bindE_Inr)
    have "bolt_view B d2 [bucketFakeIPDomain6] = None"
      using bolt_DeleteBucket_view [OF assms(1) del(1)] bolt_DeleteBucket_view [OF assms(1) del(2)] assms(2) by simp
    with bolt_DeleteBucket_view [OF assms(1) del(3)] show ?thesis by simp
  next
    case (Some e)
    with Pair show ?thesis by (auto simp: cf_FakeIPReset_def dest: cf_Batch_Some)
  qed
qed

lemma cf_FakeIPMetadata_keeps:
  assumes "bolt_ok B" and "cf_FakeIPMetadata B c = (r, c')"
  shows "\<exists>d'. c' = c\<lparr>cf_DB := d'\<rparr> \<and> (\<forall>p. p \<noteq> [bucketFakeIP] \<longrightarrow> bolt_view B d' p = bolt_view B (cf_DB c) p)"
proof -
  have same: "c = c\<lparr>cf_DB := cf_DB c\<rparr>" by simp
  show ?thesis
    using assms(2) same
    by (auto simp: cf_FakeIPMetadata_def split: option.splits if_splits sum.splits res.splits
        dest!: bolt_Delete_view [OF assms(1)] intro: exI [of _ "cf_DB c"])
qed

text \<open>
  after a change of the IPv4 range the old assignments stay when no IPv6 address was ever
  assigned: the reset of the cache file fails for want of the IPv6 bucket, and its error is
  dropped.  A domain that has an address in the old range is given that address again, which
  the store itself does not recognise as a fake address.
\<close>

theorem fakeip_range_change_stale:
  fixes B :: "'d bolt"
  assumes "bolt_ok B" and "M [] = AddrNone" and "cf_storeFakeIP c"
    and "bolt_view B (cf_DB c) [bucketFakeIPDomain6] = None"
    and "content B (cf_DB c) [bucketFakeIPDomain4] d = Some (addr_AsSlice a)"
    and "M (addr_AsSlice a) = a" and "addr_IsValid a" and "cf_saveAddress4 c = Map.empty"
    and "fst (cf_FakeIPMetadata B c) = Ok metadata"
    and "\<forall>m. metadata = Some m \<longrightarrow> md_Inet4Range m \<noteq> range4"
    and "\<not> Prefix_Contains range4 a" and "\<not> Prefix_Contains range6 a"
  shows "\<exists>s. store_Start B M (Some c) (NewStore range4 range6) = (Ok (), s) \<and>
    store_Create (any_ops B M) d False s = (Ok a, s) \<and> \<not> store_Contains s a"
proof -
  obtain c1 where c1: "cf_FakeIPMetadata B c = (Ok metadata, c1)" using assms(9) by (cases "cf_FakeIPMetadata B c") simp
  from cf_FakeIPMetadata_keeps [OF assms(1) c1] obtain d' where d': "c1 = c\<lparr>cf_DB := d'\<rparr>"
    "\<And>p. p \<noteq> [bucketFakeIP] \<Longrightarrow> bolt_view B d' p = bolt_view B (cf_DB c) p" by blast
  have "bolt_view B (cf_DB c1) [bucketFakeIPDomain6] = None" using d' assms(4) by simp
  from cf_FakeIPReset_fails [OF assms(1) this] have reset: "snd (cf_FakeIPReset B c1) = c1" by auto
  define s0 where "s0 = fst (start_fresh (any_ops B M) (Inr c1) (NewStore range4 range6))"
  define s where "s = s0\<lparr>fs_storage := Some (Inr c1)\<rparr>"
  have start: "store_Start B M (Some c) (NewStore range4 range6) = (Ok (), s)"
    using assms(10) reset
    by (auto simp: store_Start_def choose_storage_def assms(3) start_with_def any_ops_cf c1 map_Inr_def s_def s0_def
        NewStore_def start_fresh_def Let_def split: option.splits)
  have ranges: "inet4Range s = range4" "inet6Range s = range6"
    by (simp_all add: s_def s0_def start_fresh_def NewStore_def Let_def)
  have "content B (cf_DB c1) [domain_bucket False] d = Some (addr_AsSlice a)"
    using assms(5) d' by (simp add: content_def domain_bucket_def)
  then have "st_LoadDomain (any_ops B M) (Inr c1) d False = Some a"
    using assms(6-8) by (simp add: any_ops_cf cf_FakeIPLoadDomain_content [of M, OF assms(2)] pending_address_def d'(1))
  then have "store_Create (any_ops B M) d False s = (Ok a, s)"
    by (intro any.create_again [of _ "Inr c1"]) (simp_all add: s_def)
  with start ranges assms(11,12) show ?thesis by (simp add: store_Contains_def)
qed

text \<open>\<open>netip.AddrFromSlice\<close>, a decoder that undoes \<open>AsSlice\<close>.\<close>

definition demo_AddrFromIP :: "string \<Rightarrow> addr" where
  "demo_AddrFromIP b = (case addr_UnmarshalBinary b of Inr a \<Rightarrow> a | Inl _ \<Rightarrow> AddrNone)"

lemma demo_AddrFromIP_AsSlice: "addr_withoutZone a = a \<Longrightarrow> demo_AddrFromIP (addr_AsSlice a) = a"
  using addr_Unmarshal_Marshal [of a] by (cases a) (simp_all add: demo_AddrFromIP_def)

lemma demo_AddrFromIP_Nil: "demo_AddrFromIP [] = AddrNone"
  by (simp add: demo_AddrFromIP_def addr_UnmarshalBinary_def)

lemma cf_FakeIPSaveMetadata_works:
  assumes "bolt_ok B" and "bolt_works B"
  shows "\<exists>c'. cf_FakeIPSaveMetadata B m c = (None, c')"
proof -
  from assms(2) obtain d1 where d1: "bolt_CreateBucketIfNotExists B [] bucketFakeIP (cf_DB c) = Inr d1"
    using bolt_works_simps(1) [OF assms(2), of bucketFakeIP "cf_DB c"] by auto
  have "bolt_view B d1 [bucketFakeIP] \<noteq> None" using bolt_Create_content [OF assms(1) d1] by simp
  then obtain d2 where "bolt_Put B [bucketFakeIP] keyMetadata (FakeIPMetadata_MarshalBinary m) d1 = Inr d2"
    using bolt_works_simps(2) [OF assms(2), of d1 "[bucketFakeIP]" keyMetadata] by auto
  with d1 bolt_works_simps(4) [OF assms(2)] show ?thesis by (auto simp: cf_FakeIPSaveMetadata_def cf_Batch_None)
qed

lemma demo_range_wf: "Prefix_wf demo_range" by (simp add: demo_range_def)

lemma fakeip_restart_continues_witness:
  "\<exists>c2 s2. store_Start bolt_tree demo_AddrFromIP (Some c2) (NewStore demo_range Prefix_zero) = (Ok (), s2) \<and>
     inet4Current s2 = Addr4 0xC6120009"
proof -
  define s :: "(MemoryStorage + btree CacheFile) Store" where
    "s = \<lparr>inet4Range = demo_range, inet6Range = Prefix_zero, fs_storage = Some (Inr demo_cache),
      inet4Current = Addr4 0xC6120009, inet6Current = AddrNone\<rparr>"
  have wf: "FakeIPMetadata_wf (store_metadata s)"
    by (simp add: s_def store_metadata_def FakeIPMetadata_wf_def demo_range_wf)
  obtain c1 where c1: "cf_FakeIPSaveMetadata bolt_tree (store_metadata s) demo_cache = (None, c1)"
    using cf_FakeIPSaveMetadata_works [OF bolt_tree_ok bolt_tree_works] by blast
  then have c1_fields: "cf_storeFakeIP c1" "cf_saveDomain c1 = Map.empty" "cf_saveAddress4 c1 = Map.empty" "cf_saveAddress6 c1 = Map.empty"
    using cf_FakeIPSaveMetadata_content [OF bolt_tree_ok c1] by (auto simp: demo_cache_def)
  have close: "store_Close (any_ops bolt_tree demo_AddrFromIP) s = (None, s\<lparr>fs_storage := Some (Inr c1)\<rparr>)"
    by (simp add: store_Close_def s_def [THEN arg_cong, of fs_storage] any_ops_cf c1 map_Inr_def)
  have demo: "cf_saveDomain demo_cache = Map.empty" "cf_saveAddress4 demo_cache = Map.empty" "cf_saveAddress6 demo_cache = Map.empty"
    by (simp_all add: demo_cache_def)
  show ?thesis
    using fakeip_restart_continues [OF bolt_tree_ok bolt_tree_works demo_AddrFromIP_Nil wf _ demo close _ c1_fields(1) _ c1_fields(2-4)]
    by (auto simp: s_def)
qed

lemma fakeip_range_change_stale_witness:
  "\<exists>c s. store_Start bolt_tree demo_AddrFromIP (Some c) (NewStore demo_range Prefix_zero) = (Ok (), s) \<and>
     store_Create (any_ops bolt_tree demo_AddrFromIP) ''example.com'' False s = (Ok (Addr4 0x0A000003), s) \<and>
     \<not> store_Contains s (Addr4 0x0A000003)"
proof -
  define c where "c = demo_cache\<lparr>cf_DB := BTree [] [(bucketFakeIPDomain4,
    BTree [(''example.com'', addr_AsSlice (Addr4 0x0A000003))] [])]\<rparr>"
  have view: "bolt_view bolt_tree (cf_DB c) [bucketFakeIPDomain6] = None"
    "content bolt_tree (cf_DB c) [bucketFakeIPDomain4] ''example.com'' = Some (addr_AsSlice (Addr4 0x0A000003))"
    "fst (cf_FakeIPMetadata bolt_tree c) = Ok None"
    by (simp_all add: c_def content_def bolt_tree_def cf_FakeIPMetadata_def)
  have c: "cf_storeFakeIP c" "cf_saveAddress4 c = Map.empty" by (simp_all add: c_def demo_cache_def)
  have out: "\<not> Prefix_Contains demo_range (Addr4 0x0A000003)" "\<not> Prefix_Contains Prefix_zero (Addr4 0x0A000003)"
    by (simp_all add: demo_range_def PrefixFrom_def Prefix_Contains_def Prefix_zero_def Prefix_IsValid_def)
  have a: "demo_AddrFromIP (addr_AsSlice (Addr4 0x0A000003)) = Addr4 0x0A000003" "addr_IsValid (Addr4 0x0A000003)"
    by (rule demo_AddrFromIP_AsSlice) (simp_all add: addr_IsValid_def)
  show ?thesis
    using fakeip_range_change_stale [OF bolt_tree_ok demo_AddrFromIP_Nil c(1) view(1,2) a c(2) view(3) _ out] by auto
qed

section \<open>The timer of the metadata\<close>

datatype timer_event = TSave FakeIPMetadata | TFire

fun timer_run :: "'d bolt \<Rightarrow> timer_event list \<Rightarrow> 'd CacheFile \<Rightarrow> 'd CacheFile" where
  "timer_run B [] c = c"
| "timer_run B (TSave m # es) c = timer_run B es (cf_FakeIPSaveMetadataAsync m c)"
| "timer_run B (TFire # es) c = timer_run B es (timer_fires B c)"

lemma timer_run_append: "timer_run B (es @ fs) c = timer_run B fs (timer_run B es c)"
  by (induction B es c rule: timer_run.induct) auto

lemma timer_run_captured:
  "cf_saveMetadataTimer c = Some (m0, b) \<Longrightarrow> \<exists>b'. cf_saveMetadataTimer (timer_run B es c) = Some (m0, b')"
proof (induction B es c arbitrary: b rule: timer_run.induct)
  case (2 B m es c)
  then show ?case by (simp add: cf_FakeIPSaveMetadataAsync_def)
next
  case (3 B es c)
  then show ?case by (cases b) (auto simp: timer_fires_def)
qed simp

text \<open>
  the timer only ever writes the metadata of the first call since the start.  Whatever was
  saved and written in between, after the newest metadata \<open>m\<close> was handed over and the timer has
  fired, the database holds the oldest, \<open>m\<^sub>0\<close>.
\<close>

theorem fakeip_timer_stale:
  assumes "bolt_ok B" and "bolt_works B" and "FakeIPMetadata_wf m0" and "cf_saveMetadataTimer c = None"
  shows "fst (cf_FakeIPMetadata B (timer_run B (TSave m0 # es @ [TSave m, TFire]) c)) = Ok (Some m0)"
proof -
  define c1 where "c1 = timer_run B es (cf_FakeIPSaveMetadataAsync m0 c)"
  have "cf_saveMetadataTimer (cf_FakeIPSaveMetadataAsync m0 c) = Some (m0, True)"
    by (simp add: cf_FakeIPSaveMetadataAsync_def assms(4))
  from timer_run_captured [OF this] obtain b where "cf_saveMetadataTimer c1 = Some (m0, b)" by (auto simp: c1_def)
  then have t: "cf_saveMetadataTimer (cf_FakeIPSaveMetadataAsync m c1) = Some (m0, True)"
    by (simp add: cf_FakeIPSaveMetadataAsync_def)
  define c2 where "c2 = cf_FakeIPSaveMetadataAsync m c1"
  from cf_FakeIPSaveMetadata_works [OF assms(1,2)] obtain c3 where
    c3: "cf_FakeIPSaveMetadata B m0 c2 = (None, c3)" by blast
  have run: "timer_run B (TSave m0 # es @ [TSave m, TFire]) c = c3\<lparr>cf_saveMetadataTimer := Some (m0, False)\<rparr>"
    by (simp add: timer_run_append c1_def [symmetric] c2_def [symmetric] timer_fires_def t [folded c2_def] c3)
  have "content B (cf_DB c3) [bucketFakeIP] keyMetadata = Some (FakeIPMetadata_MarshalBinary m0)"
    using cf_FakeIPSaveMetadata_content [OF assms(1) c3] by auto
  with cf_FakeIPMetadata_saved [OF assms(1-3), of "c3\<lparr>cf_saveMetadataTimer := Some (m0, False)\<rparr>"]
  show ?thesis unfolding run by auto
qed

lemma fakeip_timer_stale_witness:
  "fst (cf_FakeIPMetadata bolt_tree (timer_run bolt_tree
     [TSave (store_metadata demo_store), TFire, TSave (store_metadata (demo_store\<lparr>inet4Current := Addr4 0xC6120003\<rparr>)), TFire] demo_cache)) =
   Ok (Some (store_metadata demo_store)) \<and>
   store_metadata (demo_store\<lparr>inet4Current := Addr4 0xC6120003\<rparr>) \<noteq> store_metadata demo_store"
proof -
  have "FakeIPMetadata_wf (store_metadata demo_store)"
    by (simp add: store_metadata_def demo_store_eq FakeIPMetadata_wf_def demo_range_wf)
  moreover have "cf_saveMetadataTimer demo_cache = None" by (simp add: demo_cache_def)
  ultimately show ?thesis
    using fakeip_timer_stale [OF bolt_tree_ok bolt_tree_works, of "store_metadata demo_store" demo_cache "[TFire]"]
    by (simp add: store_metadata_def demo_store_eq)
qed

end
