(* ===== verification/Cache_Jobs.thy ===== *)
theory Cache_Jobs
  imports Fakeip_Store
begin

text \<open>
  The background writes of the cache file (\<open>core/experimental/cachefile/fakeip.go\<close>, \<open>rdrc.go\<close>).
  \<open>FakeIPStoreAsync\<close> and \<open>SaveRDRCAsync\<close> put the entry into maps in memory and start a goroutine
  that first writes the database and then, under the lock, drops the entry from the maps.  Any
  number of goroutines are under way; their steps interleave in any order.
\<close>

section \<open>Steps\<close>

text \<open>
  An assignment is what \<open>Store.Create\<close> does for a domain without an address: the address is
  neither pending nor in the database.  A background step is one step of one goroutine.
\<close>

definition fresh_assignment :: "'d bolt \<Rightarrow> (string \<Rightarrow> addr) \<Rightarrow> addr \<Rightarrow> string \<Rightarrow> 'd CacheFile \<Rightarrow> bool" where
  "fresh_assignment B M a d c \<longleftrightarrow>
     cf_saveDomain c a = None \<and> content B (cf_DB c) [bucketFakeIP] (addr_AsSlice a) = None \<and>
     cf_FakeIPLoadDomain B M c d (\<not> addr_Is4 a) = None \<and> d \<noteq> [] \<and>
     addr_IsValid a \<and> addr_withoutZone a = a \<and> M (addr_AsSlice a) = a"

inductive background :: "'d bolt \<Rightarrow> 'd CacheFile \<Rightarrow> 'd CacheFile \<Rightarrow> bool" for B where
  bg_write: "i < length (cf_jobs c) \<Longrightarrow> cf_jobs c ! i = (j, False) \<Longrightarrow>
    background B c ((job_write B now j c)\<lparr>cf_jobs := (cf_jobs c)[i := (j, True)]\<rparr>)"
| bg_finish: "i < length (cf_jobs c) \<Longrightarrow> cf_jobs c ! i = (j, True) \<Longrightarrow>
    background B c ((job_finish j c)\<lparr>cf_jobs := take i (cf_jobs c) @ drop (Suc i) (cf_jobs c)\<rparr>)"

text \<open>The runs of a cache file, with the assignments made so far.\<close>

inductive cache_run ::
    "'d bolt \<Rightarrow> (string \<Rightarrow> addr) \<Rightarrow> 'd CacheFile \<Rightarrow> (addr \<times> string) list \<Rightarrow> 'd CacheFile \<Rightarrow> bool" for B M c0 where
  run_start: "cache_run B M c0 [] c0"
| run_assign: "cache_run B M c0 as c \<Longrightarrow> fresh_assignment B M a d c \<Longrightarrow>
    cache_run B M c0 ((a, d) # as) (cf_FakeIPStoreAsync a d c)"
| run_rdrc: "cache_run B M c0 as c \<Longrightarrow> cache_run B M c0 as (SaveRDRCAsync t q ty c)"
| run_background: "cache_run B M c0 as c \<Longrightarrow> background B c c' \<Longrightarrow> cache_run B M c0 as c'"

section \<open>The invariant\<close>

fun fakeip_jobs :: "(save_job \<times> bool) list \<Rightarrow> (addr \<times> string) list" where
  "fakeip_jobs [] = []"
| "fakeip_jobs ((FakeIPJob a d, w) # js) = (a, d) # fakeip_jobs js"
| "fakeip_jobs ((RDRCJob t q ty, w) # js) = fakeip_jobs js"

definition written :: "'d bolt \<Rightarrow> 'd CacheFile \<Rightarrow> addr \<Rightarrow> string \<Rightarrow> bool" where
  "written B c a d \<longleftrightarrow>
     content B (cf_DB c) [bucketFakeIP] (addr_AsSlice a) = Some d \<and>
     content B (cf_DB c) [domain_bucket (\<not> addr_Is4 a)] d = Some (addr_AsSlice a)"

definition job_ok :: "'d bolt \<Rightarrow> (string \<Rightarrow> addr) \<Rightarrow> 'd CacheFile \<Rightarrow> addr \<Rightarrow> string \<Rightarrow> bool \<Rightarrow> bool" where
  "job_ok B M c a d w \<longleftrightarrow>
     cf_saveDomain c a = Some d \<and> pending_address c (\<not> addr_Is4 a) d = Some a \<and> d \<noteq> [] \<and>
     addr_IsValid a \<and> addr_withoutZone a = a \<and> M (addr_AsSlice a) = a \<and>
     (if w then written B c a d else content B (cf_DB c) [bucketFakeIP] (addr_AsSlice a) = None)"

definition jobs_inv :: "'d bolt \<Rightarrow> (string \<Rightarrow> addr) \<Rightarrow> 'd CacheFile \<Rightarrow> bool" where
  "jobs_inv B M c \<longleftrightarrow> distinct (fakeip_jobs (cf_jobs c)) \<and>
     (\<forall>a d w. (FakeIPJob a d, w) \<in> set (cf_jobs c) \<longrightarrow> job_ok B M c a d w)"

text \<open>The lookups of the cache file, for the addresses without a zone it is used with.\<close>

definition same_lookups :: "'d bolt \<Rightarrow> (string \<Rightarrow> addr) \<Rightarrow> 'd CacheFile \<Rightarrow> 'd CacheFile \<Rightarrow> bool" where
  "same_lookups B M c c' \<longleftrightarrow>
     (\<forall>a. addr_withoutZone a = a \<longrightarrow> cf_FakeIPLoad B c' a = cf_FakeIPLoad B c a) \<and>
     (\<forall>d six. cf_FakeIPLoadDomain B M c' d six = cf_FakeIPLoadDomain B M c d six)"

lemma fakeip_jobs_append: "fakeip_jobs (xs @ ys) = fakeip_jobs xs @ fakeip_jobs ys"
  by (induction xs rule: fakeip_jobs.induct) auto

lemma fakeip_jobs_update: "i < length js \<Longrightarrow> js ! i = (j, w) \<Longrightarrow> fakeip_jobs (js[i := (j, v)]) = fakeip_jobs js"
proof (induction js arbitrary: i rule: fakeip_jobs.induct)
  case 1
  then show ?case by simp
next
  case (2 a d u js)
  then show ?case by (cases i) auto
next
  case (3 t q ty u js)
  then show ?case by (cases i) auto
qed

lemma mem_fakeip_jobs: "(a, d) \<in> set (fakeip_jobs js) \<longleftrightarrow> (\<exists>w. (FakeIPJob a d, w) \<in> set js)"
  by (induction js rule: fakeip_jobs.induct) auto

lemma pending_simps [simp]:
  "pending_address (c\<lparr>cf_DB := x\<rparr>) = pending_address c" "pending_address (c\<lparr>cf_jobs := js\<rparr>) = pending_address c"
  "pending_address (c\<lparr>cf_saveRDRC := r\<rparr>) = pending_address c" "pending_address (c\<lparr>cf_saveDomain := s\<rparr>) = pending_address c"
  "pending_address (set_pending_address six m c) six' = (if six = six' then m else pending_address c six')"
  "cf_saveDomain (set_pending_address six m c) = cf_saveDomain c" "cf_DB (set_pending_address six m c) = cf_DB c"
  "cf_jobs (set_pending_address six m c) = cf_jobs c"
  by (auto simp: pending_address_def set_pending_address_def fun_eq_iff)

text \<open>Both lookups see a job through the maps, and an entry in the database without them.\<close>

lemma Load_pending: "cf_saveDomain c a = Some d \<Longrightarrow> cf_FakeIPLoad B c a = Some d"
  by (simp add: cf_FakeIPLoad_def)

lemma LoadDomain_pending: "pending_address c six d = Some a \<Longrightarrow> cf_FakeIPLoadDomain B M c d six = Some a"
  by (simp add: cf_FakeIPLoadDomain_def)

lemma Load_cong:
  "cf_saveDomain c' a = cf_saveDomain c a \<Longrightarrow>
   content B (cf_DB c') [bucketFakeIP] (addr_AsSlice a) = content B (cf_DB c) [bucketFakeIP] (addr_AsSlice a) \<Longrightarrow>
   cf_FakeIPLoad B c' a = cf_FakeIPLoad B c a"
  by (simp only: cf_FakeIPLoad_content)

lemma LoadDomain_cong:
  "M [] = AddrNone \<Longrightarrow> pending_address c' six d = pending_address c six d \<Longrightarrow>
   content B (cf_DB c') [domain_bucket six] d = content B (cf_DB c) [domain_bucket six] d \<Longrightarrow>
   cf_FakeIPLoadDomain B M c' d six = cf_FakeIPLoadDomain B M c d six"
  by (simp only: cf_FakeIPLoadDomain_content)

lemma fakeip_store_tx_content:
  assumes "bolt_ok B" and "content B x [bucketFakeIP] (addr_AsSlice a) = None"
    and "fakeip_store_tx B a d x = Inr y"
  shows "content B y = (content B x)
    ([bucketFakeIP] := (content B x [bucketFakeIP])(addr_AsSlice a \<mapsto> d),
     [domain_bucket (\<not> addr_Is4 a)] := (content B x [domain_bucket (\<not> addr_Is4 a)])(d \<mapsto> addr_AsSlice a))"
proof -
  define b where "b = domain_bucket (\<not> addr_Is4 a)"
  from assms(3) obtain x1 where x1: "bolt_CreateBucketIfNotExists B [] bucketFakeIP x = Inr x1"
    and tx: "bindE (bolt_Put B [bucketFakeIP] (addr_AsSlice a) d x1) (\<lambda>x2.
          bindE (bolt_CreateBucketIfNotExists B [] b x2) (\<lambda>x3.
          bindE (case bucket_get B x1 (Some [bucketFakeIP]) (addr_AsSlice a) of None \<Rightarrow> Inr x3
                 | Some old \<Rightarrow> bolt_Delete B [b] old x3)
            (bolt_Put B [b] d (addr_AsSlice a)))) = Inr y"
    by (auto simp: fakeip_store_tx_def bindE_Inr Let_def b_def [symmetric])
  have c1: "content B x1 = content B x" using bolt_Create_content [OF assms(1) x1] by simp
  then have "bucket_get B x1 (Some [bucketFakeIP]) (addr_AsSlice a) = None"
    using assms(2) by (simp add: bucket_get_def content_get)
  with tx obtain x2 x3 where x2: "bolt_Put B [bucketFakeIP] (addr_AsSlice a) d x1 = Inr x2"
    and x3: "bolt_CreateBucketIfNotExists B [] b x2 = Inr x3" and y: "bolt_Put B [b] d (addr_AsSlice a) x3 = Inr y"
    by (auto simp: bindE_Inr)
  show ?thesis
    unfolding b_def [symmetric]
    using bolt_Put_content [OF assms(1) y] bolt_Create_content [OF assms(1) x3] bolt_Put_content [OF assms(1) x2] c1
    by (simp add: b_def)
qed

lemma fakeip_store_tx_works:
  assumes "bolt_ok B" and "bolt_works B" and "content B x [bucketFakeIP] (addr_AsSlice a) = None"
    and "d \<noteq> []" and "addr_IsValid a"
  shows "\<exists>y. fakeip_store_tx B a d x = Inr y"
proof -
  define b where "b = domain_bucket (\<not> addr_Is4 a)"
  have slice: "addr_AsSlice a \<noteq> []" using assms(5) by (cases a) (auto simp: addr_IsValid_def simp flip: length_0_conv)
  obtain x1 where x1: "bolt_CreateBucketIfNotExists B [] bucketFakeIP x = Inr x1"
    using bolt_works_simps(1) [OF assms(2), of bucketFakeIP x] by auto
  have v1: "bolt_view B x1 [bucketFakeIP] \<noteq> None" "content B x1 = content B x"
    using bolt_Create_content [OF assms(1) x1] by auto
  then have old: "bucket_get B x1 (Some [bucketFakeIP]) (addr_AsSlice a) = None"
    using assms(3) by (simp add: bucket_get_def content_get)
  obtain x2 where x2: "bolt_Put B [bucketFakeIP] (addr_AsSlice a) d x1 = Inr x2"
    using bolt_works_simps(2) [OF assms(2) v1(1) slice, of d] by auto
  obtain x3 where x3: "bolt_CreateBucketIfNotExists B [] b x2 = Inr x3"
    using bolt_works_simps(1) [OF assms(2), of b x2] by auto
  have "bolt_view B x3 [b] \<noteq> None" using bolt_Create_content [OF assms(1) x3] by simp
  then obtain y where "bolt_Put B [b] d (addr_AsSlice a) x3 = Inr y"
    using bolt_works_simps(2) [OF assms(2) _ assms(4), of x3 "[b]" "addr_AsSlice a"] by auto
  then show ?thesis using x1 x2 x3 old by (auto simp: fakeip_store_tx_def b_def)
qed

section \<open>Background steps\<close>

lemma fakeip_jobs_repeated:
  assumes "m < n" and "n < length js" and "js ! m = (FakeIPJob a d, w)" and "js ! n = (FakeIPJob a d, w')"
  shows "\<not> distinct (fakeip_jobs js)"
proof -
  have "js = take m js @ (FakeIPJob a d, w) # drop (Suc m) js"
    using assms id_take_nth_drop [of m js] by simp
  then have "fakeip_jobs js = fakeip_jobs (take m js) @ (a, d) # fakeip_jobs (drop (Suc m) js)"
    by (metis fakeip_jobs.simps(2) fakeip_jobs_append)
  moreover have "(FakeIPJob a d, w') \<in> set (drop (Suc m) js)"
    using assms nth_mem [of "n - Suc m" "drop (Suc m) js"] by simp
  then have "(a, d) \<in> set (fakeip_jobs (drop (Suc m) js))" by (auto simp: mem_fakeip_jobs)
  ultimately show ?thesis by auto
qed

text \<open>Two jobs for the same address, or for the same domain and family, are one job.\<close>

lemma jobs_inv_unique:
  assumes "jobs_inv B M c" and "i < length (cf_jobs c)" and "cf_jobs c ! i = (FakeIPJob a d, w)"
    and "k < length (cf_jobs c)" and "cf_jobs c ! k = (FakeIPJob a' d', w')" and "i \<noteq> k"
  shows "a \<noteq> a' \<and> (addr_Is4 a = addr_Is4 a' \<longrightarrow> d \<noteq> d')"
proof -
  have "(FakeIPJob a d, w) \<in> set (cf_jobs c)" "(FakeIPJob a' d', w') \<in> set (cf_jobs c)"
    using assms(2-5) nth_mem by metis+
  then have ok: "job_ok B M c a d w" "job_ok B M c a' d' w'" using assms(1) by (auto simp: jobs_inv_def)
  have "(a, d) \<noteq> (a', d')"
    using assms fakeip_jobs_repeated [of i k "cf_jobs c" a d w w'] fakeip_jobs_repeated [of k i "cf_jobs c" a d w' w]
    by (cases i k rule: linorder_cases) (auto simp: jobs_inv_def)
  then show ?thesis using ok by (auto simp: job_ok_def)
qed

lemma SaveRDRC_keeps:
  assumes "bolt_ok B"
  shows "\<exists>x. snd (SaveRDRC B now t q ty c) = c\<lparr>cf_DB := x\<rparr> \<and> (\<forall>n. content B x [n] = content B (cf_DB c) [n])"
proof (cases "SaveRDRC B now t q ty c")
  case (Pair e c')
  show ?thesis
  proof (cases e)
    case None
    with SaveRDRC_content [OF assms] Pair obtain x where "c' = c\<lparr>cf_DB := x\<rparr>"
      "content B x = (content B (cf_DB c))(cf_path_of c bucketRDRC @ [t] :=
        (content B (cf_DB c) (cf_path_of c bucketRDRC @ [t]))
          (rdrc_key q ty \<mapsto> be_bytes 8 (unat (unix_seconds (now + cf_rdrcTimeout c)))))" by blast
    moreover have "cf_path_of c bucketRDRC \<noteq> []" by (simp add: cf_path_of_def)
    ultimately show ?thesis using Pair by (intro exI [of _ x]) simp
  next
    case (Some x)
    with Pair have "c' = c" by (auto simp: SaveRDRC_def dest: cf_Batch_Some)
    with Pair show ?thesis by (intro exI [of _ "cf_DB c"]) simp
  qed
qed

definition write_effect :: "'d bolt \<Rightarrow> save_job \<Rightarrow> 'd \<Rightarrow> 'd \<Rightarrow> bool" where
  "write_effect B j x y \<longleftrightarrow>
     (case j of
        FakeIPJob a d \<Rightarrow>
          content B y [bucketFakeIP] = (content B x [bucketFakeIP])(addr_AsSlice a \<mapsto> d) \<and>
          content B y [domain_bucket (\<not> addr_Is4 a)] = (content B x [domain_bucket (\<not> addr_Is4 a)])(d \<mapsto> addr_AsSlice a) \<and>
          content B y [domain_bucket (addr_Is4 a)] = content B x [domain_bucket (addr_Is4 a)]
      | RDRCJob t q ty \<Rightarrow> \<forall>n. content B y [n] = content B x [n])"

lemma job_write_effect:
  assumes "bolt_ok B" and "bolt_works B"
    and "\<And>a d. j = FakeIPJob a d \<Longrightarrow> job_ok B M c a d False"
  obtains x where "job_write B now j c = c\<lparr>cf_DB := x\<rparr>" and "write_effect B j (cf_DB c) x"
proof (cases j)
  case (FakeIPJob a d)
  from assms(3) [OF this] have ok: "content B (cf_DB c) [bucketFakeIP] (addr_AsSlice a) = None" "d \<noteq> []" "addr_IsValid a"
    by (auto simp: job_ok_def)
  from fakeip_store_tx_works [OF assms(1,2) ok] obtain x where x: "fakeip_store_tx B a d (cf_DB c) = Inr x" by blast
  then have "cf_FakeIPStore B a d c = (None, c\<lparr>cf_DB := x\<rparr>)"
    using bolt_works_simps(4) [OF assms(2)] by (simp add: cf_FakeIPStore_def cf_Batch_None)
  with fakeip_store_tx_content [OF assms(1) ok(1) x] FakeIPJob show ?thesis
    by (intro that [of x]) (simp_all add: job_write_def write_effect_def)
next
  case (RDRCJob t q ty)
  from SaveRDRC_keeps [OF assms(1), of now t q ty c] obtain x where
    "snd (SaveRDRC B now t q ty c) = c\<lparr>cf_DB := x\<rparr>" "\<forall>n. content B x [n] = content B (cf_DB c) [n]" by blast
  with RDRCJob show ?thesis by (intro that [of x]) (simp_all add: job_write_def write_effect_def)
qed

lemma bg_write_lookups:
  assumes "bolt_ok B" and "bolt_works B" and "M [] = AddrNone" and "jobs_inv B M c"
    and "i < length (cf_jobs c)" and "cf_jobs c ! i = (j, False)"
  shows "same_lookups B M c ((job_write B now j c)\<lparr>cf_jobs := js\<rparr>)"
proof -
  have ok: "job_ok B M c a d False" if "j = FakeIPJob a d" for a d
    using assms(4-6) that nth_mem [OF assms(5)] by (auto simp: jobs_inv_def)
  obtain x where x: "job_write B now j c = c\<lparr>cf_DB := x\<rparr>" "write_effect B j (cf_DB c) x"
    using job_write_effect [OF assms(1,2) ok] by blast
  show ?thesis
  proof (cases j)
    case (FakeIPJob a d)
    note job = ok [OF FakeIPJob, unfolded job_ok_def] and x2 = x(2) [unfolded FakeIPJob write_effect_def, simplified]
    have "cf_FakeIPLoad B (c\<lparr>cf_DB := x, cf_jobs := js\<rparr>) b = cf_FakeIPLoad B c b" if "addr_withoutZone b = b" for b
    proof (cases "b = a")
      case True
      then show ?thesis using job by (simp add: Load_pending)
    next
      case False
      then show ?thesis using job x2 that by (intro Load_cong) (simp_all add: addr_AsSlice_inject)
    qed
    moreover have "cf_FakeIPLoadDomain B M (c\<lparr>cf_DB := x, cf_jobs := js\<rparr>) e six = cf_FakeIPLoadDomain B M c e six" for e six
    proof (cases "six = (\<not> addr_Is4 a) \<and> e = d")
      case True
      then show ?thesis using job by (simp add: LoadDomain_pending)
    next
      case False
      then show ?thesis using x2 by (intro LoadDomain_cong assms(3)) (cases "six = addr_Is4 a"; auto)+
    qed
    ultimately show ?thesis by (simp add: same_lookups_def x(1))
  next
    case (RDRCJob t q ty)
    with x(2) have "\<forall>n. content B x [n] = content B (cf_DB c) [n]" by (simp add: write_effect_def)
    then show ?thesis
      by (auto simp: same_lookups_def x(1) intro!: Load_cong LoadDomain_cong assms(3))
  qed
qed

lemma bg_write_inv:
  assumes "bolt_ok B" and "bolt_works B" and "jobs_inv B M c"
    and "i < length (cf_jobs c)" and "cf_jobs c ! i = (j, False)"
  shows "jobs_inv B M ((job_write B now j c)\<lparr>cf_jobs := (cf_jobs c)[i := (j, True)]\<rparr>)"
proof -
  have all: "job_ok B M c a d w" if "k < length (cf_jobs c)" "cf_jobs c ! k = (FakeIPJob a d, w)" for a d w k
    using assms(3) that nth_mem [OF that(1)] by (auto simp: jobs_inv_def)
  have "\<And>a d. j = FakeIPJob a d \<Longrightarrow> job_ok B M c a d False" using all [OF assms(4), where w = False] assms(5) by simp
  then obtain x where x: "job_write B now j c = c\<lparr>cf_DB := x\<rparr>" "write_effect B j (cf_DB c) x"
    using job_write_effect [OF assms(1,2)] by blast
  have "job_ok B M (c\<lparr>cf_DB := x, cf_jobs := (cf_jobs c)[i := (j, True)]\<rparr>) a d w"
    if k: "k < length (cf_jobs c)" "(cf_jobs c)[i := (j, True)] ! k = (FakeIPJob a d, w)" for a d w k
  proof (cases "k = i")
    case True
    with k assms(4,5) have "j = FakeIPJob a d" "w = True" by auto
    with all [OF assms(4)] assms(5) x(2) show ?thesis by (auto simp: job_ok_def written_def write_effect_def)
  next
    case False
    with k have k': "cf_jobs c ! k = (FakeIPJob a d, w)" by simp
    note ok = all [OF k(1) k', unfolded job_ok_def]
    show ?thesis
    proof (cases j)
      case (FakeIPJob a' d')
      with jobs_inv_unique [OF assms(3,4) _ k(1) k'] assms(5) False
      have ne: "a' \<noteq> a" "addr_Is4 a' = addr_Is4 a \<longrightarrow> d' \<noteq> d" by auto
      have "addr_withoutZone a' = a'" using all [OF assms(4)] assms(5) FakeIPJob by (auto simp: job_ok_def)
      with ok ne(1) have "addr_AsSlice a \<noteq> addr_AsSlice a'" by (simp add: addr_AsSlice_inject)
      with ok ne x(2) FakeIPJob show ?thesis
        by (cases "addr_Is4 a' = addr_Is4 a") (auto simp: job_ok_def written_def write_effect_def)
    next
      case (RDRCJob t q ty)
      with ok x(2) show ?thesis by (auto simp: job_ok_def written_def write_effect_def)
    qed
  qed
  then show ?thesis
    using assms(3) fakeip_jobs_update [OF assms(4,5), of True]
    by (auto simp: jobs_inv_def x(1) in_set_conv_nth)
qed

lemma bg_finish_lookups:
  assumes "M [] = AddrNone" and "jobs_inv B M c"
    and "i < length (cf_jobs c)" and "cf_jobs c ! i = (j, True)"
  shows "same_lookups B M c ((job_finish j c)\<lparr>cf_jobs := js\<rparr>)"
proof (cases j)
  case (FakeIPJob a d)
  define c' where "c' = (job_finish j c)\<lparr>cf_jobs := js\<rparr>"
  have ok: "job_ok B M c a d True" using assms(2-4) FakeIPJob nth_mem [OF assms(3)] by (auto simp: jobs_inv_def)
  note job = ok [unfolded job_ok_def written_def, simplified]
  have c': "cf_saveDomain c' = (cf_saveDomain c)(a := None)" "cf_DB c' = cf_DB c"
    "pending_address c' six = (if six = (\<not> addr_Is4 a) then (pending_address c six)(d := None) else pending_address c six)" for six
    by (auto simp: c'_def FakeIPJob job_finish_def Let_def)
  have "cf_FakeIPLoad B c' b = cf_FakeIPLoad B c b" for b
  proof (cases "b = a")
    case True
    then show ?thesis using job by (simp add: Load_pending cf_FakeIPLoad_content [of B c'] c')
  next
    case False
    then show ?thesis by (intro Load_cong) (simp_all add: c')
  qed
  moreover have "cf_FakeIPLoadDomain B M c' e six = cf_FakeIPLoadDomain B M c e six" for e six
  proof (cases "six = (\<not> addr_Is4 a) \<and> e = d")
    case True
    then show ?thesis
      using job by (simp add: LoadDomain_pending cf_FakeIPLoadDomain_content [of M B c', OF assms(1)] c')
  next
    case False
    then show ?thesis by (intro LoadDomain_cong assms(1)) (auto simp: c')
  qed
  ultimately show ?thesis unfolding c'_def [symmetric] by (simp add: same_lookups_def)
next
  case (RDRCJob t q ty)
  then show ?thesis
    by (auto simp: same_lookups_def job_finish_def intro!: Load_cong LoadDomain_cong assms(1))
qed

lemma set_remove_nth:
  "x \<in> set (take i xs @ drop (Suc i) xs) \<Longrightarrow> \<exists>k < length xs. k \<noteq> i \<and> xs ! k = x"
proof -
  assume "x \<in> set (take i xs @ drop (Suc i) xs)"
  then consider m where "m < i" "m < length xs" "x = xs ! m" | m where "m < length xs - Suc i" "x = xs ! (Suc i + m)"
    by (auto simp: in_set_conv_nth)
  then show ?thesis
  proof cases
    case (1 m)
    then show ?thesis by blast
  next
    case (2 m)
    then show ?thesis by (intro exI [of _ "Suc i + m"]) auto
  qed
qed

lemma bg_finish_inv:
  assumes "jobs_inv B M c" and "i < length (cf_jobs c)" and "cf_jobs c ! i = (j, True)"
  shows "jobs_inv B M ((job_finish j c)\<lparr>cf_jobs := take i (cf_jobs c) @ drop (Suc i) (cf_jobs c)\<rparr>)"
proof -
  define js where "js = take i (cf_jobs c) @ drop (Suc i) (cf_jobs c)"
  have "cf_jobs c = take i (cf_jobs c) @ (j, True) # drop (Suc i) (cf_jobs c)"
    using assms(2,3) id_take_nth_drop by metis
  then have "fakeip_jobs (cf_jobs c) = fakeip_jobs (take i (cf_jobs c)) @ fakeip_jobs [(j, True)] @ fakeip_jobs (drop (Suc i) (cf_jobs c))"
    by (metis append_Cons append_Nil fakeip_jobs_append)
  with assms(1) have "distinct (fakeip_jobs js)" by (auto simp: js_def jobs_inv_def fakeip_jobs_append)
  moreover have "job_ok B M ((job_finish j c)\<lparr>cf_jobs := js\<rparr>) a d w" if "(FakeIPJob a d, w) \<in> set js" for a d w
  proof -
    from set_remove_nth [OF that [unfolded js_def]] obtain k where
      k: "k < length (cf_jobs c)" "i \<noteq> k" "cf_jobs c ! k = (FakeIPJob a d, w)" by blast
    have ok: "job_ok B M c a d w" using assms(1) k nth_mem [OF k(1)] by (auto simp: jobs_inv_def)
    show ?thesis
    proof (cases j)
      case (FakeIPJob a' d')
      with jobs_inv_unique [OF assms(1,2) _ k(1,3,2)] assms(3)
      have "a' \<noteq> a" "addr_Is4 a' = addr_Is4 a \<longrightarrow> d' \<noteq> d" by auto
      with ok FakeIPJob show ?thesis by (auto simp: job_ok_def written_def job_finish_def Let_def)
    next
      case (RDRCJob t q ty)
      with ok show ?thesis by (auto simp: job_ok_def written_def job_finish_def)
    qed
  qed
  ultimately show ?thesis unfolding js_def [symmetric] by (simp add: jobs_inv_def)
qed

lemma background_step:
  assumes "bolt_ok B" and "bolt_works B" and "M [] = AddrNone" and "jobs_inv B M c" and "background B c c'"
  shows "jobs_inv B M c' \<and> same_lookups B M c c'"
  using assms(5)
proof cases
  case (bg_write i j now)
  then show ?thesis
    using bg_write_inv [OF assms(1,2,4)] bg_write_lookups [OF assms(1-4)] by simp
next
  case (bg_finish i j)
  then show ?thesis
    using bg_finish_inv [OF assms(4)] bg_finish_lookups [OF assms(3,4)] by simp
qed

section \<open>Runs\<close>

lemma assign_inv:
  assumes "jobs_inv B M c" and "fresh_assignment B M a d c"
  shows "jobs_inv B M (cf_FakeIPStoreAsync a d c)"
proof -
  note fresh = assms(2) [unfolded fresh_assignment_def]
  define six where "six = (\<not> addr_Is4 a)"
  have d: "pending_address c six d = None"
    using fresh by (cases "pending_address c six d") (auto simp: six_def LoadDomain_pending)
  define c' where "c' = cf_FakeIPStoreAsync a d c"
  have c': "cf_saveDomain c' = (cf_saveDomain c)(a \<mapsto> d)" "cf_DB c' = cf_DB c"
    "cf_jobs c' = cf_jobs c @ [(FakeIPJob a d, False)]"
    "pending_address c' s = (if s = six then (pending_address c s)(d \<mapsto> a) else pending_address c s)" for s
    using fresh by (auto simp: c'_def cf_FakeIPStoreAsync_def Let_def six_def)
  have old: "a' \<noteq> a \<and> (addr_Is4 a' = addr_Is4 a \<longrightarrow> d' \<noteq> d)" if "(FakeIPJob a' d', w) \<in> set (cf_jobs c)" for a' d' w
  proof -
    from assms(1) that have "job_ok B M c a' d' w" by (simp add: jobs_inv_def)
    with fresh d show ?thesis by (auto simp: job_ok_def six_def)
  qed
  have "distinct (fakeip_jobs (cf_jobs c'))"
    using assms(1) old by (auto simp: c' jobs_inv_def fakeip_jobs_append mem_fakeip_jobs)
  moreover have "job_ok B M c' a' d' w" if "(FakeIPJob a' d', w) \<in> set (cf_jobs c)" for a' d' w
  proof -
    from assms(1) that have "job_ok B M c a' d' w" by (simp add: jobs_inv_def)
    with old [OF that] show ?thesis by (auto simp: job_ok_def written_def c' six_def)
  qed
  moreover have "job_ok B M c' a d False" using fresh by (simp add: job_ok_def c' six_def)
  ultimately show ?thesis unfolding c'_def [symmetric] by (auto simp: jobs_inv_def c')
qed

lemma assign_lookups:
  assumes "fresh_assignment B M a d c"
  defines "c' \<equiv> cf_FakeIPStoreAsync a d c"
  shows "cf_FakeIPLoad B c' b = (if b = a then Some d else cf_FakeIPLoad B c b)"
    and "cf_FakeIPLoadDomain B M c' d (\<not> addr_Is4 a) = Some a"
    and "(e, six) \<noteq> (d, \<not> addr_Is4 a) \<Longrightarrow> cf_FakeIPLoadDomain B M c' e six = cf_FakeIPLoadDomain B M c e six"
proof -
  have ops: "st_Load (cf_ops B M) = cf_FakeIPLoad B" "st_LoadDomain (cf_ops B M) = cf_FakeIPLoadDomain B M"
    "st_StoreAsync (cf_ops B M) = cf_FakeIPStoreAsync" by (simp_all add: cf_ops_def)
  have none: "cf_FakeIPLoad B c a = None"
    using assms(1) by (simp add: fresh_assignment_def cf_FakeIPLoad_content)
  show "cf_FakeIPLoad B c' b = (if b = a then Some d else cf_FakeIPLoad B c b)"
    using cf.Load_StoreAsync [of B M a d c b] by (simp add: ops c'_def)
  show "cf_FakeIPLoadDomain B M c' d (\<not> addr_Is4 a) = Some a"
    using cf.LoadDomain_StoreAsync_same [of B M a d c] by (simp add: ops c'_def)
  show "cf_FakeIPLoadDomain B M c' e six = cf_FakeIPLoadDomain B M c e six" if "(e, six) \<noteq> (d, \<not> addr_Is4 a)"
  proof (cases "e = d")
    case True
    with that have "six = addr_Is4 a" by auto
    then show ?thesis using cf.LoadDomain_StoreAsync_family [of B M a d c e] by (simp add: ops c'_def)
  next
    case False
    then show ?thesis using cf.LoadDomain_StoreAsync_other [of B M c a e d six] none by (simp add: ops c'_def)
  qed
qed

lemma rdrc_lookups: "M [] = AddrNone \<Longrightarrow> same_lookups B M c (SaveRDRCAsync t q ty c)"
  by (auto simp: same_lookups_def SaveRDRCAsync_def intro!: Load_cong LoadDomain_cong)

lemma rdrc_inv:
  assumes "jobs_inv B M c"
  shows "jobs_inv B M (SaveRDRCAsync t q ty c)"
proof -
  have "job_ok B M (SaveRDRCAsync t q ty c) a d w = job_ok B M c a d w" for a d w
    by (simp add: job_ok_def written_def SaveRDRCAsync_def)
  then show ?thesis using assms by (auto simp: jobs_inv_def SaveRDRCAsync_def fakeip_jobs_append)
qed

definition assigned :: "'d bolt \<Rightarrow> (string \<Rightarrow> addr) \<Rightarrow> (addr \<times> string) list \<Rightarrow> 'd CacheFile \<Rightarrow> bool" where
  "assigned B M as c \<longleftrightarrow> (\<forall>(a, d) \<in> set as. addr_withoutZone a = a \<and>
     cf_FakeIPLoad B c a = Some d \<and> cf_FakeIPLoadDomain B M c d (\<not> addr_Is4 a) = Some a)"

lemma assigned_same: "assigned B M as c \<Longrightarrow> same_lookups B M c c' \<Longrightarrow> assigned B M as c'"
  by (auto simp: assigned_def same_lookups_def)

lemma assigned_fresh:
  assumes "assigned B M as c" and "fresh_assignment B M a d c"
  shows "assigned B M ((a, d) # as) (cf_FakeIPStoreAsync a d c)"
proof -
  note fresh = assms(2) [unfolded fresh_assignment_def]
  have "b \<noteq> a \<and> (e, \<not> addr_Is4 b) \<noteq> (d, \<not> addr_Is4 a)" if "(b, e) \<in> set as" for b e
  proof -
    from assms(1) that have "cf_FakeIPLoad B c b = Some e" "cf_FakeIPLoadDomain B M c e (\<not> addr_Is4 b) = Some b"
      by (auto simp: assigned_def)
    moreover have "cf_FakeIPLoad B c a = None" using fresh by (simp add: cf_FakeIPLoad_content)
    ultimately show ?thesis using fresh by (cases "addr_Is4 b = addr_Is4 a") auto
  qed
  then show ?thesis
    using assms(1) fresh assign_lookups [OF assms(2)] by (fastforce simp: assigned_def)
qed

lemma cache_run_inv:
  assumes "cache_run B M c0 as c" and "bolt_ok B" and "bolt_works B" and "M [] = AddrNone" and "cf_jobs c0 = []"
  shows "jobs_inv B M c \<and> assigned B M as c"
  using assms(1)
proof induction
  case run_start
  then show ?case by (simp add: jobs_inv_def assigned_def assms(5))
next
  case (run_assign as c a d)
  then show ?case using assign_inv assigned_fresh by blast
next
  case (run_rdrc as c t q ty)
  then show ?case using rdrc_inv rdrc_lookups [of M, OF assms(4)] assigned_same by blast
next
  case (run_background as c c')
  then show ?case using background_step [of B M, OF assms(2-4)] assigned_same by blast
qed



end
