(* ===== verification/Sniff.thy ===== *)
theory Sniff
  imports Netip
begin

text \<open>
  Protocol detection (\<open>core/common/sniff\<close>): the sniffers that read the first bytes of a stream or a
  packet, and the two functions that try them in turn.  A reader over several buffers is the list
  of their contents; one \<open>Read\<close> returns bytes of one buffer only, \<open>io.ReadFull\<close> and \<open>bufio\<close>
  read across.  The TLS, HTTP and DNS parsers are foreign, and the QUIC sniffer, which decrypts
  the packet, is an argument as well.
\<close>

section \<open>Errors\<close>

definition ErrNeedMoreData :: go_error where
  "ErrNeedMoreData = ENew [AStr ''need more data'']"

definition ErrUnexpectedEOF :: go_error where "ErrUnexpectedEOF = EForeign ''unexpected EOF''"
definition ErrEOF :: go_error where "ErrEOF = EForeign ''EOF''"

text \<open>\<open>errors.Is\<close> looks through wrapped errors; \<open>E.Cause1(e, cause)\<close> wraps \<open>e\<close>.\<close>

fun errors_Is :: "go_error \<Rightarrow> go_error \<Rightarrow> bool" where
  "errors_Is (ECause e xs) t = (ECause e xs = t \<or> errors_Is e t)"
| "errors_Is (EExtend e xs) t = (EExtend e xs = t \<or> errors_Is e t)"
| "errors_Is e t = (e = t)"

definition Cause1 :: "go_error \<Rightarrow> go_error \<Rightarrow> go_error" where
  "Cause1 e cause = ECause e [AErr cause]"

definition need_more :: "go_error option \<Rightarrow> bool" where
  "need_more e = (case e of None \<Rightarrow> False | Some e \<Rightarrow> errors_Is e ErrNeedMoreData)"

lemma need_more_Cause1 [simp]: "need_more (Some (Cause1 ErrNeedMoreData e))"
  by (simp add: need_more_def Cause1_def ErrNeedMoreData_def)

lemma need_more_simps [simp]: "need_more (Some ErrNeedMoreData)" "\<not> need_more (Some ErrInvalid)" "\<not> need_more None"
  by (simp_all add: need_more_def ErrNeedMoreData_def)

section \<open>Foreign code\<close>

record dns_flags =
  dm_Response :: bool
  dm_Question :: nat
  dm_Answer :: nat
  dm_Ns :: nat

text \<open>
  \<open>tls_Server\<close> is the handshake on the bytes: the server name of the client hello, if one was
  read, and the error.  \<open>http_Host\<close> is \<open>http.ReadRequest\<close> with the host of the request.
\<close>

record sniff_env =
  E_Errors :: "go_error option list \<Rightarrow> go_error option"
  mDNS_Unpack :: "string \<Rightarrow> go_error + dns_flags"
  tls_Server :: "string \<Rightarrow> string option \<times> go_error option"
  http_Host :: "string \<Rightarrow> go_error + string"
  host_AddrString :: "string \<Rightarrow> string"
  quic_ClientHello :: "InboundContext \<Rightarrow> string \<Rightarrow> go_error option \<times> InboundContext"

text \<open>\<open>E.Errors\<close> joins the errors that are not nil.\<close>

definition E_Errors_ok :: "sniff_env \<Rightarrow> bool" where
  "E_Errors_ok env \<longleftrightarrow>
     (\<forall>es. (E_Errors env es = None \<longleftrightarrow> (\<forall>e \<in> set es. e = None)) \<and>
           (need_more (E_Errors env es) \<longleftrightarrow> (\<exists>e \<in> set es. need_more e)))"

section \<open>Readers\<close>

fun drop_bytes :: "nat \<Rightarrow> string list \<Rightarrow> string list" where
  "drop_bytes n [] = []"
| "drop_bytes n (b # bs) = (if n < length b then drop n b # bs else drop_bytes (n - length b) bs)"

definition read_full :: "nat \<Rightarrow> string list \<Rightarrow> string \<times> string list" where
  "read_full n bs = (take n (concat bs), drop_bytes n bs)"

text \<open>One call of \<open>Read\<close>: what it returns, and whether the end was reached.\<close>

definition read_once :: "nat \<Rightarrow> string list \<Rightarrow> string \<times> bool" where
  "read_once n bs =
     (case dropWhile (\<lambda>b. b = []) bs of [] \<Rightarrow> ([], True) | b # _ \<Rightarrow> (take n b, False))"

definition short_error :: "string \<Rightarrow> go_error" where
  "short_error b = (if b = [] then ErrEOF else ErrUnexpectedEOF)"

text \<open>Big-endian fields of a flat input; a missing byte means that more data is needed.\<close>

definition get_uint :: "nat \<Rightarrow> string \<Rightarrow> go_error + nat \<times> string" where
  "get_uint n s =
     (if length s < n then Inl (Cause1 ErrNeedMoreData (short_error s))
      else Inr (be_value (take n s), drop n s))"

definition skip_n :: "nat \<Rightarrow> string \<Rightarrow> go_error + unit \<times> string" where
  "skip_n n s = (if length s < n then Inl (Cause1 ErrNeedMoreData ErrEOF) else Inr ((), drop n s))"

definition expect :: "bool \<Rightarrow> string \<Rightarrow> go_error + unit \<times> string" where
  "expect b s = (if b then Inr ((), s) else Inl ErrInvalid)"

section \<open>Stream sniffers\<close>

type_synonym stream_sniffer = "InboundContext \<Rightarrow> string list \<Rightarrow> go_error option \<times> InboundContext"
type_synonym packet_sniffer = "InboundContext \<Rightarrow> string \<Rightarrow> go_error option \<times> InboundContext"

definition sniff_TLSClientHello :: "sniff_env \<Rightarrow> stream_sniffer" where
  "sniff_TLSClientHello env c bs =
     (case tls_Server env (concat bs) of
        (Some name, _) \<Rightarrow> (None, c\<lparr>m_Protocol := ''tls'', m_Domain := name\<rparr>)
      | (None, Some e) \<Rightarrow>
          (Some (if errors_Is e ErrUnexpectedEOF then Cause1 ErrNeedMoreData e else e), c)
      | (None, None) \<Rightarrow> (None, c))"

definition sniff_HTTPHost :: "sniff_env \<Rightarrow> stream_sniffer" where
  "sniff_HTTPHost env c bs =
     (case http_Host env (concat bs) of
        Inl e \<Rightarrow> (Some (if errors_Is e ErrUnexpectedEOF then Cause1 ErrNeedMoreData e else e), c)
      | Inr host \<Rightarrow> (None, c\<lparr>m_Protocol := ''http'', m_Domain := host_AddrString env host\<rparr>))"

text \<open>
  A message that was unpacked and is no plain query ends the sniffing without an error and
  without a protocol: the source returns the error of \<open>Unpack\<close>, which is nil.
\<close>

definition sniff_DomainNameQuery :: "sniff_env \<Rightarrow> packet_sniffer" where
  "sniff_DomainNameQuery env c packet =
     (case mDNS_Unpack env packet of
        Inl e \<Rightarrow> (Some e, c)
      | Inr m \<Rightarrow>
          if dm_Response m \<or> dm_Question m = 0 \<or> dm_Answer m > 0 \<or> dm_Ns m > 0 then (None, c)
          else (None, c\<lparr>m_Protocol := ''dns''\<rparr>))"

definition byte_at :: "string \<Rightarrow> nat \<Rightarrow> nat" where
  "byte_at s i = of_char (s ! i)"

definition sniff_StreamDomainNameQuery :: "sniff_env \<Rightarrow> stream_sniffer" where
  "sniff_StreamDomainNameQuery env c bs =
     (case get_uint 2 (concat bs) of
        Inl e \<Rightarrow> (Some e, c)
      | Inr (len, rest) \<Rightarrow>
          if len < 12 then (Some ErrInvalid, c)
          else
            let packet = take len rest; n = length packet in
            if n > 2 \<and> byte_at packet 2 \<ge> 128 then (Some ErrInvalid, c)
            else if n > 5 \<and> byte_at packet 4 = 0 \<and> byte_at packet 5 = 0 then (Some ErrInvalid, c)
            else if \<exists>i \<in> {6..<10}. n > i \<and> byte_at packet i \<noteq> 0 then (Some ErrInvalid, c)
            else if n < len then (Some (Cause1 ErrNeedMoreData (short_error packet)), c)
            else sniff_DomainNameQuery env c packet)"

definition bittorrent_header :: string where "bittorrent_header = ''BitTorrent protocol''"

definition sniff_BitTorrent :: stream_sniffer where
  "sniff_BitTorrent c bs =
     (case read_full 1 bs of (first, bs1) \<Rightarrow>
        if length first < 1 then (Some (Cause1 ErrNeedMoreData ErrEOF), c)
        else if be_value first \<noteq> 19 then (Some ErrInvalid, c)
        else case read_once 19 bs1 of (protocol, eof) \<Rightarrow>
          if protocol \<noteq> take (length protocol) bittorrent_header then (Some ErrInvalid, c)
          else if eof then (Some (Cause1 ErrNeedMoreData ErrEOF), c)
          else if length protocol < 19 then (Some ErrNeedMoreData, c)
          else (None, c\<lparr>m_Protocol := ''bittorrent''\<rparr>))"

definition ssh_prefix :: string where "ssh_prefix = ''SSH-2.0-''"

text \<open>\<open>bufio.Reader.ReadLine\<close> with its buffer of 4096 bytes, on input that is not empty.\<close>

definition read_line :: "string \<Rightarrow> string" where
  "read_line s =
     (let b = take 4096 s; line = takeWhile (\<lambda>x. x \<noteq> CHR 0x0A) b in
      if length line < length b \<or> length b = 4096
      then (if line \<noteq> [] \<and> last line = CHR 0x0D then butlast line else line)
      else line)"

definition sniff_SSH :: stream_sniffer where
  "sniff_SSH c bs =
     (let s = concat bs; prefix = take (length ssh_prefix) s in
      if prefix \<noteq> take (length prefix) ssh_prefix then (Some ErrInvalid, c)
      else if length prefix < length ssh_prefix then (Some (Cause1 ErrNeedMoreData ErrEOF), c)
      else (None, c\<lparr>m_Protocol := ''ssh'', m_Client := drop 8 (read_line s)\<rparr>))"

definition rdp_header :: "string \<Rightarrow> go_error + unit \<times> string" where
  "rdp_header s =
     bindE (get_uint 1 s) (\<lambda>(tpktVersion, s). bindE (expect (tpktVersion = 0x03) s) (\<lambda>(_, s).
     bindE (get_uint 1 s) (\<lambda>(tpktReserved, s). bindE (expect (tpktReserved = 0x00) s) (\<lambda>(_, s).
     bindE (get_uint 2 s) (\<lambda>(tpktLength, s). bindE (expect (tpktLength = 19) s) (\<lambda>(_, s).
     bindE (get_uint 1 s) (\<lambda>(cotpLength, s). bindE (expect (cotpLength = 14) s) (\<lambda>(_, s).
     bindE (get_uint 1 s) (\<lambda>(cotpTpduType, s). bindE (expect (cotpTpduType = 0xE0) s) (\<lambda>(_, s).
     bindE (skip_n 5 s) (\<lambda>(_, s).
     bindE (get_uint 1 s) (\<lambda>(rdpType, s). bindE (expect (rdpType = 0x01) s) (\<lambda>(_, s).
     bindE (get_uint 1 s) (\<lambda>(rdpFlags, s).
     bindE (get_uint 1 s) (\<lambda>(rdpLength, s). expect (rdpLength = 8) s)))))))))))))))"

definition sniff_RDP :: stream_sniffer where
  "sniff_RDP c bs =
     (case rdp_header (concat bs) of
        Inl e \<Rightarrow> (Some e, c)
      | Inr _ \<Rightarrow> (None, c\<lparr>m_Protocol := ''rdp''\<rparr>))"

section \<open>Packet sniffers\<close>

definition sniff_STUNMessage :: packet_sniffer where
  "sniff_STUNMessage c packet =
     (if length packet < 20 then (Some ErrInvalid, c)
      else if be_value (take 4 (drop 4 packet)) \<noteq> 0x2112A442 then (Some ErrInvalid, c)
      else if length packet < 20 + be_value (take 2 (drop 2 packet)) then (Some ErrInvalid, c)
      else (None, c\<lparr>m_Protocol := ''stun''\<rparr>))"

definition sniff_DTLSRecord :: packet_sniffer where
  "sniff_DTLSRecord c packet =
     (if length packet < 13 then (Some ErrInvalid, c)
      else if byte_at packet 0 \<notin> {20, 21, 22, 23, 25} then (Some ErrInvalid, c)
      else if byte_at packet 1 \<noteq> 0xfe then (Some ErrInvalid, c)
      else if byte_at packet 2 \<noteq> 0xff \<and> byte_at packet 2 \<noteq> 0xfd then (Some ErrInvalid, c)
      else (None, c\<lparr>m_Protocol := ''dtls''\<rparr>))"

text \<open>The quotients by 65536 compare exactly in \<open>float64\<close>.\<close>

definition sniff_NTP :: packet_sniffer where
  "sniff_NTP c packet =
     (if length packet < 48 then (Some ErrInvalid, c)
      else
        let firstByte = byte_at packet 0;
            vn = (firstByte div 8) mod 8;
            md = firstByte mod 8
        in if vn \<noteq> 3 \<and> vn \<noteq> 4 then (Some ErrInvalid, c)
           else if md \<noteq> 3 then (Some ErrInvalid, c)
           else if be_value (take 4 (drop 4 packet)) > 16 * 65536 then (Some ErrInvalid, c)
           else if be_value (take 4 (drop 8 packet)) > 16 * 65536 then (Some ErrInvalid, c)
           else (None, c\<lparr>m_Protocol := ''ntp''\<rparr>))"

text \<open>
  The extensions of a uTP packet: the loop of the source, which ends because every round takes
  at least two bytes.  A seek past the end makes the next read fail.
\<close>

function utp_extensions :: "nat \<Rightarrow> string \<Rightarrow> go_error option" where
  "utp_extensions extension r =
     (if extension = 0 then None
      else case r of
        [] \<Rightarrow> Some ErrEOF
      | [e] \<Rightarrow> if of_char e > (4 :: nat) then Some ErrInvalid else Some ErrEOF
      | e # len # rest \<Rightarrow>
          if of_char e > (4 :: nat) then Some ErrInvalid
          else utp_extensions (of_char e) (drop (of_char len) rest))"
  by pat_completeness auto
termination by (relation "measure (\<lambda>(_, r). length r)") auto

declare utp_extensions.simps [simp del]

definition sniff_UTP :: packet_sniffer where
  "sniff_UTP c packet =
     (if length packet < 20 then (Some ErrInvalid, c)
      else if byte_at packet 0 mod 16 \<noteq> 1 \<or> byte_at packet 0 div 16 > 4 then (Some ErrInvalid, c)
      else case utp_extensions (byte_at packet 1) (drop 20 packet) of
        Some e \<Rightarrow> (Some e, c)
      | None \<Rightarrow> (None, c\<lparr>m_Protocol := ''bittorrent''\<rparr>))"

definition sniff_UDPTracker :: packet_sniffer where
  "sniff_UDPTracker c packet =
     (if length packet < 16 then (Some ErrInvalid, c)
      else if be_value (take 8 packet) \<noteq> 0x41727101980 then (Some ErrInvalid, c)
      else if be_value (take 4 (drop 8 packet)) \<noteq> 0 then (Some ErrInvalid, c)
      else (None, c\<lparr>m_Protocol := ''bittorrent''\<rparr>))"

section \<open>Trying the sniffers\<close>

definition sniff_Skip :: "InboundContext \<Rightarrow> bool" where
  "sniff_Skip c \<longleftrightarrow> sa_Port (m_Destination c) \<in> {25, 465, 587, 143, 993, 110, 995}"

text \<open>
  One round of the peek loop reads once from the connection: the bytes read and the error of
  \<open>ReadOnceFrom\<close>, or a deadline that could not be set.  When the script of rounds is used up the
  deadline has passed.
\<close>

datatype read_event = RDeadline go_error | RRead string "go_error option"

abbreviation RTimeout :: go_error where
  "RTimeout \<equiv> EForeign ''i/o timeout''"

fun try_stream ::
  "sniff_env \<Rightarrow> stream_sniffer list \<Rightarrow> string list \<Rightarrow> go_error option \<Rightarrow> InboundContext \<Rightarrow>
   bool \<times> go_error option \<times> InboundContext" where
  "try_stream env [] bs sniffError c = (False, sniffError, c)"
| "try_stream env (sniffer # ss) bs sniffError c =
     (case sniffer c bs of
        (None, c') \<Rightarrow> (True, None, c')
      | (Some err, c') \<Rightarrow> try_stream env ss bs (E_Errors env [sniffError, Some err]) c')"

fun peek_loop ::
  "sniff_env \<Rightarrow> stream_sniffer list \<Rightarrow> string list \<Rightarrow> nat \<Rightarrow> go_error option \<Rightarrow> read_event list \<Rightarrow>
   InboundContext \<Rightarrow> string \<Rightarrow> go_error option \<times> InboundContext \<times> string \<times> read_event list" where
  "peek_loop env ss buffers i sniffError [] c buffer =
     (if i > 0 then (sniffError, c, buffer, [])
      else (Some (ECause RTimeout [AStr ''read payload'']), c, buffer, []))"
| "peek_loop env ss buffers i sniffError (RDeadline err # evs) c buffer =
     (Some (ECause err [AStr ''set read deadline'']), c, buffer, evs)"
| "peek_loop env ss buffers i sniffError (RRead d (Some err) # evs) c buffer =
     (if i > 0 then (sniffError, c, buffer @ d, evs)
      else (Some (ECause err [AStr ''read payload'']), c, buffer @ d, evs))"
| "peek_loop env ss buffers i sniffError (RRead d None # evs) c buffer =
     (case try_stream env ss (buffers @ [buffer @ d]) None c of
        (True, _, c') \<Rightarrow> (None, c', buffer @ d, evs)
      | (False, err, c') \<Rightarrow>
          if \<not> need_more err then (err, c', buffer @ d, evs)
          else peek_loop env ss buffers (Suc i) err evs c' (buffer @ d))"

text \<open>The result, the metadata, the buffer and what the connection has left.\<close>

definition PeekStream ::
  "sniff_env \<Rightarrow> InboundContext \<Rightarrow> read_event list \<Rightarrow> string list \<Rightarrow> string \<Rightarrow> stream_sniffer list \<Rightarrow>
   go_error option \<times> InboundContext \<times> string \<times> read_event list" where
  "PeekStream env c conn buffers buffer ss = peek_loop env ss buffers 0 None conn c buffer"

fun peek_packets ::
  "packet_sniffer list \<Rightarrow> string \<Rightarrow> go_error option list \<Rightarrow> InboundContext \<Rightarrow>
   go_error option list option \<times> InboundContext" where
  "peek_packets [] packet errs c = (Some errs, c)"
| "peek_packets (sniffer # ss) packet errs c =
     (case sniffer c packet of
        (None, c') \<Rightarrow> (None, c')
      | (Some err, c') \<Rightarrow> peek_packets ss packet (errs @ [Some err]) c')"

definition PeekPacket ::
  "sniff_env \<Rightarrow> InboundContext \<Rightarrow> string \<Rightarrow> packet_sniffer list \<Rightarrow> go_error option \<times> InboundContext" where
  "PeekPacket env c packet ss =
     (case peek_packets ss packet [] c of
        (None, c') \<Rightarrow> (None, c')
      | (Some errs, c') \<Rightarrow> (E_Errors env errs, c'))"

section \<open>Parsers on a prefix of the input\<close>

text \<open>
  A parser is progressive when, on a prefix of an input it accepts, it either asks for more data
  or already returns the same value, leaving the corresponding rest.
\<close>

definition progressive :: "(string \<Rightarrow> go_error + 'a \<times> string) \<Rightarrow> bool" where
  "progressive p \<longleftrightarrow>
     (\<forall>s t x r. p (s @ t) = Inr (x, r) \<longrightarrow>
        (\<exists>r'. p s = Inr (x, r') \<and> r = r' @ t) \<or> (\<exists>e. p s = Inl e \<and> need_more (Some e)))"

named_theorems progress_intros \<open>progressive parsers\<close>

lemma progressive_get_uint [progress_intros]: "progressive (get_uint n)"
  by (auto simp: progressive_def get_uint_def)

lemma progressive_skip_n [progress_intros]: "progressive (skip_n n)"
  by (auto simp: progressive_def skip_n_def)

lemma progressive_expect [progress_intros]: "progressive (expect b)"
  by (auto simp: progressive_def expect_def)

lemma progressive_bindE [progress_intros]:
  assumes p: "progressive p" and q: "\<And>x. progressive (q x)"
  shows "progressive (\<lambda>s. bindE (p s) (\<lambda>(x, s). q x s))"
  unfolding progressive_def
proof (intro allI impI)
  fix s t y r
  assume "bindE (p (s @ t)) (\<lambda>(x, s). q x s) = Inr (y, r)"
  then obtain x r1 where 1: "p (s @ t) = Inr (x, r1)" and 2: "q x r1 = Inr (y, r)"
    by (auto simp: bindE_Inr)
  from p 1 consider r' where "p s = Inr (x, r')" "r1 = r' @ t" | e where "p s = Inl e" "need_more (Some e)"
    unfolding progressive_def by blast
  then show "(\<exists>r'. bindE (p s) (\<lambda>(x, s). q x s) = Inr (y, r') \<and> r = r' @ t) \<or>
      (\<exists>e. bindE (p s) (\<lambda>(x, s). q x s) = Inl e \<and> need_more (Some e))"
  proof cases
    case 1
    then show ?thesis using q [of x] 2 by (auto simp: progressive_def)
  qed simp
qed

lemma progressive_rdp: "progressive rdp_header"
  unfolding rdp_header_def [abs_def] by (intro progress_intros)

section \<open>Sniffing a stream that arrives in pieces\<close>

text \<open>
  What the peek loop relies on: whether a sniffer accepts depends on the bytes alone, and on a
  prefix of bytes it accepts it accepts or asks for more.  \<open>bs\<close> are the buffers in front of the
  one that grows.
\<close>

locale stream_probe =
  fixes sf :: stream_sniffer and bs :: "string list"
  assumes probe_bytes: "fst (sf c b) = fst (sf c' b)"
    and probe_prefix: "fst (sf c (bs @ [s @ t])) = None \<Longrightarrow>
      fst (sf c (bs @ [s])) = None \<or> need_more (fst (sf c (bs @ [s])))"

lemma try_stream_need_more:
  assumes "E_Errors_ok env" and "sf \<in> set ss \<Longrightarrow> \<forall>c. need_more (fst (sf c b))"
    and "sf \<in> set ss \<or> need_more e" and "try_stream env ss b e c = (False, err, c')"
  shows "need_more err"
  using assms(2-)
proof (induction ss arbitrary: e c)
  case (Cons g ss)
  from Cons.prems(3) obtain x c1 where g: "g c b = (Some x, c1)"
    and rest: "try_stream env ss b (E_Errors env [e, Some x]) c1 = (False, err, c')"
    by (auto split: prod.splits option.splits)
  have nm: "need_more (E_Errors env [e, Some x]) \<longleftrightarrow> need_more e \<or> need_more (Some x)"
    using assms(1) by (simp add: E_Errors_ok_def)
  show ?case
  proof (rule Cons.IH [OF _ _ rest])
    show "sf \<in> set ss \<Longrightarrow> \<forall>c. need_more (fst (sf c b))" using Cons.prems(1) by simp
    show "sf \<in> set ss \<or> need_more (E_Errors env [e, Some x])"
    proof (cases "g = sf")
      case True
      then have "need_more (fst (g c b))" using Cons.prems(1) by simp
      then show ?thesis by (simp add: g nm)
    qed (use Cons.prems(2) nm in auto)
  qed
qed simp

lemma try_stream_accepts:
  assumes "sf \<in> set ss" and "\<forall>c. fst (sf c b) = None"
  shows "fst (try_stream env ss b e c)"
  using assms(1)
proof (induction ss arbitrary: e c)
  case (Cons g ss)
  then show ?case using assms(2) by (auto split: prod.splits option.splits) (metis fst_conv option.distinct(1))
qed simp

context stream_probe
begin

lemma peek_loop_accepts:
  assumes "E_Errors_ok env" and "sf \<in> set ss" and "ds \<noteq> []"
    and "fst (sf c0 (bs @ [buffer @ concat ds])) = None"
  shows "fst (peek_loop env ss bs i e (map (\<lambda>d. RRead d None) ds @ evs) c buffer) = None"
  using assms(3,4)
proof (induction ds arbitrary: i e c buffer)
  case (Cons d ds)
  let ?b = "bs @ [buffer @ d]"
  have pre: "fst (sf c1 ?b) = None \<or> need_more (fst (sf c1 ?b))" for c1
    using probe_prefix [of c1 "buffer @ d" "concat ds"] Cons.prems(2) probe_bytes [of c1 _ c0] by simp
  obtain acc err c' where t: "try_stream env ss ?b None c = (acc, err, c')" by (cases "try_stream env ss ?b None c")
  show ?case
  proof (cases acc)
    case False
    have none: "fst (sf c0 ?b) \<noteq> None"
    proof
      assume "fst (sf c0 ?b) = None"
      then have "\<forall>c. fst (sf c ?b) = None" using probe_bytes [of _ ?b c0] by simp
      from try_stream_accepts [OF assms(2) this, of env None c] t False show False by simp
    qed
    then have "ds \<noteq> []" using Cons.prems(2) by auto
    moreover have "\<forall>c. need_more (fst (sf c ?b))" using none pre probe_bytes [of _ ?b c0] by metis
    ultimately show ?thesis
      using Cons.IH Cons.prems(2) t False assms(2)
        try_stream_need_more [OF assms(1), of sf ss ?b None c err c'] by simp
  qed (simp add: t)
qed simp

end

text \<open>A message over a stream: the checks look at bytes that are there, so they persist.\<close>

lemma stream_dns_prefix:
  assumes acc: "fst (sniff_StreamDomainNameQuery env c b) = None" and b: "concat b = concat b' @ t"
  shows "fst (sniff_StreamDomainNameQuery env c b') = None \<or>
    need_more (fst (sniff_StreamDomainNameQuery env c b'))"
proof (cases "length (concat b') < 2")
  case True
  then show ?thesis by (simp add: sniff_StreamDomainNameQuery_def get_uint_def)
next
  case False
  let ?s = "concat b'"
  define len where "len = be_value (take 2 ?s)"
  define p where "p = take len (drop 2 ?s)"
  have g: "get_uint 2 ?s = Inr (len, drop 2 ?s)" using False by (simp add: get_uint_def len_def)
  have g': "get_uint 2 (concat b) = Inr (len, drop 2 ?s @ t)" using False by (simp add: get_uint_def len_def b)
  define q where "q = take len (drop 2 ?s @ t)"
  have pq: "p = take (length p) q"
    by (cases "len \<le> length (drop 2 ?s)") (simp_all add: p_def q_def)
  then have at: "i < length p \<Longrightarrow> byte_at p i = byte_at q i" for i by (metis byte_at_def nth_take)
  have le: "length p \<le> length q" by (simp add: p_def q_def)
  from acc have ok: "\<not> len < 12" "\<not> (length q > 2 \<and> byte_at q 2 \<ge> 128)"
    "\<not> (length q > 5 \<and> byte_at q 4 = 0 \<and> byte_at q 5 = 0)"
    "\<not> (\<exists>i \<in> {6..<10}. length q > i \<and> byte_at q i \<noteq> 0)" "\<not> length q < len"
    by (auto simp: sniff_StreamDomainNameQuery_def g' q_def Let_def split: if_splits)
  have keep: "\<not> (length p > 2 \<and> byte_at p 2 \<ge> 128)"
    "\<not> (length p > 5 \<and> byte_at p 4 = 0 \<and> byte_at p 5 = 0)"
    "\<not> (\<exists>i \<in> {6..<10}. length p > i \<and> byte_at p i \<noteq> 0)"
    using ok(2-4) le at by (auto dest: order_less_le_trans)
  show ?thesis
  proof (cases "length p < len")
    case True
    then have "sniff_StreamDomainNameQuery env c b' = (Some (Cause1 ErrNeedMoreData (short_error p)), c)"
      by (simp only: sniff_StreamDomainNameQuery_def g sum.case prod.case Let_def p_def [symmetric]
          keep [THEN if_not_P] ok(1) [THEN if_not_P] if_True)
    then show ?thesis by simp
  next
    case False
    then have "length p = length q" using le by (simp add: p_def q_def)
    then have "p = q" using pq by simp
    then have "take len (drop 2 ?s) = take len (drop 2 ?s @ t)" by (simp only: p_def q_def)
    then have "sniff_StreamDomainNameQuery env c b' = sniff_StreamDomainNameQuery env c b"
      by (simp only: sniff_StreamDomainNameQuery_def g g' sum.case prod.case)
    then show ?thesis using acc by simp
  qed
qed

lemma sniff_DomainNameQuery_bytes: "fst (sniff_DomainNameQuery env c p) = fst (sniff_DomainNameQuery env c' p)"
  by (simp add: sniff_DomainNameQuery_def split: sum.split)

interpretation sdns: stream_probe "sniff_StreamDomainNameQuery env" bs for env bs
proof
  show "fst (sniff_StreamDomainNameQuery env c b) = fst (sniff_StreamDomainNameQuery env c' b)" for c c' b
  proof (cases "get_uint 2 (concat b)")
    case (Inr p)
    obtain len rest where "p = (len, rest)" by (cases p)
    with Inr show ?thesis
      by (simp only: sniff_StreamDomainNameQuery_def sum.case prod.case Let_def if_distrib [of fst]
          fst_conv sniff_DomainNameQuery_bytes [of env c _ c'])
  qed (simp add: sniff_StreamDomainNameQuery_def)
qed (rule stream_dns_prefix, assumption, simp)

interpretation rdp: stream_probe sniff_RDP bs for bs
proof
  show "fst (sniff_RDP c b) = fst (sniff_RDP c' b)" for c c' b
    by (simp add: sniff_RDP_def split: sum.split)
  show "fst (sniff_RDP c (bs @ [s @ t])) = None \<Longrightarrow>
      fst (sniff_RDP c (bs @ [s])) = None \<or> need_more (fst (sniff_RDP c (bs @ [s])))" for c s t
    using progressive_rdp [unfolded progressive_def, rule_format, of "concat bs @ s" t]
    by (fastforce simp: sniff_RDP_def split: sum.splits)
qed

lemma prefix_of_prefix: "take n (s @ t) = h \<Longrightarrow> take n s = take (length (take n s)) h"
  by (auto simp: min_def)

interpretation ssh: stream_probe sniff_SSH bs for bs
proof
  show "fst (sniff_SSH c b) = fst (sniff_SSH c' b)" for c c' b by (simp add: sniff_SSH_def Let_def)
  show "fst (sniff_SSH c (bs @ [s @ t])) = None \<Longrightarrow>
      fst (sniff_SSH c (bs @ [s])) = None \<or> need_more (fst (sniff_SSH c (bs @ [s])))" for c s t
    using prefix_of_prefix [of "length ssh_prefix" "concat bs @ s" t ssh_prefix]
    by (auto simp: sniff_SSH_def Let_def split: if_splits)
qed

text \<open>The header of BitTorrent is read by one call, so nothing may lie in front of the buffer.\<close>

interpretation bt: stream_probe sniff_BitTorrent "[]"
proof
  show "fst (sniff_BitTorrent c b) = fst (sniff_BitTorrent c' b)" for c c' b
    by (simp add: sniff_BitTorrent_def split: prod.split)
  show "fst (sniff_BitTorrent c ([] @ [s @ t])) = None \<Longrightarrow>
      fst (sniff_BitTorrent c ([] @ [s])) = None \<or> need_more (fst (sniff_BitTorrent c ([] @ [s])))" for c s t
    using prefix_of_prefix [of 19 "drop 1 s" t bittorrent_header]
    by (cases s) (auto simp: sniff_BitTorrent_def read_full_def read_once_def bittorrent_header_def split: if_splits)
qed


text \<open>An environment for examples, whose parsers know nothing.\<close>

definition demo_sniff_env :: sniff_env where
  "demo_sniff_env =
     \<lparr>E_Errors = (\<lambda>es. case List.find need_more es of Some e \<Rightarrow> e
        | None \<Rightarrow> (case List.find (\<lambda>e. e \<noteq> None) es of Some e \<Rightarrow> e | None \<Rightarrow> None)),
      mDNS_Unpack = (\<lambda>s. Inr \<lparr>dm_Response = False, dm_Question = 1, dm_Answer = 0, dm_Ns = 0\<rparr>),
      tls_Server = (\<lambda>s. (None, Some ErrUnexpectedEOF)), http_Host = (\<lambda>s. Inl ErrUnexpectedEOF),
      host_AddrString = (\<lambda>s. s), quic_ClientHello = (\<lambda>c s. (Some ErrInvalid, c))\<rparr>"

lemma find_Some_in: "List.find P xs = Some x \<Longrightarrow> x \<in> set xs \<and> P x"
  by (auto simp: find_Some_iff)

lemma demo_sniff_env_ok: "E_Errors_ok demo_sniff_env"
  unfolding E_Errors_ok_def
proof (intro allI conjI)
  fix es :: "go_error option list"
  show "(E_Errors demo_sniff_env es = None) = (\<forall>e \<in> set es. e = None)"
    by (auto simp: demo_sniff_env_def find_None_iff split: option.splits dest!: find_Some_in)
  show "need_more (E_Errors demo_sniff_env es) = (\<exists>e \<in> set es. need_more e)"
    by (auto simp: demo_sniff_env_def find_None_iff split: option.splits dest!: find_Some_in)
qed

text \<open>The connection request of an RDP client.\<close>

definition demo_rdp :: string where
  "demo_rdp = map char_of [3, 0, 0, 19, 14, 0xE0, 0, 0, 0, 0, 0, 1, 0, 8, 0, 0, 0, 0, 0 :: nat]"

lemma demo_rdp_accepted: "fst (sniff_RDP c [demo_rdp]) = None"
  by (simp add: sniff_RDP_def rdp_header_def get_uint_def expect_def skip_n_def be_value_def demo_rdp_def)


text \<open>
  A BitTorrent handshake whose first part lies in a cached buffer is not recognised, however much
  is read afterwards: the header is read by one call, which stops at the end of that buffer.
\<close>

lemma bittorrent_split_unseen:
  assumes "0 < n" and "n < 19"
  shows "sniff_BitTorrent c ((CHR 0x13 # take n bittorrent_header) # rest) = (Some ErrNeedMoreData, c)"
proof -
  have "length (take n bittorrent_header) = n" using assms by (simp add: bittorrent_header_def)
  moreover have "take n bittorrent_header \<noteq> []" using assms by (simp add: bittorrent_header_def)
  ultimately show ?thesis using assms
    by (simp add: sniff_BitTorrent_def read_full_def read_once_def be_value_def)
qed

text \<open>Sniffing takes nothing away: buffer and connection together hold the same bytes as before.\<close>

fun event_data :: "read_event \<Rightarrow> string" where
  "event_data (RRead d _) = d"
| "event_data (RDeadline _) = []"

abbreviation conn_data :: "read_event list \<Rightarrow> string" where
  "conn_data evs \<equiv> concat (map event_data evs)"

lemma peek_loop_keeps_data:
  "peek_loop env ss bs i e evs c buffer = (err, c', buffer', evs') \<Longrightarrow>
   buffer' @ conn_data evs' = buffer @ conn_data evs"
  by (induction env ss bs i e evs c buffer rule: peek_loop.induct)
     (auto split: if_splits prod.splits bool.splits)

lemma PeekStream_keeps_data:
  "PeekStream env c conn buffers buffer ss = (err, c', buffer', conn') \<Longrightarrow>
   buffer' @ conn_data conn' = buffer @ conn_data conn"
  by (simp add: PeekStream_def peek_loop_keeps_data)

text \<open>
  A packet that unpacks as a DNS message but is no query ends the sniffing with success and
  without a protocol: the sniffers after the one for DNS are not asked.
\<close>

lemma dns_non_query_stops:
  assumes "mDNS_Unpack env packet = Inr m" and "dm_Response m \<or> dm_Question m = 0"
  shows "PeekPacket env c packet (sniff_DomainNameQuery env # ss) = (None, c)"
  using assms by (auto simp: PeekPacket_def sniff_DomainNameQuery_def)

end
