(* ===== verification/Route_Exec.thy ===== *)
theory Route_Exec
  imports Sniff Rule_Semantics Rule_Action Dns_Transport_Manager Simple_Managers Fakeip_Store
begin

text \<open>
  How the router decides about a connection (\<open>core/route/route.go\<close>): the search for the rule,
  with the actions that change the metadata on the way, and what is done with the connection
  then.  A stream is the script of what its reads return, a packet connection that of its
  packets.  The DNS router, the trackers, the wrappers of package \<open>bufio\<close> and the functions of
  package \<open>metadata\<close> are arguments; the managers, the fake address store, the rules, their actions
  and the sniffers are those of the other theories.
\<close>

section \<open>What the router calls\<close>

type_synonym AddrPort = "addr \<times> 16 word"

record packet_buffer =
  pb_Data :: string
  pb_Destination :: Socksaddr

text \<open>
  One read of a packet connection: a packet, a deadline that passed, another error, or the end of
  the context while waiting.  A script that is used up means that the deadline passes.
\<close>

datatype packet_event = PPacket packet_buffer | PDeadline | PErr go_error | PDone go_error

type_synonym route_rule = "RuleAction option rule"

record ('conn, 'pconn) route_env =
  re_loops :: loops
  re_rule :: rule_env
  re_sniff :: sniff_env
  re_IsValid :: "Socksaddr \<Rightarrow> bool"
  re_IsIPv4 :: "Socksaddr \<Rightarrow> bool"
  re_IsFqdn :: "Socksaddr \<Rightarrow> bool"
  re_IsDomainName :: "string \<Rightarrow> bool"
  re_LookupId :: "32 word \<Rightarrow> string option"
  re_LookupReverseMapping :: "addr \<Rightarrow> string option"
  re_Lookup :: "InboundContext \<Rightarrow> string \<Rightarrow> DNSQueryOptions \<Rightarrow> go_error + addr list"
  re_Network :: "obj \<Rightarrow> string list"
  re_TCPInjectable :: "obj \<Rightarrow> bool"
  re_UDPInjectable :: "obj \<Rightarrow> bool"
  re_ConnectionHandler :: "obj \<Rightarrow> bool"
  re_PacketHandler :: "obj \<Rightarrow> bool"
  re_mux_Fqdn :: string
  re_vmess_MuxFqdn :: string
  re_uot_MagicAddress :: string
  re_uot_LegacyMagicAddress :: string
  re_Conn :: "read_event list \<Rightarrow> 'conn"
  re_PacketConn :: "packet_event list \<Rightarrow> 'pconn"
  re_NewCachedConn :: "'conn \<Rightarrow> string \<Rightarrow> 'conn"
  re_NewCachedPacketConn :: "'pconn \<Rightarrow> packet_buffer \<Rightarrow> 'pconn"
  re_NewNATPacketConn :: "'pconn \<Rightarrow> Socksaddr \<Rightarrow> Socksaddr \<Rightarrow> 'pconn"
  re_trackers :: "('conn \<Rightarrow> InboundContext \<Rightarrow> nat option \<Rightarrow> obj \<Rightarrow> 'conn) list"
  re_packet_trackers :: "('pconn \<Rightarrow> InboundContext \<Rightarrow> nat option \<Rightarrow> obj \<Rightarrow> 'pconn) list"
  re_Filter :: "(int \<Rightarrow> bool) \<Rightarrow> int list \<Rightarrow> int list"

record 's router =
  rt_inbound :: manager
  rt_endpoint :: manager
  rt_outbound :: outbound_manager
  rt_dnsTransport :: transport_manager
  rt_fakeip :: "('s FakeIPStorage \<times> 's Store) option"
  rt_processSearcher :: "(string \<Rightarrow> AddrPort \<Rightarrow> AddrPort \<Rightarrow> go_error + ProcessInfo) option"
  rt_rules :: "route_rule list"

text \<open>What \<open>matchRule\<close> works on: the metadata, the connection and what was read from it.\<close>

record flow =
  fl_Ctx :: InboundContext
  fl_Conn :: "read_event list option"
  fl_PacketConn :: "packet_event list option"
  fl_Buffers :: "string list"
  fl_Packets :: "packet_buffer list"

section \<open>Sniffing\<close>

primrec stream_sniffer_of :: "sniff_env \<Rightarrow> StreamSniffer \<Rightarrow> stream_sniffer" where
  "stream_sniffer_of env TLSClientHello = sniff_TLSClientHello env"
| "stream_sniffer_of env HTTPHost = sniff_HTTPHost env"
| "stream_sniffer_of env StreamDomainNameQuery = sniff_StreamDomainNameQuery env"
| "stream_sniffer_of env BitTorrent = sniff_BitTorrent"
| "stream_sniffer_of env SSH = sniff_SSH"
| "stream_sniffer_of env RDP = sniff_RDP"

primrec packet_sniffer_of :: "sniff_env \<Rightarrow> PacketSniffer \<Rightarrow> packet_sniffer" where
  "packet_sniffer_of env QUICClientHello = quic_ClientHello env"
| "packet_sniffer_of env DomainNameQuery = sniff_DomainNameQuery env"
| "packet_sniffer_of env STUNMessage = sniff_STUNMessage"
| "packet_sniffer_of env UTP = sniff_UTP"
| "packet_sniffer_of env UDPTracker = sniff_UDPTracker"
| "packet_sniffer_of env DTLSRecord = sniff_DTLSRecord"
| "packet_sniffer_of env NTP = sniff_NTP"

definition stream_sniffers :: "sniff_env \<Rightarrow> RuleActionSniff \<Rightarrow> stream_sniffer list" where
  "stream_sniffers env a =
     map (stream_sniffer_of env)
       (if StreamSniffers a \<noteq> [] then StreamSniffers a
        else [TLSClientHello, HTTPHost, StreamDomainNameQuery, BitTorrent, SSH, RDP])"

definition packet_sniffers :: "sniff_env \<Rightarrow> RuleActionSniff \<Rightarrow> packet_sniffer list" where
  "packet_sniffers env a =
     map (packet_sniffer_of env)
       (if PacketSniffers a \<noteq> [] then PacketSniffers a
        else [DomainNameQuery, QUICClientHello, STUNMessage, UTP, UDPTracker, DTLSRecord, NTP])"

definition override_domain :: "('conn, 'pconn) route_env \<Rightarrow> RuleActionSniff \<Rightarrow> InboundContext \<Rightarrow> InboundContext" where
  "override_domain env a c =
     (if OverrideDestination a \<and> re_IsDomainName env (m_Domain c)
      then c\<lparr>m_Destination := \<lparr>sa_Addr = AddrNone, sa_Port = sa_Port (m_Destination c), sa_Fqdn = m_Domain c\<rparr>\<rparr>
      else c)"

definition previous_error :: "RuleActionSniff \<Rightarrow> InboundContext \<Rightarrow> bool" where
  "previous_error a c \<longleftrightarrow>
     m_SnifferNames c = SnifferNames a \<and> m_SniffError c \<noteq> None \<and> \<not> need_more (m_SniffError c)"

definition quicMoreData :: "RuleActionSniff \<Rightarrow> InboundContext \<Rightarrow> bool" where
  "quicMoreData a c \<longleftrightarrow> m_SnifferNames c = SnifferNames a \<and> need_more (m_SniffError c)"

text \<open>One packet: what \<open>PeekPacket\<close> is called with, and the two fields written afterwards.\<close>

definition sniff_packet :: "sniff_env \<Rightarrow> RuleActionSniff \<Rightarrow> string \<Rightarrow> InboundContext \<Rightarrow> go_error option \<times> InboundContext" where
  "sniff_packet env a packet c =
     (case PeekPacket env c packet (if quicMoreData a c then [quic_ClientHello env] else packet_sniffers env a) of
        (err, c') \<Rightarrow> (err, c'\<lparr>m_SnifferNames := SnifferNames a, m_SniffError := err\<rparr>))"

text \<open>The loop over the packets that were read before: Some err when it went to \<open>finally\<close>.\<close>

fun sniff_cached ::
  "sniff_env \<Rightarrow> RuleActionSniff \<Rightarrow> packet_buffer list \<Rightarrow> InboundContext \<Rightarrow> go_error option option \<times> InboundContext" where
  "sniff_cached env a [] c = (None, c)"
| "sniff_cached env a (p # ps) c =
     (case sniff_packet env a (pb_Data p) c of (err, c') \<Rightarrow>
        if need_more err then sniff_cached env a ps c' else (Some err, c'))"

text \<open>
  The loop that reads packets: the packets, whether \<open>finally\<close> was reached and with which error
  or the fatal error, the metadata and the rest of the connection.
\<close>

fun sniff_read ::
  "sniff_env \<Rightarrow> RuleActionSniff \<Rightarrow> packet_event list \<Rightarrow> packet_buffer list \<Rightarrow> InboundContext \<Rightarrow>
   packet_buffer list \<times> (go_error + go_error option) \<times> InboundContext \<times> packet_event list" where
  "sniff_read env a [] ps c = (ps, Inr (Some RTimeout), c, [])"
| "sniff_read env a (PDeadline # evs) ps c = (ps, Inr (Some RTimeout), c, evs)"
| "sniff_read env a (PErr e # evs) ps c = (ps, Inl e, c, evs)"
| "sniff_read env a (PDone e # evs) ps c = (ps, Inl e, c, evs)"
| "sniff_read env a (PPacket p # evs) ps c =
     (case sniff_packet env a (pb_Data p) c of (err, c') \<Rightarrow>
        if need_more err then sniff_read env a evs (ps @ [p]) c' else (ps @ [p], Inr err, c', evs))"

text \<open>
  \<open>actionSniff\<close>: the new buffer, the new packets, the fatal error, and the flow with its metadata
  and connection.  The buffers it is given are arguments: for the inbound options there are none.
\<close>

definition sniff_stream ::
  "('conn, 'pconn) route_env \<Rightarrow> RuleActionSniff \<Rightarrow> read_event list \<Rightarrow> string list \<Rightarrow> flow \<Rightarrow> string option \<times> flow" where
  "sniff_stream env a conn inputBuffers fl =
     (let c = fl_Ctx fl in
      if StreamSniffers a = [] \<and> PacketSniffers a \<noteq> [] \<or> previous_error a c then (None, fl)
      else case PeekStream (re_sniff env) c conn inputBuffers [] (stream_sniffers (re_sniff env) a) of
        (err, c1, buffer, rest) \<Rightarrow>
          let c2 = c1\<lparr>m_SnifferNames := SnifferNames a, m_SniffError := err\<rparr>;
              c3 = (if err = None then override_domain env a c2 else c2)
          in (if buffer \<noteq> [] then Some buffer else None, fl\<lparr>fl_Ctx := c3, fl_Conn := Some rest\<rparr>))"

definition sniff_datagrams ::
  "('conn, 'pconn) route_env \<Rightarrow> RuleActionSniff \<Rightarrow> packet_event list \<Rightarrow> packet_buffer list \<Rightarrow> flow \<Rightarrow>
   packet_buffer list \<times> go_error option \<times> flow" where
  "sniff_datagrams env a conn inputPackets fl =
     (let c = fl_Ctx fl; fin = (\<lambda>err c. if err = None then override_domain env a c else c) in
      if PacketSniffers a = [] \<and> StreamSniffers a \<noteq> [] \<or> previous_error a c then ([], None, fl)
      else case sniff_cached (re_sniff env) a inputPackets c of
        (Some err, c1) \<Rightarrow> ([], None, fl\<lparr>fl_Ctx := fin err c1\<rparr>)
      | (None, c1) \<Rightarrow>
          (case sniff_read (re_sniff env) a conn inputPackets c1 of
             (ps, Inl fatal, c2, rest) \<Rightarrow> (ps, Some fatal, fl\<lparr>fl_Ctx := c2, fl_PacketConn := Some rest\<rparr>)
           | (ps, Inr err, c2, rest) \<Rightarrow> (ps, None, fl\<lparr>fl_Ctx := fin err c2, fl_PacketConn := Some rest\<rparr>)))"

definition actionSniff ::
  "('conn, 'pconn) route_env \<Rightarrow> RuleActionSniff \<Rightarrow> string list \<Rightarrow> packet_buffer list \<Rightarrow> flow \<Rightarrow>
   string option \<times> packet_buffer list \<times> go_error option \<times> flow" where
  "actionSniff env a inputBuffers inputPackets fl =
     (if sniff_Skip (fl_Ctx fl) \<or> m_Protocol (fl_Ctx fl) \<noteq> [] then (None, [], None, fl)
      else case fl_Conn fl of
        Some conn \<Rightarrow> (case sniff_stream env a conn inputBuffers fl of (b, fl') \<Rightarrow> (b, [], None, fl'))
      | None \<Rightarrow>
          (case fl_PacketConn fl of
             Some conn \<Rightarrow>
               (case sniff_datagrams env a conn inputPackets fl of (ps, fatal, fl') \<Rightarrow> (None, ps, fatal, fl'))
           | None \<Rightarrow> (None, [], None, fl)))"

section \<open>Resolving and route options\<close>

definition actionResolve ::
  "('conn, 'pconn) route_env \<Rightarrow> 's router \<Rightarrow> ResolveOptions \<Rightarrow> InboundContext \<Rightarrow> go_error option \<times> InboundContext" where
  "actionResolve env r a c =
     (if \<not> re_IsFqdn env (m_Destination c) then (None, c)
      else
        let transport = (if rs_Server a = [] then Inr None
          else case transport_Transport (rt_dnsTransport r) (rs_Server a) of
            None \<Rightarrow> Inl (ENew [AStr ''DNS server not found: '', AStr (rs_Server a)])
          | Some t \<Rightarrow> Inr (Some t))
        in case transport of
          Inl e \<Rightarrow> (Some e, c)
        | Inr t \<Rightarrow>
            (case re_Lookup env c (sa_Fqdn (m_Destination c))
                \<lparr>qo_Transport = t, qo_Strategy = rs_Strategy a, qo_LookupStrategy = 0, qo_DisableCache = rs_DisableCache a,
                 qo_RewriteTTL = rs_RewriteTTL a, qo_ClientSubnet = rs_ClientSubnet a\<rparr> of
               Inl e \<Rightarrow> (Some e, c)
             | Inr addresses \<Rightarrow> (None, c\<lparr>m_DestinationAddresses := addresses\<rparr>)))"

text \<open>The options that are set change the metadata, one after the other.\<close>

definition only_if :: "bool \<Rightarrow> ('c \<Rightarrow> 'c) \<Rightarrow> 'c \<Rightarrow> 'c" where
  "only_if b f c = (if b then f c else c)"

definition option_updates ::
  "('conn, 'pconn) route_env \<Rightarrow> RuleActionRouteOptions \<Rightarrow> (InboundContext \<Rightarrow> InboundContext) list" where
  "option_updates env ro =
     [\<lambda>c. only_if ((re_IsValid env (OverrideAddress ro) \<or> OverridePort ro > 0) \<and>
                   \<not> re_IsValid env (m_RouteOriginalDestination c))
            (\<lambda>c. c\<lparr>m_RouteOriginalDestination := m_Destination c\<rparr>) c,
      only_if (re_IsValid env (OverrideAddress ro))
        (\<lambda>c. c\<lparr>m_Destination := \<lparr>sa_Addr = sa_Addr (OverrideAddress ro), sa_Port = sa_Port (m_Destination c),
                 sa_Fqdn = sa_Fqdn (OverrideAddress ro)\<rparr>, m_DestinationAddresses := []\<rparr>),
      only_if (OverridePort ro > 0)
        (\<lambda>c. c\<lparr>m_Destination := (m_Destination c)\<lparr>sa_Port := OverridePort ro\<rparr>\<rparr>),
      only_if (NetworkStrategy ro \<noteq> None) (\<lambda>c. c\<lparr>m_NetworkStrategy := NetworkStrategy ro\<rparr>),
      only_if (NetworkType ro \<noteq> []) (\<lambda>c. c\<lparr>m_NetworkType := NetworkType ro\<rparr>),
      only_if (FallbackNetworkType ro \<noteq> []) (\<lambda>c. c\<lparr>m_FallbackNetworkType := FallbackNetworkType ro\<rparr>),
      only_if (FallbackDelay ro \<noteq> 0) (\<lambda>c. c\<lparr>m_FallbackDelay := FallbackDelay ro\<rparr>),
      only_if (UDPDisableDomainUnmapping ro) (\<lambda>c. c\<lparr>m_UDPDisableDomainUnmapping := True\<rparr>),
      only_if (UDPConnect ro) (\<lambda>c. c\<lparr>m_UDPConnect := True\<rparr>),
      only_if (UDPTimeout ro > 0) (\<lambda>c. c\<lparr>m_UDPTimeout := UDPTimeout ro\<rparr>),
      only_if (TLSFragment ro)
        (\<lambda>c. c\<lparr>m_TLSFragment := True, m_TLSFragmentFallbackDelay := TLSFragmentFallbackDelay ro\<rparr>),
      only_if (TLSRecordFragment ro) (\<lambda>c. c\<lparr>m_TLSRecordFragment := True\<rparr>)]"

definition apply_route_options ::
  "('conn, 'pconn) route_env \<Rightarrow> RuleActionRouteOptions \<Rightarrow> InboundContext \<Rightarrow> InboundContext" where
  "apply_route_options env ro c = fold (\<lambda>f. f) (option_updates env ro) c"

section \<open>Finding the rule\<close>

text \<open>The index of the selected rule, none, the fatal error, or a panic.\<close>

datatype match_result = MSelected nat | MNone | MFatal go_error | MPanic string

fun rule_Action :: "'act rule \<Rightarrow> 'act" where
  "rule_Action (DefaultRule r) = action r"
| "rule_Action (LogicalRule rs md neg act) = act"

definition sniff_in_rule ::
  "('conn, 'pconn) route_env \<Rightarrow> RuleActionSniff \<Rightarrow> flow \<Rightarrow> go_error option \<times> flow" where
  "sniff_in_rule env a fl =
     (case actionSniff env a (fl_Buffers fl) (fl_Packets fl) fl of
        (newBuffer, newPackets, fatal, fl') \<Rightarrow>
          (fatal, case newBuffer of
             Some b \<Rightarrow> fl'\<lparr>fl_Buffers := fl_Buffers fl @ [b]\<rparr>
           | None \<Rightarrow> if newPackets \<noteq> [] then fl'\<lparr>fl_Packets := fl_Packets fl @ newPackets\<rparr> else fl'))"

text \<open>What happens once a rule matched, up to the question whether it is selected.\<close>

fun options_of :: "RuleAction \<Rightarrow> RuleActionRouteOptions option" where
  "options_of (RuleActionRoute _ ro) = Some ro"
| "options_of (RuleActionRouteOptions ro) = Some ro"
| "options_of _ = None"

definition with_options :: "('conn, 'pconn) route_env \<Rightarrow> RuleAction \<Rightarrow> InboundContext \<Rightarrow> InboundContext" where
  "with_options env a c = (case options_of a of Some ro \<Rightarrow> apply_route_options env ro c | None \<Rightarrow> c)"

definition perform ::
  "('conn, 'pconn) route_env \<Rightarrow> 's router \<Rightarrow> RuleAction \<Rightarrow> flow \<Rightarrow> go_error option \<times> flow" where
  "perform env r a fl =
     (case a of
        RuleActionSniff s \<Rightarrow> sniff_in_rule env s fl
      | RuleActionResolve s \<Rightarrow>
          (case actionResolve env r s (fl_Ctx fl) of (e, c) \<Rightarrow> (e, fl\<lparr>fl_Ctx := c\<rparr>))
      | _ \<Rightarrow> (None, fl))"

definition is_final :: "RuleAction \<Rightarrow> bool" where
  "is_final a \<longleftrightarrow> RuleAction_Type a \<in> {''route'', ''reject'', ''hijack-dns''}"

definition is_sniff :: "RuleAction \<Rightarrow> bool" where
  "is_sniff a \<longleftrightarrow> RuleAction_Type a = ''sniff''"

fun match_loop ::
  "('conn, 'pconn) route_env \<Rightarrow> 's router \<Rightarrow> bool \<Rightarrow> nat \<Rightarrow> route_rule list \<Rightarrow> flow \<Rightarrow> match_result \<times> flow" where
  "match_loop env r preMatch i [] fl = (MNone, fl)"
| "match_loop env r preMatch i (currentRule # rs) fl =
     (case rule_Match (re_loops env) (re_rule env) currentRule (ResetRuleCache (fl_Ctx fl)) of
        (False, c) \<Rightarrow> match_loop env r preMatch (Suc i) rs (fl\<lparr>fl_Ctx := c\<rparr>)
      | (True, c) \<Rightarrow>
          (case rule_Action currentRule of
             None \<Rightarrow> (MPanic ''nil pointer dereference'', fl\<lparr>fl_Ctx := c\<rparr>)
           | Some a \<Rightarrow>
               let fl1 = fl\<lparr>fl_Ctx := with_options env a c\<rparr> in
               if is_sniff a \<and> preMatch then (MSelected i, fl1)
               else case perform env r a fl1 of
                 (Some e, fl2) \<Rightarrow> (MFatal e, fl2)
               | (None, fl2) \<Rightarrow>
                   if is_final a then (MSelected i, fl2)
                   else match_loop env r preMatch (Suc i) rs fl2))"

definition process_FindProcessInfo ::
  "(32 word \<Rightarrow> string option) \<Rightarrow> (string \<Rightarrow> AddrPort \<Rightarrow> AddrPort \<Rightarrow> go_error + ProcessInfo) \<Rightarrow>
   string \<Rightarrow> AddrPort \<Rightarrow> AddrPort \<Rightarrow> go_error + ProcessInfo" where
  "process_FindProcessInfo lookupId searcher network source destination =
     (case searcher network source destination of
        Inl e \<Rightarrow> Inl e
      | Inr info \<Rightarrow>
          Inr (if pi_UserId info \<noteq> -1
               then (case lookupId (pi_UserId info) of Some name \<Rightarrow> info\<lparr>pi_User := name\<rparr> | None \<Rightarrow> info)
               else info))"

definition Socksaddr_AddrPort :: "Socksaddr \<Rightarrow> AddrPort" where
  "Socksaddr_AddrPort a = (sa_Addr a, sa_Port a)"

definition find_process :: "('conn, 'pconn) route_env \<Rightarrow> 's router \<Rightarrow> InboundContext \<Rightarrow> InboundContext" where
  "find_process env r c =
     (case (rt_processSearcher r, m_ProcessInfo c) of
        (Some searcher, None) \<Rightarrow>
          let originDestination =
            (if re_IsValid env (m_OriginDestination c) then Socksaddr_AddrPort (m_OriginDestination c)
             else if Socksaddr_IsIP (re_rule env) (m_Destination c) then Socksaddr_AddrPort (m_Destination c)
             else (AddrNone, 0))
          in (case process_FindProcessInfo (re_LookupId env) searcher (m_Network c)
                  (Socksaddr_AddrPort (m_Source c)) originDestination of
                Inl e \<Rightarrow> c
              | Inr info \<Rightarrow> c\<lparr>m_ProcessInfo := Some info\<rparr>)
      | _ \<Rightarrow> c)"

text \<open>The destination behind a fake address, or the domain that was looked up for the address.\<close>

definition missing_fakeip :: go_error where
  "missing_fakeip = ENew [AStr ''missing fakeip record, try enable `experimental.cache_file`'']"

definition reverse_mapping :: "('conn, 'pconn) route_env \<Rightarrow> InboundContext \<Rightarrow> InboundContext" where
  "reverse_mapping env c =
     (if m_Domain c = []
      then (case re_LookupReverseMapping env (sa_Addr (m_Destination c)) of
              Some d \<Rightarrow> c\<lparr>m_Domain := d\<rparr> | None \<Rightarrow> c)
      else c)"

definition map_destination ::
  "('conn, 'pconn) route_env \<Rightarrow> 's router \<Rightarrow> InboundContext \<Rightarrow> InboundContext res" where
  "map_destination env r c =
     (let dest = m_Destination c in
      case rt_fakeip r of
        Some (ops, store) \<Rightarrow>
          if addr_IsValid (sa_Addr dest) \<and> store_Contains store (sa_Addr dest)
          then (case store_Lookup ops store (sa_Addr dest) of
                  Ok None \<Rightarrow> Err missing_fakeip
                | Ok (Some d) \<Rightarrow>
                    Ok (if d = [] then c
                        else c\<lparr>m_OriginDestination := dest,
                          m_Destination := \<lparr>sa_Addr = AddrNone, sa_Port = sa_Port dest, sa_Fqdn = d\<rparr>,
                          m_FakeIP := True\<rparr>)
                | Err e \<Rightarrow> Err e
                | Panic s \<Rightarrow> Panic s)
          else Ok (reverse_mapping env c)
      | None \<Rightarrow> Ok (reverse_mapping env c))"

definition set_ip_version :: "('conn, 'pconn) route_env \<Rightarrow> InboundContext \<Rightarrow> InboundContext" where
  "set_ip_version env c =
     (if re_IsIPv4 env (m_Destination c) then c\<lparr>m_IPVersion := 4\<rparr>
      else if Socksaddr_IsIPv6 (re_rule env) (m_Destination c) then c\<lparr>m_IPVersion := 6\<rparr> else c)"

text \<open>The deprecated options of an inbound.\<close>

definition sniff_for_inbound ::
  "('conn, 'pconn) route_env \<Rightarrow> InboundOptions \<Rightarrow> flow \<Rightarrow> go_error option \<times> flow" where
  "sniff_for_inbound env io fl =
     (case actionSniff env \<lparr>SnifferNames = [], StreamSniffers = [], PacketSniffers = [],
         SniffTimeout = io_SniffTimeout io, OverrideDestination = io_SniffOverrideDestination io\<rparr> [] [] fl of
        (newBuffer, newPackets, fatal, fl') \<Rightarrow>
          (fatal, case newBuffer of
             Some b \<Rightarrow> fl'\<lparr>fl_Buffers := [b]\<rparr>
           | None \<Rightarrow> if newPackets \<noteq> [] then fl'\<lparr>fl_Packets := newPackets\<rparr> else fl'))"

definition inbound_options ::
  "('conn, 'pconn) route_env \<Rightarrow> 's router \<Rightarrow> bool \<Rightarrow> flow \<Rightarrow> go_error option \<times> flow" where
  "inbound_options env r preMatch fl =
     (let io = m_InboundOptions (fl_Ctx fl) in
      if io = InboundOptions_zero then (None, fl)
      else case (if \<not> preMatch \<and> io_SniffEnabled io then sniff_for_inbound env io fl else (None, fl)) of
        (Some e, fl1) \<Rightarrow> (Some e, fl1)
      | (None, fl1) \<Rightarrow>
          (case (if io_DomainStrategy io \<noteq> 0
                 then actionResolve env r \<lparr>rs_Server = [], rs_Strategy = io_DomainStrategy io,
                        rs_DisableCache = False, rs_RewriteTTL = None, rs_ClientSubnet = (AddrNone, 0)\<rparr> (fl_Ctx fl1)
                 else (None, fl_Ctx fl1)) of
             (Some e, c) \<Rightarrow> (Some e, fl1\<lparr>fl_Ctx := c\<rparr>)
           | (None, c) \<Rightarrow>
               let c1 = (if io_UDPDisableDomainUnmapping io then c\<lparr>m_UDPDisableDomainUnmapping := True\<rparr> else c)
               in (None, fl1\<lparr>fl_Ctx := c1\<lparr>m_InboundOptions := InboundOptions_zero\<rparr>\<rparr>)))"

definition matchRule ::
  "('conn, 'pconn) route_env \<Rightarrow> 's router \<Rightarrow> bool \<Rightarrow> InboundContext \<Rightarrow> read_event list option \<Rightarrow>
   packet_event list option \<Rightarrow> match_result \<times> flow" where
  "matchRule env r preMatch c conn pconn =
     (let c1 = find_process env r c;
          start = (\<lambda>c. \<lparr>fl_Ctx = c, fl_Conn = conn, fl_PacketConn = pconn, fl_Buffers = [], fl_Packets = []\<rparr>)
      in case map_destination env r c1 of
        Err e \<Rightarrow> (MFatal e, start c1)
      | Panic s \<Rightarrow> (MPanic s, start c1)
      | Ok c2 \<Rightarrow>
          (case inbound_options env r preMatch (start (set_ip_version env c2)) of
             (Some e, fl) \<Rightarrow> (MFatal e, fl)
           | (None, fl) \<Rightarrow> match_loop env r preMatch 0 (rt_rules r) fl))"

section \<open>Routing a connection\<close>

text \<open>
  What becomes of a connection: it is injected into another inbound, an error is returned, the
  DNS hijacker takes it, or an outbound does (itself or through the connection manager).
\<close>

datatype 'conn route_outcome =
    OInject obj 'conn InboundContext
  | OError go_error
  | ORejected RejectedError
  | OPanic string
  | OHijack 'conn "packet_buffer list" InboundContext
  | OHandler obj 'conn InboundContext
  | OManager obj 'conn InboundContext

definition inject ::
  "('conn, 'pconn) route_env \<Rightarrow> 's router \<Rightarrow> (obj \<Rightarrow> bool) \<Rightarrow> string \<Rightarrow> 'c \<Rightarrow> InboundContext \<Rightarrow> 'c route_outcome" where
  "inject env r injectable net conn c =
     (if m_LastInbound c = m_InboundDetour c
      then OError (ENew [AStr ''routing loop on detour: '', AStr (m_InboundDetour c)])
      else case inbound_Get (rt_endpoint r) (rt_inbound r) (m_InboundDetour c) of
        None \<Rightarrow> OError (ENew [AStr ''inbound detour not found: '', AStr (m_InboundDetour c)])
      | Some detour \<Rightarrow>
          if \<not> injectable detour
          then OError (ENew [AStr (''inbound detour is not '' @ net @ '' injectable: ''), AStr (m_InboundDetour c)])
          else OInject detour conn (c\<lparr>m_LastInbound := m_Inbound c, m_Inbound := m_InboundDetour c, m_InboundDetour := []\<rparr>))"

fun set_action :: "'act \<Rightarrow> 'act rule \<Rightarrow> 'act rule" where
  "set_action a (DefaultRule r) = DefaultRule (r\<lparr>action := a\<rparr>)"
| "set_action a (LogicalRule rs md neg _) = LogicalRule rs md neg a"

text \<open>\<open>action.Error(ctx)\<close> of a \<open>reject\<close> rule counts the rejection in the action of the rule.\<close>

definition reject_at ::
  "('conn, 'pconn) route_env \<Rightarrow> int \<Rightarrow> nat \<Rightarrow> RuleActionReject \<Rightarrow> 's router \<Rightarrow> 'c route_outcome \<times> 's router" where
  "reject_at env now i a r =
     (case RuleActionReject_Error (re_Filter env) now a of (res, a') \<Rightarrow>
        (case res of Ok e \<Rightarrow> ORejected e | Err e \<Rightarrow> OError e | Panic s \<Rightarrow> OPanic s,
         r\<lparr>rt_rules := (rt_rules r)[i := set_action (Some (RuleActionReject a')) (rt_rules r ! i)]\<rparr>))"

definition selected_action :: "'s router \<Rightarrow> match_result \<Rightarrow> RuleAction option" where
  "selected_action r m = (case m of MSelected i \<Rightarrow> rule_Action (rt_rules r ! i) | _ \<Rightarrow> None)"

definition supported ::
  "('conn, 'pconn) route_env \<Rightarrow> string \<Rightarrow> string \<Rightarrow> string \<Rightarrow> obj \<Rightarrow> (obj \<Rightarrow> 'c route_outcome) \<Rightarrow> 'c route_outcome" where
  "supported env network name what x k =
     (if network \<in> set (re_Network env x) then k x
      else OError (ENew [AStr (name @ '' is not supported by '' @ what @ '': ''), AStr (obj_tag x)]))"

text \<open>
  The outbound: the one the selected \<open>route\<close> rule names, or the default one when no rule was
  selected.  A rule with another action that is not handled before leaves the outbound nil.
\<close>

definition choose_outbound ::
  "('conn, 'pconn) route_env \<Rightarrow> 's router \<Rightarrow> string \<Rightarrow> string \<Rightarrow> string \<Rightarrow> RuleAction option \<Rightarrow>
   (obj \<Rightarrow> 'c route_outcome) \<Rightarrow> 'c route_outcome" where
  "choose_outbound env r network name what a k =
     (case a of
        None \<Rightarrow>
          (case outbound_Default (rt_outbound r) of
             None \<Rightarrow> OPanic ''nil pointer dereference''
           | Some d \<Rightarrow> supported env network name what d k)
      | Some (RuleActionRoute tag ro) \<Rightarrow>
          (case outbound_Outbound (rt_endpoint r) (rt_outbound r) tag of
             None \<Rightarrow> OError (ENew [AStr ''outbound not found: '', AStr tag])
           | Some x \<Rightarrow> supported env network name ''outbound'' x k)
      | _ \<Rightarrow> OPanic ''nil pointer dereference'')"

definition selected_index :: "match_result \<Rightarrow> nat option" where
  "selected_index m = (case m of MSelected i \<Rightarrow> Some i | _ \<Rightarrow> None)"

definition global_multiplex :: "('conn, 'pconn) route_env \<Rightarrow> string \<Rightarrow> go_error option" where
  "global_multiplex env fqdn =
     (if fqdn = re_mux_Fqdn env
      then Some (ENew [AStr ''global multiplex is deprecated since sing-box v1.7.0, enable multiplex in Inbound fields instead.''])
      else if fqdn = re_vmess_MuxFqdn env
      then Some (ENew [AStr ''global multiplex (v2ray legacy) not supported since sing-box v1.7.0.''])
      else if fqdn = re_uot_MagicAddress env
      then Some (ENew [AStr ''global UoT not supported since sing-box v1.7.0.''])
      else if fqdn = re_uot_LegacyMagicAddress env
      then Some (ENew [AStr ''global UoT (legacy) not supported since sing-box v1.7.0.''])
      else None)"

definition cached_conn :: "('conn, 'pconn) route_env \<Rightarrow> flow \<Rightarrow> 'conn" where
  "cached_conn env fl =
     foldl (re_NewCachedConn env) (re_Conn env (case fl_Conn fl of Some evs \<Rightarrow> evs | None \<Rightarrow> [])) (fl_Buffers fl)"

definition routeConnection ::
  "('conn, 'pconn) route_env \<Rightarrow> int \<Rightarrow> 's router \<Rightarrow> read_event list \<Rightarrow> InboundContext \<Rightarrow>
   'conn route_outcome \<times> 's router" where
  "routeConnection env now r conn c =
     (if m_InboundDetour c \<noteq> [] then (inject env r (re_TCPInjectable env) ''TCP'' (re_Conn env conn) c, r)
      else
        let c1 = c\<lparr>m_Network := ''tcp''\<rparr> in
        case global_multiplex env (sa_Fqdn (m_Destination c1)) of
          Some e \<Rightarrow> (OError e, r)
        | None \<Rightarrow>
            (case matchRule env r False c1 (Some conn) None of
               (MFatal e, fl) \<Rightarrow> (OError e, r)
             | (MPanic s, fl) \<Rightarrow> (OPanic s, r)
             | (m, fl) \<Rightarrow>
                 (case selected_action r m of
                    Some (RuleActionReject a) \<Rightarrow> reject_at env now (the (selected_index m)) a r
                  | Some RuleActionHijackDNS \<Rightarrow> (OHijack (cached_conn env fl) [] (fl_Ctx fl), r)
                  | a \<Rightarrow>
                      (choose_outbound env r ''tcp'' ''TCP'' ''default outbound'' a
                         (\<lambda>x. let conn' = foldl (\<lambda>cn t. t cn (fl_Ctx fl) (selected_index m) x)
                                            (cached_conn env fl) (re_trackers env)
                              in if re_ConnectionHandler env x then OHandler x conn' (fl_Ctx fl)
                                 else OManager x conn' (fl_Ctx fl)), r))))"

definition cached_packet_conn :: "('conn, 'pconn) route_env \<Rightarrow> flow \<Rightarrow> 'pconn" where
  "cached_packet_conn env fl =
     foldl (re_NewCachedPacketConn env)
       (re_PacketConn env (case fl_PacketConn fl of Some evs \<Rightarrow> evs | None \<Rightarrow> [])) (fl_Packets fl)"

definition routePacketConnection ::
  "('conn, 'pconn) route_env \<Rightarrow> int \<Rightarrow> 's router \<Rightarrow> packet_event list \<Rightarrow> InboundContext \<Rightarrow>
   'pconn route_outcome \<times> 's router" where
  "routePacketConnection env now r conn c =
     (if m_InboundDetour c \<noteq> [] then (inject env r (re_UDPInjectable env) ''UDP'' (re_PacketConn env conn) c, r)
      else
        (case matchRule env r False (c\<lparr>m_Network := ''udp''\<rparr>) None (Some conn) of
           (MFatal e, fl) \<Rightarrow> (OError e, r)
         | (MPanic s, fl) \<Rightarrow> (OPanic s, r)
         | (m, fl) \<Rightarrow>
             (case selected_action r m of
                Some (RuleActionReject a) \<Rightarrow> reject_at env now (the (selected_index m)) a r
              | Some RuleActionHijackDNS \<Rightarrow>
                  (OHijack (re_PacketConn env (case fl_PacketConn fl of Some evs \<Rightarrow> evs | None \<Rightarrow> []))
                     (fl_Packets fl) (fl_Ctx fl), r)
              | a \<Rightarrow>
                  (choose_outbound env r ''udp'' ''UDP'' ''outbound'' a
                     (\<lambda>x. let ctx = fl_Ctx fl;
                              conn1 = foldl (\<lambda>cn t. t cn ctx (selected_index m) x)
                                        (cached_packet_conn env fl) (re_packet_trackers env);
                              conn2 = (if m_FakeIP ctx
                                then re_NewNATPacketConn env conn1 (m_OriginDestination ctx) (m_Destination ctx)
                                else conn1)
                          in if re_PacketHandler env x then OHandler x conn2 ctx else OManager x conn2 ctx), r))))"

definition PreMatch ::
  "('conn, 'pconn) route_env \<Rightarrow> int \<Rightarrow> 's router \<Rightarrow> InboundContext \<Rightarrow> unit route_outcome option \<times> 's router" where
  "PreMatch env now r c =
     (case matchRule env r True c None None of
        (MFatal e, _) \<Rightarrow> (Some (OError e), r)
      | (MPanic s, _) \<Rightarrow> (Some (OPanic s), r)
      | (m, _) \<Rightarrow>
          (case selected_action r m of
             Some (RuleActionReject a) \<Rightarrow>
               (case reject_at env now (the (selected_index m)) a r of (x, r') \<Rightarrow> (Some x, r'))
           | _ \<Rightarrow> (None, r)))"

section \<open>The selected rule\<close>

lemma match_loop_selected:
  "match_loop env r pre i rs fl = (MSelected j, fl') \<Longrightarrow>
   \<exists>k a. j = i + k \<and> k < length rs \<and> rule_Action (rs ! k) = Some a \<and> (is_final a \<or> pre \<and> is_sniff a)"
proof (induction rs arbitrary: i fl)
  case (Cons R rs)
  have shift: "?case" if "match_loop env r pre (Suc i) rs fl1 = (MSelected j, fl')" for fl1
    using Cons.IH [OF that] by (elim exE conjE, intro exI [of _ "Suc k" for k] exI conjI) auto
  obtain m c where m: "rule_Match (re_loops env) (re_rule env) R (ResetRuleCache (fl_Ctx fl)) = (m, c)"
    by fastforce
  show ?case
  proof (cases m)
    case False
    then show ?thesis using Cons.prems shift by (simp add: m)
  next
    case True
    then obtain a where a: "rule_Action R = Some a" using Cons.prems by (auto simp: m split: option.splits)
    show ?thesis
    proof (cases "is_final a \<or> pre \<and> is_sniff a")
      case T: True
      moreover have "j = i"
        using Cons.prems True a T by (auto simp: m Let_def split: if_splits prod.splits option.splits)
      ultimately show ?thesis using a by (auto intro!: exI [of _ 0])
    next
      case False
      then show ?thesis using Cons.prems True a shift
        by (auto simp: m Let_def split: prod.splits option.splits)
    qed
  qed
qed simp

text \<open>
  The reference: the first rule, in order, whose formula holds and whose action ends the search,
  where the route options of the matching rules before it have been applied to the metadata.
  Match flags, connections and buffers do not occur in it.
\<close>

fun select_rule ::
  "('conn, 'pconn) route_env \<Rightarrow> nat \<Rightarrow> route_rule list \<Rightarrow> InboundContext \<Rightarrow> match_result \<times> InboundContext" where
  "select_rule env i [] c = (MNone, c)"
| "select_rule env i (R # rs) c =
     (if tree_formula (\<lambda>r. default_formula (re_rule env) r c) R
      then (case rule_Action R of
              None \<Rightarrow> (MPanic ''nil pointer dereference'', c)
            | Some a \<Rightarrow> if is_final a then (MSelected i, with_options env a c)
                else select_rule env (Suc i) rs (with_options env a c))
      else select_rule env (Suc i) rs c)"

definition plain_route_rule :: "route_rule \<Rightarrow> bool" where
  "plain_route_rule R \<longleftrightarrow> leaves (\<lambda>r. plain_rule r \<and> wf_rule r) R \<and>
     (\<forall>a. rule_Action R = Some a \<longrightarrow> RuleAction_Type a \<notin> {''sniff'', ''resolve''})"

lemma fold_commutes: "(\<And>f c. f \<in> set fs \<Longrightarrow> g (f c) = f (g c)) \<Longrightarrow> g (fold (\<lambda>f. f) fs c) = fold (\<lambda>f. f) fs (g c)"
  by (induction fs arbitrary: c) auto

lemma Reset_options: "f \<in> set (option_updates env ro) \<Longrightarrow> ResetRuleCache (f c) = f (ResetRuleCache c)"
  by (auto simp: option_updates_def only_if_def ResetRuleCache_def)

lemma Reset_with_options: "ResetRuleCache (with_options env a c) = with_options env a (ResetRuleCache c)"
  by (simp add: with_options_def apply_route_options_def fold_commutes [OF Reset_options] split: option.split)

lemma perform_plain: "RuleAction_Type a \<notin> {''sniff'', ''resolve''} \<Longrightarrow> perform env r a fl = (None, fl)"
  by (cases a) (simp_all add: perform_def)

lemma match_loop_reference:
  assumes "loops_ok (re_loops env)"
  shows "list_all plain_route_rule rs \<Longrightarrow>
    \<exists>fl'. match_loop env r pre i rs fl = (fst (select_rule env i rs (ResetRuleCache (fl_Ctx fl))), fl') \<and>
      ResetRuleCache (fl_Ctx fl') = snd (select_rule env i rs (ResetRuleCache (fl_Ctx fl))) \<and>
      fl' = fl\<lparr>fl_Ctx := fl_Ctx fl'\<rparr>"
proof (induction rs arbitrary: i fl)
  case (Cons R rs)
  let ?c = "ResetRuleCache (fl_Ctx fl)"
  obtain m c where m: "rule_Match (re_loops env) (re_rule env) R ?c = (m, c)" by fastforce
  from Cons.prems have R: "plain_route_rule R" and rs: "list_all plain_route_rule rs" by simp_all
  note d = tree_decision [OF assms, of R "re_rule env" "fl_Ctx fl"]
  from R d m have f: "m = tree_formula (\<lambda>r. default_formula (re_rule env) r ?c) R" and k: "ResetRuleCache c = ?c"
    by (simp_all add: plain_route_rule_def)
  show ?case
  proof (cases "m \<and> rule_Action R \<noteq> None")
    case False
    then show ?thesis using f k Cons.IH [OF rs, of "Suc i" "fl\<lparr>fl_Ctx := c\<rparr>"]
      by (cases m) (auto simp: m k intro: exI [of _ "fl\<lparr>fl_Ctx := c\<rparr>"])
  next
    case True
    then obtain a where a: "rule_Action R = Some a" by blast
    with R have na: "RuleAction_Type a \<notin> {''sniff'', ''resolve''}" by (simp add: plain_route_rule_def)
    then have ns: "\<not> is_sniff a" by (simp add: is_sniff_def)
    let ?fl = "fl\<lparr>fl_Ctx := with_options env a c\<rparr>"
    have k': "ResetRuleCache (fl_Ctx ?fl) = with_options env a ?c" by (simp add: Reset_with_options k)
    have step: "match_loop env r pre i (R # rs) fl =
        (if is_final a then (MSelected i, ?fl) else match_loop env r pre (Suc i) rs ?fl)"
      using True by (simp add: m a ns perform_plain [OF na])
    show ?thesis using True f a k' Cons.IH [OF rs, of "Suc i" ?fl]
      by (cases "is_final a") (auto simp only: step, auto)
  qed
qed (auto intro: exI [of _ fl for fl])

end
