(* ===== verification/Route_Properties.thy ===== *)
theory Route_Properties
  imports Route_Exec
begin

text \<open>
  What routing guarantees: which rule is selected, which bytes the outbound reads, where a
  connection to a fake address goes; and what goes wrong when two rules sniff.
\<close>

section \<open>Selection\<close>

lemma find_process_options [simp]: "m_InboundOptions (find_process env r c) = m_InboundOptions c"
  by (simp add: find_process_def Let_def split: option.split prod.split sum.split)

lemma reverse_mapping_options [simp]: "m_InboundOptions (reverse_mapping env c) = m_InboundOptions c"
  by (simp add: reverse_mapping_def split: option.split)

lemma map_destination_options: "map_destination env r c = Ok c' \<Longrightarrow> m_InboundOptions c' = m_InboundOptions c"
  by (auto simp: map_destination_def Let_def split: option.splits prod.splits if_splits res.splits)

lemma set_ip_version_options [simp]: "m_InboundOptions (set_ip_version env c) = m_InboundOptions c"
  by (simp add: set_ip_version_def)


section \<open>The bytes of a stream\<close>

definition flow_data :: "flow \<Rightarrow> string" where
  "flow_data fl = concat (fl_Buffers fl) @ (case fl_Conn fl of Some evs \<Rightarrow> conn_data evs | None \<Rightarrow> [])"

definition is_sniff_rule :: "route_rule \<Rightarrow> bool" where
  "is_sniff_rule R = (case rule_Action R of Some a \<Rightarrow> is_sniff a | None \<Rightarrow> False)"

lemma actionSniff_stream:
  assumes "actionSniff env a bs ps fl = (b, ps', fatal, fl')" and "fl_Conn fl = Some evs"
  shows "fl_Buffers fl' = fl_Buffers fl \<and>
    (\<exists>evs'. fl_Conn fl' = Some evs' \<and> (case b of Some d \<Rightarrow> d | None \<Rightarrow> []) @ conn_data evs' = conn_data evs) \<and>
    (b = None \<longrightarrow> ps' = [])"
proof (cases "sniff_Skip (fl_Ctx fl) \<or> m_Protocol (fl_Ctx fl) \<noteq> [] \<or>
    StreamSniffers a = [] \<and> PacketSniffers a \<noteq> [] \<or> previous_error a (fl_Ctx fl)")
  case True
  then show ?thesis using assms by (auto simp: actionSniff_def sniff_stream_def Let_def split: if_splits)
next
  case False
  obtain err c1 buffer rest where
    p: "PeekStream (re_sniff env) (fl_Ctx fl) evs bs [] (stream_sniffers (re_sniff env) a) = (err, c1, buffer, rest)"
    by (metis prod_cases4)
  from False assms PeekStream_keeps_data [OF p] show ?thesis
    by (auto simp: actionSniff_def sniff_stream_def p Let_def)
qed

lemma sniff_in_rule_keeps:
  assumes "sniff_in_rule env a fl = (fatal, fl')" and "fl_Conn fl = Some evs"
  shows "flow_data fl' = flow_data fl \<and> fl_Conn fl' \<noteq> None \<and> length (fl_Buffers fl') \<le> Suc (length (fl_Buffers fl))"
proof -
  obtain b ps f fl1 where s: "actionSniff env a (fl_Buffers fl) (fl_Packets fl) fl = (b, ps, f, fl1)"
    by (metis prod_cases4)
  note k = actionSniff_stream [OF s assms(2)]
  from assms(1) k show ?thesis
    by (cases b) (auto simp: sniff_in_rule_def s flow_data_def assms(2))
qed

lemma perform_keeps:
  assumes "perform env r a fl = (fatal, fl')" and "fl_Conn fl = Some evs"
  shows "flow_data fl' = flow_data fl \<and> fl_Conn fl' \<noteq> None \<and>
    length (fl_Buffers fl') \<le> length (fl_Buffers fl) + (if is_sniff a then 1 else 0)"
  using assms sniff_in_rule_keeps
  by (cases a) (fastforce simp: perform_def is_sniff_def flow_data_def split: prod.splits)+

lemma match_loop_keeps:
  "match_loop env r False i rs fl = (m, fl') \<Longrightarrow> fl_Conn fl \<noteq> None \<Longrightarrow>
   flow_data fl' = flow_data fl \<and> fl_Conn fl' \<noteq> None \<and>
   length (fl_Buffers fl') \<le> length (fl_Buffers fl) + length (filter is_sniff_rule rs)"
proof (induction rs arbitrary: i fl)
  case (Cons R rs)
  have ctx: "flow_data (fl\<lparr>fl_Ctx := c\<rparr>) = flow_data fl" for c by (simp add: flow_data_def)
  obtain b c where b: "rule_Match (re_loops env) (re_rule env) R (ResetRuleCache (fl_Ctx fl)) = (b, c)"
    by fastforce
  show ?case
  proof (cases "b \<and> rule_Action R \<noteq> None")
    case False
    then show ?thesis using Cons.prems Cons.IH [of "Suc i" "fl\<lparr>fl_Ctx := c\<rparr>"]
      by (cases b) (auto simp: b ctx)
  next
    case True
    then obtain a where a: "rule_Action R = Some a" by blast
    obtain f fl2 where p: "perform env r a (fl\<lparr>fl_Ctx := with_options env a c\<rparr>) = (f, fl2)" by fastforce
    from perform_keeps [OF p] Cons.prems(2) have k: "flow_data fl2 = flow_data fl" "fl_Conn fl2 \<noteq> None"
      "length (fl_Buffers fl2) \<le> length (fl_Buffers fl) + (if is_sniff a then 1 else 0)"
      by (auto simp: ctx)
    show ?thesis using Cons.prems True k Cons.IH [of "Suc i" fl2]
      by (cases f) (auto simp: b a p is_sniff_rule_def split: if_splits)
  qed
qed simp

lemma inbound_options_keeps:
  assumes "inbound_options env r False fl = (f, fl')" and "fl_Conn fl = Some evs" and "fl_Buffers fl = []"
  shows "flow_data fl' = flow_data fl \<and> fl_Conn fl' \<noteq> None \<and>
    length (fl_Buffers fl') \<le> (if io_SniffEnabled (m_InboundOptions (fl_Ctx fl)) then 1 else 0)"
proof -
  let ?io = "m_InboundOptions (fl_Ctx fl)"
  define s where "s = (if io_SniffEnabled ?io then sniff_for_inbound env ?io fl else (None, fl))"
  obtain f1 fl1 where f1: "s = (f1, fl1)" by fastforce
  have k: "flow_data fl1 = flow_data fl \<and> fl_Conn fl1 \<noteq> None \<and>
      length (fl_Buffers fl1) \<le> (if io_SniffEnabled ?io then 1 else 0)"
  proof (cases "io_SniffEnabled ?io")
    case True
    let ?a = "\<lparr>SnifferNames = [], StreamSniffers = [], PacketSniffers = [],
       SniffTimeout = io_SniffTimeout ?io, OverrideDestination = io_SniffOverrideDestination ?io\<rparr>"
    obtain b ps f' fl0 where a: "actionSniff env ?a [] [] fl = (b, ps, f', fl0)" by (metis prod_cases4)
    from f1 True actionSniff_stream [OF a assms(2)] show ?thesis
      by (cases b) (auto simp: s_def sniff_for_inbound_def a flow_data_def assms)
  qed (use f1 assms in \<open>simp_all add: s_def\<close>)
  have ctx: "flow_data (fl1\<lparr>fl_Ctx := c\<rparr>) = flow_data fl1" for c by (simp add: flow_data_def)
  from assms k ctx show ?thesis
    by (auto simp: inbound_options_def Let_def f1 [unfolded s_def] split: if_splits option.splits prod.splits)
qed

lemma matchRule_keeps:
  assumes "matchRule env r False c (Some conn) None = (m, fl)"
  shows "flow_data fl = conn_data conn \<and> fl_Conn fl \<noteq> None \<and>
    length (fl_Buffers fl) \<le> (if io_SniffEnabled (m_InboundOptions c) then 1 else 0) +
      length (filter is_sniff_rule (rt_rules r))"
proof (cases "map_destination env r (find_process env r c)")
  case (Ok c2)
  let ?fl = "\<lparr>fl_Ctx = set_ip_version env c2, fl_Conn = Some conn, fl_PacketConn = None, fl_Buffers = [], fl_Packets = []\<rparr>"
  obtain f fl1 where i: "inbound_options env r False ?fl = (f, fl1)" by fastforce
  note k = inbound_options_keeps [OF i, of conn]
  have io: "m_InboundOptions (fl_Ctx ?fl) = m_InboundOptions c"
    using map_destination_options [OF Ok] by simp
  have start: "flow_data ?fl = conn_data conn" by (simp add: flow_data_def)
  have i': "inbound_options env r False (?fl\<lparr>fl_Ctx := set_ip_version env c2\<rparr>) = (f, fl1)" using i by simp
  show ?thesis
  proof (cases f)
    case None
    then have "match_loop env r False 0 (rt_rules r) fl1 = (m, fl)" using assms Ok i by (simp add: matchRule_def)
    from match_loop_keeps [OF this] k io start show ?thesis by simp
  next
    case (Some e)
    then have "fl = fl1" using assms Ok i by (simp add: matchRule_def)
    then show ?thesis using k io start by simp
  qed
qed (use assms in \<open>auto simp: matchRule_def flow_data_def\<close>)

text \<open>What the router relies on: a cached connection yields the buffer first and then the rest.\<close>

definition conn_ok :: "('conn, 'pconn) route_env \<Rightarrow> ('conn \<Rightarrow> string) \<Rightarrow> bool" where
  "conn_ok env reads \<longleftrightarrow>
     (\<forall>evs. reads (re_Conn env evs) = conn_data evs) \<and>
     (\<forall>cn b. reads (re_NewCachedConn env cn b) = b @ reads cn) \<and>
     (\<forall>t \<in> set (re_trackers env). \<forall>cn c i x. reads (t cn c i x) = reads cn)"

lemma cached_fold_reads:
  "conn_ok env reads \<Longrightarrow> reads (foldl (re_NewCachedConn env) cn bs) = concat (rev bs) @ reads cn"
  by (induction bs arbitrary: cn) (simp_all add: conn_ok_def)

lemma tracker_fold_reads:
  "\<forall>t \<in> set ts. \<forall>cn c i x. reads (t cn c i x) = reads cn \<Longrightarrow>
   reads (foldl (\<lambda>cn t. t cn c i x) cn ts) = reads cn"
  by (induction ts arbitrary: cn) simp_all

lemma cached_conn_reads:
  "conn_ok env reads \<Longrightarrow> fl_Conn fl = Some evs \<Longrightarrow>
   reads (cached_conn env fl) = concat (rev (fl_Buffers fl)) @ conn_data evs"
  by (simp add: cached_conn_def cached_fold_reads) (simp add: conn_ok_def)

fun outcome_conn :: "'conn route_outcome \<Rightarrow> 'conn option" where
  "outcome_conn (OInject _ cn _) = Some cn"
| "outcome_conn (OHijack cn _ _) = Some cn"
| "outcome_conn (OHandler _ cn _) = Some cn"
| "outcome_conn (OManager _ cn _) = Some cn"
| "outcome_conn _ = None"

text \<open>The outbound gets what the hijacker would: the cached connection, possibly tracked.\<close>

lemma choose_outbound_conn:
  "outcome_conn (choose_outbound env r network name what a k) = Some cn \<Longrightarrow> \<exists>x. outcome_conn (k x) = Some cn"
  by (auto simp: choose_outbound_def supported_def split: option.splits RuleAction.splits if_splits)

lemma reject_at_conn: "outcome_conn (fst (reject_at env now i a r)) = None"
  by (simp add: reject_at_def split: prod.split res.split)

lemma routeConnection_conn:
  assumes ok: "conn_ok env reads" and det: "m_InboundDetour c = []"
    and out: "outcome_conn (fst (routeConnection env now r conn c)) = Some cn"
  shows "\<exists>m fl evs. matchRule env r False (c\<lparr>m_Network := ''tcp''\<rparr>) (Some conn) None = (m, fl) \<and>
    fl_Conn fl = Some evs \<and> reads cn = concat (rev (fl_Buffers fl)) @ conn_data evs"
proof -
  let ?c = "c\<lparr>m_Network := ''tcp''\<rparr>"
  obtain m fl where m: "matchRule env r False ?c (Some conn) None = (m, fl)" by fastforce
  from matchRule_keeps [OF m] obtain evs where evs: "fl_Conn fl = Some evs" by blast
  define k where "k = (\<lambda>x. let conn' = foldl (\<lambda>cn t. t cn (fl_Ctx fl) (selected_index m) x)
                                            (cached_conn env fl) (re_trackers env)
                              in if re_ConnectionHandler env x then OHandler x conn' (fl_Ctx fl)
                                 else OManager x conn' (fl_Ctx fl))"
  have "reads (foldl (\<lambda>cn t. t cn (fl_Ctx fl) i x) (cached_conn env fl) (re_trackers env)) = reads (cached_conn env fl)"
    for i x using ok by (intro tracker_fold_reads) (simp add: conn_ok_def)
  then have k: "outcome_conn (k x) = Some cn \<Longrightarrow> reads cn = reads (cached_conn env fl)" for x
    by (auto simp: k_def Let_def split: if_splits)
  from out det m have "cn = cached_conn env fl \<or>
      outcome_conn (choose_outbound env r ''tcp'' ''TCP'' ''default outbound'' (selected_action r m) k) = Some cn"
    by (auto simp: routeConnection_def Let_def reject_at_conn k_def split: option.splits match_result.splits RuleAction.splits)
  then have "reads cn = reads (cached_conn env fl)" using k choose_outbound_conn by metis
  then show ?thesis using m evs cached_conn_reads [OF ok evs] by auto
qed

text \<open>
  C2: When at most one rule or inbound option sniffs, whoever gets a stream from the router reads
  exactly the bytes the client sent, in order, whatever the sniffers consumed.
\<close>

theorem routeConnection_bytes:
  assumes "conn_ok env reads"
    and "length (filter is_sniff_rule (rt_rules r)) + (if io_SniffEnabled (m_InboundOptions c) then 1 else 0) \<le> 1"
    and "outcome_conn (fst (routeConnection env now r conn c)) = Some cn"
  shows "reads cn = conn_data conn"
proof (cases "m_InboundDetour c = []")
  case True
  from routeConnection_conn [OF assms(1) True assms(3)] obtain m fl evs where
    m: "matchRule env r False (c\<lparr>m_Network := ''tcp''\<rparr>) (Some conn) None = (m, fl)" and
    e: "fl_Conn fl = Some evs" "reads cn = concat (rev (fl_Buffers fl)) @ conn_data evs" by blast
  from matchRule_keeps [OF m] assms(2) e(1) have d: "concat (fl_Buffers fl) @ conn_data evs = conn_data conn"
    and l: "length (fl_Buffers fl) \<le> 1" by (auto simp: flow_data_def)
  from l have "rev (fl_Buffers fl) = fl_Buffers fl" by (cases "fl_Buffers fl") auto
  with d e(2) show ?thesis by simp
next
  case False
  with assms(1,3) show ?thesis
    by (auto simp: routeConnection_def inject_def conn_ok_def split: if_splits option.splits)
qed

section \<open>Examples\<close>

text \<open>A connection is what can be read from it.\<close>

fun packets_of :: "packet_event list \<Rightarrow> packet_buffer list" where
  "packets_of [] = []"
| "packets_of (PPacket p # evs) = p # packets_of evs"
| "packets_of (_ # evs) = packets_of evs"

definition demo_route_env :: "(string, packet_buffer list) route_env" where
  "demo_route_env = \<lparr>re_loops = loops_ref, re_rule = demo_rule_env, re_sniff = demo_sniff_env,
     re_IsValid = (\<lambda>a. sa_Addr a \<noteq> AddrNone \<or> sa_Fqdn a \<noteq> []),
     re_IsIPv4 = (\<lambda>a. addr_Is4 (sa_Addr a)), re_IsFqdn = (\<lambda>a. sa_Fqdn a \<noteq> []), re_IsDomainName = (\<lambda>s. s \<noteq> []),
     re_LookupId = (\<lambda>_. None), re_LookupReverseMapping = (\<lambda>_. None), re_Lookup = (\<lambda>_ _ _. Inl ErrInvalid),
     re_Network = (\<lambda>_. [''tcp'', ''udp'']), re_TCPInjectable = (\<lambda>_. False), re_UDPInjectable = (\<lambda>_. False),
     re_ConnectionHandler = (\<lambda>_. False), re_PacketHandler = (\<lambda>_. False),
     re_mux_Fqdn = ''sp.mux.sing-box.arpa'', re_vmess_MuxFqdn = ''v1.mux.cool'',
     re_uot_MagicAddress = ''sp.v2.udp-over-tcp.arpa'', re_uot_LegacyMagicAddress = ''sp.udp-over-tcp.arpa'',
     re_Conn = conn_data, re_PacketConn = packets_of, re_NewCachedConn = (\<lambda>cn b. b @ cn),
     re_NewCachedPacketConn = (\<lambda>cn p. p # cn), re_NewNATPacketConn = (\<lambda>cn _ _. cn),
     re_trackers = [], re_packet_trackers = [], re_Filter = filter\<rparr>"

lemma demo_route_env_ok: "conn_ok demo_route_env id"
  by (simp add: conn_ok_def demo_route_env_def)

text \<open>A rule for a destination port, and one without conditions.\<close>

definition demo_rule :: "16 word \<Rightarrow> RuleAction \<Rightarrow> route_rule" where
  "demo_rule dp a = DefaultRule \<lparr>items = [], sourceAddressItems = [], sourcePortItems = [],
     destinationAddressItems = [], destinationIPCIDRItems = [],
     destinationPortItems = [IPort (NewPortItem False [dp])],
     allItems = [IPort (NewPortItem False [dp])], invert = False, action = Some a\<rparr>"

definition demo_any :: "RuleAction \<Rightarrow> route_rule" where
  "demo_any a = DefaultRule \<lparr>items = [], sourceAddressItems = [], sourcePortItems = [],
     destinationAddressItems = [], destinationIPCIDRItems = [], destinationPortItems = [],
     allItems = [], invert = False, action = Some a\<rparr>"

definition demo_options :: RuleActionRouteOptions where
  "demo_options = \<lparr>OverrideAddress = Socksaddr_zero, OverridePort = 8443, NetworkStrategy = None,
     NetworkType = [], FallbackNetworkType = [], FallbackDelay = 0, UDPDisableDomainUnmapping = False,
     UDPConnect = False, UDPTimeout = 0, TLSFragment = False, TLSFragmentFallbackDelay = 0,
     TLSRecordFragment = False\<rparr>"

definition demo_router :: "route_rule list \<Rightarrow> (MemoryStorage + btree CacheFile) router" where
  "demo_router rs = \<lparr>rt_inbound = new_manager, rt_endpoint = new_manager,
     rt_outbound = (outbound_NewManager [])\<lparr>byTag := [''a'' \<mapsto> demo_obj 1 ''a'']\<rparr>,
     rt_dnsTransport = transport_NewManager [], rt_fakeip = None, rt_processSearcher = None, rt_rules = rs\<rparr>"

lemmas demo_route_defs = demo_route_env_def demo_router_def demo_rule_def demo_any_def demo_options_def


text \<open>Sniffers that look for one protocol.\<close>

definition demo_sniff :: "StreamSniffer \<Rightarrow> string \<Rightarrow> RuleAction" where
  "demo_sniff s name = RuleActionSniff \<lparr>SnifferNames = [name], StreamSniffers = [s], PacketSniffers = [],
     SniffTimeout = 0, OverrideDestination = False\<rparr>"

lemmas demo_run = matchRule_def find_process_def map_destination_def reverse_mapping_def set_ip_version_def
  inbound_options_def abstractDefaultRule_Match_def demo_sniff_def is_sniff_def is_final_def with_options_def
  perform_def sniff_in_rule_def actionSniff_def sniff_stream_def PeekStream_def stream_sniffers_def
  sniff_Skip_def previous_error_def sniff_SSH_def sniff_RDP_def rdp_header_def ssh_prefix_def get_uint_def
  expect_def be_value_def Let_def

lemmas demo_outcome = routeConnection_def global_multiplex_def demo_route_defs demo_run demo_ctx_def addr_Is4_def
  ResetRuleCache_def demo_rule_env_def demo_sniff_env_def need_more_def ErrNeedMoreData_def
  apply_route_options_def option_updates_def only_if_def Socksaddr_zero_def
  selected_action_def choose_outbound_def supported_def outbound_Outbound_def selected_index_def
  cached_conn_def outbound_NewManager_def InboundOptions_zero_def demo_obj_def

lemma routed_after_sniff:
  "outcome_conn (fst (routeConnection demo_route_env 0
     (demo_router [demo_any (demo_sniff SSH ''ssh''), demo_any (RuleActionRoute ''a'' demo_options)])
     [RRead ''GET'' None, RRead '' / '' None] (demo_ctx 1000 80))) = Some ''GET / ''"
  by (simp add: demo_outcome)

theorem routeConnection_bytes_witness:
  "id ''GET / '' = conn_data [RRead ''GET'' None, RRead '' / '' None]"
  using routeConnection_bytes [OF demo_route_env_ok _ routed_after_sniff]
  by (simp add: demo_router_def demo_any_def is_sniff_rule_def is_sniff_def demo_sniff_def demo_ctx_def
      InboundOptions_zero_def)

text \<open>
  With two rules that sniff, both of which read, the buffers are put in front of the connection
  one after the other, so the second one is read first: the outbound gets the bytes of the client
  in another order.
\<close>

lemma two_sniffs_reorder:
  "outcome_conn (fst (routeConnection demo_route_env 0
     (demo_router [demo_any (demo_sniff SSH ''ssh''), demo_any (demo_sniff RDP ''rdp''),
        demo_any (RuleActionRoute ''a'' demo_options)])
     [RRead ''GET'' None, RRead '' / '' None, RRead ''HTTP'' None] (demo_ctx 1000 80))) = Some '' / GETHTTP''"
  by (simp add: demo_outcome)

section \<open>Packets\<close>

lemma sniff_read_extends:
  "sniff_read env a evs ps c = (ps', x, c', evs') \<Longrightarrow> \<exists>new. ps' = ps @ new"
  by (induction env a evs ps c rule: sniff_read.induct) (fastforce split: prod.splits if_splits)+

text \<open>
  A second rule that sniffs a packet connection, when the packets read by the first one did not
  suffice, adds all packets that were read before a second time.
\<close>

lemma second_sniff_duplicates:
  assumes "fl_Conn fl = None" and "fl_PacketConn fl = Some evs" and "\<not> sniff_Skip (fl_Ctx fl)"
    and "m_Protocol (fl_Ctx fl) = []" and "PacketSniffers a \<noteq> [] \<or> StreamSniffers a = []"
    and "need_more (m_SniffError (fl_Ctx fl))" and "fl_Packets fl \<noteq> []"
    and "sniff_cached (re_sniff env) a (fl_Packets fl) (fl_Ctx fl) = (None, c1)"
    and "sniff_in_rule env a fl = (fatal, fl')"
  shows "\<exists>new. fl_Packets fl' = fl_Packets fl @ fl_Packets fl @ new"
proof -
  obtain ps x c2 rest where r: "sniff_read (re_sniff env) a evs (fl_Packets fl) c1 = (ps, x, c2, rest)"
    by (metis prod_cases4)
  from sniff_read_extends [OF r] obtain new where new: "ps = fl_Packets fl @ new" by blast
  have "\<not> previous_error a (fl_Ctx fl)" using assms(6) by (simp add: previous_error_def)
  with assms r new show ?thesis
    by (auto simp: sniff_in_rule_def actionSniff_def sniff_datagrams_def Let_def split: sum.splits)
qed

section \<open>Actions that do not end the search\<close>

text \<open>
  A rule with the action \<open>direct\<close> is like no rule: the search goes on as if it had not matched.
\<close>

lemma direct_rule_ignored:
  assumes "rule_Action R = Some (RuleActionDirect d desc)"
    and "rule_Match (re_loops env) (re_rule env) R (ResetRuleCache (fl_Ctx fl)) = (b, c)"
  shows "match_loop env r pre i (R # rs) fl = match_loop env r pre (Suc i) rs (fl\<lparr>fl_Ctx := c\<rparr>)"
  using assms by (cases b) (simp_all add: is_sniff_def is_final_def perform_def with_options_def)

section \<open>Fake addresses\<close>

text \<open>
  C33: A connection to the address that the fake address store gave a domain goes to that domain, at
  the same port; the address is kept as the original destination.
\<close>

theorem fakeip_destination:
  assumes "fs_storage s = Some st" and "st_LoadDomain (any_ops B M) st d six = None"
    and "can_assign six s" and "d \<noteq> []"
    and "store_Create (any_ops B M) d six s = (Ok a, s')"
    and "rt_fakeip r = Some (any_ops B M, s')" and "sa_Addr (m_Destination c) = a"
  shows "map_destination env r c = Ok (c\<lparr>m_OriginDestination := m_Destination c,
    m_Destination := \<lparr>sa_Addr = AddrNone, sa_Port = sa_Port (m_Destination c), sa_Fqdn = d\<rparr>, m_FakeIP := True\<rparr>)"
proof -
  let ?a = "next_address (range_of six s) (current_of six s)"
  from any.create_fresh [OF assms(1-3)] obtain st' where
    st': "store_Create (any_ops B M) d six s = (Ok ?a, (set_current six ?a s)\<lparr>fs_storage := Some st'\<rparr>)"
      "st_Load (any_ops B M) st' = (st_Load (any_ops B M) st)(?a \<mapsto> d)" by blast
  have a: "a = ?a" and s': "s' = (set_current six ?a s)\<lparr>fs_storage := Some st'\<rparr>"
    using st'(1) [unfolded assms(5)] by blast+
  have v: "addr_IsValid a" and p: "Prefix_Contains (range_of six s) a"
    using assms(3) unfolding a can_assign_def
    by (auto intro: next_address_Contains dest: next_address_family simp: in_family_simps)
  have "store_Contains s' a"
    using p by (cases six) (simp_all add: s' store_Contains_def set_current_def range_of_def)
  moreover have "store_Lookup (any_ops B M) s' a = Ok (Some d)"
    by (simp add: store_Lookup_def s' st'(2) a)
  ultimately show ?thesis using v assms(4,6,7) by (simp add: map_destination_def Let_def)
qed

theorem fakeip_destination_witness:
  "\<exists>a s' c'. store_Create (any_ops bolt_tree (\<lambda>_. AddrNone)) ''example.com'' False demo_store = (Ok a, s') \<and>
     map_destination demo_route_env ((demo_router [])\<lparr>rt_fakeip := Some (any_ops bolt_tree (\<lambda>_. AddrNone), s')\<rparr>)
       ((demo_ctx 1000 443)\<lparr>m_Destination := \<lparr>sa_Addr = a, sa_Port = 443, sa_Fqdn = []\<rparr>\<rparr>) = Ok c' \<and>
     m_Destination c' = \<lparr>sa_Addr = AddrNone, sa_Port = 443, sa_Fqdn = ''example.com''\<rparr>"
proof -
  let ?ops = "any_ops bolt_tree (\<lambda>_. AddrNone)"
  have s: "fs_storage demo_store = Some (Inl NewMemoryStorage)" by (simp add: demo_store_eq)
  have c: "can_assign False demo_store"
    by (simp add: demo_store_eq can_assign_def demo_range_def current_of_def range_of_def in_family_def
        first_address_def PrefixFrom_def Prefix_Contains_def Prefix_IsValid_def)
  have d: "st_LoadDomain ?ops (Inl NewMemoryStorage) ''example.com'' False = None"
    by (simp add: any_ops_def sum_ops_def mem_ops_def mem_FakeIPLoadDomain_def NewMemoryStorage_def)
  from any.create_fresh [OF s d c] obtain a s' where
    cr: "store_Create ?ops ''example.com'' False demo_store = (Ok a, s')" by blast
  show ?thesis
    using fakeip_destination [OF s d c _ cr, of "(demo_router [])\<lparr>rt_fakeip := Some (?ops, s')\<rparr>"
        "(demo_ctx 1000 443)\<lparr>m_Destination := \<lparr>sa_Addr = a, sa_Port = 443, sa_Fqdn = []\<rparr>\<rparr>" demo_route_env] cr
    by simp
qed

text \<open>An address of the range that no domain has ends the routing with an error.\<close>

lemma matchRule_missing_fakeip:
  assumes "rt_fakeip r = Some (ops, s)" and "store_Contains s (sa_Addr (m_Destination c))"
    and "addr_IsValid (sa_Addr (m_Destination c))" and "store_Lookup ops s (sa_Addr (m_Destination c)) = Ok None"
    and "rt_processSearcher r = None"
  shows "fst (matchRule env r pre c conn pconn) = MFatal missing_fakeip"
  using assms by (simp add: matchRule_def find_process_def map_destination_def Let_def)

end
