(* ===== verification/Box.thy ===== *)
theory Box
  imports Simple_Managers Outbound_Manager Dns_Transport_Manager
begin

text \<open>
  The assembly of the program (\<open>core/box.go\<close>) with the check of the options before it
  (\<open>core/option/options.go\<close>): \<open>New\<close> creates the managers and fills them from the options,
  \<open>PreStart\<close>, \<open>Start\<close> and \<open>Close\<close> drive the stages of the parts.  The managers are those of the
  theories before; the network manager, the two routers, the connection manager, the log factory
  and the internal services are components of which only the calls are recorded.
\<close>

section \<open>Options\<close>

record 'opt component_options =
  co_Tag :: string
  co_Type :: string
  co_Options :: 'opt

text \<open>A component without a tag is named after its position; \<open>F.ToString\<close> is the first argument.\<close>

definition tag_at :: "(nat \<Rightarrow> string) \<Rightarrow> nat \<Rightarrow> 'opt component_options \<Rightarrow> string" where
  "tag_at F i opts = (if co_Tag opts \<noteq> [] then co_Tag opts else F i)"

fun check_tags ::
  "(nat \<Rightarrow> string) \<Rightarrow> string \<Rightarrow> nat \<Rightarrow> 'opt component_options list \<Rightarrow> string set \<Rightarrow> go_error + string set" where
  "check_tags F what i [] seen = Inr seen"
| "check_tags F what i (x # xs) seen =
     (if tag_at F i x \<in> seen then Inl (ENew [AStr (''duplicate '' @ what @ '' tag: ''), AStr (tag_at F i x)])
      else check_tags F what (Suc i) xs (insert (tag_at F i x) seen))"

definition checkInbounds :: "(nat \<Rightarrow> string) \<Rightarrow> 'opt component_options list \<Rightarrow> go_error option" where
  "checkInbounds F inbounds =
     (case check_tags F ''inbound'' 0 inbounds {} of Inl e \<Rightarrow> Some e | Inr _ \<Rightarrow> None)"

definition checkOutbounds ::
  "(nat \<Rightarrow> string) \<Rightarrow> 'opt component_options list \<Rightarrow> 'opt component_options list \<Rightarrow> go_error option" where
  "checkOutbounds F outbounds endpoints =
     (case check_tags F ''outbound/endpoint'' 0 outbounds {} of
        Inl e \<Rightarrow> Some e
      | Inr seen \<Rightarrow>
          (case check_tags F ''outbound/endpoint'' 0 endpoints seen of Inl e \<Rightarrow> Some e | Inr _ \<Rightarrow> None))"

record 'opt box_options =
  bo_Servers :: "'opt component_options list"
  bo_Endpoints :: "'opt component_options list"
  bo_Inbounds :: "'opt component_options list"
  bo_Outbounds :: "'opt component_options list"
  bo_Services :: "'opt component_options list"
  bo_RouteFinal :: string
  bo_DNSFinal :: string
  bo_CacheFileEnabled :: bool
  bo_ClashAPI :: bool
  bo_V2RayListen :: "string option"
  bo_NTPEnabled :: bool
  bo_PlatformLogWriter :: bool
  bo_CertificateStore :: string
  bo_Certificates :: bool

definition checkOptions :: "(nat \<Rightarrow> string) \<Rightarrow> 'opt box_options \<Rightarrow> go_error option" where
  "checkOptions F opts =
     (case checkInbounds F (bo_Inbounds opts) of
        Some e \<Rightarrow> Some e
      | None \<Rightarrow> checkOutbounds F (bo_Outbounds opts) (bo_Endpoints opts))"

section \<open>The box\<close>

record Box =
  b_logFactory :: obj
  b_network :: obj
  b_endpoint :: manager
  b_inbound :: manager
  b_outbound :: outbound_manager
  b_service :: manager
  b_dnsTransport :: transport_manager
  b_dnsRouter :: obj
  b_connection :: obj
  b_router :: obj
  b_internalService :: "(string \<times> obj) list"
  b_done :: bool
  b_trace :: trace

text \<open>
  What \<open>New\<close> gets from elsewhere: the registries (none when missing in the context), the parts it
  constructs and the results of their initialization.
\<close>

type_synonym 'opt registry = "string \<Rightarrow> string \<Rightarrow> 'opt \<Rightarrow> go_error + obj"

record 'opt box_env =
  be_sing :: sing_common
  be_ToString :: "nat \<Rightarrow> string"
  be_IsAndroid :: bool
  be_endpointRegistry :: "'opt registry option"
  be_inboundRegistry :: "'opt registry option"
  be_outboundRegistry :: "'opt registry option"
  be_dnsTransportRegistry :: "'opt registry option"
  be_serviceRegistry :: "'opt registry option"
  be_log_New :: "go_error + obj"
  be_certificate_NewStore :: "go_error + string \<times> obj"
  be_NewNetworkManager :: "go_error + obj"
  be_dnsRouter :: obj
  be_dnsRouter_Initialize :: "go_error option"
  be_connection :: obj
  be_router :: obj
  be_router_Initialize :: "go_error option"
  be_direct :: "go_error + obj"
  be_local :: "go_error + obj"
  be_platform_Initialize :: "go_error option option"
  be_cacheFile :: "string \<times> obj"
  be_NewClashServer :: "go_error + string \<times> obj"
  be_NewV2RayServer :: "go_error + (string \<times> obj) \<times> bool"
  be_ntp :: "go_error + obj"

text \<open>\<open>if err != nil { return nil, E.Cause(err, ...) }\<close>, and without a cause.\<close>

definition caused :: "go_any list \<Rightarrow> go_error + 'a \<Rightarrow> 'a res" where
  "caused why x = (case x of Inl e \<Rightarrow> Err (ECause e why) | Inr v \<Rightarrow> Ok v)"

definition check_err :: "go_any list \<Rightarrow> go_error option \<Rightarrow> unit res" where
  "check_err why e = (case e of None \<Rightarrow> Ok () | Some e \<Rightarrow> Err (ECause e why))"

definition required :: "string \<Rightarrow> 'a option \<Rightarrow> 'a res" where
  "required what x = (case x of None \<Rightarrow> Err (ENew [AStr (''missing '' @ what @ '' registry in context'')]) | Some v \<Rightarrow> Ok v)"

text \<open>The loops that fill the managers.\<close>

type_synonym ('opt, 'm) creator = "string \<Rightarrow> string \<Rightarrow> 'opt \<Rightarrow> 'm \<Rightarrow> trace \<Rightarrow> 'm \<times> trace \<times> unit res"

fun create_all ::
  "('opt, 'm) creator \<Rightarrow> (nat \<Rightarrow> string) \<Rightarrow> string \<Rightarrow> nat \<Rightarrow> 'opt component_options list \<Rightarrow>
   'm \<times> trace \<Rightarrow> ('m \<times> trace) res" where
  "create_all create F what i [] s = Ok s"
| "create_all create F what i (x # xs) s =
     (case create (tag_at F i x) (co_Type x) (co_Options x) (fst s) (snd s) of
        (m, tr, Ok _) \<Rightarrow> create_all create F what (Suc i) xs (m, tr)
      | (m, tr, Err e) \<Rightarrow> Err (ECause e [AStr (''initialize '' @ what @ ''[''), AInt (int i), AStr '']''])
      | (m, tr, Panic p) \<Rightarrow> Panic p)"

definition certificate_services :: "'opt box_env \<Rightarrow> 'opt box_options \<Rightarrow> (string \<times> obj) list res" where
  "certificate_services env opts =
     (if be_IsAndroid env \<or> bo_CertificateStore opts \<noteq> [] \<and> bo_CertificateStore opts \<noteq> ''system'' \<or> bo_Certificates opts
      then (case be_certificate_NewStore env of Inl e \<Rightarrow> Err e | Inr s \<Rightarrow> Ok [s])
      else Ok [])"

text \<open>The cache file, the Clash server, the V2Ray server and the NTP service, where they are needed.\<close>

definition other_services :: "'opt box_env \<Rightarrow> 'opt box_options \<Rightarrow> (string \<times> obj) list res" where
  "other_services env opts =
     bindR (Ok (if bo_CacheFileEnabled opts \<or> bo_PlatformLogWriter opts then [be_cacheFile env] else [])) (\<lambda>s1.
     bindR (if bo_ClashAPI opts \<or> bo_PlatformLogWriter opts
            then bindR (caused [AStr ''create clash-server''] (be_NewClashServer env)) (\<lambda>s. Ok [s]) else Ok []) (\<lambda>s2.
     bindR (if bo_V2RayListen opts \<noteq> None \<and> bo_V2RayListen opts \<noteq> Some []
            then bindR (caused [AStr ''create v2ray-server''] (be_NewV2RayServer env))
                   (\<lambda>(s, stats). Ok (if stats then [s] else [])) else Ok []) (\<lambda>s3.
     bindR (if bo_NTPEnabled opts
            then bindR (caused [AStr ''create NTP service''] (be_ntp env)) (\<lambda>x. Ok [(''ntp service'', x)]) else Ok [])
       (\<lambda>s4. Ok (s1 @ s2 @ s3 @ s4)))))"

definition box_New :: "'opt box_env \<Rightarrow> 'opt box_options \<Rightarrow> Box res" where
  "box_New env opts =
     (let L = be_sing env; F = be_ToString env in
      bindR (required ''endpoint'' (be_endpointRegistry env)) (\<lambda>endpointRegistry.
      bindR (required ''inbound'' (be_inboundRegistry env)) (\<lambda>inboundRegistry.
      bindR (required ''outbound'' (be_outboundRegistry env)) (\<lambda>outboundRegistry.
      bindR (required ''DNS transport'' (be_dnsTransportRegistry env)) (\<lambda>dnsTransportRegistry.
      bindR (required ''service'' (be_serviceRegistry env)) (\<lambda>serviceRegistry.
      bindR (caused [AStr ''create log factory''] (be_log_New env)) (\<lambda>logFactory.
      bindR (certificate_services env opts) (\<lambda>internal1.
      bindR (caused [AStr ''initialize network manager''] (be_NewNetworkManager env)) (\<lambda>network.
      bindR (check_err [AStr ''initialize router''] (be_router_Initialize env)) (\<lambda>_.
      bindR (create_all (transport_Create L dnsTransportRegistry) F ''DNS server'' 0 (bo_Servers opts)
              (transport_NewManager (bo_DNSFinal opts), [])) (\<lambda>(dnsTransport, tr1).
      bindR (check_err [AStr ''initialize dns router''] (be_dnsRouter_Initialize env)) (\<lambda>_.
      bindR (create_all (endpoint_Create L endpointRegistry) F ''endpoint'' 0 (bo_Endpoints opts)
              (endpoint_NewManager, tr1)) (\<lambda>(endpoint, tr2).
      bindR (create_all (inbound_Create L inboundRegistry) F ''inbound'' 0 (bo_Inbounds opts)
              (inbound_NewManager, tr2)) (\<lambda>(inbound, tr3).
      bindR (create_all (outbound_Create L outboundRegistry) F ''outbound'' 0 (bo_Outbounds opts)
              (outbound_NewManager (bo_RouteFinal opts), tr3)) (\<lambda>(outbound, tr4).
      bindR (create_all (service_Create L serviceRegistry) F ''service'' 0 (bo_Services opts)
              (service_NewManager, tr4)) (\<lambda>(service, tr5).
      bindR (case be_local env of Inl e \<Rightarrow> Panic ''Must1'' | Inr x \<Rightarrow> Ok x) (\<lambda>local.
      bindR (case be_platform_Initialize env of None \<Rightarrow> Ok ()
             | Some e \<Rightarrow> check_err [AStr ''initialize platform interface''] e) (\<lambda>_.
      bindR (other_services env opts) (\<lambda>internal2.
      Ok \<lparr>b_logFactory = logFactory, b_network = network, b_endpoint = endpoint, b_inbound = inbound,
          b_outbound = outbound_Initialize (be_direct env) outbound, b_service = service,
          b_dnsTransport = transport_Initialize local dnsTransport, b_dnsRouter = be_dnsRouter env,
          b_connection = be_connection env, b_router = be_router env,
          b_internalService = internal1 @ internal2, b_done = False, b_trace = tr5\<rparr>)))))))))))))))))))"

section \<open>Starting and closing\<close>

datatype part =
  PNetwork | PEndpoint | PInbound | POutbound | PService | PDnsTransport | PDnsRouter | PConnection | PRouter

definition plain_part :: "part \<Rightarrow> Box \<Rightarrow> obj" where
  "plain_part p b = (case p of PNetwork \<Rightarrow> b_network b | PDnsRouter \<Rightarrow> b_dnsRouter b
     | PConnection \<Rightarrow> b_connection b | _ \<Rightarrow> b_router b)"

text \<open>\<open>Start\<close> of a part; the first argument bounds the rounds of the managers that order by dependency.\<close>

definition part_Start :: "nat \<Rightarrow> sing_common \<Rightarrow> StartStage \<Rightarrow> part \<Rightarrow> Box \<Rightarrow> Box \<times> unit res" where
  "part_Start fuel L st p b =
     (case p of
        PEndpoint \<Rightarrow> (case endpoint_Start st (b_endpoint b) (b_trace b) of
          (m, tr, r) \<Rightarrow> (b\<lparr>b_endpoint := m, b_trace := tr\<rparr>, r))
      | PInbound \<Rightarrow> (case inbound_Start st (b_inbound b) (b_trace b) of
          (m, tr, r) \<Rightarrow> (b\<lparr>b_inbound := m, b_trace := tr\<rparr>, r))
      | PService \<Rightarrow> (case service_Start st (b_service b) (b_trace b) of
          (m, tr, r) \<Rightarrow> (b\<lparr>b_service := m, b_trace := tr\<rparr>, r))
      | POutbound \<Rightarrow> (case outbound_Start fuel L (b_endpoint b) st (b_outbound b) (b_trace b) of
          (m, tr, r) \<Rightarrow> (b\<lparr>b_outbound := m, b_trace := tr\<rparr>, r))
      | PDnsTransport \<Rightarrow> (case transport_Start fuel L st (b_dnsTransport b) (b_trace b) of
          (m, tr, r) \<Rightarrow> (b\<lparr>b_dnsTransport := m, b_trace := tr\<rparr>, r))
      | _ \<Rightarrow> (case do_call (plain_part p b) (CStart st) (b_trace b) of
          (tr, e) \<Rightarrow> (b\<lparr>b_trace := tr\<rparr>, res_of_error e)))"

text \<open>One after the other, until the first error or panic.\<close>

fun run_all :: "('x \<Rightarrow> Box \<Rightarrow> Box \<times> unit res) \<Rightarrow> 'x list \<Rightarrow> Box \<Rightarrow> Box \<times> unit res" where
  "run_all f [] b = (b, Ok ())"
| "run_all f (x # xs) b = (case f x b of (b', Ok _) \<Rightarrow> run_all f xs b' | (b', r) \<Rightarrow> (b', r))"

text \<open>The steps of \<open>preStart\<close> and \<open>start\<close>.\<close>

datatype box_step = SLogger | SNamed StartStage | SParts StartStage "part list"

definition do_step :: "nat \<Rightarrow> sing_common \<Rightarrow> box_step \<Rightarrow> Box \<Rightarrow> Box \<times> unit res" where
  "do_step fuel L s b =
     (case s of
        SLogger \<Rightarrow>
          (case do_call (b_logFactory b) CPlainStart (b_trace b) of
             (tr, e) \<Rightarrow> (b\<lparr>b_trace := tr\<rparr>, check_err [AStr ''start logger''] e))
      | SNamed st \<Rightarrow>
          (case adapter_StartNamed st (b_internalService b) (b_trace b) of
             (tr, e) \<Rightarrow> (b\<lparr>b_trace := tr\<rparr>, res_of_error e))
      | SParts st ps \<Rightarrow> run_all (part_Start fuel L st) ps b)"

definition preStart_steps :: "box_step list" where
  "preStart_steps =
     [SLogger, SNamed StartStateInitialize,
      SParts StartStateInitialize [PNetwork, PDnsTransport, PDnsRouter, PConnection, PRouter, POutbound, PInbound, PEndpoint, PService],
      SParts StartStateStart [POutbound, PDnsTransport, PDnsRouter, PNetwork, PConnection, PRouter]]"

definition start_steps :: "box_step list" where
  "start_steps =
     [SNamed StartStateStart, SParts StartStateStart [PInbound, PEndpoint, PService],
      SParts StartStatePostStart [POutbound, PNetwork, PDnsTransport, PDnsRouter, PConnection, PRouter, PInbound, PEndpoint, PService],
      SNamed StartStatePostStart,
      SParts StartStateStarted [PNetwork, PDnsTransport, PDnsRouter, PConnection, PRouter, POutbound, PInbound, PEndpoint, PService],
      SNamed StartStateStarted]"

definition preStart :: "nat \<Rightarrow> sing_common \<Rightarrow> Box \<Rightarrow> Box \<times> unit res" where
  "preStart fuel L b = run_all (do_step fuel L) preStart_steps b"

definition box_start :: "nat \<Rightarrow> sing_common \<Rightarrow> Box \<Rightarrow> Box \<times> unit res" where
  "box_start fuel L b =
     (case preStart fuel L b of
        (b', Ok _) \<Rightarrow> run_all (do_step fuel L) start_steps b'
      | (b', r) \<Rightarrow> (b', r))"

text \<open>
  \<open>Close\<close>.  \<open>common.Close\<close> closes its arguments in order, whatever the errors; the joined error is
  given by the last argument, the rest of the error handling only adds to it.
\<close>

definition part_Close :: "part \<Rightarrow> Box \<Rightarrow> Box" where
  "part_Close p b =
     (case p of
        PEndpoint \<Rightarrow> (case endpoint_Close (b_endpoint b) (b_trace b) of (m, tr, _) \<Rightarrow> b\<lparr>b_endpoint := m, b_trace := tr\<rparr>)
      | PInbound \<Rightarrow> (case inbound_Close (b_inbound b) (b_trace b) of (m, tr, _) \<Rightarrow> b\<lparr>b_inbound := m, b_trace := tr\<rparr>)
      | PService \<Rightarrow> (case service_Close (b_service b) (b_trace b) of (m, tr, _) \<Rightarrow> b\<lparr>b_service := m, b_trace := tr\<rparr>)
      | POutbound \<Rightarrow> (case outbound_Close (b_outbound b) (b_trace b) of (m, tr, _) \<Rightarrow> b\<lparr>b_outbound := m, b_trace := tr\<rparr>)
      | PDnsTransport \<Rightarrow> (case transport_Close (b_dnsTransport b) (b_trace b) of (m, tr, _) \<Rightarrow> b\<lparr>b_dnsTransport := m, b_trace := tr\<rparr>)
      | _ \<Rightarrow> b\<lparr>b_trace := fst (do_call (plain_part p b) CClose (b_trace b))\<rparr>)"

definition ErrClosed :: go_error where "ErrClosed = EForeign ''file already closed''"

definition close_order :: "part list" where
  "close_order = [PService, PEndpoint, PInbound, POutbound, PRouter, PConnection, PDnsRouter, PDnsTransport, PNetwork]"

definition box_Close :: "(Box \<Rightarrow> go_error option) \<Rightarrow> Box \<Rightarrow> Box \<times> go_error option" where
  "box_Close joined b =
     (if b_done b then (b, Some ErrClosed)
      else
        let b1 = fold part_Close close_order (b\<lparr>b_done := True\<rparr>);
            tr = close_loop (map snd (b_internalService b1) @ [b_logFactory b1]) (b_trace b1)
        in (b1\<lparr>b_trace := tr\<rparr>, joined b))"

text \<open>\<open>PreStart\<close> and \<open>Start\<close>: an error closes the box, a panic passes.\<close>

definition or_close :: "(Box \<Rightarrow> go_error option) \<Rightarrow> Box \<times> unit res \<Rightarrow> Box \<times> unit res" where
  "or_close joined x = (case x of (b, Err e) \<Rightarrow> (fst (box_Close joined b), Err e) | _ \<Rightarrow> x)"

definition box_PreStart :: "(Box \<Rightarrow> go_error option) \<Rightarrow> nat \<Rightarrow> sing_common \<Rightarrow> Box \<Rightarrow> Box \<times> unit res" where
  "box_PreStart joined fuel L b = or_close joined (preStart fuel L b)"

definition box_Start :: "(Box \<Rightarrow> go_error option) \<Rightarrow> nat \<Rightarrow> sing_common \<Rightarrow> Box \<Rightarrow> Box \<times> unit res" where
  "box_Start joined fuel L b = or_close joined (box_start fuel L b)"

section \<open>Filling a manager\<close>

text \<open>
  What the loops rely on: creating a component under a tag that is not taken, in a manager that was
  not started, adds the component the registry builds and makes no call.
\<close>

locale filler =
  fixes create :: "('opt, 'm) creator" and build :: "'opt registry"
    and objs :: "'m \<Rightarrow> obj list" and get :: "'m \<Rightarrow> string \<Rightarrow> obj option" and ready :: "'m \<Rightarrow> bool"
  assumes create_new: "ready m \<Longrightarrow> get m t = None \<Longrightarrow> create t ty opt m tr = (m', tr', Ok u) \<Longrightarrow>
    ready m' \<and> tr' = tr \<and> (\<exists>x. build t ty opt = Inr x \<and> objs m' = objs m @ [x] \<and> get m' = (get m)(t \<mapsto> x))"

definition tags_from :: "(nat \<Rightarrow> string) \<Rightarrow> nat \<Rightarrow> 'opt component_options list \<Rightarrow> string list" where
  "tags_from F i xs = map (\<lambda>(k, x). tag_at F k x) (enumerate i xs)"

lemma tags_from_simps [simp]:
  "tags_from F i [] = []" "tags_from F i (x # xs) = tag_at F i x # tags_from F (Suc i) xs"
  by (simp_all add: tags_from_def)

lemma length_tags_from [simp]: "length (tags_from F i xs) = length xs"
  by (simp add: tags_from_def)

lemma nth_tags_from: "k < length xs \<Longrightarrow> tags_from F i xs ! k = tag_at F (i + k) (xs ! k)"
  by (simp add: tags_from_def nth_enumerate_eq)

lemma check_tags_ok:
  "check_tags F what i xs seen = Inr seen' \<Longrightarrow>
   distinct (tags_from F i xs) \<and> set (tags_from F i xs) \<inter> seen = {} \<and> seen' = seen \<union> set (tags_from F i xs)"
proof (induction xs arbitrary: i seen)
  case (Cons x xs)
  then show ?case using Cons.IH [of "Suc i" "insert (tag_at F i x) seen"] by (auto split: if_splits)
qed simp

context filler
begin

lemma create_all_fills:
  assumes "create_all create F what i xs (m, tr) = Ok (m', tr')" and "ready m"
    and "distinct (tags_from F i xs)" and "\<forall>t \<in> set (tags_from F i xs). get m t = None"
  shows "\<exists>os. length os = length xs \<and> objs m' = objs m @ os \<and> ready m' \<and> tr' = tr \<and>
    (\<forall>k < length xs. build (tag_at F (i + k) (xs ! k)) (co_Type (xs ! k)) (co_Options (xs ! k)) = Inr (os ! k) \<and>
       get m' (tag_at F (i + k) (xs ! k)) = Some (os ! k)) \<and>
    (\<forall>t. t \<notin> set (tags_from F i xs) \<longrightarrow> get m' t = get m t)"
  using assms
proof (induction xs arbitrary: i m)
  case (Cons x xs)
  let ?t = "tag_at F i x"
  from Cons.prems(1) obtain m1 tr1 u where c: "create ?t (co_Type x) (co_Options x) m tr = (m1, tr1, Ok u)"
    and rest: "create_all create F what (Suc i) xs (m1, tr1) = Ok (m', tr')"
    by (auto split: prod.splits res.splits)
  from create_new [OF Cons.prems(2) _ c] Cons.prems(4) obtain y where
    y: "ready m1" "tr1 = tr" "build ?t (co_Type x) (co_Options x) = Inr y" "objs m1 = objs m @ [y]"
      "get m1 = (get m)(?t \<mapsto> y)" by auto
  from Cons.prems(3,4) y(5) have "\<forall>t \<in> set (tags_from F (Suc i) xs). get m1 t = None" by auto
  from Cons.IH [OF rest [unfolded y(2)] y(1) _ this] Cons.prems(3) obtain os where
    os: "length os = length xs" "objs m' = objs m1 @ os" "ready m'" "tr' = tr"
      "\<forall>k < length xs. build (tag_at F (Suc i + k) (xs ! k)) (co_Type (xs ! k)) (co_Options (xs ! k)) = Inr (os ! k) \<and>
         get m' (tag_at F (Suc i + k) (xs ! k)) = Some (os ! k)"
      "\<forall>t. t \<notin> set (tags_from F (Suc i) xs) \<longrightarrow> get m' t = get m1 t" by auto
  have "get m' ?t = Some y" using os(6) y(5) Cons.prems(3) by simp
  then have "\<forall>k < length (x # xs). build (tag_at F (i + k) ((x # xs) ! k)) (co_Type ((x # xs) ! k)) (co_Options ((x # xs) ! k))
        = Inr ((y # os) ! k) \<and> get m' (tag_at F (i + k) ((x # xs) ! k)) = Some ((y # os) ! k)"
    using y(3) os(5) by (auto simp: less_Suc_eq_0_disj nth_Cons')
  then show ?case using os y by (intro exI [of _ "y # os"]) auto
qed simp

end

lemma simple_Create_new:
  assumes "\<not> started m" and "byTag m t = None" and "simple_Create kind L reg t ty opt m tr = (m', tr', Ok u)"
  shows "\<not> started m' \<and> tr' = tr \<and>
    (\<exists>x. reg t ty opt = Inr x \<and> objects m' = objects m @ [x] \<and> byTag m' = (byTag m)(t \<mapsto> x))"
  using assms by (auto simp: simple_Create_def split: sum.splits)

interpretation inbound_fill: filler "inbound_Create L reg" reg objects byTag "\<lambda>m. \<not> started m" for L reg
  by unfold_locales (simp add: inbound_Create_def, rule simple_Create_new)

interpretation endpoint_fill: filler "endpoint_Create L reg" reg objects byTag "\<lambda>m. \<not> started m" for L reg
  by unfold_locales (simp add: endpoint_Create_def, rule simple_Create_new)

interpretation service_fill: filler "service_Create L reg" reg objects byTag "\<lambda>m. \<not> started m" for L reg
  by unfold_locales (simp add: service_Create_def, rule simple_Create_new)

interpretation outbound_fill: filler "outbound_Create L reg" reg objects byTag "\<lambda>m. \<not> started m" for L reg
  by unfold_locales (auto simp: outbound_Create_def outbound_register_def Let_def split: sum.splits if_splits)

interpretation transport_fill: filler "transport_Create L reg" reg objects byTag "\<lambda>m. \<not> started m" for L reg
  by unfold_locales (auto simp: transport_Create_def transport_register_def Let_def
      split: sum.splits if_splits prod.splits)

section \<open>What New builds\<close>

lemma required_Ok: "required what x = Ok v \<longleftrightarrow> x = Some v"
  by (auto simp: required_def split: option.splits)

lemma box_New_managers:
  assumes "box_New env opts = Ok b"
  shows "\<exists>ereg ireg oreg tr1 tr2 tr3 tr4 outbound.
    be_endpointRegistry env = Some ereg \<and> be_inboundRegistry env = Some ireg \<and> be_outboundRegistry env = Some oreg \<and>
    create_all (endpoint_Create (be_sing env) ereg) (be_ToString env) ''endpoint'' 0 (bo_Endpoints opts)
      (endpoint_NewManager, tr1) = Ok (b_endpoint b, tr2) \<and>
    create_all (inbound_Create (be_sing env) ireg) (be_ToString env) ''inbound'' 0 (bo_Inbounds opts)
      (inbound_NewManager, tr2) = Ok (b_inbound b, tr3) \<and>
    create_all (outbound_Create (be_sing env) oreg) (be_ToString env) ''outbound'' 0 (bo_Outbounds opts)
      (outbound_NewManager (bo_RouteFinal opts), tr3) = Ok (outbound, tr4) \<and>
    b_outbound b = outbound_Initialize (be_direct env) outbound \<and> \<not> b_done b"
  using assms unfolding box_New_def Let_def bindR_Ok required_Ok
  by (elim exE conjE, clarsimp simp: bindR_Ok) blast

text \<open>Every option is built, in order, and found under its tag.\<close>

definition all_registered ::
  "(nat \<Rightarrow> string) \<Rightarrow> 'opt registry \<Rightarrow> 'opt component_options list \<Rightarrow> obj list \<Rightarrow> (string \<Rightarrow> obj option) \<Rightarrow> bool" where
  "all_registered F reg opts os get \<longleftrightarrow> length os = length opts \<and>
     (\<forall>k < length opts. reg (tag_at F k (opts ! k)) (co_Type (opts ! k)) (co_Options (opts ! k)) = Inr (os ! k) \<and>
        get (tag_at F k (opts ! k)) = Some (os ! k))"

lemma checkOptions_tags:
  assumes "checkOptions F opts = None"
  shows "distinct (tags_from F 0 (bo_Inbounds opts))" "distinct (tags_from F 0 (bo_Outbounds opts))"
    "distinct (tags_from F 0 (bo_Endpoints opts))"
    "set (tags_from F 0 (bo_Endpoints opts)) \<inter> set (tags_from F 0 (bo_Outbounds opts)) = {}"
  using assms
  by (auto simp: checkOptions_def checkInbounds_def checkOutbounds_def split: sum.splits option.splits
      dest!: check_tags_ok)

text \<open>
  When the options pass the check, every endpoint, inbound and outbound of the configuration
  is in the box that \<open>New\<close> returns, in order, and is found under its tag, the endpoints
  among the outbounds as well; none has replaced another.
\<close>

theorem checked_options_registered:
  assumes "checkOptions (be_ToString env) opts = None" and "box_New env opts = Ok b"
  shows "\<exists>ereg ireg oreg. be_endpointRegistry env = Some ereg \<and> be_inboundRegistry env = Some ireg \<and>
    be_outboundRegistry env = Some oreg \<and>
    all_registered (be_ToString env) ereg (bo_Endpoints opts) (objects (b_endpoint b))
      (outbound_Outbound (b_endpoint b) (b_outbound b)) \<and>
    all_registered (be_ToString env) ireg (bo_Inbounds opts) (objects (b_inbound b))
      (inbound_Get (b_endpoint b) (b_inbound b)) \<and>
    all_registered (be_ToString env) oreg (bo_Outbounds opts) (objects (b_outbound b))
      (outbound_Outbound (b_endpoint b) (b_outbound b))"
proof -
  let ?F = "be_ToString env"
  note t = checkOptions_tags [OF assms(1)]
  from box_New_managers [OF assms(2)] obtain ereg ireg oreg tr1 tr2 tr3 tr4 outbound where
    reg: "be_endpointRegistry env = Some ereg" "be_inboundRegistry env = Some ireg" "be_outboundRegistry env = Some oreg"
    and e: "create_all (endpoint_Create (be_sing env) ereg) ?F ''endpoint'' 0 (bo_Endpoints opts)
        (endpoint_NewManager, tr1) = Ok (b_endpoint b, tr2)"
    and i: "create_all (inbound_Create (be_sing env) ireg) ?F ''inbound'' 0 (bo_Inbounds opts)
        (inbound_NewManager, tr2) = Ok (b_inbound b, tr3)"
    and o': "create_all (outbound_Create (be_sing env) oreg) ?F ''outbound'' 0 (bo_Outbounds opts)
        (outbound_NewManager (bo_RouteFinal opts), tr3) = Ok (outbound, tr4)"
    and ob: "b_outbound b = outbound_Initialize (be_direct env) outbound"
    by (elim exE conjE)
  have same: "objects (b_outbound b) = objects outbound" "byTag (b_outbound b) = byTag outbound"
    by (simp_all add: ob outbound_Initialize_def)
  note E = endpoint_fill.create_all_fills [OF e _ t(3)]
  note I = inbound_fill.create_all_fills [OF i _ t(1)]
  note O = outbound_fill.create_all_fills [OF o' _ t(2)]
  have "all_registered ?F ireg (bo_Inbounds opts) (objects (b_inbound b)) (inbound_Get (b_endpoint b) (b_inbound b))"
    using I by (auto simp: all_registered_def inbound_NewManager_def new_manager_def inbound_Get_def)
  moreover have "all_registered ?F oreg (bo_Outbounds opts) (objects (b_outbound b))
      (outbound_Outbound (b_endpoint b) (b_outbound b))"
    using O by (auto simp: all_registered_def outbound_NewManager_def outbound_Outbound_def same)
  moreover have "all_registered ?F ereg (bo_Endpoints opts) (objects (b_endpoint b))
      (outbound_Outbound (b_endpoint b) (b_outbound b))"
  proof -
    have none: "byTag outbound (tag_at ?F k (bo_Endpoints opts ! k)) = None" if "k < length (bo_Endpoints opts)" for k
    proof -
      have "tag_at ?F k (bo_Endpoints opts ! k) \<in> set (tags_from ?F 0 (bo_Endpoints opts))"
        using that nth_tags_from [OF that, of ?F 0] nth_mem [of k "tags_from ?F 0 (bo_Endpoints opts)"] by simp
      with t(4) have "tag_at ?F k (bo_Endpoints opts ! k) \<notin> set (tags_from ?F 0 (bo_Outbounds opts))" by blast
      with O show ?thesis by (auto simp: outbound_NewManager_def)
    qed
    from E none show ?thesis
      by (auto simp: all_registered_def endpoint_NewManager_def new_manager_def outbound_Outbound_def
          endpoint_Get_def same)
  qed
  ultimately show ?thesis using reg by blast
qed

definition demo_options_of :: "string \<Rightarrow> nat \<Rightarrow> nat component_options" where
  "demo_options_of t i = \<lparr>co_Tag = t, co_Type = ''direct'', co_Options = i\<rparr>"

definition demo_box_options :: "nat box_options" where
  "demo_box_options = \<lparr>bo_Servers = [], bo_Endpoints = [demo_options_of ''wg'' 3],
     bo_Inbounds = [demo_options_of [] 4], bo_Outbounds = [demo_options_of ''a'' 1, demo_options_of [] 2],
     bo_Services = [], bo_RouteFinal = [], bo_DNSFinal = [], bo_CacheFileEnabled = False, bo_ClashAPI = False,
     bo_V2RayListen = None, bo_NTPEnabled = False, bo_PlatformLogWriter = False, bo_CertificateStore = [],
     bo_Certificates = False\<rparr>"

definition demo_box_env :: "nat box_env" where
  "demo_box_env = \<lparr>be_sing = sing_ref, be_ToString = utoa, be_IsAndroid = False,
     be_endpointRegistry = Some (\<lambda>t _ i. Inr (demo_obj i t)), be_inboundRegistry = Some (\<lambda>t _ i. Inr (demo_obj i t)),
     be_outboundRegistry = Some (\<lambda>t _ i. Inr (demo_obj i t)), be_dnsTransportRegistry = Some (\<lambda>t _ i. Inr (demo_obj i t)),
     be_serviceRegistry = Some (\<lambda>t _ i. Inr (demo_obj i t)), be_log_New = Inr (demo_obj 10 ''log''),
     be_certificate_NewStore = Inl ErrInvalid, be_NewNetworkManager = Inr (demo_obj 11 ''network''),
     be_dnsRouter = demo_obj 12 ''dns'', be_dnsRouter_Initialize = None, be_connection = demo_obj 13 ''connection'',
     be_router = demo_obj 14 ''router'', be_router_Initialize = None, be_direct = Inr (demo_obj 15 ''direct''),
     be_local = Inr (demo_obj 16 ''local''), be_platform_Initialize = None,
     be_cacheFile = (''cache-file'', demo_obj 17 []), be_NewClashServer = Inl ErrInvalid,
     be_NewV2RayServer = Inl ErrInvalid, be_ntp = Inl ErrInvalid\<rparr>"

lemma utoa_01: "utoa 0 = ''0''" "utoa (Suc 0) = ''1''"
  by code_simp+

lemma demo_box_New:
  "\<exists>b. box_New demo_box_env demo_box_options = Ok b \<and> map obj_id (objects (b_outbound b)) = [1, 2]"
  by (simp add: box_New_def demo_box_env_def demo_box_options_def demo_options_of_def required_def caused_def
      check_err_def certificate_services_def other_services_def endpoint_Create_def inbound_Create_def
      outbound_Create_def simple_Create_def endpoint_NewManager_def inbound_NewManager_def new_manager_def
      outbound_NewManager_def outbound_register_def transport_NewManager_def service_NewManager_def tag_at_def
      utoa_01 outbound_Initialize_def demo_obj_def Let_def)

theorem checked_options_registered_witness:
  "\<exists>b. box_New demo_box_env demo_box_options = Ok b \<and>
     map_option obj_id (outbound_Outbound (b_endpoint b) (b_outbound b) ''wg'') = Some 3"
proof -
  obtain b where b: "box_New demo_box_env demo_box_options = Ok b" using demo_box_New by blast
  have "checkOptions (be_ToString demo_box_env) demo_box_options = None"
    by (simp add: demo_box_env_def demo_box_options_def demo_options_of_def checkOptions_def checkInbounds_def
        checkOutbounds_def tag_at_def utoa_01)
  from checked_options_registered [OF this b] have
    "all_registered utoa (\<lambda>t _ i. Inr (demo_obj i t)) [demo_options_of ''wg'' 3] (objects (b_endpoint b))
      (outbound_Outbound (b_endpoint b) (b_outbound b))"
    by (auto simp: demo_box_env_def demo_box_options_def)
  then have "outbound_Outbound (b_endpoint b) (b_outbound b) ''wg'' = Some (demo_obj 3 ''wg'')"
    by (simp add: all_registered_def demo_options_of_def tag_at_def)
  with b show ?thesis by (simp add: demo_obj_def)
qed

section \<open>The stages of the managers\<close>

fun stage_of :: "part \<Rightarrow> Box \<Rightarrow> (bool \<times> StartStage) option" where
  "stage_of PEndpoint b = Some (started (b_endpoint b), stage (b_endpoint b))"
| "stage_of PInbound b = Some (started (b_inbound b), stage (b_inbound b))"
| "stage_of POutbound b = Some (started (b_outbound b), stage (b_outbound b))"
| "stage_of PService b = Some (started (b_service b), stage (b_service b))"
| "stage_of PDnsTransport b = Some (started (b_dnsTransport b), stage (b_dnsTransport b))"
| "stage_of _ b = None"

definition managed :: "part \<Rightarrow> bool" where
  "managed p \<longleftrightarrow> p \<in> {PEndpoint, PInbound, POutbound, PService, PDnsTransport}"

lemmas part_starts = endpoint_Start_def inbound_Start_def service_Start_def outbound_Start_def
  transport_Start_def outbound_start_all_def

lemma part_Start_stage:
  assumes "part_Start fuel L st p b = (b', Ok u)"
  shows "stage_of q b' = (if q = p \<and> managed p then Some (True, st) else stage_of q b)" "b_done b' = b_done b"
  using assms
  by (cases p; cases q; auto simp: part_Start_def managed_def part_starts Let_def
      split: if_splits prod.splits option.splits sum.splits)+

lemma part_Start_panics:
  assumes "stage_of p b = Some (True, st')" and "st \<le> st'"
  shows "part_Start fuel L st p b = (b, Panic ''already started'')"
  using assms by (cases p) (simp_all add: part_Start_def part_starts)

lemma run_parts_stage:
  "run_all (part_Start fuel L st) ps b = (b', Ok u) \<Longrightarrow>
   stage_of q b' = (if q \<in> set ps \<and> managed q then Some (True, st) else stage_of q b)"
proof (induction ps arbitrary: b)
  case (Cons p ps)
  then obtain b1 v where p: "part_Start fuel L st p b = (b1, Ok v)" "run_all (part_Start fuel L st) ps b1 = (b', Ok u)"
    by (auto split: prod.splits res.splits)
  from Cons.IH [OF p(2)] part_Start_stage(1) [OF p(1)] show ?case by auto
qed simp

lemma do_step_stage:
  assumes "do_step fuel L s b = (b', Ok u)"
  shows "stage_of q b' = (case s of SParts st ps \<Rightarrow> if q \<in> set ps \<and> managed q then Some (True, st) else stage_of q b
    | _ \<Rightarrow> stage_of q b)"
proof (cases s)
  case (SParts st ps)
  then show ?thesis using assms by (simp add: do_step_def run_parts_stage)
qed (use assms in \<open>cases q; auto simp: do_step_def split: prod.splits\<close>)+

lemma run_all_split:
  "run_all f (xs @ ys) b = (case run_all f xs b of (b', Ok _) \<Rightarrow> run_all f ys b' | r \<Rightarrow> r)"
  by (induction xs arbitrary: b) (auto split: prod.split res.split)

lemma box_start_steps: "box_start fuel L b = run_all (do_step fuel L) (preStart_steps @ start_steps) b"
  by (simp add: box_start_def preStart_def run_all_split split: prod.split res.split)

lemma run_all_Cons_Ok:
  "run_all f (x # xs) b = (b', Ok u) \<longleftrightarrow> (\<exists>b1 v. f x b = (b1, Ok v) \<and> run_all f xs b1 = (b', Ok u))"
  by (auto split: prod.splits res.splits)

lemma run_all_append_Ok:
  "run_all f (xs @ ys) b = (b', Ok u) \<longleftrightarrow> (\<exists>b1 v. run_all f xs b = (b1, Ok v) \<and> run_all f ys b1 = (b', Ok u))"
  by (auto simp: run_all_split split: prod.splits res.splits)

lemma stages_after:
  "run_all (do_step fuel L) ss b = (b', Ok u) \<Longrightarrow>
   stage_of q b' = fold (\<lambda>s x. case s of SParts st ps \<Rightarrow> if q \<in> set ps \<and> managed q then Some (True, st) else x | _ \<Rightarrow> x)
     ss (stage_of q b)"
proof (induction ss arbitrary: b)
  case (Cons s ss)
  from Cons.prems obtain b1 v where s: "do_step fuel L s b = (b1, Ok v)" "run_all (do_step fuel L) ss b1 = (b', Ok u)"
    unfolding run_all_Cons_Ok by blast
  from Cons.IH [OF s(2)] do_step_stage [OF s(1)] show ?case by (cases s) simp_all
qed simp

lemma preStart_stages:
  assumes "preStart fuel L b = (b', Ok u)"
  shows "stage_of POutbound b' = Some (True, StartStateStart)" "stage_of PDnsTransport b' = Some (True, StartStateStart)"
    "p \<in> {PInbound, PEndpoint, PService} \<Longrightarrow> stage_of p b' = Some (True, StartStateInitialize)"
  using stages_after [OF assms [unfolded preStart_def]]
  by (auto simp: preStart_steps_def managed_def)

lemma box_start_stages:
  assumes "box_start fuel L b = (b', Ok u)" and "managed p"
  shows "stage_of p b' = Some (True, StartStateStarted)"
  using stages_after [OF assms(1) [unfolded box_start_steps], of p] assms(2)
  by (auto simp: preStart_steps_def start_steps_def managed_def)

text \<open>Closing.\<close>

lemma part_Close_started:
  "stage_of q (part_Close p b) =
    (if q = p then map_option (\<lambda>(_, st). (False, st)) (stage_of p b) else stage_of q b)"
  "b_done (part_Close p b) = b_done b"
  by (cases p; cases q; auto simp: part_Close_def endpoint_Close_def inbound_Close_def service_Close_def
      simple_Close_def outbound_Close_def transport_Close_def)+

lemma fold_Close:
  "b_done (fold part_Close ps b) = b_done b"
  "q \<in> set ps \<Longrightarrow> stage_of q (fold part_Close ps b) = map_option (\<lambda>(_, st). (False, st)) (stage_of q b)"
  "q \<notin> set ps \<Longrightarrow> stage_of q (fold part_Close ps b) = stage_of q b"
proof (induction ps arbitrary: b)
  case (Cons p ps)
  have idem: "map_option (\<lambda>(_, st). (False, st)) (map_option (\<lambda>(_, st). (False, st)) x) =
      map_option (\<lambda>(_, st). (False, st)) x" for x :: "(bool \<times> StartStage) option"
    by (cases x) (auto split: prod.splits)
  { case 1 show ?case using Cons.IH(1) by (simp add: part_Close_started) }
  { case 2 then show ?case using Cons.IH(2,3) by (cases "q \<in> set ps") (auto simp: part_Close_started idem) }
  { case 3 then show ?case using Cons.IH(3) by (simp add: part_Close_started) }
qed simp_all

lemma box_Close_stops:
  assumes "\<not> b_done b" and "managed p"
  shows "b_done (fst (box_Close joined b))" "\<exists>st. stage_of p (fst (box_Close joined b)) = Some (False, st)"
proof -
  have skip: "stage_of p (b'\<lparr>b_trace := tr\<rparr>) = stage_of p b'" "stage_of p (b'\<lparr>b_done := x\<rparr>) = stage_of p b'" for b' tr x
    by (cases p; simp)+
  have "p \<in> set close_order" using assms(2) by (auto simp: managed_def close_order_def)
  moreover obtain y where "stage_of p b = Some y" using assms(2) by (cases p) (auto simp: managed_def)
  ultimately show "\<exists>st. stage_of p (fst (box_Close joined b)) = Some (False, st)"
    using assms(1) by (cases y) (simp add: box_Close_def Let_def fold_Close skip)
  show "b_done (fst (box_Close joined b))" using assms(1) by (simp add: box_Close_def Let_def fold_Close)
qed

lemma part_Start_done: "b_done (fst (part_Start fuel L st p b)) = b_done b"
  by (cases p) (simp_all add: part_Start_def split: prod.split)

lemma run_all_done:
  "(\<And>x b. b_done (fst (f x b)) = b_done b) \<Longrightarrow> b_done (fst (run_all f xs b)) = b_done b"
proof (induction xs arbitrary: b)
  case (Cons x xs)
  obtain b1 r where "f x b = (b1, r)" by fastforce
  with Cons.prems [of x b] Cons.IH [OF Cons.prems, of b1] show ?case by (cases r) simp_all
qed simp

lemma do_step_done: "b_done (fst (do_step fuel L s b)) = b_done b"
  by (cases s) (simp_all add: do_step_def run_all_done part_Start_done split: prod.split)

text \<open>
  C3: Starting a box that was not closed is all or nothing: on success every manager has reached
  the last stage, and after an error every manager is stopped and the box closed for good.
\<close>

theorem box_Start_all_or_nothing:
  assumes "\<not> b_done b" and "box_Start joined fuel L b = (b', r)" and "managed p"
  shows "(r = Ok () \<longrightarrow> stage_of p b' = Some (True, StartStateStarted) \<and> \<not> b_done b') \<and>
    (\<forall>e. r = Err e \<longrightarrow> (\<exists>st. stage_of p b' = Some (False, st)) \<and> b_done b' \<and>
       snd (box_Close joined b') = Some ErrClosed)"
proof -
  obtain b1 r1 where s: "box_start fuel L b = (b1, r1)" by fastforce
  have d: "\<not> b_done b1" using run_all_done [of "do_step fuel L", OF do_step_done] s assms(1)
    by (metis box_start_steps fst_conv)
  show ?thesis
  proof (cases r1)
    case (Err e)
    with assms(2) s have "b' = fst (box_Close joined b1)" "r = Err e" by (simp_all add: box_Start_def or_close_def)
    with box_Close_stops [OF d assms(3), of joined] show ?thesis by (simp add: box_Close_def)
  qed (use assms(2,3) s d box_start_stages in \<open>auto simp: box_Start_def or_close_def\<close>)
qed

text \<open>\<open>Start\<close> runs \<open>preStart\<close> itself, so it never succeeds on a box that was pre-started.\<close>

lemma Start_after_PreStart:
  assumes "box_PreStart joined fuel L b = (b1, Ok ())"
  shows "snd (box_Start joined fuel L b1) \<noteq> Ok ()"
proof
  assume a: "snd (box_Start joined fuel L b1) = Ok ()"
  from assms have pre: "preStart fuel L b = (b1, Ok ())"
    by (auto simp: box_PreStart_def or_close_def split: prod.splits res.splits)
  from a obtain b' where "box_start fuel L b1 = (b', Ok ())"
    by (auto simp: box_Start_def or_close_def split: prod.splits res.splits)
  then obtain b2 u where "preStart fuel L b1 = (b2, Ok u)"
    by (auto simp: box_start_def split: prod.splits res.splits)
  then obtain b3 b4 b5 v1 v2 v3 where l: "do_step fuel L SLogger b1 = (b3, Ok v1)"
    and n: "do_step fuel L (SNamed StartStateInitialize) b3 = (b4, Ok v2)"
    and i: "do_step fuel L (SParts StartStateInitialize
        [PNetwork, PDnsTransport, PDnsRouter, PConnection, PRouter, POutbound, PInbound, PEndpoint, PService]) b4 = (b5, Ok v3)"
    unfolding preStart_def preStart_steps_def run_all_Cons_Ok by blast
  from i obtain b6 b7 v4 v5 where p: "part_Start fuel L StartStateInitialize PNetwork b4 = (b6, Ok v4)"
    and q: "part_Start fuel L StartStateInitialize PDnsTransport b6 = (b7, Ok v5)"
    unfolding do_step_def box_step.case run_all_Cons_Ok by blast
  have "stage_of PDnsTransport b6 = Some (True, StartStateStart)"
    using preStart_stages(2) [OF pre] do_step_stage [OF l] do_step_stage [OF n] part_Start_stage(1) [OF p] by simp
  from part_Start_panics [OF this] q show False by (simp add: go_simps)
qed

section \<open>The order of the calls\<close>

lemma transport_start1_appends:
  "appends (\<lambda>x. if is_lifecycle x then [(obj_id x, CStart StartStateStart)] else []) transport_start1"
  by (simp add: appends_def transport_start1_def)

text \<open>What starting leaves as it is, and that the trace only grows.\<close>

definition kept :: "Box \<Rightarrow> Box \<Rightarrow> bool" where
  "kept b b' \<longleftrightarrow> objects (b_inbound b') = objects (b_inbound b) \<and> objects (b_endpoint b') = objects (b_endpoint b) \<and>
     objects (b_dnsTransport b') = objects (b_dnsTransport b) \<and> set (objects (b_outbound b)) \<subseteq> set (objects (b_outbound b')) \<and>
     (\<forall>p. plain_part p b' = plain_part p b) \<and> (\<exists>ys. b_trace b' = b_trace b @ ys)"

lemma kept_refl [simp]: "kept b b"
  by (simp add: kept_def)

lemma kept_trans: "kept a b \<Longrightarrow> kept b c \<Longrightarrow> kept a c"
  by (auto simp: kept_def)

lemma outbound_start_all_calls:
  assumes "outbound_start_all fuel L e m tr = (m', tr', Ok u)" and "sing_common_ok L"
  shows "m' = m \<and> (\<exists>xs. mset xs = mset (objects m @ objects e) \<and>
    tr' = tr @ concat (map (\<lambda>x. stage_calls x StartStateStart) xs))"
proof -
  have "sc_Map L (objects e) (\<lambda>it. it) = objects e" using sing_common_okD [OF assms(2)] by (simp add: sing_ref_def)
  with assms(1) have "startOutbounds fuel L (byTag m) (objects m @ objects e) tr = (tr', Ok u)" and m: "m' = m"
    by (auto simp: outbound_start_all_def endpoint_Endpoints_def split: prod.splits)
  from start_in_order_Ok [OF outbound_start1_appends this(1) [unfolded startOutbounds_def]] m
  show ?thesis by blast
qed

lemma outbound_Start_effect:
  assumes "outbound_Start fuel L e st m tr = (m', tr', Ok u)" and "sing_common_ok L"
  shows "set (objects m) \<subseteq> set (objects m') \<and> (\<exists>ys. tr' = tr @ ys \<and>
    (st = StartStateStart \<longrightarrow> (\<forall>x \<in> set (objects m) \<union> set (objects e). set (stage_calls x StartStateStart) \<subseteq> set ys)))"
proof (cases "st = StartStateStart")
  case True
  with assms(1) have "\<exists>m2. outbound_start_all fuel L e m2 tr = (m', tr', Ok u) \<and> set (objects m) \<subseteq> set (objects m2)"
    by (fastforce simp: outbound_Start_def Let_def split: if_splits option.splits sum.splits)
  then obtain m2 where m2: "outbound_start_all fuel L e m2 tr = (m', tr', Ok u)"
    "set (objects m) \<subseteq> set (objects m2)" by blast
  from outbound_start_all_calls [OF m2(1) assms(2)] obtain xs where
    xs: "m' = m2" "mset xs = mset (objects m2 @ objects e)" "tr' = tr @ concat (map (\<lambda>x. stage_calls x StartStateStart) xs)"
    by blast
  from xs(2) have "set xs = set (objects m2) \<union> set (objects e)" by (metis mset_eq_setD set_append)
  with xs m2(2) show ?thesis by (intro conjI exI [of _ "concat (map (\<lambda>x. stage_calls x StartStateStart) xs)"]) auto
next
  case False
  with assms(1) show ?thesis
    by (auto simp: outbound_Start_def Let_def split: if_splits prod.splits dest: start_loop_extends)
qed

lemma part_Start_kept:
  assumes "part_Start fuel L st p b = (b', Ok u)" and "sing_common_ok L"
  shows "kept b b'"
proof (cases "p = POutbound \<or> p = PDnsTransport \<and> st = StartStateStart")
  case False
  with assms(1) show ?thesis
    by (cases p) (auto simp: part_Start_def kept_def plain_part_def endpoint_Start_def inbound_Start_def
        service_Start_def transport_Start_def do_call_def Let_def
        split: if_splits prod.splits part.splits dest: start_loop_extends)
next
  case True
  then show ?thesis
  proof
    assume "p = POutbound"
    with assms show ?thesis
      by (auto simp: part_Start_def kept_def plain_part_def split: prod.splits part.splits dest!: outbound_Start_effect)
  next
    assume "p = PDnsTransport \<and> st = StartStateStart"
    with assms(1) start_in_order_Ok [OF transport_start1_appends] show ?thesis
      by (fastforce simp: part_Start_def kept_def plain_part_def transport_Start_def startTransports_def Let_def
          split: if_splits prod.splits part.splits)
  qed
qed

lemma run_parts_kept:
  "run_all (part_Start fuel L st) ps b = (b', Ok u) \<Longrightarrow> sing_common_ok L \<Longrightarrow> kept b b'"
proof (induction ps arbitrary: b)
  case (Cons p ps)
  from Cons.prems(1) obtain b1 v where p: "part_Start fuel L st p b = (b1, Ok v)"
    "run_all (part_Start fuel L st) ps b1 = (b', Ok u)" unfolding run_all_Cons_Ok by blast
  from part_Start_kept [OF p(1) Cons.prems(2)] Cons.IH [OF p(2) Cons.prems(2)] show ?case by (rule kept_trans)
qed simp

lemma StartNamed_extends: "adapter_StartNamed st xs tr = (tr', e) \<Longrightarrow> \<exists>ys. tr' = tr @ ys"
proof (induction xs arbitrary: tr)
  case (Cons y xs)
  obtain nm x where y: "y = (nm, x)" by fastforce
  show ?case
  proof (cases "obj_call x tr (CStart st)")
    case None
    with Cons.prems Cons.IH [of "tr @ [(obj_id x, CStart st)]"] show ?thesis by (auto simp: y do_call_def)
  qed (use Cons.prems in \<open>auto simp: y do_call_def\<close>)
qed simp

lemma do_step_kept:
  assumes "do_step fuel L s b = (b', Ok u)" and "sing_common_ok L"
  shows "kept b b'"
proof (cases s)
  case (SParts st ps)
  then show ?thesis using assms run_parts_kept by (simp add: do_step_def)
qed (use assms in \<open>auto simp: do_step_def kept_def plain_part_def do_call_def check_err_def
       split: prod.splits part.splits option.splits dest: StartNamed_extends\<close>)

lemma run_steps_kept:
  "run_all (do_step fuel L) ss b = (b', Ok u) \<Longrightarrow> sing_common_ok L \<Longrightarrow> kept b b'"
proof (induction ss arbitrary: b)
  case (Cons s ss)
  from Cons.prems(1) obtain b1 v where s: "do_step fuel L s b = (b1, Ok v)"
    "run_all (do_step fuel L) ss b1 = (b', Ok u)" unfolding run_all_Cons_Ok by blast
  from do_step_kept [OF s(1) Cons.prems(2)] Cons.IH [OF s(2) Cons.prems(2)] show ?case by (rule kept_trans)
qed simp

text \<open>The calls that make up the stage \<open>Start\<close> of a part that \<open>preStart\<close> starts.\<close>

definition part_calls :: "part \<Rightarrow> Box \<Rightarrow> (nat \<times> call) set" where
  "part_calls p b =
     (case p of
        POutbound \<Rightarrow> (\<Union>x \<in> set (objects (b_outbound b)) \<union> set (objects (b_endpoint b)). set (stage_calls x StartStateStart))
      | PDnsTransport \<Rightarrow> (\<lambda>x. (obj_id x, CStart StartStateStart)) ` {x \<in> set (objects (b_dnsTransport b)). is_lifecycle x}
      | PInbound \<Rightarrow> {} | PEndpoint \<Rightarrow> {} | PService \<Rightarrow> {}
      | _ \<Rightarrow> {(obj_id (plain_part p b), CStart StartStateStart)})"

lemma part_calls_mono: "kept b b' \<Longrightarrow> part_calls p b \<subseteq> part_calls p b'"
  by (cases p) (auto simp: part_calls_def kept_def)

lemma kept_trace: "kept b b' \<Longrightarrow> set (b_trace b) \<subseteq> set (b_trace b')"
  by (auto simp: kept_def)

lemma part_Start_recorded:
  assumes "part_Start fuel L StartStateStart p b = (b', Ok u)" and "sing_common_ok L"
  shows "part_calls p b \<subseteq> set (b_trace b')"
proof (cases p)
  case POutbound
  with assms show ?thesis
    by (fastforce simp: part_Start_def part_calls_def split: prod.splits dest!: outbound_Start_effect)
next
  case PDnsTransport
  with assms(1) obtain tr' where t: "startTransports fuel L (byTag (b_dnsTransport b)) (objects (b_dnsTransport b)) (b_trace b) = (tr', Ok u)"
    "b_trace b' = tr'" by (auto simp: part_Start_def transport_Start_def Let_def split: if_splits prod.splits)
  from start_in_order_Ok [OF transport_start1_appends t(1) [unfolded startTransports_def]] obtain xs where
    xs: "mset xs = mset (objects (b_dnsTransport b))"
      "tr' = b_trace b @ concat (map (\<lambda>x. if is_lifecycle x then [(obj_id x, CStart StartStateStart)] else []) xs)" by blast
  from xs(1) have "set xs = set (objects (b_dnsTransport b))" by (rule mset_eq_setD)
  with PDnsTransport t(2) xs(2) show ?thesis by (auto simp: part_calls_def)
qed (use assms(1) in \<open>auto simp: part_Start_def part_calls_def plain_part_def do_call_def split: prod.splits\<close>)

lemma run_parts_recorded:
  "run_all (part_Start fuel L StartStateStart) ps b = (b', Ok u) \<Longrightarrow> sing_common_ok L \<Longrightarrow> p \<in> set ps \<Longrightarrow>
   part_calls p b \<subseteq> set (b_trace b')"
proof (induction ps arbitrary: b)
  case (Cons q ps)
  from Cons.prems(1) obtain b1 v where q: "part_Start fuel L StartStateStart q b = (b1, Ok v)"
    and r: "run_all (part_Start fuel L StartStateStart) ps b1 = (b', Ok u)" unfolding run_all_Cons_Ok by blast
  note k = part_Start_kept [OF q Cons.prems(2)] and k' = run_parts_kept [OF r Cons.prems(2)]
  show ?case
  proof (cases "p = q")
    case True
    then show ?thesis using part_Start_recorded [OF q Cons.prems(2)] kept_trace [OF k'] by blast
  next
    case False
    with Cons.prems(3) have "p \<in> set ps" by simp
    with Cons.IH [OF r Cons.prems(2)] part_calls_mono [OF k] show ?thesis by blast
  qed
qed simp

text \<open>
  C31: In a successful start the inbounds are started only after everything a connection needs: when
  they get their \<open>Start\<close>, every outbound and endpoint, every DNS server, the network manager,
  both routers and the connection manager have got theirs.
\<close>

theorem inbounds_start_last:
  assumes "box_Start joined fuel L b = (b', Ok ())" and "sing_common_ok L"
  shows "\<exists>tr1 tr2. b_trace b' = tr1 @ concat (map (\<lambda>x. stage_calls x StartStateStart) (objects (b_inbound b))) @ tr2 \<and>
    (\<forall>p \<in> {POutbound, PDnsTransport, PDnsRouter, PNetwork, PConnection, PRouter}. part_calls p b \<subseteq> set tr1)"
proof -
  let ?ps = "[POutbound, PDnsTransport, PDnsRouter, PNetwork, PConnection, PRouter]"
  let ?init = "[PNetwork, PDnsTransport, PDnsRouter, PConnection, PRouter, POutbound, PInbound, PEndpoint, PService]"
  from assms(1) have "box_start fuel L b = (b', Ok ())"
    by (auto simp: box_Start_def or_close_def split: prod.splits res.splits)
  moreover have "preStart_steps @ start_steps =
      [SLogger, SNamed StartStateInitialize, SParts StartStateInitialize ?init] @
      [SParts StartStateStart ?ps, SNamed StartStateStart, SParts StartStateStart [PInbound, PEndpoint, PService]] @
      drop 2 start_steps" by (simp add: preStart_steps_def start_steps_def)
  ultimately obtain c3 c4 c5 c6 v3 v4 v5 v6 where
      first: "run_all (do_step fuel L) [SLogger, SNamed StartStateInitialize, SParts StartStateInitialize ?init] b = (c3, Ok v3)"
    and parts: "do_step fuel L (SParts StartStateStart ?ps) c3 = (c4, Ok v4)"
    and named: "do_step fuel L (SNamed StartStateStart) c4 = (c5, Ok v5)"
    and ins: "do_step fuel L (SParts StartStateStart [PInbound, PEndpoint, PService]) c5 = (c6, Ok v6)"
    and rest: "run_all (do_step fuel L) (drop 2 start_steps) c6 = (b', Ok ())"
    by (simp only: box_start_steps run_all_append_Ok)
       (simp only: run_all_Cons_Ok run_all.simps(1) prod.inject, blast)
  from ins obtain d v7 where inb: "part_Start fuel L StartStateStart PInbound c5 = (d, Ok v7)"
    and aft: "run_all (part_Start fuel L StartStateStart) [PEndpoint, PService] d = (c6, Ok v6)"
    unfolding do_step_def box_step.case run_all_Cons_Ok by blast
  note k3 = run_steps_kept [OF first assms(2)] and k4 = do_step_kept [OF parts assms(2)]
    and k5 = do_step_kept [OF named assms(2)]
    and k7 = kept_trans [OF run_parts_kept [OF aft assms(2)] run_steps_kept [OF rest assms(2)]]
  have ib: "objects (b_inbound c5) = objects (b_inbound b)"
    using kept_trans [OF k3 kept_trans [OF k4 k5]] by (simp add: kept_def)
  from inb have "b_trace d = b_trace c5 @ concat (map (\<lambda>x. stage_calls x StartStateStart) (objects (b_inbound b)))"
    using ib by (auto simp: part_Start_def inbound_Start_def Let_def split: if_splits prod.splits dest: start_loop_calls)
  moreover obtain tr2 where "b_trace b' = b_trace d @ tr2" using k7 by (auto simp: kept_def)
  moreover have "part_calls p b \<subseteq> set (b_trace c5)" if "p \<in> set ?ps" for p
    using run_parts_recorded [of fuel L ?ps c3 c4 v4 p] parts assms(2) that part_calls_mono [OF k3, of p]
      kept_trace [OF k5] by (auto simp: do_step_def)
  ultimately show ?thesis by (intro exI [of _ "b_trace c5"] exI [of _ tr2]) simp
qed

section \<open>When nothing fails\<close>

text \<open>
  No component fails, the outbounds (with the endpoints) and the DNS servers have an order that
  respects their dependencies, and the defaults are there.
\<close>

definition calls_ok :: "obj \<Rightarrow> bool" where
  "calls_ok x \<longleftrightarrow> (\<forall>tr c. obj_call x tr c = None)"

definition orderable :: "obj list \<Rightarrow> bool" where
  "orderable os \<longleftrightarrow> distinct (map obj_tag os) \<and> (\<exists>xs. mset xs = mset os \<and> topo [] xs)"

definition calm :: "Box \<Rightarrow> bool" where
  "calm b \<longleftrightarrow> (\<forall>x \<in> set (objects (b_endpoint b)) \<union> set (objects (b_inbound b)) \<union> set (objects (b_outbound b)) \<union>
       set (objects (b_service b)) \<union> set (objects (b_dnsTransport b)) \<union> snd ` set (b_internalService b) \<union>
       {b_logFactory b, b_network b, b_dnsRouter b, b_connection b, b_router b}. calls_ok x) \<and>
     orderable (objects (b_outbound b) @ objects (b_endpoint b)) \<and> orderable (objects (b_dnsTransport b)) \<and>
     defaultObj (b_outbound b) \<noteq> None \<and>
     (defaultTag (b_dnsTransport b) = [] \<or> defaultObj (b_dnsTransport b) \<noteq> None)"

lemma calm_updates [simp]:
  "calm (b\<lparr>b_trace := tr\<rparr>) = calm b"
  "calm (b\<lparr>b_endpoint := (b_endpoint b)\<lparr>started := s, stage := st\<rparr>\<rparr>) = calm b"
  "calm (b\<lparr>b_inbound := (b_inbound b)\<lparr>started := s, stage := st\<rparr>\<rparr>) = calm b"
  "calm (b\<lparr>b_service := (b_service b)\<lparr>started := s, stage := st\<rparr>\<rparr>) = calm b"
  "calm (b\<lparr>b_outbound := (b_outbound b)\<lparr>started := s, stage := st\<rparr>\<rparr>) = calm b"
  "calm (b\<lparr>b_dnsTransport := (b_dnsTransport b)\<lparr>started := s, stage := st\<rparr>\<rparr>) = calm b"
  by (simp_all add: calm_def)

lemma start_loop_ok: "\<forall>x \<in> set xs. calls_ok x \<Longrightarrow> \<exists>tr'. start_loop kind st xs tr = (tr', None)"
  by (induction xs arbitrary: tr) (auto simp: LegacyStart_def do_call_def calls_ok_def split: StartStage.split)

lemma start_in_order_ok:
  assumes "orderable os" and "\<forall>x \<in> set os. \<forall>tr. snd (start1 x tr) = None"
  shows "\<exists>tr'. start_in_order fuel W start1 L bt os tr = (tr', Ok ())"
proof -
  from assms(1) obtain xs where "distinct (map obj_tag os)" "mset xs = mset os" "topo [] xs"
    by (auto simp: orderable_def)
  from start_rounds_complete [OF assms(2) this(3,2,1), of "[]" fuel W L bt tr]
  show ?thesis by (cases "start_in_order fuel W start1 L bt os tr") (simp add: start_in_order_def)
qed

definition can_start :: "StartStage \<Rightarrow> (bool \<times> StartStage) option \<Rightarrow> bool" where
  "can_start st x = (case x of None \<Rightarrow> True | Some (s, st') \<Rightarrow> \<not> (s \<and> st \<le> st'))"

lemma outbound_Start_ok:
  assumes "calm b" and "\<not> (started (b_outbound b) \<and> st \<le> stage (b_outbound b))" and "sing_common_ok L"
  shows "\<exists>tr'. outbound_Start fuel L (b_endpoint b) st (b_outbound b) tr =
    ((b_outbound b)\<lparr>started := True, stage := st\<rparr>, tr', Ok ())"
proof -
  from assms(3) have m: "sc_Map L (objects (b_endpoint b)) (\<lambda>it. it) = objects (b_endpoint b)"
    using sing_common_okD [OF assms(3)] by (simp add: sing_ref_def)
  from assms(1) have d: "\<not> Option.is_none (defaultObj (b_outbound b))" by (auto simp: calm_def Option.is_none_def)
  have "\<exists>tr'. startOutbounds fuel L (byTag (b_outbound b)) (objects (b_outbound b) @ objects (b_endpoint b)) tr = (tr', Ok ())"
    unfolding startOutbounds_def using assms(1)
    by (intro start_in_order_ok) (auto simp: calm_def calls_ok_def outbound_start1_def do_call_def)
  moreover have "\<exists>tr'. start_loop '' outbound/'' st (objects (b_outbound b)) tr = (tr', None)"
    using assms(1) by (intro start_loop_ok) (simp add: calm_def)
  ultimately show ?thesis using assms(2) d m
    by (auto simp: outbound_Start_def outbound_start_all_def endpoint_Endpoints_def Let_def)
qed

lemma transport_Start_ok:
  assumes "calm b" and "\<not> (started (b_dnsTransport b) \<and> st \<le> stage (b_dnsTransport b))"
  shows "\<exists>tr'. transport_Start fuel L st (b_dnsTransport b) tr =
    ((b_dnsTransport b)\<lparr>started := True, stage := st\<rparr>, tr', Ok ())"
proof -
  from assms(1) have d: "\<not> (defaultTag (b_dnsTransport b) \<noteq> [] \<and> Option.is_none (defaultObj (b_dnsTransport b)))"
    by (auto simp: calm_def Option.is_none_def)
  have "\<exists>tr'. startTransports fuel L (byTag (b_dnsTransport b)) (objects (b_dnsTransport b)) tr = (tr', Ok ())"
    unfolding startTransports_def using assms(1)
    by (intro start_in_order_ok) (auto simp: calm_def calls_ok_def transport_start1_def do_call_def)
  moreover have "\<exists>tr'. start_loop '' dns/'' st (objects (b_dnsTransport b)) tr = (tr', None)"
    using assms(1) by (intro start_loop_ok) (simp add: calm_def)
  ultimately show ?thesis using assms(2) d by (auto simp: transport_Start_def Let_def)
qed

lemma part_Start_ok:
  assumes "calm b" and "can_start st (stage_of p b)" and "sing_common_ok L"
  shows "\<exists>b'. part_Start fuel L st p b = (b', Ok ()) \<and> calm b'"
proof -
  have loop: "\<exists>tr'. start_loop k st (objects m) tr = (tr', None)"
    if "m \<in> {b_endpoint b, b_inbound b, b_service b}" for m k tr
    using assms(1) that by (intro start_loop_ok) (auto simp: calm_def)
  have c: "obj_call (plain_part p b) tr c = None" for tr c
    using assms(1) by (cases p) (simp_all add: calm_def calls_ok_def plain_part_def)
  show ?thesis
  proof (cases p)
    case POutbound
    with outbound_Start_ok [OF assms(1) _ assms(3), of st fuel "b_trace b"] assms(1,2) show ?thesis
      by (auto simp: part_Start_def can_start_def)
  next
    case PDnsTransport
    with transport_Start_ok [OF assms(1), of st fuel L "b_trace b"] assms(1,2) show ?thesis
      by (auto simp: part_Start_def can_start_def)
  next
    case PEndpoint
    with loop [of "b_endpoint b" "'' endpoint/''" "b_trace b"] assms(1,2) show ?thesis
      by (auto simp: part_Start_def can_start_def endpoint_Start_def Let_def)
  next
    case PInbound
    with loop [of "b_inbound b" "'' inbound/''" "b_trace b"] assms(1,2) show ?thesis
      by (auto simp: part_Start_def can_start_def inbound_Start_def Let_def)
  next
    case PService
    with loop [of "b_service b" "'' service/''" "b_trace b"] assms(1,2) show ?thesis
      by (auto simp: part_Start_def can_start_def service_Start_def Let_def)
  qed (use assms(1) c in \<open>simp_all add: part_Start_def do_call_def\<close>)
qed

lemma run_parts_ok:
  "calm b \<Longrightarrow> distinct ps \<Longrightarrow> \<forall>p \<in> set ps. can_start st (stage_of p b) \<Longrightarrow> sing_common_ok L \<Longrightarrow>
   \<exists>b'. run_all (part_Start fuel L st) ps b = (b', Ok ()) \<and> calm b'"
proof (induction ps arbitrary: b)
  case (Cons p ps)
  from part_Start_ok [OF Cons.prems(1) _ Cons.prems(4), of st p fuel] Cons.prems(3) obtain b1 where
    b1: "part_Start fuel L st p b = (b1, Ok ())" "calm b1" by auto
  have "\<forall>q \<in> set ps. can_start st (stage_of q b1)"
    using Cons.prems(2,3) part_Start_stage(1) [OF b1(1)] by auto
  with Cons.IH [OF b1(2)] Cons.prems(2,4) show ?case by (auto simp: b1(1))
qed simp

text \<open>The steps never take a manager back to a stage it has reached.\<close>

fun plan_ok :: "box_step list \<Rightarrow> (part \<Rightarrow> (bool \<times> StartStage) option) \<Rightarrow> bool" where
  "plan_ok [] g = True"
| "plan_ok (SParts st ps # ss) g =
     (distinct ps \<and> (\<forall>p \<in> set ps. can_start st (g p)) \<and>
      plan_ok ss (\<lambda>q. if q \<in> set ps \<and> managed q then Some (True, st) else g q))"
| "plan_ok (_ # ss) g = plan_ok ss g"

lemma StartNamed_ok: "\<forall>x \<in> snd ` set xs. calls_ok x \<Longrightarrow> \<exists>tr'. adapter_StartNamed st xs tr = (tr', None)"
  by (induction xs arbitrary: tr) (auto simp: do_call_def calls_ok_def)

lemma run_steps_ok:
  "calm b \<Longrightarrow> plan_ok ss (\<lambda>q. stage_of q b) \<Longrightarrow> sing_common_ok L \<Longrightarrow>
   \<exists>b'. run_all (do_step fuel L) ss b = (b', Ok ())"
proof (induction ss arbitrary: b)
  case (Cons s ss)
  have "\<exists>b1. do_step fuel L s b = (b1, Ok ()) \<and> calm b1"
  proof (cases s)
    case SLogger
    then show ?thesis using Cons.prems(1) by (simp add: do_step_def do_call_def check_err_def calm_def calls_ok_def)
  next
    case (SNamed st)
    moreover from Cons.prems(1) have "\<exists>tr'. adapter_StartNamed st (b_internalService b) (b_trace b) = (tr', None)"
      by (intro StartNamed_ok) (simp add: calm_def)
    ultimately show ?thesis using Cons.prems(1) by (auto simp: do_step_def)
  next
    case (SParts st ps)
    then show ?thesis using run_parts_ok [OF Cons.prems(1), of ps st L fuel] Cons.prems(2,3) by (simp add: do_step_def)
  qed
  then obtain b1 where b1: "do_step fuel L s b = (b1, Ok ())" "calm b1" by blast
  have "(\<lambda>q. stage_of q b1) = (case s of SParts st ps \<Rightarrow> (\<lambda>q. if q \<in> set ps \<and> managed q then Some (True, st) else stage_of q b)
      | _ \<Rightarrow> (\<lambda>q. stage_of q b))"
    using do_step_stage [OF b1(1)] by (cases s) (auto simp: fun_eq_iff)
  then have "plan_ok ss (\<lambda>q. stage_of q b1)" using Cons.prems(2) by (cases s) simp_all
  from Cons.IH [OF b1(2) this Cons.prems(3)] show ?case by (simp add: b1(1))
qed simp

definition fresh_box :: "Box \<Rightarrow> bool" where
  "fresh_box b \<longleftrightarrow> \<not> started (b_endpoint b) \<and> \<not> started (b_inbound b) \<and> \<not> started (b_outbound b) \<and>
     \<not> started (b_service b) \<and> \<not> started (b_dnsTransport b)"

lemma calm_box_starts:
  assumes "calm b" and "fresh_box b" and "sing_common_ok L"
  shows "\<exists>b'. box_Start joined fuel L b = (b', Ok ())"
proof -
  have "plan_ok (preStart_steps @ start_steps) (\<lambda>q. stage_of q b)"
    using assms(2) by (simp add: preStart_steps_def start_steps_def can_start_def managed_def fresh_box_def go_simps)
  from run_steps_ok [OF assms(1) this assms(3), of fuel] show ?thesis
    by (auto simp: box_Start_def or_close_def box_start_steps)
qed


text \<open>A box with one inbound, one outbound and one DNS server.\<close>

definition demo_box :: Box where
  "demo_box = \<lparr>b_logFactory = demo_obj 10 ''log'', b_network = demo_obj 11 ''network'', b_endpoint = new_manager,
     b_inbound = new_manager\<lparr>objects := [demo_obj 4 ''in'']\<rparr>,
     b_outbound = (outbound_NewManager [])\<lparr>objects := [demo_obj 1 ''out''], byTag := [''out'' \<mapsto> demo_obj 1 ''out''],
       defaultObj := Some (demo_obj 1 ''out'')\<rparr>,
     b_service = new_manager,
     b_dnsTransport = (transport_NewManager [])\<lparr>objects := [demo_obj 2 ''dns''], byTag := [''dns'' \<mapsto> demo_obj 2 ''dns'']\<rparr>,
     b_dnsRouter = demo_obj 12 ''dns'', b_connection = demo_obj 13 ''connection'', b_router = demo_obj 14 ''router'',
     b_internalService = [(''cache-file'', demo_obj 17 [])], b_done = False, b_trace = []\<rparr>"

lemma demo_box_calm: "calm demo_box" "fresh_box demo_box"
proof -
  have "orderable [demo_obj 1 ''out'']" "orderable [demo_obj 2 ''dns'']"
    by (auto simp: orderable_def demo_obj_def intro: exI [of _ "[x]" for x])
  then show "calm demo_box" "fresh_box demo_box"
    by (simp_all add: calm_def fresh_box_def calls_ok_def demo_box_def new_manager_def outbound_NewManager_def
        transport_NewManager_def demo_obj_def)
qed

lemma demo_box_starts: "snd (box_Start (\<lambda>_. None) 3 sing_ref demo_box) = Ok ()"
  using calm_box_starts [OF demo_box_calm sing_ref_ok, of "\<lambda>_. None" 3] by auto


theorem box_Start_all_or_nothing_witness:
  "stage_of PInbound (fst (box_Start (\<lambda>_. None) 3 sing_ref demo_box)) = Some (True, StartStateStarted)"
proof -
  obtain b' where b': "box_Start (\<lambda>_. None) 3 sing_ref demo_box = (b', Ok ())"
    using demo_box_starts by (cases "box_Start (\<lambda>_. None) 3 sing_ref demo_box") simp
  have "\<not> b_done demo_box" by (simp add: demo_box_def)
  from box_Start_all_or_nothing [OF this b', of PInbound] b' show ?thesis by (simp add: managed_def)
qed

theorem inbounds_start_last_witness:
  "\<exists>b' tr1 tr2. box_Start (\<lambda>_. None) 3 sing_ref demo_box = (b', Ok ()) \<and>
     b_trace b' = tr1 @ [(4, CStart StartStateStart)] @ tr2 \<and>
     {(1, CStart StartStateStart), (2, CStart StartStateStart), (14, CStart StartStateStart)} \<subseteq> set tr1"
proof -
  obtain b' where b': "box_Start (\<lambda>_. None) 3 sing_ref demo_box = (b', Ok ())"
    using demo_box_starts by (cases "box_Start (\<lambda>_. None) 3 sing_ref demo_box") simp
  have ob: "is_lifecycle (demo_obj i t)" "obj_id (demo_obj i t) = i" for i t by (simp_all add: demo_obj_def)
  have c: "part_calls POutbound demo_box = {(1, CStart StartStateStart)}"
    "part_calls PDnsTransport demo_box = {(2, CStart StartStateStart)}"
    "part_calls PRouter demo_box = {(14, CStart StartStateStart)}"
    "concat (map (\<lambda>x. stage_calls x StartStateStart) (objects (b_inbound demo_box))) = [(4, CStart StartStateStart)]"
    by (auto simp: part_calls_def demo_box_def new_manager_def stage_calls_def ob plain_part_def)
  from inbounds_start_last [OF b' sing_ref_ok] obtain tr1 tr2 where
    t: "b_trace b' = tr1 @ [(4, CStart StartStateStart)] @ tr2"
    and all: "\<forall>p \<in> {POutbound, PDnsTransport, PDnsRouter, PNetwork, PConnection, PRouter}. part_calls p demo_box \<subseteq> set tr1"
    unfolding c(4) by blast
  from all have "part_calls POutbound demo_box \<subseteq> set tr1" "part_calls PDnsTransport demo_box \<subseteq> set tr1"
    "part_calls PRouter demo_box \<subseteq> set tr1" by simp_all
  then have "{(1, CStart StartStateStart), (2, CStart StartStateStart), (14, CStart StartStateStart)} \<subseteq> set tr1"
    unfolding c(1-3) by simp
  with b' t show ?thesis by blast
qed

end
