(* ===== verification/Dns_Client.thy ===== *)
theory Dns_Client
  imports Dns_Message Sniff
begin

text \<open>
  The DNS client (\<open>core/dns/client.go\<close>, with \<open>FqdnToDomain\<close> of \<open>core/dns/client_log.go\<close>): one
  query over a given transport, with the cache of responses, the list of rejected responses and
  the rewriting of lifetimes.  The two LRU caches, the transports, the clock, the store of
  rejected responses and the methods of the message package are arguments; what changes outside
  the client is the world \<open>'w\<close>.  A function that may dereference nil or fail a type assertion
  returns a \<open>res\<close>.  The waiting of a second query for the first one of the same question is a
  matter of scheduling and is left out: a query runs alone here.
\<close>

section \<open>Foreign code\<close>

text \<open>A sharded LRU cache; the first argument is the time at which the call reads the clock.\<close>

record ('k, 'v, 's) lru =
  lru_Get :: "int \<Rightarrow> 'k \<Rightarrow> 's \<Rightarrow> 'v option \<times> 's"
  lru_GetWithLifetime :: "int \<Rightarrow> 'k \<Rightarrow> 's \<Rightarrow> ('v \<times> int) option \<times> 's"
  lru_Add :: "int \<Rightarrow> 'k \<Rightarrow> 'v \<Rightarrow> 's \<Rightarrow> 's"
  lru_AddWithLifetime :: "int \<Rightarrow> 'k \<Rightarrow> 'v \<Rightarrow> int \<Rightarrow> 's \<Rightarrow> 's"
  lru_Remove :: "'k \<Rightarrow> 's \<Rightarrow> 's"
  lru_Purge :: "'s \<Rightarrow> 's"

text \<open>The values of a context that the DNS code reads.\<close>

record dns_ctx =
  cx_Metadata :: "InboundContext option"
  cx_TransportTag :: "string option"

text \<open>A transport may return neither a response nor an error: \<open>Inr None\<close> is the nil response.\<close>

type_synonym transportCacheKey = "dns_Question \<times> string"

record ('a, 'b, 'w) dns_env =
  de_lru :: "(dns_Question, dns_msg, 'a) lru"
  de_lruT :: "(transportCacheKey, dns_msg, 'b) lru"
  de_New :: "32 word \<Rightarrow> 'a"
  de_NewT :: "32 word \<Rightarrow> 'b"
  de_Now :: "'w \<Rightarrow> int \<times> 'w"
  de_Exchange :: "obj \<Rightarrow> dns_ctx \<Rightarrow> dns_msg \<Rightarrow> 'w \<Rightarrow> (go_error + dns_msg option) \<times> 'w"
  de_LoadRDRC :: "string \<Rightarrow> string \<Rightarrow> 16 word \<Rightarrow> 'w \<Rightarrow> bool res \<times> 'w"
  de_SaveRDRCAsync :: "string \<Rightarrow> string \<Rightarrow> 16 word \<Rightarrow> 'w \<Rightarrow> 'w"
  de_exchange4_first :: "'w \<Rightarrow> bool"
  de_group_errors :: "go_error option \<Rightarrow> go_error option \<Rightarrow> go_error option"
  md_IsFqdn :: "string \<Rightarrow> bool"
  md_Fqdn :: "string \<Rightarrow> string"
  md_IsEdns0 :: "dns_msg \<Rightarrow> RR option"
  md_Version :: "RR \<Rightarrow> 8 word"
  md_UDPSize :: "RR \<Rightarrow> 16 word"
  md_Do :: "RR \<Rightarrow> bool"
  md_SetEdns0 :: "16 word \<Rightarrow> bool \<Rightarrow> dns_msg \<Rightarrow> dns_msg"
  M_AddrFromIP :: "string \<Rightarrow> addr"
  M_ParseAddr :: "string \<Rightarrow> addr"
  de_MapAddr :: "(string \<Rightarrow> addr) \<Rightarrow> string list \<Rightarrow> addr list"
  de_FilterRR :: "(RR \<Rightarrow> bool) \<Rightarrow> RR list \<Rightarrow> RR list"
  de_FilterSVCB :: "(SVCBKeyValue \<Rightarrow> bool) \<Rightarrow> SVCBKeyValue list \<Rightarrow> SVCBKeyValue list"

section \<open>The client\<close>

definition ErrNotCached :: go_error where
  "ErrNotCached = ENew [AStr ''not cached'']"

definition ErrResponseRejected :: go_error where
  "ErrResponseRejected = ENew [AStr ''response rejected'']"

definition ErrResponseRejectedCached :: go_error where
  "ErrResponseRejectedCached = EExtend ErrResponseRejected [AStr ''cached'']"

lemmas dns_errors = ErrNotCached_def ErrResponseRejected_def ErrResponseRejectedCached_def

record ('a, 'b, 'w) Client =
  cl_timeout :: int
  cl_disableCache :: bool
  cl_disableExpire :: bool
  cl_independentCache :: bool
  cl_clientSubnet :: prefix
  cl_rdrc :: bool
  cl_initRDRCFunc :: "('w \<Rightarrow> bool) option"
  cl_cache :: "'a option"
  cl_transportCache :: "'b option"

text \<open>\<open>rdrc\<close> is a reference to a store of the world: the field says that it is not nil.\<close>

record 'w ClientOptions =
  clo_Timeout :: int
  clo_DisableCache :: bool
  clo_DisableExpire :: bool
  clo_IndependentCache :: bool
  clo_CacheCapacity :: "32 word"
  clo_ClientSubnet :: prefix
  clo_RDRC :: "('w \<Rightarrow> bool) option"

definition DNSTimeout :: int where
  "DNSTimeout = 10 * 10 ^ 9"

definition NewClient :: "('a, 'b, 'w) dns_env \<Rightarrow> 'w ClientOptions \<Rightarrow> ('a, 'b, 'w) Client" where
  "NewClient env opt =
     (let capacity = if clo_CacheCapacity opt < 1024 then 1024 else clo_CacheCapacity opt in
      \<lparr>cl_timeout = (if clo_Timeout opt = 0 then DNSTimeout else clo_Timeout opt),
       cl_disableCache = clo_DisableCache opt, cl_disableExpire = clo_DisableExpire opt,
       cl_independentCache = clo_IndependentCache opt, cl_clientSubnet = clo_ClientSubnet opt,
       cl_rdrc = False, cl_initRDRCFunc = clo_RDRC opt,
       cl_cache = (if \<not> clo_DisableCache opt \<and> \<not> clo_IndependentCache opt then Some (de_New env capacity) else None),
       cl_transportCache =
         (if \<not> clo_DisableCache opt \<and> clo_IndependentCache opt then Some (de_NewT env capacity) else None)\<rparr>)"

definition client_Start :: "('a, 'b, 'w) Client \<Rightarrow> 'w \<Rightarrow> ('a, 'b, 'w) Client" where
  "client_Start c w = (case cl_initRDRCFunc c of None \<Rightarrow> c | Some f \<Rightarrow> c\<lparr>cl_rdrc := f w\<rparr>)"

definition client_ClearCache :: "('a, 'b, 'w) dns_env \<Rightarrow> ('a, 'b, 'w) Client \<Rightarrow> ('a, 'b, 'w) Client" where
  "client_ClearCache env c =
     (case cl_cache c of
        Some s \<Rightarrow> c\<lparr>cl_cache := Some (lru_Purge (de_lru env) s)\<rparr>
      | None \<Rightarrow> (case cl_transportCache c of
          Some s \<Rightarrow> c\<lparr>cl_transportCache := Some (lru_Purge (de_lruT env) s)\<rparr>
        | None \<Rightarrow> c))"

section \<open>The cache of responses\<close>

text \<open>
  One operation on whichever cache the client uses; it is nil when the cache is disabled.
\<close>

definition with_cache ::
    "('a \<Rightarrow> 'x \<times> 'a) \<Rightarrow> ('b \<Rightarrow> 'x \<times> 'b) \<Rightarrow> ('a, 'b, 'w) Client \<Rightarrow> 'x res \<times> ('a, 'b, 'w) Client" where
  "with_cache f g c =
     (if \<not> cl_independentCache c then
        (case cl_cache c of
           None \<Rightarrow> (Panic ''nil pointer'', c)
         | Some s \<Rightarrow> (case f s of (x, s') \<Rightarrow> (Ok x, c\<lparr>cl_cache := Some s'\<rparr>)))
      else
        (case cl_transportCache c of
           None \<Rightarrow> (Panic ''nil pointer'', c)
         | Some s \<Rightarrow> (case g s of (x, s') \<Rightarrow> (Ok x, c\<lparr>cl_transportCache := Some s'\<rparr>))))"

definition storeCache ::
    "('a, 'b, 'w) dns_env \<Rightarrow> obj \<Rightarrow> dns_Question \<Rightarrow> dns_msg \<Rightarrow> 32 word \<Rightarrow>
     ('a, 'b, 'w) Client \<Rightarrow> 'w \<Rightarrow> unit res \<times> ('a, 'b, 'w) Client \<times> 'w" where
  "storeCache env t q message ttl c w =
     (if ttl = 0 then (Ok (), c, w)
      else case de_Now env w of (now, w') \<Rightarrow>
        (case (if cl_disableExpire c
               then with_cache (\<lambda>s. ((), lru_Add (de_lru env) now q message s))
                      (\<lambda>s. ((), lru_Add (de_lruT env) now (q, obj_tag t) message s)) c
               else with_cache (\<lambda>s. ((), lru_AddWithLifetime (de_lru env) now q message (10 ^ 9 * uint ttl) s))
                      (\<lambda>s. ((), lru_AddWithLifetime (de_lruT env) now (q, obj_tag t) message (10 ^ 9 * uint ttl) s)) c) of
           (r, c') \<Rightarrow> (r, c', w')))"

text \<open>The smallest lifetime that is not zero, or the last one if all are zero.\<close>

definition min_ttl :: "RR list \<Rightarrow> 32 word" where
  "min_ttl rs = foldl (\<lambda>t r. if t = 0 \<or> rr_Ttl r > 0 \<and> rr_Ttl r < t then rr_Ttl r else t) 0 rs"

text \<open>
  \<open>loadResponse\<close>.  \<open>originTTL\<close> is an int computed from the 32-bit lifetimes, so the same fold;
  the difference is converted to 32 bits and subtracted modulo \<open>2\<^sup>3\<^sup>2\<close>.  The whole seconds of
  a duration that is not negative are its quotient by \<open>10\<^sup>9\<close>.
\<close>

definition aged :: "int \<Rightarrow> dns_msg \<Rightarrow> dns_msg" where
  "aged nowTTL response =
     (let originTTL = min_ttl (msg_records response) in
      if originTTL > 0
      then map_records (\<lambda>r. rr_set_Ttl (rr_Ttl r - word_of_int (uint originTTL - nowTTL)) r) response
      else map_records (rr_set_Ttl (word_of_int nowTTL)) response)"

definition loadResponse ::
    "('a, 'b, 'w) dns_env \<Rightarrow> dns_Question \<Rightarrow> obj \<Rightarrow> ('a, 'b, 'w) Client \<Rightarrow> 'w \<Rightarrow>
     (dns_msg \<times> int) option res \<times> ('a, 'b, 'w) Client \<times> 'w" where
  "loadResponse env q t c w =
     (case de_Now env w of (now1, w1) \<Rightarrow>
      if cl_disableExpire c then
        (case with_cache (lru_Get (de_lru env) now1 q) (lru_Get (de_lruT env) now1 (q, obj_tag t)) c of
           (r, c') \<Rightarrow> (bindR r (\<lambda>found. Ok (map_option (\<lambda>m. (m, 0)) found)), c', w1))
      else
        (case with_cache (lru_GetWithLifetime (de_lru env) now1 q)
                (lru_GetWithLifetime (de_lruT env) now1 (q, obj_tag t)) c of
           (Panic p, c') \<Rightarrow> (Panic p, c', w1)
         | (Err e, c') \<Rightarrow> (Err e, c', w1)
         | (Ok None, c') \<Rightarrow> (Ok None, c', w1)
         | (Ok (Some (response, expireAt)), c') \<Rightarrow>
             (case de_Now env w1 of (timeNow, w2) \<Rightarrow>
              if timeNow > expireAt then
                (case with_cache (\<lambda>s. ((), lru_Remove (de_lru env) q s))
                        (\<lambda>s. ((), lru_Remove (de_lruT env) (q, obj_tag t) s)) c' of
                   (r, c2) \<Rightarrow> (bindR r (\<lambda>_. Ok None), c2, w2))
              else
                let nowTTL = max 0 ((expireAt - timeNow) div 10 ^ 9) in
                (Ok (Some (aged nowTTL response, nowTTL)), c', w2))))"

section \<open>Addresses of a response\<close>

definition FqdnToDomain :: "('a, 'b, 'w) dns_env \<Rightarrow> string \<Rightarrow> string" where
  "FqdnToDomain env fqdn = (if md_IsFqdn env fqdn then butlast fqdn else fqdn)"

definition answer_addresses :: "('a, 'b, 'w) dns_env \<Rightarrow> RR \<Rightarrow> addr list" where
  "answer_addresses env r =
     (case rr_Data r of
        RD_A ip \<Rightarrow> [M_AddrFromIP env ip]
      | RD_AAAA ip \<Rightarrow> [M_AddrFromIP env ip]
      | RD_HTTPS values \<Rightarrow>
          concat (map (\<lambda>v. if sv_Key v = SVCB_IPV4HINT \<or> sv_Key v = SVCB_IPV6HINT
                           then de_MapAddr env (M_ParseAddr env) (split_at (CHR '','') (sv_String v)) else []) values)
      | _ \<Rightarrow> [])"

definition MessageToAddresses :: "('a, 'b, 'w) dns_env \<Rightarrow> dns_msg \<Rightarrow> addr list" where
  "MessageToAddresses env response =
     (if msg_Rcode response \<noteq> RcodeSuccess then []
      else concat (map (answer_addresses env) (msg_Answer response)))"

definition sortAddresses :: "addr list \<Rightarrow> addr list \<Rightarrow> nat \<Rightarrow> addr list" where
  "sortAddresses response4 response6 strategy =
     (if strategy = DomainStrategyPreferIPv6 then response6 @ response4 else response4 @ response6)"

section \<open>Exchange\<close>

fun extractNegativeTTL_in :: "RR list \<Rightarrow> 32 word option" where
  "extractNegativeTTL_in [] = None"
| "extractNegativeTTL_in (r # rs) =
     (case rr_Data r of
        RD_SOA minttl \<Rightarrow> Some (if rr_Ttl r < minttl then rr_Ttl r else minttl)
      | _ \<Rightarrow> extractNegativeTTL_in rs)"

definition extractNegativeTTL :: "dns_msg \<Rightarrow> 32 word option" where
  "extractNegativeTTL response = extractNegativeTTL_in (msg_Ns response)"

text \<open>The type assertion on the single additional record panics when the record only claims to be OPT.\<close>

definition isSimpleRequest :: "dns_msg \<Rightarrow> DNSQueryOptions \<Rightarrow> bool res" where
  "isSimpleRequest message opt =
     (if length (msg_Question message) = 1 \<and> msg_Ns message = [] then
        (case msg_Extra message of
           [] \<Rightarrow> Ok (\<not> subnet_IsValid (qo_ClientSubnet opt))
         | [r] \<Rightarrow>
             if h_Rrtype (rr_Hdr r) = TypeOPT \<and> h_Class (rr_Hdr r) > 0 \<and> rr_Ttl r = 0
             then (case rr_Data r of
                     RD_OPT opts \<Rightarrow> Ok (opts = [] \<and> \<not> subnet_IsValid (qo_ClientSubnet opt))
                   | _ \<Rightarrow> Panic ''interface conversion'')
             else Ok False
         | _ \<Rightarrow> Ok False)
      else Ok False)"

definition strategy_rejects :: "nat \<Rightarrow> dns_Question \<Rightarrow> bool" where
  "strategy_rejects strategy q \<longleftrightarrow>
     q_Qtype q = TypeA \<and> strategy = DomainStrategyIPv6Only \<or> q_Qtype q = TypeAAAA \<and> strategy = DomainStrategyIPv4Only"

text \<open>The message that is sent: with the subnet of the options, or else with that of the client.\<close>

definition request_message :: "('a, 'b, 'w) Client \<Rightarrow> dns_msg \<Rightarrow> DNSQueryOptions \<Rightarrow> dns_msg" where
  "request_message c message opt =
     (let subnet = if subnet_IsValid (qo_ClientSubnet opt) then qo_ClientSubnet opt else cl_clientSubnet c
      in if subnet_IsValid subnet then SetClientSubnet message subnet else message)"

text \<open>\<open>errors.As(err, &rcodeError)\<close>.\<close>

fun errors_As_Rcode :: "go_error \<Rightarrow> int option" where
  "errors_As_Rcode (ERcode n) = Some n"
| "errors_As_Rcode (ECause e xs) = errors_As_Rcode e"
| "errors_As_Rcode (EExtend e xs) = errors_As_Rcode e"
| "errors_As_Rcode _ = None"

text \<open>Under a strategy for one family only, the hints for the other are taken out of HTTPS records.\<close>

definition filter_hints :: "('a, 'b, 'w) dns_env \<Rightarrow> DNSQueryOptions \<Rightarrow> dns_Question \<Rightarrow> dns_msg \<Rightarrow> dns_msg" where
  "filter_hints env opt q response =
     (if q_Qtype q = TypeHTTPS \<and> (qo_Strategy opt = DomainStrategyIPv4Only \<or> qo_Strategy opt = DomainStrategyIPv6Only)
      then response\<lparr>msg_Answer := map (\<lambda>r. case rr_Data r of
          RD_HTTPS values \<Rightarrow> r\<lparr>rr_Data := RD_HTTPS (de_FilterSVCB env
            (\<lambda>it. if qo_Strategy opt = DomainStrategyIPv4Only then sv_Key it \<noteq> SVCB_IPV6HINT
                  else sv_Key it \<noteq> SVCB_IPV4HINT) values)\<rparr>
        | _ \<Rightarrow> r) (msg_Answer response)\<rparr>
      else response)"

definition response_ttl :: "DNSQueryOptions \<Rightarrow> dns_msg \<Rightarrow> 32 word" where
  "response_ttl opt response =
     (let negative = if msg_Answer response = []
                     then (case extractNegativeTTL response of Some t \<Rightarrow> t | None \<Rightarrow> 0) else 0;
          ttl = if negative = 0 then min_ttl (msg_records response) else negative
      in case qo_RewriteTTL opt of Some t \<Rightarrow> t | None \<Rightarrow> ttl)"

text \<open>What happens to the response after it was put into the cache.\<close>

definition answer_request :: "('a, 'b, 'w) dns_env \<Rightarrow> dns_msg \<Rightarrow> dns_msg \<Rightarrow> dns_msg" where
  "answer_request env message response0 =
     (let response = response0\<lparr>msg_Id := msg_Id message\<rparr> in
      case md_IsEdns0 env response of
        None \<Rightarrow> response
      | Some responseOpt \<Rightarrow>
          (case md_IsEdns0 env message of
             None \<Rightarrow> response\<lparr>msg_Extra := de_FilterRR env (\<lambda>it. h_Rrtype (rr_Hdr it) \<noteq> TypeOPT) (msg_Extra response)\<rparr>
           | Some requestOpt \<Rightarrow>
               if md_Version env requestOpt < md_Version env responseOpt
               then md_SetEdns0 env (md_UDPSize env responseOpt) (md_Do env responseOpt)
                      (response\<lparr>msg_Extra := de_FilterRR env (\<lambda>it. h_Rrtype (rr_Hdr it) \<noteq> TypeOPT) (msg_Extra response)\<rparr>)
               else response))"

text \<open>The check of the addresses is a closure of the caller: it may change the world.\<close>

type_synonym 'w responseChecker = "addr list \<Rightarrow> 'w \<Rightarrow> bool \<times> 'w"

definition exchange_rejected ::
    "('a, 'b, 'w) dns_env \<Rightarrow> 'w responseChecker option \<Rightarrow> dns_msg \<Rightarrow> 'w \<Rightarrow> bool \<times> 'w" where
  "exchange_rejected env checker response w =
     (case checker of
        None \<Rightarrow> (False, w)
      | Some chk \<Rightarrow>
          if msg_Rcode response \<noteq> RcodeSuccess \<or> msg_Answer response = [] then (True, w)
          else (case chk (MessageToAddresses env response) w of (ok, w') \<Rightarrow> (\<not> ok, w')))"

type_synonym exchange_result = "dns_msg option \<times> go_error option"

text \<open>
  From the answer of the transport on.  The cache keeps the pointer to the response: what is
  written to it afterwards, until it is returned, is seen in the cache, so the response is stored
  as it is in the end.
\<close>

definition finish_exchange ::
    "('a, 'b, 'w) dns_env \<Rightarrow> obj \<Rightarrow> dns_Question \<Rightarrow> dns_msg \<Rightarrow> DNSQueryOptions \<Rightarrow> 'w responseChecker option \<Rightarrow> bool \<Rightarrow>
     dns_msg \<Rightarrow> ('a, 'b, 'w) Client \<Rightarrow> 'w \<Rightarrow> exchange_result res \<times> ('a, 'b, 'w) Client \<times> 'w" where
  "finish_exchange env t q message opt checker disableCache0 response c w =
     (let disableCache = disableCache0 \<or> msg_Rcode response \<noteq> RcodeSuccess \<and> msg_Rcode response \<noteq> RcodeNameError in
      case exchange_rejected env checker response w of
        (True, w1) \<Rightarrow>
          (Ok (Some response, Some ErrResponseRejected), c,
           if \<not> disableCache \<and> cl_rdrc c then de_SaveRDRCAsync env (obj_tag t) (q_Name q) (q_Qtype q) w1 else w1)
      | (False, w1) \<Rightarrow>
          let hinted = filter_hints env opt q response;
              ttl = response_ttl opt hinted;
              final = answer_request env message (map_records (rr_set_Ttl ttl) hinted)
          in if disableCache then (Ok (Some final, None), c, w1)
             else (case storeCache env t q final ttl c w1 of
                     (r, c', w') \<Rightarrow> (bindR r (\<lambda>_. Ok (Some final, None)), c', w')))"

definition check_rdrc ::
    "('a, 'b, 'w) dns_env \<Rightarrow> obj \<Rightarrow> dns_Question \<Rightarrow> 'w responseChecker option \<Rightarrow> bool \<Rightarrow> ('a, 'b, 'w) Client \<Rightarrow> 'w \<Rightarrow>
     bool res \<times> 'w" where
  "check_rdrc env t q checker disableCache c w =
     (if \<not> disableCache \<and> checker \<noteq> None \<and> cl_rdrc c
      then de_LoadRDRC env (obj_tag t) (q_Name q) (q_Qtype q) w else (Ok False, w))"

text \<open>From the miss of the cache on: the loop check, the rejected responses, the transport.\<close>

definition ask_transport ::
    "('a, 'b, 'w) dns_env \<Rightarrow> dns_ctx \<Rightarrow> obj \<Rightarrow> dns_Question \<Rightarrow> dns_msg \<Rightarrow> DNSQueryOptions \<Rightarrow> 'w responseChecker option \<Rightarrow>
     bool \<Rightarrow> ('a, 'b, 'w) Client \<Rightarrow> 'w \<Rightarrow> exchange_result res \<times> ('a, 'b, 'w) Client \<times> 'w" where
  "ask_transport env ctx t q message opt checker disableCache c w =
     (if cx_TransportTag ctx = Some (obj_tag t)
      then (Ok (None, Some (ENew [AStr ''DNS query loopback in transport['', AStr (obj_tag t), AStr '']''])), c, w)
      else
        (case check_rdrc env t q checker disableCache c w of
           (Panic p, w1) \<Rightarrow> (Panic p, c, w1)
         | (Err e, w1) \<Rightarrow> (Err e, c, w1)
         | (Ok True, w1) \<Rightarrow> (Ok (None, Some ErrResponseRejectedCached), c, w1)
         | (Ok False, w1) \<Rightarrow>
             (case de_Exchange env t (ctx\<lparr>cx_TransportTag := Some (obj_tag t)\<rparr>) message w1 of
                (Inr None, w2) \<Rightarrow> (Panic ''invalid memory address or nil pointer dereference'', c, w2)
              | (Inr (Some response), w2) \<Rightarrow> finish_exchange env t q message opt checker disableCache response c w2
              | (Inl e, w2) \<Rightarrow>
                  (case errors_As_Rcode e of
                     Some rcode \<Rightarrow>
                       finish_exchange env t q message opt checker disableCache (FixedResponseStatus message rcode) c w2
                   | None \<Rightarrow> (Ok (None, Some e), c, w2)))))"

definition try_cache ::
    "('a, 'b, 'w) dns_env \<Rightarrow> dns_Question \<Rightarrow> obj \<Rightarrow> bool \<Rightarrow> ('a, 'b, 'w) Client \<Rightarrow> 'w \<Rightarrow>
     (dns_msg \<times> int) option res \<times> ('a, 'b, 'w) Client \<times> 'w" where
  "try_cache env q t disableCache c w = (if disableCache then (Ok None, c, w) else loadResponse env q t c w)"

definition client_Exchange ::
    "('a, 'b, 'w) dns_env \<Rightarrow> dns_ctx \<Rightarrow> obj \<Rightarrow> dns_msg \<Rightarrow> DNSQueryOptions \<Rightarrow> 'w responseChecker option \<Rightarrow>
     ('a, 'b, 'w) Client \<Rightarrow> 'w \<Rightarrow> exchange_result res \<times> ('a, 'b, 'w) Client \<times> 'w" where
  "client_Exchange env ctx t message0 opt checker c w =
     (case msg_Question message0 of
        [] \<Rightarrow> (Ok (Some (FixedResponseStatus message0 RcodeFormatError), None), c, w)
      | q # _ \<Rightarrow>
          if strategy_rejects (qo_Strategy opt) q
          then (Ok (Some (FixedResponseStatus message0 RcodeSuccess), None), c, w)
          else
            let message = request_message c message0 opt in
            (case isSimpleRequest message opt of
               Panic p \<Rightarrow> (Panic p, c, w)
             | Err e \<Rightarrow> (Err e, c, w)
             | Ok simple \<Rightarrow>
                 let disableCache = \<not> simple \<or> cl_disableCache c \<or> qo_DisableCache opt in
                 (case try_cache env q t disableCache c w of
                    (Panic p, c1, w1) \<Rightarrow> (Panic p, c1, w1)
                  | (Err e, c1, w1) \<Rightarrow> (Err e, c1, w1)
                  | (Ok (Some (response, _)), c1, w1) \<Rightarrow>
                      (Ok (Some (response\<lparr>msg_Id := msg_Id message\<rparr>), None), c1, w1)
                  | (Ok None, c1, w1) \<Rightarrow> ask_transport env ctx t q message opt checker disableCache c1 w1)))"

section \<open>Lookup\<close>

definition response_addresses :: "('a, 'b, 'w) dns_env \<Rightarrow> dns_msg \<Rightarrow> go_error + addr list" where
  "response_addresses env response =
     (if msg_Rcode response \<noteq> RcodeSuccess then Inl (ERcode (msg_Rcode response))
      else Inr (MessageToAddresses env response))"

definition questionCache ::
    "('a, 'b, 'w) dns_env \<Rightarrow> dns_Question \<Rightarrow> obj \<Rightarrow> ('a, 'b, 'w) Client \<Rightarrow> 'w \<Rightarrow>
     (go_error + addr list) res \<times> ('a, 'b, 'w) Client \<times> 'w" where
  "questionCache env q t c w =
     (case loadResponse env q t c w of (r, c', w') \<Rightarrow>
        (bindR r (\<lambda>found. Ok (case found of None \<Rightarrow> Inl ErrNotCached
           | Some (response, _) \<Rightarrow> response_addresses env response)), c', w'))"

definition lookup_message :: "dns_Question \<Rightarrow> dns_msg" where
  "lookup_message q = dns_msg_zero\<lparr>msg_RecursionDesired := True, msg_Question := [q]\<rparr>"

definition exchange_addresses :: "('a, 'b, 'w) dns_env \<Rightarrow> exchange_result \<Rightarrow> (go_error + addr list) res" where
  "exchange_addresses env r =
     (case r of
        (_, Some e) \<Rightarrow> Ok (Inl e)
      | (Some response, None) \<Rightarrow> Ok (response_addresses env response)
      | (None, None) \<Rightarrow> Panic ''nil pointer'')"

definition try_question ::
    "('a, 'b, 'w) dns_env \<Rightarrow> dns_Question \<Rightarrow> obj \<Rightarrow> bool \<Rightarrow> ('a, 'b, 'w) Client \<Rightarrow> 'w \<Rightarrow>
     (go_error + addr list) res \<times> ('a, 'b, 'w) Client \<times> 'w" where
  "try_question env q t disableCache c w =
     (if disableCache then (Ok (Inl ErrNotCached), c, w) else questionCache env q t c w)"

definition lookupToExchange ::
    "('a, 'b, 'w) dns_env \<Rightarrow> dns_ctx \<Rightarrow> obj \<Rightarrow> string \<Rightarrow> 16 word \<Rightarrow> DNSQueryOptions \<Rightarrow> 'w responseChecker option \<Rightarrow>
     ('a, 'b, 'w) Client \<Rightarrow> 'w \<Rightarrow> (go_error + addr list) res \<times> ('a, 'b, 'w) Client \<times> 'w" where
  "lookupToExchange env ctx t name qtype opt checker c w =
     (let q = \<lparr>q_Name = name, q_Qtype = qtype, q_Qclass = ClassINET\<rparr> in
      case try_question env q t (cl_disableCache c \<or> qo_DisableCache opt) c w of
        (Ok r, c1, w1) \<Rightarrow>
          if r \<noteq> Inl ErrNotCached then (Ok r, c1, w1)
          else (case client_Exchange env ctx t (lookup_message q) opt checker c1 w1 of
                  (x, c2, w2) \<Rightarrow> (bindR x (exchange_addresses env), c2, w2))
      | other \<Rightarrow> other)"

text \<open>
  The two tasks of the group, in the order in which they happen to run; the task that fails leaves
  its slice nil.  What \<open>group.Run\<close> makes of the two errors is foreign code.
\<close>

definition group_run ::
    "('c \<Rightarrow> 'w \<Rightarrow> (go_error + addr list) res \<times> 'c \<times> 'w) \<Rightarrow> ('c \<Rightarrow> 'w \<Rightarrow> (go_error + addr list) res \<times> 'c \<times> 'w) \<Rightarrow>
     bool \<Rightarrow> 'c \<Rightarrow> 'w \<Rightarrow> ((go_error + addr list) \<times> (go_error + addr list)) res \<times> 'c \<times> 'w" where
  "group_run f g first c w =
     (case (if first then f c w else g c w) of (r1, c1, w1) \<Rightarrow>
      (case (if first then g c1 w1 else f c1 w1) of (r2, c2, w2) \<Rightarrow>
       (bindR r1 (\<lambda>x. bindR r2 (\<lambda>y. Ok (if first then (x, y) else (y, x)))), c2, w2)))"

definition error_of :: "'e + 'x \<Rightarrow> 'e option" where
  "error_of r = (case r of Inl e \<Rightarrow> Some e | Inr _ \<Rightarrow> None)"

definition addresses_of :: "'e + addr list \<Rightarrow> addr list" where
  "addresses_of r = (case r of Inl _ \<Rightarrow> [] | Inr as \<Rightarrow> as)"

definition lookup_strategy :: "DNSQueryOptions \<Rightarrow> nat" where
  "lookup_strategy opt = (if qo_LookupStrategy opt \<noteq> DomainStrategyAsIS then qo_LookupStrategy opt else qo_Strategy opt)"

text \<open>A result of Go with both parts: the addresses and the error.\<close>

definition lookup_result :: "go_error + addr list \<Rightarrow> addr list \<times> go_error option" where
  "lookup_result r = (addresses_of r, error_of r)"

definition client_Lookup ::
    "('a, 'b, 'w) dns_env \<Rightarrow> dns_ctx \<Rightarrow> obj \<Rightarrow> string \<Rightarrow> DNSQueryOptions \<Rightarrow> 'w responseChecker option \<Rightarrow>
     ('a, 'b, 'w) Client \<Rightarrow> 'w \<Rightarrow> (addr list \<times> go_error option) res \<times> ('a, 'b, 'w) Client \<times> 'w" where
  "client_Lookup env ctx t domain opt checker c w =
     (let dnsName = md_Fqdn env (FqdnToDomain env domain);
          strategy = lookup_strategy opt;
          one = (\<lambda>qtype. lookupToExchange env ctx t dnsName qtype opt checker)
      in if strategy = DomainStrategyIPv4Only
         then (case one TypeA c w of (r, c', w') \<Rightarrow> (bindR r (\<lambda>x. Ok (lookup_result x)), c', w'))
         else if strategy = DomainStrategyIPv6Only
         then (case one TypeAAAA c w of (r, c', w') \<Rightarrow> (bindR r (\<lambda>x. Ok (lookup_result x)), c', w'))
         else (case group_run (one TypeA) (one TypeAAAA) (de_exchange4_first env w) c w of
                 (r, c', w') \<Rightarrow>
                   (bindR r (\<lambda>(r4, r6).
                      if addresses_of r4 = [] \<and> addresses_of r6 = []
                      then Ok ([], de_group_errors env (error_of r4) (error_of r6))
                      else Ok (sortAddresses (addresses_of r4) (addresses_of r6) strategy, None)), c', w')))"

end
