(* ===== verification/Dns_Client_Properties.thy ===== *)
theory Dns_Client_Properties
  imports Dns_Client Cache_File
begin

text \<open>
  Properties of the DNS client of \<open>Dns_Client\<close>: no operation panics, what is in the cache and how
  its lifetimes age, what is answered from the cache, and how rejected responses are remembered
  through the cache file of \<open>Cache_File\<close>.
\<close>

section \<open>What is assumed of the foreign code\<close>

text \<open>
  The documented behaviour of the LRU cache, told by a view that gives the entry of a key and the
  time at which it expires: a call may forget entries (those that were not used for longest), and
  invents none.
\<close>

definition lru_sound :: "('k, 'v, 's) lru \<Rightarrow> ('s \<Rightarrow> 'k \<rightharpoonup> 'v \<times> int option) \<Rightarrow> bool" where
  "lru_sound L V \<longleftrightarrow>
     (\<forall>now k s. V (snd (lru_Get L now k s)) \<subseteq>\<^sub>m V s) \<and>
     (\<forall>now k s v. fst (lru_Get L now k s) = Some v \<longrightarrow> (\<exists>x. V s k = Some (v, x))) \<and>
     (\<forall>now k s. V (snd (lru_GetWithLifetime L now k s)) \<subseteq>\<^sub>m V s) \<and>
     (\<forall>now k s v e. fst (lru_GetWithLifetime L now k s) = Some (v, e) \<longrightarrow>
        (\<exists>x. V s k = Some (v, x) \<and> (\<forall>e'. x = Some e' \<longrightarrow> e = e'))) \<and>
     (\<forall>now k v s. V (lru_Add L now k v s) \<subseteq>\<^sub>m (V s)(k \<mapsto> (v, None))) \<and>
     (\<forall>now k v l s. V (lru_AddWithLifetime L now k v l s) \<subseteq>\<^sub>m (V s)(k \<mapsto> (v, Some (now + l)))) \<and>
     (\<forall>k s. V (lru_Remove L k s) \<subseteq>\<^sub>m (V s)(k := None)) \<and>
     (\<forall>s. V (lru_Purge L s) = Map.empty)"

text \<open>An entry that was just added is there, and one that is there and has not expired is found.\<close>

definition lru_keeps :: "('k, 'v, 's) lru \<Rightarrow> ('s \<Rightarrow> 'k \<rightharpoonup> 'v \<times> int option) \<Rightarrow> bool" where
  "lru_keeps L V \<longleftrightarrow>
     (\<forall>now k v l s. V (lru_AddWithLifetime L now k v l s) k = Some (v, Some (now + l))) \<and>
     (\<forall>now k v e s. V s k = Some (v, Some e) \<longrightarrow> now \<le> e \<longrightarrow> fst (lru_GetWithLifetime L now k s) = Some (v, e))"

text \<open>The clock does not go back: \<open>clk\<close> is the time in a world.\<close>

definition clock_ok :: "('a, 'b, 'w) dns_env \<Rightarrow> ('w \<Rightarrow> int) \<Rightarrow> bool" where
  "clock_ok env clk \<longleftrightarrow>
     (\<forall>w n w'. de_Now env w = (n, w') \<longrightarrow> clk w \<le> n \<and> n \<le> clk w') \<and>
     (\<forall>t ctx m w r w'. de_Exchange env t ctx m w = (r, w') \<longrightarrow> clk w \<le> clk w') \<and>
     (\<forall>tn qn ty w r w'. de_LoadRDRC env tn qn ty w = (r, w') \<longrightarrow> clk w \<le> clk w') \<and>
     (\<forall>tn qn ty w. clk w \<le> clk (de_SaveRDRCAsync env tn qn ty w))"

text \<open>\<open>common.Filter\<close> is the filter of lists; \<open>SetEdns0\<close> appends an OPT record.\<close>

definition is_OPT :: "RR \<Rightarrow> bool" where
  "is_OPT r \<longleftrightarrow> h_Rrtype (rr_Hdr r) = TypeOPT"

definition edns_ok :: "('a, 'b, 'w) dns_env \<Rightarrow> bool" where
  "edns_ok env \<longleftrightarrow> de_FilterRR env = filter \<and>
     (\<forall>size d m. \<exists>r. is_OPT r \<and> md_SetEdns0 env size d m = m\<lparr>msg_Extra := msg_Extra m @ [r]\<rparr>)"

section \<open>Operations keep invariants\<close>

text \<open>
  What every operation of the client does to the state of the client and the world is one of a
  few steps; a property that the steps keep is kept by \<open>Exchange\<close> and \<open>Lookup\<close>.
\<close>

locale client_steps =
  fixes env :: "('a, 'b, 'w) dns_env"
    and K :: "'w responseChecker \<Rightarrow> bool"
    and I :: "('a, 'b, 'w) Client \<Rightarrow> 'w \<Rightarrow> bool"
  assumes load: "I c w \<Longrightarrow> loadResponse env q t c w = (r, c', w') \<Longrightarrow> I c' w'"
    and exchange: "I c w \<Longrightarrow> de_Exchange env t ctx m w = (x, w') \<Longrightarrow> I c w'"
    and load_rdrc: "I c w \<Longrightarrow> de_LoadRDRC env tn qn ty w = (b, w') \<Longrightarrow> I c w'"
    and check: "I c w \<Longrightarrow> K chk \<Longrightarrow> chk as w = (ok, w') \<Longrightarrow> I c w'"
    and save_rdrc: "I c w \<Longrightarrow> I c (de_SaveRDRCAsync env tn qn ty w)"
    and store: "I c w \<Longrightarrow> msg_Rcode m = RcodeSuccess \<or> msg_Rcode m = RcodeNameError \<Longrightarrow>
      storeCache env t q (answer_request env message (map_records (rr_set_Ttl ttl) m)) ttl c w = (u, c', w') \<Longrightarrow> I c' w'"
begin

lemma exchange_rejected_I:
  "I c w \<Longrightarrow> \<forall>chk. checker = Some chk \<longrightarrow> K chk \<Longrightarrow> exchange_rejected env checker response w = (b, w') \<Longrightarrow> I c w'"
  by (auto simp: exchange_rejected_def split: option.splits if_splits prod.splits intro: check)

lemma finish_exchange_I:
  assumes "I c w" and "\<forall>chk. checker = Some chk \<longrightarrow> K chk"
    and "finish_exchange env t q message opt checker d response c w = (r, c', w')"
  shows "I c' w'"
proof -
  have rc: "msg_Rcode (filter_hints env opt q response) = msg_Rcode response" by (simp add: filter_hints_def)
  obtain b w1 where b: "exchange_rejected env checker response w = (b, w1)" by fastforce
  from exchange_rejected_I [OF assms(1,2) b] have I1: "I c w1" .
  show ?thesis
    using assms(3) I1 store [OF I1, of "filter_hints env opt q response"] save_rdrc [OF I1]
    by (auto simp: finish_exchange_def b Let_def rc split: if_splits prod.splits bool.splits)
qed

lemma ask_transport_I:
  assumes "I c w" and "ask_transport env ctx t q message opt checker d c w = (r, c', w')"
    and K: "\<forall>chk. checker = Some chk \<longrightarrow> K chk"
  shows "I c' w'"
proof (cases "cx_TransportTag ctx = Some (obj_tag t)")
  case False
  obtain b w1 where b: "check_rdrc env t q checker d c w = (b, w1)" by fastforce
  then have I1: "I c w1" using assms(1) by (auto simp: check_rdrc_def split: if_splits intro: load_rdrc)
  obtain x w2 where x: "de_Exchange env t (ctx\<lparr>cx_TransportTag := Some (obj_tag t)\<rparr>) message w1 = (x, w2)" by fastforce
  from exchange [OF I1 x] have I2: "I c w2" .
  show ?thesis using assms(2) False I1 I2 finish_exchange_I [OF I2 K]
    by (auto simp: ask_transport_def b x split: res.splits bool.splits sum.splits option.splits)
qed (use assms in \<open>auto simp: ask_transport_def\<close>)

lemma client_Exchange_I:
  assumes "I c w" and "client_Exchange env ctx t message opt checker c w = (r, c', w')"
    and K: "\<forall>chk. checker = Some chk \<longrightarrow> K chk"
  shows "I c' w'"
proof (cases "msg_Question message")
  case (Cons q qs)
  show ?thesis
  proof (cases "strategy_rejects (qo_Strategy opt) q")
    case False
    define m where "m = request_message c message opt"
    show ?thesis
    proof (cases "isSimpleRequest m opt")
      case (Ok simple)
      obtain x c1 w1 where l: "try_cache env q t (\<not> simple \<or> cl_disableCache c \<or> qo_DisableCache opt) c w = (x, c1, w1)"
        by (metis prod_cases3)
      then have I1: "I c1 w1" using assms(1) by (auto simp: try_cache_def split: if_splits intro: load)
      show ?thesis using assms(2) I1 ask_transport_I [OF I1 _ K]
        unfolding client_Exchange_def Cons list.case if_not_P [OF False] Let_def m_def [symmetric] Ok res.case l
        by (auto split: res.splits option.splits)
    qed (use assms False Cons in \<open>auto simp: client_Exchange_def Let_def m_def [symmetric]\<close>)
  qed (use assms Cons in \<open>auto simp: client_Exchange_def\<close>)
qed (use assms in \<open>auto simp: client_Exchange_def\<close>)

lemma lookupToExchange_I:
  assumes "I c w" and "lookupToExchange env ctx t name qtype opt checker c w = (r, c', w')"
    and K: "\<forall>chk. checker = Some chk \<longrightarrow> K chk"
  shows "I c' w'"
proof -
  define q where "q = \<lparr>q_Name = name, q_Qtype = qtype, q_Qclass = ClassINET\<rparr>"
  obtain x c1 w1 where l: "try_question env q t (cl_disableCache c \<or> qo_DisableCache opt) c w = (x, c1, w1)"
    by (metis prod_cases3)
  then have I1: "I c1 w1" using assms(1)
    by (auto simp: try_question_def questionCache_def split: if_splits prod.splits intro: load)
  show ?thesis using assms(2) I1 client_Exchange_I [OF I1 _ K]
    unfolding lookupToExchange_def Let_def q_def [symmetric] l
    by (auto split: res.splits if_splits prod.splits)
qed

lemma group_run_I:
  assumes "I c w" and "group_run (f :: ('a, 'b, 'w) Client \<Rightarrow> _) g b c w = (r, c', w')"
    and "\<And>c w r c' w'. I c w \<Longrightarrow> f c w = (r, c', w') \<Longrightarrow> I c' w'"
    and "\<And>c w r c' w'. I c w \<Longrightarrow> g c w = (r, c', w') \<Longrightarrow> I c' w'"
  shows "I c' w'"
  using assms(1,2) by (auto simp: group_run_def split: prod.splits if_splits dest: assms(3,4))

lemma client_Lookup_I:
  assumes "I c w" and "client_Lookup env ctx t domain opt checker c w = (r, c', w')"
    and K: "\<forall>chk. checker = Some chk \<longrightarrow> K chk"
  shows "I c' w'"
proof -
  define one where "one = (\<lambda>qtype. lookupToExchange env ctx t (md_Fqdn env (FqdnToDomain env domain)) qtype opt checker)"
  have one_I: "one qtype c w = (r, c', w') \<Longrightarrow> I c w \<Longrightarrow> I c' w'" for qtype c w r c' w'
    unfolding one_def using K by (blast intro: lookupToExchange_I)
  obtain r1 c1 w1 where 1: "one TypeA c w = (r1, c1, w1)" by (metis prod_cases3)
  obtain r2 c2 w2 where 2: "one TypeAAAA c w = (r2, c2, w2)" by (metis prod_cases3)
  obtain r3 c3 w3 where 3: "group_run (one TypeA) (one TypeAAAA) (de_exchange4_first env w) c w = (r3, c3, w3)"
    by (metis prod_cases3)
  from one_I [OF 1 assms(1)] one_I [OF 2 assms(1)] group_run_I [OF assms(1) 3] one_I have "I c1 w1" "I c2 w2" "I c3 w3"
    by blast+
  moreover have "lookupToExchange env ctx t (md_Fqdn env (FqdnToDomain env domain)) qtype opt checker = one qtype" for qtype
    by (simp add: one_def)
  ultimately show ?thesis using assms(2)
    unfolding client_Lookup_def Let_def by (simp add: 1 2 3 split: if_splits)
qed

end

section \<open>Operations on the caches\<close>

text \<open>All entries of the cache of a client have a property.\<close>

definition entries ::
    "('a \<Rightarrow> dns_Question \<rightharpoonup> dns_msg \<times> int option) \<Rightarrow> ('b \<Rightarrow> transportCacheKey \<rightharpoonup> dns_msg \<times> int option) \<Rightarrow>
     (dns_msg \<times> int option \<Rightarrow> bool) \<Rightarrow> ('a, 'b, 'w) Client \<Rightarrow> bool" where
  "entries V VT P c \<longleftrightarrow>
     (\<forall>s q x. cl_cache c = Some s \<longrightarrow> V s q = Some x \<longrightarrow> P x) \<and>
     (\<forall>s k x. cl_transportCache c = Some s \<longrightarrow> VT s k = Some x \<longrightarrow> P x)"

lemma entries_mono: "entries V VT P c \<Longrightarrow> (\<And>x. P x \<Longrightarrow> Q x) \<Longrightarrow> entries V VT Q c"
  unfolding entries_def by blast

lemma with_cache_cases:
  assumes "with_cache f g c = (r, c')"
  obtains (nil) "r = Panic ''nil pointer''" "c' = c"
  | (cache) s x s' where "cl_cache c = Some s" "f s = (x, s')" "r = Ok x" "c' = c\<lparr>cl_cache := Some s'\<rparr>"
      "\<not> cl_independentCache c"
  | (transport) s x s' where "cl_transportCache c = Some s" "g s = (x, s')" "r = Ok x"
      "c' = c\<lparr>cl_transportCache := Some s'\<rparr>" "cl_independentCache c"
  using assms by (auto simp: with_cache_def split: if_splits option.splits prod.splits)

lemma map_leD: "m \<subseteq>\<^sub>m m' \<Longrightarrow> m k = Some v \<Longrightarrow> m' k = Some v"
  unfolding map_le_def dom_def by force

lemma entries_with_cache:
  assumes "entries V VT P c" and "with_cache f g c = (r, c')"
    and "\<And>s x s' k y. f s = (x, s') \<Longrightarrow> V s' k = Some y \<Longrightarrow> V s k = Some y \<or> P y"
    and "\<And>s x s' k y. g s = (x, s') \<Longrightarrow> VT s' k = Some y \<Longrightarrow> VT s k = Some y \<or> P y"
  shows "entries V VT P c'"
  using assms(2)
proof (cases rule: with_cache_cases)
  case (cache s x s')
  then show ?thesis using assms(1) assms(3) [OF cache(2)] unfolding entries_def by fastforce
next
  case (transport s x s')
  then show ?thesis using assms(1) assms(4) [OF transport(2)] unfolding entries_def by fastforce
qed (use assms(1) in simp)

lemma lru_view:
  assumes "lru_sound L V"
  shows "lru_Get L now k s = (r, s') \<Longrightarrow> V s' j = Some y \<Longrightarrow> V s j = Some y"
    and "lru_GetWithLifetime L now k s = (g, s') \<Longrightarrow> V s' j = Some y \<Longrightarrow> V s j = Some y"
    and "V (lru_Add L now k v s) j = Some y \<Longrightarrow> V s j = Some y \<or> y = (v, None)"
    and "V (lru_AddWithLifetime L now k v l s) j = Some y \<Longrightarrow> V s j = Some y \<or> y = (v, Some (now + l))"
    and "V (lru_Remove L k s) j = Some y \<Longrightarrow> V s j = Some y"
    and "V (lru_Purge L s) j = None"
proof -
  have "V (snd (lru_Get L now k s)) \<subseteq>\<^sub>m V s" and "V (snd (lru_GetWithLifetime L now k s)) \<subseteq>\<^sub>m V s"
    using assms by (simp_all add: lru_sound_def)
  then show "lru_Get L now k s = (r, s') \<Longrightarrow> V s' j = Some y \<Longrightarrow> V s j = Some y"
    "lru_GetWithLifetime L now k s = (g, s') \<Longrightarrow> V s' j = Some y \<Longrightarrow> V s j = Some y"
    by (auto dest: map_leD)
  have "V (lru_Add L now k v s) \<subseteq>\<^sub>m (V s)(k \<mapsto> (v, None))"
    and "V (lru_AddWithLifetime L now k v l s) \<subseteq>\<^sub>m (V s)(k \<mapsto> (v, Some (now + l)))"
    and "V (lru_Remove L k s) \<subseteq>\<^sub>m (V s)(k := None)"
    using assms by (simp_all add: lru_sound_def)
  then show "V (lru_Add L now k v s) j = Some y \<Longrightarrow> V s j = Some y \<or> y = (v, None)"
    "V (lru_AddWithLifetime L now k v l s) j = Some y \<Longrightarrow> V s j = Some y \<or> y = (v, Some (now + l))"
    "V (lru_Remove L k s) j = Some y \<Longrightarrow> V s j = Some y"
    by (auto dest!: map_leD split: if_splits)
  show "V (lru_Purge L s) j = None" using assms unfolding lru_sound_def by simp
qed

lemma lru_Get_found: "lru_sound L V \<Longrightarrow> fst (lru_Get L now k s) = Some v \<Longrightarrow> \<exists>x. V s k = Some (v, x)"
  by (simp add: lru_sound_def)

lemma lru_GetWithLifetime_found:
  "lru_sound L V \<Longrightarrow> fst (lru_GetWithLifetime L now k s) = Some (v, e) \<Longrightarrow>
   \<exists>x. V s k = Some (v, x) \<and> (\<forall>e'. x = Some e' \<longrightarrow> e = e')"
  by (simp add: lru_sound_def)

section \<open>No panics\<close>

text \<open>The cache that an enabled client uses is there; the client of \<open>NewClient\<close> is such a client.\<close>

definition client_wf :: "('a, 'b, 'w) Client \<Rightarrow> bool" where
  "client_wf c \<longleftrightarrow> cl_disableCache c \<or>
     (if cl_independentCache c then cl_transportCache c \<noteq> None else cl_cache c \<noteq> None)"

lemma with_cache_keeps:
  assumes "with_cache f g c = (r, c')"
  shows "cl_disableExpire c' = cl_disableExpire c" "client_wf c' = client_wf c" "cl_disableCache c' = cl_disableCache c"
    "cl_rdrc c' = cl_rdrc c" "cl_independentCache c' = cl_independentCache c" "cl_clientSubnet c' = cl_clientSubnet c"
  using assms by (cases rule: with_cache_cases; simp add: client_wf_def)+

lemma with_cache_Ok: "client_wf c \<Longrightarrow> \<not> cl_disableCache c \<Longrightarrow> \<exists>x. fst (with_cache f g c) = Ok x"
  by (auto simp: client_wf_def with_cache_def split: if_splits prod.split)

lemma NewClient_wf: "client_wf (NewClient env opt)"
  by (simp add: client_wf_def NewClient_def Let_def)

text \<open>The fields of a client that no query changes.\<close>

definition same_config :: "('a, 'b, 'w) Client \<Rightarrow> ('a, 'b, 'w) Client \<Rightarrow> bool" where
  "same_config c c' \<longleftrightarrow> cl_disableExpire c' = cl_disableExpire c \<and> client_wf c' = client_wf c \<and>
     cl_disableCache c' = cl_disableCache c \<and> cl_rdrc c' = cl_rdrc c \<and>
     cl_independentCache c' = cl_independentCache c \<and> cl_clientSubnet c' = cl_clientSubnet c"

lemma same_config_with_cache: "with_cache f g c = (r, c') \<Longrightarrow> same_config c c'"
  by (simp add: same_config_def with_cache_keeps)

lemma same_config_refl [simp]: "same_config c c"
  by (simp add: same_config_def)

lemma same_config_trans: "same_config a b \<Longrightarrow> same_config b c \<Longrightarrow> same_config a c"
  by (simp add: same_config_def)

lemma loadResponse_config: "loadResponse env q t c w = (r, c', w') \<Longrightarrow> same_config c c'"
  by (auto simp: loadResponse_def Let_def split: prod.splits if_splits res.splits option.splits
      dest!: same_config_with_cache intro: same_config_trans)

lemma storeCache_config: "storeCache env t q m ttl c w = (r, c', w') \<Longrightarrow> same_config c c'"
  by (auto simp: storeCache_def split: prod.splits if_splits dest!: same_config_with_cache)

interpretation config: client_steps env "\<lambda>_. True" "\<lambda>c w. same_config c0 c"
  by unfold_locales (blast intro: same_config_trans loadResponse_config storeCache_config)+

lemma loadResponse_Ok:
  assumes "client_wf c" and "\<not> cl_disableCache c" and "loadResponse env q t c w = (r, c', w')"
  shows "\<exists>x. r = Ok x"
proof -
  obtain n w1 where n: "de_Now env w = (n, w1)" by fastforce
  define g where "g = with_cache (lru_GetWithLifetime (de_lru env) n q) (lru_GetWithLifetime (de_lruT env) n (q, obj_tag t)) c"
  obtain gr c1 where g': "g = (gr, c1)" by fastforce
  from with_cache_Ok [OF assms(1,2)] obtain x where x: "gr = Ok x" by (metis fst_conv g' g_def)
  have c1: "client_wf c1" "\<not> cl_disableCache c1" using with_cache_keeps(2,3) [OF g' [unfolded g_def]] assms(1,2) by auto
  define h where "h = with_cache (lru_Get (de_lru env) n q) (lru_Get (de_lruT env) n (q, obj_tag t)) c"
  obtain hr c2 where h': "h = (hr, c2)" by fastforce
  from with_cache_Ok [OF assms(1,2)] obtain y where y: "hr = Ok y" by (metis fst_conv h' h_def)
  define k where "k = with_cache (\<lambda>s. ((), lru_Remove (de_lru env) q s)) (\<lambda>s. ((), lru_Remove (de_lruT env) (q, obj_tag t) s)) c1"
  obtain kr c3 where k': "k = (kr, c3)" by fastforce
  from with_cache_Ok [OF c1] obtain z where z: "kr = Ok z" by (metis fst_conv k' k_def)
  from assms(3) show ?thesis
    unfolding loadResponse_def n prod.case g_def [symmetric] h_def [symmetric] g' h' x y res.case
    by (auto simp: k_def [symmetric] k' z Let_def split: if_splits option.splits prod.splits)
qed

lemma storeCache_Ok:
  "client_wf c \<Longrightarrow> \<not> cl_disableCache c \<Longrightarrow> storeCache env t q m ttl c w = (r, c', w') \<Longrightarrow> r = Ok ()"
  using with_cache_Ok [of c "\<lambda>s. ((), lru_Add (de_lru env) (fst (de_Now env w)) q m s)"
      "\<lambda>s. ((), lru_Add (de_lruT env) (fst (de_Now env w)) (q, obj_tag t) m s)"]
    with_cache_Ok [of c "\<lambda>s. ((), lru_AddWithLifetime (de_lru env) (fst (de_Now env w)) q m (10 ^ 9 * uint ttl) s)"
      "\<lambda>s. ((), lru_AddWithLifetime (de_lruT env) (fst (de_Now env w)) (q, obj_tag t) m (10 ^ 9 * uint ttl) s)"]
  by (auto simp: storeCache_def split: prod.splits if_splits)

text \<open>
  A request is well typed when the records that claim to be OPT are; the store of rejected
  responses answers.
\<close>

definition msg_typed :: "dns_msg \<Rightarrow> bool" where
  "msg_typed m \<longleftrightarrow> (\<forall>r \<in> set (msg_Extra m). is_OPT r \<longrightarrow> (\<exists>opts. rr_Data r = RD_OPT opts))"

text \<open>
  What the client relies on: the lookup in the cache of rejected responses does not panic, and a transport that returns no error returns a
  response.
\<close>

definition env_answers :: "('a, 'b, 'w) dns_env \<Rightarrow> bool" where
  "env_answers env \<longleftrightarrow> (\<forall>tn qn ty w. \<exists>b. fst (de_LoadRDRC env tn qn ty w) = Ok b) \<and>
     (\<forall>t ctx m w. fst (de_Exchange env t ctx m w) \<noteq> Inr None)"

lemma SetClientSubnet_typed: "msg_typed m \<Longrightarrow> msg_typed (SetClientSubnet m p)"
proof (cases "find_opt (msg_Extra m) 0 None")
  case (Some ij)
  assume typed: "msg_typed m"
  obtain i j where ij: "ij = (i, j)" by fastforce
  from find_opt_sound [OF Some] obtain opts where o1: "i < length (msg_Extra m)" "rr_Data (msg_Extra m ! i) = RD_OPT opts"
    by (auto simp: opt_at_def ij)
  have "r \<in> set (msg_Extra (SetClientSubnet m p)) \<Longrightarrow> r \<in> set (msg_Extra m) \<or> (\<exists>opts. rr_Data r = RD_OPT opts)" for r
    using Some o1 set_update_subset_insert [of "msg_Extra m" i] by (force simp: SetClientSubnet_def ij Let_def)
  with typed show ?thesis unfolding msg_typed_def by blast
qed (auto simp: SetClientSubnet_def msg_typed_def)

lemma isSimpleRequest_Ok: "msg_typed m \<Longrightarrow> \<exists>b. isSimpleRequest m opt = Ok b"
  by (auto simp: isSimpleRequest_def msg_typed_def is_OPT_def split: list.split rdata.split)

lemma finish_exchange_Ok:
  assumes "client_wf c" and "finish_exchange env t q message opt checker d response c w = (r, c', w')"
    and "\<not> d \<Longrightarrow> \<not> cl_disableCache c"
  shows "\<exists>m e. r = Ok (Some m, e)"
  using assms
  by (auto simp: finish_exchange_def Let_def split: if_splits prod.splits bool.splits dest: storeCache_Ok [OF assms(1), rotated])

lemma ask_transport_Ok:
  assumes "env_answers env" and "client_wf c" and "\<not> d \<Longrightarrow> \<not> cl_disableCache c"
    and "ask_transport env ctx t q message opt checker d c w = (r, c', w')"
  shows "\<exists>m e. r = Ok (m, e) \<and> (m \<noteq> None \<or> e \<noteq> None)"
proof (cases "cx_TransportTag ctx = Some (obj_tag t)")
  case False
  obtain b w1 where b: "check_rdrc env t q checker d c w = (b, w1)" by fastforce
  with assms(1) obtain x where "b = Ok x" unfolding env_answers_def check_rdrc_def by (metis fst_conv)
  moreover have "fst (de_Exchange env t (ctx\<lparr>cx_TransportTag := Some (obj_tag t)\<rparr>) message w1) \<noteq> Inr None"
    using assms(1) by (simp add: env_answers_def)
  ultimately show ?thesis using assms(4) False finish_exchange_Ok [OF assms(2) _ assms(3)]
    by (fastforce simp: ask_transport_def b split: bool.splits sum.splits option.splits prod.splits)
qed (use assms(4) in \<open>auto simp: ask_transport_def\<close>)

lemma client_Exchange_Ok:
  assumes "env_answers env" and "client_wf c" and "msg_typed message"
    and "client_Exchange env ctx t message opt checker c w = (r, c', w')"
  shows "\<exists>m e. r = Ok (m, e) \<and> (m \<noteq> None \<or> e \<noteq> None)"
proof (cases "msg_Question message")
  case (Cons q qs)
  show ?thesis
  proof (cases "strategy_rejects (qo_Strategy opt) q")
    case False
    define m where "m = request_message c message opt"
    have "msg_typed m" using assms(3) by (simp add: m_def request_message_def Let_def SetClientSubnet_typed)
    then obtain simple where s: "isSimpleRequest m opt = Ok simple" using isSimpleRequest_Ok by blast
    define d where "d = (\<not> simple \<or> cl_disableCache c \<or> qo_DisableCache opt)"
    obtain x c1 w1 where l: "try_cache env q t d c w = (x, c1, w1)" by (metis prod_cases3)
    have "\<exists>y. x = Ok y"
    proof (cases d)
      case False
      then show ?thesis using l loadResponse_Ok [OF assms(2), of env q t w] by (simp add: try_cache_def d_def)
    qed (use l in \<open>auto simp: try_cache_def\<close>)
    then obtain y where y: "x = Ok y" ..
    have c1: "same_config c c1" using l by (auto simp: try_cache_def split: if_splits dest: loadResponse_config)
    then have "client_wf c1" and nd: "\<not> d \<Longrightarrow> \<not> cl_disableCache c1" using assms(2) by (auto simp: same_config_def d_def)
    from ask_transport_Ok [OF assms(1) this] assms(4) show ?thesis
      unfolding client_Exchange_def Cons list.case if_not_P [OF False] Let_def m_def [symmetric] s res.case
        d_def [symmetric] l y prod.case
      by (auto split: option.splits)
  qed (use assms Cons in \<open>auto simp: client_Exchange_def\<close>)
qed (use assms in \<open>auto simp: client_Exchange_def\<close>)

lemma lookupToExchange_Ok:
  assumes "env_answers env" and "client_wf c"
    and "lookupToExchange env ctx t name qtype opt checker c w = (r, c', w')"
  shows "\<exists>x. r = Ok x"
proof -
  define q where "q = \<lparr>q_Name = name, q_Qtype = qtype, q_Qclass = ClassINET\<rparr>"
  define d where "d = (cl_disableCache c \<or> qo_DisableCache opt)"
  obtain x c1 w1 where l: "try_question env q t d c w = (x, c1, w1)" by (metis prod_cases3)
  have "(\<exists>y. x = Ok y) \<and> client_wf c1"
  proof (cases d)
    case False
    obtain lr c2 w2 where lr: "loadResponse env q t c w = (lr, c2, w2)" by (metis prod_cases3)
    then show ?thesis using l False loadResponse_Ok [OF assms(2) _ lr] loadResponse_config [OF lr] assms(2)
      by (auto simp: try_question_def questionCache_def d_def same_config_def)
  qed (use l assms(2) in \<open>auto simp: try_question_def\<close>)
  then obtain y where y: "x = Ok y" and wf: "client_wf c1" by blast
  obtain e c2 w2 where e: "client_Exchange env ctx t (lookup_message q) opt checker c1 w1 = (e, c2, w2)" by (metis prod_cases3)
  have "msg_typed (lookup_message q)" by (simp add: msg_typed_def lookup_message_def dns_msg_zero_def)
  from client_Exchange_Ok [OF assms(1) wf this e] assms(3) show ?thesis
    unfolding lookupToExchange_def Let_def q_def [symmetric] d_def [symmetric] l y
    by (auto simp: e exchange_addresses_def split: if_splits option.splits)
qed

lemma client_Lookup_Ok:
  assumes "env_answers env" and "client_wf c" and "client_Lookup env ctx t domain opt checker c w = (r, c', w')"
  shows "\<exists>x. r = Ok x"
proof -
  define one where "one = (\<lambda>qtype. lookupToExchange env ctx t (md_Fqdn env (FqdnToDomain env domain)) qtype opt checker)"
  have one: "lookupToExchange env ctx t (md_Fqdn env (FqdnToDomain env domain)) qtype opt checker = one qtype" for qtype
    by (simp add: one_def)
  have ok: "one qtype c w = (r, c', w') \<Longrightarrow> client_wf c \<Longrightarrow> (\<exists>x. r = Ok x) \<and> client_wf c'" for qtype c w r c' w'
    using lookupToExchange_Ok [OF assms(1)] config.lookupToExchange_I [of c c] by (fastforce simp: one_def same_config_def)
  have "group_run (one a) (one b) f c w = (r, c', w') \<Longrightarrow> \<exists>x. r = Ok x" for a b f r c' w'
    using assms(2) by (auto simp: group_run_def split: prod.splits if_splits dest!: ok)
  with ok assms(2) show ?thesis using assms(3) unfolding client_Lookup_def Let_def one
    by (fastforce split: if_splits prod.splits)
qed

section \<open>What the cache holds\<close>

text \<open>
  An entry at the time \<open>now\<close>: only successful and negative answers are cached; without an OPT record,
  all records have one lifetime, which is not zero, and the entry expires that many seconds after
  it was put in.
\<close>

definition fresh_entry :: "bool \<Rightarrow> int \<Rightarrow> dns_msg \<times> int option \<Rightarrow> bool" where
  "fresh_entry expires now x \<longleftrightarrow>
     (msg_Rcode (fst x) = RcodeSuccess \<or> msg_Rcode (fst x) = RcodeNameError) \<and>
     (expires \<longrightarrow> snd x \<noteq> None) \<and>
     ((\<forall>r \<in> set (msg_Extra (fst x)). \<not> is_OPT r) \<longrightarrow>
        (\<exists>ttl t0. ttl > 0 \<and> t0 \<le> now \<and> (\<forall>r \<in> set (msg_records (fst x)). rr_Ttl r = ttl) \<and>
           (\<forall>e. snd x = Some e \<longrightarrow> e = t0 + 10 ^ 9 * uint ttl)))"

lemma fresh_entry_mono: "fresh_entry ex now x \<Longrightarrow> now \<le> now' \<Longrightarrow> fresh_entry ex now' x"
  unfolding fresh_entry_def by (meson order_trans)

lemma answer_request_cases:
  assumes "edns_ok env"
  obtains (same) "answer_request env message m = m\<lparr>msg_Id := msg_Id message\<rparr>"
  | (stripped) "answer_request env message m =
      m\<lparr>msg_Id := msg_Id message, msg_Extra := filter (\<lambda>r. \<not> is_OPT r) (msg_Extra m)\<rparr>"
  | (reset) r where "is_OPT r" "answer_request env message m =
      m\<lparr>msg_Id := msg_Id message, msg_Extra := filter (\<lambda>r. \<not> is_OPT r) (msg_Extra m) @ [r]\<rparr>"
proof -
  let ?m = "m\<lparr>msg_Id := msg_Id message\<rparr>"
  have F: "de_FilterRR env (\<lambda>it. h_Rrtype (rr_Hdr it) \<noteq> TypeOPT) xs = filter (\<lambda>r. \<not> is_OPT r) xs" for xs
    using assms by (simp add: edns_ok_def is_OPT_def)
  show thesis
  proof (cases "md_IsEdns0 env ?m")
    case None
    then show thesis by (intro same) (simp add: answer_request_def)
  next
    case (Some ro)
    show thesis
    proof (cases "md_IsEdns0 env message")
      case None
      with Some show thesis by (intro stripped) (simp add: answer_request_def F)
    next
      case (Some qo)
      obtain r where r: "is_OPT r" "md_SetEdns0 env (md_UDPSize env ro) (md_Do env ro)
          (?m\<lparr>msg_Extra := filter (\<lambda>r. \<not> is_OPT r) (msg_Extra m)\<rparr>) =
          ?m\<lparr>msg_Extra := filter (\<lambda>r. \<not> is_OPT r) (msg_Extra m) @ [r]\<rparr>"
        using assms [unfolded edns_ok_def, THEN conjunct2, rule_format, of "md_UDPSize env ro" "md_Do env ro"
            "?m\<lparr>msg_Extra := filter (\<lambda>r. \<not> is_OPT r) (msg_Extra m)\<rparr>"] by auto
      show thesis
      proof (cases "md_Version env qo < md_Version env ro")
        case True
        with Some \<open>md_IsEdns0 env ?m = Some ro\<close> r show thesis by (intro reset [OF r(1)]) (simp add: answer_request_def F)
      next
        case False
        with Some \<open>md_IsEdns0 env ?m = Some ro\<close> show thesis by (intro same) (simp add: answer_request_def)
      qed
    qed
  qed
qed

lemma answer_request_fresh:
  assumes "edns_ok env" and "msg_Rcode m = RcodeSuccess \<or> msg_Rcode m = RcodeNameError" and "ttl \<noteq> 0"
    and "n \<le> now" and "e = None \<longrightarrow> \<not> ex" and "e \<noteq> None \<longrightarrow> e = Some (n + 10 ^ 9 * uint ttl)"
  shows "fresh_entry ex now (answer_request env message (map_records (rr_set_Ttl ttl) m), e)"
proof -
  let ?m = "map_records (rr_set_Ttl ttl) m"
  have "ttl > 0" using assms(3) by (simp add: word_gt_0)
  have "msg_Rcode (answer_request env message ?m) = msg_Rcode m"
    by (cases rule: answer_request_cases [OF assms(1), of message ?m]) auto
  moreover have "\<forall>r \<in> set (msg_records (answer_request env message ?m)). rr_Ttl r = ttl"
    if "\<forall>r \<in> set (msg_Extra (answer_request env message ?m)). \<not> is_OPT r"
    using that by (cases rule: answer_request_cases [OF assms(1), of message ?m]) (auto simp: msg_records_def)
  moreover have "\<forall>e'. e = Some e' \<longrightarrow> e' = n + 10 ^ 9 * uint ttl" using assms(6) by auto
  ultimately show ?thesis using assms(2,4,5) \<open>ttl > 0\<close> unfolding fresh_entry_def fst_conv snd_conv
    by (intro conjI impI exI [of _ ttl] exI [of _ n]) simp_all
qed

definition dns_env_ok :: "('a, 'b, 'w) dns_env \<Rightarrow> ('a \<Rightarrow> dns_Question \<rightharpoonup> dns_msg \<times> int option) \<Rightarrow>
    ('b \<Rightarrow> transportCacheKey \<rightharpoonup> dns_msg \<times> int option) \<Rightarrow> ('w \<Rightarrow> int) \<Rightarrow> bool" where
  "dns_env_ok env V VT clk \<longleftrightarrow> lru_sound (de_lru env) V \<and> lru_sound (de_lruT env) VT \<and> clock_ok env clk \<and> edns_ok env \<and>
     (\<forall>n. V (de_New env n) = Map.empty) \<and> (\<forall>n. VT (de_NewT env n) = Map.empty)"

definition cache_inv :: "('a \<Rightarrow> dns_Question \<rightharpoonup> dns_msg \<times> int option) \<Rightarrow>
    ('b \<Rightarrow> transportCacheKey \<rightharpoonup> dns_msg \<times> int option) \<Rightarrow> ('w \<Rightarrow> int) \<Rightarrow> ('a, 'b, 'w) Client \<Rightarrow> 'w \<Rightarrow> bool" where
  "cache_inv V VT clk c w \<longleftrightarrow> entries V VT (fresh_entry (\<not> cl_disableExpire c) (clk w)) c"

lemma cache_inv_later: "cache_inv V VT clk c w \<Longrightarrow> clk w \<le> clk w' \<Longrightarrow> cache_inv V VT clk c w'"
  unfolding cache_inv_def by (erule entries_mono) (rule fresh_entry_mono)

lemma cache_inv_with_cache:
  assumes "cache_inv V VT clk c w" and "with_cache f g c = (r, c')"
    and "\<And>s x s' k y. f s = (x, s') \<Longrightarrow> V s' k = Some y \<Longrightarrow> V s k = Some y \<or> fresh_entry (\<not> cl_disableExpire c) (clk w) y"
    and "\<And>s x s' k y. g s = (x, s') \<Longrightarrow> VT s' k = Some y \<Longrightarrow> VT s k = Some y \<or> fresh_entry (\<not> cl_disableExpire c) (clk w) y"
  shows "cache_inv V VT clk c' w"
  using entries_with_cache [OF assms(1) [unfolded cache_inv_def] assms(2-4)] with_cache_keeps(1) [OF assms(2)]
  by (simp add: cache_inv_def)

lemma now_later: "clock_ok env clk \<Longrightarrow> de_Now env w = (n, w') \<Longrightarrow> clk w \<le> n \<and> n \<le> clk w' \<and> clk w \<le> clk w'"
  unfolding clock_ok_def by (meson order_trans)

lemma loadResponse_inv:
  assumes ok: "dns_env_ok env V VT clk" and inv: "cache_inv V VT clk c w" and l: "loadResponse env q t c w = (r, c', w')"
  shows "cache_inv V VT clk c' w'"
proof -
  note sound = ok [unfolded dns_env_ok_def, THEN conjunct1] ok [unfolded dns_env_ok_def, THEN conjunct2, THEN conjunct1]
  have clock: "clock_ok env clk" using ok by (simp add: dns_env_ok_def)
  obtain n1 w1 n2 w2 where n: "de_Now env w = (n1, w1)" "de_Now env w1 = (n2, w2)" by fastforce
  have inv1: "cache_inv V VT clk c w1" using inv now_later [OF clock n(1)] by (blast intro: cache_inv_later)
  have keep: "cache_inv V VT clk c' w1"
    if "cache_inv V VT clk c w1" "with_cache f g c = (r, c')" "\<And>s x s' k y. f s = (x, s') \<Longrightarrow> V s' k = Some y \<Longrightarrow> V s k = Some y"
      "\<And>s x s' k y. g s = (x, s') \<Longrightarrow> VT s' k = Some y \<Longrightarrow> VT s k = Some y" for f :: "'a \<Rightarrow> 'x \<times> 'a" and g r c c'
    using that by (intro cache_inv_with_cache [OF that(1,2)]) blast+
  have get: "cache_inv V VT clk c' w1"
    if "with_cache (lru_Get (de_lru env) n1 q) (lru_Get (de_lruT env) n1 (q, obj_tag t)) c = (r, c')" for r c'
    using inv1 that by (rule keep) (blast intro: lru_view(1) [OF sound(1)] lru_view(1) [OF sound(2)])+
  have getl: "cache_inv V VT clk c' w1"
    if "with_cache (lru_GetWithLifetime (de_lru env) n1 q) (lru_GetWithLifetime (de_lruT env) n1 (q, obj_tag t)) c = (r, c')" for r c'
    using inv1 that by (rule keep) (blast intro: lru_view(2) [OF sound(1)] lru_view(2) [OF sound(2)])+
  have rem: "cache_inv V VT clk c3 w1"
    if "cache_inv V VT clk c2 w1" "with_cache (\<lambda>s. ((), lru_Remove (de_lru env) q s)) (\<lambda>s. ((), lru_Remove (de_lruT env) (q, obj_tag t) s)) c2 = (r, c3)" for r c2 c3
    using that by (rule keep) (auto intro: lru_view(5) [OF sound(1)] lru_view(5) [OF sound(2)])
  have later: "cache_inv V VT clk c w1 \<Longrightarrow> w2 = w \<Longrightarrow> cache_inv V VT clk c w" for c w
    using now_later [OF clock n(2)] by (blast intro: cache_inv_later)
  from l show ?thesis unfolding loadResponse_def n prod.case Let_def
    by (auto split: if_splits prod.splits res.splits option.splits dest!: get getl intro: rem later)
qed

lemma storeCache_inv:
  assumes ok: "dns_env_ok env V VT clk" and inv: "cache_inv V VT clk c w"
    and rc: "msg_Rcode m = RcodeSuccess \<or> msg_Rcode m = RcodeNameError"
    and s: "storeCache env t q (answer_request env message (map_records (rr_set_Ttl ttl) m)) ttl c w = (u, c', w')"
  shows "cache_inv V VT clk c' w'"
proof (cases "ttl = 0")
  case False
  note sound = ok [unfolded dns_env_ok_def, THEN conjunct1] ok [unfolded dns_env_ok_def, THEN conjunct2, THEN conjunct1]
  have clock: "clock_ok env clk" and edns: "edns_ok env" using ok by (simp_all add: dns_env_ok_def)
  obtain n w1 where n: "de_Now env w = (n, w1)" by fastforce
  have inv1: "cache_inv V VT clk c w1" using inv now_later [OF clock n] by (blast intro: cache_inv_later)
  let ?m = "answer_request env message (map_records (rr_set_Ttl ttl) m)"
  have "n \<le> clk w1" using now_later [OF clock n] by simp
  note fresh = answer_request_fresh [OF edns rc False this]
  show ?thesis
  proof (cases "cl_disableExpire c")
    case True
    with s False have "with_cache (\<lambda>s. ((), lru_Add (de_lru env) n q ?m s)) (\<lambda>s. ((), lru_Add (de_lruT env) n (q, obj_tag t) ?m s)) c = (u, c')"
      and "w' = w1" by (auto simp: storeCache_def n split: prod.splits)
    note w = this
    have "fresh_entry (\<not> cl_disableExpire c) (clk w1) (?m, None)" using True by (intro fresh) simp_all
    then show ?thesis unfolding w(2)
      by (intro cache_inv_with_cache [OF inv1 w(1)]) (auto dest!: lru_view(3) [OF sound(1)] lru_view(3) [OF sound(2)])
  next
    case ex: False
    with s False have "with_cache (\<lambda>s. ((), lru_AddWithLifetime (de_lru env) n q ?m (10 ^ 9 * uint ttl) s))
        (\<lambda>s. ((), lru_AddWithLifetime (de_lruT env) n (q, obj_tag t) ?m (10 ^ 9 * uint ttl) s)) c = (u, c')"
      and "w' = w1" by (auto simp: storeCache_def n split: prod.splits)
    note w = this
    have "fresh_entry (\<not> cl_disableExpire c) (clk w1) (?m, Some (n + 10 ^ 9 * uint ttl))" by (intro fresh) simp_all
    then show ?thesis unfolding w(2)
      by (intro cache_inv_with_cache [OF inv1 w(1)]) (auto dest!: lru_view(4) [OF sound(1)] lru_view(4) [OF sound(2)])
  qed
qed (use s inv in \<open>auto simp: storeCache_def\<close>)

interpretation cache: client_steps env "\<lambda>chk. \<forall>as w. clk w \<le> clk (snd (chk as w))" "\<lambda>c w. dns_env_ok env V VT clk \<longrightarrow> cache_inv V VT clk c w"
proof unfold_locales
  fix c w tn qn ty b w'
  assume "dns_env_ok env V VT clk \<longrightarrow> cache_inv V VT clk c w" and "de_LoadRDRC env tn qn ty w = (b, w')"
  then show "dns_env_ok env V VT clk \<longrightarrow> cache_inv V VT clk c w'"
    by (auto simp: dns_env_ok_def clock_ok_def intro: cache_inv_later)
next
  fix c w t ctx m x w'
  assume "dns_env_ok env V VT clk \<longrightarrow> cache_inv V VT clk c w" and "de_Exchange env t ctx m w = (x, w')"
  then show "dns_env_ok env V VT clk \<longrightarrow> cache_inv V VT clk c w'"
    by (auto simp: dns_env_ok_def clock_ok_def intro: cache_inv_later)
next
  fix c w as b w' and chk :: "addr list \<Rightarrow> 'c \<Rightarrow> bool \<times> 'c"
  assume "dns_env_ok env V VT clk \<longrightarrow> cache_inv V VT clk c w" and "\<forall>as w. clk w \<le> clk (snd (chk as w))" and "chk as w = (b, w')"
  then show "dns_env_ok env V VT clk \<longrightarrow> cache_inv V VT clk c w'" by (metis cache_inv_later snd_conv)
next
  fix c w tn qn ty
  assume "dns_env_ok env V VT clk \<longrightarrow> cache_inv V VT clk c w"
  then show "dns_env_ok env V VT clk \<longrightarrow> cache_inv V VT clk c (de_SaveRDRCAsync env tn qn ty w)"
    by (auto simp: dns_env_ok_def clock_ok_def intro: cache_inv_later)
qed (blast intro: loadResponse_inv storeCache_inv)+

text \<open>No operation turns the clock back.\<close>

lemma loadResponse_later:
  assumes "clock_ok env clk" and "loadResponse env q t c w = (r, c', w')"
  shows "clk w \<le> clk w'"
proof -
  obtain n1 w1 n2 w2 where n: "de_Now env w = (n1, w1)" "de_Now env w1 = (n2, w2)" by (metis surj_pair)
  have "w' = w1 \<or> w' = w2" using assms(2)
    by (auto simp: loadResponse_def n Let_def split: prod.splits if_splits res.splits option.splits)
  then show ?thesis using now_later [OF assms(1) n(1)] now_later [OF assms(1) n(2)] by auto
qed

lemma storeCache_later: "clock_ok env clk \<Longrightarrow> storeCache env t q m ttl c w = (r, c', w') \<Longrightarrow> clk w \<le> clk w'"
  by (auto simp: storeCache_def split: prod.splits if_splits dest!: now_later)

lemma clock_okD:
  assumes "clock_ok env clk"
  shows "de_Exchange env t ctx m w = (x, w') \<Longrightarrow> clk w \<le> clk w'"
    and "de_LoadRDRC env tn qn ty w = (b, w') \<Longrightarrow> clk w \<le> clk w'"
    and "clk w \<le> clk (de_SaveRDRCAsync env tn qn ty w)"
  using assms by (simp_all add: clock_ok_def)

lemma since_trans:
  fixes since :: int
  shows "(ok \<longrightarrow> since \<le> a) \<Longrightarrow> (ok \<Longrightarrow> a \<le> b) \<Longrightarrow> ok \<longrightarrow> since \<le> b"
  by force

interpretation later: client_steps env "\<lambda>chk. \<forall>as w. clk w \<le> clk (snd (chk as w))" "\<lambda>c w. clock_ok env clk \<longrightarrow> since \<le> clk w"
proof unfold_locales
  fix c w as b w' and chk :: "addr list \<Rightarrow> 'c \<Rightarrow> bool \<times> 'c"
  assume "clock_ok env clk \<longrightarrow> since \<le> clk w" and "\<forall>as w. clk w \<le> clk (snd (chk as w))" and "chk as w = (b, w')"
  then show "clock_ok env clk \<longrightarrow> since \<le> clk w'" by (metis order_trans snd_conv)
qed (erule since_trans, erule (1) loadResponse_later clock_okD(1,2) storeCache_later | erule since_trans, erule clock_okD(3))+

section \<open>Runs of the client\<close>

datatype 'w client_op =
    OpStart
  | OpClearCache
  | OpExchange dns_ctx obj dns_msg DNSQueryOptions (op_checker: "'w responseChecker option")
  | OpLookup dns_ctx obj string DNSQueryOptions (op_checker: "'w responseChecker option")
  where "op_checker OpStart = None" | "op_checker OpClearCache = None"

text \<open>One operation: whether it panicked, and the state after it.\<close>

fun client_step :: "('a, 'b, 'w) dns_env \<Rightarrow> 'w client_op \<Rightarrow> ('a, 'b, 'w) Client \<Rightarrow> 'w \<Rightarrow> bool \<times> ('a, 'b, 'w) Client \<times> 'w" where
  "client_step env OpStart c w = (False, client_Start c w, w)"
| "client_step env OpClearCache c w = (False, client_ClearCache env c, w)"
| "client_step env (OpExchange ctx t m opt chk) c w =
     (case client_Exchange env ctx t m opt chk c w of (r, c', w') \<Rightarrow> (is_panic r, c', w'))"
| "client_step env (OpLookup ctx t domain opt chk) c w =
     (case client_Lookup env ctx t domain opt chk c w of (r, c', w') \<Rightarrow> (is_panic r, c', w'))"

fun client_run :: "('a, 'b, 'w) dns_env \<Rightarrow> 'w client_op list \<Rightarrow> ('a, 'b, 'w) Client \<Rightarrow> 'w \<Rightarrow> bool list \<times> ('a, 'b, 'w) Client \<times> 'w" where
  "client_run env [] c w = ([], c, w)"
| "client_run env (op # ops) c w =
     (case client_step env op c w of (p, c1, w1) \<Rightarrow> (case client_run env ops c1 w1 of (ps, c2, w2) \<Rightarrow> (p # ps, c2, w2)))"

primrec op_typed :: "'w client_op \<Rightarrow> bool" where
  "op_typed OpStart = True"
| "op_typed OpClearCache = True"
| "op_typed (OpExchange ctx t m opt chk) = msg_typed m"
| "op_typed (OpLookup ctx t domain opt chk) = True"

lemma client_step_wf:
  assumes "env_answers env" and "client_wf c" and "op_typed op" and "client_step env op c w = (p, c', w')"
  shows "\<not> p \<and> client_wf c'"
proof (cases op)
  case (OpExchange ctx t m opt chk)
  then obtain r where r: "client_Exchange env ctx t m opt chk c w = (r, c', w')" "p = is_panic r"
    using assms(4) by (auto split: prod.splits)
  from client_Exchange_Ok [OF assms(1,2) _ r(1)] config.client_Exchange_I [OF same_config_refl r(1)] show ?thesis
    using r(2) assms(2,3) OpExchange by (auto simp: same_config_def)
next
  case (OpLookup ctx t domain opt chk)
  then obtain r where r: "client_Lookup env ctx t domain opt chk c w = (r, c', w')" "p = is_panic r"
    using assms(4) by (auto split: prod.splits)
  from client_Lookup_Ok [OF assms(1,2) r(1)] config.client_Lookup_I [OF same_config_refl r(1)] show ?thesis
    using r(2) assms(2) by (auto simp: same_config_def)
qed (use assms in \<open>auto simp: client_wf_def client_Start_def client_ClearCache_def split: option.splits if_splits\<close>)

lemma client_run_wf:
  "env_answers env \<Longrightarrow> client_wf c \<Longrightarrow> \<forall>op \<in> set ops. op_typed op \<Longrightarrow> client_run env ops c w = (ps, c', w') \<Longrightarrow>
   True \<notin> set ps \<and> client_wf c'"
proof (induction ops arbitrary: c w ps)
  case (Cons op ops)
  then show ?case by (auto split: prod.splits dest!: client_step_wf)
qed simp


text \<open>A transport that returns neither a response nor an error makes the client panic.\<close>

lemma nil_response_panics:
  assumes "msg_Question m = q # qs" and "\<not> strategy_rejects (qo_Strategy opt) q" and "isSimpleRequest (request_message c m opt) opt = Ok simple"
    and "qo_DisableCache opt" and "cx_TransportTag ctx \<noteq> Some (obj_tag t)" and "fst (de_Exchange env t (ctx\<lparr>cx_TransportTag := Some (obj_tag t)\<rparr>)
      (request_message c m opt) w) = Inr None"
  shows "is_panic (fst (client_Exchange env ctx t m opt None c w))"
  using assms by (auto simp: client_Exchange_def try_cache_def ask_transport_def check_rdrc_def Let_def split: prod.splits)

text \<open>The closures that check addresses do not turn back the clock.\<close>

definition checks_in_time :: "('w \<Rightarrow> int) \<Rightarrow> 'w client_op \<Rightarrow> bool" where
  "checks_in_time clk op \<longleftrightarrow> (\<forall>chk as w. op_checker op = Some chk \<longrightarrow> clk w \<le> clk (snd (chk as w)))"

lemma client_step_inv:
  assumes "dns_env_ok env V VT clk" and "cache_inv V VT clk c w" and "client_step env op c w = (p, c', w')"
    and "\<forall>chk as w. op_checker op = Some chk \<longrightarrow> clk w \<le> clk (snd (chk as w))"
  shows "cache_inv V VT clk c' w'"
proof (cases op)
  case OpClearCache
  have "lru_sound (de_lru env) V" "lru_sound (de_lruT env) VT" using assms(1) by (simp_all add: dns_env_ok_def)
  with assms OpClearCache show ?thesis
    by (auto simp: client_ClearCache_def cache_inv_def entries_def lru_view(6) split: option.splits)
next
  case (OpExchange ctx t m opt chk)
  then obtain r where "client_Exchange env ctx t m opt chk c w = (r, c', w')" using assms(3) by (auto split: prod.splits)
  then show ?thesis using cache.client_Exchange_I [of env V VT clk c w] assms(1,2,4) OpExchange by simp
next
  case (OpLookup ctx t domain opt chk)
  then obtain r where "client_Lookup env ctx t domain opt chk c w = (r, c', w')" using assms(3) by (auto split: prod.splits)
  then show ?thesis using cache.client_Lookup_I [of env V VT clk c w] assms(1,2,4) OpLookup by simp
qed (use assms in \<open>auto simp: client_Start_def cache_inv_def entries_def split: option.splits\<close>)

lemma client_run_inv:
  "dns_env_ok env V VT clk \<Longrightarrow> cache_inv V VT clk c w \<Longrightarrow> client_run env ops c w = (ps, c', w') \<Longrightarrow>
   \<forall>op \<in> set ops. checks_in_time clk op \<Longrightarrow> cache_inv V VT clk c' w'"
proof (induction ops arbitrary: c w ps)
  case (Cons op ops)
  from Cons.prems(3) obtain p c1 w1 ps' where s: "client_step env op c w = (p, c1, w1)" "client_run env ops c1 w1 = (ps', c', w')"
    by (auto split: prod.splits)
  have "cache_inv V VT clk c1 w1"
    using client_step_inv [OF Cons.prems(1,2) s(1)] Cons.prems(4) by (simp add: checks_in_time_def)
  then show ?case using Cons.IH [OF Cons.prems(1) _ s(2)] Cons.prems(4) by simp
qed simp

lemma NewClient_inv: "dns_env_ok env V VT clk \<Longrightarrow> cache_inv V VT clk (NewClient env opt) w"
  by (auto simp: cache_inv_def entries_def NewClient_def Let_def dns_env_ok_def)

section \<open>Ageing\<close>

lemma min_ttl_uniform:
  assumes "\<forall>r \<in> set rs. rr_Ttl r = ttl" and "rs \<noteq> []"
  shows "min_ttl rs = ttl"
proof -
  have "foldl (\<lambda>t r. if t = 0 \<or> rr_Ttl r > 0 \<and> rr_Ttl r < t then rr_Ttl r else t) ttl xs = ttl"
    if "\<forall>r \<in> set xs. rr_Ttl r = ttl" for xs using that by (induction xs) auto
  with assms show ?thesis by (cases rs) (auto simp: min_ttl_def)
qed

lemma aged_uniform:
  assumes "\<forall>r \<in> set (msg_records m). rr_Ttl r = ttl"
  shows "aged n m = map_records (rr_set_Ttl (word_of_int n)) m"
proof (cases "msg_records m = []")
  case True
  then show ?thesis by (auto simp: aged_def map_records_def msg_records_def Let_def)
next
  case False
  have "rr_Ttl r - word_of_int (uint (min_ttl (msg_records m)) - n) = word_of_int n" if "r \<in> set (msg_records m)" for r
    using assms that min_ttl_uniform [OF assms False] by simp
  then show ?thesis unfolding aged_def Let_def by (auto intro: map_records_cong)
qed

text \<open>The entry that the cache has for a question and a transport.\<close>

definition cached_at :: "('a \<Rightarrow> dns_Question \<rightharpoonup> dns_msg \<times> int option) \<Rightarrow>
    ('b \<Rightarrow> transportCacheKey \<rightharpoonup> dns_msg \<times> int option) \<Rightarrow> ('a, 'b, 'w) Client \<Rightarrow> dns_Question \<Rightarrow> obj \<Rightarrow>
    (dns_msg \<times> int option) option" where
  "cached_at V VT c q t =
     (if \<not> cl_independentCache c then Option.bind (cl_cache c) (\<lambda>s. V s q)
      else Option.bind (cl_transportCache c) (\<lambda>s. VT s (q, obj_tag t)))"

lemma cached_at_entries: "entries V VT P c \<Longrightarrow> cached_at V VT c q t = Some x \<Longrightarrow> P x"
  by (cases x) (auto simp: cached_at_def entries_def split: if_splits Option.bind_splits)

lemma loadResponse_found:
  assumes ok: "lru_sound (de_lru env) V" "lru_sound (de_lruT env) VT"
    and l: "loadResponse env q t c w = (Ok (Some (m, ttl)), c', w')" and ex: "\<not> cl_disableExpire c"
  shows "\<exists>m0 x e n1 w1 n2. cached_at V VT c q t = Some (m0, x) \<and> (\<forall>e'. x = Some e' \<longrightarrow> e' = e) \<and>
    de_Now env w = (n1, w1) \<and> de_Now env w1 = (n2, w') \<and> n2 \<le> e \<and> ttl = (e - n2) div 10 ^ 9 \<and> m = aged ttl m0"
proof -
  obtain n1 w1 n2 w2 where n: "de_Now env w = (n1, w1)" "de_Now env w1 = (n2, w2)" by fastforce
  obtain g c1 where g: "with_cache (lru_GetWithLifetime (de_lru env) n1 q)
      (lru_GetWithLifetime (de_lruT env) n1 (q, obj_tag t)) c = (g, c1)" by fastforce
  from l ex obtain m0 e where m0: "g = Ok (Some (m0, e))" and "n2 \<le> e" and "w' = w2"
    and "ttl = max 0 ((e - n2) div 10 ^ 9)" and "m = aged ttl m0"
    by (auto simp: loadResponse_def n g Let_def split: res.splits option.splits if_splits prod.splits elim: bindR.elims)
  note rest = this(2-)
  have "\<exists>x. cached_at V VT c q t = Some (m0, x) \<and> (\<forall>e'. x = Some e' \<longrightarrow> e' = e)" using g
  proof (cases rule: with_cache_cases)
    case (cache s x s')
    with m0 lru_GetWithLifetime_found [OF ok(1), of n1 q s m0 e] show ?thesis by (auto simp: cached_at_def)
  next
    case (transport s x s')
    with m0 lru_GetWithLifetime_found [OF ok(2), of n1 "(q, obj_tag t)" s m0 e] show ?thesis by (auto simp: cached_at_def)
  qed (use m0 in simp)
  with rest n show ?thesis by (auto simp: max_def not_le dest: div_neg_pos_less0)
qed

text \<open>
  C11: A response from the cache never carries a lifetime that has wrapped around, and never a
  longer one than the response was stored with: at any time after a run of operations on a new
  client, the records of a cached response without an OPT record all carry exactly the whole seconds that are
  left until the entry expires, and these are at most the seconds it was stored for.
\<close>

theorem cached_ttl_remaining:
  assumes "dns_env_ok env V VT clk" and ops: "\<forall>op \<in> set ops. checks_in_time clk op"
    and "client_run env ops (NewClient env opt) w0 = (ps, c, w1)" and "clk w1 \<le> clk w" and "\<not> cl_disableExpire c"
    and "loadResponse env q t c w = (Ok (Some (m, ttl)), c', w')" and "\<forall>r \<in> set (msg_Extra m). \<not> is_OPT r"
  shows "\<exists>m0 e n stored. cached_at V VT c q t = Some (m0, Some e) \<and> clk w \<le> n \<and> n \<le> e \<and>
    (\<forall>r \<in> set (msg_records m0). rr_Ttl r = stored) \<and> m = map_records (rr_set_Ttl (word_of_int ttl)) m0 \<and>
    ttl = (e - n) div 10 ^ 9 \<and> 0 \<le> ttl \<and> ttl \<le> uint stored \<and> (\<forall>r \<in> set (msg_records m). uint (rr_Ttl r) = ttl)"
proof -
  have sound: "lru_sound (de_lru env) V" "lru_sound (de_lruT env) VT" and clock: "clock_ok env clk"
    using assms(1) by (simp_all add: dns_env_ok_def)
  from loadResponse_found [OF sound assms(6,5)] obtain m0 x e n1 v1 n
    where f: "cached_at V VT c q t = Some (m0, x)" "\<forall>e'. x = Some e' \<longrightarrow> e' = e" "de_Now env w = (n1, v1)"
      "de_Now env v1 = (n, w')" "n \<le> e" "ttl = (e - n) div 10 ^ 9" "m = aged ttl m0" by blast
  have "cache_inv V VT clk c w"
    using client_run_inv [OF assms(1) NewClient_inv [OF assms(1)] assms(3) ops] assms(4) by (rule cache_inv_later)
  then have fresh: "fresh_entry True (clk w) (m0, x)" using cached_at_entries [OF _ f(1)] assms(5) by (force simp: cache_inv_def)
  then have x: "x = Some e" using f(2) by (auto simp: fresh_entry_def)
  have "\<forall>r \<in> set (msg_Extra m0). \<not> is_OPT r"
    using assms(7) f(7) by (auto simp: aged_def Let_def is_OPT_def rr_set_Ttl_def split: if_splits)
  with fresh x obtain stored t0 where s: "stored > 0" "t0 \<le> clk w" "\<forall>r \<in> set (msg_records m0). rr_Ttl r = stored"
    "e = t0 + 10 ^ 9 * uint stored" by (auto simp: fresh_entry_def)
  have n: "clk w \<le> n" using now_later [OF clock f(3)] now_later [OF clock f(4)] by linarith
  then have "e - n \<le> 10 ^ 9 * uint stored" using s(2,4) by simp
  then have "(e - n) div 10 ^ 9 \<le> (10 ^ 9 * uint stored) div 10 ^ 9" by (rule zdiv_mono1) simp
  then have le: "ttl \<le> uint stored" using f(6) by simp
  have ge: "0 \<le> ttl" using f(5,6) by (simp add: pos_imp_zdiv_nonneg_iff)
  have "ttl < 2 ^ 32" using le uint_lt2p [of stored] by simp
  then have "uint (word_of_int ttl :: 32 word) = ttl" using ge by (simp add: unsigned_of_int take_bit_int_eq_self)
  moreover have m: "m = map_records (rr_set_Ttl (word_of_int ttl)) m0" using f(7) aged_uniform [OF s(3)] by simp
  ultimately have "\<forall>r \<in> set (msg_records m). uint (rr_Ttl r) = ttl" by simp
  with f(1,5,6) x n le ge s(3) m show ?thesis by (intro exI conjI) simp_all
qed

section \<open>A concrete environment\<close>

text \<open>
  A cache that keeps everything, a clock that only the transports move, and the bits of an OPT
  record as they are specified: the version in bits 16 to 23 of the lifetime, the flag DO in bit 15.
\<close>

definition ref_lru :: "('k, 'v, 'k \<rightharpoonup> 'v \<times> int option) lru" where
  "ref_lru =
     \<lparr>lru_Get = (\<lambda>now k s. (case s k of Some (v, x) \<Rightarrow> (case x of None \<Rightarrow> Some v
        | Some e \<Rightarrow> if now \<le> e then Some v else None) | None \<Rightarrow> None, s)),
      lru_GetWithLifetime = (\<lambda>now k s. (case s k of Some (v, x) \<Rightarrow> (case x of None \<Rightarrow> Some (v, 0)
        | Some e \<Rightarrow> if now \<le> e then Some (v, e) else None) | None \<Rightarrow> None, s)),
      lru_Add = (\<lambda>now k v s. s(k \<mapsto> (v, None))),
      lru_AddWithLifetime = (\<lambda>now k v l s. s(k \<mapsto> (v, Some (now + l)))),
      lru_Remove = (\<lambda>k s. s(k := None)),
      lru_Purge = (\<lambda>s. Map.empty)\<rparr>"

type_synonym 'w over_env = "(dns_Question \<rightharpoonup> dns_msg \<times> int option, transportCacheKey \<rightharpoonup> dns_msg \<times> int option, 'w) dns_env"

definition over_env :: "('w \<Rightarrow> int) \<Rightarrow> (dns_msg \<Rightarrow> go_error + dns_msg) \<Rightarrow> 'w over_env" where
  "over_env clk answer =
     \<lparr>de_lru = ref_lru, de_lruT = ref_lru, de_New = (\<lambda>_. Map.empty), de_NewT = (\<lambda>_. Map.empty),
      de_Now = (\<lambda>w. (clk w, w)), de_Exchange = (\<lambda>t ctx m w. (map_sum id Some (answer m), w)),
      de_LoadRDRC = (\<lambda>_ _ _ w. (Ok False, w)), de_SaveRDRCAsync = (\<lambda>_ _ _ w. w),
      de_exchange4_first = (\<lambda>_. True), de_group_errors = (\<lambda>a b. if a = None then b else a),
      md_IsFqdn = (\<lambda>s. s \<noteq> [] \<and> last s = CHR ''.''), md_Fqdn = (\<lambda>s. s @ ''.''),
      md_IsEdns0 = (\<lambda>m. find is_OPT (rev (msg_Extra m))),
      md_Version = (\<lambda>r. ucast (drop_bit 16 (rr_Ttl r))), md_UDPSize = (\<lambda>r. h_Class (rr_Hdr r)),
      md_Do = (\<lambda>r. bit (rr_Ttl r) 15),
      md_SetEdns0 = (\<lambda>size d m. m\<lparr>msg_Extra := msg_Extra m @
        [\<lparr>rr_Hdr = \<lparr>h_Name = ''.'', h_Rrtype = TypeOPT, h_Class = size, h_Ttl = (if d then 32768 else 0)\<rparr>, rr_Data = RD_OPT []\<rparr>]\<rparr>),
      M_AddrFromIP = (\<lambda>ip. Addr4 (word_of_nat (be_value ip))), M_ParseAddr = (\<lambda>_. AddrNone), de_MapAddr = map,
      de_FilterRR = filter, de_FilterSVCB = filter\<rparr>"

definition ref_dns_env :: "(dns_msg \<Rightarrow> go_error + dns_msg) \<Rightarrow> int over_env" where
  "ref_dns_env = over_env (\<lambda>w. w)"

lemma ref_lru_sound: "lru_sound ref_lru (\<lambda>s. s)"
  by (auto simp: lru_sound_def ref_lru_def map_le_def split: option.splits if_splits)

lemma ref_lru_keeps: "lru_keeps ref_lru (\<lambda>s. s)"
  by (auto simp: lru_keeps_def ref_lru_def)

lemma over_env_ok: "dns_env_ok (over_env clk answer) (\<lambda>s. s) (\<lambda>s. s) clk"
proof -
  have "\<exists>r. is_OPT r \<and> md_SetEdns0 (over_env clk answer) size d m = m\<lparr>msg_Extra := msg_Extra m @ [r]\<rparr>" for size d m
    by (rule exI [of _ "\<lparr>rr_Hdr = \<lparr>h_Name = ''.'', h_Rrtype = TypeOPT, h_Class = size, h_Ttl = (if d then 32768 else 0)\<rparr>,
        rr_Data = RD_OPT []\<rparr>"]) (simp add: over_env_def is_OPT_def)
  then have "edns_ok (over_env clk answer)" by (simp add: edns_ok_def over_env_def)
  then show ?thesis by (simp add: dns_env_ok_def ref_lru_sound clock_ok_def) (simp add: over_env_def ref_lru_sound)
qed

lemmas ref_dns_env_ok = over_env_ok [of "\<lambda>w. w", folded ref_dns_env_def]

definition ref_client_options :: "int ClientOptions" where
  "ref_client_options = \<lparr>clo_Timeout = 0, clo_DisableCache = False, clo_DisableExpire = False, clo_IndependentCache = False,
     clo_CacheCapacity = 0, clo_ClientSubnet = (AddrNone, 0), clo_RDRC = None\<rparr>"

definition ref_question :: dns_Question where
  "ref_question = \<lparr>q_Name = ''a.'', q_Qtype = TypeA, q_Qclass = ClassINET\<rparr>"

definition ref_transport :: obj where
  "ref_transport = \<lparr>obj_id = 1, obj_type = ''udp'', obj_tag = ''dns'', obj_deps = [], is_lifecycle = True, has_prestart = False,
     has_start = False, has_poststart = False, is_closer = True, obj_call = (\<lambda>_ _. None)\<rparr>"

definition ref_ctx :: dns_ctx where
  "ref_ctx = \<lparr>cx_Metadata = None, cx_TransportTag = None\<rparr>"

definition ref_answer :: "32 word \<Rightarrow> RR list \<Rightarrow> dns_msg \<Rightarrow> go_error + dns_msg" where
  "ref_answer ttl extra m = Inr ((FixedResponse (msg_Id m) ref_question [Addr4 1] ttl)\<lparr>msg_Extra := extra\<rparr>)"

definition ref_query :: "16 word \<Rightarrow> RR list \<Rightarrow> dns_msg" where
  "ref_query ident extra = (lookup_message ref_question)\<lparr>msg_Id := ident, msg_Extra := extra\<rparr>"

definition ref_opt :: "32 word \<Rightarrow> RR" where
  "ref_opt ttl = \<lparr>rr_Hdr = \<lparr>h_Name = ''.'', h_Rrtype = TypeOPT, h_Class = 1232, h_Ttl = ttl\<rparr>, rr_Data = RD_OPT []\<rparr>"

lemma ref_env_answers: "env_answers (ref_dns_env answer)"
proof -
  have "map_sum id Some x \<noteq> Inr None" for x :: "go_error + dns_msg" by (cases x) auto
  then show ?thesis by (auto simp: env_answers_def ref_dns_env_def over_env_def)
qed


text \<open>The client after one query over the reference environment, and what it answers ten seconds later.\<close>

definition ref_after :: "32 word \<Rightarrow> RR list \<Rightarrow> bool list \<times> (dns_Question \<rightharpoonup> dns_msg \<times> int option, transportCacheKey \<rightharpoonup> dns_msg \<times> int option, int) Client \<times> int" where
  "ref_after ttl extra = client_run (ref_dns_env (ref_answer ttl extra))
     [OpExchange ref_ctx ref_transport (ref_query 7 extra) DNSQueryOptions_zero None]
     (NewClient (ref_dns_env (ref_answer ttl extra)) ref_client_options) (- 10 * 10 ^ 9)"

definition ref_second :: "32 word \<Rightarrow> RR list \<Rightarrow> (dns_msg \<times> int) option res" where
  "ref_second ttl extra = fst (loadResponse (ref_dns_env (ref_answer ttl extra)) ref_question ref_transport (fst (snd (ref_after ttl extra))) 0)"

text \<open>
  The lifetime of an OPT record holds flags, and the client treats it as a lifetime.  When the
  response to a query with an OPT record has a lifetime of a day, the record is taken for one of
  version 1 and replaced by a fresh one with lifetime 0, which the cache then ages: ten seconds
  later it is \<open>2\<^sup>3\<^sup>2 - 10\<close>.  With two days the flag DO is set by the same confusion, the
  difference is computed from it, and the answer is given a lifetime of more than three days.
\<close>

definition ttls :: "(dns_msg \<times> int) option res \<Rightarrow> 32 word list \<times> 32 word list" where
  "ttls r = (case r of Ok (Some (m, _)) \<Rightarrow> (map rr_Ttl (msg_Answer m), map rr_Ttl (msg_Extra m)) | _ \<Rightarrow> ([], []))"

lemma cached_OPT_wraps:
  "ttls (ref_second 86400 [ref_opt 0]) = ([86390], [- 10])"
  "ttls (ref_second 172800 [ref_opt 0]) = ([312822], [172790])"
  by code_simp+

theorem cached_ttl_remaining_witness:
  "\<exists>m. ref_second 300 [] = Ok (Some (m, 290)) \<and> (\<forall>r \<in> set (msg_records m). uint (rr_Ttl r) = 290)"
proof -
  let ?env = "ref_dns_env (ref_answer 300 [])"
  let ?run = "ref_after 300 []"
  let ?m = "FixedResponse 7 ref_question [Addr4 1] 290"
  let ?load = "loadResponse ?env ref_question ref_transport (fst (snd ?run)) 0"
  have second: "ref_second 300 [] = Ok (Some (?m, 290))" and "cl_disableExpire (fst (snd ?run)) = False"
    and "snd (snd ?run) \<le> 0" by code_simp+
  moreover have "client_run ?env [OpExchange ref_ctx ref_transport (ref_query 7 []) DNSQueryOptions_zero None]
      (NewClient ?env ref_client_options) (- 10 * 10 ^ 9) = (fst ?run, fst (snd ?run), snd (snd ?run))"
    by (simp add: ref_after_def)
  moreover have "?load = (Ok (Some (?m, 290)), fst (snd ?load), snd (snd ?load))"
    using second by (simp add: ref_second_def prod_eq_iff)
  moreover have "\<forall>r \<in> set (msg_Extra ?m). \<not> is_OPT r" by (simp add: FixedResponse_def fixed_header_def dns_msg_zero_def)
  ultimately show ?thesis using cached_ttl_remaining [OF ref_dns_env_ok, of
      "[OpExchange ref_ctx ref_transport (ref_query 7 []) DNSQueryOptions_zero None]" "ref_answer 300 []" ref_client_options "- 10 * 10 ^ 9"
      "fst ?run" "fst (snd ?run)" "snd (snd ?run)" 0 ref_question ref_transport ?m 290] by (fastforce simp: checks_in_time_def)
qed

section \<open>A second query\<close>

lemma lru_add_get:
  "lru_keeps L V \<Longrightarrow> n1 \<le> n0 + l \<Longrightarrow> fst (lru_GetWithLifetime L n1 k (lru_AddWithLifetime L n0 k v l s)) = Some (v, n0 + l)"
  by (simp add: lru_keeps_def)

text \<open>Storing and loading again, while the entry has not expired.\<close>

lemma store_load:
  assumes keeps: "lru_keeps (de_lru env) V" "lru_keeps (de_lruT env) VT"
    and s: "storeCache env t q m ttl c w = (Ok (), c1, w1)" and "ttl \<noteq> 0" and "\<not> cl_disableExpire c"
    and now: "de_Now env w = (n0, w1)" "de_Now env v = (n1, v1)" "de_Now env v1 = (n2, v2)"
    and le: "n1 \<le> n0 + 10 ^ 9 * uint ttl" "n2 \<le> n0 + 10 ^ 9 * uint ttl"
  shows "\<exists>c2. loadResponse env q t c1 v =
    (Ok (Some (let k = (n0 + 10 ^ 9 * uint ttl - n2) div 10 ^ 9 in (aged k m, k))), c2, v2)"
proof -
  let ?e = "n0 + 10 ^ 9 * uint ttl"
  have w: "with_cache (\<lambda>s. ((), lru_AddWithLifetime (de_lru env) n0 q m (10 ^ 9 * uint ttl) s))
      (\<lambda>s. ((), lru_AddWithLifetime (de_lruT env) n0 (q, obj_tag t) m (10 ^ 9 * uint ttl) s)) c = (Ok (), c1)"
    using s assms(4,5) by (auto simp: storeCache_def now split: prod.splits)
  obtain c2 where g: "with_cache (lru_GetWithLifetime (de_lru env) n1 q) (lru_GetWithLifetime (de_lruT env) n1 (q, obj_tag t)) c1 =
      (Ok (Some (m, ?e)), c2)"
    using w
  proof (cases rule: with_cache_cases)
    case (cache s x s')
    then have "s' = lru_AddWithLifetime (de_lru env) n0 q m (10 ^ 9 * uint ttl) s" by simp
    with cache lru_add_get [OF keeps(1) le(1), of q m s] show ?thesis by (intro that) (simp add: with_cache_def case_prod_beta)
  next
    case (transport s x s')
    then have "s' = lru_AddWithLifetime (de_lruT env) n0 (q, obj_tag t) m (10 ^ 9 * uint ttl) s" by simp
    with transport lru_add_get [OF keeps(2) le(1), of "(q, obj_tag t)" m s] show ?thesis by (intro that) (simp add: with_cache_def case_prod_beta)
  qed simp
  have "\<not> cl_disableExpire c1" using with_cache_keeps(1) [OF w] assms(5) by simp
  moreover have "0 \<le> (?e - n2) div 10 ^ 9" using le(2) by (simp add: pos_imp_zdiv_nonneg_iff)
  ultimately show ?thesis using le(2) by (simp add: loadResponse_def now g Let_def max_def)
qed

text \<open>A request that may be answered from the cache of a client without a subnet of its own.\<close>

definition cacheable :: "('a, 'b, 'w) Client \<Rightarrow> dns_Question \<Rightarrow> dns_msg \<Rightarrow> DNSQueryOptions \<Rightarrow> bool" where
  "cacheable c q m opt \<longleftrightarrow> client_wf c \<and> \<not> cl_disableCache c \<and> \<not> subnet_IsValid (cl_clientSubnet c) \<and>
     msg_Question m = [q] \<and> isSimpleRequest m opt = Ok True \<and> \<not> qo_DisableCache opt \<and> \<not> strategy_rejects (qo_Strategy opt) q"

lemma isSimpleRequest_True: "isSimpleRequest m opt = Ok True \<Longrightarrow> \<not> subnet_IsValid (qo_ClientSubnet opt)"
  by (auto simp: isSimpleRequest_def split: if_splits list.splits rdata.splits)

lemma cacheable_Exchange:
  assumes "cacheable c q m opt"
  shows "client_Exchange env ctx t m opt checker c w =
    (case loadResponse env q t c w of
       (Panic p, c1, w1) \<Rightarrow> (Panic p, c1, w1) | (Err e, c1, w1) \<Rightarrow> (Err e, c1, w1)
     | (Ok (Some (response, _)), c1, w1) \<Rightarrow> (Ok (Some (response\<lparr>msg_Id := msg_Id m\<rparr>), None), c1, w1)
     | (Ok None, c1, w1) \<Rightarrow> ask_transport env ctx t q m opt checker False c1 w1)"
proof -
  have "request_message c m opt = m"
    using assms isSimpleRequest_True by (auto simp: cacheable_def request_message_def Let_def)
  with assms show ?thesis by (simp add: client_Exchange_def cacheable_def try_cache_def Let_def)
qed

lemma cacheable_config: "same_config c c' \<Longrightarrow> cacheable c q m opt \<Longrightarrow> cacheable c' q m opt"
  by (simp add: cacheable_def same_config_def)

text \<open>
  C12: What a transport answered is answered from the cache until its lifetime is over: when a query
  that may be cached was sent to the transport and the response has a lifetime, then any later
  query for the same question over the same transport that comes before the entry expires gets
  the same response, aged, under its own id, whatever its checker says, and in the world nothing
  but the clock is asked.
\<close>

theorem second_query_cached:
  assumes keeps: "lru_keeps (de_lru env) V" "lru_keeps (de_lruT env) VT"
    and first: "cacheable c q m opt" "\<not> cl_disableExpire c"
      "loadResponse env q t c w = (Ok None, c0, w0)" "cx_TransportTag ctx \<noteq> Some (obj_tag t)"
      "de_Exchange env t (ctx\<lparr>cx_TransportTag := Some (obj_tag t)\<rparr>) m w0 = (Inr (Some response), w1)"
      "msg_Rcode response = RcodeSuccess \<or> msg_Rcode response = RcodeNameError"
      "response_ttl opt (filter_hints env opt q response) = ttl" "ttl \<noteq> 0" "de_Now env w1 = (n0, w2)"
    and second: "cacheable c q m' opt'" "de_Now env v = (n1, v1)" "de_Now env v1 = (n2, v2)"
      "n1 \<le> n0 + 10 ^ 9 * uint ttl" "n2 \<le> n0 + 10 ^ 9 * uint ttl"
  shows "\<exists>final c1 c2. client_Exchange env ctx t m opt None c w = (Ok (Some final, None), c1, w2) \<and>
    client_Exchange env ctx' t m' opt' checker c1 v =
      (Ok (Some ((aged ((n0 + 10 ^ 9 * uint ttl - n2) div 10 ^ 9) final)\<lparr>msg_Id := msg_Id m'\<rparr>), None), c2, v2)"
proof -
  let ?final = "answer_request env m (map_records (rr_set_Ttl ttl) (filter_hints env opt q response))"
  have c0: "same_config c c0" using first(3) by (rule loadResponse_config)
  then have wf0: "client_wf c0" "\<not> cl_disableCache c0" "\<not> cl_disableExpire c0"
    using first(1,2) by (auto simp: same_config_def cacheable_def)
  obtain u c1 w2' where st: "storeCache env t q ?final ttl c0 w1 = (u, c1, w2')" by (metis prod_cases3)
  then have w2': "w2' = w2" using first(8,9) by (auto simp: storeCache_def split: prod.splits if_splits)
  have u: "u = Ok ()" using storeCache_Ok [OF wf0(1,2) st] .
  have 1: "client_Exchange env ctx t m opt None c w = (Ok (Some ?final, None), c1, w2)"
    using first(3-8) st u w2'
    by (auto simp: cacheable_Exchange [OF first(1)] ask_transport_def check_rdrc_def finish_exchange_def exchange_rejected_def Let_def)
  have "cacheable c1 q m' opt'"
    using second(1) c0 storeCache_config [OF st] by (blast intro: cacheable_config same_config_trans)
  from cacheable_Exchange [OF this, of env ctx' t checker v]
    store_load [OF keeps st [unfolded u w2'] first(8) wf0(3) first(9) second(2-5)]
  obtain c2 where "client_Exchange env ctx' t m' opt' checker c1 v =
      (Ok (Some ((aged ((n0 + 10 ^ 9 * uint ttl - n2) div 10 ^ 9) ?final)\<lparr>msg_Id := msg_Id m'\<rparr>), None), c2, v2)"
    by (auto simp: Let_def)
  with 1 show ?thesis by blast
qed

theorem second_query_cached_witness:
  "\<exists>final c1 c2. client_Exchange (ref_dns_env (ref_answer 300 [])) ref_ctx ref_transport (ref_query 7 []) DNSQueryOptions_zero None
      (NewClient (ref_dns_env (ref_answer 300 [])) ref_client_options) 0 = (Ok (Some final, None), c1, 0) \<and>
    client_Exchange (ref_dns_env (ref_answer 300 [])) ref_ctx ref_transport (ref_query 8 []) DNSQueryOptions_zero (Some (\<lambda>_ w. (False, w)))
      c1 (10 * 10 ^ 9) = (Ok (Some ((aged 290 final)\<lparr>msg_Id := 8\<rparr>), None), c2, 10 * 10 ^ 9)"
proof -
  let ?env = "ref_dns_env (ref_answer 300 [])"
  let ?c = "NewClient ?env ref_client_options"
  let ?r = "(FixedResponse 7 ref_question [Addr4 1] 300)\<lparr>msg_Extra := []\<rparr>"
  have keeps: "lru_keeps (de_lru ?env) (\<lambda>s. s)" "lru_keeps (de_lruT ?env) (\<lambda>s. s)"
    by (simp_all add: ref_dns_env_def over_env_def ref_lru_keeps)
  have c: "cacheable ?c ref_question (ref_query i []) DNSQueryOptions_zero" for i
    by (simp add: cacheable_def NewClient_wf) (simp add: NewClient_def ref_client_options_def subnet_IsValid_def addr_IsValid_def
        ref_query_def lookup_message_def dns_msg_zero_def isSimpleRequest_def DNSQueryOptions_zero_def strategy_rejects_def
        strategies Let_def)
  have load: "loadResponse ?env ref_question ref_transport ?c 0 = (Ok None, ?c, 0)"
    by (simp add: loadResponse_def with_cache_def NewClient_def ref_client_options_def over_env_def ref_dns_env_def ref_lru_def Let_def)
  have ttl: "response_ttl DNSQueryOptions_zero (filter_hints ?env DNSQueryOptions_zero ref_question ?r) = 300" by code_simp
  have ex: "de_Exchange ?env ref_transport (ref_ctx\<lparr>cx_TransportTag := Some (obj_tag ref_transport)\<rparr>) (ref_query 7 []) 0 = (Inr (Some ?r), 0)"
    by (simp add: ref_dns_env_def over_env_def ref_answer_def ref_query_def)
  have now: "de_Now ?env n = (n, n)" for n by (simp add: ref_dns_env_def over_env_def)
  have plain: "\<not> cl_disableExpire ?c" "cx_TransportTag ref_ctx \<noteq> Some (obj_tag ref_transport)" "msg_Rcode ?r = RcodeSuccess \<or> msg_Rcode ?r = RcodeNameError"
    by (simp_all add: NewClient_def ref_client_options_def ref_ctx_def FixedResponse_def fixed_header_def Let_def)
  have "msg_Id (ref_query 8 []) = 8" by (simp add: ref_query_def)
  then show ?thesis
    using second_query_cached [OF keeps c [of 7] plain(1) load plain(2) ex plain(3) ttl _ now c [of 8] now now, of "10 * 10 ^ 9"
        ref_ctx "Some (\<lambda>_ w. (False, w))"] by simp
qed

section \<open>Rejected responses\<close>

text \<open>
  A world with the cache file of \<open>Cache_File\<close>: the store of rejected responses is the file, with
  the time at which it is read, and reading the clock leaves the file alone.
\<close>

definition stores_rejections :: "('a, 'b, 'd CacheFile \<times> 'v) dns_env \<Rightarrow> 'd bolt \<Rightarrow> bool" where
  "stores_rejections env B \<longleftrightarrow>
     (\<forall>tn qn ty cf v. \<exists>now v'. de_LoadRDRC env tn qn ty (cf, v) =
        (fst (LoadRDRC B now tn qn ty cf), (snd (LoadRDRC B now tn qn ty cf), v'))) \<and>
     (\<forall>tn qn ty cf v. de_SaveRDRCAsync env tn qn ty (cf, v) = (SaveRDRCAsync tn qn ty cf, v)) \<and>
     (\<forall>cf v. \<exists>n v'. de_Now env (cf, v) = (n, (cf, v')))"

lemma loadResponse_world:
  assumes "\<forall>cf v. \<exists>n v'. de_Now env (cf, v) = (n, (cf, v'))" and "loadResponse env q t c (cf, v) = (r, c', w')"
  shows "\<exists>v'. w' = (cf, v')"
proof -
  from assms(1) obtain n1 v1 n2 v2 where "de_Now env (cf, v) = (n1, (cf, v1))" and "de_Now env (cf, v1) = (n2, (cf, v2))" by metis
  with assms(2) show ?thesis
    by (auto simp: loadResponse_def Let_def split: prod.splits if_splits res.splits option.splits)
qed

lemma LoadRDRC_after_save: "LoadRDRC B now tn qn ty (SaveRDRCAsync tn qn ty cf) = (Ok True, SaveRDRCAsync tn qn ty cf)"
  by (simp add: LoadRDRC_def SaveRDRCAsync_def)

text \<open>
  A rejected response is remembered: when the response to a query that may be cached fails the
  check of the addresses, \<open>Exchange\<close> returns it with \<open>ErrResponseRejected\<close>, puts nothing into the
  cache, and the cache file keeps the rejection; the next query for the same question over the
  same transport with any check returns \<open>ErrResponseRejectedCached\<close> and does not ask the
  transport, whatever the transport would answer now.
\<close>

theorem rejected_remembered:
  assumes store: "stores_rejections env B" and first: "cacheable c q m opt" "cl_rdrc c"
      "loadResponse env q t c w = (Ok None, c0, w0)" "cx_TransportTag ctx \<noteq> Some (obj_tag t)"
      "de_LoadRDRC env (obj_tag t) (q_Name q) (q_Qtype q) w0 = (Ok False, w1)"
      "de_Exchange env t (ctx\<lparr>cx_TransportTag := Some (obj_tag t)\<rparr>) m w1 = (Inr (Some response), (cf0, v0))"
      "msg_Rcode response = RcodeSuccess \<or> msg_Rcode response = RcodeNameError"
      "exchange_rejected env (Some chk) response (cf0, v0) = (True, (cf, v))"
    and second: "cacheable c q m' opt'" "cx_TransportTag ctx' \<noteq> Some (obj_tag t)"
      "loadResponse env q t c0 (SaveRDRCAsync (obj_tag t) (q_Name q) (q_Qtype q) cf, v) = (Ok None, c1, w2)"
  shows "client_Exchange env ctx t m opt (Some chk) c w =
      (Ok (Some response, Some ErrResponseRejected), c0, (SaveRDRCAsync (obj_tag t) (q_Name q) (q_Qtype q) cf, v)) \<and>
    (\<exists>v'. client_Exchange env ctx' t m' opt' (Some chk') c0 (SaveRDRCAsync (obj_tag t) (q_Name q) (q_Qtype q) cf, v) =
      (Ok (None, Some ErrResponseRejectedCached), c1, (SaveRDRCAsync (obj_tag t) (q_Name q) (q_Qtype q) cf, v')))"
proof
  let ?cf = "SaveRDRCAsync (obj_tag t) (q_Name q) (q_Qtype q) cf"
  have save: "de_SaveRDRCAsync env tn qn ty (cf, v) = (SaveRDRCAsync tn qn ty cf, v)" for tn qn ty cf v
    using store unfolding stores_rejections_def by blast
  have c0: "same_config c c0" and c1: "same_config c0 c1" using first(3) second(3) by (auto intro: loadResponse_config)
  show "client_Exchange env ctx t m opt (Some chk) c w = (Ok (Some response, Some ErrResponseRejected), c0, (?cf, v))"
    using first c0 by (auto simp: cacheable_Exchange [OF first(1)] ask_transport_def check_rdrc_def finish_exchange_def
        same_config_def save Let_def)
  from loadResponse_world [OF _ second(3)] store obtain v2 where w2: "w2 = (?cf, v2)" unfolding stores_rejections_def by blast
  obtain now v' where "de_LoadRDRC env (obj_tag t) (q_Name q) (q_Qtype q) (?cf, v2) =
      (fst (LoadRDRC B now (obj_tag t) (q_Name q) (q_Qtype q) ?cf), (snd (LoadRDRC B now (obj_tag t) (q_Name q) (q_Qtype q) ?cf), v'))"
    using store unfolding stores_rejections_def by blast
  then have load: "de_LoadRDRC env (obj_tag t) (q_Name q) (q_Qtype q) (?cf, v2) = (Ok True, (?cf, v'))"
    by (simp add: LoadRDRC_after_save)
  have "cl_rdrc c1" using first(2) c0 c1 by (simp add: same_config_def)
  then show "\<exists>v'. client_Exchange env ctx' t m' opt' (Some chk') c0 (?cf, v) = (Ok (None, Some ErrResponseRejectedCached), c1, (?cf, v'))"
    using second(2,3) load by (auto simp: cacheable_Exchange [OF cacheable_config [OF c0 second(1)]] ask_transport_def check_rdrc_def w2)
qed

definition file_dns_env :: "(dns_msg \<Rightarrow> go_error + dns_msg) \<Rightarrow> (btree CacheFile \<times> int) over_env" where
  "file_dns_env answer = (over_env snd answer)
     \<lparr>de_LoadRDRC := (\<lambda>tn qn ty (cf, v). (fst (LoadRDRC bolt_tree v tn qn ty cf), (snd (LoadRDRC bolt_tree v tn qn ty cf), v))),
      de_SaveRDRCAsync := (\<lambda>tn qn ty (cf, v). (SaveRDRCAsync tn qn ty cf, v))\<rparr>"

definition file_client :: "(dns_Question \<rightharpoonup> dns_msg \<times> int option, transportCacheKey \<rightharpoonup> dns_msg \<times> int option, btree CacheFile \<times> int) Client" where
  "file_client = \<lparr>cl_timeout = DNSTimeout, cl_disableCache = False, cl_disableExpire = False, cl_independentCache = False,
     cl_clientSubnet = (AddrNone, 0), cl_rdrc = True, cl_initRDRCFunc = None, cl_cache = Some Map.empty, cl_transportCache = None\<rparr>"

theorem rejected_remembered_witness:
  "\<exists>v'. client_Exchange (file_dns_env (ref_answer 300 [])) ref_ctx ref_transport (ref_query 8 []) DNSQueryOptions_zero (Some (\<lambda>_ w. (True, w)))
     file_client (SaveRDRCAsync ''dns'' ''a.'' TypeA demo_cache, 0) =
   (Ok (None, Some ErrResponseRejectedCached), file_client, (SaveRDRCAsync ''dns'' ''a.'' TypeA demo_cache, v'))"
proof -
  let ?env = "file_dns_env (ref_answer 300 [])"
  let ?r = "(FixedResponse 7 ref_question [Addr4 1] 300)\<lparr>msg_Extra := []\<rparr>"
  have store: "stores_rejections ?env bolt_tree" by (auto simp: stores_rejections_def file_dns_env_def over_env_def Let_def)
  have c: "cacheable file_client ref_question (ref_query i []) DNSQueryOptions_zero" for i
    by (simp add: cacheable_def file_client_def client_wf_def subnet_IsValid_def addr_IsValid_def ref_query_def lookup_message_def
        dns_msg_zero_def isSimpleRequest_def DNSQueryOptions_zero_def strategy_rejects_def strategies)
  have load: "loadResponse ?env ref_question ref_transport file_client (cf, 0) = (Ok None, file_client, (cf, 0))" for cf
    by (simp add: loadResponse_def with_cache_def file_client_def file_dns_env_def over_env_def ref_dns_env_def ref_lru_def Let_def)
  have tag: "obj_tag ref_transport = ''dns''" "q_Name ref_question = ''a.''" "q_Qtype ref_question = TypeA"
    "cx_TransportTag ref_ctx \<noteq> Some ''dns''" "cl_rdrc file_client"
    by (simp_all add: ref_transport_def ref_question_def ref_ctx_def file_client_def)
  have "\<not> cf_saveRDRC demo_cache (''dns'', ''a.'', TypeA)" by (simp add: demo_cache_def)
  moreover have "bucket_get bolt_tree (cf_DB demo_cache) (rdrc_bucket bolt_tree demo_cache (cf_DB demo_cache) ''dns'')
      (rdrc_key ''a.'' TypeA) = None" by code_simp
  ultimately have "LoadRDRC bolt_tree 0 ''dns'' ''a.'' TypeA demo_cache = (Ok False, demo_cache)" by (simp add: LoadRDRC_def)
  then have rdrc: "de_LoadRDRC ?env ''dns'' ''a.'' TypeA (demo_cache, 0) = (Ok False, (demo_cache, 0))"
    by (simp add: file_dns_env_def over_env_def Let_def)
  have ex: "de_Exchange ?env ref_transport ctx (ref_query 7 []) w = (Inr (Some ?r), w)" for ctx w
    by (simp add: file_dns_env_def over_env_def ref_answer_def ref_query_def Let_def)
  have rej: "exchange_rejected ?env (Some (\<lambda>_ w. (False, w))) ?r w = (True, w)" "msg_Rcode ?r = RcodeSuccess \<or> msg_Rcode ?r = RcodeNameError"
    for w by (simp_all add: exchange_rejected_def FixedResponse_def fixed_header_def)
  show ?thesis
    using rejected_remembered [OF store c [of 7] tag(5) load _ _ ex rej(2,1) c [of 8], where ctx = ref_ctx and ctx' = ref_ctx
        and chk' = "\<lambda>_ w. (True, w)" and cf = demo_cache and v = 0] tag rdrc load by simp
qed

section \<open>The subnet of the client\<close>

lemma SetClientSubnet_not_simple: "isSimpleRequest (SetClientSubnet m p) opt \<noteq> Ok True"
proof
  assume "isSimpleRequest (SetClientSubnet m p) opt = Ok True"
  then have "msg_Extra (SetClientSubnet m p) = [] \<or> (\<exists>r. msg_Extra (SetClientSubnet m p) = [r] \<and> rr_Data r = RD_OPT [])"
    by (auto simp: isSimpleRequest_def split: if_splits list.splits rdata.splits)
  with SetClientSubnet_sets [of m p] show False by (auto simp: has_subnet_def)
qed

lemma finish_exchange_uncached: "finish_exchange env t q m opt chk True r c w = (x, c', w') \<Longrightarrow> c' = c"
  by (auto simp: finish_exchange_def Let_def split: prod.splits bool.splits)

lemma ask_transport_uncached: "ask_transport env ctx t q m opt chk True c w = (x, c', w') \<Longrightarrow> c' = c"
  by (auto simp: ask_transport_def check_rdrc_def split: if_splits prod.splits sum.splits option.splits dest: finish_exchange_uncached)

text \<open>A client that has a subnet of its own never uses its cache: each of its queries is sent with an option.\<close>

lemma client_subnet_never_caches:
  assumes "subnet_IsValid (cl_clientSubnet c)" and "client_Exchange env ctx t m opt chk c w = (r, c', w')"
  shows "c' = c"
proof (cases "msg_Question m")
  case (Cons q qs)
  have "isSimpleRequest (request_message c m opt) opt \<noteq> Ok True"
    using assms(1) SetClientSubnet_not_simple by (simp add: request_message_def Let_def)
  then show ?thesis using assms(2) Cons
    by (auto simp: client_Exchange_def try_cache_def Let_def split: if_splits res.splits dest: ask_transport_uncached)
qed (use assms(2) in \<open>simp add: client_Exchange_def\<close>)

end
