(* ===== verification/Rule_Start.thy ===== *)
theory Rule_Start
  imports Rule_Build
begin

text \<open>
  The start of rules (\<open>core/route/rule/rule_abstract.go\<close>), as the router and the DNS router call it, and the references to
  rule sets that it takes.
\<close>

section \<open>Starting rules\<close>

text \<open>
  \<open>Start\<close> of a rule starts its items; an item is in several lists of the rule, which share it.  The
  names are those of the rule sets a reference is taken of.  After an error the box is closed and
  the rule is not used any more.
\<close>

fun item_Start :: "(string \<rightharpoonup> rule_set) \<Rightarrow> rule_item \<Rightarrow> (rule_item \<times> string list) res" where
  "item_Start router (IRuleSet r) =
     (case RuleSetItem_Start router r of
        (r', refs, None) \<Rightarrow> Ok (IRuleSet r', refs)
      | (_, _, Some e) \<Rightarrow> Err e)"
| "item_Start router (IClashMode r) = Ok (IClashMode (ClashModeItem_Start r), [])"
| "item_Start router i = Ok (i, [])"

fun start_items :: "(string \<rightharpoonup> rule_set) \<Rightarrow> rule_item list \<Rightarrow> (rule_item list \<times> string list) res" where
  "start_items router [] = Ok ([], [])"
| "start_items router (i # is) =
     bindR (item_Start router i) (\<lambda>(i', refs). bindR (start_items router is) (\<lambda>(is', refs'). Ok (i' # is', refs @ refs')))"

definition started_item :: "(string \<rightharpoonup> rule_set) \<Rightarrow> rule_item \<Rightarrow> rule_item" where
  "started_item router i = (case item_Start router i of Ok (i', _) \<Rightarrow> i' | _ \<Rightarrow> i)"

definition abstractDefaultRule_Start ::
    "(string \<rightharpoonup> rule_set) \<Rightarrow> 'act abstractDefaultRule \<Rightarrow> ('act abstractDefaultRule \<times> string list) res" where
  "abstractDefaultRule_Start router r =
     bindR (start_items router (allItems r)) (\<lambda>(all', refs).
       let st = map (started_item router) in
       Ok (r\<lparr>items := st (items r), sourceAddressItems := st (sourceAddressItems r), sourcePortItems := st (sourcePortItems r),
             destinationAddressItems := st (destinationAddressItems r), destinationIPCIDRItems := st (destinationIPCIDRItems r),
             destinationPortItems := st (destinationPortItems r), allItems := all'\<rparr>, refs))"

fun rule_Start :: "(string \<rightharpoonup> rule_set) \<Rightarrow> 'act rule \<Rightarrow> ('act rule \<times> string list) res"
and rules_Start :: "(string \<rightharpoonup> rule_set) \<Rightarrow> 'act rule list \<Rightarrow> ('act rule list \<times> string list) res" where
  "rule_Start router (DefaultRule r) =
     bindR (abstractDefaultRule_Start router r) (\<lambda>(r', refs). Ok (DefaultRule r', refs))"
| "rule_Start router (LogicalRule rs md neg act) =
     bindR (rules_Start router rs) (\<lambda>(rs', refs). Ok (LogicalRule rs' md neg act, refs))"
| "rules_Start router [] = Ok ([], [])"
| "rules_Start router (r # rs) =
     bindR (rule_Start router r) (\<lambda>(r', refs). bindR (rules_Start router rs) (\<lambda>(rs', refs'). Ok (r' # rs', refs @ refs')))"

section \<open>References\<close>

fun item_tags :: "rule_item \<Rightarrow> string list" where
  "item_tags (IRuleSet r) = tagList r"
| "item_tags _ = []"

fun rule_tags :: "'act rule \<Rightarrow> string list" where
  "rule_tags (DefaultRule r) = concat (map item_tags (allItems r))"
| "rule_tags (LogicalRule rs md neg a) = concat (map rule_tags rs)"

lemma start_sets_refs: "start_sets lookup ts sets refs = (sets', refs', None) \<Longrightarrow> refs' = refs @ ts"
  by (induction lookup ts sets refs rule: start_sets.induct) (auto split: option.splits)

lemma item_Start_refs: "item_Start lookup i = Ok (i', refs) \<Longrightarrow> refs = item_tags i"
  by (cases i) (auto simp: RuleSetItem_Start_def split: prod.splits option.splits dest: start_sets_refs)

lemma start_items_refs: "start_items lookup js = Ok (js', refs) \<Longrightarrow> refs = concat (map item_tags js)"
  by (induction js arbitrary: js' refs) (auto simp: bindR_Ok dest: item_Start_refs)

lemma rule_Start_refs:
  fixes R :: "'act rule" and Rs :: "'act rule list"
  shows "rule_Start lookup R = Ok (R', refs) \<Longrightarrow> refs = rule_tags R"
    and "rules_Start lookup Rs = Ok (Rs', refs) \<Longrightarrow> refs = concat (map rule_tags Rs)"
proof (induction lookup R and lookup Rs arbitrary: R' refs and Rs' refs rule: rule_Start_rules_Start.induct)
  case (1 lookup r)
  then show ?case by (auto simp: bindR_Ok abstractDefaultRule_Start_def Let_def dest: start_items_refs)
next
  case (4 lookup r rs)
  then show ?case by (fastforce simp: bindR_Ok)
qed (fastforce simp: bindR_Ok)+

end
