(* ===== verification/Dns_Router.thy ===== *)
theory Dns_Router
  imports Dns_Client_Properties Route_Exec Rule_Start
begin

text \<open>
  The DNS router (\<open>core/dns/router.go\<close>): which rule and so which transport answers a query, the
  loop that goes on with the next rule when the response to a query is rejected, lookups of
  domains, and the reverse mapping from addresses to domains.  The client is that of
  \<open>Dns_Client\<close>, the rules, actions and the transport manager are those of the other theories.  The
  metadata of a query is a cell that the matching of rules and the check of responses write to; it
  is the second part of the world that the client works in.  Log output is left out.
\<close>

section \<open>The router\<close>

type_synonym dns_rule = "DNSRuleAction option rule"

record ('a, 'b, 'm, 'w) dns_router_env =
  dre_dns :: "('a, 'b, 'w \<times> InboundContext) dns_env"
  dre_loops :: loops
  dre_rule :: rule_env
  dre_Any :: "bool list \<Rightarrow> bool"
  dre_legacy :: "obj \<Rightarrow> (nat \<times> prefix) option"
  dre_lru :: "(addr, string, 'm) lru"
  dre_New :: 'm
  dre_Filter :: "(int \<Rightarrow> bool) \<Rightarrow> int list \<Rightarrow> int list"
  dre_Append :: "go_error option \<Rightarrow> go_error option \<Rightarrow> go_error option"
  dre_ErrDrop :: go_error
  dre_Errno :: go_error

record ('a, 'b, 'm, 'w) dns_router =
  drt_client :: "('a, 'b, 'w \<times> InboundContext) Client"
  drt_transport :: transport_manager
  drt_rules :: "dns_rule list"
  drt_defaultDomainStrategy :: nat
  drt_dnsReverseMapping :: "'m option"
  drt_platformInterface :: bool

record DNSOptions =
  dno_Strategy :: nat
  dno_DisableCache :: bool
  dno_DisableExpire :: bool
  dno_IndependentCache :: bool
  dno_CacheCapacity :: "32 word"
  dno_ClientSubnet :: prefix
  dno_ReverseMapping :: bool

text \<open>
  \<open>storeRDRC\<close> tells, when the client starts, whether there is a cache file that stores rejected
  responses.
\<close>

definition dns_NewRouter ::
    "('a, 'b, 'm, 'w) dns_router_env \<Rightarrow> ('w \<Rightarrow> bool) \<Rightarrow> transport_manager \<Rightarrow> DNSOptions \<Rightarrow> ('a, 'b, 'm, 'w) dns_router" where
  "dns_NewRouter env storeRDRC tm opt =
     \<lparr>drt_client = NewClient (dre_dns env)
        \<lparr>clo_Timeout = 0, clo_DisableCache = dno_DisableCache opt, clo_DisableExpire = dno_DisableExpire opt,
         clo_IndependentCache = dno_IndependentCache opt, clo_CacheCapacity = dno_CacheCapacity opt,
         clo_ClientSubnet = dno_ClientSubnet opt, clo_RDRC = Some (\<lambda>w. storeRDRC (fst w))\<rparr>,
      drt_transport = tm, drt_rules = [], drt_defaultDomainStrategy = dno_Strategy opt,
      drt_dnsReverseMapping = (if dno_ReverseMapping opt then Some (dre_New env) else None),
      drt_platformInterface = False\<rparr>"

fun dns_init_rules ::
    "(DNSRuleActionOptions route_options \<Rightarrow> dns_rule res) \<Rightarrow> nat \<Rightarrow> DNSRuleActionOptions route_options list \<Rightarrow>
     dns_rule list \<Rightarrow> dns_rule list \<times> unit res" where
  "dns_init_rules new i [] rs = (rs, Ok ())"
| "dns_init_rules new i (o' # os) rs =
     (case new o' of
        Ok r \<Rightarrow> dns_init_rules new (Suc i) os (rs @ [r])
      | Err e \<Rightarrow> (rs, Err (ECause e [AStr ''parse dns rule['', AInt (int i), AStr '']'']))
      | Panic p \<Rightarrow> (rs, Panic p))"

definition dns_router_Initialize ::
    "rule_env \<Rightarrow> 'd action_env \<Rightarrow> (DNSRuleActionOptions route_options \<Rightarrow> bool) \<Rightarrow> DNSRuleActionOptions route_options list \<Rightarrow>
     ('a, 'b, 'm, 'w) dns_router \<Rightarrow> ('a, 'b, 'm, 'w) dns_router \<times> unit res" where
  "dns_router_Initialize env aenv valid opts r =
     (case dns_init_rules (NewDNSRule env aenv valid True) 0 opts (drt_rules r) of (rs, x) \<Rightarrow> (r\<lparr>drt_rules := rs\<rparr>, x))"

fun dns_start_rules ::
    "(string \<rightharpoonup> rule_set) \<Rightarrow> nat \<Rightarrow> dns_rule list \<Rightarrow> (dns_rule list \<times> string list) res" where
  "dns_start_rules sets i [] = Ok ([], [])"
| "dns_start_rules sets i (r # rs) =
     (case rule_Start sets r of
        Ok (r', refs) \<Rightarrow> bindR (dns_start_rules sets (Suc i) rs) (\<lambda>(rs', refs'). Ok (r' # rs', refs @ refs'))
      | Err e \<Rightarrow> Err (ECause e [AStr ''initialize DNS rule['', AInt (int i), AStr '']''])
      | Panic p \<Rightarrow> Panic p)"

definition dns_router_Start ::
    "(string \<rightharpoonup> rule_set) \<Rightarrow> StartStage \<Rightarrow> ('a, 'b, 'm, 'w) dns_router \<Rightarrow> 'w \<times> InboundContext \<Rightarrow>
     (('a, 'b, 'm, 'w) dns_router \<times> string list) res" where
  "dns_router_Start sets st r w =
     (if st = StartStateStart then
        bindR (dns_start_rules sets 0 (drt_rules r)) (\<lambda>(rs, refs).
          Ok (r\<lparr>drt_client := client_Start (drt_client r) w, drt_rules := rs\<rparr>, refs))
      else Ok (r, []))"

text \<open>No rule item has a \<open>Close\<close> method, so closing a rule gives no error; \<open>E.Append\<close> is foreign code.\<close>

fun dns_close_rules :: "('a, 'b, 'm, 'w) dns_router_env \<Rightarrow> dns_rule list \<Rightarrow> go_error option \<Rightarrow> go_error option" where
  "dns_close_rules env [] err = err"
| "dns_close_rules env (r # rs) err = dns_close_rules env rs (dre_Append env err None)"

definition dns_router_Close :: "('a, 'b, 'm, 'w) dns_router_env \<Rightarrow> ('a, 'b, 'm, 'w) dns_router \<Rightarrow> go_error option" where
  "dns_router_Close env r = dns_close_rules env (drt_rules r) None"

section \<open>Choosing a transport\<close>

definition apply_dns_options :: "RuleActionDNSRouteOptions \<Rightarrow> bool \<Rightarrow> DNSQueryOptions \<Rightarrow> DNSQueryOptions" where
  "apply_dns_options a isFakeIP opt =
     opt\<lparr>qo_Strategy := (if dr_Strategy a \<noteq> DomainStrategyAsIS then dr_Strategy a else qo_Strategy opt),
         qo_DisableCache := (isFakeIP \<or> dr_DisableCache a \<or> qo_DisableCache opt),
         qo_RewriteTTL := (case dr_RewriteTTL a of Some t \<Rightarrow> Some t | None \<Rightarrow> qo_RewriteTTL opt),
         qo_ClientSubnet := (if subnet_IsValid (dr_ClientSubnet a) then dr_ClientSubnet a else qo_ClientSubnet opt)\<rparr>"

definition apply_legacy :: "('a, 'b, 'm, 'w) dns_router_env \<Rightarrow> obj \<Rightarrow> DNSQueryOptions \<Rightarrow> DNSQueryOptions" where
  "apply_legacy env t opt =
     (case dre_legacy env t of
        None \<Rightarrow> opt
      | Some (strategy, subnet) \<Rightarrow>
          opt\<lparr>qo_Strategy := (if qo_Strategy opt = DomainStrategyAsIS then strategy else qo_Strategy opt),
              qo_ClientSubnet := (if \<not> subnet_IsValid (qo_ClientSubnet opt) then subnet else qo_ClientSubnet opt)\<rparr>)"

definition WithAddressLimit :: "('a, 'b, 'm, 'w) dns_router_env \<Rightarrow> dns_rule \<Rightarrow> bool" where
  "WithAddressLimit env rule = DNSRule_WithAddressLimit (dre_Any env) rule"

text \<open>
  The loop of \<open>matchDNS\<close> from position \<open>i\<close>: the transport, the position of the rule, the options and
  the metadata.  A rule that does not end the search may have changed the options.
\<close>

fun match_dns_loop ::
    "('a, 'b, 'm, 'w) dns_router_env \<Rightarrow> ('a, 'b, 'm, 'w) dns_router \<Rightarrow> bool \<Rightarrow> bool \<Rightarrow> nat \<Rightarrow> dns_rule list \<Rightarrow>
     DNSQueryOptions \<Rightarrow> InboundContext \<Rightarrow> obj option \<times> nat option \<times> DNSQueryOptions \<times> InboundContext" where
  "match_dns_loop env r allowFakeIP isAddr i [] opt md = (transport_Default (drt_transport r), None, opt, md)"
| "match_dns_loop env r allowFakeIP isAddr i (rule # rs) opt md =
     (if WithAddressLimit env rule \<and> \<not> isAddr then match_dns_loop env r allowFakeIP isAddr (Suc i) rs opt md
      else
        (case DNSRule_Match (dre_loops env) (dre_rule env) rule (ResetRuleCache md) of
           (False, md') \<Rightarrow> match_dns_loop env r allowFakeIP isAddr (Suc i) rs opt md'
         | (True, md') \<Rightarrow>
             (case rule_Action rule of
                Some (RuleActionDNSRoute server a) \<Rightarrow>
                  (case transport_Transport (drt_transport r) server of
                     None \<Rightarrow> match_dns_loop env r allowFakeIP isAddr (Suc i) rs opt md'
                   | Some t \<Rightarrow>
                       let isFakeIP = obj_type t = DNSTypeFakeIP in
                       if isFakeIP \<and> \<not> allowFakeIP then match_dns_loop env r allowFakeIP isAddr (Suc i) rs opt md'
                       else (Some t, Some i, apply_legacy env t (apply_dns_options a isFakeIP opt), md'))
              | Some (RuleActionDNSRouteOptions a) \<Rightarrow>
                  match_dns_loop env r allowFakeIP isAddr (Suc i) rs (apply_dns_options a False opt) md'
              | Some (DNSRuleActionReject a) \<Rightarrow> (None, Some i, opt, md')
              | Some (RuleActionPredefined a) \<Rightarrow> (None, Some i, opt, md')
              | None \<Rightarrow> match_dns_loop env r allowFakeIP isAddr (Suc i) rs opt md')))"

definition matchDNS ::
    "('a, 'b, 'm, 'w) dns_router_env \<Rightarrow> ('a, 'b, 'm, 'w) dns_router \<Rightarrow> bool \<Rightarrow> nat \<Rightarrow> bool \<Rightarrow> DNSQueryOptions \<Rightarrow>
     InboundContext \<Rightarrow> obj option \<times> nat option \<times> DNSQueryOptions \<times> InboundContext" where
  "matchDNS env r allowFakeIP i isAddr opt md = match_dns_loop env r allowFakeIP isAddr i (drop i (drt_rules r)) opt md"

definition isAddressQuery :: "dns_msg \<Rightarrow> bool" where
  "isAddressQuery message \<longleftrightarrow>
     list_ex (\<lambda>q. q_Qtype q = TypeA \<or> q_Qtype q = TypeAAAA \<or> q_Qtype q = TypeHTTPS) (msg_Question message)"

text \<open>A rule that is found lies behind the position from which the search started.\<close>

lemma match_dns_loop_index:
  "match_dns_loop env r fk ad i rs opt md = (t, Some j, opt', md') \<Longrightarrow> i \<le> j \<and> j < i + length rs"
  by (induction env r fk ad i rs opt md rule: match_dns_loop.induct)
    (fastforce split: if_splits prod.splits bool.splits option.splits DNSRuleAction.splits simp: Let_def)+

lemma matchDNS_index:
  "matchDNS env r fk i ad opt md = (t, Some j, opt', md') \<Longrightarrow> i \<le> j \<and> j < length (drt_rules r)"
  unfolding matchDNS_def by (drule match_dns_loop_index) auto

section \<open>Exchange\<close>

definition InboundContext_zero :: InboundContext where
  "InboundContext_zero =
     \<lparr>m_Inbound = [], m_InboundType = [], m_IPVersion = 0, m_Network = [],
     m_Source = Socksaddr_zero,
     m_Destination = Socksaddr_zero,
     m_User = [], m_Outbound = [], m_Protocol = [], m_Domain = [], m_Client = [], m_SniffContext = [],
     m_SnifferNames = [], m_SniffError = None, m_InboundOptions = InboundOptions_zero, m_InboundDetour = [], m_LastInbound = [],
     m_OriginDestination = Socksaddr_zero, m_RouteOriginalDestination = Socksaddr_zero,
     m_UDPDisableDomainUnmapping = False, m_UDPConnect = False, m_UDPTimeout = 0,
     m_TLSFragment = False, m_TLSFragmentFallbackDelay = 0, m_TLSRecordFragment = False,
     m_NetworkStrategy = None, m_NetworkType = [], m_FallbackNetworkType = [], m_FallbackDelay = 0,
     m_DestinationAddresses = [], m_ProcessInfo = None, m_QueryType = 0, m_FakeIP = False,
     IPCIDRMatchSource = False, IPCIDRAcceptEmpty = False, SourceAddressMatch = False,
     SourcePortMatch = False, DestinationAddressMatch = False, DestinationPortMatch = False,
     DidMatch = False, IgnoreDestinationIPCIDRMatch = False\<rparr>"

definition ExtendContext :: "dns_ctx \<Rightarrow> InboundContext" where
  "ExtendContext ctx = (case cx_Metadata ctx of Some md \<Rightarrow> md | None \<Rightarrow> InboundContext_zero)"

definition query_metadata :: "('a, 'b, 'm, 'w) dns_router_env \<Rightarrow> dns_Question \<Rightarrow> InboundContext \<Rightarrow> InboundContext" where
  "query_metadata env q md =
     md\<lparr>m_Destination := Socksaddr_zero, m_QueryType := q_Qtype q,
        m_IPVersion := (if q_Qtype q = TypeA then 4 else if q_Qtype q = TypeAAAA then 6 else m_IPVersion md),
        m_Domain := FqdnToDomain (dre_dns env) (q_Name q)\<rparr>"

text \<open>The check of the addresses of a response: it writes them into the metadata and leaves the flags as they are.\<close>

definition responseCheck ::
    "('a, 'b, 'm, 'w) dns_router_env \<Rightarrow> dns_rule \<Rightarrow> ('w \<times> InboundContext) responseChecker" where
  "responseCheck env rule addrs w =
     (case DNSRule_MatchAddressLimit (dre_loops env) (dre_rule env) rule ((snd w)\<lparr>m_DestinationAddresses := addrs\<rparr>) of
        (ok, md') \<Rightarrow> (ok, (fst w, md')))"

definition checker_of ::
    "('a, 'b, 'm, 'w) dns_router_env \<Rightarrow> ('a, 'b, 'm, 'w) dns_router \<Rightarrow> nat option \<Rightarrow> ('w \<times> InboundContext) responseChecker option" where
  "checker_of env r ri =
     (case ri of
        Some j \<Rightarrow> if WithAddressLimit env (drt_rules r ! j) then Some (responseCheck env (drt_rules r ! j)) else None
      | None \<Rightarrow> None)"

definition with_default_strategy :: "('a, 'b, 'm, 'w) dns_router \<Rightarrow> DNSQueryOptions \<Rightarrow> DNSQueryOptions" where
  "with_default_strategy r opt =
     (if qo_Strategy opt = DomainStrategyAsIS then opt\<lparr>qo_Strategy := drt_defaultDomainStrategy r\<rparr> else opt)"

definition refused_response :: "dns_msg \<Rightarrow> dns_msg" where
  "refused_response message = dns_msg_zero\<lparr>msg_Id := msg_Id message, msg_Rcode := RcodeRefused, msg_Response := True,
     msg_Question := take 1 (msg_Question message)\<rparr>"

text \<open>What the two rules that need no transport return at once.\<close>

definition exchange_early ::
    "('a, 'b, 'm, 'w) dns_router_env \<Rightarrow> ('a, 'b, 'm, 'w) dns_router \<Rightarrow> dns_msg \<Rightarrow> nat option \<Rightarrow> exchange_result res option" where
  "exchange_early env r message ri =
     (case ri of
        None \<Rightarrow> None
      | Some j \<Rightarrow>
          (case rule_Action (drt_rules r ! j) of
             Some (DNSRuleActionReject a) \<Rightarrow>
               if Method a = ''default'' then Some (Ok (Some (refused_response message), None))
               else if Method a = ''drop'' then Some (Ok (None, Some (dre_ErrDrop env)))
               else None
           | Some (RuleActionPredefined a) \<Rightarrow>
               Some (bindR (Predefined_Response a message) (\<lambda>m. Ok (Some m, None)))
           | _ \<Rightarrow> None))"

definition is_rejection :: "go_error option \<Rightarrow> bool" where
  "is_rejection err = (case err of None \<Rightarrow> False
     | Some e \<Rightarrow> errors_Is e ErrResponseRejectedCached \<or> errors_Is e ErrResponseRejected)"

text \<open>How the loop ends: with a value that is returned at once, or with the result of the client.\<close>

datatype exchange_end = XReturn exchange_result | XBreak obj exchange_result

text \<open>
  The loop.  The context that the client gets has a copy of the metadata from before the search;
  every turn starts with the options of the caller.  A nil transport is a panic.
\<close>

function exchange_loop ::
    "('a, 'b, 'm, 'w) dns_router_env \<Rightarrow> dns_ctx \<Rightarrow> dns_msg \<Rightarrow> DNSQueryOptions \<Rightarrow> nat \<Rightarrow> ('a, 'b, 'm, 'w) dns_router \<Rightarrow>
     'w \<times> InboundContext \<Rightarrow> exchange_end res \<times> ('a, 'b, 'm, 'w) dns_router \<times> 'w \<times> InboundContext" where
  "exchange_loop env ctx message options i r w =
     (case matchDNS env r True i (isAddressQuery message) options (snd w) of
        (t, ri, opt, md) \<Rightarrow>
          (case exchange_early env r message ri of
             Some x \<Rightarrow> (bindR x (\<lambda>y. Ok (XReturn y)), r, (fst w, md))
           | None \<Rightarrow>
               (case t of
                  None \<Rightarrow> (Panic ''nil pointer'', r, (fst w, md))
                | Some t' \<Rightarrow>
                    (case client_Exchange (dre_dns env) (ctx\<lparr>cx_Metadata := Some (snd w)\<rparr>) t' message
                            (with_default_strategy r opt) (checker_of env r ri) (drt_client r) (fst w, md) of
                       (x, c', w') \<Rightarrow>
                         (case x of
                            Panic p \<Rightarrow> (Panic p, r\<lparr>drt_client := c'\<rparr>, w')
                          | Err e \<Rightarrow> (Err e, r\<lparr>drt_client := c'\<rparr>, w')
                          | Ok (m, err) \<Rightarrow>
                              (case ri of
                                 Some j \<Rightarrow>
                                   if WithAddressLimit env (drt_rules r ! j) \<and> is_rejection err
                                   then exchange_loop env ctx message options (Suc j) (r\<lparr>drt_client := c'\<rparr>) w'
                                   else (Ok (XBreak t' (m, err)), r\<lparr>drt_client := c'\<rparr>, w')
                               | None \<Rightarrow> (Ok (XBreak t' (m, err)), r\<lparr>drt_client := c'\<rparr>, w')))))))"
  by pat_completeness auto

termination
proof (relation "measure (\<lambda>(env, ctx, message, options, i, r, w). length (drt_rules r) - i)", goal_cases)
  case (2 env ctx message options i r w)
  then show ?case by (auto dest!: matchDNS_index [OF sym])
qed simp

declare exchange_loop.simps [simp del]

text \<open>The reverse mapping: the owner name of every address record, for its lifetime.\<close>

fun map_answers ::
    "('a, 'b, 'm, 'w) dns_router_env \<Rightarrow> RR list \<Rightarrow> 'm \<Rightarrow> 'w \<times> InboundContext \<Rightarrow> 'm \<times> 'w \<times> InboundContext" where
  "map_answers env [] m w = (m, w)"
| "map_answers env (rr # rrs) m w =
     (case (case rr_Data rr of RD_A ip \<Rightarrow> Some ip | RD_AAAA ip \<Rightarrow> Some ip | _ \<Rightarrow> None) of
        None \<Rightarrow> map_answers env rrs m w
      | Some ip \<Rightarrow>
          (case de_Now (dre_dns env) w of (now, w') \<Rightarrow>
             map_answers env rrs (lru_AddWithLifetime (dre_lru env) now (M_AddrFromIP (dre_dns env) ip)
               (FqdnToDomain (dre_dns env) (h_Name (rr_Hdr rr))) (uint (rr_Ttl rr) * 10 ^ 9) m) w'))"

definition record_mapping ::
    "('a, 'b, 'm, 'w) dns_router_env \<Rightarrow> obj option \<Rightarrow> dns_msg option \<Rightarrow> ('a, 'b, 'm, 'w) dns_router \<Rightarrow> 'w \<times> InboundContext \<Rightarrow>
     ('a, 'b, 'm, 'w) dns_router \<times> 'w \<times> InboundContext" where
  "record_mapping env t response r w =
     (case (drt_dnsReverseMapping r, response) of
        (Some m, Some resp) \<Rightarrow>
          if (case t of None \<Rightarrow> True | Some t' \<Rightarrow> obj_type t' \<noteq> DNSTypeFakeIP)
          then (case map_answers env (msg_Answer resp) m w of (m', w') \<Rightarrow> (r\<lparr>drt_dnsReverseMapping := Some m'\<rparr>, w'))
          else (r, w)
      | _ \<Rightarrow> (r, w))"

definition bad_question :: "dns_msg \<Rightarrow> dns_msg" where
  "bad_question message = dns_msg_zero\<lparr>msg_Id := msg_Id message, msg_Response := True, msg_Rcode := RcodeFormatError,
     msg_Question := msg_Question message\<rparr>"

definition after_exchange ::
    "('a, 'b, 'm, 'w) dns_router_env \<Rightarrow> obj option \<Rightarrow> exchange_result res \<Rightarrow> ('a, 'b, 'm, 'w) dns_router \<Rightarrow> 'w \<times> InboundContext \<Rightarrow>
     exchange_result res \<times> ('a, 'b, 'm, 'w) dns_router \<times> 'w" where
  "after_exchange env t x r w =
     (case x of
        Panic p \<Rightarrow> (Panic p, r, fst w)
      | Err e \<Rightarrow> (Err e, r, fst w)
      | Ok (m, Some e) \<Rightarrow> (Ok (None, Some e), r, fst w)
      | Ok (m, None) \<Rightarrow> (case record_mapping env t m r w of (r', w') \<Rightarrow> (Ok (m, None), r', fst w')))"

definition dns_router_Exchange ::
    "('a, 'b, 'm, 'w) dns_router_env \<Rightarrow> dns_ctx \<Rightarrow> dns_msg \<Rightarrow> DNSQueryOptions \<Rightarrow> ('a, 'b, 'm, 'w) dns_router \<Rightarrow> 'w \<Rightarrow>
     exchange_result res \<times> ('a, 'b, 'm, 'w) dns_router \<times> 'w" where
  "dns_router_Exchange env ctx message options r w =
     (case msg_Question message of
        [q] \<Rightarrow>
          let md = query_metadata env q (ExtendContext ctx) in
          (case qo_Transport options of
             Some t \<Rightarrow>
               (case client_Exchange (dre_dns env) (ctx\<lparr>cx_Metadata := Some md\<rparr>) t message
                       (with_default_strategy r (apply_legacy env t options)) None (drt_client r) (w, md) of
                  (x, c', w') \<Rightarrow> after_exchange env (Some t) x (r\<lparr>drt_client := c'\<rparr>) w')
           | None \<Rightarrow>
               (case exchange_loop env ctx message options 0 r (w, md) of
                  (Panic p, r', w') \<Rightarrow> (Panic p, r', fst w')
                | (Err e, r', w') \<Rightarrow> (Err e, r', fst w')
                | (Ok (XReturn y), r', w') \<Rightarrow> (Ok y, r', fst w')
                | (Ok (XBreak t y), r', w') \<Rightarrow> after_exchange env (Some t) (Ok y) r' w'))
      | _ \<Rightarrow> (Ok (Some (bad_question message), None), r, w))"

section \<open>Lookup\<close>

text \<open>\<open>printResult\<close>: an empty result is an error, and every error is wrapped.\<close>

definition printResult :: "string \<Rightarrow> addr list \<Rightarrow> go_error option \<Rightarrow> go_error option" where
  "printResult domain addrs err =
     (case (if err = None \<and> addrs = [] then Some (ENew [AStr ''empty result'']) else err) of
        None \<Rightarrow> None
      | Some e \<Rightarrow> Some (ECause e [AStr ''lookup '', AStr domain]))"

definition predefined_addresses :: "('a, 'b, 'w) dns_env \<Rightarrow> RuleActionPredefined \<Rightarrow> addr list \<times> go_error option" where
  "predefined_addresses env a =
     (if pd_Rcode a \<noteq> RcodeSuccess then ([], Some (ERcode (pd_Rcode a)))
      else (concat (map (\<lambda>rr. case rr_Data rr of RD_A ip \<Rightarrow> [M_AddrFromIP env ip] | RD_AAAA ip \<Rightarrow> [M_AddrFromIP env ip] | _ \<Rightarrow> [])
              (pd_Answer a)), None))"

text \<open>\<open>&R.RejectedError{Cause: action.Error(ctx)}\<close>.\<close>

definition rejected_error :: "('a, 'b, 'm, 'w) dns_router_env \<Rightarrow> RejectedError \<Rightarrow> go_error" where
  "rejected_error env e = ECause (case e of ErrDrop \<Rightarrow> dre_ErrDrop env | ECONNREFUSED \<Rightarrow> dre_Errno env) [AStr ''rejected'']"

datatype lookup_end = LReturn go_error | LBreak "addr list" "go_error option"

definition lookup_early ::
    "('a, 'b, 'm, 'w) dns_router_env \<Rightarrow> nat option \<Rightarrow> ('a, 'b, 'm, 'w) dns_router \<Rightarrow> 'w \<times> InboundContext \<Rightarrow>
     (lookup_end res \<times> ('a, 'b, 'm, 'w) dns_router \<times> 'w \<times> InboundContext) option" where
  "lookup_early env ri r w =
     (case ri of
        None \<Rightarrow> None
      | Some j \<Rightarrow>
          (case rule_Action (drt_rules r ! j) of
             Some (DNSRuleActionReject a) \<Rightarrow>
               (case de_Now (dre_dns env) w of (now, w') \<Rightarrow>
                (case RuleActionReject_Error (dre_Filter env) now a of (res, a') \<Rightarrow>
                   Some (bindR res (\<lambda>e. Ok (LReturn (rejected_error env e))),
                     r\<lparr>drt_rules := (drt_rules r)[j := set_action (Some (DNSRuleActionReject a')) (drt_rules r ! j)]\<rparr>, w')))
           | Some (RuleActionPredefined a) \<Rightarrow>
               (case predefined_addresses (dre_dns env) a of (as, e) \<Rightarrow> Some (Ok (LBreak as e), r, w))
           | _ \<Rightarrow> None))"

text \<open>The loop: under a check every error of the client, not only a rejection, leads to the next rule.\<close>

function lookup_loop ::
    "('a, 'b, 'm, 'w) dns_router_env \<Rightarrow> dns_ctx \<Rightarrow> string \<Rightarrow> DNSQueryOptions \<Rightarrow> nat \<Rightarrow> ('a, 'b, 'm, 'w) dns_router \<Rightarrow>
     'w \<times> InboundContext \<Rightarrow> lookup_end res \<times> ('a, 'b, 'm, 'w) dns_router \<times> 'w \<times> InboundContext" where
  "lookup_loop env ctx domain options i r w =
     (case matchDNS env r False i True options (snd w) of
        (t, ri, opt, md) \<Rightarrow>
          (case lookup_early env ri r (fst w, md) of
             Some x \<Rightarrow> x
           | None \<Rightarrow>
               (case t of
                  None \<Rightarrow> (Panic ''nil pointer'', r, (fst w, md))
                | Some t' \<Rightarrow>
                    (case client_Lookup (dre_dns env) (ctx\<lparr>cx_Metadata := Some (snd w)\<rparr>) t' domain
                            (with_default_strategy r opt) (checker_of env r ri) (drt_client r) (fst w, md) of
                       (x, c', w') \<Rightarrow>
                         (case x of
                            Panic p \<Rightarrow> (Panic p, r\<lparr>drt_client := c'\<rparr>, w')
                          | Err e \<Rightarrow> (Err e, r\<lparr>drt_client := c'\<rparr>, w')
                          | Ok (as, err) \<Rightarrow>
                              (case ri of
                                 Some j \<Rightarrow>
                                   if WithAddressLimit env (drt_rules r ! j) \<and> err \<noteq> None
                                   then lookup_loop env ctx domain options (Suc j) (r\<lparr>drt_client := c'\<rparr>) w'
                                   else (Ok (LBreak as err), r\<lparr>drt_client := c'\<rparr>, w')
                               | None \<Rightarrow> (Ok (LBreak as err), r\<lparr>drt_client := c'\<rparr>, w')))))))"
  by pat_completeness auto

termination
proof (relation "measure (\<lambda>(env, ctx, domain, options, i, r, w). length (drt_rules r) - i)", goal_cases)
  case (2 env ctx domain options i r w)
  then show ?case by (auto dest!: matchDNS_index [OF sym])
qed simp

declare lookup_loop.simps [simp del]

text \<open>With a given transport, a legacy transport contributes its subnet but not its strategy.\<close>

definition lookup_transport_options :: "('a, 'b, 'm, 'w) dns_router_env \<Rightarrow> ('a, 'b, 'm, 'w) dns_router \<Rightarrow> obj \<Rightarrow> DNSQueryOptions \<Rightarrow> DNSQueryOptions" where
  "lookup_transport_options env r t opt =
     with_default_strategy r
       (case dre_legacy env t of
          None \<Rightarrow> opt
        | Some (_, subnet) \<Rightarrow>
            (with_default_strategy r opt)\<lparr>qo_ClientSubnet :=
               (if \<not> subnet_IsValid (qo_ClientSubnet opt) then subnet else qo_ClientSubnet opt)\<rparr>)"

definition dns_router_Lookup ::
    "('a, 'b, 'm, 'w) dns_router_env \<Rightarrow> dns_ctx \<Rightarrow> string \<Rightarrow> DNSQueryOptions \<Rightarrow> ('a, 'b, 'm, 'w) dns_router \<Rightarrow> 'w \<Rightarrow>
     (addr list \<times> go_error option) res \<times> ('a, 'b, 'm, 'w) dns_router \<times> 'w" where
  "dns_router_Lookup env ctx domain options r w =
     (let md = (ExtendContext ctx)\<lparr>m_Destination := Socksaddr_zero, m_Domain := FqdnToDomain (dre_dns env) domain\<rparr> in
      case qo_Transport options of
        Some t \<Rightarrow>
          (case client_Lookup (dre_dns env) (ctx\<lparr>cx_Metadata := Some md\<rparr>) t domain (lookup_transport_options env r t options)
                  None (drt_client r) (w, md) of
             (x, c', w') \<Rightarrow> (bindR x (\<lambda>(as, err). Ok (as, printResult domain as err)), r\<lparr>drt_client := c'\<rparr>, fst w'))
      | None \<Rightarrow>
          (case lookup_loop env ctx domain options 0 r (w, md) of
             (x, r', w') \<Rightarrow>
               (bindR x (\<lambda>y. case y of LReturn e \<Rightarrow> Ok ([], Some e)
                                    | LBreak as err \<Rightarrow> Ok (as, printResult domain as err)), r', fst w')))"

section \<open>The other operations\<close>

definition dns_router_ClearCache ::
    "('a, 'b, 'm, 'w) dns_router_env \<Rightarrow> ('w \<Rightarrow> 'w) \<Rightarrow> ('a, 'b, 'm, 'w) dns_router \<Rightarrow> 'w \<Rightarrow> ('a, 'b, 'm, 'w) dns_router \<times> 'w" where
  "dns_router_ClearCache env platform_ClearDNSCache r w =
     (r\<lparr>drt_client := client_ClearCache (dre_dns env) (drt_client r)\<rparr>,
      if drt_platformInterface r then platform_ClearDNSCache w else w)"

definition LookupReverseMapping ::
    "('a, 'b, 'm, 'w) dns_router_env \<Rightarrow> addr \<Rightarrow> int \<Rightarrow> ('a, 'b, 'm, 'w) dns_router \<Rightarrow> string option \<times> ('a, 'b, 'm, 'w) dns_router" where
  "LookupReverseMapping env ip now r =
     (case drt_dnsReverseMapping r of
        None \<Rightarrow> (None, r)
      | Some m \<Rightarrow> (case lru_Get (dre_lru env) now ip m of (d, m') \<Rightarrow> (d, r\<lparr>drt_dnsReverseMapping := Some m'\<rparr>)))"

text \<open>Every transport is closed; their errors are not looked at.\<close>

definition dns_router_ResetNetwork ::
    "('a, 'b, 'm, 'w) dns_router_env \<Rightarrow> ('w \<Rightarrow> 'w) \<Rightarrow> ('a, 'b, 'm, 'w) dns_router \<Rightarrow> 'w \<Rightarrow> trace \<Rightarrow>
     ('a, 'b, 'm, 'w) dns_router \<times> 'w \<times> trace" where
  "dns_router_ResetNetwork env platform_ClearDNSCache r w tr =
     (case dns_router_ClearCache env platform_ClearDNSCache r w of
        (r', w') \<Rightarrow> (r', w', fold (\<lambda>t tr. fst (do_call t CClose tr)) (transport_Transports (drt_transport r')) tr))"

end
