(* ===== verification/Dns_Router_Properties.thy ===== *)
theory Dns_Router_Properties
  imports Dns_Router
begin

text \<open>
  Properties of the DNS router: which rule answers a query, what the check of a response accepts,
  and what the reverse mapping tells the route router afterwards.
\<close>

section \<open>The search\<close>

text \<open>The rules that apply to a query, as formulas over its metadata, and those that end the search.\<close>

definition dns_formula :: "rule_env \<Rightarrow> InboundContext \<Rightarrow> 'act rule \<Rightarrow> bool" where
  "dns_formula env md R =
     tree_formula (\<lambda>r. default_formula env r ((ResetRuleCache md)\<lparr>IgnoreDestinationIPCIDRMatch := True\<rparr>)) R"

definition dns_applies :: "('a, 'b, 'm, 'w) dns_router_env \<Rightarrow> bool \<Rightarrow> InboundContext \<Rightarrow> dns_rule \<Rightarrow> bool" where
  "dns_applies env isAddr md R \<longleftrightarrow> (WithAddressLimit env R \<longrightarrow> isAddr) \<and> dns_formula (dre_rule env) md R"

definition dns_decisive :: "('a, 'b, 'm, 'w) dns_router \<Rightarrow> bool \<Rightarrow> dns_rule \<Rightarrow> bool" where
  "dns_decisive r allowFakeIP R =
     (case rule_Action R of
        Some (RuleActionDNSRoute server a) \<Rightarrow>
          (case byTag (drt_transport r) server of
             None \<Rightarrow> False
           | Some t \<Rightarrow> obj_type t = DNSTypeFakeIP \<longrightarrow> allowFakeIP)
      | Some (DNSRuleActionReject a) \<Rightarrow> True
      | Some (RuleActionPredefined a) \<Rightarrow> True
      | _ \<Rightarrow> False)"

definition passing_options :: "dns_rule \<Rightarrow> DNSQueryOptions \<Rightarrow> DNSQueryOptions" where
  "passing_options R opt =
     (case rule_Action R of Some (RuleActionDNSRouteOptions a) \<Rightarrow> apply_dns_options a False opt | _ \<Rightarrow> opt)"

text \<open>The transport and the options of the rule that ends the search.\<close>

definition dns_choice ::
    "('a, 'b, 'm, 'w) dns_router_env \<Rightarrow> ('a, 'b, 'm, 'w) dns_router \<Rightarrow> dns_rule \<Rightarrow> DNSQueryOptions \<Rightarrow> obj option \<times> DNSQueryOptions" where
  "dns_choice env r R opt =
     (case rule_Action R of
        Some (RuleActionDNSRoute server a) \<Rightarrow>
          (case byTag (drt_transport r) server of
             Some t \<Rightarrow> (Some t, apply_legacy env t (apply_dns_options a (obj_type t = DNSTypeFakeIP) opt))
           | None \<Rightarrow> (None, opt))
      | _ \<Rightarrow> (None, opt))"

definition dns_search ::
    "('a, 'b, 'm, 'w) dns_router_env \<Rightarrow> ('a, 'b, 'm, 'w) dns_router \<Rightarrow> bool \<Rightarrow> bool \<Rightarrow> InboundContext \<Rightarrow> (nat \<times> dns_rule) list \<Rightarrow>
     DNSQueryOptions \<Rightarrow> obj option \<times> nat option \<times> DNSQueryOptions" where
  "dns_search env r allowFakeIP isAddr md rs opt =
     (let ms = filter (\<lambda>(j, R). dns_applies env isAddr md R) rs;
          passed = takeWhile (\<lambda>(j, R). \<not> dns_decisive r allowFakeIP R) ms;
          opt' = fold (\<lambda>(j, R). passing_options R) passed opt
      in case dropWhile (\<lambda>(j, R). \<not> dns_decisive r allowFakeIP R) ms of
           [] \<Rightarrow> (transport_Default (drt_transport r), None, opt')
         | (j, R) # _ \<Rightarrow> (case dns_choice env r R opt' of (t, opt2) \<Rightarrow> (t, Some j, opt2)))"

lemma dns_tree_decision:
  assumes "loops_ok L" and "leaves (\<lambda>r. plain_rule r \<and> wf_rule r) R" and "\<not> IgnoreDestinationIPCIDRMatch md"
  shows "fst (DNSRule_Match L env R (ResetRuleCache md)) = dns_formula env md R"
    and "ResetRuleCache (snd (DNSRule_Match L env R (ResetRuleCache md))) = ResetRuleCache md"
proof -
  let ?d = "(ResetRuleCache md)\<lparr>IgnoreDestinationIPCIDRMatch := True\<rparr>"
  have p: "leaves plain_rule R" using assms(2) by (rule leaves_mono) simp
  have f: "fresh ?d" by (simp add: fresh_def ResetRuleCache_def)
  have "fst (DefaultDNSRule_Match env r (ResetRuleCache md)) = default_formula env r ?d" if "plain_rule r \<and> wf_rule r"
    for r :: "'a abstractDefaultRule"
    using default_rule_decision [OF _ _ f, of r env] that by (simp add: DefaultDNSRule_Match_def case_prod_beta)
  with assms(2) have "leaves (\<lambda>r. fst (DefaultDNSRule_Match env r (ResetRuleCache md)) = default_formula env r ?d) R"
    by (rule leaves_mono)
  from tree_formula_cong [OF this] dns.tree_result [OF assms(1,3) p, of env]
  show "fst (DNSRule_Match L env R (ResetRuleCache md)) = dns_formula env md R"
    and "ResetRuleCache (snd (DNSRule_Match L env R (ResetRuleCache md))) = ResetRuleCache md"
    by (simp_all add: dns_formula_def)
qed

lemma dns_formula_Reset: "ResetRuleCache md' = ResetRuleCache md \<Longrightarrow> dns_formula env md' = dns_formula env md"
  by (simp add: dns_formula_def fun_eq_iff)

lemma match_dns_loop_search:
  assumes "loops_ok (dre_loops env)" and "list_all (leaves (\<lambda>r. plain_rule r \<and> wf_rule r)) rs"
    and "\<not> IgnoreDestinationIPCIDRMatch md" and "ResetRuleCache md' = ResetRuleCache md"
  shows "\<exists>md2. match_dns_loop env r fk ad i rs opt md' =
      (let (t, ri, opt') = dns_search env r fk ad md (enumerate i rs) opt in (t, ri, opt', md2)) \<and>
    ResetRuleCache md2 = ResetRuleCache md"
  using assms(2,4)
proof (induction rs arbitrary: i opt md')
  case Nil
  then show ?case by (intro exI [of _ md']) (simp add: dns_search_def)
next
  case (Cons R rs)
  have ign: "\<not> IgnoreDestinationIPCIDRMatch md'" using Cons.prems(2) assms(3) by (metis Ignore_Reset)
  have R: "leaves (\<lambda>r. plain_rule r \<and> wf_rule r) R" and rs: "list_all (leaves (\<lambda>r. plain_rule r \<and> wf_rule r)) rs"
    using Cons.prems(1) by auto
  obtain b md1 where m: "DNSRule_Match (dre_loops env) (dre_rule env) R (ResetRuleCache md') = (b, md1)" by fastforce
  have b: "b = dns_formula (dre_rule env) md R" and md1: "ResetRuleCache md1 = ResetRuleCache md"
    using dns_tree_decision [OF assms(1) R ign, of "dre_rule env"] m Cons.prems(2) dns_formula_Reset [OF Cons.prems(2)]
    by (metis fst_conv, metis snd_conv)
  note IH = Cons.IH [OF rs]
  show ?case
  proof (cases "dns_applies env ad md R")
    case False
    then have skip: "dns_search env r fk ad md (enumerate i (R # rs)) opt = dns_search env r fk ad md (enumerate (Suc i) rs) opt"
      by (simp add: dns_search_def)
    have "match_dns_loop env r fk ad i (R # rs) opt md' =
        match_dns_loop env r fk ad (Suc i) rs opt (if WithAddressLimit env R \<and> \<not> ad then md' else md1)"
      using False b by (auto simp: dns_applies_def m)
    with IH [of "if WithAddressLimit env R \<and> \<not> ad then md' else md1" "Suc i" opt] md1 Cons.prems(2) skip
    show ?thesis by (simp split: if_splits)
  next
    case True
    then have lim: "\<not> (WithAddressLimit env R \<and> \<not> ad)" and b': "b" using b by (auto simp: dns_applies_def)
    show ?thesis
    proof (cases "dns_decisive r fk R")
      case decisive: True
      then have "dns_search env r fk ad md (enumerate i (R # rs)) opt =
          (case dns_choice env r R opt of (t, opt2) \<Rightarrow> (t, Some i, opt2))"
        using True by (simp add: dns_search_def)
      then show ?thesis using lim b' decisive md1
        by (intro exI [of _ md1]) (auto simp: m dns_decisive_def dns_choice_def transport_Transport_def Let_def
            split: option.splits DNSRuleAction.splits)
    next
      case passing: False
      then have next': "dns_search env r fk ad md (enumerate i (R # rs)) opt =
          dns_search env r fk ad md (enumerate (Suc i) rs) (passing_options R opt)"
        using True by (simp add: dns_search_def Let_def cong: list.case_cong)
      have "match_dns_loop env r fk ad i (R # rs) opt md' = match_dns_loop env r fk ad (Suc i) rs (passing_options R opt) md1"
        using lim b' passing by (auto simp: m dns_decisive_def passing_options_def transport_Transport_def Let_def
            split: option.splits DNSRuleAction.splits)
      with IH [OF md1, of "Suc i" "passing_options R opt"] next' show ?thesis by simp
    qed
  qed
qed


section \<open>The check of addresses\<close>

text \<open>
  The check of the addresses of a response keeps what it found: the conditions of a rule that is
  not inverted are met for every later response of the same query once they were met for one.  The
  two queries of a lookup share the check, so the addresses of the second response are not looked
  at when the first was accepted.
\<close>

theorem address_check_sticky:
  fixes env :: "('a, 'b, 'm, 'w) dns_router_env"
  assumes "plain_rule r" and "items r = []" and "\<not> invert r"
    and "responseCheck env (DefaultRule r) first w = (True, w1)"
  shows "fst (responseCheck env (DefaultRule r) second w1)"
proof (cases "allItems r = []")
  case False
  let ?c = "(snd w)\<lparr>m_DestinationAddresses := first\<rparr>"
  let ?d = "(snd w1)\<lparr>m_DestinationAddresses := second\<rparr>"
  have first: "fst (abstractDefaultRule_Match (dre_rule env) r ?c)" and w1: "snd w1 = snd (abstractDefaultRule_Match (dre_rule env) r ?c)"
    using assms(4) by (auto simp: responseCheck_def split: prod.splits)
  have "conds (dre_rule env) r ?c" using first assms(3) False
    by (simp add: abstractDefaultRule_Match_plain [OF assms(1)] split: if_splits)
  moreover have "snd w1 = (match_groups (dre_rule env) r ?c)\<lparr>DidMatch := DidMatch ?c \<or> tested (dre_rule env) r ?c \<or> items r \<noteq> []\<rparr>"
    unfolding w1 using abstractDefaultRule_Match_plain(2) [OF assms(1) False] .
  ultimately have "conds (dre_rule env) r ?d"
    using assms(1,2) by (auto simp: conds_def match_groups_plain plain_rule_def)
  then show ?thesis using assms(3) False
    by (simp add: responseCheck_def abstractDefaultRule_Match_plain [OF assms(1)] case_prod_beta)
qed (simp add: responseCheck_def abstractDefaultRule_Match_def)

section \<open>Legacy transports\<close>

text \<open>\<open>Exchange\<close> with a given legacy transport takes the strategy of the transport, \<open>Lookup\<close> does not.\<close>

lemma legacy_strategy:
  assumes "dre_legacy env t = Some (s, subnet)" and "qo_Strategy opt = DomainStrategyAsIS" and "s \<noteq> DomainStrategyAsIS"
  shows "qo_Strategy (with_default_strategy r (apply_legacy env t opt)) = s"
    and "qo_Strategy (lookup_transport_options env r t opt) = drt_defaultDomainStrategy r"
  using assms by (auto simp: with_default_strategy_def apply_legacy_def lookup_transport_options_def)

section \<open>The reverse mapping\<close>

text \<open>The entry added last is there; the clock does not move while it is read.\<close>

definition mapping_ok :: "('a, 'b, 'm, 'w) dns_router_env \<Rightarrow> bool" where
  "mapping_ok env \<longleftrightarrow>
     (\<forall>n k v l m now. now \<le> n + l \<longrightarrow>
        fst (lru_Get (dre_lru env) now k (lru_AddWithLifetime (dre_lru env) n k v l m)) = Some v)"

definition address_record :: "RR \<Rightarrow> string option" where
  "address_record rr = (case rr_Data rr of RD_A ip \<Rightarrow> Some ip | RD_AAAA ip \<Rightarrow> Some ip | _ \<Rightarrow> None)"

lemma map_answers_none: "\<forall>rr \<in> set rrs. address_record rr = None \<Longrightarrow> map_answers env rrs m w = (m, w)"
  by (induction rrs) (auto simp: address_record_def)

lemma map_answers_append:
  "map_answers env (as @ bs) m w = (case map_answers env as m w of (m', w') \<Rightarrow> map_answers env bs m' w')"
  by (induction env as m w rule: map_answers.induct) (auto split: option.split prod.split)

lemma map_answers_later:
  "clock_ok (dre_dns env) clk \<Longrightarrow> map_answers env rrs m w = (m', w') \<Longrightarrow> clk w \<le> clk w'"
proof (induction rrs arbitrary: m w)
  case (Cons rr rrs)
  obtain n w1 where n: "de_Now (dre_dns env) w = (n, w1)" by (metis surj_pair)
  from Cons.prems(2) obtain m1 v where "map_answers env rrs m1 v = (m', w')" and "v = w \<or> v = w1"
    by (auto simp: n split: option.splits)
  note v = this
  from Cons.IH [OF Cons.prems(1) v(1)] v(2) now_later [OF Cons.prems(1) n] show ?case by auto
qed simp

lemma map_answers_last:
  assumes "clock_ok (dre_dns env) clk" and "address_record rr = Some ip" and "\<forall>x \<in> set post. address_record x = None"
  shows "\<exists>m1 n w2. clk w \<le> n \<and> map_answers env (pre @ rr # post) m w =
    (lru_AddWithLifetime (dre_lru env) n (M_AddrFromIP (dre_dns env) ip) (FqdnToDomain (dre_dns env) (h_Name (rr_Hdr rr)))
       (uint (rr_Ttl rr) * 10 ^ 9) m1, w2)"
proof -
  obtain m1 w1 where 1: "map_answers env pre m w = (m1, w1)" by (metis surj_pair)
  obtain n w2 where n: "de_Now (dre_dns env) w1 = (n, w2)" by (metis surj_pair)
  have "clk w \<le> n" using map_answers_later [OF assms(1) 1] now_later [OF assms(1) n] by linarith
  moreover have "map_answers env (pre @ rr # post) m w = map_answers env post
      (lru_AddWithLifetime (dre_lru env) n (M_AddrFromIP (dre_dns env) ip) (FqdnToDomain (dre_dns env) (h_Name (rr_Hdr rr)))
       (uint (rr_Ttl rr) * 10 ^ 9) m1) w2"
    using assms(2) by (auto simp: map_answers_append 1 n address_record_def split: rdata.splits)
  note this [unfolded map_answers_none [OF assms(3)]]
  ultimately show ?thesis by blast
qed

lemma after_exchange_mapping:
  assumes "after_exchange env (Some t) x r w = (Ok (Some resp, None), r', w')" and "obj_type t \<noteq> DNSTypeFakeIP"
    and "drt_dnsReverseMapping r = Some m0"
  shows "\<exists>w1 m. map_answers env (msg_Answer resp) m0 w = (m, w1) \<and> drt_dnsReverseMapping r' = Some m"
  using assms by (auto simp: after_exchange_def record_mapping_def split: res.splits option.splits prod.splits)

text \<open>The metadata has no part in the time.\<close>

definition world_clock :: "('w \<Rightarrow> int) \<Rightarrow> 'w \<times> InboundContext \<Rightarrow> int" where
  "world_clock clk w = clk (fst w)"

lemma responseCheck_world: "fst (snd (responseCheck env R as w)) = fst w"
  by (simp add: responseCheck_def split: prod.split)

lemma checker_of_later: "checker_of env r ri = Some chk \<Longrightarrow> world_clock clk w \<le> world_clock clk (snd (chk as w))"
  by (auto simp: checker_of_def world_clock_def responseCheck_world split: option.splits if_splits)

text \<open>The servers a query may reach: those of the manager and the default.\<close>

definition no_fakeip :: "('a, 'b, 'm, 'w) dns_router \<Rightarrow> bool" where
  "no_fakeip r \<longleftrightarrow> (\<forall>tag t. byTag (drt_transport r) tag = Some t \<longrightarrow> obj_type t \<noteq> DNSTypeFakeIP) \<and>
     (\<forall>t. transport_Default (drt_transport r) = Some t \<longrightarrow> obj_type t \<noteq> DNSTypeFakeIP)"

lemma match_dns_loop_transport:
  "no_fakeip r \<Longrightarrow> match_dns_loop env r fk ad i rs opt md = (Some t, ri, opt', md') \<Longrightarrow> obj_type t \<noteq> DNSTypeFakeIP"
proof (induction rs arbitrary: i opt md)
  case Nil
  then show ?case by (simp add: no_fakeip_def)
next
  case (Cons R rs)
  have tag: "byTag (drt_transport r) tag = Some t \<Longrightarrow> obj_type t \<noteq> DNSTypeFakeIP" for tag t
    using Cons.prems(1) by (simp add: no_fakeip_def)
  have "obj_type t \<noteq> DNSTypeFakeIP \<or> (\<exists>i opt md. match_dns_loop env r fk ad i rs opt md = (Some t, ri, opt', md'))"
    using Cons.prems(2) by (auto simp: transport_Transport_def Let_def split: if_splits prod.splits bool.splits option.splits
        DNSRuleAction.splits dest: tag)
  with Cons.IH Cons.prems(1) show ?case by blast
qed

lemma exchange_loop_end:
  assumes "clock_ok (dre_dns env) (world_clock clk)" and "no_fakeip r"
    and "exchange_loop env ctx message options i r w = (Ok (XBreak t y), r', w')"
  shows "obj_type t \<noteq> DNSTypeFakeIP \<and> drt_dnsReverseMapping r' = drt_dnsReverseMapping r \<and> clk (fst w) \<le> clk (fst w')"
  using assms
proof (induction env ctx message options i r w rule: exchange_loop.induct)
  case (1 env ctx message options i r w)
  obtain t0 ri opt md where m: "matchDNS env r True i (isAddressQuery message) options (snd w) = (t0, ri, opt, md)"
    by (metis prod_cases4)
  from 1(4) obtain t' where e: "exchange_early env r message ri = None" and t': "t0 = Some t'"
    by (subst (asm) exchange_loop.simps) (auto simp: m split: option.splits elim!: bindR.elims)
  obtain x c1 w1 where c: "client_Exchange (dre_dns env) (ctx\<lparr>cx_Metadata := Some (snd w)\<rparr>) t' message
      (with_default_strategy r opt) (checker_of env r ri) (drt_client r) (fst w, md) = (x, c1, w1)" by (metis prod_cases3)
  have "world_clock clk (fst w, md) \<le> world_clock clk w1"
    using later.client_Exchange_I [OF _ c, of "world_clock clk" "world_clock clk (fst w, md)"] 1(2) checker_of_later by blast
  then have le: "clk (fst w) \<le> clk (fst w1)" by (simp add: world_clock_def)
  have t: "obj_type t' \<noteq> DNSTypeFakeIP" using match_dns_loop_transport [OF 1(3)] m t' unfolding matchDNS_def by blast
  let ?r = "r\<lparr>drt_client := c1\<rparr>"
  have eq: "exchange_loop env ctx message options i r w = (case x of Panic p \<Rightarrow> (Panic p, ?r, w1) | Err e \<Rightarrow> (Err e, ?r, w1)
      | Ok (m, err) \<Rightarrow> (case ri of Some j \<Rightarrow> if WithAddressLimit env (drt_rules r ! j) \<and> is_rejection err
           then exchange_loop env ctx message options (Suc j) ?r w1 else (Ok (XBreak t' (m, err)), ?r, w1)
         | None \<Rightarrow> (Ok (XBreak t' (m, err)), ?r, w1)))"
    by (subst exchange_loop.simps) (simp add: m e t' c)
  show ?case
  proof (cases "\<exists>mm err j. x = Ok (mm, err) \<and> ri = Some j \<and> WithAddressLimit env (drt_rules r ! j) \<and> is_rejection err")
    case True
    then obtain mm err j where j: "x = Ok (mm, err)" "ri = Some j" "WithAddressLimit env (drt_rules r ! j) \<and> is_rejection err" by blast
    have nf: "no_fakeip ?r" using 1(3) by (simp add: no_fakeip_def)
    have "exchange_loop env ctx message options (Suc j) ?r w1 = (Ok (XBreak t y), r', w')" using 1(4) eq j by simp
    from "1.IH" [OF m [symmetric] refl refl e t' c [symmetric] refl j(1) refl j(2,3) 1(2) nf this] le show ?thesis by simp
  next
    case False
    then show ?thesis using 1(4) eq t le by (auto split: res.splits option.splits if_splits)
  qed
qed

text \<open>What a rule without a transport returns has no records, unless it is \<open>predefined\<close>.\<close>

lemma exchange_loop_return:
  assumes "\<forall>R \<in> set (drt_rules r). \<forall>a. rule_Action R \<noteq> Some (RuleActionPredefined a)"
    and "exchange_loop env ctx message options i r w = (Ok (XReturn (Some m, None)), r', w')"
  shows "msg_Answer m = []"
  using assms
proof (induction env ctx message options i r w rule: exchange_loop.induct)
  case (1 env ctx message options i r w)
  obtain t0 ri opt md where m: "matchDNS env r True i (isAddressQuery message) options (snd w) = (t0, ri, opt, md)"
    by (metis prod_cases4)
  show ?case
  proof (cases "exchange_early env r message ri")
    case (Some x)
    then have "x = Ok (Some m, None)"
      using 1(3) by (subst (asm) exchange_loop.simps) (auto simp: m split: option.splits elim!: bindR.elims)
    moreover have "drt_rules r ! j \<in> set (drt_rules r)" if "ri = Some j" for j using matchDNS_index [of env r True i "isAddressQuery message" options "snd w" t0 j opt md] m that by simp
    ultimately show ?thesis using Some 1(2)
      by (auto simp: exchange_early_def refused_response_def dns_msg_zero_def split: option.splits DNSRuleAction.splits if_splits)
  next
    case None
    then obtain t' where t': "t0 = Some t'"
      using 1(3) by (subst (asm) exchange_loop.simps) (auto simp: m split: option.splits)
    obtain x c1 w1 where c: "client_Exchange (dre_dns env) (ctx\<lparr>cx_Metadata := Some (snd w)\<rparr>) t' message
        (with_default_strategy r opt) (checker_of env r ri) (drt_client r) (fst w, md) = (x, c1, w1)" by (metis prod_cases3)
    let ?r = "r\<lparr>drt_client := c1\<rparr>"
    from 1(3) obtain mm err j where j: "x = Ok (mm, err)" "ri = Some j" "WithAddressLimit env (drt_rules r ! j) \<and> is_rejection err"
      and "exchange_loop env ctx message options (Suc j) ?r w1 = (Ok (XReturn (Some m, None)), r', w')"
      by (subst (asm) exchange_loop.simps) (auto simp: m None t' c split: res.splits option.splits if_splits)
    with "1.IH" [OF m [symmetric] refl refl None t' c [symmetric] refl j(1) refl j(2,3)] 1(2) show ?thesis by simp
  qed
qed

text \<open>
  C15: After an exchange the router knows the domain of an address: when a response came from a server
  that hands out real addresses, then until the lifetime of its last address record is over the
  address of that record is mapped back to the owner name of the record.
\<close>

theorem reverse_mapping_after_exchange:
  fixes env :: "('a, 'b, 'm, 'w) dns_router_env"
  assumes "mapping_ok env" and clock: "clock_ok (dre_dns env) (world_clock clk)" and "no_fakeip r"
    and "\<forall>t. qo_Transport options = Some t \<longrightarrow> obj_type t \<noteq> DNSTypeFakeIP"
    and own: "\<forall>R \<in> set (drt_rules r). \<forall>a. rule_Action R \<noteq> Some (RuleActionPredefined a)"
    and m0: "drt_dnsReverseMapping r = Some m0"
    and ex: "dns_router_Exchange env ctx message options r w = (Ok (Some resp, None), r', w')"
    and ans: "msg_Answer resp = pre @ rr # post" "address_record rr = Some ip" "\<forall>x \<in> set post. address_record x = None"
  shows "\<exists>n \<ge> clk w. \<forall>now \<le> n + uint (rr_Ttl rr) * 10 ^ 9.
    fst (LookupReverseMapping env (M_AddrFromIP (dre_dns env) ip) now r') = Some (FqdnToDomain (dre_dns env) (h_Name (rr_Hdr rr)))"
proof -
  have "\<exists>w0 w1 m. clk w \<le> clk (fst w0) \<and> map_answers env (msg_Answer resp) m0 w0 = (m, w1) \<and> drt_dnsReverseMapping r' = Some m"
  proof (cases "\<exists>q. msg_Question message = [q]")
    case False
    then have "resp = bad_question message"
      using ex by (auto simp: dns_router_Exchange_def split: list.splits)
    with ans(1) show ?thesis by (simp add: bad_question_def dns_msg_zero_def)
  next
    case True
    then obtain q where q: "msg_Question message = [q]" ..
    define md where "md = query_metadata env q (ExtendContext ctx)"
    show ?thesis
    proof (cases "qo_Transport options")
      case (Some t)
      obtain x c1 w1 where c: "client_Exchange (dre_dns env) (ctx\<lparr>cx_Metadata := Some md\<rparr>) t message
          (with_default_strategy r (apply_legacy env t options)) None (drt_client r) (w, md) = (x, c1, w1)" by (metis prod_cases3)
      have "world_clock clk (w, md) \<le> world_clock clk w1"
        using later.client_Exchange_I [OF _ c, of "world_clock clk" "world_clock clk (w, md)"] clock by simp
      moreover have "after_exchange env (Some t) x (r\<lparr>drt_client := c1\<rparr>) w1 = (Ok (Some resp, None), r', w')"
        using ex by (simp add: dns_router_Exchange_def q Some c md_def [symmetric])
      ultimately show ?thesis using after_exchange_mapping [of env t x "r\<lparr>drt_client := c1\<rparr>" w1 resp r' w' m0] assms(4) Some m0
        by (fastforce simp: world_clock_def)
    next
      case None
      obtain x r1 w1 where l: "exchange_loop env ctx message options 0 r (w, md) = (x, r1, w1)" by (metis prod_cases3)
      with ex obtain t y where x: "x = Ok (XBreak t y)" and a: "after_exchange env (Some t) (Ok y) r1 w1 = (Ok (Some resp, None), r', w')"
        using exchange_loop_return [OF own, of env ctx message options 0 "(w, md)" resp] ans(1)
        by (auto simp: dns_router_Exchange_def q None md_def [symmetric] split: res.splits exchange_end.splits)
      from exchange_loop_end [OF clock assms(3) l [unfolded x]] after_exchange_mapping [OF a] m0 show ?thesis by fastforce
    qed
  qed
  then obtain w0 w1 m where m: "clk w \<le> clk (fst w0)" "map_answers env (msg_Answer resp) m0 w0 = (m, w1)"
    "drt_dnsReverseMapping r' = Some m" by blast
  from map_answers_last [OF clock ans(2,3), of w0 pre m0] m(2) ans(1) obtain m1 n where
    "world_clock clk w0 \<le> n" and "m = lru_AddWithLifetime (dre_lru env) n (M_AddrFromIP (dre_dns env) ip)
      (FqdnToDomain (dre_dns env) (h_Name (rr_Hdr rr))) (uint (rr_Ttl rr) * 10 ^ 9) m1" by auto
  with m(1,3) assms(1) show ?thesis
    by (intro exI [of _ n]) (auto simp: world_clock_def LookupReverseMapping_def mapping_ok_def case_prod_beta)
qed

section \<open>Examples\<close>

definition demo_dns_env ::
    "(dns_msg \<Rightarrow> go_error + dns_msg) \<Rightarrow> (dns_Question \<rightharpoonup> dns_msg \<times> int option, transportCacheKey \<rightharpoonup> dns_msg \<times> int option,
       addr \<rightharpoonup> string \<times> int option, int) dns_router_env" where
  "demo_dns_env answer = \<lparr>dre_dns = over_env fst answer, dre_loops = loops_ref, dre_rule = demo_rule_env, dre_Any = list_ex id,
     dre_legacy = (\<lambda>_. None), dre_lru = ref_lru, dre_New = Map.empty, dre_Filter = filter,
     dre_Append = (\<lambda>a b. if a = None then b else a), dre_ErrDrop = EForeign ''drop'', dre_Errno = EForeign ''refused''\<rparr>"

definition demo_dns_rule :: "rule_item list \<Rightarrow> (addr \<Rightarrow> bool) option \<Rightarrow> DNSRuleAction \<Rightarrow> DNSRuleAction option abstractDefaultRule" where
  "demo_dns_rule is ips a =
     (let cidr = (case ips of None \<Rightarrow> [] | Some s \<Rightarrow> [IIPCIDR (NewRawIPCIDRItem False s)]) in
      \<lparr>items = is, sourceAddressItems = [], sourcePortItems = [], destinationAddressItems = [], destinationIPCIDRItems = cidr,
       destinationPortItems = [], allItems = is @ cidr, invert = False, action = Some a\<rparr>)"

definition demo_route_to :: "string \<Rightarrow> DNSRuleAction" where
  "demo_route_to server = RuleActionDNSRoute server
     \<lparr>dr_Strategy = 0, dr_DisableCache = False, dr_RewriteTTL = None, dr_ClientSubnet = (AddrNone, 0)\<rparr>"

definition demo_dns_router ::
    "(dns_msg \<Rightarrow> go_error + dns_msg) \<Rightarrow> DNSRuleAction option abstractDefaultRule list \<Rightarrow>
     (dns_Question \<rightharpoonup> dns_msg \<times> int option, transportCacheKey \<rightharpoonup> dns_msg \<times> int option, addr \<rightharpoonup> string \<times> int option, int) dns_router" where
  "demo_dns_router answer rs =
     (dns_NewRouter (demo_dns_env answer) (\<lambda>_. False)
        ((transport_NewManager [])\<lparr>byTag := [''dns'' \<mapsto> ref_transport], defaultObj := Some ref_transport\<rparr>)
        \<lparr>dno_Strategy = 0, dno_DisableCache = False, dno_DisableExpire = False, dno_IndependentCache = False, dno_CacheCapacity = 0,
         dno_ClientSubnet = (AddrNone, 0), dno_ReverseMapping = True\<rparr>)\<lparr>drt_rules := map DefaultRule rs\<rparr>"


theorem address_check_sticky_witness:
  "fst (responseCheck (demo_dns_env (ref_answer 300 [])) (DefaultRule (demo_dns_rule [] (Some (\<lambda>a. a = Addr4 10)) (demo_route_to ''dns'')))
     [Addr4 99] (snd (responseCheck (demo_dns_env (ref_answer 300 [])) (DefaultRule (demo_dns_rule [] (Some (\<lambda>a. a = Addr4 10)) (demo_route_to ''dns'')))
       [Addr4 10] (0, InboundContext_zero)))) \<and>
   \<not> fst (responseCheck (demo_dns_env (ref_answer 300 [])) (DefaultRule (demo_dns_rule [] (Some (\<lambda>a. a = Addr4 10)) (demo_route_to ''dns'')))
     [Addr4 99] (0, InboundContext_zero))"
proof
  let ?rule = "demo_dns_rule [] (Some (\<lambda>a. a = Addr4 10)) (demo_route_to ''dns'')"
  let ?check = "responseCheck (demo_dns_env (ref_answer 300 [])) (DefaultRule ?rule)"
  have "plain_rule ?rule" "items ?rule = []" "\<not> invert ?rule"
    by (simp_all add: demo_dns_rule_def plain_rule_def plain_groups_def Let_def)
  moreover have "?check [Addr4 10] (0, InboundContext_zero) = (True, snd (?check [Addr4 10] (0, InboundContext_zero)))"
    by (rule prod_eqI) (code_simp, simp)
  ultimately show "fst (?check [Addr4 99] (snd (?check [Addr4 10] (0, InboundContext_zero))))" by (rule address_check_sticky)
  show "\<not> fst (?check [Addr4 99] (0, InboundContext_zero))" by code_simp
qed

theorem reverse_mapping_after_exchange_witness:
  "\<exists>n \<ge> 0. \<forall>now \<le> n + 300 * 10 ^ 9. fst (LookupReverseMapping (demo_dns_env (ref_answer 300 [])) (Addr4 1) now
     (fst (snd (dns_router_Exchange (demo_dns_env (ref_answer 300 [])) ref_ctx (ref_query 7 []) DNSQueryOptions_zero
        (demo_dns_router (ref_answer 300 []) []) 0)))) = Some ''a''"
proof -
  let ?env = "demo_dns_env (ref_answer 300 [])"
  let ?r = "demo_dns_router (ref_answer 300 []) []"
  let ?x = "dns_router_Exchange ?env ref_ctx (ref_query 7 []) DNSQueryOptions_zero ?r 0"
  let ?rr = "fixed_rr ref_question TypeA 300 (RD_A (addr_AsSlice (Addr4 1)))"
  let ?resp = "FixedResponse 7 ref_question [Addr4 1] 300"
  have map: "mapping_ok ?env" by (simp add: mapping_ok_def demo_dns_env_def ref_lru_def)
  have clock: "clock_ok (dre_dns ?env) (world_clock (\<lambda>w. w))"
    by (simp add: clock_ok_def demo_dns_env_def over_env_def world_clock_def)
  have nf: "no_fakeip ?r" by (simp add: no_fakeip_def demo_dns_router_def dns_NewRouter_def transport_Default_def
      transport_NewManager_def ref_transport_def DNSTypeFakeIP_def)
  have opt: "qo_Transport DNSQueryOptions_zero = None" by (simp add: DNSQueryOptions_zero_def)
  have own: "drt_rules ?r = []" by (simp add: demo_dns_router_def)
  have m0: "drt_dnsReverseMapping ?r = Some Map.empty"
    by (simp add: demo_dns_router_def dns_NewRouter_def demo_dns_env_def)
  have "fst ?x = Ok (Some ?resp, None)" by code_simp
  then have ex: "?x = (Ok (Some ?resp, None), fst (snd ?x), snd (snd ?x))" by (simp add: prod_eq_iff)
  have ans: "msg_Answer ?resp = [] @ ?rr # []" by code_simp
  have rec: "address_record ?rr = Some (addr_AsSlice (Addr4 1))" by (simp add: address_record_def fixed_rr_def)
  have vals: "M_AddrFromIP (dre_dns ?env) (addr_AsSlice (Addr4 1)) = Addr4 1" "uint (rr_Ttl ?rr) = 300"
    "FqdnToDomain (dre_dns ?env) (h_Name (rr_Hdr ?rr)) = ''a''" by code_simp+
  from reverse_mapping_after_exchange [OF map clock nf _ _ m0 ex ans rec] opt own show ?thesis unfolding vals by simp
qed

end
