(* ===== verification/Badversion.thy ===== *)
theory Badversion
  imports Prelude
begin

text \<open>
  Version numbers (\<open>core/common/badversion/version.go\<close>) and the notes on deprecated features
  that compare with them (\<open>core/experimental/deprecated/constants.go\<close>, \<open>stderr.go\<close>).
  \<open>F.ToString\<close> of the foreign package \<open>format\<close> is the parameter \<open>F\<close>; \<open>format_ok\<close> says that
  it joins the decimal and literal forms of its arguments.
\<close>

section \<open>Versions\<close>

record Version =
  Major :: int
  Minor :: int
  Patch :: int
  Commit :: string
  PreReleaseIdentifier :: string
  PreReleaseVersion :: int

definition Version_zero :: Version where
  "Version_zero = \<lparr>Major = 0, Minor = 0, Patch = 0, Commit = [], PreReleaseIdentifier = [], PreReleaseVersion = 0\<rparr>"

definition Version_After :: "Version \<Rightarrow> Version \<Rightarrow> bool" where
  "Version_After v w =
     (if Major v > Major w then True else if Major v < Major w then False
      else if Minor v > Minor w then True else if Minor v < Minor w then False
      else if Patch v > Patch w then True else if Patch v < Patch w then False
      else
        let a = PreReleaseIdentifier v; b = PreReleaseIdentifier w in
        if a = [] \<and> b \<noteq> [] then True else if a \<noteq> [] \<and> b = [] then False
        else if a \<noteq> [] \<and> b \<noteq> [] then
          (if a = b then PreReleaseVersion v > PreReleaseVersion w
           else if a = ''rc'' \<and> b = ''beta'' then True
           else if a = ''beta'' \<and> b = ''rc'' then False
           else if a = ''beta'' \<and> b = ''alpha'' then True
           else False)
        else False)"

type_synonym to_string = "go_any list \<Rightarrow> string"

definition VersionString :: "to_string \<Rightarrow> Version \<Rightarrow> string" where
  "VersionString F v = F [AInt (Major v), AStr ''.'', AInt (Minor v), AStr ''.'', AInt (Patch v)]"

definition Version_String :: "to_string \<Rightarrow> Version \<Rightarrow> string" where
  "Version_String F v =
     (let version = F [AInt (Major v), AStr ''.'', AInt (Minor v), AStr ''.'', AInt (Patch v)] in
      if PreReleaseIdentifier v \<noteq> []
      then F [AStr version, AStr ''-'', AStr (PreReleaseIdentifier v), AStr ''.'', AInt (PreReleaseVersion v)]
      else version)"

definition BadString :: "to_string \<Rightarrow> Version \<Rightarrow> string" where
  "BadString F v =
     (let v1 = F [AInt (Major v), AStr ''.'', AInt (Minor v)];
          v2 = (if Patch v > 0 then F [AStr v1, AStr ''.'', AInt (Patch v)] else v1)
      in if PreReleaseIdentifier v \<noteq> []
         then (let v3 = F [AStr v2, AStr ''-'', AStr (PreReleaseIdentifier v)]
               in if PreReleaseVersion v > 0 then F [AStr v3, AInt (PreReleaseVersion v)] else v3)
         else v2)"

text \<open>The part of \<open>Parse\<close> behind the first hyphen, then the numbers before it.\<close>

definition parse_identifier :: "string \<Rightarrow> Version \<Rightarrow> Version" where
  "parse_identifier identifier version =
     (if strings_Contains identifier ''.'' then
        let parts = split_at CHR ''.'' identifier;
            v1 = version\<lparr>PreReleaseIdentifier := hd parts\<rparr>
        in if length parts \<ge> 2 then v1\<lparr>PreReleaseVersion := fst (strconv_Atoi (parts ! 1))\<rparr> else v1
      else if strings_HasPrefix identifier ''alpha'' then
        version\<lparr>PreReleaseIdentifier := ''alpha'', PreReleaseVersion := fst (strconv_Atoi (drop 5 identifier))\<rparr>
      else if strings_HasPrefix identifier ''beta'' then
        version\<lparr>PreReleaseIdentifier := ''beta'', PreReleaseVersion := fst (strconv_Atoi (drop 4 identifier))\<rparr>
      else version\<lparr>Commit := identifier\<rparr>)"

definition parse_numbers :: "string \<Rightarrow> Version \<Rightarrow> Version" where
  "parse_numbers versionName version =
     (let es = split_at CHR ''.'' versionName; n = length es;
          v1 = (if n \<ge> 1 then version\<lparr>Major := fst (strconv_Atoi (es ! 0))\<rparr> else version);
          v2 = (if n \<ge> 2 then v1\<lparr>Minor := fst (strconv_Atoi (es ! 1))\<rparr> else v1)
      in if n \<ge> 3 then v2\<lparr>Patch := fst (strconv_Atoi (es ! 2))\<rparr> else v2)"

definition Version_Parse :: "string \<Rightarrow> Version" where
  "Version_Parse s =
     (let versionName = (if strings_HasPrefix s ''v'' then tl s else s) in
      if strings_Contains versionName ''-''
      then (let parts = split_at CHR ''-'' versionName
            in parse_numbers (parts ! 0) (parse_identifier (parts ! 1) Version_zero))
      else parse_numbers versionName Version_zero)"

section \<open>Deprecated features\<close>

record Note =
  n_Name :: string
  n_Description :: string
  n_DeprecatedVersion :: string
  n_ScheduledVersion :: string
  n_EnvName :: string
  n_MigrationLink :: string

text \<open>
  \<open>semver\<close> is the foreign \<open>semver.IsValid\<close>; \<open>current\<close> is \<open>C.Version\<close>.  The difference of the
  minor numbers wraps at 64 bits like every \<open>int\<close> of the program.
\<close>

definition wrap64 :: "int \<Rightarrow> int" where
  "wrap64 i = sint (word_of_int i :: 64 word)"

definition Note_Impending :: "(string \<Rightarrow> bool) \<Rightarrow> string \<Rightarrow> Note \<Rightarrow> bool res" where
  "Note_Impending semver current n =
     (if n_ScheduledVersion n = [] then Ok False
      else if \<not> semver (''v'' @ current) then Ok False
      else
        let versionCurrent = Version_Parse current;
            versionMinor = wrap64 (Minor (Version_Parse (n_ScheduledVersion n)) - Minor versionCurrent)
        in if PreReleaseIdentifier versionCurrent = [] \<and> versionMinor < 0
           then Panic (''invalid deprecated note: '' @ n_Name n)
           else Ok (versionMinor \<le> 1))"

definition MessageWithLink :: "to_string \<Rightarrow> Note \<Rightarrow> string" where
  "MessageWithLink F n =
     (if n_MigrationLink n \<noteq> []
      then F [AStr (n_Description n), AStr '' is deprecated in sing-box '', AStr (n_DeprecatedVersion n),
              AStr '' and will be removed in sing-box '', AStr (n_ScheduledVersion n),
              AStr '', checkout documentation for migration: '', AStr (n_MigrationLink n)]
      else F [AStr (n_Description n), AStr '' is deprecated in sing-box '', AStr (n_DeprecatedVersion n),
              AStr '' and will be removed in sing-box '', AStr (n_ScheduledVersion n), AStr ''.''])"

datatype log_line = LWarn string | LError string | LFatal string

record stderrManager =
  sm_reported :: "string \<Rightarrow> bool"
  sm_log :: "log_line list"

definition NewStderrManager :: stderrManager where
  "NewStderrManager = \<lparr>sm_reported = (\<lambda>_. False), sm_log = []\<rparr>"

text \<open>\<open>enabled\<close> is the answer of \<open>strconv.ParseBool\<close> on the environment variable, \<open>None\<close> for an error.\<close>

definition ReportDeprecated ::
    "to_string \<Rightarrow> (string \<Rightarrow> bool) \<Rightarrow> string \<Rightarrow> (string \<Rightarrow> bool option) \<Rightarrow> Note \<Rightarrow> stderrManager \<Rightarrow> stderrManager \<times> unit res" where
  "ReportDeprecated F semver current enabled n m =
     (if sm_reported m (n_Name n) then (m, Ok ())
      else
        let m1 = m\<lparr>sm_reported := (sm_reported m)(n_Name n := True)\<rparr>;
            msg = MessageWithLink F n
        in case Note_Impending semver current n of
             Panic p \<Rightarrow> (m1, Panic p)
           | Err e \<Rightarrow> (m1, Err e)
           | Ok False \<Rightarrow> (m1\<lparr>sm_log := sm_log m1 @ [LWarn msg]\<rparr>, Ok ())
           | Ok True \<Rightarrow>
               if n_EnvName n \<noteq> [] then
                 (if enabled (''ENABLE_DEPRECATED_'' @ n_EnvName n) = Some True
                  then (m1\<lparr>sm_log := sm_log m1 @ [LWarn msg]\<rparr>, Ok ())
                  else (m1\<lparr>sm_log := sm_log m1 @ [LError msg,
                    LFatal (''to continuing using this feature, set environment variable ENABLE_DEPRECATED_'' @
                      n_EnvName n @ ''=true'')]\<rparr>, Ok ()))
               else (m1\<lparr>sm_log := sm_log m1 @ [LError msg]\<rparr>, Ok ()))"

section \<open>Printing and parsing\<close>

fun any_text :: "go_any \<Rightarrow> string" where
  "any_text (AStr s) = s"
| "any_text (AInt i) = strconv_Itoa i"
| "any_text (AErr e) = []"

definition format_ok :: "to_string \<Rightarrow> bool" where
  "format_ok F \<longleftrightarrow> (\<forall>xs. (\<forall>e. AErr e \<notin> set xs) \<longrightarrow> F xs = concat (map any_text xs))"

lemma Itoa_nonneg: "0 \<le> i \<Longrightarrow> strconv_Itoa i = utoa (nat i)"
  by (simp add: strconv_Itoa_def)

text \<open>A version as \<open>Parse\<close> is meant to give it: counters that fit, an identifier that is one word.\<close>

definition version_ok :: "Version \<Rightarrow> bool" where
  "version_ok v \<longleftrightarrow> (\<forall>i \<in> {Major v, Minor v, Patch v, PreReleaseVersion v}. 0 \<le> i \<and> i < 2 ^ 63) \<and>
     Commit v = [] \<and> CHR ''.'' \<notin> set (PreReleaseIdentifier v) \<and> CHR ''-'' \<notin> set (PreReleaseIdentifier v) \<and>
     (PreReleaseIdentifier v = [] \<longrightarrow> PreReleaseVersion v = 0)"

definition release_text :: "Version \<Rightarrow> string" where
  "release_text v = utoa (nat (Major v)) @ ''.'' @ utoa (nat (Minor v)) @ ''.'' @ utoa (nat (Patch v))"

lemma Version_String_text:
  assumes "format_ok F" and "version_ok v"
  shows "Version_String F v = release_text v @
    (if PreReleaseIdentifier v = [] then [] else ''-'' @ PreReleaseIdentifier v @ ''.'' @ utoa (nat (PreReleaseVersion v)))"
  using assms by (simp add: Version_String_def format_ok_def version_ok_def Itoa_nonneg release_text_def)

lemma release_text_seps: "CHR ''-'' \<notin> set (release_text v)" "CHR ''v'' \<notin> set (release_text v)" "release_text v \<noteq> []"
  by (auto simp: release_text_def utoa_no_sep)

lemma parse_release:
  assumes "version_ok v"
  shows "parse_numbers (release_text v) w = w\<lparr>Major := Major v, Minor := Minor v, Patch := Patch v\<rparr>"
proof -
  have "split_at CHR ''.'' (release_text v) = [utoa (nat (Major v)), utoa (nat (Minor v)), utoa (nat (Patch v))]"
    by (simp add: release_text_def split_at_append split_at_single utoa_no_sep)
  moreover have "fst (strconv_Atoi (utoa (nat i))) = i" if "0 \<le> i" "i < 2 ^ 63" for i
    using that Atoi_utoa [of "nat i"] by (simp add: nat_less_iff)
  ultimately show ?thesis using assms by (simp add: parse_numbers_def version_ok_def)
qed

lemma parse_pre_release:
  assumes "version_ok v"
  shows "parse_identifier (PreReleaseIdentifier v @ ''.'' @ utoa (nat (PreReleaseVersion v))) Version_zero =
    Version_zero\<lparr>PreReleaseIdentifier := PreReleaseIdentifier v, PreReleaseVersion := PreReleaseVersion v\<rparr>"
  using assms Atoi_utoa [of "nat (PreReleaseVersion v)"]
  by (simp add: parse_identifier_def strings_Contains_char split_at_append split_at_single utoa_no_sep version_ok_def
    nat_less_iff)

text \<open>
  A version that is printed is parsed back, with and without the leading v of a tag: the counters, the
  pre-release identifier and its number are those of the version.
\<close>

theorem version_roundtrip:
  assumes "format_ok F" and "version_ok v"
  shows "Version_Parse (Version_String F v) = v \<and> Version_Parse (''v'' @ Version_String F v) = v"
proof -
  let ?t = "Version_String F v"
  have "\<not> strings_HasPrefix ?t ''v''"
    using release_text_seps(2,3) [of v] by (cases "release_text v") (auto simp: Version_String_text [OF assms])
  then have tag: "Version_Parse (''v'' @ ?t) = Version_Parse ?t" by (auto simp: Version_Parse_def)
  have "Version_Parse ?t = v"
  proof (cases "PreReleaseIdentifier v = []")
    case True
    then have t: "?t = release_text v" by (simp add: Version_String_text [OF assms])
    show ?thesis
      using \<open>\<not> strings_HasPrefix ?t ''v''\<close> True assms(2) release_text_seps(1) [of v]
      by (simp add: t Version_Parse_def strings_Contains_char parse_release [OF assms(2)] Version_zero_def version_ok_def
        del: strings_HasPrefix_single)
  next
    case False
    have "split_at CHR ''-'' ?t = [release_text v, PreReleaseIdentifier v @ ''.'' @ utoa (nat (PreReleaseVersion v))]"
      "strings_Contains ?t ''-''"
      using False assms(2) release_text_seps(1) [of v]
      by (simp_all add: strings_Contains_char Version_String_text [OF assms] split_at_append split_at_single utoa_no_sep version_ok_def)
    then show ?thesis
      using \<open>\<not> strings_HasPrefix ?t ''v''\<close> assms(2) parse_pre_release [OF assms(2)]
      by (simp add: Version_Parse_def parse_release [OF assms(2)] Version_zero_def version_ok_def
        del: strings_HasPrefix_single)
  qed
  with tag show ?thesis by simp
qed

lemma digit_texts:
  "digit_chr 1 = CHR ''1''" "digit_chr (Suc 0) = CHR ''1''" "digit_chr 2 = CHR ''2''" "digit_chr 3 = CHR ''3''" "digit_chr 7 = CHR ''7''"
  by code_simp+

theorem version_roundtrip_witness:
  "Version_Parse ''1.12.3-beta.7'' = \<lparr>Major = 1, Minor = 12, Patch = 3, Commit = [], PreReleaseIdentifier = ''beta'', PreReleaseVersion = 7\<rparr>"
proof -
  let ?F = "\<lambda>xs. concat (map any_text xs)"
  let ?v = "\<lparr>Major = 1, Minor = 12, Patch = 3, Commit = [], PreReleaseIdentifier = ''beta'', PreReleaseVersion = 7\<rparr> :: Version"
  have "format_ok ?F" by (simp add: format_ok_def)
  moreover have "version_ok ?v" by (simp add: version_ok_def)
  ultimately have "Version_Parse (Version_String ?F ?v) = ?v" using version_roundtrip by blast
  moreover have "Version_String ?F ?v = ''1.12.3-beta.7''"
    by (simp add: Version_String_def strconv_Itoa_def utoa.simps digit_texts)
  ultimately show ?thesis by simp
qed

section \<open>The order\<close>

text \<open>
  The intended order: the three counters, then a release after its pre-releases, then the
  identifier, then its number.
\<close>

fun identifier_rank :: "string \<Rightarrow> nat" where
  "identifier_rank s = (if s = [] then 3 else if s = ''rc'' then 2 else if s = ''beta'' then 1 else 0)"

definition known_identifier :: "Version \<Rightarrow> bool" where
  "known_identifier v \<longleftrightarrow> PreReleaseIdentifier v \<in> {[], ''rc'', ''beta'', ''alpha''} \<and>
     (PreReleaseIdentifier v = [] \<longrightarrow> PreReleaseVersion v = 0)"

definition version_key :: "Version \<Rightarrow> int list" where
  "version_key v = [Major v, Minor v, Patch v, int (identifier_rank (PreReleaseIdentifier v)), PreReleaseVersion v]"

fun lex_greater :: "int list \<Rightarrow> int list \<Rightarrow> bool" where
  "lex_greater (x # xs) (y # ys) = (x > y \<or> x = y \<and> lex_greater xs ys)"
| "lex_greater _ _ = False"

text \<open>
  After compares like the lexicographic order of counters, rank of the identifier and its
  number, for all versions with the identifiers the program uses, with one exception: a release candidate
  is not after an alpha version of the same release.  In particular the relation is not transitive.
\<close>

theorem After_order:
  assumes "known_identifier v" and "known_identifier w"
  shows "Version_After v w \<longleftrightarrow> lex_greater (version_key v) (version_key w) \<and>
    \<not> (Major v = Major w \<and> Minor v = Minor w \<and> Patch v = Patch w \<and>
       PreReleaseIdentifier v = ''rc'' \<and> PreReleaseIdentifier w = ''alpha'')"
  using assms by (auto simp: Version_After_def version_key_def known_identifier_def)

lemmas parse_eval = Version_Parse_def parse_numbers_def parse_identifier_def strings_Contains_def Version_zero_def
  strconv_Atoi_def atoi_sign_def digit_val_def

theorem After_order_witness:
  "Version_After (Version_Parse ''1.3.0-rc.1'') (Version_Parse ''1.3.0-beta.4'') \<and>
   Version_After (Version_Parse ''1.3.0-beta.4'') (Version_Parse ''1.3.0-alpha.9'') \<and>
   \<not> Version_After (Version_Parse ''1.3.0-rc.1'') (Version_Parse ''1.3.0-alpha.9'')"
proof -
  have p: "Version_Parse ''1.3.0-rc.1'' = \<lparr>Major = 1, Minor = 3, Patch = 0, Commit = [], PreReleaseIdentifier = ''rc'', PreReleaseVersion = 1\<rparr>"
    "Version_Parse ''1.3.0-beta.4'' = \<lparr>Major = 1, Minor = 3, Patch = 0, Commit = [], PreReleaseIdentifier = ''beta'', PreReleaseVersion = 4\<rparr>"
    "Version_Parse ''1.3.0-alpha.9'' = \<lparr>Major = 1, Minor = 3, Patch = 0, Commit = [], PreReleaseIdentifier = ''alpha'', PreReleaseVersion = 9\<rparr>"
    by (simp_all add: parse_eval)
  show ?thesis unfolding p by (simp add: After_order known_identifier_def version_key_def)
qed

lemma After_irrefl: "\<not> Version_After v v"
  by (simp add: Version_After_def)

lemma After_asym: "Version_After v w \<Longrightarrow> \<not> Version_After w v"
  by (auto simp: Version_After_def Let_def split: if_splits)

text \<open>
  The form with a dot is parsed for every identifier, the form without it only for alpha and
  beta: \<open>rc1\<close> is taken for a commit, and the version for the release itself.
\<close>

lemma rc_without_dot:
  "Version_Parse ''1.3.0-rc1'' = Version_zero\<lparr>Major := 1, Minor := 3, Commit := ''rc1''\<rparr>"
  "\<not> Version_After (Version_Parse ''1.3.0'') (Version_Parse ''1.3.0-rc1'')"
  "Version_After (Version_Parse ''1.3.0'') (Version_Parse ''1.3.0-rc.1'')"
  by (simp_all add: parse_eval Version_After_def)

section \<open>Reports\<close>

text \<open>A feature is reported at most once, and the first report writes its message.\<close>

lemma report_once:
  assumes "ReportDeprecated F semver current enabled n m = (m', r)" and "n_Name n' = n_Name n"
  shows "ReportDeprecated F semver current enabled n' m' = (m', Ok ())"
  using assms by (auto simp: ReportDeprecated_def Let_def split: if_splits res.splits bool.splits)

lemma report_first:
  assumes "\<not> sm_reported m (n_Name n)" and "Note_Impending semver current n = Ok b"
  shows "\<exists>l ls. sm_log (fst (ReportDeprecated F semver current enabled n m)) = sm_log m @ l # ls \<and>
    l \<in> {LWarn (MessageWithLink F n), LError (MessageWithLink F n)}"
  using assms by (auto simp: ReportDeprecated_def Let_def split: bool.splits)

text \<open>
  Only the minor numbers are compared: after a new major version a note scheduled for a later
  minor number of the old one is not impending.
\<close>

lemma impending_ignores_major:
  "Note_Impending (\<lambda>_. True) ''2.0.0'' \<lparr>n_Name = ''x'', n_Description = [], n_DeprecatedVersion = ''1.12.0'',
     n_ScheduledVersion = ''1.14.0'', n_EnvName = [], n_MigrationLink = []\<rparr> = Ok False"
  by (simp add: Note_Impending_def parse_eval wrap64_def)

end
