(* ===== verification/Srs.thy ===== *)
theory Srs
  imports Rule_Build Netip
begin

text \<open>
  The binary format of rule sets (\<open>core/common/srs/binary.go\<close>, \<open>ip_set.go\<close>).  A reader is a function on
  the bytes that are left; \<open>rd_end\<close> is the error that a read behind them gives.  Nested rules are
  read with fuel, \<open>None\<close> is the value of a reader that ran out of it.  A writer
  gives the bytes it writes.  The packages \<open>varbin\<close>, \<open>domain\<close>, \<open>netipx\<close>, \<open>metadata\<close> and \<open>zlib\<close> are fields of \<open>srs_env\<close>;
  \<open>se_max\<close> is the largest number of elements that \<open>make\<close> can allocate.
\<close>

section \<open>Readers\<close>

record rd =
  rd_data :: string
  rd_end :: go_error

type_synonym 'a reader = "rd \<Rightarrow> ('a \<times> rd) res option"

definition ioEOF :: go_error where "ioEOF = EForeign ''EOF''"
definition ioErrUnexpectedEOF :: go_error where "ioErrUnexpectedEOF = EForeign ''unexpected EOF''"

definition retP :: "'a \<Rightarrow> 'a reader" where
  "retP x r = Some (Ok (x, r))"

definition failP :: "go_error \<Rightarrow> 'a reader" where
  "failP e r = Some (Err e)"

definition bindP :: "'a reader \<Rightarrow> ('a \<Rightarrow> 'b reader) \<Rightarrow> 'b reader" where
  "bindP p f r =
     (case p r of
        None \<Rightarrow> None
      | Some (Ok (x, r')) \<Rightarrow> f x r'
      | Some (Err e) \<Rightarrow> Some (Err e)
      | Some (Panic s) \<Rightarrow> Some (Panic s))"

definition causeP :: "go_any list \<Rightarrow> 'a reader \<Rightarrow> 'a reader" where
  "causeP msg p r = (case p r of Some (Err e) \<Rightarrow> Some (Err (ECause e msg)) | x \<Rightarrow> x)"

text \<open>A foreign reader always returns.\<close>

definition foreignP :: "(rd \<Rightarrow> ('a \<times> rd) res) \<Rightarrow> 'a reader" where
  "foreignP p r = Some (p r)"

text \<open>\<open>io.ReadFull\<close>, and \<open>binary.Read\<close> and \<open>ReadByte\<close> by it.\<close>

definition read_full_n :: "nat \<Rightarrow> string reader" where
  "read_full_n n r =
     (if n \<le> length (rd_data r) then Some (Ok (take n (rd_data r), r\<lparr>rd_data := drop n (rd_data r)\<rparr>))
      else if rd_data r = [] \<or> rd_end r \<noteq> ioEOF then Some (Err (rd_end r))
      else Some (Err ioErrUnexpectedEOF))"

definition read_uint8 :: "nat reader" where
  "read_uint8 = bindP (read_full_n 1) (\<lambda>b. retP (be_value b))"

definition read_bool :: "bool reader" where
  "read_bool = bindP read_uint8 (\<lambda>b. retP (b \<noteq> 0))"

definition read_uint64 :: "nat reader" where
  "read_uint64 = bindP (read_full_n 8) (\<lambda>b. retP (be_value b))"

text \<open>
  \<open>binary.ReadUvarint\<close>: seven bits a byte, the low ones first; \<open>i\<close> counts the bytes read and \<open>left\<close> those
  that may follow.
\<close>

primrec uvarint_loop :: "nat \<Rightarrow> nat \<Rightarrow> nat \<Rightarrow> nat reader" where
  "uvarint_loop 0 i x = failP (EForeign ''binary: varint overflows a 64-bit integer'')"
| "uvarint_loop (Suc left) i x = (\<lambda>r.
     case rd_data r of
       [] \<Rightarrow> Some (Err (if i > 0 \<and> rd_end r = ioEOF then ioErrUnexpectedEOF else rd_end r))
     | c # cs \<Rightarrow>
         let b = of_char c; r' = r\<lparr>rd_data := cs\<rparr> in
         if b < 128
         then (if left = 0 \<and> b > 1 then failP (EForeign ''binary: varint overflows a 64-bit integer'') r'
               else retP (x + b * 128 ^ i) r')
         else uvarint_loop left (Suc i) (x + (b - 128) * 128 ^ i) r')"

definition ReadUvarint :: "nat reader" where
  "ReadUvarint = uvarint_loop 10 0 0"

section \<open>The environment\<close>

text \<open>\<open>'m\<close> is \<open>domain.Matcher\<close>, \<open>'g\<close> is \<open>domain.AdGuardMatcher\<close>.  A set of addresses is the list of its ranges, as the type \<open>myIPSet\<close> has it.\<close>

record ('m, 'g) srs_env =
  se_max :: nat
  se_compress :: "string \<Rightarrow> string"
  se_zlib :: "string \<Rightarrow> (string \<times> go_error) res"
  se_WriteUvarint :: "nat \<Rightarrow> string"
  se_WriteStrings :: "string list \<Rightarrow> string res"
  se_ReadStrings :: "rd \<Rightarrow> (string list \<times> rd) res"
  se_WriteUint16s :: "16 word list \<Rightarrow> string res"
  se_ReadUint16s :: "rd \<Rightarrow> (16 word list \<times> rd) res"
  se_WriteUint8s :: "nat list \<Rightarrow> string res"
  se_ReadUint8s :: "rd \<Rightarrow> (nat list \<times> rd) res"
  se_WriteRange :: "string \<times> string \<Rightarrow> string res"
  se_ReadRanges :: "nat \<Rightarrow> rd \<Rightarrow> ((string \<times> string) list \<times> rd) res"
  se_NewMatcher :: "string list \<Rightarrow> string list \<Rightarrow> bool \<Rightarrow> 'm"
  se_matcher_Write :: "'m \<Rightarrow> string res"
  se_ReadMatcher :: "rd \<Rightarrow> ('m \<times> rd) res"
  se_matcher_Dump :: "'m \<Rightarrow> string list \<times> string list"
  se_matcher_Match :: "'m \<Rightarrow> string \<Rightarrow> bool"
  se_NewAdGuardMatcher :: "string list \<Rightarrow> 'g"
  se_adguard_Write :: "'g \<Rightarrow> string res"
  se_ReadAdGuardMatcher :: "rd \<Rightarrow> ('g \<times> rd) res"
  se_adguard_Dump :: "'g \<Rightarrow> string list"
  se_adguard_Match :: "'g \<Rightarrow> string \<Rightarrow> bool"
  se_ParsePrefix :: "string \<Rightarrow> go_error + prefix"
  se_ParseAddr :: "string \<Rightarrow> go_error + addr"
  se_BuildSet :: "(prefix + addr) list \<Rightarrow> go_error + (addr \<times> addr) list"
  se_SetContains :: "(addr \<times> addr) list \<Rightarrow> addr \<Rightarrow> bool"
  se_SetPrefixes :: "(addr \<times> addr) list \<Rightarrow> string list"
  se_AddrFromIP :: "string \<Rightarrow> addr"

definition make_slice :: "('m, 'g) srs_env \<Rightarrow> nat \<Rightarrow> unit reader" where
  "make_slice E n r = (if n \<le> se_max E then Some (Ok ((), r)) else Some (Panic ''makeslice: len out of range''))"

section \<open>Constants\<close>

definition MagicBytes :: string where "MagicBytes = ''SRS''"
definition RuleSetVersion1 :: nat where "RuleSetVersion1 = 1"
definition RuleSetVersion2 :: nat where "RuleSetVersion2 = 2"
definition RuleSetVersion3 :: nat where "RuleSetVersion3 = 3"
definition RuleSetVersionCurrent :: nat where "RuleSetVersionCurrent = RuleSetVersion3"

definition ruleItemQueryType :: nat where "ruleItemQueryType = 0"
definition ruleItemNetwork :: nat where "ruleItemNetwork = 1"
definition ruleItemDomain :: nat where "ruleItemDomain = 2"
definition ruleItemDomainKeyword :: nat where "ruleItemDomainKeyword = 3"
definition ruleItemDomainRegex :: nat where "ruleItemDomainRegex = 4"
definition ruleItemSourceIPCIDR :: nat where "ruleItemSourceIPCIDR = 5"
definition ruleItemIPCIDR :: nat where "ruleItemIPCIDR = 6"
definition ruleItemSourcePort :: nat where "ruleItemSourcePort = 7"
definition ruleItemSourcePortRange :: nat where "ruleItemSourcePortRange = 8"
definition ruleItemPort :: nat where "ruleItemPort = 9"
definition ruleItemPortRange :: nat where "ruleItemPortRange = 10"
definition ruleItemProcessName :: nat where "ruleItemProcessName = 11"
definition ruleItemProcessPath :: nat where "ruleItemProcessPath = 12"
definition ruleItemPackageName :: nat where "ruleItemPackageName = 13"
definition ruleItemWIFISSID :: nat where "ruleItemWIFISSID = 14"
definition ruleItemWIFIBSSID :: nat where "ruleItemWIFIBSSID = 15"
definition ruleItemAdGuardDomain :: nat where "ruleItemAdGuardDomain = 16"
definition ruleItemProcessPathRegex :: nat where "ruleItemProcessPathRegex = 17"
definition ruleItemNetworkType :: nat where "ruleItemNetworkType = 18"
definition ruleItemNetworkIsExpensive :: nat where "ruleItemNetworkIsExpensive = 19"
definition ruleItemNetworkIsConstrained :: nat where "ruleItemNetworkIsConstrained = 20"
definition ruleItemFinal :: nat where "ruleItemFinal = 255"

lemmas srs_consts = ruleItemQueryType_def ruleItemNetwork_def ruleItemDomain_def ruleItemDomainKeyword_def
  ruleItemDomainRegex_def ruleItemSourceIPCIDR_def ruleItemIPCIDR_def ruleItemSourcePort_def
  ruleItemSourcePortRange_def ruleItemPort_def ruleItemPortRange_def ruleItemProcessName_def
  ruleItemProcessPath_def ruleItemPackageName_def ruleItemWIFISSID_def ruleItemWIFIBSSID_def
  ruleItemAdGuardDomain_def ruleItemProcessPathRegex_def ruleItemNetworkType_def
  ruleItemNetworkIsExpensive_def ruleItemNetworkIsConstrained_def ruleItemFinal_def

fun interface_byte :: "InterfaceType \<Rightarrow> nat" where
  "interface_byte InterfaceTypeWIFI = 0"
| "interface_byte InterfaceTypeCellular = 1"
| "interface_byte InterfaceTypeEthernet = 2"
| "interface_byte InterfaceTypeOther = 3"
| "interface_byte (InterfaceTypeByte n) = n"

definition byte_interface :: "nat \<Rightarrow> InterfaceType" where
  "byte_interface n = (if n = 0 then InterfaceTypeWIFI else if n = 1 then InterfaceTypeCellular
     else if n = 2 then InterfaceTypeEthernet else if n = 3 then InterfaceTypeOther else InterfaceTypeByte n)"

section \<open>Sets of addresses\<close>

definition readIPSet :: "('m, 'g) srs_env \<Rightarrow> (addr \<times> addr) list reader" where
  "readIPSet E =
     bindP read_uint8 (\<lambda>version.
     if version \<noteq> 1 then failP ErrInvalid
     else bindP read_uint64 (\<lambda>length.
       bindP (make_slice E length) (\<lambda>_.
       bindP (foreignP (se_ReadRanges E length)) (\<lambda>ranges.
       retP (map (\<lambda>(from, to). (se_AddrFromIP E from, se_AddrFromIP E to)) ranges)))))"

text \<open>Writers in sequence; the first error ends the sequence.\<close>

fun seqW :: "string res list \<Rightarrow> string res" where
  "seqW [] = Ok []"
| "seqW (x # xs) = bindR x (\<lambda>a. bindR (seqW xs) (\<lambda>b. Ok (a @ b)))"

definition byteW :: "nat \<Rightarrow> string res" where
  "byteW n = Ok (be_bytes 1 n)"

definition boolW :: "bool \<Rightarrow> string res" where
  "boolW b = byteW (if b then 1 else 0)"

definition writeIPSet :: "('m, 'g) srs_env \<Rightarrow> (addr \<times> addr) list \<Rightarrow> string res" where
  "writeIPSet E rr =
     (let dataList = map (\<lambda>(from, to). (addr_AsSlice from, addr_AsSlice to)) rr in
      seqW ([byteW 1, Ok (be_bytes 8 (length dataList))] @ map (se_WriteRange E) dataList))"

section \<open>Reading\<close>

definition setP :: "(rd \<Rightarrow> ('v \<times> rd) res) \<Rightarrow> ('v \<Rightarrow> headless_options) \<Rightarrow> headless_options reader" where
  "setP p upd = bindP (foreignP p) (\<lambda>v. retP (upd v))"

definition read_item ::
    "('m, 'g) srs_env \<Rightarrow> bool \<Rightarrow> nat \<Rightarrow> nat \<Rightarrow> headless_options \<Rightarrow> headless_options reader" where
  "read_item E rec itemType lastItemType rule =
     (if itemType = ruleItemQueryType then setP (se_ReadUint16s E) (\<lambda>v. rule\<lparr>o_QueryType := v\<rparr>)
      else if itemType = ruleItemNetwork then setP (se_ReadStrings E) (\<lambda>v. rule\<lparr>o_Network := v\<rparr>)
      else if itemType = ruleItemDomain then
        setP (se_ReadMatcher E) (\<lambda>m. let r1 = rule\<lparr>o_DomainMatcher := Some (se_matcher_Match E m)\<rparr> in
          if rec then r1\<lparr>o_Domain := fst (se_matcher_Dump E m), o_DomainSuffix := snd (se_matcher_Dump E m)\<rparr> else r1)
      else if itemType = ruleItemDomainKeyword then setP (se_ReadStrings E) (\<lambda>v. rule\<lparr>o_DomainKeyword := v\<rparr>)
      else if itemType = ruleItemDomainRegex then setP (se_ReadStrings E) (\<lambda>v. rule\<lparr>o_DomainRegex := v\<rparr>)
      else if itemType = ruleItemSourceIPCIDR then
        bindP (readIPSet E) (\<lambda>s. let r1 = rule\<lparr>o_SourceIPSet := Some (se_SetContains E s)\<rparr> in
          retP (if rec then r1\<lparr>o_SourceIPCIDR := se_SetPrefixes E s\<rparr> else r1))
      else if itemType = ruleItemIPCIDR then
        bindP (readIPSet E) (\<lambda>s. let r1 = rule\<lparr>o_IPSet := Some (se_SetContains E s)\<rparr> in
          retP (if rec then r1\<lparr>o_IPCIDR := se_SetPrefixes E s\<rparr> else r1))
      else if itemType = ruleItemSourcePort then setP (se_ReadUint16s E) (\<lambda>v. rule\<lparr>o_SourcePort := v\<rparr>)
      else if itemType = ruleItemSourcePortRange then setP (se_ReadStrings E) (\<lambda>v. rule\<lparr>o_SourcePortRange := v\<rparr>)
      else if itemType = ruleItemPort then setP (se_ReadUint16s E) (\<lambda>v. rule\<lparr>o_Port := v\<rparr>)
      else if itemType = ruleItemPortRange then setP (se_ReadStrings E) (\<lambda>v. rule\<lparr>o_PortRange := v\<rparr>)
      else if itemType = ruleItemProcessName then setP (se_ReadStrings E) (\<lambda>v. rule\<lparr>o_ProcessName := v\<rparr>)
      else if itemType = ruleItemProcessPath then setP (se_ReadStrings E) (\<lambda>v. rule\<lparr>o_ProcessPath := v\<rparr>)
      else if itemType = ruleItemProcessPathRegex then setP (se_ReadStrings E) (\<lambda>v. rule\<lparr>o_ProcessPathRegex := v\<rparr>)
      else if itemType = ruleItemPackageName then setP (se_ReadStrings E) (\<lambda>v. rule\<lparr>o_PackageName := v\<rparr>)
      else if itemType = ruleItemWIFISSID then setP (se_ReadStrings E) (\<lambda>v. rule\<lparr>o_WIFISSID := v\<rparr>)
      else if itemType = ruleItemWIFIBSSID then setP (se_ReadStrings E) (\<lambda>v. rule\<lparr>o_WIFIBSSID := v\<rparr>)
      else if itemType = ruleItemAdGuardDomain then
        setP (se_ReadAdGuardMatcher E) (\<lambda>m. let r1 = rule\<lparr>o_AdGuardDomainMatcher := Some (se_adguard_Match E m)\<rparr> in
          if rec then r1\<lparr>o_AdGuardDomain := se_adguard_Dump E m\<rparr> else r1)
      else if itemType = ruleItemNetworkType then
        setP (se_ReadUint8s E) (\<lambda>v. rule\<lparr>o_NetworkType := map byte_interface v\<rparr>)
      else if itemType = ruleItemNetworkIsExpensive then retP (rule\<lparr>o_NetworkIsExpensive := True\<rparr>)
      else if itemType = ruleItemNetworkIsConstrained then retP (rule\<lparr>o_NetworkIsConstrained := True\<rparr>)
      else failP (ENew [AStr ''unknown rule item type: '', AInt (int itemType), AStr '', last type: '', AInt (int lastItemType)]))"

primrec readDefaultRule ::
    "nat \<Rightarrow> ('m, 'g) srs_env \<Rightarrow> bool \<Rightarrow> nat \<Rightarrow> headless_options \<Rightarrow> headless_options reader" where
  "readDefaultRule 0 E rec lastItemType rule = (\<lambda>r. None)"
| "readDefaultRule (Suc n) E rec lastItemType rule =
     bindP read_uint8 (\<lambda>itemType.
       if itemType = ruleItemFinal then bindP read_bool (\<lambda>b. retP (rule\<lparr>o_Invert := b\<rparr>))
       else bindP (read_item E rec itemType lastItemType rule) (\<lambda>rule'. readDefaultRule n E rec itemType rule'))"

text \<open>
  \<open>readRule\<close>, \<open>readLogicalRule\<close> and the loop over the rules that \<open>readLogicalRule\<close> and \<open>Read\<close> share; \<open>msg\<close> is the
  text of the error for a position.
\<close>

fun readRule :: "nat \<Rightarrow> ('m, 'g) srs_env \<Rightarrow> bool \<Rightarrow> headless_options rule_options reader"
  and readLogicalRule :: "nat \<Rightarrow> ('m, 'g) srs_env \<Rightarrow> bool \<Rightarrow> headless_options rule_options reader"
  and read_rules ::
    "nat \<Rightarrow> ('m, 'g) srs_env \<Rightarrow> bool \<Rightarrow> string \<Rightarrow> nat \<Rightarrow> nat \<Rightarrow> headless_options rule_options list reader" where
  "readRule 0 E rec = (\<lambda>r. None)"
| "readRule (Suc n) E rec =
     bindP read_uint8 (\<lambda>ruleType.
       if ruleType = 0 then bindP (readDefaultRule n E rec 0 empty_headless) (\<lambda>o'. retP (DefaultOptions o'))
       else if ruleType = 1 then readLogicalRule n E rec
       else failP (ENew [AStr ''unknown rule type: '', AInt (int ruleType)]))"
| "readLogicalRule 0 E rec = (\<lambda>r. None)"
| "readLogicalRule (Suc n) E rec =
     bindP read_uint8 (\<lambda>m.
       if m \<noteq> 0 \<and> m \<noteq> 1 then failP (ENew [AStr ''unknown logical mode: '', AInt (int m)])
       else
         bindP ReadUvarint (\<lambda>length.
         bindP (make_slice E length) (\<lambda>_.
         bindP (read_rules n E rec ''read logical rule ['' 0 length) (\<lambda>rules.
         bindP read_bool (\<lambda>b.
         retP (LogicalOptions rules (if m = 0 then LogicalTypeAnd else LogicalTypeOr) b))))))"
| "read_rules 0 E rec msg i k = (\<lambda>r. None)"
| "read_rules (Suc n) E rec msg i k =
     (if k = 0 then retP []
      else bindP (causeP [AStr msg, AInt (int i), AStr '']''] (readRule n E rec)) (\<lambda>x.
           bindP (read_rules n E rec msg (i + 1) (k - 1)) (\<lambda>xs. retP (x # xs))))"

record PlainRuleSetCompat =
  prs_Version :: nat
  prs_Rules :: "headless_options rule_options list"

text \<open>
  \<open>Read\<close>; the fuel is enough for the decompressed bytes (shown below).  What is behind the zlib
  header is read in one piece: \<open>se_zlib\<close> gives the bytes that come out and the error at their end.
\<close>

definition srs_Read :: "('m, 'g) srs_env \<Rightarrow> rd \<Rightarrow> bool \<Rightarrow> PlainRuleSetCompat res option" where
  "srs_Read E r0 rec =
     (case bindP (read_full_n 3) (\<lambda>magicBytes.
             if magicBytes \<noteq> MagicBytes then failP (ENew [AStr ''invalid sing-box rule-set file''])
             else bindP read_uint8 (\<lambda>version.
               if version > RuleSetVersionCurrent then failP (ENew [AStr ''unsupported version: '', AInt (int version)])
               else retP version)) r0 of
        None \<Rightarrow> None
      | Some (Err e) \<Rightarrow> Some (Err e)
      | Some (Panic p) \<Rightarrow> Some (Panic p)
      | Some (Ok (version, r1)) \<Rightarrow>
          (case se_zlib E (rd_data r1) of
             Err e \<Rightarrow> Some (Err e)
           | Panic p \<Rightarrow> Some (Panic p)
           | Ok (bs, e) \<Rightarrow>
               map_option (\<lambda>x. bindR x (\<lambda>(rules, _). Ok \<lparr>prs_Version = version, prs_Rules = rules\<rparr>))
                 (bindP ReadUvarint (\<lambda>length.
                  bindP (make_slice E length) (\<lambda>_.
                  read_rules (2 * List.length bs + 2) E rec ''read rule['' 0 length)) \<lparr>rd_data = bs, rd_end = e\<rparr>)))"

section \<open>Writing\<close>

definition writeRuleItemString :: "('m, 'g) srs_env \<Rightarrow> nat \<Rightarrow> string list \<Rightarrow> string res" where
  "writeRuleItemString E itemType v = seqW [byteW itemType, se_WriteStrings E v]"

definition writeRuleItemUint8 :: "('m, 'g) srs_env \<Rightarrow> nat \<Rightarrow> nat list \<Rightarrow> string res" where
  "writeRuleItemUint8 E itemType v = seqW [byteW itemType, se_WriteUint8s E v]"

definition writeRuleItemUint16 :: "('m, 'g) srs_env \<Rightarrow> nat \<Rightarrow> 16 word list \<Rightarrow> string res" where
  "writeRuleItemUint16 E itemType v = seqW [byteW itemType, se_WriteUint16s E v]"

fun build_prefixes :: "('m, 'g) srs_env \<Rightarrow> nat \<Rightarrow> string list \<Rightarrow> go_error + (prefix + addr) list" where
  "build_prefixes E i [] = Inr []"
| "build_prefixes E i (x # xs) =
     (case se_ParsePrefix E x of
        Inr p \<Rightarrow> bindE (build_prefixes E (i + 1) xs) (\<lambda>ps. Inr (Inl p # ps))
      | Inl e \<Rightarrow>
          (case se_ParseAddr E x of
             Inr a \<Rightarrow> bindE (build_prefixes E (i + 1) xs) (\<lambda>ps. Inr (Inr a # ps))
           | Inl _ \<Rightarrow> Inl (ECause e [AStr ''parse ['', AInt (int i), AStr '']''])))"

definition writeRuleItemCIDR :: "('m, 'g) srs_env \<Rightarrow> nat \<Rightarrow> string list \<Rightarrow> string res" where
  "writeRuleItemCIDR E itemType v =
     (case bindE (build_prefixes E 0 v) (se_BuildSet E) of
        Inl e \<Rightarrow> Err e
      | Inr built \<Rightarrow> seqW [byteW itemType, writeIPSet E built])"

definition optW :: "bool \<Rightarrow> string res \<Rightarrow> string res" where
  "optW b x = (if b then x else Ok [])"

definition causeW :: "string \<Rightarrow> string res \<Rightarrow> string res" where
  "causeW s x = (case x of Err e \<Rightarrow> Err (ECause e [AStr s]) | _ \<Rightarrow> x)"

definition writeDefaultRule :: "('m, 'g) srs_env \<Rightarrow> headless_options \<Rightarrow> nat \<Rightarrow> string res" where
  "writeDefaultRule E rule generateVersion =
     seqW
      [byteW 0,
       optW (o_QueryType rule \<noteq> []) (writeRuleItemUint16 E ruleItemQueryType (o_QueryType rule)),
       optW (o_Network rule \<noteq> []) (writeRuleItemString E ruleItemNetwork (o_Network rule)),
       optW (o_Domain rule \<noteq> [] \<or> o_DomainSuffix rule \<noteq> [])
         (seqW [byteW ruleItemDomain,
            se_matcher_Write E (se_NewMatcher E (o_Domain rule) (o_DomainSuffix rule) (generateVersion = RuleSetVersion1))]),
       optW (o_DomainKeyword rule \<noteq> []) (writeRuleItemString E ruleItemDomainKeyword (o_DomainKeyword rule)),
       optW (o_DomainRegex rule \<noteq> []) (writeRuleItemString E ruleItemDomainRegex (o_DomainRegex rule)),
       optW (o_SourceIPCIDR rule \<noteq> [])
         (causeW ''source_ip_cidr'' (writeRuleItemCIDR E ruleItemSourceIPCIDR (o_SourceIPCIDR rule))),
       optW (o_IPCIDR rule \<noteq> []) (causeW ''ipcidr'' (writeRuleItemCIDR E ruleItemIPCIDR (o_IPCIDR rule))),
       optW (o_SourcePort rule \<noteq> []) (writeRuleItemUint16 E ruleItemSourcePort (o_SourcePort rule)),
       optW (o_SourcePortRange rule \<noteq> []) (writeRuleItemString E ruleItemSourcePortRange (o_SourcePortRange rule)),
       optW (o_Port rule \<noteq> []) (writeRuleItemUint16 E ruleItemPort (o_Port rule)),
       optW (o_PortRange rule \<noteq> []) (writeRuleItemString E ruleItemPortRange (o_PortRange rule)),
       optW (o_ProcessName rule \<noteq> []) (writeRuleItemString E ruleItemProcessName (o_ProcessName rule)),
       optW (o_ProcessPath rule \<noteq> []) (writeRuleItemString E ruleItemProcessPath (o_ProcessPath rule)),
       optW (o_ProcessPathRegex rule \<noteq> []) (writeRuleItemString E ruleItemProcessPathRegex (o_ProcessPathRegex rule)),
       optW (o_PackageName rule \<noteq> []) (writeRuleItemString E ruleItemPackageName (o_PackageName rule)),
       optW (o_NetworkType rule \<noteq> [])
         (if generateVersion < RuleSetVersion3
          then Err (ENew [AStr ''network_type rule item is only supported in version 3 or later''])
          else writeRuleItemUint8 E ruleItemNetworkType (map interface_byte (o_NetworkType rule))),
       optW (o_NetworkIsExpensive rule) (byteW ruleItemNetworkIsExpensive),
       optW (o_NetworkIsConstrained rule) (byteW ruleItemNetworkIsConstrained),
       optW (o_WIFISSID rule \<noteq> []) (writeRuleItemString E ruleItemWIFISSID (o_WIFISSID rule)),
       optW (o_WIFIBSSID rule \<noteq> []) (writeRuleItemString E ruleItemWIFIBSSID (o_WIFIBSSID rule)),
       optW (o_AdGuardDomain rule \<noteq> [])
         (if generateVersion < RuleSetVersion2
          then Err (ENew [AStr ''AdGuard rule items is only supported in version 2 or later''])
          else seqW [byteW ruleItemAdGuardDomain, se_adguard_Write E (se_NewAdGuardMatcher E (o_AdGuardDomain rule))]),
       byteW ruleItemFinal,
       boolW (o_Invert rule)]"

fun writeRule :: "('m, 'g) srs_env \<Rightarrow> headless_options rule_options \<Rightarrow> nat \<Rightarrow> string res"
  and write_rules :: "('m, 'g) srs_env \<Rightarrow> headless_options rule_options list \<Rightarrow> nat \<Rightarrow> string res" where
  "writeRule E (DefaultOptions o') v = writeDefaultRule E o' v"
| "writeRule E (LogicalOptions rs md neg) v =
     (if md = LogicalTypeAnd \<or> md = LogicalTypeOr
      then seqW [byteW 1, byteW (if md = LogicalTypeAnd then 0 else 1), Ok (se_WriteUvarint E (length rs)),
             write_rules E rs v, boolW neg]
      else Panic (''unknown logical mode: '' @ md))"
| "writeRule E (UnknownType t) v = Panic (''unknown rule type: '' @ t)"
| "write_rules E [] v = Ok []"
| "write_rules E (r # rs) v = bindR (writeRule E r v) (\<lambda>a. bindR (write_rules E rs v) (\<lambda>b. Ok (a @ b)))"

text \<open>
  \<open>Write\<close>; \<open>sink\<close> tells whether the destination fails when the given bytes have been sent to it.  An
  error of the destination inside the compressed part is reported by the final flush.
\<close>

definition srs_Write ::
    "('m, 'g) srs_env \<Rightarrow> (string \<Rightarrow> go_error option) \<Rightarrow> headless_options rule_options list \<Rightarrow> nat \<Rightarrow> string res" where
  "srs_Write E sink ruleSet generateVersion =
     (let head = MagicBytes @ be_bytes 1 generateVersion in
      case sink MagicBytes of
        Some e \<Rightarrow> Err e
      | None \<Rightarrow>
          (case sink head of
             Some e \<Rightarrow> Err e
           | None \<Rightarrow>
               bindR (write_rules E ruleSet generateVersion) (\<lambda>body.
                 let out = head @ se_compress E (se_WriteUvarint E (length ruleSet) @ body)
                 in case sink out of Some e \<Rightarrow> Err e | None \<Rightarrow> Ok out)))"

section \<open>Codecs\<close>

text \<open>A reader consumes exactly the given bytes and answers the given value, whatever follows.\<close>

definition reads_back :: "'a reader \<Rightarrow> string \<Rightarrow> 'a \<Rightarrow> bool" where
  "reads_back p b x \<longleftrightarrow> (\<forall>r e. p \<lparr>rd_data = b @ r, rd_end = e\<rparr> = Some (Ok (x, \<lparr>rd_data = r, rd_end = e\<rparr>)))"

lemma reads_back_ret [simp]: "reads_back (retP x) b y \<longleftrightarrow> b = [] \<and> x = y"
  by (auto simp: reads_back_def retP_def dest: spec [of _ "[]"])

lemma reads_back_bind: "reads_back p a x \<Longrightarrow> reads_back (f x) b y \<Longrightarrow> reads_back (bindP p f) (a @ b) y"
  by (simp add: reads_back_def bindP_def)

lemma reads_back_bind0: "reads_back p a x \<Longrightarrow> reads_back (f x) [] y \<Longrightarrow> reads_back (bindP p f) a y"
  using reads_back_bind [of p a x f "[]"] by simp

lemma reads_back_cause: "reads_back p b x \<Longrightarrow> reads_back (causeP msg p) b x"
  by (simp add: reads_back_def causeP_def)

lemma reads_back_make: "n \<le> se_max E \<Longrightarrow> reads_back (make_slice E n) [] ()"
  by (simp add: reads_back_def make_slice_def)

lemma reads_back_foreign:
  "reads_back (foreignP p) b x \<longleftrightarrow> (\<forall>r e. p \<lparr>rd_data = b @ r, rd_end = e\<rparr> = Ok (x, \<lparr>rd_data = r, rd_end = e\<rparr>))"
  by (simp add: reads_back_def foreignP_def)

lemma read_full_back: "length b = n \<Longrightarrow> reads_back (read_full_n n) b b"
  by (simp add: reads_back_def read_full_n_def)

text \<open>Reading a number of values of the same kind.\<close>

primrec read_many :: "nat \<Rightarrow> 'a reader \<Rightarrow> 'a list reader" where
  "read_many 0 p = retP []"
| "read_many (Suc n) p = bindP p (\<lambda>x. bindP (read_many n p) (\<lambda>xs. retP (x # xs)))"

text \<open>
  What a pair of a writer and a reader promises: a value that satisfies \<open>P\<close> and is written is read back as \<open>N\<close> of it.
  Writing one value after the other is read back in order.
\<close>

locale codec =
  fixes P :: "'a \<Rightarrow> bool" and W :: "'a \<Rightarrow> string res" and R :: "'b reader" and N :: "'a \<Rightarrow> 'b"
  assumes recovers: "P x \<Longrightarrow> W x = Ok b \<Longrightarrow> reads_back R b (N x)"
begin

lemma back_then:
  assumes "P x" and "W x = Ok a" and "reads_back (f (N x)) b y"
  shows "reads_back (bindP R f) (a @ b) y"
  using recovers [OF assms(1,2)] assms(3) by (rule reads_back_bind)

lemma back_many:
  "list_all P xs \<Longrightarrow> seqW (map W xs) = Ok b \<Longrightarrow> reads_back (read_many (length xs) R) b (map N xs)"
proof (induction xs arbitrary: b)
  case (Cons x xs)
  then obtain a c where b: "b = a @ c" "W x = Ok a" "seqW (map W xs) = Ok c" by (auto simp: bindR_Ok)
  have "reads_back (bindP R (\<lambda>x. bindP (read_many (length xs) R) (\<lambda>xs. retP (x # xs)))) (a @ c) (N x # map N xs)"
    using Cons.prems(1) Cons.IH [OF _ b(3)] by (intro back_then [OF _ b(2)] reads_back_bind0 [where x = "map N xs"]) auto
  then show ?case by (simp add: b(1))
qed simp

lemma back_last:
  assumes "P x" and "W x = Ok a" and "g (N x) = y"
  shows "reads_back (bindP R (\<lambda>v. retP (g v))) a y"
  using assms by (intro reads_back_bind0 [OF recovers]) auto

end

lemma byte_back: "n < 256 \<Longrightarrow> reads_back read_uint8 (be_bytes 1 n) n"
  unfolding read_uint8_def
  by (rule reads_back_bind0 [OF read_full_back]) (use be_value_bytes [of n 1] in simp_all)

interpretation byte: codec "\<lambda>n. n < 256" byteW read_uint8 "\<lambda>n. n"
  by unfold_locales (auto simp: byteW_def byte_back simp del: be_bytes.simps One_nat_def)

interpretation bool: codec "\<lambda>_. True" boolW read_bool "\<lambda>b. b"
proof
  fix x b assume "boolW x = Ok b"
  then have "byteW (if x then 1 else 0) = Ok b" by (simp add: boolW_def)
  from byte.back_last [OF _ this, of "\<lambda>v. v \<noteq> 0"] show "reads_back read_bool b x"
    unfolding read_bool_def by simp
qed

interpretation uint64: codec "\<lambda>n. n < 2 ^ 64" "\<lambda>n. Ok (be_bytes 8 n)" read_uint64 "\<lambda>n. n"
proof
  fix x b assume "x < 2 ^ 64" and "Ok (be_bytes 8 x) = Ok b"
  then show "reads_back read_uint64 b x"
    unfolding read_uint64_def using be_value_bytes [of x 8] by (auto intro!: reads_back_bind0 [OF read_full_back])
qed

text \<open>The standard form of an unsigned number in groups of seven bits.\<close>

fun uvarint :: "nat \<Rightarrow> string" where
  "uvarint n = (if n < 128 then [char_of n] else char_of (128 + n mod 128) # uvarint (n div 128))"

declare uvarint.simps [simp del]

lemma uvarint_back:
  "n < 128 ^ left * 2 \<Longrightarrow> reads_back (uvarint_loop (Suc left) i x) (uvarint n) (x + n * 128 ^ i)"
proof (induction left arbitrary: n i x)
  case 0
  then show ?case by (subst uvarint.simps) (simp add: reads_back_def retP_def)
next
  case (Suc left)
  show ?case
  proof (cases "n < 128")
    case True
    then show ?thesis by (subst uvarint.simps) (simp add: reads_back_def retP_def)
  next
    case False
    have "n div 128 < 128 ^ left * 2" using Suc.prems by (simp add: less_mult_imp_div_less)
    note IH = Suc.IH [OF this, of "Suc i" "x + n mod 128 * 128 ^ i"]
    have "n mod 128 * 128 ^ i + n div 128 * 128 ^ Suc i = n * 128 ^ i"
      by (metis (no_types, lifting) add.commute div_mult_mod_eq distrib_right mult.assoc power_Suc)
    with IH False show ?thesis
      by (subst uvarint.simps) (simp add: reads_back_def Let_def add.assoc del: uvarint_loop.simps(1))
  qed
qed

interpretation varint: codec "\<lambda>n. n < 2 ^ 64" "\<lambda>n. Ok (uvarint n)" ReadUvarint "\<lambda>n. n"
proof
  fix x b assume "x < 2 ^ 64" and "Ok (uvarint x) = Ok b"
  then show "reads_back ReadUvarint b x"
    using uvarint_back [of x 9 0 0] by (simp add: ReadUvarint_def del: uvarint_loop.simps)
qed

end
