(* ===== verification/Srs_Properties.thy ===== *)
theory Srs_Properties
  imports Srs
begin

text \<open>
  Properties of the binary format of rule sets: what is written is read back (\<open>srs_roundtrip\<close>), reading always ends
  (\<open>srs_Read_returns\<close>), and a compiled rule set decides like its source.
\<close>

section \<open>What the format relies on\<close>

definition foreign_codec :: "('a \<Rightarrow> bool) \<Rightarrow> ('a \<Rightarrow> string res) \<Rightarrow> (rd \<Rightarrow> ('a \<times> rd) res) \<Rightarrow> bool" where
  "foreign_codec P w p \<longleftrightarrow> (\<forall>x b. P x \<longrightarrow> w x = Ok b \<longrightarrow> reads_back (foreignP p) b x)"

definition srs_env_ok :: "('m, 'g) srs_env \<Rightarrow> bool" where
  "srs_env_ok E \<longleftrightarrow>
     se_max E < 2 ^ 64 \<and>
     (\<forall>b. se_zlib E (se_compress E b) = Ok (b, ioEOF)) \<and>
     (\<forall>n. se_WriteUvarint E n = uvarint n) \<and>
     foreign_codec (\<lambda>_. True) (se_WriteStrings E) (se_ReadStrings E) \<and>
     foreign_codec (\<lambda>_. True) (se_WriteUint16s E) (se_ReadUint16s E) \<and>
     foreign_codec (\<lambda>ns. \<forall>n \<in> set ns. n < 256) (se_WriteUint8s E) (se_ReadUint8s E) \<and>
     foreign_codec (\<lambda>_. True) (se_matcher_Write E) (se_ReadMatcher E) \<and>
     foreign_codec (\<lambda>_. True) (se_adguard_Write E) (se_ReadAdGuardMatcher E) \<and>
     (\<forall>ds b. seqW (map (se_WriteRange E) ds) = Ok b \<longrightarrow> reads_back (foreignP (se_ReadRanges E (length ds))) b ds) \<and>
     (\<forall>a. addr_withoutZone a = a \<longrightarrow> se_AddrFromIP E (addr_AsSlice a) = a) \<and>
     (\<forall>ps rr. se_BuildSet E ps = Inr rr \<longrightarrow> (\<forall>(a, b) \<in> set rr. addr_withoutZone a = a \<and> addr_withoutZone b = b))"

lemma srs_env_laws:
  assumes "srs_env_ok E"
  shows "se_max E < 2 ^ 64"
    and "se_zlib E (se_compress E bs) = Ok (bs, ioEOF)"
    and "se_WriteUvarint E n = uvarint n"
    and "se_WriteStrings E ss = Ok b \<Longrightarrow> reads_back (foreignP (se_ReadStrings E)) b ss"
    and "se_WriteUint16s E ws = Ok b \<Longrightarrow> reads_back (foreignP (se_ReadUint16s E)) b ws"
    and "se_WriteUint8s E ns = Ok b \<Longrightarrow> \<forall>n \<in> set ns. n < 256 \<Longrightarrow> reads_back (foreignP (se_ReadUint8s E)) b ns"
    and "se_matcher_Write E m = Ok b \<Longrightarrow> reads_back (foreignP (se_ReadMatcher E)) b m"
    and "se_adguard_Write E g = Ok b \<Longrightarrow> reads_back (foreignP (se_ReadAdGuardMatcher E)) b g"
    and "seqW (map (se_WriteRange E) ds) = Ok b \<Longrightarrow> reads_back (foreignP (se_ReadRanges E (length ds))) b ds"
    and "addr_withoutZone a = a \<Longrightarrow> se_AddrFromIP E (addr_AsSlice a) = a"
    and "se_BuildSet E ps = Inr rr \<Longrightarrow> \<forall>(a, b) \<in> set rr. addr_withoutZone a = a \<and> addr_withoutZone b = b"
  using assms unfolding srs_env_ok_def foreign_codec_def by blast+

section \<open>Sequences of items\<close>

lemma seqW_Cons_Ok: "seqW (x # xs) = Ok b \<longleftrightarrow> (\<exists>a c. x = Ok a \<and> seqW xs = Ok c \<and> b = a @ c)"
  by (cases x; cases "seqW xs") auto

lemma seqW_append_Ok: "seqW (xs @ ys) = Ok b \<longleftrightarrow> (\<exists>a c. seqW xs = Ok a \<and> seqW ys = Ok c \<and> b = a @ c)"
proof (induction xs arbitrary: b)
  case (Cons x xs)
  then show ?case by (auto simp: seqW_Cons_Ok simp del: seqW.simps(2))
qed simp

definition zone_free :: "(addr \<times> addr) list \<Rightarrow> bool" where
  "zone_free rr \<longleftrightarrow> (\<forall>(a, b) \<in> set rr. addr_withoutZone a = a \<and> addr_withoutZone b = b)"

interpretation ip_set: codec "\<lambda>(E, rr). srs_env_ok E \<and> E = E0 \<and> length rr \<le> se_max E \<and> zone_free rr"
  "\<lambda>(E, rr). writeIPSet E rr" "readIPSet E0" snd for E0
proof (unfold_locales, clarify)
  fix E :: "('a, 'b) srs_env" and rr b
  let ?ds = "map (\<lambda>(from, to). (addr_AsSlice from, addr_AsSlice to)) rr"
  assume E: "srs_env_ok E" "length rr \<le> se_max E" "zone_free rr" and w: "writeIPSet E rr = Ok b"
  from w obtain v l d where b: "b = v @ l @ d" "byteW 1 = Ok v" "Ok (be_bytes 8 (length rr)) = Ok l"
    "seqW (map (se_WriteRange E) ?ds) = Ok d"
    by (auto simp: writeIPSet_def Let_def seqW_Cons_Ok simp del: seqW.simps(2) be_bytes.simps)
  have "map (\<lambda>(from, to). (se_AddrFromIP E from, se_AddrFromIP E to)) ?ds = rr"
    using E srs_env_laws(10) [OF E(1)] by (intro nth_equalityI) (auto simp: zone_free_def split: prod.splits dest!: nth_mem)
  then have ranges: "reads_back (bindP (foreignP (se_ReadRanges E (length rr))) (\<lambda>ranges.
      retP (map (\<lambda>(from, to). (se_AddrFromIP E from, se_AddrFromIP E to)) ranges))) d rr"
    using srs_env_laws(9) [OF E(1) b(4)] by (auto intro: reads_back_bind0)
  have "reads_back (bindP (make_slice E (length rr)) (\<lambda>_. bindP (foreignP (se_ReadRanges E (length rr))) (\<lambda>ranges.
      retP (map (\<lambda>(from, to). (se_AddrFromIP E from, se_AddrFromIP E to)) ranges)))) ([] @ d) rr"
    by (rule reads_back_bind [OF reads_back_make [OF E(2)] ranges])
  then show "reads_back (readIPSet E) b (snd (E, rr))"
    unfolding readIPSet_def b(1) using E(2) srs_env_laws(1) [OF E(1)]
    by (auto intro!: byte.back_then [OF _ b(2)] uint64.back_then [OF _ b(3)])
qed

text \<open>
  Bytes that make the loop of \<open>readDefaultRule\<close> apply a function to the rule it fills, in at most as many turns as
  there are bytes.
\<close>

definition fills :: "('m, 'g) srs_env \<Rightarrow> bool \<Rightarrow> string \<Rightarrow> (headless_options \<Rightarrow> headless_options) \<Rightarrow> bool" where
  "fills E rec b f \<longleftrightarrow> (\<exists>k \<le> length b. \<forall>n l o' r e. \<exists>l'.
     readDefaultRule (k + n) E rec l o' \<lparr>rd_data = b @ r, rd_end = e\<rparr> =
     readDefaultRule n E rec l' (f o') \<lparr>rd_data = r, rd_end = e\<rparr>)"

lemma fills_Nil: "fills E rec [] (\<lambda>o'. o')"
  by (auto simp: fills_def)

lemma fills_append:
  assumes "fills E rec a f" and "fills E rec b g"
  shows "fills E rec (a @ b) (\<lambda>o'. g (f o'))"
proof -
  from assms obtain k m where k: "k \<le> length a" "m \<le> length b"
    and f: "\<And>n l o' r e. \<exists>l'. readDefaultRule (k + n) E rec l o' \<lparr>rd_data = a @ r, rd_end = e\<rparr> =
      readDefaultRule n E rec l' (f o') \<lparr>rd_data = r, rd_end = e\<rparr>"
    and g: "\<And>n l o' r e. \<exists>l'. readDefaultRule (m + n) E rec l o' \<lparr>rd_data = b @ r, rd_end = e\<rparr> =
      readDefaultRule n E rec l' (g o') \<lparr>rd_data = r, rd_end = e\<rparr>"
    unfolding fills_def by blast
  have "\<exists>l'. readDefaultRule ((k + m) + n) E rec l o' \<lparr>rd_data = (a @ b) @ r, rd_end = e\<rparr> =
      readDefaultRule n E rec l' (g (f o')) \<lparr>rd_data = r, rd_end = e\<rparr>" for n l o' r e
    using f [of "m + n" l o' "b @ r" e] g [of n _ "f o'" r e] by (metis add.assoc append_assoc)
  then show ?thesis using k unfolding fills_def by (intro exI [of _ "k + m"]) auto
qed

lemma fills_item:
  assumes "t < 255" and "\<And>l o'. reads_back (read_item E rec t l o') b (f o')" and "byteW t = Ok a"
  shows "fills E rec (a @ b) f"
proof -
  have a: "a = [char_of t]" "a = be_bytes 1 t" using assms(3) by (simp_all add: byteW_def)
  have "readDefaultRule (1 + n) E rec l o' \<lparr>rd_data = (a @ b) @ r, rd_end = e\<rparr> =
      readDefaultRule n E rec t (f o') \<lparr>rd_data = r, rd_end = e\<rparr>" for n l o' r e
  proof -
    have "read_uint8 \<lparr>rd_data = a @ (b @ r), rd_end = e\<rparr> = Some (Ok (t, \<lparr>rd_data = b @ r, rd_end = e\<rparr>))"
      using byte_back [of t] assms(1) unfolding a(2) reads_back_def by simp
    then show ?thesis
      using assms(1,2) by (simp add: bindP_def reads_back_def ruleItemFinal_def)
  qed
  then show ?thesis unfolding fills_def by (intro exI [of _ 1]) (auto simp: a(1))
qed

text \<open>A part of a rule as it is written, with the effect that reading it has.\<close>

definition part_ok :: "('m, 'g) srs_env \<Rightarrow> bool \<Rightarrow> string res \<times> (headless_options \<Rightarrow> headless_options) \<Rightarrow> bool" where
  "part_ok E rec = (\<lambda>(w, f). \<forall>b. w = Ok b \<longrightarrow> fills E rec b f)"

lemma parts_fill:
  assumes "list_all (part_ok E rec) ps" and "seqW (map fst ps) = Ok b"
  shows "fills E rec b (fold snd ps)"
  using assms
proof (induction ps arbitrary: b)
  case Nil
  then show ?case using fills_Nil by (simp add: id_def)
next
  case (Cons p ps)
  from Cons.prems(2) obtain a c where b: "b = a @ c" "fst p = Ok a" "seqW (map fst ps) = Ok c"
    by (auto simp: seqW_Cons_Ok simp del: seqW.simps(2))
  have "fills E rec a (snd p)" using Cons.prems(1) b(2) by (cases p) (simp add: part_ok_def)
  from fills_append [OF this Cons.IH [OF _ b(3)]] Cons.prems(1) show ?case by (simp add: b(1) comp_def)
qed

lemma part_optW:
  "(c \<Longrightarrow> part_ok E rec (w, f)) \<Longrightarrow> (\<not> c \<Longrightarrow> f = (\<lambda>o'. o')) \<Longrightarrow> part_ok E rec (optW c w, f)"
  by (auto simp: part_ok_def optW_def fills_Nil)

lemma part_item:
  assumes "t < 255" and "\<And>b l o'. w = Ok b \<Longrightarrow> reads_back (read_item E rec t l o') b (f o')"
  shows "part_ok E rec (seqW [byteW t, w], f)"
  using assms by (auto simp: part_ok_def seqW_Cons_Ok intro!: fills_item [OF assms(1)] simp del: seqW.simps(2))

lemma part_flag:
  assumes "t < 255" and "\<And>l o'. reads_back (read_item E rec t l o') [] (f o')"
  shows "part_ok E rec (byteW t, f)"
  using fills_item [OF assms(1), of E rec "[]" f] assms(2) by (auto simp: part_ok_def)

lemma setP_back: "reads_back (foreignP p) b v \<Longrightarrow> upd v = y \<Longrightarrow> reads_back (setP p upd) b y"
  unfolding setP_def by (rule reads_back_bind0) auto

section \<open>What a rule is read back as\<close>

definition cidr_ranges :: "('m, 'g) srs_env \<Rightarrow> string list \<Rightarrow> go_error + (addr \<times> addr) list" where
  "cidr_ranges E xs = bindE (build_prefixes E 0 xs) (se_BuildSet E)"

definition cidr_set :: "('m, 'g) srs_env \<Rightarrow> string list \<Rightarrow> (addr \<times> addr) list" where
  "cidr_set E xs = (case cidr_ranges E xs of Inr rr \<Rightarrow> rr | Inl _ \<Rightarrow> [])"

definition has_domain :: "headless_options \<Rightarrow> bool" where
  "has_domain o' \<longleftrightarrow> o_Domain o' \<noteq> [] \<or> o_DomainSuffix o' \<noteq> []"

definition domain_matcher :: "('m, 'g) srs_env \<Rightarrow> nat \<Rightarrow> headless_options \<Rightarrow> 'm" where
  "domain_matcher E v o' = se_NewMatcher E (o_Domain o') (o_DomainSuffix o') (v = RuleSetVersion1)"

text \<open>
  The options of a rule after it was written and read: domains, networks and AdGuard rules come back as matchers, and
  as lists again only when the reader is asked to recover them; everything else is unchanged.
\<close>

definition srs_normal :: "('m, 'g) srs_env \<Rightarrow> bool \<Rightarrow> nat \<Rightarrow> headless_options \<Rightarrow> headless_options" where
  "srs_normal E rec v o' = o'\<lparr>
     o_DomainMatcher := if has_domain o' then Some (se_matcher_Match E (domain_matcher E v o')) else None,
     o_Domain := if rec \<and> has_domain o' then fst (se_matcher_Dump E (domain_matcher E v o')) else [],
     o_DomainSuffix := if rec \<and> has_domain o' then snd (se_matcher_Dump E (domain_matcher E v o')) else [],
     o_SourceIPSet := if o_SourceIPCIDR o' \<noteq> [] then Some (se_SetContains E (cidr_set E (o_SourceIPCIDR o'))) else None,
     o_SourceIPCIDR := if rec \<and> o_SourceIPCIDR o' \<noteq> [] then se_SetPrefixes E (cidr_set E (o_SourceIPCIDR o')) else [],
     o_IPSet := if o_IPCIDR o' \<noteq> [] then Some (se_SetContains E (cidr_set E (o_IPCIDR o'))) else None,
     o_IPCIDR := if rec \<and> o_IPCIDR o' \<noteq> [] then se_SetPrefixes E (cidr_set E (o_IPCIDR o')) else [],
     o_AdGuardDomainMatcher := if o_AdGuardDomain o' \<noteq> []
       then Some (se_adguard_Match E (se_NewAdGuardMatcher E (o_AdGuardDomain o'))) else None,
     o_AdGuardDomain := if rec \<and> o_AdGuardDomain o' \<noteq> []
       then se_adguard_Dump E (se_NewAdGuardMatcher E (o_AdGuardDomain o')) else []\<rparr>"

text \<open>The sets that are written can be allocated by the reader, and interface types are bytes.\<close>

fun interface_ok :: "InterfaceType \<Rightarrow> bool" where
  "interface_ok (InterfaceTypeByte n) \<longleftrightarrow> 4 \<le> n \<and> n < 256"
| "interface_ok _ \<longleftrightarrow> True"

definition options_fit :: "('m, 'g) srs_env \<Rightarrow> headless_options \<Rightarrow> bool" where
  "options_fit E o' \<longleftrightarrow> length (cidr_set E (o_SourceIPCIDR o')) \<le> se_max E \<and>
     length (cidr_set E (o_IPCIDR o')) \<le> se_max E \<and> list_all interface_ok (o_NetworkType o')"

lemma interface_back: "interface_ok t \<Longrightarrow> byte_interface (interface_byte t) = t \<and> interface_byte t < 256"
  by (cases t) (auto simp: byte_interface_def)

definition rule_parts ::
    "('m, 'g) srs_env \<Rightarrow> bool \<Rightarrow> nat \<Rightarrow> headless_options \<Rightarrow> (string res \<times> (headless_options \<Rightarrow> headless_options)) list" where
  "rule_parts E rec v o' =
   [(optW (o_QueryType o' \<noteq> []) (writeRuleItemUint16 E ruleItemQueryType (o_QueryType o')),
     o_QueryType_update (\<lambda>x. if o_QueryType o' \<noteq> [] then o_QueryType o' else x)),
    (optW (o_Network o' \<noteq> []) (writeRuleItemString E ruleItemNetwork (o_Network o')),
     o_Network_update (\<lambda>x. if o_Network o' \<noteq> [] then o_Network o' else x)),
    (optW (has_domain o') (seqW [byteW ruleItemDomain, se_matcher_Write E (domain_matcher E v o')]),
     \<lambda>r. o_DomainMatcher_update (\<lambda>x. if has_domain o' then Some (se_matcher_Match E (domain_matcher E v o')) else x)
       (o_Domain_update (\<lambda>x. if rec \<and> has_domain o' then fst (se_matcher_Dump E (domain_matcher E v o')) else x)
       (o_DomainSuffix_update (\<lambda>x. if rec \<and> has_domain o' then snd (se_matcher_Dump E (domain_matcher E v o')) else x) r))),
    (optW (o_DomainKeyword o' \<noteq> []) (writeRuleItemString E ruleItemDomainKeyword (o_DomainKeyword o')),
     o_DomainKeyword_update (\<lambda>x. if o_DomainKeyword o' \<noteq> [] then o_DomainKeyword o' else x)),
    (optW (o_DomainRegex o' \<noteq> []) (writeRuleItemString E ruleItemDomainRegex (o_DomainRegex o')),
     o_DomainRegex_update (\<lambda>x. if o_DomainRegex o' \<noteq> [] then o_DomainRegex o' else x)),
    (optW (o_SourceIPCIDR o' \<noteq> []) (causeW ''source_ip_cidr'' (writeRuleItemCIDR E ruleItemSourceIPCIDR (o_SourceIPCIDR o'))),
     \<lambda>r. o_SourceIPSet_update (\<lambda>x. if o_SourceIPCIDR o' \<noteq> [] then Some (se_SetContains E (cidr_set E (o_SourceIPCIDR o'))) else x)
       (o_SourceIPCIDR_update (\<lambda>x. if rec \<and> o_SourceIPCIDR o' \<noteq> [] then se_SetPrefixes E (cidr_set E (o_SourceIPCIDR o')) else x) r)),
    (optW (o_IPCIDR o' \<noteq> []) (causeW ''ipcidr'' (writeRuleItemCIDR E ruleItemIPCIDR (o_IPCIDR o'))),
     \<lambda>r. o_IPSet_update (\<lambda>x. if o_IPCIDR o' \<noteq> [] then Some (se_SetContains E (cidr_set E (o_IPCIDR o'))) else x)
       (o_IPCIDR_update (\<lambda>x. if rec \<and> o_IPCIDR o' \<noteq> [] then se_SetPrefixes E (cidr_set E (o_IPCIDR o')) else x) r)),
    (optW (o_SourcePort o' \<noteq> []) (writeRuleItemUint16 E ruleItemSourcePort (o_SourcePort o')),
     o_SourcePort_update (\<lambda>x. if o_SourcePort o' \<noteq> [] then o_SourcePort o' else x)),
    (optW (o_SourcePortRange o' \<noteq> []) (writeRuleItemString E ruleItemSourcePortRange (o_SourcePortRange o')),
     o_SourcePortRange_update (\<lambda>x. if o_SourcePortRange o' \<noteq> [] then o_SourcePortRange o' else x)),
    (optW (o_Port o' \<noteq> []) (writeRuleItemUint16 E ruleItemPort (o_Port o')),
     o_Port_update (\<lambda>x. if o_Port o' \<noteq> [] then o_Port o' else x)),
    (optW (o_PortRange o' \<noteq> []) (writeRuleItemString E ruleItemPortRange (o_PortRange o')),
     o_PortRange_update (\<lambda>x. if o_PortRange o' \<noteq> [] then o_PortRange o' else x)),
    (optW (o_ProcessName o' \<noteq> []) (writeRuleItemString E ruleItemProcessName (o_ProcessName o')),
     o_ProcessName_update (\<lambda>x. if o_ProcessName o' \<noteq> [] then o_ProcessName o' else x)),
    (optW (o_ProcessPath o' \<noteq> []) (writeRuleItemString E ruleItemProcessPath (o_ProcessPath o')),
     o_ProcessPath_update (\<lambda>x. if o_ProcessPath o' \<noteq> [] then o_ProcessPath o' else x)),
    (optW (o_ProcessPathRegex o' \<noteq> []) (writeRuleItemString E ruleItemProcessPathRegex (o_ProcessPathRegex o')),
     o_ProcessPathRegex_update (\<lambda>x. if o_ProcessPathRegex o' \<noteq> [] then o_ProcessPathRegex o' else x)),
    (optW (o_PackageName o' \<noteq> []) (writeRuleItemString E ruleItemPackageName (o_PackageName o')),
     o_PackageName_update (\<lambda>x. if o_PackageName o' \<noteq> [] then o_PackageName o' else x)),
    (optW (o_NetworkType o' \<noteq> [])
       (if v < RuleSetVersion3 then Err (ENew [AStr ''network_type rule item is only supported in version 3 or later''])
        else writeRuleItemUint8 E ruleItemNetworkType (map interface_byte (o_NetworkType o'))),
     o_NetworkType_update (\<lambda>x. if o_NetworkType o' \<noteq> [] then o_NetworkType o' else x)),
    (optW (o_NetworkIsExpensive o') (byteW ruleItemNetworkIsExpensive), o_NetworkIsExpensive_update (\<lambda>x. o_NetworkIsExpensive o' \<or> x)),
    (optW (o_NetworkIsConstrained o') (byteW ruleItemNetworkIsConstrained), o_NetworkIsConstrained_update (\<lambda>x. o_NetworkIsConstrained o' \<or> x)),
    (optW (o_WIFISSID o' \<noteq> []) (writeRuleItemString E ruleItemWIFISSID (o_WIFISSID o')),
     o_WIFISSID_update (\<lambda>x. if o_WIFISSID o' \<noteq> [] then o_WIFISSID o' else x)),
    (optW (o_WIFIBSSID o' \<noteq> []) (writeRuleItemString E ruleItemWIFIBSSID (o_WIFIBSSID o')),
     o_WIFIBSSID_update (\<lambda>x. if o_WIFIBSSID o' \<noteq> [] then o_WIFIBSSID o' else x)),
    (optW (o_AdGuardDomain o' \<noteq> [])
       (if v < RuleSetVersion2 then Err (ENew [AStr ''AdGuard rule items is only supported in version 2 or later''])
        else seqW [byteW ruleItemAdGuardDomain, se_adguard_Write E (se_NewAdGuardMatcher E (o_AdGuardDomain o'))]),
     \<lambda>r. o_AdGuardDomainMatcher_update (\<lambda>x. if o_AdGuardDomain o' \<noteq> []
         then Some (se_adguard_Match E (se_NewAdGuardMatcher E (o_AdGuardDomain o'))) else x)
       (o_AdGuardDomain_update (\<lambda>x. if rec \<and> o_AdGuardDomain o' \<noteq> []
         then se_adguard_Dump E (se_NewAdGuardMatcher E (o_AdGuardDomain o')) else x) r))]"

lemma write_parts:
  "writeDefaultRule E o' v = seqW ([byteW 0] @ map fst (rule_parts E rec v o') @ [byteW ruleItemFinal, boolW (o_Invert o')])"
  by (simp only: writeDefaultRule_def rule_parts_def list.map fst_conv append.simps has_domain_def domain_matcher_def)

lemma if_nonempty: "(if xs \<noteq> [] then xs else []) = xs" "(if xs = [] then [] else xs) = xs"
  by simp_all

lemma fold_parts:
  "(fold snd (rule_parts E rec v o') empty_headless)\<lparr>o_Invert := o_Invert o'\<rparr> = srs_normal E rec v o'"
  by (rule headless_options.equality)
    (simp_all add: rule_parts_def srs_normal_def empty_headless_def empty_common_def common_options.defs
      headless_options.defs if_nonempty split del: if_split)

section \<open>Every part is read back\<close>

text \<open>An update that keeps the old value changes nothing.\<close>

lemma update_ids:
  "o_QueryType_update (\<lambda>x. x) = (\<lambda>r :: headless_options. r)" "o_Network_update (\<lambda>x. x) = (\<lambda>r :: headless_options. r)"
  "o_DomainKeyword_update (\<lambda>x. x) = (\<lambda>r :: headless_options. r)" "o_DomainRegex_update (\<lambda>x. x) = (\<lambda>r :: headless_options. r)"
  "o_SourcePort_update (\<lambda>x. x) = (\<lambda>r :: headless_options. r)" "o_SourcePortRange_update (\<lambda>x. x) = (\<lambda>r :: headless_options. r)"
  "o_Port_update (\<lambda>x. x) = (\<lambda>r :: headless_options. r)" "o_PortRange_update (\<lambda>x. x) = (\<lambda>r :: headless_options. r)"
  "o_ProcessName_update (\<lambda>x. x) = (\<lambda>r :: headless_options. r)" "o_ProcessPath_update (\<lambda>x. x) = (\<lambda>r :: headless_options. r)"
  "o_ProcessPathRegex_update (\<lambda>x. x) = (\<lambda>r :: headless_options. r)" "o_PackageName_update (\<lambda>x. x) = (\<lambda>r :: headless_options. r)"
  "o_NetworkType_update (\<lambda>x. x) = (\<lambda>r :: headless_options. r)" "o_WIFISSID_update (\<lambda>x. x) = (\<lambda>r :: headless_options. r)"
  "o_WIFIBSSID_update (\<lambda>x. x) = (\<lambda>r :: headless_options. r)" "o_NetworkIsExpensive_update (\<lambda>x. x) = (\<lambda>r :: headless_options. r)"
  "o_NetworkIsConstrained_update (\<lambda>x. x) = (\<lambda>r :: headless_options. r)"
  "o_Domain_update (\<lambda>x. x) = (\<lambda>r :: headless_options. r)" "o_DomainSuffix_update (\<lambda>x. x) = (\<lambda>r :: headless_options. r)"
  "o_SourceIPCIDR_update (\<lambda>x. x) = (\<lambda>r :: headless_options. r)" "o_IPCIDR_update (\<lambda>x. x) = (\<lambda>r :: headless_options. r)"
  "o_SourceIPSet_update (\<lambda>x. x) = (\<lambda>r :: headless_options. r)" "o_IPSet_update (\<lambda>x. x) = (\<lambda>r :: headless_options. r)"
  "o_DomainMatcher_update (\<lambda>x. x) = (\<lambda>r :: headless_options. r)"
  "o_AdGuardDomain_update (\<lambda>x. x) = (\<lambda>r :: headless_options. r)" "o_AdGuardDomainMatcher_update (\<lambda>x. x) = (\<lambda>r :: headless_options. r)"
  by (rule ext; rule headless_options.equality; simp)+

lemma If_eta: "If False v = (\<lambda>x. x)" "If True v = (\<lambda>x. v)"
  by auto

lemma part_string:
  assumes "srs_env_ok E" and "t < 255" and "U (\<lambda>x. x) = (\<lambda>r. r)"
    and "\<And>l o'. read_item E rec t l o' = setP (se_ReadStrings E) (\<lambda>x. U (\<lambda>_. x) o')"
  shows "part_ok E rec (optW (v \<noteq> []) (writeRuleItemString E t v), U (\<lambda>x. if v \<noteq> [] then v else x))"
proof (rule part_optW)
  assume v: "v \<noteq> []"
  then show "part_ok E rec (writeRuleItemString E t v, U (\<lambda>x. if v \<noteq> [] then v else x))"
    unfolding writeRuleItemString_def
    by (intro part_item [OF assms(2)]) (simp add: assms(4) If_eta setP_back [OF srs_env_laws(4) [OF assms(1)]])
qed (simp add: assms(3) If_eta)

lemma part_uint16:
  assumes "srs_env_ok E" and "t < 255" and "U (\<lambda>x. x) = (\<lambda>r. r)"
    and "\<And>l o'. read_item E rec t l o' = setP (se_ReadUint16s E) (\<lambda>x. U (\<lambda>_. x) o')"
  shows "part_ok E rec (optW (v \<noteq> []) (writeRuleItemUint16 E t v), U (\<lambda>x. if v \<noteq> [] then v else x))"
proof (rule part_optW)
  assume v: "v \<noteq> []"
  then show "part_ok E rec (writeRuleItemUint16 E t v, U (\<lambda>x. if v \<noteq> [] then v else x))"
    unfolding writeRuleItemUint16_def
    by (intro part_item [OF assms(2)]) (simp add: assms(4) If_eta setP_back [OF srs_env_laws(5) [OF assms(1)]])
qed (simp add: assms(3) If_eta)

lemma string_parts:
  assumes "srs_env_ok E"
  shows "part_ok E rec (optW (v \<noteq> []) (writeRuleItemString E ruleItemNetwork v), o_Network_update (\<lambda>x. if v \<noteq> [] then v else x))"
    and "part_ok E rec (optW (v \<noteq> []) (writeRuleItemString E ruleItemDomainKeyword v), o_DomainKeyword_update (\<lambda>x. if v \<noteq> [] then v else x))"
    and "part_ok E rec (optW (v \<noteq> []) (writeRuleItemString E ruleItemDomainRegex v), o_DomainRegex_update (\<lambda>x. if v \<noteq> [] then v else x))"
    and "part_ok E rec (optW (v \<noteq> []) (writeRuleItemString E ruleItemSourcePortRange v), o_SourcePortRange_update (\<lambda>x. if v \<noteq> [] then v else x))"
    and "part_ok E rec (optW (v \<noteq> []) (writeRuleItemString E ruleItemPortRange v), o_PortRange_update (\<lambda>x. if v \<noteq> [] then v else x))"
    and "part_ok E rec (optW (v \<noteq> []) (writeRuleItemString E ruleItemProcessName v), o_ProcessName_update (\<lambda>x. if v \<noteq> [] then v else x))"
    and "part_ok E rec (optW (v \<noteq> []) (writeRuleItemString E ruleItemProcessPath v), o_ProcessPath_update (\<lambda>x. if v \<noteq> [] then v else x))"
    and "part_ok E rec (optW (v \<noteq> []) (writeRuleItemString E ruleItemProcessPathRegex v), o_ProcessPathRegex_update (\<lambda>x. if v \<noteq> [] then v else x))"
    and "part_ok E rec (optW (v \<noteq> []) (writeRuleItemString E ruleItemPackageName v), o_PackageName_update (\<lambda>x. if v \<noteq> [] then v else x))"
    and "part_ok E rec (optW (v \<noteq> []) (writeRuleItemString E ruleItemWIFISSID v), o_WIFISSID_update (\<lambda>x. if v \<noteq> [] then v else x))"
    and "part_ok E rec (optW (v \<noteq> []) (writeRuleItemString E ruleItemWIFIBSSID v), o_WIFIBSSID_update (\<lambda>x. if v \<noteq> [] then v else x))"
  by (rule part_string [OF assms]; simp add: read_item_def srs_consts update_ids)+

lemma uint16_parts:
  assumes "srs_env_ok E"
  shows "part_ok E rec (optW (v \<noteq> []) (writeRuleItemUint16 E ruleItemQueryType v), o_QueryType_update (\<lambda>x. if v \<noteq> [] then v else x))"
    and "part_ok E rec (optW (v \<noteq> []) (writeRuleItemUint16 E ruleItemSourcePort v), o_SourcePort_update (\<lambda>x. if v \<noteq> [] then v else x))"
    and "part_ok E rec (optW (v \<noteq> []) (writeRuleItemUint16 E ruleItemPort v), o_Port_update (\<lambda>x. if v \<noteq> [] then v else x))"
  by (rule part_uint16 [OF assms]; simp add: read_item_def srs_consts update_ids)+

lemma part_cidr:
  assumes "srs_env_ok E" and "t < 255" and "length (cidr_set E v) \<le> se_max E"
    and "\<And>l o'. read_item E rec t l o' = bindP (readIPSet E) (\<lambda>s. retP (upd s o'))"
    and "v = [] \<Longrightarrow> f = (\<lambda>r. r)" and "v \<noteq> [] \<Longrightarrow> f = upd (cidr_set E v)"
  shows "part_ok E rec (optW (v \<noteq> []) (causeW msg (writeRuleItemCIDR E t v)), f)"
proof (rule part_optW)
  assume v: "v \<noteq> []"
  show "part_ok E rec (causeW msg (writeRuleItemCIDR E t v), f)"
  proof (cases "cidr_ranges E v")
    case (Inl e)
    then show ?thesis by (auto simp: part_ok_def writeRuleItemCIDR_def causeW_def cidr_ranges_def)
  next
    case (Inr rr)
    then have w: "causeW msg (writeRuleItemCIDR E t v) = causeW msg (seqW [byteW t, writeIPSet E rr])" and c: "cidr_set E v = rr"
      by (simp_all add: writeRuleItemCIDR_def cidr_ranges_def cidr_set_def)
    have "zone_free rr"
      using Inr unfolding cidr_ranges_def zone_free_def bindE_Inr by (elim exE conjE) (rule srs_env_laws(11) [OF assms(1)])
    then have "reads_back (read_item E rec t l o') b (f o')" if "writeIPSet E rr = Ok b" for l o' b
      using that assms(1,3,4,6) v c by (auto intro!: ip_set.back_last [where x = "(E, rr)"])
    then have "part_ok E rec (seqW [byteW t, writeIPSet E rr], f)" by (intro part_item [OF assms(2)]) auto
    then show ?thesis unfolding w by (auto simp: part_ok_def causeW_def split: res.splits)
  qed
qed (use assms in auto)

lemma part_network_type:
  assumes "srs_env_ok E" and "list_all interface_ok ts"
    and "ts = [] \<Longrightarrow> f = (\<lambda>r. r)" and "ts \<noteq> [] \<Longrightarrow> f = (\<lambda>r. r\<lparr>o_NetworkType := ts\<rparr>)"
  shows "part_ok E rec (optW (ts \<noteq> []) (if v < RuleSetVersion3 then Err e
    else writeRuleItemUint8 E ruleItemNetworkType (map interface_byte ts)), f)"
proof (rule part_optW)
  assume ts: "ts \<noteq> []"
  have "map byte_interface (map interface_byte ts) = ts" "\<forall>n \<in> set (map interface_byte ts). n < 256"
    using assms(2) interface_back by (auto simp: list_all_iff intro!: map_idI)
  then have "part_ok E rec (writeRuleItemUint8 E ruleItemNetworkType (map interface_byte ts), f)"
    unfolding writeRuleItemUint8_def assms(4) [OF ts]
    by (intro part_item)
      (auto simp: srs_consts read_item_def intro!: setP_back [OF srs_env_laws(6) [OF assms(1)]] simp del: map_map)
  then show "part_ok E rec (if v < RuleSetVersion3 then Err e
      else writeRuleItemUint8 E ruleItemNetworkType (map interface_byte ts), f)"
    by (simp add: part_ok_def)
qed (use assms(3) in auto)

lemma part_domain:
  assumes "srs_env_ok E"
    and "\<not> c \<Longrightarrow> f = (\<lambda>r. r)" and "\<And>l o'. c \<Longrightarrow> read_item E rec ruleItemDomain l o' = setP (se_ReadMatcher E) (\<lambda>m. upd m o')"
    and "c \<Longrightarrow> f = upd m"
  shows "part_ok E rec (optW c (seqW [byteW ruleItemDomain, se_matcher_Write E m]), f)"
proof (rule part_optW)
  assume c: c
  show "part_ok E rec (seqW [byteW ruleItemDomain, se_matcher_Write E m], f)"
    unfolding assms(4) [OF c]
    by (rule part_item, simp add: ruleItemDomain_def) (simp add: assms(3) [OF c] setP_back [OF srs_env_laws(7) [OF assms(1)]])
qed (use assms(2) in auto)

lemma part_adguard:
  assumes "srs_env_ok E"
    and "\<not> c \<Longrightarrow> f = (\<lambda>r. r)"
    and "\<And>l o'. c \<Longrightarrow> read_item E rec ruleItemAdGuardDomain l o' = setP (se_ReadAdGuardMatcher E) (\<lambda>m. upd m o')"
    and "c \<Longrightarrow> f = upd m"
  shows "part_ok E rec (optW c (if v < RuleSetVersion2 then Err e
    else seqW [byteW ruleItemAdGuardDomain, se_adguard_Write E m]), f)"
proof (rule part_optW)
  assume c: c
  have "part_ok E rec (seqW [byteW ruleItemAdGuardDomain, se_adguard_Write E m], f)"
    unfolding assms(4) [OF c]
    by (rule part_item, simp add: ruleItemAdGuardDomain_def) (simp add: assms(3) [OF c] setP_back [OF srs_env_laws(8) [OF assms(1)]])
  then show "part_ok E rec (if v < RuleSetVersion2 then Err e
      else seqW [byteW ruleItemAdGuardDomain, se_adguard_Write E m], f)"
    by (simp add: part_ok_def)
qed (use assms(2) in auto)

lemma part_SourceIPSet:
  assumes "srs_env_ok E" and "length (cidr_set E v) \<le> se_max E"
  shows "part_ok E rec (optW (v \<noteq> []) (causeW msg (writeRuleItemCIDR E ruleItemSourceIPCIDR v)),
     \<lambda>r. o_SourceIPSet_update (\<lambda>x. if v \<noteq> [] then Some (se_SetContains E (cidr_set E v)) else x)
       (o_SourceIPCIDR_update (\<lambda>x. if rec \<and> v \<noteq> [] then se_SetPrefixes E (cidr_set E v) else x) r))"
  by (rule part_cidr [OF assms(1) _ assms(2), where upd = "\<lambda>s r. if rec
        then r\<lparr>o_SourceIPSet := Some (se_SetContains E s), o_SourceIPCIDR := se_SetPrefixes E s\<rparr>
        else r\<lparr>o_SourceIPSet := Some (se_SetContains E s)\<rparr>"];
      cases rec; simp add: read_item_def srs_consts update_ids If_eta Let_def fun_eq_iff)

lemma part_IPSet:
  assumes "srs_env_ok E" and "length (cidr_set E v) \<le> se_max E"
  shows "part_ok E rec (optW (v \<noteq> []) (causeW msg (writeRuleItemCIDR E ruleItemIPCIDR v)),
     \<lambda>r. o_IPSet_update (\<lambda>x. if v \<noteq> [] then Some (se_SetContains E (cidr_set E v)) else x)
       (o_IPCIDR_update (\<lambda>x. if rec \<and> v \<noteq> [] then se_SetPrefixes E (cidr_set E v) else x) r))"
  by (rule part_cidr [OF assms(1) _ assms(2), where upd = "\<lambda>s r. if rec
        then r\<lparr>o_IPSet := Some (se_SetContains E s), o_IPCIDR := se_SetPrefixes E s\<rparr>
        else r\<lparr>o_IPSet := Some (se_SetContains E s)\<rparr>"];
      cases rec; simp add: read_item_def srs_consts update_ids If_eta Let_def fun_eq_iff)

lemma part_matcher:
  assumes "srs_env_ok E"
  shows "part_ok E rec (optW c (seqW [byteW ruleItemDomain, se_matcher_Write E m]),
     \<lambda>r. o_DomainMatcher_update (\<lambda>x. if c then Some (se_matcher_Match E m) else x)
       (o_Domain_update (\<lambda>x. if rec \<and> c then fst (se_matcher_Dump E m) else x)
       (o_DomainSuffix_update (\<lambda>x. if rec \<and> c then snd (se_matcher_Dump E m) else x) r)))"
  by (rule part_domain [OF assms(1), where upd = "\<lambda>m r. if rec
        then r\<lparr>o_DomainMatcher := Some (se_matcher_Match E m), o_Domain := fst (se_matcher_Dump E m),
          o_DomainSuffix := snd (se_matcher_Dump E m)\<rparr>
        else r\<lparr>o_DomainMatcher := Some (se_matcher_Match E m)\<rparr>"];
      cases rec; simp add: read_item_def srs_consts update_ids If_eta Let_def fun_eq_iff)

lemma part_adguard_matcher:
  assumes "srs_env_ok E"
  shows "part_ok E rec (optW c (if v < RuleSetVersion2 then Err e
       else seqW [byteW ruleItemAdGuardDomain, se_adguard_Write E m]),
     \<lambda>r. o_AdGuardDomainMatcher_update (\<lambda>x. if c then Some (se_adguard_Match E m) else x)
       (o_AdGuardDomain_update (\<lambda>x. if rec \<and> c then se_adguard_Dump E m else x) r))"
  by (rule part_adguard [OF assms(1), where upd = "\<lambda>m r. if rec
        then r\<lparr>o_AdGuardDomainMatcher := Some (se_adguard_Match E m), o_AdGuardDomain := se_adguard_Dump E m\<rparr>
        else r\<lparr>o_AdGuardDomainMatcher := Some (se_adguard_Match E m)\<rparr>"];
      cases rec; simp add: read_item_def srs_consts update_ids If_eta Let_def fun_eq_iff)

lemma flag_parts:
  "part_ok E rec (optW c (byteW ruleItemNetworkIsExpensive), o_NetworkIsExpensive_update (\<lambda>x. c \<or> x))"
  "part_ok E rec (optW c (byteW ruleItemNetworkIsConstrained), o_NetworkIsConstrained_update (\<lambda>x. c \<or> x))"
  by (rule part_optW, rule part_flag; simp add: read_item_def srs_consts update_ids)+

lemma parts_ok:
  assumes "srs_env_ok E" and "options_fit E o'"
  shows "list_all (part_ok E rec) (rule_parts E rec v o')"
proof -
  have "part_ok E rec (optW (o_NetworkType o' \<noteq> [])
       (if v < RuleSetVersion3 then Err (ENew [AStr ''network_type rule item is only supported in version 3 or later''])
        else writeRuleItemUint8 E ruleItemNetworkType (map interface_byte (o_NetworkType o'))),
     o_NetworkType_update (\<lambda>x. if o_NetworkType o' \<noteq> [] then o_NetworkType o' else x))"
    using assms(2) by (intro part_network_type [OF assms(1)]) (auto simp: options_fit_def update_ids If_eta)
  moreover have "length (cidr_set E (o_SourceIPCIDR o')) \<le> se_max E" "length (cidr_set E (o_IPCIDR o')) \<le> se_max E"
    using assms(2) by (simp_all add: options_fit_def)
  ultimately show ?thesis
    unfolding rule_parts_def list.pred_inject
    by (intro conjI TrueI string_parts uint16_parts part_SourceIPSet part_IPSet part_matcher part_adguard_matcher
      flag_parts assms(1)) (assumption | simp)+
qed

text \<open>A default rule is read back; as much fuel as there are bytes is enough.\<close>

lemma default_rule_back:
  assumes "srs_env_ok E" and "options_fit E o'" and "writeDefaultRule E o' v = Ok b"
  obtains c where "b = be_bytes 1 0 @ c"
    and "\<And>n. length c \<le> n \<Longrightarrow> reads_back (readDefaultRule n E rec 0 empty_headless) c (srs_normal E rec v o')"
proof -
  from assms(3) obtain m f g where b: "b = be_bytes 1 0 @ m @ f @ g" "seqW (map fst (rule_parts E rec v o')) = Ok m"
    "byteW ruleItemFinal = Ok f" "boolW (o_Invert o') = Ok g"
    by (auto simp: write_parts [where rec = rec] seqW_Cons_Ok seqW_append_Ok byteW_def simp del: seqW.simps(2) be_bytes.simps)
  from parts_fill [OF parts_ok [OF assms(1,2)] b(2)] obtain k where k: "k \<le> length m"
    and fill: "\<And>n l o'' r e. \<exists>l'. readDefaultRule (k + n) E rec l o'' \<lparr>rd_data = m @ r, rd_end = e\<rparr> =
      readDefaultRule n E rec l' (fold snd (rule_parts E rec v o') o'') \<lparr>rd_data = r, rd_end = e\<rparr>"
    unfolding fills_def by blast
  have final: "reads_back (readDefaultRule (Suc n) E rec l r0) (f @ g) (r0\<lparr>o_Invert := o_Invert o'\<rparr>)" for n l r0
    unfolding readDefaultRule.simps
    by (rule byte.back_then [OF _ b(3)]) (use bool.back_last [OF TrueI b(4)] in \<open>auto simp: ruleItemFinal_def\<close>)
  have "reads_back (readDefaultRule n E rec 0 empty_headless) (m @ f @ g) (srs_normal E rec v o')"
    if "length (m @ f @ g) \<le> n" for n
  proof -
    have "length f = 1" using b(3) by (auto simp: byteW_def)
    then have "k + 1 \<le> n" using that k by simp
    define j where "j = n - Suc k"
    with \<open>k + 1 \<le> n\<close> have "n = k + Suc j" by simp
    moreover have "readDefaultRule (k + Suc j) E rec 0 empty_headless \<lparr>rd_data = (m @ f @ g) @ r, rd_end = e\<rparr> =
        Some (Ok (srs_normal E rec v o', \<lparr>rd_data = r, rd_end = e\<rparr>))" for r e
    proof -
      from fill [of "Suc j" 0 empty_headless "f @ g @ r" e] obtain l' where
        "readDefaultRule (k + Suc j) E rec 0 empty_headless \<lparr>rd_data = m @ f @ g @ r, rd_end = e\<rparr> =
         readDefaultRule (Suc j) E rec l' (fold snd (rule_parts E rec v o') empty_headless) \<lparr>rd_data = f @ g @ r, rd_end = e\<rparr>"
        by blast
      with final [of j l' "fold snd (rule_parts E rec v o') empty_headless"] show ?thesis
        unfolding reads_back_def fold_parts by (simp del: readDefaultRule.simps)
    qed
    ultimately show ?thesis unfolding reads_back_def by blast
  qed
  then show ?thesis using that b(1) by blast
qed

section \<open>Whole rules and rule sets\<close>

fun rule_normal :: "(headless_options \<Rightarrow> headless_options) \<Rightarrow> headless_options rule_options \<Rightarrow> headless_options rule_options" where
  "rule_normal f (DefaultOptions o') = DefaultOptions (f o')"
| "rule_normal f (LogicalOptions rs md neg) = LogicalOptions (map (rule_normal f) rs) md neg"
| "rule_normal f (UnknownType t) = UnknownType t"

fun rule_fits :: "('m, 'g) srs_env \<Rightarrow> headless_options rule_options \<Rightarrow> bool" where
  "rule_fits E (DefaultOptions o') \<longleftrightarrow> options_fit E o'"
| "rule_fits E (LogicalOptions rs md neg) \<longleftrightarrow> length rs \<le> se_max E \<and> (\<forall>r \<in> set rs. rule_fits E r)"
| "rule_fits E (UnknownType t) \<longleftrightarrow> True"

lemma writeRule_long: "writeRule E x v = Ok b \<Longrightarrow> b \<noteq> []"
  by (cases x) (auto simp: writeDefaultRule_def seqW_Cons_Ok byteW_def split: if_splits simp del: seqW.simps(2))

lemma rules_back:
  "srs_env_ok E \<Longrightarrow> rule_fits E x \<Longrightarrow> writeRule E x v = Ok b \<Longrightarrow> 2 * length b \<le> n \<Longrightarrow>
     reads_back (readRule n E rec) b (rule_normal (srs_normal E rec v) x)"
  "srs_env_ok E \<Longrightarrow> (\<forall>x \<in> set xs. rule_fits E x) \<Longrightarrow> write_rules E xs v = Ok b \<Longrightarrow> 2 * length b + 1 \<le> n \<Longrightarrow>
     reads_back (read_rules n E rec msg i (length xs)) b (map (rule_normal (srs_normal E rec v)) xs)"
proof (induction E x v and E xs v arbitrary: b n and b n i msg rule: writeRule_write_rules.induct)
  case (1 E o' v)
  from "1.prems" obtain c where c: "b = be_bytes 1 0 @ c"
    "\<And>n. length c \<le> n \<Longrightarrow> reads_back (readDefaultRule n E rec 0 empty_headless) c (srs_normal E rec v o')"
    using default_rule_back [of E o' v b rec] by auto
  then obtain m where n: "n = Suc m" "length c \<le> m" using "1.prems"(4) by (cases n) auto
  show ?case
    unfolding n(1) readRule.simps c(1)
    by (rule byte.back_then [where x = 0]) (auto simp: byteW_def intro!: reads_back_bind0 [OF c(2) [OF n(2)]])
next
  case (2 E rs md neg v)
  then have md: "md = LogicalTypeAnd \<or> md = LogicalTypeOr" by (simp split: if_splits)
  with "2.prems"(1,3) obtain t m c d where b: "b = t @ m @ uvarint (length rs) @ c @ d" "byteW 1 = Ok t"
    "byteW (if md = LogicalTypeAnd then 0 else 1) = Ok m" "write_rules E rs v = Ok c" "boolW neg = Ok d"
    by (auto simp: seqW_Cons_Ok srs_env_laws(3) simp del: seqW.simps(2))
  have "length t = 1" "length m = 1" using b(2,3) by (auto simp: byteW_def)
  then obtain k where n: "n = Suc (Suc k)" "2 * length c + 1 \<le> k"
    using "2.prems"(4) b(1) by (cases n; cases "n - 1") auto
  have len: "length rs < 2 ^ 64" "length rs \<le> se_max E"
    using "2.prems"(2) srs_env_laws(1) [OF "2.prems"(1)] by auto
  have IH: "reads_back (read_rules k E rec ''read logical rule ['' 0 (length rs)) c (map (rule_normal (srs_normal E rec v)) rs)"
    using "2.IH" md "2.prems" b(4) n(2) by auto
  obtain w where w: "byteW w = Ok m" "w < 2" "md = (if w = 0 then LogicalTypeAnd else LogicalTypeOr)"
    using b(3) md that [of "if md = LogicalTypeAnd then 0 else 1"] by auto
  have "reads_back (bindP (make_slice E (length rs)) (\<lambda>_. bindP (read_rules k E rec ''read logical rule ['' 0 (length rs))
      (\<lambda>rules. bindP read_bool (\<lambda>b. retP (LogicalOptions rules (if w = 0 then LogicalTypeAnd else LogicalTypeOr) b)))))
      ([] @ c @ d) (LogicalOptions (map (rule_normal (srs_normal E rec v)) rs) md neg)"
    by (intro reads_back_bind [OF reads_back_make [OF len(2)]] reads_back_bind [OF IH] bool.back_last [OF TrueI b(5)])
      (simp add: w(3))
  then have "reads_back (readLogicalRule (Suc k) E rec) (m @ uvarint (length rs) @ c @ d)
      (LogicalOptions (map (rule_normal (srs_normal E rec v)) rs) md neg)"
    unfolding readLogicalRule.simps using w(2)
    by (intro byte.back_then [OF _ w(1)]) (auto intro!: varint.back_then [OF len(1) refl])
  then show ?case
    unfolding n(1) readRule.simps b(1) by (intro byte.back_then [OF _ b(2)]) auto
next
  case (5 E r rs v)
  from "5.prems"(3) obtain a c where b: "b = a @ c" "writeRule E r v = Ok a" "write_rules E rs v = Ok c"
    by (auto simp: bindR_Ok)
  have "a \<noteq> []" using writeRule_long [OF b(2)] .
  then obtain k where n: "n = Suc k" "2 * length a \<le> k" "2 * length c + 1 \<le> k"
    using "5.prems"(4) b(1) by (cases n; cases a) auto
  note r = "5.IH"(1) [OF "5.prems"(1) _ b(2) n(2)] and rs = "5.IH"(2) [OF "5.prems"(1) _ b(3) n(3)]
  have "reads_back (bindP (causeP [AStr msg, AInt (int i), AStr '']''] (readRule k E rec)) (\<lambda>x.
      bindP (read_rules k E rec msg (i + 1) (length rs)) (\<lambda>xs. retP (x # xs)))) (a @ c)
      (map (rule_normal (srs_normal E rec v)) (r # rs))"
    using "5.prems"(2) by (intro reads_back_bind [OF reads_back_cause [OF r]] reads_back_bind0 [OF rs]) auto
  then show ?case unfolding n(1) read_rules.simps b(1) by simp
qed (auto simp: Suc_le_eq gr0_conv_Suc)

lemma srs_read_written:
  assumes "srs_env_ok E" and "v \<le> RuleSetVersionCurrent"
    and "length hs \<le> se_max E" and "\<forall>x \<in> set hs. rule_fits E x"
    and "srs_Write E sink hs v = Ok out"
  shows "srs_Read E \<lparr>rd_data = out, rd_end = ioEOF\<rparr> rec =
    Some (Ok \<lparr>prs_Version = v, prs_Rules = map (rule_normal (srs_normal E rec v)) hs\<rparr>)"
proof -
  from assms(5) obtain body where body: "write_rules E hs v = Ok body"
    "out = MagicBytes @ be_bytes 1 v @ se_compress E (uvarint (length hs) @ body)"
    by (auto simp: srs_Write_def Let_def bindR_Ok srs_env_laws(3) [OF assms(1)] split: option.splits simp del: be_bytes.simps)
  let ?hd = "bindP (read_full_n 3) (\<lambda>magicBytes.
      if magicBytes \<noteq> MagicBytes then failP (ENew [AStr ''invalid sing-box rule-set file''])
      else bindP read_uint8 (\<lambda>version.
        if version > RuleSetVersionCurrent then failP (ENew [AStr ''unsupported version: '', AInt (int version)])
        else retP version))"
  have v: "v < 256" using assms(2) by (simp add: RuleSetVersionCurrent_def RuleSetVersion3_def)
  have "reads_back ?hd (MagicBytes @ be_bytes 1 v) v"
    using assms(2) by (intro reads_back_bind [OF read_full_back])
      (auto simp: MagicBytes_def intro!: reads_back_bind0 [OF byte_back [OF v]] simp del: be_bytes.simps One_nat_def)
  then have head: "?hd \<lparr>rd_data = out, rd_end = ioEOF\<rparr> =
      Some (Ok (v, \<lparr>rd_data = se_compress E (uvarint (length hs) @ body), rd_end = ioEOF\<rparr>))"
    unfolding reads_back_def body(2) by (metis append_assoc)
  let ?n = "2 * length (uvarint (length hs) @ body) + 2"
  have len: "length hs < 2 ^ 64" using assms(3) srs_env_laws(1) [OF assms(1)] by simp
  have "reads_back (bindP (make_slice E (length hs)) (\<lambda>_. read_rules ?n E rec ''read rule['' 0 (length hs)))
      ([] @ body) (map (rule_normal (srs_normal E rec v)) hs)"
    by (rule reads_back_bind [OF reads_back_make [OF assms(3)] rules_back(2) [OF assms(1,4) body(1)]]) simp
  then have "reads_back (bindP ReadUvarint (\<lambda>length. bindP (make_slice E length) (\<lambda>_.
      read_rules ?n E rec ''read rule['' 0 length))) (uvarint (length hs) @ body) (map (rule_normal (srs_normal E rec v)) hs)"
    by (intro varint.back_then [OF len refl]) simp
  from this [unfolded reads_back_def, rule_format, of "[]" ioEOF] show ?thesis
    unfolding srs_Read_def head by (simp add: srs_env_laws(2) [OF assms(1)] del: read_rules.simps length_append)
qed

text \<open>
  C8: A rule set that was written is read back: the version, and every rule with all its conditions, nested rules,
  connectives and negations included.  Domains, networks and AdGuard rules come back as the matchers
  and sets that were compiled from them, and as lists when the reader recovers them.
\<close>

theorem srs_roundtrip:
  assumes "srs_env_ok E" and "v \<le> RuleSetVersionCurrent"
    and "length hs \<le> se_max E" and "\<forall>x \<in> set hs. rule_fits E x"
    and "srs_Write E sink hs v = Ok out"
  shows "srs_Read E \<lparr>rd_data = out, rd_end = ioEOF\<rparr> rec =
    Some (Ok \<lparr>prs_Version = v, prs_Rules = map (rule_normal (srs_normal E rec v)) hs\<rparr>)"
  using assms by (rule srs_read_written)

section \<open>Reading ends\<close>

text \<open>
  A reader that returns on at most \<open>L\<close> bytes, and that has consumed at least \<open>d\<close> bytes when it succeeds.
\<close>

definition ends :: "nat \<Rightarrow> nat \<Rightarrow> 'a reader \<Rightarrow> bool" where
  "ends d L p \<longleftrightarrow> (\<forall>r. length (rd_data r) \<le> L \<longrightarrow> p r \<noteq> None \<and>
     (\<forall>x r'. p r = Some (Ok (x, r')) \<longrightarrow> length (rd_data r') + d \<le> length (rd_data r)))"

lemma ends_simple [simp]: "ends 0 L (retP x)" "ends d L (failP e)" "ends 0 L (make_slice E n)"
  by (auto simp: ends_def retP_def failP_def make_slice_def split: if_splits)

lemma ends_bind:
  assumes "ends d L p" and "\<And>x. d \<le> L \<Longrightarrow> ends e (L - d) (f x)"
  shows "ends (d + e) L (bindP p f)"
  unfolding ends_def
proof (intro allI impI)
  fix r :: rd assume L: "length (rd_data r) \<le> L"
  show "bindP p f r \<noteq> None \<and>
    (\<forall>x r'. bindP p f r = Some (Ok (x, r')) \<longrightarrow> length (rd_data r') + (d + e) \<le> length (rd_data r))"
  proof (cases "\<exists>x r1. p r = Some (Ok (x, r1))")
    case True
    then obtain x r1 where p: "p r = Some (Ok (x, r1))" by blast
    with assms(1) L have r1: "length (rd_data r1) + d \<le> length (rd_data r)" unfolding ends_def by blast
    then have "length (rd_data r1) \<le> L - d" "d \<le> L" using L by auto
    with assms(2) [of x] r1 show ?thesis by (force simp: ends_def bindP_def p)
  next
    case False
    moreover have "p r \<noteq> None" using assms(1) L unfolding ends_def by blast
    ultimately show ?thesis by (auto simp: bindP_def split: option.splits res.splits)
  qed
qed

lemma ends_last: "ends d L p \<Longrightarrow> ends d L (bindP p (\<lambda>x. retP (g x)))"
  using ends_bind [of d L p 0 "\<lambda>x. retP (g x)"] by simp

lemma ends_mono: "ends d L p \<Longrightarrow> d' \<le> d \<Longrightarrow> ends d' L p"
  unfolding ends_def by (meson add_left_mono order_trans)

lemma ends_cause: "ends d L p \<Longrightarrow> ends d L (causeP m p)"
  unfolding ends_def causeP_def by (auto split: option.splits res.splits)

lemma ends_full: "ends n L (read_full_n n)"
  by (auto simp: ends_def read_full_n_def)

lemma ends_byte: "ends 1 L read_uint8"
  unfolding read_uint8_def by (rule ends_last [OF ends_full [of 1 L]])

lemma ends_bool: "ends 1 L read_bool"
  unfolding read_bool_def by (rule ends_last [OF ends_byte [of L]])

lemma ends_uint64: "ends 8 L read_uint64"
  unfolding read_uint64_def by (rule ends_last [OF ends_full [of 8 L]])

lemma ends_uvarint_loop: "ends 1 L (uvarint_loop k i x)"
proof (induction k arbitrary: i x)
  case (Suc k)
  show ?case
    unfolding ends_def
  proof (intro allI impI)
    fix r :: rd assume L: "length (rd_data r) \<le> L"
    show "uvarint_loop (Suc k) i x r \<noteq> None \<and> (\<forall>y r'. uvarint_loop (Suc k) i x r = Some (Ok (y, r')) \<longrightarrow>
        length (rd_data r') + 1 \<le> length (rd_data r))"
    proof (cases "rd_data r")
      case (Cons c cs)
      have IH: "uvarint_loop k j y (r\<lparr>rd_data := cs\<rparr>) \<noteq> None" "uvarint_loop k j y (r\<lparr>rd_data := cs\<rparr>) = Some (Ok (z, r')) \<Longrightarrow>
          length (rd_data r') + 1 \<le> length cs" for j y z r'
        using Suc.IH [of j y, unfolded ends_def, rule_format, of "r\<lparr>rd_data := cs\<rparr>"] L Cons by auto
      show ?thesis
        using IH(1) by (auto simp: Cons Let_def failP_def retP_def dest!: IH(2))
    qed auto
  qed
qed simp

lemma ends_uvarint: "ends 1 L ReadUvarint"
  unfolding ReadUvarint_def by (rule ends_uvarint_loop)

text \<open>No foreign reader gives more bytes back than it got.\<close>

definition shrinks :: "(rd \<Rightarrow> ('a \<times> rd) res) \<Rightarrow> bool" where
  "shrinks p \<longleftrightarrow> (\<forall>r x r'. p r = Ok (x, r') \<longrightarrow> length (rd_data r') \<le> length (rd_data r))"

definition readers_shrink :: "('m, 'g) srs_env \<Rightarrow> bool" where
  "readers_shrink E \<longleftrightarrow> shrinks (se_ReadStrings E) \<and> shrinks (se_ReadUint16s E) \<and> shrinks (se_ReadUint8s E) \<and>
     (\<forall>n. shrinks (se_ReadRanges E n)) \<and> shrinks (se_ReadMatcher E) \<and> shrinks (se_ReadAdGuardMatcher E)"

lemma ends_foreign: "shrinks p \<Longrightarrow> ends 0 L (foreignP p)"
  by (auto simp: ends_def shrinks_def foreignP_def)

lemma ends_set: "shrinks p \<Longrightarrow> ends 0 L (setP p upd)"
  unfolding setP_def by (intro ends_last ends_foreign)

lemma ends_bind0: "ends d L p \<Longrightarrow> (\<And>x. d \<le> L \<Longrightarrow> ends 0 (L - d) (f x)) \<Longrightarrow> ends 0 L (bindP p f)"
  using ends_bind [of d L p 0 f] ends_mono by (metis add_0_right le0)

lemma ends_ip_set: "readers_shrink E \<Longrightarrow> ends 0 L (readIPSet E)"
  unfolding readIPSet_def
  by (auto simp: readers_shrink_def intro!: ends_bind0 [OF ends_byte] ends_bind0 [OF ends_uint64]
    ends_bind0 [OF ends_simple(3)] ends_last ends_foreign)

lemma ends_if: "ends d L p \<Longrightarrow> ends d L q \<Longrightarrow> ends d L (if c then p else q)"
  by simp

lemma ends_item: "readers_shrink E \<Longrightarrow> ends 0 L (read_item E rec t l o')"
  unfolding read_item_def Let_def
  by (intro ends_if ends_set ends_last ends_ip_set ends_simple; simp add: readers_shrink_def)

lemma ends_default:
  assumes "readers_shrink E"
  shows "L < n \<Longrightarrow> ends 0 L (readDefaultRule n E rec l o')"
proof (induction n arbitrary: L l o')
  case (Suc n)
  show ?case
    unfolding readDefaultRule.simps
  proof (rule ends_bind0 [OF ends_byte])
    fix t assume "1 \<le> L"
    with Suc.prems have "L - 1 < n" by simp
    then have "ends 0 (L - 1) (bindP (read_item E rec t l o') (\<lambda>rule'. readDefaultRule n E rec t rule'))"
      by (intro ends_bind0 [OF ends_item [OF assms]] Suc.IH) simp
    then show "ends 0 (L - 1) (if t = ruleItemFinal then bindP read_bool (\<lambda>b. retP (o'\<lparr>o_Invert := b\<rparr>))
        else bindP (read_item E rec t l o') (\<lambda>rule'. readDefaultRule n E rec t rule'))"
      by (auto intro: ends_mono [OF ends_last [OF ends_bool]])
  qed
qed simp

lemma ends_rules:
  "readers_shrink E \<Longrightarrow> 2 * L + 1 \<le> n \<Longrightarrow> ends 1 L (readRule n E rec)"
  "readers_shrink E \<Longrightarrow> 2 * L + 2 \<le> n \<Longrightarrow> ends 0 L (readLogicalRule n E rec)"
  "readers_shrink E \<Longrightarrow> 2 * L + 2 \<le> n \<Longrightarrow> ends 0 L (read_rules n E rec msg i k)"
proof (induction n E rec and n E rec and n E rec msg i k arbitrary: L and L and L rule: readRule_readLogicalRule_read_rules.induct)
  case (2 n E rec)
  have "ends 0 (L - 1) (if t = 0 then bindP (readDefaultRule n E rec 0 empty_headless) (\<lambda>o'. retP (DefaultOptions o'))
       else if t = 1 then readLogicalRule n E rec
       else failP (ENew [AStr ''unknown rule type: '', AInt (int t)]))" if "1 \<le> L" for t
    using that 2 by (auto intro!: ends_last ends_default)
  from ends_bind [OF ends_byte this] show ?case unfolding readRule.simps by simp
next
  case (4 n E rec)
  have IH: "ends 0 L' (read_rules n E rec ''read logical rule ['' 0 k)" if "2 * L' + 2 \<le> n" for L' k
    using "4.IH" [of 0] "4.prems"(1) that by auto
  show ?case
    unfolding readLogicalRule.simps
    by (rule ends_bind0 [OF ends_byte], rule ends_if, simp, rule ends_bind0 [OF ends_uvarint], rule ends_bind0 [OF ends_simple(3)],
      rule ends_bind0 [OF IH]) (use "4.prems"(2) in \<open>auto intro: ends_mono [OF ends_last [OF ends_bool]]\<close>)
next
  case (6 n E rec msg i k)
  have "ends 0 L (bindP (causeP [AStr msg, AInt (int i), AStr '']''] (readRule n E rec)) (\<lambda>x.
      bindP (read_rules n E rec msg (i + 1) (k - 1)) (\<lambda>xs. retP (x # xs))))" if "k \<noteq> 0"
    using 6 that by (intro ends_bind0 [OF ends_cause, where d = 1] ends_last) auto
  then show ?case by simp
qed auto

text \<open>
  C38: Reading a rule set always returns, whatever the bytes: the fuel for nested rules is enough for every input.
\<close>

theorem srs_Read_returns:
  assumes "readers_shrink E"
  shows "\<exists>y. srs_Read E r rec = Some y"
proof -
  have h: "ends 0 L (bindP (read_full_n 3) (\<lambda>magicBytes.
      if magicBytes \<noteq> MagicBytes then failP (ENew [AStr ''invalid sing-box rule-set file''])
      else bindP read_uint8 (\<lambda>version.
        if version > RuleSetVersionCurrent then failP (ENew [AStr ''unsupported version: '', AInt (int version)])
        else retP version)))" for L
    by (auto intro!: ends_bind0 [OF ends_full] ends_bind0 [OF ends_byte])
  have b: "ends 0 (length bs) (bindP ReadUvarint (\<lambda>n. bindP (make_slice E n) (\<lambda>_.
      read_rules (2 * length bs + 2) E rec ''read rule['' 0 n)))" for bs :: string
    by (rule ends_bind0 [OF ends_uvarint], rule ends_bind0 [OF ends_simple(3)])
      (rule ends_rules(3) [OF assms], simp)
  show ?thesis
    using h [of "length (rd_data r)"] b unfolding srs_Read_def
    by (fastforce simp: ends_def simp del: read_rules.simps split: option.splits res.splits)
qed

section \<open>A concrete environment\<close>

text \<open>
  Foreign packages that satisfy the hypotheses: lengths and counts as one byte, so long values are refused; no
  compression; addresses only.
\<close>

definition strip :: "'a reader \<Rightarrow> rd \<Rightarrow> ('a \<times> rd) res" where
  "strip p r = (case p r of Some y \<Rightarrow> y | None \<Rightarrow> Err ioEOF)"

lemma strip_back: "reads_back p b x \<Longrightarrow> reads_back (foreignP (strip p)) b x"
  by (simp add: reads_back_def foreignP_def strip_def)

lemma strip_shrinks: "(\<And>L. ends d L p) \<Longrightarrow> shrinks (strip p)"
  unfolding ends_def shrinks_def strip_def by (auto split: option.splits) (metis add_leD1 order_refl)

definition short :: "'x list \<Rightarrow> string res \<Rightarrow> string res" where
  "short xs w = (if length xs < 256 then seqW [byteW (length xs), w] else Err (EForeign ''too long''))"

definition strW :: "string \<Rightarrow> string res" where "strW s = short s (Ok s)"
definition strR :: "string reader" where "strR = bindP read_uint8 (\<lambda>n. read_full_n n)"
definition listW :: "('x \<Rightarrow> string res) \<Rightarrow> 'x list \<Rightarrow> string res" where "listW w xs = short xs (seqW (map w xs))"
definition listR :: "'x reader \<Rightarrow> 'x list reader" where "listR p = bindP read_uint8 (\<lambda>n. read_many n p)"
definition pairW :: "('x \<Rightarrow> string res) \<Rightarrow> ('y \<Rightarrow> string res) \<Rightarrow> 'x \<times> 'y \<Rightarrow> string res" where
  "pairW v w = (\<lambda>(x, y). seqW [v x, w y])"
definition pairR :: "'x reader \<Rightarrow> 'y reader \<Rightarrow> ('x \<times> 'y) reader" where
  "pairR p q = bindP p (\<lambda>x. bindP q (\<lambda>y. retP (x, y)))"
definition wordW :: "16 word \<Rightarrow> string res" where "wordW w = Ok (be_bytes 2 (unat w))"
definition wordR :: "16 word reader" where "wordR = bindP (read_full_n 2) (\<lambda>b. retP (word_of_nat (be_value b)))"

lemma strR_back: "strW s = Ok b \<Longrightarrow> reads_back strR b s"
  by (auto simp: strW_def strR_def short_def bindR_Ok split: if_splits intro!: byte.back_then read_full_back)

lemma wordR_back: "wordW w = Ok b \<Longrightarrow> reads_back wordR b w"
  unfolding wordR_def wordW_def by (auto intro!: reads_back_bind0 [OF read_full_back] simp: be_value_word16 simp del: be_bytes.simps)

lemma listR_back:
  assumes "codec P w p (\<lambda>x. x)" and "list_all P xs" and "listW w xs = Ok b"
  shows "reads_back (listR p) b xs"
  using assms(2,3) codec.back_many [OF assms(1,2)]
  by (auto simp: listW_def listR_def short_def bindR_Ok split: if_splits intro!: byte.back_then)

lemma pairR_back:
  assumes "codec P v p (\<lambda>x. x)" and "codec Q w q (\<lambda>x. x)" and "P (fst x)" and "Q (snd x)" and "pairW v w x = Ok b"
  shows "reads_back (pairR p q) b x"
  using assms(3-5) codec.recovers [OF assms(1)] codec.recovers [OF assms(2)]
  by (cases x) (auto simp: pairW_def pairR_def bindR_Ok intro!: reads_back_bind [where p = p] reads_back_bind0 [where p = q])

interpretation str: codec "\<lambda>_. True" strW strR "\<lambda>s. s"
  by unfold_locales (rule strR_back)

interpretation word16: codec "\<lambda>_. True" wordW wordR "\<lambda>w. w"
  by unfold_locales (rule wordR_back)

interpretation strs: codec "\<lambda>_. True" "listW strW" "listR strR" "\<lambda>ss. ss"
  by unfold_locales (auto intro: listR_back [OF str.codec_axioms] simp: list_all_iff)

interpretation str_pair: codec "\<lambda>_. True" "pairW strW strW" "pairR strR strR" "\<lambda>x. x"
  by unfold_locales (auto intro: pairR_back [OF str.codec_axioms str.codec_axioms])

interpretation strs_pair: codec "\<lambda>_. True" "pairW (listW strW) (listW strW)" "pairR (listR strR) (listR strR)" "\<lambda>x. x"
  by unfold_locales (auto intro: pairR_back [OF strs.codec_axioms strs.codec_axioms])

definition demo_srs :: "rule_env \<Rightarrow> (string list \<times> string list, string list) srs_env" where
  "demo_srs env = \<lparr>se_max = 1000, se_compress = (\<lambda>b. b), se_zlib = (\<lambda>b. Ok (b, ioEOF)), se_WriteUvarint = uvarint,
     se_WriteStrings = listW strW, se_ReadStrings = strip (listR strR),
     se_WriteUint16s = listW wordW, se_ReadUint16s = strip (listR wordR),
     se_WriteUint8s = listW byteW, se_ReadUint8s = strip (listR read_uint8),
     se_WriteRange = pairW strW strW, se_ReadRanges = (\<lambda>n. strip (read_many n (pairR strR strR))),
     se_NewMatcher = (\<lambda>d s l. (d, s)), se_matcher_Write = pairW (listW strW) (listW strW),
     se_ReadMatcher = strip (pairR (listR strR) (listR strR)), se_matcher_Dump = (\<lambda>m. m),
     se_matcher_Match = (\<lambda>(d, s). domain_NewMatcher env d s False),
     se_NewAdGuardMatcher = (\<lambda>xs. xs), se_adguard_Write = listW strW, se_ReadAdGuardMatcher = strip (listR strR),
     se_adguard_Dump = (\<lambda>g. g), se_adguard_Match = domain_NewAdGuardMatcher env,
     se_ParsePrefix = (\<lambda>_. Inl (EForeign ''no prefix'')),
     se_ParseAddr = (\<lambda>s. if s = ''10.0.0.1'' then Inr (Addr4 0x0A000001) else Inl (EForeign ''no address'')),
     se_BuildSet = (\<lambda>ps. Inr (map (\<lambda>a. (addr_withoutZone a, addr_withoutZone a)) (map (case_sum fst id) ps))),
     se_SetContains = (\<lambda>rr a. list_ex (\<lambda>(l, h). a = l) rr), se_SetPrefixes = (\<lambda>rr. []),
     se_AddrFromIP = (\<lambda>b. if length b = 4 then Addr4 (word_of_nat (be_value b))
        else if length b = 16 then Addr6 (word_of_nat (be_value b)) [] else AddrNone)\<rparr>"

lemma demo_srs_ok: "srs_env_ok (demo_srs env)"
proof -
  have "addr_withoutZone (addr_withoutZone a) = addr_withoutZone a" for a by (cases a) auto
  moreover have "foreign_codec (\<lambda>_. True) (listW strW) (strip (listR strR))"
    "foreign_codec (\<lambda>_. True) (listW wordW) (strip (listR wordR))"
    "foreign_codec (\<lambda>ns. \<forall>n \<in> set ns. n < 256) (listW byteW) (strip (listR read_uint8))"
    "foreign_codec (\<lambda>_. True) (pairW (listW strW) (listW strW)) (strip (pairR (listR strR) (listR strR)))"
    unfolding foreign_codec_def
    by (auto intro!: strip_back strs.recovers strs_pair.recovers listR_back [OF word16.codec_axioms]
      listR_back [OF byte.codec_axioms] simp: list_all_iff)
  moreover have "reads_back (foreignP (strip (read_many (length ds) (pairR strR strR)))) b ds"
    if "seqW (map (pairW strW strW) ds) = Ok b" for ds b
    using strip_back [OF str_pair.back_many [OF _ that]] by (simp add: list_all_iff)
  moreover have "(if length (addr_AsSlice a) = 4 then Addr4 (word_of_nat (be_value (addr_AsSlice a)))
      else if length (addr_AsSlice a) = 16 then Addr6 (word_of_nat (be_value (addr_AsSlice a))) [] else AddrNone) = a"
    if "addr_withoutZone a = a" for a
    using that by (cases a) (auto simp: be_value_word simp del: be_bytes.simps)
  ultimately show ?thesis
    unfolding srs_env_ok_def demo_srs_def by (simp del: addr_AsSlice.simps)
qed

lemma ends_many: "(\<And>L. ends 0 L p) \<Longrightarrow> ends 0 L (read_many n p)"
  by (induction n arbitrary: L) (auto intro!: ends_bind0 ends_last)

lemma ends_str: "ends 0 L strR"
  unfolding strR_def by (rule ends_bind0 [OF ends_byte]) (rule ends_mono [OF ends_full], simp)

lemma ends_list: "(\<And>L. ends 0 L p) \<Longrightarrow> ends 0 L (listR p)"
  unfolding listR_def by (rule ends_bind0 [OF ends_byte]) (rule ends_many)

lemma ends_pair: "(\<And>L. ends 0 L p) \<Longrightarrow> (\<And>L. ends 0 L q) \<Longrightarrow> ends 0 L (pairR p q)"
  unfolding pairR_def by (auto intro!: ends_bind0 ends_last)

lemma demo_srs_shrinks: "readers_shrink (demo_srs env)"
  unfolding readers_shrink_def demo_srs_def wordR_def
  by (auto intro!: strip_shrinks [where d = 0] ends_many ends_list ends_pair ends_str ends_mono [OF ends_byte]
    ends_bind0 [OF ends_full])

definition demo_rules :: "headless_options rule_options list" where
  "demo_rules = [LogicalOptions
     [DefaultOptions (empty_headless\<lparr>o_Domain := [''example.com''], o_Port := [443]\<rparr>),
      DefaultOptions (empty_headless\<lparr>o_IPCIDR := [''10.0.0.1''], o_NetworkType := [InterfaceTypeWIFI], o_Invert := True\<rparr>)]
     LogicalTypeOr False]"

lemma demo_rules_written: "\<exists>out. srs_Write (demo_srs env) (\<lambda>_. None) demo_rules 3 = Ok out"
  by (simp add: srs_Write_def demo_rules_def writeDefaultRule_def optW_def causeW_def writeRuleItemCIDR_def writeIPSet_def
    writeRuleItemUint16_def writeRuleItemUint8_def byteW_def boolW_def demo_srs_def empty_headless_def empty_common_def
    common_options.defs headless_options.defs listW_def strW_def short_def pairW_def wordW_def Let_def RuleSetVersion3_def)

lemma demo_rules_fit: "length demo_rules \<le> se_max (demo_srs env)" "\<forall>x \<in> set demo_rules. rule_fits (demo_srs env) x"
  by (simp_all add: demo_rules_def options_fit_def cidr_set_def cidr_ranges_def demo_srs_def empty_headless_def empty_common_def
    common_options.defs headless_options.defs)

theorem srs_roundtrip_witness:
  "\<exists>out. srs_Write (demo_srs demo_rule_env) (\<lambda>_. None) demo_rules 3 = Ok out \<and>
     srs_Read (demo_srs demo_rule_env) \<lparr>rd_data = out, rd_end = ioEOF\<rparr> False =
       Some (Ok \<lparr>prs_Version = 3, prs_Rules = [LogicalOptions
         [DefaultOptions (empty_headless\<lparr>o_DomainMatcher := Some (\<lambda>s. s = ''example.com''), o_Port := [443]\<rparr>),
          DefaultOptions (empty_headless\<lparr>o_IPSet := Some (\<lambda>a. a = Addr4 0x0A000001),
            o_NetworkType := [InterfaceTypeWIFI], o_Invert := True\<rparr>)] LogicalTypeOr False]\<rparr>)"
proof -
  obtain out where out: "srs_Write (demo_srs demo_rule_env) (\<lambda>_. None) demo_rules 3 = Ok out"
    using demo_rules_written by blast
  have "map (rule_normal (srs_normal (demo_srs demo_rule_env) False 3)) demo_rules = [LogicalOptions
         [DefaultOptions (empty_headless\<lparr>o_DomainMatcher := Some (\<lambda>s. s = ''example.com''), o_Port := [443]\<rparr>),
          DefaultOptions (empty_headless\<lparr>o_IPSet := Some (\<lambda>a. a = Addr4 0x0A000001),
            o_NetworkType := [InterfaceTypeWIFI], o_Invert := True\<rparr>)] LogicalTypeOr False]"
    by (simp add: demo_rules_def srs_normal_def has_domain_def domain_matcher_def cidr_set_def cidr_ranges_def demo_srs_def
      demo_rule_env_def empty_headless_def empty_common_def common_options.defs headless_options.defs fun_eq_iff)
  with srs_roundtrip [OF demo_srs_ok _ demo_rules_fit out, of False] out show ?thesis
    by (auto simp: RuleSetVersionCurrent_def RuleSetVersion3_def)
qed

theorem srs_Read_returns_witness:
  "\<exists>y. srs_Read (demo_srs demo_rule_env) \<lparr>rd_data = ''SRS'' @ [char_of 3, char_of 1, char_of 1, char_of 0, char_of 200], rd_end = ioEOF\<rparr> False = Some y"
  using srs_Read_returns [OF demo_srs_shrinks] .

text \<open>
  The version is checked for the interface types and the AdGuard rules only: the two flags of the network, which
  readers of version 1 and 2 do not know, are written into files of those versions as well.
\<close>

lemma flags_not_gated:
  "writeDefaultRule E (empty_headless\<lparr>o_NetworkIsExpensive := True\<rparr>) 1 =
     Ok (be_bytes 1 0 @ be_bytes 1 ruleItemNetworkIsExpensive @ be_bytes 1 ruleItemFinal @ be_bytes 1 0)"
  "writeDefaultRule E (empty_headless\<lparr>o_NetworkType := [InterfaceTypeWIFI]\<rparr>) 1 =
     Err (ENew [AStr ''network_type rule item is only supported in version 3 or later''])"
  by (simp_all add: writeDefaultRule_def optW_def byteW_def boolW_def empty_headless_def empty_common_def
    common_options.defs headless_options.defs RuleSetVersion3_def)

text \<open>The counts of a file are believed: more rules than can be allocated are a panic, whatever follows.\<close>

lemma huge_count_panics:
  assumes "srs_env_ok E" and "se_max E < n" and "n < 2 ^ 64"
  shows "srs_Read E \<lparr>rd_data = MagicBytes @ be_bytes 1 3 @ se_compress E (uvarint n), rd_end = ioEOF\<rparr> rec =
    Some (Panic ''makeslice: len out of range'')"
proof -
  have "ReadUvarint \<lparr>rd_data = uvarint n, rd_end = e\<rparr> = Some (Ok (n, \<lparr>rd_data = [], rd_end = e\<rparr>))" for e
    using varint.recovers [OF assms(3) refl] unfolding reads_back_def by (metis append_Nil2)
  moreover have "read_uint8 \<lparr>rd_data = be_bytes 1 3 @ r, rd_end = e\<rparr> = Some (Ok (3, \<lparr>rd_data = r, rd_end = e\<rparr>))" for r e
    using byte_back [of 3] unfolding reads_back_def by simp
  ultimately show ?thesis
    using assms(2) by (simp add: srs_Read_def bindP_def read_full_n_def MagicBytes_def RuleSetVersionCurrent_def
      RuleSetVersion3_def retP_def make_slice_def srs_env_laws(2) [OF assms(1)] del: be_bytes.simps)
qed

end
