(* ===== verification/Srs_Compiled.thy ===== *)
theory Srs_Compiled
  imports Srs_Properties
begin

text \<open>
  A compiled rule set decides like its source: the rules that are built from the options as they
  are read back from a binary file match exactly the connections that the rules built from the original options
  match.  Items are compared by what they match, rules group by group.
\<close>

section \<open>Items, steps and rules that decide alike\<close>

definition item_sim :: "rule_env \<Rightarrow> rule_item \<Rightarrow> rule_item \<Rightarrow> bool" where
  "item_sim env i j \<longleftrightarrow> item_Match env i = item_Match env j \<and> is_RuleSetItem i = is_RuleSetItem j"

fun step_sim :: "rule_env \<Rightarrow> step \<Rightarrow> step \<Rightarrow> bool" where
  "step_sim env (Fail e) t = True"
| "step_sim env Skip t = (t = Skip)"
| "step_sim env (Add g i) t = (case t of Add h j \<Rightarrow> g = h \<and> item_sim env i j | _ \<Rightarrow> False)"

definition rule_sim :: "rule_env \<Rightarrow> 'a abstractDefaultRule \<Rightarrow> 'b abstractDefaultRule \<Rightarrow> bool" where
  "rule_sim env r s \<longleftrightarrow> invert r = invert s \<and> list_all2 (item_sim env) (items r) (items s) \<and>
     list_all2 (item_sim env) (sourceAddressItems r) (sourceAddressItems s) \<and>
     list_all2 (item_sim env) (sourcePortItems r) (sourcePortItems s) \<and>
     list_all2 (item_sim env) (destinationAddressItems r) (destinationAddressItems s) \<and>
     list_all2 (item_sim env) (destinationIPCIDRItems r) (destinationIPCIDRItems s) \<and>
     list_all2 (item_sim env) (destinationPortItems r) (destinationPortItems s) \<and>
     list_all2 (item_sim env) (allItems r) (allItems s)"

lemma item_simI:
  "(\<And>c. plain_Match env i c = plain_Match env j c) \<Longrightarrow> \<not> is_RuleSetItem i \<Longrightarrow> \<not> is_RuleSetItem j \<Longrightarrow> item_sim env i j"
  by (simp add: item_sim_def item_Match_plain fun_eq_iff)

lemma item_sim_refl [simp]: "item_sim env i i"
  by (simp add: item_sim_def)

lemma step_sim_refl [simp]: "step_sim env s s"
  by (cases s) auto

lemma rule_sim_put: "rule_sim env r s \<Longrightarrow> item_sim env i j \<Longrightarrow> rule_sim env (put g i r) (put g j s)"
  by (cases g) (auto simp: rule_sim_def list_all2_appendI)

lemma rule_sim_empty: "rule_sim env (empty_rule b x) (empty_rule b y)"
  by (simp add: rule_sim_def empty_rule_def)

lemma run_steps_sim:
  assumes "list_all2 (step_sim env) ss ts" and "run_steps ss r = Inr r'" and "rule_sim env r s"
  shows "\<exists>s'. run_steps ts s = Inr s' \<and> rule_sim env r' s'"
  using assms
proof (induction ss ts arbitrary: r s rule: list_all2_induct)
  case (Cons x xs y ys)
  then show ?case by (cases x; cases y) (auto simp: rule_sim_put)
qed auto

lemma any_sim: "list_all2 (item_sim env) is js \<Longrightarrow> any_item env is = any_item env js"
  by (induction rule: list_all2_induct) (auto simp: item_sim_def fun_eq_iff split: prod.splits bool.splits)

lemma all_sim: "list_all2 (item_sim env) is js \<Longrightarrow> all_items env is = all_items env js"
  by (induction rule: list_all2_induct) (auto simp: item_sim_def fun_eq_iff split: prod.splits bool.splits)

lemma nil_sim: "list_all2 P xs ys \<Longrightarrow> xs = [] \<longleftrightarrow> ys = []"
  by auto

lemma default_Match_sim:
  assumes "rule_sim env r s"
  shows "abstractDefaultRule_Match env r = abstractDefaultRule_Match env s"
proof -
  from assms have h: "list_all2 (item_sim env) (sourceAddressItems r) (sourceAddressItems s)"
    "list_all2 (item_sim env) (sourcePortItems r) (sourcePortItems s)"
    "list_all2 (item_sim env) (destinationAddressItems r) (destinationAddressItems s)"
    "list_all2 (item_sim env) (destinationIPCIDRItems r) (destinationIPCIDRItems s)"
    "list_all2 (item_sim env) (destinationPortItems r) (destinationPortItems s)"
    and i: "list_all2 (item_sim env) (items r) (items s)" "list_all2 (item_sim env) (allItems r) (allItems s)"
    "invert r = invert s"
    by (simp_all add: rule_sim_def)
  have "match_groups env r = match_groups env s"
    unfolding match_groups_def group_phase_def fun_eq_iff by (simp only: h [THEN nil_sim] h [THEN any_sim] simp_thms)
  moreover have "flags_hold r = flags_hold s"
    unfolding flags_hold_def fun_eq_iff by (simp only: h [THEN nil_sim] simp_thms)
  ultimately show ?thesis
    unfolding abstractDefaultRule_Match_def fun_eq_iff by (simp only: i(3) nil_sim [OF i(2)] all_sim [OF i(1)] simp_thms)
qed

section \<open>Building from the compiled options\<close>

text \<open>The two sides use the same foreign packages.\<close>

definition srs_rule_env :: "('m, 'g) srs_env \<Rightarrow> rule_env \<Rightarrow> bool" where
  "srs_rule_env E env \<longleftrightarrow>
     (\<forall>d s l. se_matcher_Match E (se_NewMatcher E d s l) = domain_NewMatcher env d s False) \<and>
     (\<forall>xs. se_adguard_Match E (se_NewAdGuardMatcher E xs) = domain_NewAdGuardMatcher env xs) \<and>
     netip_ParsePrefix env = se_ParsePrefix E \<and> netip_ParseAddr env = se_ParseAddr E \<and>
     (\<forall>ps. netipx_IPSet env ps = map_sum id (se_SetContains E) (se_BuildSet E ps))"

text \<open>Options as a source file has them: nothing compiled yet.\<close>

definition source_options :: "headless_options \<Rightarrow> bool" where
  "source_options o' \<longleftrightarrow> o_DomainMatcher o' = None \<and> o_SourceIPSet o' = None \<and> o_IPSet o' = None \<and>
     o_AdGuardDomainMatcher o' = None"

lemma build_prefixes_parse: "srs_rule_env E env \<Longrightarrow> build_prefixes E i xs = parse_prefixes env i xs"
proof (induction xs arbitrary: i)
  case (Cons x xs)
  have "netip_ParsePrefix env x = se_ParsePrefix E x" "netip_ParseAddr env x = se_ParseAddr E x"
    using Cons.prems by (simp_all add: srs_rule_env_def)
  with Cons.IH [OF Cons.prems, of "i + 1"] show ?case
    by (cases "se_ParsePrefix E x"; cases "se_ParseAddr E x"; cases "parse_prefixes env (i + 1) xs") simp_all
qed simp

lemma cidr_sim:
  assumes "srs_rule_env E env" and "with_cause m (NewIPCIDRItem env isSource xs) = Inr it"
  shows "item_sim env (IIPCIDR it) (IIPCIDR (NewRawIPCIDRItem isSource (se_SetContains E (cidr_set E xs))))"
proof -
  from assms(2) obtain ps st where ps: "parse_prefixes env 0 xs = Inr ps" "netipx_IPSet env ps = Inr st"
    and it: "ipSet it = st" "cidr_isSource it = isSource"
    by (auto simp: NewIPCIDRItem_def with_cause_def split: sum.splits)
  from assms(1) have "netipx_IPSet env ps = map_sum id (se_SetContains E) (se_BuildSet E ps)" by (simp add: srs_rule_env_def)
  with ps(2) obtain rr where "se_BuildSet E ps = Inr rr" "st = se_SetContains E rr" by (cases "se_BuildSet E ps") auto
  then have "se_SetContains E (cidr_set E xs) = st"
    by (simp add: cidr_set_def cidr_ranges_def build_prefixes_parse [OF assms(1)] ps(1))
  with it show ?thesis by (intro item_simI) (simp_all add: IPCIDRItem_Match_def NewRawIPCIDRItem_def)
qed

lemma domain_sim:
  assumes "srs_rule_env E env" and "NewDomainItem env d s = Inr it"
  shows "item_sim env (IDomain it) (IDomain (NewRawDomainItem (se_matcher_Match E (se_NewMatcher E d s l))))"
  using assms
  by (auto simp: NewDomainItem_def DomainItem_Match_def NewRawDomainItem_def srs_rule_env_def Let_def
    intro!: item_simI split: if_splits)

lemma compiled_options:
  assumes "srs_rule_env E env" and "source_options o'" and "NewDefaultHeadlessRule env mgr o' = Inr r"
  shows "\<exists>s. NewDefaultHeadlessRule env mgr (srs_normal E False v o') = Inr s \<and> rule_sim env r s"
proof -
  let ?n = "srs_normal E False v o'"
  have same: "keyword_steps env ?n = keyword_steps env o'" "port_steps ?n = port_steps o'"
    "process_steps env ?n = process_steps env o'" "network_steps ?n = network_steps o'" "o_Network ?n = o_Network o'"
    "o_Invert ?n = o_Invert o'"
    by (simp_all add: step_defs srs_normal_def)
  have 1: "step_sim env
      (or_else (o_Domain o' \<noteq> [] \<or> o_DomainSuffix o' \<noteq> []) (domain_step env o')
           (raw_if (o_DomainMatcher o') GDestinationAddress (\<lambda>m. IDomain (NewRawDomainItem m))))
      (or_else (o_Domain ?n \<noteq> [] \<or> o_DomainSuffix ?n \<noteq> []) (domain_step env ?n)
           (raw_if (o_DomainMatcher ?n) GDestinationAddress (\<lambda>m. IDomain (NewRawDomainItem m))))"
    using assms(1,2) domain_sim [OF assms(1), of "o_Domain o'" "o_DomainSuffix o'"]
    by (auto simp: srs_normal_def source_options_def or_else_def raw_if_def domain_step_def try_if_def has_domain_def
      domain_matcher_def split: sum.splits)
  have 2: "step_sim env
      (or_else (o_SourceIPCIDR o' \<noteq> []) (source_cidr_step env o')
           (raw_if (o_SourceIPSet o') GSourceAddress (\<lambda>s. IIPCIDR (NewRawIPCIDRItem True s))))
      (or_else (o_SourceIPCIDR ?n \<noteq> []) (source_cidr_step env ?n)
           (raw_if (o_SourceIPSet ?n) GSourceAddress (\<lambda>s. IIPCIDR (NewRawIPCIDRItem True s))))"
    using assms(2) cidr_sim [OF assms(1)]
    by (auto simp: srs_normal_def source_options_def or_else_def raw_if_def source_cidr_step_def try_if_def split: sum.splits)
  have 3: "step_sim env
      (or_else (o_IPCIDR o' \<noteq> []) (cidr_step env ''ipcidr'' o')
           (raw_if (o_IPSet o') GDestinationIPCIDR (\<lambda>s. IIPCIDR (NewRawIPCIDRItem False s))))
      (or_else (o_IPCIDR ?n \<noteq> []) (cidr_step env ''ipcidr'' ?n)
           (raw_if (o_IPSet ?n) GDestinationIPCIDR (\<lambda>s. IIPCIDR (NewRawIPCIDRItem False s))))"
    using assms(2) cidr_sim [OF assms(1)]
    by (auto simp: srs_normal_def source_options_def or_else_def raw_if_def cidr_step_def try_if_def split: sum.splits)
  have 4: "step_sim env
      (or_else (o_AdGuardDomain o' \<noteq> []) (Add GDestinationAddress (IAdGuard (NewAdGuardDomainItem env (o_AdGuardDomain o'))))
           (raw_if (o_AdGuardDomainMatcher o') GDestinationAddress (\<lambda>m. IAdGuard (NewRawAdGuardDomainItem m))))
      (or_else (o_AdGuardDomain ?n \<noteq> []) (Add GDestinationAddress (IAdGuard (NewAdGuardDomainItem env (o_AdGuardDomain ?n))))
           (raw_if (o_AdGuardDomainMatcher ?n) GDestinationAddress (\<lambda>m. IAdGuard (NewRawAdGuardDomainItem m))))"
    using assms(1,2)
    by (auto simp: srs_normal_def source_options_def or_else_def raw_if_def NewAdGuardDomainItem_def NewRawAdGuardDomainItem_def
      srs_rule_env_def)
  have refl: "list_all2 (step_sim env) xs xs" for xs by (simp add: list_all2_refl)
  show ?thesis
    unfolding NewDefaultHeadlessRule_def same
    by (rule run_steps_sim [OF _ assms(3) [unfolded NewDefaultHeadlessRule_def] rule_sim_empty])
      (intro list_all2_appendI list.rel_intros refl 1 2 3 4 step_sim_refl)
qed

section \<open>Whole rules\<close>

fun source_rule :: "headless_options rule_options \<Rightarrow> bool" where
  "source_rule (DefaultOptions o') = source_options o'"
| "source_rule (LogicalOptions rs md neg) = list_all source_rule rs"
| "source_rule (UnknownType t) = True"

fun tree_sim :: "rule_env \<Rightarrow> 'a rule \<Rightarrow> 'b rule \<Rightarrow> bool" where
  "tree_sim env (DefaultRule r) (DefaultRule s) = rule_sim env r s"
| "tree_sim env (LogicalRule rs md neg a) (LogicalRule ss md' neg' a') =
     (md = md' \<and> neg = neg' \<and> list_all2 (tree_sim env) rs ss)"
| "tree_sim env _ _ = False"

lemma rule_Match_sim: "tree_sim env R S \<Longrightarrow> rule_Match L env R = rule_Match L env S"
proof (induction R arbitrary: S)
  case (DefaultRule r)
  then show ?case by (cases S) (auto simp: fun_eq_iff default_Match_sim [of env r])
next
  case (LogicalRule rs md neg a)
  then obtain ss a' where S: "S = LogicalRule ss md neg a'" "list_all2 (tree_sim env) rs ss" by (cases S) auto
  have "list_all2 (\<lambda>R S. rule_Match L env R = rule_Match L env S) rs ss"
    using S(2) LogicalRule.IH by (auto elim!: list.rel_mono_strong)
  then have "map (rule_Match L env) rs = map (rule_Match L env) ss" by (induction rule: list_all2_induct) auto
  with S(1) show ?case by (simp add: fun_eq_iff)
qed

text \<open>The options are valid before and after: a condition is never lost.\<close>

lemma normal_valid:
  assumes "source_options o'"
  shows "DefaultHeadlessRule_IsValid (srs_normal E False v o') = DefaultHeadlessRule_IsValid o'"
proof -
  have "o' = empty_headless\<lparr>o_Invert := o_Invert o'\<rparr>"
    if eq: "srs_normal E False v o' = empty_headless\<lparr>o_Invert := o_Invert o'\<rparr>"
  proof (rule headless_options.equality)
  qed (use arg_cong [OF eq, of o_QueryType] arg_cong [OF eq, of o_Network] arg_cong [OF eq, of o_DomainMatcher]
      arg_cong [OF eq, of o_DomainKeyword] arg_cong [OF eq, of o_DomainRegex] arg_cong [OF eq, of o_SourceIPSet]
      arg_cong [OF eq, of o_IPSet] arg_cong [OF eq, of o_SourcePort] arg_cong [OF eq, of o_SourcePortRange]
      arg_cong [OF eq, of o_Port] arg_cong [OF eq, of o_PortRange] arg_cong [OF eq, of o_ProcessName]
      arg_cong [OF eq, of o_ProcessPath] arg_cong [OF eq, of o_ProcessPathRegex] arg_cong [OF eq, of o_PackageName]
      arg_cong [OF eq, of o_NetworkType] arg_cong [OF eq, of o_NetworkIsExpensive] arg_cong [OF eq, of o_NetworkIsConstrained]
      arg_cong [OF eq, of o_WIFISSID] arg_cong [OF eq, of o_WIFIBSSID] arg_cong [OF eq, of o_AdGuardDomainMatcher] assms
      in \<open>simp_all add: srs_normal_def source_options_def has_domain_def empty_headless_def empty_common_def
        common_options.defs headless_options.defs split: if_splits\<close>)
  moreover have "srs_normal E False v o' = empty_headless\<lparr>o_Invert := o_Invert o'\<rparr>"
    if eq: "o' = empty_headless\<lparr>o_Invert := b\<rparr>" for b
    unfolding eq by (simp add: srs_normal_def has_domain_def empty_headless_def empty_common_def
        common_options.defs headless_options.defs)
  moreover have "o_Invert (srs_normal E False v o') = o_Invert o'" by (simp add: srs_normal_def)
  ultimately show ?thesis unfolding DefaultHeadlessRule_IsValid_def by metis
qed

text \<open>
  \<open>common.All\<close> answers what the loop over the answers gives, so it cannot tell two lists of equal answers apart.
\<close>

lemma compiled_valid:
  "source_rule x \<Longrightarrow> HeadlessRule_IsValid A (rule_normal (srs_normal E False v) x) = HeadlessRule_IsValid A x"
proof (induction x)
  case (LogicalOptions rs md neg)
  then have "map (HeadlessRule_IsValid A \<circ> rule_normal (srs_normal E False v)) rs = map (HeadlessRule_IsValid A) rs"
    by (auto simp: list_all_iff)
  then show ?case by (simp only: rule_normal.simps HeadlessRule_IsValid.simps map_map map_is_Nil_conv)
qed (simp_all add: normal_valid)

lemma compiled_rules:
  "srs_rule_env E env \<Longrightarrow> source_rule x \<Longrightarrow> NewHeadlessRule A env mgr x = Ok R \<Longrightarrow>
     \<exists>S. NewHeadlessRule A env mgr (rule_normal (srs_normal E False v) x) = Ok S \<and> tree_sim env R S"
  "srs_rule_env E env \<Longrightarrow> list_all source_rule xs \<Longrightarrow> sub_rules A env mgr i xs = Ok Rs \<Longrightarrow>
     \<exists>Ss. sub_rules A env mgr i (map (rule_normal (srs_normal E False v)) xs) = Ok Ss \<and> list_all2 (tree_sim env) Rs Ss"
proof (induction A env mgr x and A env mgr i xs arbitrary: R and Rs rule: NewHeadlessRule_sub_rules.induct)
  case (1 A env mgr o')
  then obtain r where r: "NewDefaultHeadlessRule env mgr o' = Inr r" "R = DefaultRule r" "DefaultHeadlessRule_IsValid o'"
    by (auto split: if_splits sum.splits)
  from "1.prems" compiled_options [OF _ _ r(1)] obtain s where
    "NewDefaultHeadlessRule env mgr (srs_normal E False v o') = Inr s" "rule_sim env r s" by fastforce
  with r "1.prems"(2) show ?case by (simp add: normal_valid)
next
  case (2 A env mgr rs md neg)
  then obtain subs where s: "sub_rules A env mgr 0 rs = Ok subs" "R = LogicalRule subs md neg ()"
    "HeadlessRule_IsValid A (LogicalOptions rs md neg) = Ok True" "md = LogicalTypeAnd \<or> md = LogicalTypeOr"
    by (auto split: res.splits if_splits bool.splits)
  have v: "HeadlessRule_IsValid A (rule_normal (srs_normal E False v) (LogicalOptions rs md neg)) = Ok True"
    using compiled_valid [OF "2.prems"(2), of A E v] s(3) by simp
  from "2.IH" [OF s(3)] s "2.prems" obtain Ss where
    "sub_rules A env mgr 0 (map (rule_normal (srs_normal E False v)) rs) = Ok Ss" "list_all2 (tree_sim env) subs Ss"
    by fastforce
  with s v show ?case by (auto simp del: HeadlessRule_IsValid.simps)
next
  case (5 A env mgr i r rs)
  then obtain x xs where x: "NewHeadlessRule A env mgr r = Ok x" "sub_rules A env mgr (i + 1) rs = Ok xs" "Rs = x # xs"
    by (auto split: res.splits)
  from "5.IH"(1) [OF "5.prems"(1) _ x(1)] "5.IH"(2) [OF x(1) "5.prems"(1) _ x(2)] "5.prems"(2) x(3) show ?case by auto
qed auto

text \<open>The rules of a file, and the conditions on networks they contain.\<close>

lemma compiled_load:
  "srs_rule_env E env \<Longrightarrow> list_all source_rule xs \<Longrightarrow> load_rules A env mgr i xs = Ok Rs \<Longrightarrow>
     \<exists>Ss. load_rules A env mgr i (map (rule_normal (srs_normal E False v)) xs) = Ok Ss \<and> list_all2 (tree_sim env) Rs Ss"
proof (induction xs arbitrary: i Rs)
  case (Cons r rs)
  then obtain x xs where x: "NewHeadlessRule A env mgr r = Ok x" "load_rules A env mgr (i + 1) rs = Ok xs" "Rs = x # xs"
    by (auto split: res.splits)
  from compiled_rules(1) [OF Cons.prems(1) _ x(1), of v] Cons.IH [OF Cons.prems(1) _ x(2)] Cons.prems(2) x(3) show ?case by auto
qed simp

lemma match_rules_sim: "list_all2 (tree_sim env) Rs Ss \<Longrightarrow> match_rules L env Ss = match_rules L env Rs"
  by (induction rule: list_all2_induct) (auto simp: fun_eq_iff rule_Match_sim split: prod.splits bool.splits)

lemma compiled_has:
  assumes "\<And>o'. source_options o' \<Longrightarrow> cond (f o') = cond o'"
  shows "list_all source_rule xs \<Longrightarrow> hasHeadlessRule cond (map (rule_normal f) xs) = hasHeadlessRule cond xs"
  using assms by (induction cond xs rule: hasHeadlessRule.induct) auto

lemma normal_conditions:
  "source_options o' \<Longrightarrow> isIPCIDRHeadlessRule (srs_normal E False v o') = isIPCIDRHeadlessRule o'"
  "isProcessHeadlessRule (srs_normal E False v o') = isProcessHeadlessRule o'"
  "isWIFIHeadlessRule (srs_normal E False v o') = isWIFIHeadlessRule o'"
  by (simp_all add: isIPCIDRHeadlessRule_def isProcessHeadlessRule_def isWIFIHeadlessRule_def srs_normal_def source_options_def)

end
