(* ===== verification/Rule_Set_Load.thy ===== *)
theory Rule_Set_Load
  imports Srs_Compiled Cache_File Outbound_Manager
begin

text \<open>
  Rule sets that come from files and from the network (\<open>core/route/rule/rule_set.go\<close>, \<open>rule_set_local.go\<close>, \<open>rule_set_remote.go\<close>,
  \<open>HTTPStartContext\<close> of \<open>core/adapter/router.go\<close>).  The file system, the HTTP client, the JSON decoder, the clock and the files
  embedded into the program are fields of \<open>load_env\<close>; \<open>'w\<close> is the state of the outside world.  The rule set, the cache
  file and the world are threaded explicitly.  Log lines are left out; an HTTP client is the dialer it
  uses.
\<close>

section \<open>Decoding\<close>

definition RuleSetFormatSource :: string where "RuleSetFormatSource = ''source''"
definition RuleSetFormatBinary :: string where "RuleSetFormatBinary = ''binary''"
definition RuleSetTypeInline :: string where "RuleSetTypeInline = ''inline''"
definition RuleSetTypeLocal :: string where "RuleSetTypeLocal = ''local''"
definition RuleSetTypeRemote :: string where "RuleSetTypeRemote = ''remote''"

datatype http_result =
    HErr go_error
  | HResp (resp_code: nat) (resp_status: string) (resp_etag: string) (resp_body: "go_error + string")

record ('m, 'g, 'd, 'w) load_env =
  le_srs :: "('m, 'g) srs_env"
  le_json :: "string \<Rightarrow> PlainRuleSetCompat res"
  le_All :: all_answers
  le_rule :: rule_env
  le_manager :: bool
  le_bolt :: "'d bolt"
  le_varbin :: varbin
  le_ReadFile :: "string \<Rightarrow> 'w \<Rightarrow> go_error + string"
  le_Abs :: "string \<Rightarrow> string"
  le_NewWatcher :: "string \<Rightarrow> go_error option"
  le_embedded :: "string \<Rightarrow> string option"
  le_NewRequest :: "string \<Rightarrow> go_error option"
  le_Do :: "obj option \<Rightarrow> string \<Rightarrow> string option \<Rightarrow> 'w \<Rightarrow> http_result \<times> 'w"
  le_Now :: "'w \<Rightarrow> int \<times> 'w"

definition PlainRuleSetCompat_Upgrade :: "PlainRuleSetCompat \<Rightarrow> headless_options rule_options list res" where
  "PlainRuleSetCompat_Upgrade c =
     (if prs_Version c = RuleSetVersion1 \<or> prs_Version c = RuleSetVersion2 \<or> prs_Version c = RuleSetVersion3
      then Ok (prs_Rules c)
      else Err (ENew [AStr (''unknown rule-set version: '' @ utoa (prs_Version c))]))"

text \<open>\<open>srs.Read\<close> on the bytes of a file; it always returns.\<close>

definition read_binary :: "('m, 'g) srs_env \<Rightarrow> string \<Rightarrow> PlainRuleSetCompat res" where
  "read_binary E raw =
     (case srs_Read E \<lparr>rd_data = raw, rd_end = ioEOF\<rparr> False of Some x \<Rightarrow> x | None \<Rightarrow> Err (EForeign ''diverges''))"

definition decode_rules ::
    "('m, 'g, 'd, 'w) load_env \<Rightarrow> bool \<Rightarrow> bool \<Rightarrow> string \<Rightarrow> string \<Rightarrow> headless_options rule_options list res" where
  "decode_rules H isSource isBinary fmt raw =
     bindR (if isSource then le_json H raw
            else if isBinary then read_binary (le_srs H) raw
            else Err (ENew [AStr ''unknown rule-set format: '', AStr fmt])) PlainRuleSetCompat_Upgrade"

section \<open>Local rule sets\<close>

text \<open>The watcher is the path it watches; \<open>ls_watching\<close> says that it was started.\<close>

record local_state =
  ls_set :: LocalRuleSet
  ls_format :: string
  ls_watcher :: "string option"
  ls_watching :: bool

definition reloadFile ::
    "('m, 'g, 'd, 'w) load_env \<Rightarrow> string \<Rightarrow> local_state \<Rightarrow> 'w \<Rightarrow> local_state \<times> unit res" where
  "reloadFile H path s w =
     (let isSource = ls_format s = RuleSetFormatSource \<or> ls_format s = [];
          isBinary = ls_format s = RuleSetFormatBinary in
      if \<not> isSource \<and> \<not> isBinary then (s, Err (ENew [AStr ''unknown rule-set format: '', AStr (ls_format s)]))
      else
        case le_ReadFile H path w of
          Inl e \<Rightarrow> (s, Err e)
        | Inr raw \<Rightarrow>
            (case decode_rules H isSource isBinary (ls_format s) raw of
               Err e \<Rightarrow> (s, Err e)
             | Panic p \<Rightarrow> (s, Panic p)
             | Ok hs \<Rightarrow>
                 (case reloadRules (le_All H) (le_rule H) (le_manager H) hs (ls_set s) of
                    (set', r) \<Rightarrow> (s\<lparr>ls_set := set'\<rparr>, r))))"

record rule_set_options =
  rso_Type :: string
  rso_Tag :: string
  rso_Format :: string
  rso_Rules :: "headless_options rule_options list"
  rso_Path :: string
  rso_URL :: string
  rso_Detour :: string
  rso_UpdateInterval :: int

definition NewLocalRuleSet ::
    "('m, 'g, 'd, 'w) load_env \<Rightarrow> rule_set_options \<Rightarrow> 'w \<Rightarrow> local_state res" where
  "NewLocalRuleSet H opts w =
     (let s0 = \<lparr>ls_set = \<lparr>lrs_tag = rso_Tag opts, lrs_rules = [], lrs_ContainsProcessRule = False, lrs_ContainsWIFIRule = False,
        lrs_ContainsIPCIDRRule = False, lrs_refs = 0\<rparr>,
                ls_format = rso_Format opts, ls_watcher = None, ls_watching = False\<rparr> in
      if rso_Type opts = RuleSetTypeInline then
        bindR (NewInlineRuleSet (le_All H) (le_rule H) (le_manager H) (rso_Tag opts) (rso_Rules opts))
          (\<lambda>set. Ok (s0\<lparr>ls_set := set\<rparr>))
      else
        let path = le_Abs H (rso_Path opts) in
        case reloadFile H path s0 w of
          (s1, Err e) \<Rightarrow> Err e
        | (s1, Panic p) \<Rightarrow> Panic p
        | (s1, Ok _) \<Rightarrow>
            (case le_NewWatcher H path of Some e \<Rightarrow> Err e | None \<Rightarrow> Ok (s1\<lparr>ls_watcher := Some path\<rparr>)))"

text \<open>\<open>StartContext\<close>; an error of the watcher, given by \<open>we\<close>, is logged only.  The callback of the watcher, and \<open>Close\<close>.\<close>

definition local_StartContext :: "go_error option \<Rightarrow> local_state \<Rightarrow> local_state" where
  "local_StartContext we s = (if ls_watcher s \<noteq> None \<and> we = None then s\<lparr>ls_watching := True\<rparr> else s)"

definition watcher_callback :: "('m, 'g, 'd, 'w) load_env \<Rightarrow> string \<Rightarrow> local_state \<Rightarrow> 'w \<Rightarrow> local_state res" where
  "watcher_callback H path s w =
     (case reloadFile H path s w of (s', Panic p) \<Rightarrow> Panic p | (s', _) \<Rightarrow> Ok s')"

definition local_Close :: "local_state \<Rightarrow> local_state" where
  "local_Close s = s\<lparr>ls_set := (ls_set s)\<lparr>lrs_rules := []\<rparr>, ls_watching := False\<rparr>"

section \<open>Remote rule sets\<close>

record RuleSetMetadata =
  md_ContainsProcessRule :: bool
  md_ContainsWIFIRule :: bool
  md_ContainsIPCIDRRule :: bool

text \<open>
  \<open>rrs_fired\<close> lists the callbacks that were called, in order.  Times are Unix times in nanoseconds; \<open>zero_time\<close> is the zero \<open>time.Time\<close>.
\<close>

record RemoteRuleSet =
  rrs_options :: rule_set_options
  rrs_updateInterval :: int
  rrs_dialer :: "obj option"
  rrs_rules :: "unit rule list"
  rrs_metadata :: RuleSetMetadata
  rrs_lastUpdated :: int
  rrs_lastEtag :: string
  rrs_ticker :: bool
  rrs_callbacks :: "nat list"
  rrs_fired :: "nat list"
  rrs_refs :: int
  rrs_cancelled :: bool

definition zero_time :: int where "zero_time = -62135596800 * 1000000000"
definition hour :: int where "hour = 3600 * 1000000000"

definition NewRemoteRuleSet :: "rule_set_options \<Rightarrow> RemoteRuleSet" where
  "NewRemoteRuleSet opts =
     \<lparr>rrs_options = opts,
      rrs_updateInterval = (if rso_UpdateInterval opts > 0 then rso_UpdateInterval opts else 24 * hour),
      rrs_dialer = None, rrs_rules = [],
      rrs_metadata = \<lparr>md_ContainsProcessRule = False, md_ContainsWIFIRule = False, md_ContainsIPCIDRRule = False\<rparr>,
      rrs_lastUpdated = zero_time, rrs_lastEtag = [], rrs_ticker = False, rrs_callbacks = [], rrs_fired = [],
      rrs_refs = 0, rrs_cancelled = False\<rparr>"

definition loadBytes ::
    "('m, 'g, 'd, 'w) load_env \<Rightarrow> string \<Rightarrow> RemoteRuleSet \<Rightarrow> RemoteRuleSet \<times> unit res" where
  "loadBytes H raw s =
     (let fmt = rso_Format (rrs_options s) in
      case decode_rules H (fmt = RuleSetFormatSource) (fmt = RuleSetFormatBinary) fmt raw of
        Err e \<Rightarrow> (s, Err e)
      | Panic p \<Rightarrow> (s, Panic p)
      | Ok hs \<Rightarrow>
          (case load_rules (le_All H) (le_rule H) (le_manager H) 0 hs of
             Err e \<Rightarrow> (s, Err e)
           | Panic p \<Rightarrow> (s, Panic p)
           | Ok rs \<Rightarrow>
               (s\<lparr>rrs_metadata := \<lparr>md_ContainsProcessRule = hasHeadlessRule isProcessHeadlessRule hs,
                    md_ContainsWIFIRule = hasHeadlessRule isWIFIHeadlessRule hs,
                    md_ContainsIPCIDRRule = hasHeadlessRule isIPCIDRHeadlessRule hs\<rparr>,
                  rrs_rules := rs, rrs_fired := rrs_fired s @ rrs_callbacks s\<rparr>, Ok ())))"

text \<open>\<open>HTTPStartContext\<close>: one client for every detour, whatever dialer a later call brings.\<close>

type_synonym start_context = "string \<rightharpoonup> obj option"

definition HTTPClient :: "string \<Rightarrow> obj option \<Rightarrow> start_context \<Rightarrow> obj option \<times> start_context" where
  "HTTPClient detour dialer c =
     (case c detour of Some cl \<Rightarrow> (cl, c) | None \<Rightarrow> (dialer, c(detour \<mapsto> dialer)))"

definition http_client :: "RemoteRuleSet \<Rightarrow> start_context option \<Rightarrow> obj option \<times> start_context option" where
  "http_client s startContext =
     (case startContext of
        None \<Rightarrow> (rrs_dialer s, None)
      | Some ctx \<Rightarrow> (case HTTPClient (rso_Detour (rrs_options s)) (rrs_dialer s) ctx of (cl, ctx') \<Rightarrow> (cl, Some ctx')))"

definition not_modified ::
    "('m, 'g, 'd, 'w) load_env \<Rightarrow> RemoteRuleSet \<Rightarrow> 'd CacheFile option \<Rightarrow> 'w \<Rightarrow> RemoteRuleSet \<times> 'd CacheFile option \<times> 'w" where
  "not_modified H s cf w =
     (case le_Now H w of (now1, w1) \<Rightarrow>
      let s1 = s\<lparr>rrs_lastUpdated := now1\<rparr> in
      case cf of
        None \<Rightarrow> (s1, None, w1)
      | Some c \<Rightarrow>
          (case LoadRuleSet (le_bolt H) (le_varbin H) c (rso_Tag (rrs_options s)) of
             None \<Rightarrow> (s1, cf, w1)
           | Some saved \<Rightarrow>
               (s1, Some (snd (SaveRuleSet (le_bolt H) (le_varbin H) (rso_Tag (rrs_options s)) (saved\<lparr>sb_LastUpdated := now1\<rparr>) c)), w1)))"

definition store_content ::
    "('m, 'g, 'd, 'w) load_env \<Rightarrow> string \<Rightarrow> string \<Rightarrow> RemoteRuleSet \<Rightarrow> 'd CacheFile option \<Rightarrow> 'w \<Rightarrow>
     RemoteRuleSet \<times> 'd CacheFile option \<times> 'w" where
  "store_content H raw etag s cf w =
     (let s1 = (if etag \<noteq> [] then s\<lparr>rrs_lastEtag := etag\<rparr> else s) in
      case le_Now H w of (now1, w1) \<Rightarrow>
      let s2 = s1\<lparr>rrs_lastUpdated := now1\<rparr> in
      (s2, map_option (\<lambda>c. snd (SaveRuleSet (le_bolt H) (le_varbin H) (rso_Tag (rrs_options s))
             \<lparr>sb_Content = raw, sb_LastUpdated = now1, sb_LastEtag = rrs_lastEtag s2\<rparr> c)) cf, w1))"

definition fetch ::
    "('m, 'g, 'd, 'w) load_env \<Rightarrow> start_context option \<Rightarrow> RemoteRuleSet \<Rightarrow> 'd CacheFile option \<Rightarrow> 'w \<Rightarrow>
     unit res \<times> start_context option \<times> RemoteRuleSet \<times> 'd CacheFile option \<times> 'w" where
  "fetch H startContext s cf w =
     (case http_client s startContext of (client, ctx') \<Rightarrow>
      let url = rso_URL (rrs_options s); filename = last (split_at CHR ''/'' url) in
      case le_embedded H filename of
        Some raw \<Rightarrow> (case loadBytes H raw s of (s', r) \<Rightarrow> (r, ctx', s', cf, w))
      | None \<Rightarrow>
          (case le_NewRequest H url of
             Some e \<Rightarrow> (Err e, ctx', s, cf, w)
           | None \<Rightarrow>
               (case le_Do H client url (if rrs_lastEtag s \<noteq> [] then Some (rrs_lastEtag s) else None) w of
                  (HErr e, w1) \<Rightarrow> (Err e, ctx', s, cf, w1)
                | (HResp code status etag body, w1) \<Rightarrow>
                    if code = 304 then (case not_modified H s cf w1 of (s', cf', w2) \<Rightarrow> (Ok (), ctx', s', cf', w2))
                    else if code \<noteq> 200 then (Err (ENew [AStr ''unexpected status: '', AStr status]), ctx', s, cf, w1)
                    else
                      (case body of
                         Inl e \<Rightarrow> (Err e, ctx', s, cf, w1)
                       | Inr raw \<Rightarrow>
                           (case loadBytes H raw s of
                              (s', Ok _) \<Rightarrow>
                                (case store_content H raw etag s' cf w1 of (s'', cf', w2) \<Rightarrow> (Ok (), ctx', s'', cf', w2))
                            | (s', r) \<Rightarrow> (r, ctx', s', cf, w1))))))"

definition choose_dialer ::
    "manager \<Rightarrow> outbound_manager \<Rightarrow> RemoteRuleSet \<Rightarrow> obj option res" where
  "choose_dialer eps outs s =
     (let detour = rso_Detour (rrs_options s) in
      if detour \<noteq> [] then
        (case outbound_Outbound eps outs detour of
           None \<Rightarrow> Err (ENew [AStr ''download detour not found: '', AStr detour])
         | Some ob \<Rightarrow> Ok (Some ob))
      else Ok (outbound_Default outs))"

definition restore_cached ::
    "('m, 'g, 'd, 'w) load_env \<Rightarrow> 'd CacheFile option \<Rightarrow> RemoteRuleSet \<Rightarrow> RemoteRuleSet \<times> unit res" where
  "restore_cached H cf s =
     (case cf of
        None \<Rightarrow> (s, Ok ())
      | Some c \<Rightarrow>
          (case LoadRuleSet (le_bolt H) (le_varbin H) c (rso_Tag (rrs_options s)) of
             None \<Rightarrow> (s, Ok ())
           | Some saved \<Rightarrow>
               (case loadBytes H (sb_Content saved) s of
                  (s', Err e) \<Rightarrow> (s', Err (ECause e [AStr ''restore cached rule-set'']))
                | (s', Panic p) \<Rightarrow> (s', Panic p)
                | (s', Ok _) \<Rightarrow> (s'\<lparr>rrs_lastUpdated := sb_LastUpdated saved, rrs_lastEtag := sb_LastEtag saved\<rparr>, Ok ()))))"

definition remote_StartContext ::
    "('m, 'g, 'd, 'w) load_env \<Rightarrow> manager \<Rightarrow> outbound_manager \<Rightarrow> start_context \<Rightarrow> RemoteRuleSet \<Rightarrow> 'd CacheFile option \<Rightarrow> 'w \<Rightarrow>
     unit res \<times> start_context \<times> RemoteRuleSet \<times> 'd CacheFile option \<times> 'w" where
  "remote_StartContext H eps outs ctx s cf w =
     (case choose_dialer eps outs s of
        Err e \<Rightarrow> (Err e, ctx, s, cf, w)
      | Panic p \<Rightarrow> (Panic p, ctx, s, cf, w)
      | Ok dialer \<Rightarrow>
          (case restore_cached H cf (s\<lparr>rrs_dialer := dialer\<rparr>) of
             (s1, Err e) \<Rightarrow> (Err e, ctx, s1, cf, w)
           | (s1, Panic p) \<Rightarrow> (Panic p, ctx, s1, cf, w)
           | (s1, Ok _) \<Rightarrow>
               if rrs_lastUpdated s1 = zero_time then
                 (case fetch H (Some ctx) s1 cf w of
                    (Err e, ctx', s2, cf', w') \<Rightarrow>
                      (Err (ECause e [AStr ''initial rule-set: '', AStr (rso_Tag (rrs_options s))]), the ctx', s2, cf', w')
                  | (Panic p, ctx', s2, cf', w') \<Rightarrow> (Panic p, the ctx', s2, cf', w')
                  | (Ok _, ctx', s2, cf', w') \<Rightarrow> (Ok (), the ctx', s2\<lparr>rrs_ticker := True\<rparr>, cf', w'))
               else (Ok (), ctx, s1\<lparr>rrs_ticker := True\<rparr>, cf, w)))"

text \<open>\<open>updateOnce\<close>: an error is logged; rules that nothing refers to are dropped again.\<close>

definition updateOnce ::
    "('m, 'g, 'd, 'w) load_env \<Rightarrow> RemoteRuleSet \<Rightarrow> 'd CacheFile option \<Rightarrow> 'w \<Rightarrow>
     unit res \<times> RemoteRuleSet \<times> 'd CacheFile option \<times> 'w" where
  "updateOnce H s cf w =
     (case fetch H None s cf w of
        (Panic p, _, s', cf', w') \<Rightarrow> (Panic p, s', cf', w')
      | (Err e, _, s', cf', w') \<Rightarrow> (Ok (), s', cf', w')
      | (Ok _, _, s', cf', w') \<Rightarrow> (Ok (), if rrs_refs s' = 0 then s'\<lparr>rrs_rules := []\<rparr> else s', cf', w'))"

text \<open>\<open>time.Since\<close> is cut to 64 bits.\<close>

definition time_Since :: "int \<Rightarrow> int \<Rightarrow> int" where
  "time_Since now1 t = max (- (2 ^ 63)) (min (2 ^ 63 - 1) (now1 - t))"

text \<open>\<open>loopUpdate\<close>: the check at the start, then one turn for every event of the ticker until the context is done.\<close>

datatype loop_event = LTick | LDone

fun update_events ::
    "('m, 'g, 'd, 'w) load_env \<Rightarrow> loop_event list \<Rightarrow> RemoteRuleSet \<Rightarrow> 'd CacheFile option \<Rightarrow> 'w \<Rightarrow>
     unit res \<times> RemoteRuleSet \<times> 'd CacheFile option \<times> 'w" where
  "update_events H [] s cf w = (Ok (), s, cf, w)"
| "update_events H (LDone # es) s cf w = (Ok (), s, cf, w)"
| "update_events H (LTick # es) s cf w =
     (case updateOnce H s cf w of
        (Ok _, s', cf', w') \<Rightarrow> update_events H es s' cf' w'
      | (r, s', cf', w') \<Rightarrow> (r, s', cf', w'))"

definition loopUpdate ::
    "('m, 'g, 'd, 'w) load_env \<Rightarrow> loop_event list \<Rightarrow> RemoteRuleSet \<Rightarrow> 'd CacheFile option \<Rightarrow> 'w \<Rightarrow>
     unit res \<times> RemoteRuleSet \<times> 'd CacheFile option \<times> 'w" where
  "loopUpdate H es s cf w =
     (case le_Now H w of (now1, w1) \<Rightarrow>
      if time_Since now1 (rrs_lastUpdated s) > rrs_updateInterval s then
        (case updateOnce H s cf w1 of
           (Ok _, s', cf', w') \<Rightarrow> update_events H es s' cf' w'
         | (r, s', cf', w') \<Rightarrow> (r, s', cf', w'))
      else update_events H es s cf w1)"

definition remote_IncRef :: "RemoteRuleSet \<Rightarrow> RemoteRuleSet" where
  "remote_IncRef s = s\<lparr>rrs_refs := rrs_refs s + 1\<rparr>"

definition remote_DecRef :: "RemoteRuleSet \<Rightarrow> RemoteRuleSet res" where
  "remote_DecRef s = (if rrs_refs s - 1 < 0 then Panic ''rule-set: negative refs'' else Ok (s\<lparr>rrs_refs := rrs_refs s - 1\<rparr>))"

definition remote_Cleanup :: "RemoteRuleSet \<Rightarrow> RemoteRuleSet" where
  "remote_Cleanup s = (if rrs_refs s = 0 then s\<lparr>rrs_rules := []\<rparr> else s)"

definition remote_RegisterCallback :: "nat \<Rightarrow> RemoteRuleSet \<Rightarrow> RemoteRuleSet" where
  "remote_RegisterCallback k s = s\<lparr>rrs_callbacks := rrs_callbacks s @ [k]\<rparr>"

definition remote_UnregisterCallback :: "nat \<Rightarrow> RemoteRuleSet \<Rightarrow> RemoteRuleSet" where
  "remote_UnregisterCallback k s = s\<lparr>rrs_callbacks := remove1 k (rrs_callbacks s)\<rparr>"

definition remote_Match :: "loops \<Rightarrow> rule_env \<Rightarrow> RemoteRuleSet \<Rightarrow> matching" where
  "remote_Match L env s c = match_rules L env (rrs_rules s) c"

definition remote_ExtractIPSet :: "RemoteRuleSet \<Rightarrow> (addr \<Rightarrow> bool) list" where
  "remote_ExtractIPSet s = concat (map extractIPSetFromRule (rrs_rules s))"

definition remote_Close :: "RemoteRuleSet \<Rightarrow> RemoteRuleSet" where
  "remote_Close s = s\<lparr>rrs_rules := [], rrs_cancelled := True, rrs_ticker := False\<rparr>"

datatype any_rule_set = LocalSet local_state | RemoteSet RemoteRuleSet

definition NewRuleSet :: "('m, 'g, 'd, 'w) load_env \<Rightarrow> rule_set_options \<Rightarrow> 'w \<Rightarrow> any_rule_set res" where
  "NewRuleSet H opts w =
     (if rso_Type opts \<in> {RuleSetTypeInline, RuleSetTypeLocal, []}
      then bindR (NewLocalRuleSet H opts w) (\<lambda>s. Ok (LocalSet s))
      else if rso_Type opts = RuleSetTypeRemote then Ok (RemoteSet (NewRemoteRuleSet opts))
      else Err (ENew [AStr ''unknown rule-set type: '', AStr (rso_Type opts)]))"

end
