(* ===== verification/Rule_Set_Properties.thy ===== *)
theory Rule_Set_Properties
  imports Rule_Set_Load
begin

text \<open>
  Properties of rule sets from files and from the network: a compiled file works like its source, loading is
  atomic, and a remote rule set survives a restart without the network.
\<close>

section \<open>Loading\<close>

text \<open>
  What both kinds of rule sets promise: a load that fails leaves the rule set as it was, and after a load that
  succeeds the metadata say that there are conditions on networks exactly when a network can be extracted.
\<close>

locale atomic_load =
  fixes load :: "'x \<Rightarrow> 's \<Rightarrow> 's \<times> unit res" and rules_of :: "'s \<Rightarrow> unit rule list" and has_cidr :: "'s \<Rightarrow> bool"
    and ok :: "'x \<Rightarrow> 's \<Rightarrow> bool"
  assumes failed: "ok x s \<Longrightarrow> load x s = (s', r) \<Longrightarrow> r \<noteq> Ok () \<Longrightarrow> s' = s"
    and loaded: "ok x s \<Longrightarrow> load x s = (s', Ok ()) \<Longrightarrow> has_cidr s' \<longleftrightarrow> (\<exists>R \<in> set (rules_of s'). extractIPSetFromRule R \<noteq> [])"
begin

definition consistent :: "'s \<Rightarrow> bool" where
  "consistent s \<longleftrightarrow> (has_cidr s \<longleftrightarrow> (\<exists>R \<in> set (rules_of s). extractIPSetFromRule R \<noteq> []))"

lemma load_consistent: "ok x s \<Longrightarrow> consistent s \<Longrightarrow> consistent (fst (load x s))"
  using failed [of x s] loaded [of x s] unfolding consistent_def
  by (cases "load x s"; cases "snd (load x s) = Ok ()") auto

end

interpretation local_rules: atomic_load "\<lambda>(A, env, mgr, hs). reloadRules A env mgr hs" lrs_rules lrs_ContainsIPCIDRRule "\<lambda>_ _. True"
  by (unfold_locales; auto simp: reloadRules_def split: res.splits; metis load_rules_cidr)

interpretation remote_rules: atomic_load "\<lambda>(H, raw). loadBytes H raw" rrs_rules "\<lambda>s. md_ContainsIPCIDRRule (rrs_metadata s)" "\<lambda>_ _. True"
  by (unfold_locales; auto simp: loadBytes_def Let_def split: res.splits; metis load_rules_cidr)

lemma reloadFile_atomic:
  assumes "reloadFile H path s w = (s', r)" and "r \<noteq> Ok ()"
  shows "s' = s"
  using assms local_rules.failed [of "(le_All H, le_rule H, le_manager H, _)" "ls_set s"]
  by (auto simp: reloadFile_def Let_def split: if_splits sum.splits res.splits prod.splits)

text \<open>
  Loading what the network or the cache gave is all or nothing: when anything fails the rule set
  keeps its rules and metadata and calls no callback; otherwise all callbacks are called once and the metadata agree with
  the new rules.
\<close>

theorem loadBytes_atomic:
  assumes "loadBytes H raw s = (s', r)"
  shows "(r \<noteq> Ok () \<longrightarrow> s' = s) \<and>
    (r = Ok () \<longrightarrow> rrs_fired s' = rrs_fired s @ rrs_callbacks s \<and>
       (md_ContainsIPCIDRRule (rrs_metadata s') \<longleftrightarrow> remote_ExtractIPSet s' \<noteq> []))"
proof -
  have "r = Ok () \<Longrightarrow> rrs_fired s' = rrs_fired s @ rrs_callbacks s"
    using assms by (auto simp: loadBytes_def Let_def split: res.splits)
  moreover have "remote_ExtractIPSet s' \<noteq> [] \<longleftrightarrow> (\<exists>R \<in> set (rrs_rules s'). extractIPSetFromRule R \<noteq> [])"
    by (auto simp: remote_ExtractIPSet_def)
  ultimately show ?thesis
    using assms remote_rules.failed [of "(H, raw)" s s' r] remote_rules.loaded [of "(H, raw)" s s'] by auto
qed

section \<open>Compiled files\<close>

text \<open>
  C9: A rule set that is compiled to the binary format and loaded from it matches exactly the connections
  that its source matches, and its metadata are those of the source.
\<close>

theorem compiled_file_matches:
  assumes "srs_env_ok (le_srs H)" and "srs_rule_env (le_srs H) (le_rule H)"
    and "v = RuleSetVersion1 \<or> v = RuleSetVersion2 \<or> v = RuleSetVersion3"
    and "length hs \<le> se_max (le_srs H)" and "\<forall>x \<in> set hs. rule_fits (le_srs H) x" and "list_all source_rule hs"
    and "srs_Write (le_srs H) sink hs v = Ok out"
    and "load_rules (le_All H) (le_rule H) (le_manager H) 0 hs = Ok Rs"
    and "rso_Format (rrs_options s) = RuleSetFormatBinary"
  shows "\<exists>s'. loadBytes H out s = (s', Ok ()) \<and>
    remote_Match L (le_rule H) s' = match_rules L (le_rule H) Rs \<and>
    md_ContainsIPCIDRRule (rrs_metadata s') = hasHeadlessRule isIPCIDRHeadlessRule hs \<and>
    md_ContainsProcessRule (rrs_metadata s') = hasHeadlessRule isProcessHeadlessRule hs \<and>
    md_ContainsWIFIRule (rrs_metadata s') = hasHeadlessRule isWIFIHeadlessRule hs"
proof -
  let ?ns = "map (rule_normal (srs_normal (le_srs H) False v)) hs"
  have cur: "v \<le> RuleSetVersionCurrent"
    using assms(3) by (auto simp: RuleSetVersionCurrent_def RuleSetVersion1_def RuleSetVersion2_def RuleSetVersion3_def)
  have ne: "RuleSetFormatBinary \<noteq> RuleSetFormatSource" by (simp add: RuleSetFormatBinary_def RuleSetFormatSource_def)
  have "decode_rules H False True RuleSetFormatBinary out = Ok ?ns"
    unfolding decode_rules_def read_binary_def using assms(3) srs_read_written [OF assms(1) cur assms(4,5,7), of False]
    by (simp add: PlainRuleSetCompat_Upgrade_def)
  moreover obtain Ss where "load_rules (le_All H) (le_rule H) (le_manager H) 0 ?ns = Ok Ss" "list_all2 (tree_sim (le_rule H)) Rs Ss"
    using compiled_load [OF assms(2,6,8)] by blast
  moreover have "hasHeadlessRule isIPCIDRHeadlessRule ?ns = hasHeadlessRule isIPCIDRHeadlessRule hs"
    "hasHeadlessRule isProcessHeadlessRule ?ns = hasHeadlessRule isProcessHeadlessRule hs"
    "hasHeadlessRule isWIFIHeadlessRule ?ns = hasHeadlessRule isWIFIHeadlessRule hs"
    using assms(6) by (simp_all add: compiled_has normal_conditions)
  ultimately show ?thesis
    using ne by (simp add: loadBytes_def assms(9) remote_Match_def match_rules_sim fun_eq_iff)
qed

section \<open>Restart\<close>

text \<open>
  C10: A remote rule set that was downloaded and saved is there after a restart without the network: a new rule set
  with the same options starts with the same rules and metadata, remembers the etag and the time of the update in whole
  seconds, and neither asks the network nor the clock.
\<close>

theorem remote_restart_offline:
  assumes "bolt_ok (le_bolt H)" and "varbin_ok (le_varbin H)"
    and "loadBytes H raw s = (s1, Ok ())"
    and "store_content H raw etag s1 (Some c) w = (s2, Some c2, w2)"
    and "fst (SaveRuleSet (le_bolt H) (le_varbin H) (rso_Tag (rrs_options s))
        \<lparr>sb_Content = raw, sb_LastUpdated = rrs_lastUpdated s2, sb_LastEtag = rrs_lastEtag s2\<rparr> c) = None"
    and "- (2 ^ 63) \<le> rrs_lastUpdated s2 div 1000000000" and "rrs_lastUpdated s2 div 1000000000 < 2 ^ 63"
    and "rrs_lastUpdated s2 div 1000000000 * 1000000000 \<noteq> zero_time"
    and "choose_dialer eps outs (NewRemoteRuleSet (rrs_options s)) = Ok dialer"
  shows "\<exists>s3. remote_StartContext H eps outs ctx (NewRemoteRuleSet (rrs_options s)) (Some c2) w3 = (Ok (), ctx, s3, Some c2, w3) \<and>
    rrs_rules s3 = rrs_rules s2 \<and> rrs_metadata s3 = rrs_metadata s2 \<and> rrs_lastEtag s3 = rrs_lastEtag s2 \<and>
    rrs_lastUpdated s3 = rrs_lastUpdated s2 div 1000000000 * 1000000000 \<and> rrs_ticker s3"
proof -
  let ?saved = "\<lparr>sb_Content = raw, sb_LastUpdated = rrs_lastUpdated s2, sb_LastEtag = rrs_lastEtag s2\<rparr>"
  let ?t = "rrs_lastUpdated s2 div 1000000000 * 1000000000"
  let ?n = "(NewRemoteRuleSet (rrs_options s))\<lparr>rrs_dialer := dialer\<rparr>"
  from assms(3) obtain hs rs where load: "decode_rules H (rso_Format (rrs_options s) = RuleSetFormatSource)
      (rso_Format (rrs_options s) = RuleSetFormatBinary) (rso_Format (rrs_options s)) raw = Ok hs"
    "load_rules (le_All H) (le_rule H) (le_manager H) 0 hs = Ok rs" and s1: "rrs_rules s1 = rs" "rrs_options s1 = rrs_options s"
    "rrs_metadata s1 = \<lparr>md_ContainsProcessRule = hasHeadlessRule isProcessHeadlessRule hs,
       md_ContainsWIFIRule = hasHeadlessRule isWIFIHeadlessRule hs, md_ContainsIPCIDRRule = hasHeadlessRule isIPCIDRHeadlessRule hs\<rparr>"
    by (auto simp: loadBytes_def Let_def split: res.splits)
  from assms(4) s1 have s2: "rrs_rules s2 = rs" "rrs_metadata s2 = rrs_metadata s1"
    "c2 = snd (SaveRuleSet (le_bolt H) (le_varbin H) (rso_Tag (rrs_options s)) ?saved c)"
    by (auto simp: store_content_def Let_def split: prod.splits if_splits)
  then have "SaveRuleSet (le_bolt H) (le_varbin H) (rso_Tag (rrs_options s)) ?saved c = (None, c2)"
    using assms(5) by (metis prod.collapse)
  then have saved: "LoadRuleSet (le_bolt H) (le_varbin H) c2 (rso_Tag (rrs_options s)) = Some (?saved\<lparr>sb_LastUpdated := ?t\<rparr>)"
    using saved_rule_set_loads [OF assms(1,2) _ _ _] assms(6,7) by fastforce
  have "rrs_options (NewRemoteRuleSet (rrs_options s)) = rrs_options s" by (simp add: NewRemoteRuleSet_def)
  then show ?thesis
    using assms(8) load saved s1 s2
    by (simp add: remote_StartContext_def assms(9) restore_cached_def loadBytes_def)
qed

section \<open>A concrete environment\<close>

definition demo_net_env :: rule_env where
  "demo_net_env = demo_rule_env\<lparr>netip_ParsePrefix := (\<lambda>_. Inl (EForeign ''no prefix'')),
     netip_ParseAddr := (\<lambda>s. if s = ''10.0.0.1'' then Inr (Addr4 0x0A000001) else Inl (EForeign ''no address'')),
     netipx_IPSet := (\<lambda>ps. Inr (\<lambda>a. list_ex (\<lambda>(l, h). a = l)
        (map (\<lambda>a. (addr_withoutZone a, addr_withoutZone a)) (map (case_sum fst id) ps))))\<rparr>"

lemma demo_net_ok: "srs_rule_env (demo_srs demo_net_env) demo_net_env"
  by (simp add: srs_rule_env_def demo_srs_def demo_net_env_def demo_rule_env_def)

definition demo_load :: "(string list \<times> string list, string list, btree, nat) load_env" where
  "demo_load = \<lparr>le_srs = demo_srs demo_net_env, le_json = (\<lambda>_. Err (EForeign ''json'')), le_All = hd, le_rule = demo_net_env,
     le_manager = True, le_bolt = bolt_tree, le_varbin = demo_varbin, le_ReadFile = (\<lambda>_ _. Inl (EForeign ''no file'')),
     le_Abs = id, le_NewWatcher = (\<lambda>_. None), le_embedded = (\<lambda>_. None), le_NewRequest = (\<lambda>_. None),
     le_Do = (\<lambda>_ _ _ n. (HErr (EForeign ''offline''), n + 1)), le_Now = (\<lambda>n. (1700000000123456789, n + 1))\<rparr>"

definition demo_options :: rule_set_options where
  "demo_options = \<lparr>rso_Type = ''remote'', rso_Tag = ''geo'', rso_Format = ''binary'', rso_Rules = [], rso_Path = [],
     rso_URL = ''https://example.com/geo.srs'', rso_Detour = [], rso_UpdateInterval = 0\<rparr>"

theorem loadBytes_atomic_witness:
  "loadBytes demo_load ''SRS'' (NewRemoteRuleSet demo_options) =
     (NewRemoteRuleSet demo_options, Err ioEOF)"
proof -
  have "loadBytes demo_load ''SRS'' (NewRemoteRuleSet demo_options) =
      (fst (loadBytes demo_load ''SRS'' (NewRemoteRuleSet demo_options)), Err ioEOF)"
    by (simp add: loadBytes_def NewRemoteRuleSet_def demo_options_def demo_load_def decode_rules_def RuleSetFormatSource_def
      RuleSetFormatBinary_def read_binary_def srs_Read_def bindP_def read_full_n_def MagicBytes_def read_uint8_def)
  from loadBytes_atomic [OF this] this show ?thesis by simp
qed

lemma demo_rules_load: "\<exists>Rs. load_rules hd demo_net_env True 0 demo_rules = Ok Rs"
  by (simp add: demo_rules_def build_eval NewDomainItem_def NewIPCIDRItem_def with_cause_def demo_net_env_def demo_rule_env_def
    LogicalTypeAnd_def LogicalTypeOr_def)

lemma demo_rules_source: "list_all source_rule demo_rules"
  by (simp add: demo_rules_def source_options_def empty_headless_def empty_common_def common_options.defs headless_options.defs)

theorem compiled_file_matches_witness:
  "\<exists>out Rs s'. srs_Write (le_srs demo_load) (\<lambda>_. None) demo_rules 3 = Ok out \<and>
     load_rules hd demo_net_env True 0 demo_rules = Ok Rs \<and>
     loadBytes demo_load out (NewRemoteRuleSet demo_options) = (s', Ok ()) \<and>
     remote_Match loops_ref demo_net_env s' = match_rules loops_ref demo_net_env Rs \<and>
     md_ContainsIPCIDRRule (rrs_metadata s') \<and> \<not> md_ContainsWIFIRule (rrs_metadata s')"
proof -
  have H: "le_srs demo_load = demo_srs demo_net_env" "le_rule demo_load = demo_net_env" "le_All demo_load = hd" "le_manager demo_load"
    by (simp_all add: demo_load_def)
  obtain out where out: "srs_Write (le_srs demo_load) (\<lambda>_. None) demo_rules 3 = Ok out"
    unfolding H using demo_rules_written by blast
  obtain Rs where Rs: "load_rules hd demo_net_env True 0 demo_rules = Ok Rs" using demo_rules_load by blast
  have "hasHeadlessRule isIPCIDRHeadlessRule demo_rules" "\<not> hasHeadlessRule isWIFIHeadlessRule demo_rules"
    by (simp_all add: demo_rules_def isIPCIDRHeadlessRule_def isWIFIHeadlessRule_def empty_headless_def empty_common_def
      common_options.defs headless_options.defs)
  with compiled_file_matches [of demo_load 3 demo_rules "\<lambda>_. None" out Rs "NewRemoteRuleSet demo_options" loops_ref]
    demo_srs_ok demo_net_ok demo_rules_fit demo_rules_source out Rs
  show ?thesis
    by (auto simp: H RuleSetVersion3_def NewRemoteRuleSet_def demo_options_def RuleSetFormatBinary_def)
qed

definition demo_bytes :: string where
  "demo_bytes = ''SRS'' @ map char_of [3, 1, 0, 9, 1, 1, 187, 255, 0 :: nat]"

lemma port_bytes: "be_bytes 2 443 = [char_of (1 :: nat), char_of (187 :: nat)]"
  by (simp add: numeral_2_eq_2)

lemma demo_bytes_written:
  "srs_Write (le_srs demo_load) (\<lambda>_. None) [DefaultOptions (port_options 443)] 3 = Ok demo_bytes"
  by (simp add: demo_bytes_def srs_Write_def writeDefaultRule_def optW_def writeRuleItemUint16_def byteW_def boolW_def demo_load_def
    demo_srs_def port_options_def empty_headless_def empty_common_def common_options.defs headless_options.defs listW_def short_def
    wordW_def Let_def MagicBytes_def srs_consts uvarint.simps port_bytes)

lemma demo_bytes_load: "\<exists>s. loadBytes demo_load demo_bytes (NewRemoteRuleSet demo_options) = (s, Ok ())"
proof -
  have H: "le_srs demo_load = demo_srs demo_net_env" by (simp add: demo_load_def)
  have "srs_Read (le_srs demo_load) \<lparr>rd_data = demo_bytes, rd_end = ioEOF\<rparr> False =
      Some (Ok \<lparr>prs_Version = 3, prs_Rules = [DefaultOptions (srs_normal (demo_srs demo_net_env) False 3 (port_options 443))]\<rparr>)"
    using srs_read_written [OF _ _ _ _ demo_bytes_written, of False] demo_srs_ok [of demo_net_env]
    by (simp add: H RuleSetVersionCurrent_def RuleSetVersion3_def options_fit_def cidr_set_def cidr_ranges_def demo_srs_def
      port_options_def empty_headless_def empty_common_def common_options.defs headless_options.defs)
  moreover have "srs_normal (demo_srs demo_net_env) False 3 (port_options 443) = port_options 443"
    by (simp add: srs_normal_def has_domain_def port_options_def empty_headless_def empty_common_def common_options.defs
      headless_options.defs)
  moreover obtain Rs where "load_rules (le_All demo_load) (le_rule demo_load) (le_manager demo_load) 0 [DefaultOptions (port_options 443)] = Ok Rs"
    using port_options_rule [of hd demo_net_env True 443] by (simp add: demo_load_def del: NewHeadlessRule.simps)
  ultimately show ?thesis
    by (simp add: loadBytes_def decode_rules_def read_binary_def NewRemoteRuleSet_def demo_options_def RuleSetFormatBinary_def
      RuleSetFormatSource_def PlainRuleSetCompat_Upgrade_def RuleSetVersion3_def del: load_rules.simps)
qed

theorem remote_restart_offline_witness:
  "\<exists>s c2 s3. loadBytes demo_load demo_bytes (NewRemoteRuleSet demo_options) = (s, Ok ()) \<and>
     store_content demo_load demo_bytes ''e1'' s (Some demo_cache) 0 = (s\<lparr>rrs_lastEtag := ''e1'', rrs_lastUpdated := 1700000000123456789\<rparr>, Some c2, 1) \<and>
     remote_StartContext demo_load new_manager (outbound_NewManager []) Map.empty (NewRemoteRuleSet demo_options) (Some c2) 7 =
       (Ok (), Map.empty, s3, Some c2, 7) \<and>
     rrs_rules s3 = rrs_rules s \<and> rrs_lastEtag s3 = ''e1'' \<and> rrs_lastUpdated s3 = 1700000000000000000"
proof -
  obtain s where s: "loadBytes demo_load demo_bytes (NewRemoteRuleSet demo_options) = (s, Ok ())" using demo_bytes_load by blast
  let ?s2 = "s\<lparr>rrs_lastEtag := ''e1'', rrs_lastUpdated := 1700000000123456789\<rparr>"
  let ?saved = "\<lparr>sb_Content = demo_bytes, sb_LastUpdated = 1700000000123456789, sb_LastEtag = ''e1''\<rparr>"
  let ?c2 = "snd (SaveRuleSet bolt_tree demo_varbin ''geo'' ?saved demo_cache)"
  have o': "rrs_options s = demo_options"
    using s by (auto simp: loadBytes_def NewRemoteRuleSet_def Let_def split: res.splits)
  have st: "store_content demo_load demo_bytes ''e1'' s (Some demo_cache) 0 = (?s2, Some ?c2, 1)"
    by (simp add: store_content_def demo_load_def o') (simp add: demo_options_def)
  have sv: "fst (SaveRuleSet bolt_tree demo_varbin ''geo'' ?saved demo_cache) = None"
    by (simp add: SaveRuleSet_def SavedBinary_MarshalBinary_def demo_varbin_def demo_bytes_def cache_eval)
  have "\<exists>s3. remote_StartContext demo_load new_manager (outbound_NewManager []) Map.empty (NewRemoteRuleSet demo_options) (Some ?c2) 7 =
        (Ok (), Map.empty, s3, Some ?c2, 7) \<and>
      rrs_rules s3 = rrs_rules ?s2 \<and> rrs_metadata s3 = rrs_metadata ?s2 \<and> rrs_lastEtag s3 = rrs_lastEtag ?s2 \<and>
      rrs_lastUpdated s3 = rrs_lastUpdated ?s2 div 1000000000 * 1000000000 \<and> rrs_ticker s3"
    using remote_restart_offline [of demo_load demo_bytes "NewRemoteRuleSet demo_options" s "''e1''" demo_cache 0 ?s2 ?c2 1
      new_manager "outbound_NewManager []" "outbound_Default (outbound_NewManager [])" Map.empty 7]
      bolt_tree_ok demo_varbin_ok s st sv
    by (simp add: demo_load_def choose_dialer_def NewRemoteRuleSet_def demo_options_def zero_time_def)
  with s st show ?thesis by auto
qed

text \<open>
  The files embedded into the program come first: a rule set whose URL ends in the name of one of them is never
  downloaded, its time of update is never set and nothing is saved.
\<close>

lemma embedded_never_fetched:
  assumes "le_embedded H (last (split_at CHR ''/'' (rso_URL (rrs_options s)))) = Some raw"
  shows "fetch H ctx s cf w = (let (s', r) = loadBytes H raw s in (r, snd (http_client s ctx), s', cf, w))"
  using assms by (simp add: fetch_def Let_def split: prod.splits)

text \<open>A cached rule set that cannot be loaded any more ends the start with an error, though the network has a good one.\<close>

lemma bad_cache_fails_start:
  assumes "choose_dialer eps outs s = Ok dialer" and "LoadRuleSet (le_bolt H) (le_varbin H) c (rso_Tag (rrs_options s)) = Some saved"
    and "snd (loadBytes H (sb_Content saved) (s\<lparr>rrs_dialer := dialer\<rparr>)) = Err e"
  shows "fst (remote_StartContext H eps outs ctx s (Some c) w) = Err (ECause e [AStr ''restore cached rule-set''])"
  using assms by (cases "loadBytes H (sb_Content saved) (s\<lparr>rrs_dialer := dialer\<rparr>)") (simp add: remote_StartContext_def restore_cached_def)

end
