(* ===== verification/Interrupt.thy ===== *)
theory Interrupt
  imports Prelude
begin

text \<open>
  Groups of connections that are closed together (\<open>core/common/interrupt/group.go\<close>, \<open>conn.go\<close>).  A connection is
  a number; what was closed is a list, in the order of the calls.  An element of the linked list is the
  pair of its identity and its value.  \<open>Conn\<close> and \<open>PacketConn\<close> differ in the type of the wrapped connection only.
\<close>

section \<open>Operations\<close>

record groupConnItem =
  gi_conn :: nat
  gi_external :: bool

record conn_group =
  connections :: "(nat \<times> groupConnItem) list"
  next_element :: nat

record tracked_conn =
  tc_conn :: nat
  tc_element :: nat

definition NewGroup :: conn_group where
  "NewGroup = \<lparr>connections = [], next_element = 0\<rparr>"

definition Group_NewConn :: "nat \<Rightarrow> bool \<Rightarrow> conn_group \<Rightarrow> tracked_conn \<times> conn_group" where
  "Group_NewConn conn isExternal g =
     (let e = next_element g in
      (\<lparr>tc_conn = conn, tc_element = e\<rparr>,
       \<lparr>connections = connections g @ [(e, \<lparr>gi_conn = conn, gi_external = isExternal\<rparr>)], next_element = Suc e\<rparr>))"

definition list_Remove :: "nat \<Rightarrow> (nat \<times> 'v) list \<Rightarrow> (nat \<times> 'v) list" where
  "list_Remove e xs = filter (\<lambda>x. fst x \<noteq> e) xs"

definition Conn_Close :: "tracked_conn \<Rightarrow> conn_group \<Rightarrow> nat list \<Rightarrow> conn_group \<times> nat list" where
  "Conn_Close c g closed = (g\<lparr>connections := list_Remove (tc_element c) (connections g)\<rparr>, closed @ [tc_conn c])"

fun interrupt_loop ::
    "bool \<Rightarrow> (nat \<times> groupConnItem) list \<Rightarrow> nat list \<Rightarrow> nat list \<Rightarrow> nat list \<times> nat list" where
  "interrupt_loop ext [] closed toDelete = (closed, toDelete)"
| "interrupt_loop ext ((e, item) # es) closed toDelete =
     (if \<not> gi_external item \<or> ext
      then interrupt_loop ext es (closed @ [gi_conn item]) (toDelete @ [e])
      else interrupt_loop ext es closed toDelete)"

definition Group_Interrupt :: "bool \<Rightarrow> conn_group \<Rightarrow> nat list \<Rightarrow> conn_group \<times> nat list" where
  "Group_Interrupt ext g closed =
     (case interrupt_loop ext (connections g) closed [] of
        (closed', toDelete) \<Rightarrow> (g\<lparr>connections := fold list_Remove toDelete (connections g)\<rparr>, closed'))"

section \<open>What an interruption does\<close>

abbreviation hit :: "bool \<Rightarrow> nat \<times> groupConnItem \<Rightarrow> bool" where
  "hit ext x \<equiv> \<not> gi_external (snd x) \<or> ext"

lemma interrupt_loop_eq:
  "interrupt_loop ext xs closed del =
     (closed @ map (gi_conn \<circ> snd) (filter (hit ext) xs), del @ map fst (filter (hit ext) xs))"
  by (induction ext xs closed del rule: interrupt_loop.induct) auto

lemma fold_list_Remove: "fold list_Remove es xs = filter (\<lambda>x. fst x \<notin> set es) xs"
  by (induction es arbitrary: xs) (auto simp: list_Remove_def intro: filter_cong)

lemma Group_Interrupt_eq:
  assumes "distinct (map fst (connections g))"
  shows "Group_Interrupt ext g closed =
    (g\<lparr>connections := filter (\<lambda>x. \<not> hit ext x) (connections g)\<rparr>,
     closed @ map (gi_conn \<circ> snd) (filter (hit ext) (connections g)))"
proof -
  have "fst x \<in> fst ` {y \<in> set (connections g). hit ext y} \<longleftrightarrow> hit ext x" if "x \<in> set (connections g)" for x
  proof -
    have "inj_on fst (set (connections g))" using assms by (simp add: distinct_map)
    then have "fst x \<in> fst ` {y \<in> set (connections g). hit ext y} \<longleftrightarrow> x \<in> {y \<in> set (connections g). hit ext y}"
      using that by (intro inj_on_image_mem_iff) auto
    then show ?thesis using that by simp
  qed
  then have "filter (\<lambda>x. fst x \<notin> fst ` {y \<in> set (connections g). hit ext y}) (connections g) = filter (\<lambda>x. \<not> hit ext x) (connections g)"
    by (intro filter_cong) simp_all
  then show ?thesis by (simp add: Group_Interrupt_def interrupt_loop_eq fold_list_Remove)
qed

section \<open>All connections of a group\<close>

text \<open>
  The uses of a group: a connection is wrapped, a wrapped one is closed by its user, at any time and
  possibly more than once, or the group is interrupted.  \<open>us_out\<close> are the connections that were given out, with
  the flag.
\<close>

record group_use =
  us_group :: conn_group
  us_out :: "(tracked_conn \<times> bool) list"
  us_closed :: "nat list"

inductive group_step :: "group_use \<Rightarrow> group_use \<Rightarrow> bool" where
  open_conn: "Group_NewConn conn ext (us_group u) = (c, g) \<Longrightarrow>
    group_step u \<lparr>us_group = g, us_out = us_out u @ [(c, ext)], us_closed = us_closed u\<rparr>"
| close_conn: "(c, ext) \<in> set (us_out u) \<Longrightarrow> Conn_Close c (us_group u) (us_closed u) = (g, closed) \<Longrightarrow>
    group_step u \<lparr>us_group = g, us_out = us_out u, us_closed = closed\<rparr>"
| interrupt: "Group_Interrupt ext (us_group u) (us_closed u) = (g, closed) \<Longrightarrow>
    group_step u \<lparr>us_group = g, us_out = us_out u, us_closed = closed\<rparr>"

definition fresh_use :: group_use where
  "fresh_use = \<lparr>us_group = NewGroup, us_out = [], us_closed = []\<rparr>"

text \<open>Elements are distinct and older than the next one; what was given out is in the list or closed.\<close>

definition entry :: "tracked_conn \<times> bool \<Rightarrow> nat \<times> groupConnItem" where
  "entry o' = (tc_element (fst o'), \<lparr>gi_conn = tc_conn (fst o'), gi_external = snd o'\<rparr>)"

definition use_inv :: "group_use \<Rightarrow> bool" where
  "use_inv u \<longleftrightarrow> distinct (map fst (connections (us_group u))) \<and>
     distinct (map (tc_element \<circ> fst) (us_out u)) \<and>
     (\<forall>x \<in> set (connections (us_group u)). fst x < next_element (us_group u)) \<and>
     (\<forall>x \<in> set (us_out u). tc_element (fst x) < next_element (us_group u) \<and>
        (entry x \<in> set (connections (us_group u)) \<or> tc_conn (fst x) \<in> set (us_closed u)))"

lemma use_inv_fresh [inv_intros]: "use_inv fresh_use"
  by (simp add: use_inv_def fresh_use_def NewGroup_def)

lemma use_inv_open:
  assumes "use_inv u" and "Group_NewConn conn ext (us_group u) = (c, g)"
  shows "use_inv \<lparr>us_group = g, us_out = us_out u @ [(c, ext)], us_closed = us_closed u\<rparr>"
proof -
  let ?v = "\<lparr>us_group = g, us_out = us_out u @ [(c, ext)], us_closed = us_closed u\<rparr>"
  have eqs: "connections g = connections (us_group u) @ [entry (c, ext)]" "next_element g = Suc (next_element (us_group u))"
    "tc_element c = next_element (us_group u)" "fst (entry (c, ext)) = next_element (us_group u)"
    using assms(2) by (auto simp: Group_NewConn_def Let_def entry_def)
  have old: "\<forall>x \<in> set (connections (us_group u)). fst x < next_element (us_group u)"
    "\<forall>x \<in> set (us_out u). tc_element (fst x) < next_element (us_group u) \<and>
        (entry x \<in> set (connections (us_group u)) \<or> tc_conn (fst x) \<in> set (us_closed u))"
    "distinct (map fst (connections (us_group u)))" "distinct (map (tc_element \<circ> fst) (us_out u))"
    using assms(1) by (auto simp: use_inv_def)
  have "distinct (map fst (connections g))" using old(1,3) eqs by (force simp: image_iff)
  moreover have "distinct (map (tc_element \<circ> fst) (us_out ?v))" using old(2,4) eqs by (force simp: image_iff)
  ultimately show ?thesis unfolding use_inv_def using old(1,2) eqs(1,2,3,4) by (auto simp: less_Suc_eq)
qed

lemma distinct_map_filter_fst: "distinct (map fst xs) \<Longrightarrow> distinct (map fst (filter P xs))"
  by (induction xs) auto

lemma use_inv_shrink:
  assumes "use_inv u" and "connections g = filter P (connections (us_group u))" and "next_element g = next_element (us_group u)"
    and "set (us_closed u) \<subseteq> set closed"
    and "\<And>x. x \<in> set (us_out u) \<Longrightarrow> entry x \<in> set (connections (us_group u)) \<Longrightarrow> \<not> P (entry x) \<Longrightarrow> tc_conn (fst x) \<in> set closed"
  shows "use_inv \<lparr>us_group = g, us_out = us_out u, us_closed = closed\<rparr>"
  unfolding use_inv_def
proof (intro conjI ballI)
  fix x assume x: "x \<in> set (us_out \<lparr>us_group = g, us_out = us_out u, us_closed = closed\<rparr>)"
  with assms(1) have "entry x \<in> set (connections (us_group u)) \<or> tc_conn (fst x) \<in> set (us_closed u)"
    by (simp add: use_inv_def)
  moreover have "x \<in> set (us_out u)" using x by simp
  note assms(5) [OF this]
  ultimately show "entry x \<in> set (connections (us_group \<lparr>us_group = g, us_out = us_out u, us_closed = closed\<rparr>)) \<or>
    tc_conn (fst x) \<in> set (us_closed \<lparr>us_group = g, us_out = us_out u, us_closed = closed\<rparr>)" using assms(2,4) by auto
qed (use assms(1-3) in \<open>auto simp: use_inv_def distinct_map_filter_fst\<close>)

lemma use_inv_close:
  assumes "use_inv u" and "(c, ext) \<in> set (us_out u)" and "Conn_Close c (us_group u) (us_closed u) = (g, closed)"
  shows "use_inv \<lparr>us_group = g, us_out = us_out u, us_closed = closed\<rparr>"
proof (rule use_inv_shrink [OF assms(1), where P = "\<lambda>x. fst x \<noteq> tc_element c"])
  fix x assume x: "x \<in> set (us_out u)" "\<not> fst (entry x) \<noteq> tc_element c"
  have "inj_on (tc_element \<circ> fst) (set (us_out u))"
    using assms(1) by (simp add: use_inv_def distinct_map)
  from inj_onD [OF this _ x(1) assms(2)] x(2) have "x = (c, ext)" by (simp add: entry_def)
  then show "tc_conn (fst x) \<in> set closed" using assms(3) by (auto simp: Conn_Close_def)
qed (use assms(3) in \<open>auto simp: Conn_Close_def list_Remove_def\<close>)

lemma use_inv_interrupt:
  assumes "use_inv u" and "Group_Interrupt ext (us_group u) (us_closed u) = (g, closed)"
  shows "use_inv \<lparr>us_group = g, us_out = us_out u, us_closed = closed\<rparr>"
proof (rule use_inv_shrink [OF assms(1), where P = "\<lambda>x. \<not> hit ext x"])
  have eq: "(g, closed) = (us_group u\<lparr>connections := filter (\<lambda>x. \<not> hit ext x) (connections (us_group u))\<rparr>,
     us_closed u @ map (gi_conn \<circ> snd) (filter (hit ext) (connections (us_group u))))"
    using assms by (simp add: Group_Interrupt_eq use_inv_def)
  then show "connections g = filter (\<lambda>x. \<not> hit ext x) (connections (us_group u))"
    "next_element g = next_element (us_group u)" "set (us_closed u) \<subseteq> set closed" by auto
  show "tc_conn (fst x) \<in> set closed"
    if "entry x \<in> set (connections (us_group u))" "\<not> \<not> hit ext (entry x)" for x
  proof -
    have "gi_conn (snd (entry x)) \<in> set closed" using eq that by auto
    then show ?thesis by (simp add: entry_def)
  qed
qed

lemma use_inv_step: "group_step u v \<Longrightarrow> use_inv u \<Longrightarrow> use_inv v"
  by (induction rule: group_step.induct) (auto intro: use_inv_open use_inv_close use_inv_interrupt)

lemma use_inv_reachable: "group_step\<^sup>*\<^sup>* fresh_use u \<Longrightarrow> use_inv u"
  by (induction rule: rtranclp_induct) (auto intro: use_inv_step use_inv_fresh)

text \<open>
  C25: However a group of connections was used, interrupting it closes every connection it has given out that was
  not closed before, and forgets it; the connections from outside are spared, unless they are to be
  interrupted too.
\<close>

theorem interrupt_closes_all:
  assumes "group_step\<^sup>*\<^sup>* fresh_use u" and "Group_Interrupt ext (us_group u) (us_closed u) = (g, closed)"
  shows "(\<forall>(c, e) \<in> set (us_out u). \<not> e \<or> ext \<longrightarrow> tc_conn c \<in> set closed) \<and>
    (ext \<longrightarrow> connections g = []) \<and>
    (\<not> ext \<longrightarrow> connections g = filter (gi_external \<circ> snd) (connections (us_group u)) \<and>
       (\<forall>n \<in> set closed. n \<in> set (us_closed u) \<or> (n, False) \<in> (\<lambda>x. (gi_conn (snd x), gi_external (snd x))) ` set (connections (us_group u))))"
proof -
  have u: "use_inv u" using assms(1) by (rule use_inv_reachable)
  have eq: "(g, closed) = (us_group u\<lparr>connections := filter (\<lambda>x. \<not> hit ext x) (connections (us_group u))\<rparr>,
     us_closed u @ map (gi_conn \<circ> snd) (filter (hit ext) (connections (us_group u))))"
    using assms(2) u by (simp add: Group_Interrupt_eq use_inv_def)
  have "tc_conn c \<in> set closed" if o': "(c, e) \<in> set (us_out u)" "\<not> e \<or> ext" for c e
  proof -
    from u o'(1) consider "entry (c, e) \<in> set (connections (us_group u))" | "tc_conn c \<in> set (us_closed u)"
      by (fastforce simp: use_inv_def)
    then show ?thesis
    proof cases
      case 1
      have "hit ext (entry (c, e))" using o'(2) by (simp add: entry_def)
      with 1 eq have "gi_conn (snd (entry (c, e))) \<in> set closed" by auto
      then show ?thesis by (simp add: entry_def)
    qed (use eq in auto)
  qed
  moreover have "ext \<Longrightarrow> connections g = []" using eq by simp
  moreover have "\<not> ext \<Longrightarrow> connections g = filter (gi_external \<circ> snd) (connections (us_group u))" using eq by (simp add: comp_def)
  moreover have "n \<in> set (us_closed u) \<or> (n, False) \<in> (\<lambda>x. (gi_conn (snd x), gi_external (snd x))) ` set (connections (us_group u))"
    if "\<not> ext" "n \<in> set closed" for n
    using eq that by (force simp: image_iff)
  ultimately show ?thesis by auto
qed

theorem interrupt_closes_all_witness:
  "\<exists>u g closed. group_step\<^sup>*\<^sup>* fresh_use u \<and> Group_Interrupt False (us_group u) (us_closed u) = (g, closed) \<and>
     7 \<in> set closed \<and> connections g = [(1, \<lparr>gi_conn = 8, gi_external = True\<rparr>)] \<and> length (us_out u) = 2"
proof -
  define u0 where "u0 = \<lparr>us_group = snd (Group_NewConn 7 False NewGroup), us_out = [(\<lparr>tc_conn = 7, tc_element = 0\<rparr>, False)], us_closed = []\<rparr>"
  define u where "u = \<lparr>us_group = snd (Group_NewConn 8 True (us_group u0)), us_out = us_out u0 @ [(\<lparr>tc_conn = 8, tc_element = 1\<rparr>, True)], us_closed = []\<rparr>"
  have "group_step fresh_use u0"
    using open_conn [of 7 False fresh_use] by (simp add: u0_def fresh_use_def NewGroup_def Group_NewConn_def)
  moreover have "group_step u0 u"
    using open_conn [of 8 True u0] by (simp add: u_def u0_def NewGroup_def Group_NewConn_def)
  ultimately have r: "group_step\<^sup>*\<^sup>* fresh_use u" by (meson converse_rtranclp_into_rtranclp rtranclp.rtrancl_refl)
  have i: "Group_Interrupt False (us_group u) (us_closed u) = (us_group u\<lparr>connections := [(1, \<lparr>gi_conn = 8, gi_external = True\<rparr>)]\<rparr>, [7])"
    by (simp add: u_def u0_def NewGroup_def Group_NewConn_def Group_Interrupt_def list_Remove_def)
  have "7 \<in> set [7 :: nat]" using interrupt_closes_all [OF r i] by (simp add: u_def u0_def)
  moreover have "length (us_out u) = 2" by (simp add: u_def u0_def)
  ultimately show ?thesis using r i by fastforce
qed

end
