(* ===== verification/Outbound_Groups.thy ===== *)
theory Outbound_Groups
  imports Outbound_Manager Cache_File Interrupt
begin

text \<open>
  The outbound groups: \<open>core/protocol/group/selector.go\<close>, \<open>urltest.go\<close>, and the history of measured delays
  (\<open>core/common/urltest/urltest.go\<close>).  What the methods of an outbound return is in \<open>group_env\<close>; a connection
  is a number, and the connections that were closed are a list, as in theory \<open>Interrupt\<close>.  A ticker is the flag that
  there is one; the goroutine behind it is \<open>loopCheck\<close>.
\<close>

section \<open>History\<close>

record URLTestHistory =
  uh_Time :: int
  uh_Delay :: "16 word"

text \<open>The hook is a buffered channel: the number of waiting values and its capacity.\<close>

record HistoryStorage =
  delayHistory :: "string \<rightharpoonup> URLTestHistory"
  updateHook :: "(nat \<times> nat) option"

definition NewHistoryStorage :: HistoryStorage where
  "NewHistoryStorage = \<lparr>delayHistory = Map.empty, updateHook = None\<rparr>"

definition SetHook :: "nat \<times> nat \<Rightarrow> HistoryStorage \<Rightarrow> HistoryStorage" where
  "SetHook hook s = s\<lparr>updateHook := Some hook\<rparr>"

definition LoadURLTestHistory :: "HistoryStorage option \<Rightarrow> string \<Rightarrow> URLTestHistory option" where
  "LoadURLTestHistory s tag = (case s of None \<Rightarrow> None | Some st \<Rightarrow> delayHistory st tag)"

definition notifyUpdated :: "HistoryStorage \<Rightarrow> HistoryStorage" where
  "notifyUpdated s =
     updateHook_update (map_option (\<lambda>(waiting, cap). (if waiting < cap then waiting + 1 else waiting, cap))) s"

definition DeleteURLTestHistory :: "string \<Rightarrow> HistoryStorage \<Rightarrow> HistoryStorage" where
  "DeleteURLTestHistory tag s = notifyUpdated (delayHistory_update (\<lambda>m. m(tag := None)) s)"

definition StoreURLTestHistory :: "string \<Rightarrow> URLTestHistory \<Rightarrow> HistoryStorage \<Rightarrow> HistoryStorage" where
  "StoreURLTestHistory tag history s = notifyUpdated (delayHistory_update (\<lambda>m. m(tag \<mapsto> history)) s)"

definition HistoryStorage_Close :: "HistoryStorage \<Rightarrow> HistoryStorage" where
  "HistoryStorage_Close s = s\<lparr>updateHook := None\<rparr>"

section \<open>One measurement\<close>

text \<open>
  \<open>urltest.URLTest\<close>.  Parsing the link, the clock, the outbound and the HTTP client are arguments; a parsed link is
  its host name, port and scheme.  Times are in nanoseconds.
\<close>

record ('c, 'w) probe_env =
  pe_Parse :: "string \<Rightarrow> go_error + string \<times> string \<times> string"
  pe_Now :: "'w \<Rightarrow> int \<times> 'w"
  pe_Dial :: "obj \<Rightarrow> string \<Rightarrow> string \<Rightarrow> 'w \<Rightarrow> (go_error + 'c) \<times> 'w"
  pe_NeedHandshake :: "'c \<Rightarrow> bool"
  pe_NewRequest :: "string \<Rightarrow> go_error option"
  pe_Do :: "'c \<Rightarrow> string \<Rightarrow> 'w \<Rightarrow> go_error option \<times> 'w"

definition link_port :: "string \<Rightarrow> string \<Rightarrow> string" where
  "link_port scheme port =
     (if port = [] then (if scheme = ''http'' then ''80'' else if scheme = ''https'' then ''443'' else []) else port)"

text \<open>Go's integer division cuts towards zero.\<close>

definition quot_go :: "int \<Rightarrow> int \<Rightarrow> int" where
  "quot_go a b = sgn a * sgn b * (\<bar>a\<bar> div \<bar>b\<bar>)"

definition urltest_URLTest ::
    "('c, 'w) probe_env \<Rightarrow> string \<Rightarrow> obj \<Rightarrow> 'w \<Rightarrow> (go_error + 16 word) \<times> 'w" where
  "urltest_URLTest P link0 detour w =
     (let link = (if link0 = [] then ''https://www.gstatic.com/generate_204'' else link0) in
      case pe_Parse P link of
        Inl e \<Rightarrow> (Inl e, w)
      | Inr (hostname, port, scheme) \<Rightarrow>
          case pe_Now P w of (start, w1) \<Rightarrow>
          case pe_Dial P detour hostname (link_port scheme port) w1 of
            (Inl e, w2) \<Rightarrow> (Inl e, w2)
          | (Inr inst, w2) \<Rightarrow>
              case (if pe_NeedHandshake P inst then pe_Now P w2 else (start, w2)) of (start', w3) \<Rightarrow>
              case pe_NewRequest P link of
                Some e \<Rightarrow> (Inl e, w3)
              | None \<Rightarrow>
                  case pe_Do P inst link w3 of
                    (Some e, w4) \<Rightarrow> (Inl e, w4)
                  | (None, w4) \<Rightarrow>
                      case pe_Now P w4 of (now1, w5) \<Rightarrow> (Inr (word_of_int (quot_go (now1 - start') 1000000)), w5))"

section \<open>Outbounds of a group\<close>

record 'dst group_env =
  ge_Network :: "obj \<Rightarrow> string list"
  ge_Now :: "obj \<Rightarrow> string option"
  ge_NetworkName :: "string \<Rightarrow> string"
  ge_Dial :: "obj \<Rightarrow> string \<Rightarrow> 'dst \<Rightarrow> go_error + nat"
  ge_Listen :: "obj \<Rightarrow> 'dst \<Rightarrow> go_error + nat"
  ge_ConnectionHandler :: "obj \<Rightarrow> bool"
  ge_PacketHandler :: "obj \<Rightarrow> bool"

definition NetworkTCP :: string where "NetworkTCP = ''tcp''"
definition NetworkUDP :: string where "NetworkUDP = ''udp''"

text \<open>\<open>ge_Now\<close> is \<open>Now()\<close> of an outbound that is itself a group, and \<open>None\<close> for every other one.\<close>

definition RealTag :: "'dst group_env \<Rightarrow> obj \<Rightarrow> string" where
  "RealTag E detour = (case ge_Now E detour of Some t \<Rightarrow> t | None \<Rightarrow> obj_tag detour)"

text \<open>To whom a new connection is handed.\<close>

datatype handover = ToHandler obj | ToManager "obj option"

section \<open>Selector\<close>

record SelectorOptions =
  so_Outbounds :: "string list"
  so_Default :: string
  so_Interrupt :: bool

record Selector =
  sel_Tag :: string
  sel_tags :: "string list"
  sel_defaultTag :: string
  sel_outbounds :: "string \<rightharpoonup> obj"
  sel_selected :: "obj option"
  sel_group :: conn_group
  sel_external :: bool

definition NewSelector :: "string \<Rightarrow> SelectorOptions \<Rightarrow> Selector res" where
  "NewSelector tag options =
     (if so_Outbounds options = [] then Err (ENew [AStr ''missing tags''])
      else Ok \<lparr>sel_Tag = tag, sel_tags = so_Outbounds options, sel_defaultTag = so_Default options,
               sel_outbounds = Map.empty, sel_selected = None, sel_group = NewGroup, sel_external = so_Interrupt options\<rparr>)"

definition Selector_Network :: "'dst group_env \<Rightarrow> Selector \<Rightarrow> string list" where
  "Selector_Network E s = (case sel_selected s of None \<Rightarrow> [NetworkTCP, NetworkUDP] | Some x \<Rightarrow> ge_Network E x)"

fun resolve_tags ::
    "(string \<Rightarrow> obj option) \<Rightarrow> nat \<Rightarrow> string list \<Rightarrow> (string \<rightharpoonup> obj) \<Rightarrow> (string \<rightharpoonup> obj) \<times> unit res" where
  "resolve_tags lookup i [] m = (m, Ok ())"
| "resolve_tags lookup i (tag # tags) m =
     (case lookup tag of
        None \<Rightarrow> (m, Err (ENew [AStr ''outbound '', AInt (int i), AStr '' not found: '', AStr tag]))
      | Some detour \<Rightarrow> resolve_tags lookup (i + 1) tags (m(tag \<mapsto> detour)))"

definition cached_selection :: "'d bolt \<Rightarrow> 'd CacheFile option \<Rightarrow> Selector \<Rightarrow> obj option" where
  "cached_selection B cf s =
     (if sel_Tag s = [] then None
      else case cf of
        None \<Rightarrow> None
      | Some c \<Rightarrow>
          let selected = LoadSelected B c (sel_Tag s) in
          if selected = [] then None else sel_outbounds s selected)"

definition Selector_Start ::
    "'d bolt \<Rightarrow> manager \<Rightarrow> outbound_manager \<Rightarrow> 'd CacheFile option \<Rightarrow> Selector \<Rightarrow> Selector \<times> unit res" where
  "Selector_Start B eps outs cf s =
     (case resolve_tags (outbound_Outbound eps outs) 0 (sel_tags s) (sel_outbounds s) of
        (m, Err e) \<Rightarrow> (s\<lparr>sel_outbounds := m\<rparr>, Err e)
      | (m, Panic p) \<Rightarrow> (s\<lparr>sel_outbounds := m\<rparr>, Panic p)
      | (m, Ok _) \<Rightarrow>
          let s1 = s\<lparr>sel_outbounds := m\<rparr> in
          case cached_selection B cf s1 of
            Some detour \<Rightarrow> (s1\<lparr>sel_selected := Some detour\<rparr>, Ok ())
          | None \<Rightarrow>
              if sel_defaultTag s \<noteq> [] then
                (case m (sel_defaultTag s) of
                   None \<Rightarrow> (s1, Err (ENew [AStr ''default outbound not found: '', AStr (sel_defaultTag s)]))
                 | Some detour \<Rightarrow> (s1\<lparr>sel_selected := Some detour\<rparr>, Ok ()))
              else
                (case sel_tags s of
                   [] \<Rightarrow> (s1, Panic ''index out of range'')
                 | t # _ \<Rightarrow> (s1\<lparr>sel_selected := m t\<rparr>, Ok ())))"

definition Selector_Now :: "Selector \<Rightarrow> string res" where
  "Selector_Now s =
     (case sel_selected s of
        None \<Rightarrow> (case sel_tags s of [] \<Rightarrow> Panic ''index out of range'' | t # _ \<Rightarrow> Ok t)
      | Some x \<Rightarrow> Ok (obj_tag x))"

definition Selector_All :: "Selector \<Rightarrow> string list" where
  "Selector_All s = sel_tags s"

definition same_obj :: "obj option \<Rightarrow> obj option \<Rightarrow> bool" where
  "same_obj x y = (map_option obj_id x = map_option obj_id y)"

definition SelectOutbound ::
    "'d bolt \<Rightarrow> string \<Rightarrow> Selector \<Rightarrow> 'd CacheFile option \<Rightarrow> nat list \<Rightarrow> bool \<times> Selector \<times> 'd CacheFile option \<times> nat list" where
  "SelectOutbound B tag s cf closed =
     (case sel_outbounds s tag of
        None \<Rightarrow> (False, s, cf, closed)
      | Some detour \<Rightarrow>
          let s1 = s\<lparr>sel_selected := Some detour\<rparr> in
          if same_obj (sel_selected s) (Some detour) then (True, s1, cf, closed)
          else
            let cf1 = (if sel_Tag s \<noteq> [] then map_option (\<lambda>c. snd (StoreSelected B (sel_Tag s) tag c)) cf else cf) in
            case Group_Interrupt (sel_external s) (sel_group s) closed of
              (g, closed') \<Rightarrow> (True, s1\<lparr>sel_group := g\<rparr>, cf1, closed'))"

definition Selector_DialContext ::
    "'dst group_env \<Rightarrow> bool \<Rightarrow> string \<Rightarrow> 'dst \<Rightarrow> Selector \<Rightarrow> Selector \<times> tracked_conn res" where
  "Selector_DialContext E isExternal network destination s =
     (case sel_selected s of
        None \<Rightarrow> (s, Panic ''nil pointer dereference'')
      | Some x \<Rightarrow>
          (case ge_Dial E x network destination of
             Inl e \<Rightarrow> (s, Err e)
           | Inr conn \<Rightarrow> (case Group_NewConn conn isExternal (sel_group s) of (c, g) \<Rightarrow> (s\<lparr>sel_group := g\<rparr>, Ok c))))"

definition Selector_ListenPacket ::
    "'dst group_env \<Rightarrow> bool \<Rightarrow> 'dst \<Rightarrow> Selector \<Rightarrow> Selector \<times> tracked_conn res" where
  "Selector_ListenPacket E isExternal destination s =
     (case sel_selected s of
        None \<Rightarrow> (s, Panic ''nil pointer dereference'')
      | Some x \<Rightarrow>
          (case ge_Listen E x destination of
             Inl e \<Rightarrow> (s, Err e)
           | Inr conn \<Rightarrow> (case Group_NewConn conn isExternal (sel_group s) of (c, g) \<Rightarrow> (s\<lparr>sel_group := g\<rparr>, Ok c))))"

text \<open>Both mark the context as that of a connection from outside, the first part of the result.\<close>

definition Selector_NewConnectionEx :: "'dst group_env \<Rightarrow> Selector \<Rightarrow> bool \<times> handover" where
  "Selector_NewConnectionEx E s =
     (True, case sel_selected s of
        Some x \<Rightarrow> if ge_ConnectionHandler E x then ToHandler x else ToManager (Some x)
      | None \<Rightarrow> ToManager None)"

definition Selector_NewPacketConnectionEx :: "'dst group_env \<Rightarrow> Selector \<Rightarrow> bool \<times> handover" where
  "Selector_NewPacketConnectionEx E s =
     (True, case sel_selected s of
        Some x \<Rightarrow> if ge_PacketHandler E x then ToHandler x else ToManager (Some x)
      | None \<Rightarrow> ToManager None)"

section \<open>The tested group\<close>

record URLTestGroup =
  ug_outbounds :: "obj list"
  ug_link :: string
  ug_interval :: int
  ug_tolerance :: "16 word"
  ug_idleTimeout :: int
  ug_checking :: bool
  ug_selectedTCP :: "obj option"
  ug_selectedUDP :: "obj option"
  ug_group :: conn_group
  ug_external :: bool
  ug_ticker :: bool
  ug_closed :: bool
  ug_started :: bool
  ug_lastActive :: int

definition DefaultURLTestInterval :: int where "DefaultURLTestInterval = 3 * 60 * 1000000000"
definition DefaultURLTestIdleTimeout :: int where "DefaultURLTestIdleTimeout = 30 * 60 * 1000000000"

text \<open>The history is that of the context, that of the Clash server, or a new one; it may be shared and is kept apart.\<close>

definition choose_history :: "HistoryStorage option \<Rightarrow> HistoryStorage option \<Rightarrow> HistoryStorage" where
  "choose_history fromCtx fromClash =
     (case fromCtx of Some h \<Rightarrow> h | None \<Rightarrow> (case fromClash of Some h \<Rightarrow> h | None \<Rightarrow> NewHistoryStorage))"

definition NewURLTestGroup ::
    "obj list \<Rightarrow> string \<Rightarrow> int \<Rightarrow> 16 word \<Rightarrow> int \<Rightarrow> bool \<Rightarrow> URLTestGroup res" where
  "NewURLTestGroup outbounds link interval0 tolerance0 idleTimeout0 external =
     (let interval = (if interval0 = 0 then DefaultURLTestInterval else interval0);
          tolerance = (if tolerance0 = 0 then 50 else tolerance0);
          idleTimeout = (if idleTimeout0 = 0 then DefaultURLTestIdleTimeout else idleTimeout0) in
      if interval > idleTimeout then Err (ENew [AStr ''interval must be less or equal than idle_timeout''])
      else Ok \<lparr>ug_outbounds = outbounds, ug_link = link, ug_interval = interval, ug_tolerance = tolerance,
               ug_idleTimeout = idleTimeout, ug_checking = False, ug_selectedTCP = None, ug_selectedUDP = None,
               ug_group = NewGroup, ug_external = external, ug_ticker = False, ug_closed = False,
               ug_started = False, ug_lastActive = -62135596800 * 1000000000\<rparr>)"

text \<open>\<open>PostStart\<close>; it also starts a goroutine that calls \<open>CheckOutbounds(false)\<close>.\<close>

definition group_PostStart :: "int \<Rightarrow> URLTestGroup \<Rightarrow> URLTestGroup" where
  "group_PostStart now1 g = g\<lparr>ug_started := True, ug_lastActive := now1\<rparr>"

text \<open>\<open>Touch\<close>; the second result says that a goroutine with \<open>loopCheck\<close> was started.\<close>

definition Touch :: "int \<Rightarrow> URLTestGroup \<Rightarrow> URLTestGroup \<times> bool" where
  "Touch now1 g =
     (if \<not> ug_started g then (g, False)
      else if ug_ticker g then (g\<lparr>ug_lastActive := now1\<rparr>, False)
      else (g\<lparr>ug_ticker := True\<rparr>, True))"

definition group_Close :: "URLTestGroup \<Rightarrow> URLTestGroup \<times> unit res" where
  "group_Close g =
     (if \<not> ug_ticker g then (g, Ok ())
      else if ug_closed g then (g, Panic ''close of closed channel'')
      else (g\<lparr>ug_closed := True\<rparr>, Ok ()))"

definition selected_for :: "URLTestGroup \<Rightarrow> string \<Rightarrow> obj option" where
  "selected_for g network =
     (if network = NetworkTCP then ug_selectedTCP g
      else if network = NetworkUDP then ug_selectedUDP g else None)"

definition initial_min :: "'dst group_env \<Rightarrow> HistoryStorage \<Rightarrow> URLTestGroup \<Rightarrow> string \<Rightarrow> 16 word \<times> obj option" where
  "initial_min E h g network =
     (case selected_for g network of
        None \<Rightarrow> (0, None)
      | Some x \<Rightarrow>
          (case LoadURLTestHistory (Some h) (RealTag E x) of
             None \<Rightarrow> (0, None)
           | Some history \<Rightarrow> (uh_Delay history, Some x)))"

fun min_loop ::
    "'dst group_env \<Rightarrow> HistoryStorage \<Rightarrow> string \<Rightarrow> 16 word \<Rightarrow> obj list \<Rightarrow> 16 word \<times> obj option \<Rightarrow> 16 word \<times> obj option" where
  "min_loop E h network tol [] m = m"
| "min_loop E h network tol (detour # ds) m =
     (if network \<notin> set (ge_Network E detour) then min_loop E h network tol ds m
      else case LoadURLTestHistory (Some h) (RealTag E detour) of
        None \<Rightarrow> min_loop E h network tol ds m
      | Some history \<Rightarrow>
          if fst m = 0 \<or> fst m > uh_Delay history + tol
          then min_loop E h network tol ds (uh_Delay history, Some detour)
          else min_loop E h network tol ds m)"

definition group_Select :: "'dst group_env \<Rightarrow> HistoryStorage \<Rightarrow> URLTestGroup \<Rightarrow> string \<Rightarrow> obj option \<times> bool" where
  "group_Select E h g network =
     (case snd (min_loop E h network (ug_tolerance g) (ug_outbounds g) (initial_min E h g network)) of
        Some x \<Rightarrow> (Some x, True)
      | None \<Rightarrow> (find (\<lambda>detour. network \<in> set (ge_Network E detour)) (ug_outbounds g), False))"

definition update_tcp :: "'dst group_env \<Rightarrow> HistoryStorage \<Rightarrow> URLTestGroup \<Rightarrow> URLTestGroup \<times> bool" where
  "update_tcp E h g =
     (case group_Select E h g NetworkTCP of
        (Some x, exists) \<Rightarrow>
          if ug_selectedTCP g = None \<or> exists \<and> \<not> same_obj (Some x) (ug_selectedTCP g)
          then (g\<lparr>ug_selectedTCP := Some x\<rparr>, ug_selectedTCP g \<noteq> None)
          else (g, False)
      | (None, _) \<Rightarrow> (g, False))"

definition update_udp :: "'dst group_env \<Rightarrow> HistoryStorage \<Rightarrow> URLTestGroup \<Rightarrow> URLTestGroup \<times> bool" where
  "update_udp E h g =
     (case group_Select E h g NetworkUDP of
        (Some x, exists) \<Rightarrow>
          if ug_selectedUDP g = None \<or> exists \<and> \<not> same_obj (Some x) (ug_selectedUDP g)
          then (g\<lparr>ug_selectedUDP := Some x\<rparr>, ug_selectedUDP g \<noteq> None)
          else (g, False)
      | (None, _) \<Rightarrow> (g, False))"

definition performUpdateCheck ::
    "'dst group_env \<Rightarrow> HistoryStorage \<Rightarrow> URLTestGroup \<Rightarrow> nat list \<Rightarrow> URLTestGroup \<times> nat list" where
  "performUpdateCheck E h g closed =
     (case update_tcp E h g of (g1, u1) \<Rightarrow>
      case update_udp E h g1 of (g2, u2) \<Rightarrow>
      if u1 \<or> u2
      then case Group_Interrupt (ug_external g2) (ug_group g2) closed of (gr, closed') \<Rightarrow> (g2\<lparr>ug_group := gr\<rparr>, closed')
      else (g2, closed))"

text \<open>
  \<open>urlTest\<close>.  The loop gives the measurements to make: tag, real tag and outbound.  \<open>now1\<close> is the clock at the time an
  outbound is looked at.  The measurements run concurrently; \<open>outcome\<close> is what \<open>urltest.URLTest\<close> gives for an outbound and
  the time after it, and \<open>sched\<close> is the order in which they end.
\<close>

type_synonym test_job = "string \<times> string \<times> obj"

definition recently_tested :: "HistoryStorage \<Rightarrow> int \<Rightarrow> int \<Rightarrow> string \<Rightarrow> bool" where
  "recently_tested h interval now1 realTag =
     (case LoadURLTestHistory (Some h) realTag of Some history \<Rightarrow> now1 - uh_Time history < interval | None \<Rightarrow> False)"

fun test_jobs ::
    "'dst group_env \<Rightarrow> (string \<Rightarrow> obj option) \<Rightarrow> HistoryStorage \<Rightarrow> int \<Rightarrow> bool \<Rightarrow> (obj \<Rightarrow> int) \<Rightarrow> obj list \<Rightarrow> string list \<Rightarrow> test_job list" where
  "test_jobs E lookup h interval force now1 [] checked = []"
| "test_jobs E lookup h interval force now1 (detour # ds) checked =
     (let realTag = RealTag E detour in
      if realTag \<in> set checked then test_jobs E lookup h interval force now1 ds checked
      else if \<not> force \<and> recently_tested h interval (now1 detour) realTag
      then test_jobs E lookup h interval force now1 ds checked
      else case lookup realTag of
        None \<Rightarrow> test_jobs E lookup h interval force now1 ds (realTag # checked)
      | Some p \<Rightarrow> (obj_tag detour, realTag, p) # test_jobs E lookup h interval force now1 ds (realTag # checked))"

type_synonym test_outcome = "obj \<Rightarrow> go_error + 16 word \<times> int"

fun run_job :: "test_outcome \<Rightarrow> test_job \<Rightarrow> HistoryStorage \<times> (string \<rightharpoonup> 16 word) \<Rightarrow> HistoryStorage \<times> (string \<rightharpoonup> 16 word)" where
  "run_job outcome (tag, realTag, p) (h, result) =
     (case outcome p of
        Inl e \<Rightarrow> (DeleteURLTestHistory realTag h, result)
      | Inr (t, now1) \<Rightarrow> (StoreURLTestHistory realTag \<lparr>uh_Time = now1, uh_Delay = t\<rparr> h, result(tag \<mapsto> t)))"

definition urlTest ::
    "'dst group_env \<Rightarrow> (string \<Rightarrow> obj option) \<Rightarrow> (obj \<Rightarrow> int) \<Rightarrow> test_outcome \<Rightarrow> (test_job list \<Rightarrow> test_job list) \<Rightarrow> bool \<Rightarrow>
     URLTestGroup \<Rightarrow> HistoryStorage \<Rightarrow> nat list \<Rightarrow> (string \<rightharpoonup> 16 word) \<times> URLTestGroup \<times> HistoryStorage \<times> nat list" where
  "urlTest E lookup now1 outcome sched force g h closed =
     (if ug_checking g then (Map.empty, g, h, closed)
      else
        let jobs = test_jobs E lookup h (ug_interval g) force now1 (ug_outbounds g) [] in
        case fold (run_job outcome) (sched jobs) (h, Map.empty) of (h1, result) \<Rightarrow>
        case performUpdateCheck E h1 g closed of (g1, closed') \<Rightarrow> (result, g1, h1, closed'))"

definition CheckOutbounds ::
    "'dst group_env \<Rightarrow> (string \<Rightarrow> obj option) \<Rightarrow> (obj \<Rightarrow> int) \<Rightarrow> test_outcome \<Rightarrow> (test_job list \<Rightarrow> test_job list) \<Rightarrow> bool \<Rightarrow>
     URLTestGroup \<Rightarrow> HistoryStorage \<Rightarrow> nat list \<Rightarrow> URLTestGroup \<times> HistoryStorage \<times> nat list" where
  "CheckOutbounds E lookup now1 outcome sched force g h closed = snd (urlTest E lookup now1 outcome sched force g h closed)"

text \<open>
  \<open>loopCheck\<close>, driven by the events it waits for.  \<open>check\<close> is the call of \<open>CheckOutbounds(false)\<close>.  The result says whether
  the goroutine is still waiting.
\<close>

datatype check_event = CloseSignal | TickSignal int

fun check_events ::
    "(URLTestGroup \<times> 's \<Rightarrow> URLTestGroup \<times> 's) \<Rightarrow> check_event list \<Rightarrow> URLTestGroup \<times> 's \<Rightarrow> bool \<times> URLTestGroup \<times> 's" where
  "check_events check [] gs = (True, gs)"
| "check_events check (CloseSignal # es) gs = (False, gs)"
| "check_events check (TickSignal now1 # es) (g, s) =
     (if now1 - ug_lastActive g > ug_idleTimeout g then (False, g\<lparr>ug_ticker := False\<rparr>, s)
      else check_events check es (check (g, s)))"

definition loopCheck ::
    "(URLTestGroup \<times> 's \<Rightarrow> URLTestGroup \<times> 's) \<Rightarrow> int \<Rightarrow> check_event list \<Rightarrow> URLTestGroup \<times> 's \<Rightarrow> bool \<times> URLTestGroup \<times> 's" where
  "loopCheck check now1 es gs =
     (case gs of (g, s) \<Rightarrow>
        check_events check es
          (if now1 - ug_lastActive g > ug_interval g then check (g\<lparr>ug_lastActive := now1\<rparr>, s) else (g, s)))"

section \<open>The outbound\<close>

record URLTestOptions =
  uo_Outbounds :: "string list"
  uo_URL :: string
  uo_Interval :: int
  uo_Tolerance :: "16 word"
  uo_IdleTimeout :: int
  uo_Interrupt :: bool

record URLTest =
  ut_Tag :: string
  ut_options :: URLTestOptions
  ut_group :: "URLTestGroup option"

definition NewURLTest :: "string \<Rightarrow> URLTestOptions \<Rightarrow> URLTest res" where
  "NewURLTest tag options =
     (if uo_Outbounds options = [] then Err (ENew [AStr ''missing tags''])
      else Ok \<lparr>ut_Tag = tag, ut_options = options, ut_group = None\<rparr>)"

fun collect_outbounds :: "(string \<Rightarrow> obj option) \<Rightarrow> nat \<Rightarrow> string list \<Rightarrow> obj list res" where
  "collect_outbounds lookup i [] = Ok []"
| "collect_outbounds lookup i (tag # tags) =
     (case lookup tag of
        None \<Rightarrow> Err (ENew [AStr ''outbound '', AInt (int i), AStr '' not found: '', AStr tag])
      | Some detour \<Rightarrow> bindR (collect_outbounds lookup (i + 1) tags) (\<lambda>ds. Ok (detour # ds)))"

definition URLTest_Start :: "manager \<Rightarrow> outbound_manager \<Rightarrow> URLTest \<Rightarrow> URLTest \<times> unit res" where
  "URLTest_Start eps outs s =
     (let opts = ut_options s in
      case bindR (collect_outbounds (outbound_Outbound eps outs) 0 (uo_Outbounds opts)) (\<lambda>ds.
             NewURLTestGroup ds (uo_URL opts) (uo_Interval opts) (uo_Tolerance opts) (uo_IdleTimeout opts) (uo_Interrupt opts)) of
        Ok g \<Rightarrow> (s\<lparr>ut_group := Some g\<rparr>, Ok ())
      | Err e \<Rightarrow> (s, Err e)
      | Panic p \<Rightarrow> (s, Panic p))"

text \<open>A method of the group on a nil pointer panics when it reads a field.\<close>

definition with_group :: "URLTest \<Rightarrow> (URLTestGroup \<Rightarrow> 'a res) \<Rightarrow> 'a res" where
  "with_group s f = (case ut_group s of None \<Rightarrow> Panic ''nil pointer dereference'' | Some g \<Rightarrow> f g)"

definition URLTest_PostStart :: "int \<Rightarrow> URLTest \<Rightarrow> URLTest res" where
  "URLTest_PostStart now1 s = with_group s (\<lambda>g. Ok (s\<lparr>ut_group := Some (group_PostStart now1 g)\<rparr>))"

definition URLTest_Close :: "URLTest \<Rightarrow> URLTest \<times> unit res" where
  "URLTest_Close s =
     (case ut_group s of
        None \<Rightarrow> (s, Ok ())
      | Some g \<Rightarrow> (case group_Close g of (g', r) \<Rightarrow> (s\<lparr>ut_group := Some g'\<rparr>, r)))"

definition URLTest_Now :: "URLTest \<Rightarrow> string res" where
  "URLTest_Now s =
     with_group s (\<lambda>g. Ok (case ug_selectedTCP g of
        Some x \<Rightarrow> obj_tag x
      | None \<Rightarrow> (case ug_selectedUDP g of Some x \<Rightarrow> obj_tag x | None \<Rightarrow> [])))"

definition URLTest_All :: "URLTest \<Rightarrow> string list" where
  "URLTest_All s = uo_Outbounds (ut_options s)"

text \<open>The outbound of the group, and what follows the attempt to use it.\<close>

definition use_outbound ::
    "(obj \<Rightarrow> go_error + nat) \<Rightarrow> bool \<Rightarrow> obj option \<Rightarrow> URLTestGroup \<Rightarrow> HistoryStorage \<Rightarrow>
     URLTestGroup \<times> HistoryStorage \<times> tracked_conn res" where
  "use_outbound dial isExternal outbound g h =
     (case outbound of
        None \<Rightarrow> (g, h, Err (ENew [AStr ''missing supported outbound'']))
      | Some x \<Rightarrow>
          (case dial x of
             Inr conn \<Rightarrow> (case Group_NewConn conn isExternal (ug_group g) of (c, gr) \<Rightarrow> (g\<lparr>ug_group := gr\<rparr>, h, Ok c))
           | Inl e \<Rightarrow> (g, DeleteURLTestHistory (obj_tag x) h, Err e)))"

definition group_DialContext ::
    "'dst group_env \<Rightarrow> int \<Rightarrow> bool \<Rightarrow> string \<Rightarrow> 'dst \<Rightarrow> URLTestGroup \<Rightarrow> HistoryStorage \<Rightarrow>
     URLTestGroup \<times> HistoryStorage \<times> tracked_conn res" where
  "group_DialContext E now1 isExternal network destination g0 h =
     (let g = fst (Touch now1 g0); name = ge_NetworkName E network in
      if name \<noteq> NetworkTCP \<and> name \<noteq> NetworkUDP then (g, h, Err (EExtend (EForeign ''unknown network'') [AStr network]))
      else
        let selected = (if name = NetworkTCP then ug_selectedTCP g else ug_selectedUDP g);
            outbound = (if selected = None then fst (group_Select E h g network) else selected) in
        use_outbound (\<lambda>x. ge_Dial E x network destination) isExternal outbound g h)"

definition group_ListenPacket ::
    "'dst group_env \<Rightarrow> int \<Rightarrow> bool \<Rightarrow> 'dst \<Rightarrow> URLTestGroup \<Rightarrow> HistoryStorage \<Rightarrow>
     URLTestGroup \<times> HistoryStorage \<times> tracked_conn res" where
  "group_ListenPacket E now1 isExternal destination g0 h =
     (let g = fst (Touch now1 g0);
          outbound = (if ug_selectedUDP g = None then fst (group_Select E h g NetworkUDP) else ug_selectedUDP g) in
      use_outbound (\<lambda>x. ge_Listen E x destination) isExternal outbound g h)"

end
