(* ===== verification/Group_Properties.thy ===== *)
theory Group_Properties
  imports Outbound_Groups "HOL-Library.Multiset"
begin

text \<open>
  The groups of theory \<open>Outbound_Groups\<close>: a selection survives a restart, the tested group chooses an outbound whose delay is
  within the tolerance of the best one, the order in which measurements end does not matter, and at most one
  goroutine watches a group.
\<close>

section \<open>Selector\<close>

lemma resolve_tags_Ok:
  "resolve_tags lookup i tags m = (m', Ok ()) \<Longrightarrow>
   m' = (\<lambda>t. if t \<in> set tags then lookup t else m t) \<and> (\<forall>t \<in> set tags. lookup t \<noteq> None)"
proof (induction lookup i tags m rule: resolve_tags.induct)
  case (2 lookup i tag tags m)
  then show ?case by (fastforce split: option.splits)
qed auto

lemma Selector_Start_Ok:
  assumes "Selector_Start B eps outs cf s = (s', Ok ())"
  shows "\<exists>m. resolve_tags (outbound_Outbound eps outs) 0 (sel_tags s) (sel_outbounds s) = (m, Ok ()) \<and>
    sel_outbounds s' = m \<and> sel_Tag s' = sel_Tag s \<and> sel_tags s' = sel_tags s \<and> sel_external s' = sel_external s"
  using assms by (auto simp: Selector_Start_def Let_def split: prod.splits res.splits option.splits if_splits list.splits)

lemma Selector_Start_cached:
  assumes "resolve_tags (outbound_Outbound eps outs) 0 (sel_tags s) (sel_outbounds s) = (m, Ok ())"
    and "cached_selection B cf (s\<lparr>sel_outbounds := m\<rparr>) = Some x"
  shows "Selector_Start B eps outs cf s = (s\<lparr>sel_outbounds := m, sel_selected := Some x\<rparr>, Ok ())"
  using assms by (simp add: Selector_Start_def)

lemma Selector_Start_selected:
  assumes "Selector_Start B eps outs cf s = (s', Ok ())"
  shows "\<exists>t x. sel_outbounds s' t = Some x \<and> sel_selected s' = Some x"
proof -
  obtain m where m: "resolve_tags (outbound_Outbound eps outs) 0 (sel_tags s) (sel_outbounds s) = (m, Ok ())"
    using Selector_Start_Ok [OF assms] by blast
  have hd: "\<exists>x. m t = Some x" if "sel_tags s = t # ts" for t ts
    using resolve_tags_Ok [OF m] that by auto
  show ?thesis
  proof (cases "cached_selection B cf (s\<lparr>sel_outbounds := m\<rparr>)")
    case (Some x)
    then have "m (LoadSelected B (the cf) (sel_Tag s)) = Some x"
      by (auto simp: cached_selection_def Let_def split: if_splits option.splits)
    with assms Selector_Start_cached [OF m Some] show ?thesis by auto
  next
    case None
    with assms m hd show ?thesis
      by (auto simp: Selector_Start_def Let_def split: option.splits if_splits list.splits)
  qed
qed

text \<open>
  Selections one after the other, with a cache file that accepts them.
\<close>

inductive select_run :: "'d bolt \<Rightarrow> Selector \<times> 'd CacheFile \<times> nat list \<Rightarrow> Selector \<times> 'd CacheFile \<times> nat list \<Rightarrow> bool"
  for B where
  none_selected: "select_run B x x"
| one_selected: "select_run B x (s, c, closed) \<Longrightarrow> SelectOutbound B t s (Some c) closed = (ok, s', Some c', closed') \<Longrightarrow>
    fst (StoreSelected B (sel_Tag s) t c) = None \<Longrightarrow> select_run B x (s', c', closed')"

lemma SelectOutbound_keeps:
  "SelectOutbound B t s cf closed = (ok, s', cf', closed') \<Longrightarrow>
   sel_outbounds s' = sel_outbounds s \<and> sel_Tag s' = sel_Tag s \<and> sel_tags s' = sel_tags s \<and> (ok \<longleftrightarrow> t \<in> dom (sel_outbounds s)) \<and>
   (ok \<longrightarrow> sel_selected s' = sel_outbounds s t) \<and> (\<not> ok \<longrightarrow> s' = s)"
  by (auto simp: SelectOutbound_def Let_def split: option.splits if_splits prod.splits)

lemma SelectOutbound_stores:
  "SelectOutbound B t s (Some c) closed = (True, s', Some c', closed') \<Longrightarrow> \<not> same_obj (sel_selected s) (sel_outbounds s t) \<Longrightarrow>
   sel_Tag s \<noteq> [] \<Longrightarrow> c' = snd (StoreSelected B (sel_Tag s) t c)"
  by (auto simp: SelectOutbound_def Let_def split: option.splits if_splits prod.splits)

lemma SelectOutbound_same:
  "SelectOutbound B t s (Some c) closed = (ok, s', Some c', closed') \<Longrightarrow>
   \<not> ok \<or> same_obj (sel_selected s) (sel_outbounds s t) \<Longrightarrow> c' = c"
  by (auto simp: SelectOutbound_def Let_def split: option.splits if_splits prod.splits)

lemma stored_selection:
  assumes "bolt_ok B" and "fst (StoreSelected B grp t c) = None"
  shows "LoadSelected B (snd (StoreSelected B grp t c)) grp = t"
proof -
  obtain c' where st: "StoreSelected B grp t c = (None, c')" using assms(2) by (metis prod.collapse)
  from cf_Put_content [OF assms(1) st [unfolded StoreSelected_def]] show ?thesis
    by (auto simp: st LoadSelected_content [OF assms(1)])
qed

text \<open>What a start would select, from the tables of a selector that is running.\<close>

definition restart_selects :: "'d bolt \<Rightarrow> manager \<Rightarrow> outbound_manager \<Rightarrow> Selector \<Rightarrow> Selector \<Rightarrow> 'd CacheFile \<Rightarrow> bool" where
  "restart_selects B eps outs s0 s c \<longleftrightarrow>
     (\<exists>s2. Selector_Start B eps outs (Some c) s0 = (s2, Ok ()) \<and> same_obj (sel_selected s2) (sel_selected s))"

lemma restart_step:
  assumes "bolt_ok B" and "sel_Tag s0 \<noteq> []" and "[] \<notin> dom (sel_outbounds s)"
    and m: "resolve_tags (outbound_Outbound eps outs) 0 (sel_tags s0) (sel_outbounds s0) = (sel_outbounds s, Ok ())"
    and "sel_Tag s = sel_Tag s0" and "restart_selects B eps outs s0 s c"
    and sel: "SelectOutbound B t s (Some c) closed = (ok, s', Some c', closed')"
    and store: "fst (StoreSelected B (sel_Tag s) t c) = None"
  shows "restart_selects B eps outs s0 s' c'"
proof (cases "\<not> ok \<or> same_obj (sel_selected s) (sel_outbounds s t)")
  case True
  with SelectOutbound_same [OF sel] SelectOutbound_keeps [OF sel] assms(6) show ?thesis
    by (auto simp: restart_selects_def same_obj_def)
next
  case False
  then have ok: ok and ns: "\<not> same_obj (sel_selected s) (sel_outbounds s t)" by auto
  obtain x where x: "sel_outbounds s t = Some x" "t \<noteq> []" "sel_selected s' = Some x"
    using SelectOutbound_keeps [OF sel] ok assms(3) by force
  have "c' = snd (StoreSelected B (sel_Tag s) t c)"
    using SelectOutbound_stores [of B t s c closed s' c' closed'] sel ok ns assms(2,5) by simp
  with stored_selection [OF assms(1) store] assms(5) have "LoadSelected B c' (sel_Tag s0) = t" by simp
  with x assms(2) have "cached_selection B (Some c') (s0\<lparr>sel_outbounds := sel_outbounds s\<rparr>) = Some x"
    by (simp add: cached_selection_def)
  from Selector_Start_cached [OF m this] x show ?thesis by (simp add: restart_selects_def same_obj_def)
qed

lemma select_run_keeps:
  "select_run B x y \<Longrightarrow> sel_outbounds (fst y) = sel_outbounds (fst x) \<and> sel_Tag (fst y) = sel_Tag (fst x)"
  by (induction rule: select_run.induct) (auto dest: SelectOutbound_keeps)

lemma select_run_restart:
  assumes "select_run B x y" and "bolt_ok B" and "sel_Tag s0 \<noteq> []" and "[] \<notin> dom (sel_outbounds (fst x))"
    and "resolve_tags (outbound_Outbound eps outs) 0 (sel_tags s0) (sel_outbounds s0) = (sel_outbounds (fst x), Ok ())"
    and "sel_Tag (fst x) = sel_Tag s0" and "restart_selects B eps outs s0 (fst x) (fst (snd x))"
  shows "restart_selects B eps outs s0 (fst y) (fst (snd y))"
  using assms
proof (induction rule: select_run.induct)
  case (one_selected x s c closed t ok s' c' closed')
  from select_run_keeps [OF one_selected.hyps(1)] have k: "sel_outbounds s = sel_outbounds (fst x)" "sel_Tag s = sel_Tag (fst x)" by auto
  have "restart_selects B eps outs s0 s c" using one_selected.IH one_selected.prems by simp
  then show ?case
    using restart_step [OF one_selected.prems(1,2) _ _ _ _ one_selected.hyps(2,3)] one_selected.prems k by simp
qed simp

text \<open>
  C16: A selector that runs with a cache file selects after a restart what it has selected now: after any number of
  selections that could be stored, a new selector of the same tag and options, started with the same
  outbounds and the same cache file, selects the same outbound.
\<close>

theorem selection_survives_restart:
  assumes "bolt_ok B" and "NewSelector tag opts = Ok s0" and "tag \<noteq> []" and "[] \<notin> set (so_Outbounds opts)"
    and "Selector_Start B eps outs (Some c0) s0 = (s1, Ok ())"
    and "select_run B (s1, c0, closed0) (s, c, closed)"
  shows "\<exists>s2. Selector_Start B eps outs (Some c) s0 = (s2, Ok ()) \<and> same_obj (sel_selected s2) (sel_selected s) \<and> sel_selected s2 \<noteq> None"
proof -
  from assms(2) have s0: "sel_Tag s0 = tag" "sel_tags s0 = so_Outbounds opts" "sel_outbounds s0 = Map.empty"
    by (auto simp: NewSelector_def split: if_splits)
  obtain m where m: "resolve_tags (outbound_Outbound eps outs) 0 (sel_tags s0) (sel_outbounds s0) = (m, Ok ())"
    "sel_outbounds s1 = m" "sel_Tag s1 = tag"
    using Selector_Start_Ok [OF assms(5)] s0 by auto
  have "[] \<notin> dom m" using resolve_tags_Ok [OF m(1)] s0 assms(4) by (auto simp: dom_def)
  moreover have "restart_selects B eps outs s0 s1 c0" using assms(5) by (auto simp: restart_selects_def same_obj_def)
  ultimately have "restart_selects B eps outs s0 s c"
    using select_run_restart [OF assms(6) assms(1), of s0 eps outs] m assms(3) s0(1) by simp
  then show ?thesis using Selector_Start_selected by (fastforce simp: restart_selects_def)
qed

section \<open>The choice of the tested group\<close>

definition measured :: "'dst group_env \<Rightarrow> HistoryStorage \<Rightarrow> obj \<Rightarrow> nat option" where
  "measured E h x = map_option (unat \<circ> uh_Delay) (delayHistory h (RealTag E x))"

definition supports :: "'dst group_env \<Rightarrow> string \<Rightarrow> obj \<Rightarrow> bool" where
  "supports E network x \<longleftrightarrow> network \<in> set (ge_Network E x)"

text \<open>No delay is zero, which the code takes for no delay, and none overflows when the tolerance is added.\<close>

definition delays_ok :: "'dst group_env \<Rightarrow> HistoryStorage \<Rightarrow> 16 word \<Rightarrow> obj list \<Rightarrow> bool" where
  "delays_ok E h tol ds \<longleftrightarrow> (\<forall>x \<in> set ds. \<forall>n. measured E h x = Some n \<longrightarrow> 0 < n \<and> n + unat tol < 2 ^ 16)"

lemma sum_fits: "unat (a :: 16 word) + unat b < 2 ^ 16 \<Longrightarrow> unat (a + b) = unat a + unat b"
  by (simp add: unat_word_ariths)

text \<open>The minimum so far: nothing, or an outbound with its delay.\<close>

definition min_ok :: "'dst group_env \<Rightarrow> HistoryStorage \<Rightarrow> 16 word \<times> obj option \<Rightarrow> bool" where
  "min_ok E h m \<longleftrightarrow> (case snd m of None \<Rightarrow> fst m = 0 | Some x \<Rightarrow> measured E h x = Some (unat (fst m)) \<and> fst m \<noteq> 0)"

lemma min_loop_ok:
  assumes "delays_ok E h tol ds" and "min_ok E h m"
  shows "min_ok E h (min_loop E h network tol ds m) \<and>
    (fst m \<noteq> 0 \<longrightarrow> fst (min_loop E h network tol ds m) \<le> fst m) \<and>
    (fst m \<noteq> 0 \<longrightarrow> fst (min_loop E h network tol ds m) \<noteq> 0) \<and>
    (\<forall>x \<in> set ds. \<forall>n. supports E network x \<longrightarrow> measured E h x = Some n \<longrightarrow>
       fst (min_loop E h network tol ds m) \<noteq> 0 \<and> unat (fst (min_loop E h network tol ds m)) \<le> n + unat tol)"
  using assms
proof (induction E h network tol ds m rule: min_loop.induct)
  case (2 E h network tol detour ds m)
  have ds: "delays_ok E h tol ds" using "2.prems"(1) by (simp add: delays_ok_def)
  show ?case
  proof (cases "supports E network detour \<and> delayHistory h (RealTag E detour) \<noteq> None")
    case False
    then have "min_loop E h network tol (detour # ds) m = min_loop E h network tol ds m"
      "supports E network detour \<longrightarrow> measured E h detour = None"
      by (auto simp: supports_def LoadURLTestHistory_def measured_def split: option.splits)
    with "2.IH"(1,2) ds "2.prems"(2) False show ?thesis
      by (cases "supports E network detour") (auto simp: supports_def LoadURLTestHistory_def)
  next
    case True
    then obtain hist where hist: "delayHistory h (RealTag E detour) = Some hist" and sup: "network \<in> set (ge_Network E detour)"
      by (auto simp: supports_def)
    let ?d = "uh_Delay hist"
    have me: "measured E h detour = Some (unat ?d)" by (simp add: measured_def hist)
    have d: "0 < unat ?d" "unat ?d + unat tol < 2 ^ 16" using "2.prems"(1) me by (auto simp: delays_ok_def)
    have d0: "?d \<noteq> 0" using d(1) by auto
    show ?thesis
    proof (cases "fst m = 0 \<or> fst m > ?d + tol")
      case c: True
      let ?r = "min_loop E h network tol ds (?d, Some detour)"
      have eq: "min_loop E h network tol (detour # ds) m = ?r"
        using c sup by (simp add: LoadURLTestHistory_def hist)
      have nm: "min_ok E h (?d, Some detour)" using me d0 by (simp add: min_ok_def)
      from "2.IH"(3) [OF _ _ c ds nm] sup hist d0 have ih: "min_ok E h ?r" "fst ?r \<le> ?d" "fst ?r \<noteq> 0"
        "\<forall>x \<in> set ds. \<forall>n. supports E network x \<longrightarrow> measured E h x = Some n \<longrightarrow> fst ?r \<noteq> 0 \<and> unat (fst ?r) \<le> n + unat tol"
        by (auto simp: LoadURLTestHistory_def)
      have "unat (fst ?r) \<le> unat ?d" using ih(2) by (simp add: word_le_nat_alt)
      moreover have "fst m \<noteq> 0 \<longrightarrow> fst ?r \<le> fst m"
        using c ih(2) sum_fits [OF d(2)] by (auto simp: word_le_nat_alt word_less_nat_alt)
      ultimately show ?thesis unfolding eq using ih me by auto
    next
      case c: False
      let ?r = "min_loop E h network tol ds m"
      have eq: "min_loop E h network tol (detour # ds) m = ?r"
        using c sup by (simp add: LoadURLTestHistory_def hist)
      from "2.IH"(4) [OF _ _ c ds "2.prems"(2)] sup hist c have ih: "min_ok E h ?r" "fst ?r \<le> fst m" "fst ?r \<noteq> 0"
        "\<forall>x \<in> set ds. \<forall>n. supports E network x \<longrightarrow> measured E h x = Some n \<longrightarrow> fst ?r \<noteq> 0 \<and> unat (fst ?r) \<le> n + unat tol"
        by (auto simp: LoadURLTestHistory_def)
      have "unat (fst ?r) \<le> unat ?d + unat tol"
        using c ih(2) sum_fits [OF d(2)] by (auto simp: word_le_nat_alt word_less_nat_alt)
      then show ?thesis unfolding eq using ih me by auto
    qed
  qed
qed auto

lemma min_loop_member:
  "snd (min_loop E h network tol ds m) = Some x \<Longrightarrow> snd m = Some x \<or> x \<in> set ds \<and> supports E network x"
  by (induction E h network tol ds m rule: min_loop.induct)
    (auto simp: supports_def LoadURLTestHistory_def split: option.splits if_splits)

lemma min_loop_stays:
  assumes "delays_ok E h tol ds" and "fst m \<noteq> 0"
    and "\<And>x n. x \<in> set ds \<Longrightarrow> supports E network x \<Longrightarrow> measured E h x = Some n \<Longrightarrow> unat (fst m) \<le> n + unat tol"
  shows "min_loop E h network tol ds m = m"
  using assms
proof (induction ds)
  case (Cons d ds)
  have ih: "min_loop E h network tol ds m = m" using Cons by (auto simp: delays_ok_def)
  show ?case
  proof (cases "supports E network d \<and> delayHistory h (RealTag E d) \<noteq> None")
    case True
    then obtain hist where hist: "delayHistory h (RealTag E d) = Some hist" by auto
    have me: "measured E h d = Some (unat (uh_Delay hist))" by (simp add: measured_def hist)
    have "unat (uh_Delay hist) + unat tol < 2 ^ 16" using Cons.prems(1) me by (auto simp: delays_ok_def)
    moreover have "unat (fst m) \<le> unat (uh_Delay hist) + unat tol" using Cons.prems(3) [of d] True me by auto
    ultimately have "\<not> fst m > uh_Delay hist + tol" by (simp add: word_less_nat_alt sum_fits)
    with ih hist Cons.prems(2) show ?thesis by (simp add: LoadURLTestHistory_def)
  next
    case False
    with ih show ?thesis by (auto simp: supports_def LoadURLTestHistory_def split: option.splits)
  qed
qed simp

lemma min_loop_none:
  "snd m = None \<Longrightarrow> (\<And>x. x \<in> set ds \<Longrightarrow> supports E network x \<Longrightarrow> measured E h x = None) \<Longrightarrow>
   snd (min_loop E h network tol ds m) = None"
  by (induction E h network tol ds m rule: min_loop.induct)
    (auto simp: supports_def LoadURLTestHistory_def measured_def split: option.splits)

text \<open>The outbound in use is one of the group that carries the network.\<close>

definition selected_ok :: "'dst group_env \<Rightarrow> URLTestGroup \<Rightarrow> string \<Rightarrow> bool" where
  "selected_ok E g network \<longleftrightarrow>
     (\<forall>x. selected_for g network = Some x \<longrightarrow> x \<in> set (ug_outbounds g) \<and> supports E network x)"

lemma initial_min_ok:
  assumes "selected_ok E g network" and "delays_ok E h (ug_tolerance g) (ug_outbounds g)"
  shows "min_ok E h (initial_min E h g network)"
    and "snd (initial_min E h g network) = Some x \<Longrightarrow> selected_for g network = Some x"
    and "selected_for g network = Some y \<Longrightarrow> measured E h y = Some n \<Longrightarrow>
      snd (initial_min E h g network) = Some y \<and> unat (fst (initial_min E h g network)) = n"
proof -
  show "min_ok E h (initial_min E h g network)"
  proof (cases "selected_for g network")
    case (Some x)
    show ?thesis
    proof (cases "delayHistory h (RealTag E x)")
      case h: (Some hist)
      have me: "measured E h x = Some (unat (uh_Delay hist))" by (simp add: measured_def h)
      moreover have "x \<in> set (ug_outbounds g)" using assms(1) Some by (simp add: selected_ok_def)
      ultimately have "0 < unat (uh_Delay hist)" using assms(2) by (simp add: delays_ok_def)
      then show ?thesis using me Some h by (auto simp: min_ok_def initial_min_def LoadURLTestHistory_def)
    qed (simp add: min_ok_def initial_min_def LoadURLTestHistory_def Some)
  qed (simp add: min_ok_def initial_min_def)
qed (auto simp: initial_min_def LoadURLTestHistory_def measured_def split: option.splits)

lemma Select_measured:
  assumes "selected_ok E g network" and "delays_ok E h (ug_tolerance g) (ug_outbounds g)"
    and "x \<in> set (ug_outbounds g)" and "supports E network x" and "measured E h x = Some k"
  obtains y n where "group_Select E h g network = (Some y, True)" "y \<in> set (ug_outbounds g)" "supports E network y"
    "measured E h y = Some n"
    "\<And>z m. z \<in> set (ug_outbounds g) \<Longrightarrow> supports E network z \<Longrightarrow> measured E h z = Some m \<Longrightarrow> n \<le> m + unat (ug_tolerance g)"
proof -
  let ?i = "initial_min E h g network"
  let ?r = "min_loop E h network (ug_tolerance g) (ug_outbounds g) ?i"
  note ini = initial_min_ok [OF assms(1,2)]
  from min_loop_ok [OF assms(2) ini(1), of network]
  have r: "min_ok E h ?r" "\<And>z m. z \<in> set (ug_outbounds g) \<Longrightarrow> supports E network z \<Longrightarrow> measured E h z = Some m \<Longrightarrow>
      fst ?r \<noteq> 0 \<and> unat (fst ?r) \<le> m + unat (ug_tolerance g)" by auto
  obtain y where y: "snd ?r = Some y" "measured E h y = Some (unat (fst ?r))"
    using r(1) r(2) [OF assms(3-5)] by (auto simp: min_ok_def split: option.splits)
  have "y \<in> set (ug_outbounds g) \<and> supports E network y"
    using min_loop_member [OF y(1)] ini(2) [of y] assms(1) by (auto simp: selected_ok_def)
  with y r(2) that [of y "unat (fst ?r)"] show ?thesis by (auto simp: group_Select_def)
qed

lemma Select_unmeasured:
  assumes "selected_ok E g network"
    and "\<And>x. x \<in> set (ug_outbounds g) \<Longrightarrow> supports E network x \<Longrightarrow> measured E h x = None"
  shows "group_Select E h g network = (find (supports E network) (ug_outbounds g), False)"
proof -
  have "snd (initial_min E h g network) = None"
    using assms by (auto simp: initial_min_def selected_ok_def LoadURLTestHistory_def measured_def split: option.splits)
  from min_loop_none [OF this assms(2)] show ?thesis by (simp add: group_Select_def supports_def [abs_def])
qed

text \<open>
  The choice of a tested group.  When an outbound of the group that carries the network has a measured delay, the one
  that is chosen has too, and no other is faster by more than the tolerance; the outbound in use stays
  when no other is faster by more than the tolerance.  Without measurements the first that carries the network is chosen, and
  reported as not measured.  Delays are not zero and do not overflow with the tolerance.
\<close>

theorem Select_within_tolerance:
  assumes "selected_ok E g network" and "delays_ok E h (ug_tolerance g) (ug_outbounds g)"
  defines "cand \<equiv> filter (supports E network) (ug_outbounds g)"
  shows "((\<exists>x \<in> set cand. measured E h x \<noteq> None) \<longrightarrow>
      (\<exists>y \<in> set cand. \<exists>n. group_Select E h g network = (Some y, True) \<and> measured E h y = Some n \<and>
        (\<forall>z \<in> set cand. \<forall>m. measured E h z = Some m \<longrightarrow> n \<le> m + unat (ug_tolerance g)))) \<and>
    ((\<forall>x \<in> set cand. measured E h x = None) \<longrightarrow>
      group_Select E h g network = (if cand = [] then None else Some (hd cand), False)) \<and>
    (\<forall>y n. selected_for g network = Some y \<longrightarrow> measured E h y = Some n \<longrightarrow>
      (\<forall>z \<in> set cand. \<forall>m. measured E h z = Some m \<longrightarrow> n \<le> m + unat (ug_tolerance g)) \<longrightarrow>
      group_Select E h g network = (Some y, True))"
proof (intro conjI impI allI)
  assume "\<exists>x \<in> set cand. measured E h x \<noteq> None"
  then obtain x k where x: "x \<in> set (ug_outbounds g)" "supports E network x" "measured E h x = Some k" by (auto simp: cand_def)
  show "\<exists>y \<in> set cand. \<exists>n. group_Select E h g network = (Some y, True) \<and> measured E h y = Some n \<and>
        (\<forall>z \<in> set cand. \<forall>m. measured E h z = Some m \<longrightarrow> n \<le> m + unat (ug_tolerance g))"
    using Select_measured [OF assms(1,2) x] by (auto simp: cand_def) metis
next
  assume "\<forall>x \<in> set cand. measured E h x = None"
  then have "group_Select E h g network = (find (supports E network) (ug_outbounds g), False)"
    using assms(1) by (intro Select_unmeasured) (auto simp: cand_def)
  moreover have "find P xs = (if filter P xs = [] then None else Some (hd (filter P xs)))" for P and xs :: "obj list"
    by (induction xs) auto
  ultimately show "group_Select E h g network = (if cand = [] then None else Some (hd cand), False)" by (simp add: cand_def)
next
  fix y n assume y: "selected_for g network = Some y" "measured E h y = Some n"
    "\<forall>z \<in> set cand. \<forall>m. measured E h z = Some m \<longrightarrow> n \<le> m + unat (ug_tolerance g)"
  note ini = initial_min_ok [OF assms(1,2)]
  have i: "snd (initial_min E h g network) = Some y" "unat (fst (initial_min E h g network)) = n" "fst (initial_min E h g network) \<noteq> 0"
    using ini(1) ini(3) [OF y(1,2)] by (auto simp: min_ok_def)
  then have "min_loop E h network (ug_tolerance g) (ug_outbounds g) (initial_min E h g network) = initial_min E h g network"
    using y(3) assms(2) by (intro min_loop_stays) (auto simp: cand_def)
  then show "group_Select E h g network = (Some y, True)" using i by (simp add: group_Select_def)
qed

section \<open>Measurements\<close>

lemma test_jobs_from:
  "(tag, rt, p) \<in> set (test_jobs E lookup h interval force now1 ds checked) \<Longrightarrow>
   \<exists>d \<in> set ds. tag = obj_tag d \<and> rt = RealTag E d \<and> lookup rt = Some p"
  by (induction ds arbitrary: checked) (auto simp: Let_def split: if_splits option.splits)

definition job_real :: "test_job \<Rightarrow> string" where
  "job_real j = fst (snd j)"

lemma job_real_simp [simp]: "job_real (t, rt, p) = rt"
  by (simp add: job_real_def)

lemma test_jobs_cases:
  obtains (skipped) "test_jobs E lookup h interval force now1 (d # ds) checked = test_jobs E lookup h interval force now1 ds checked"
  | (missing) "test_jobs E lookup h interval force now1 (d # ds) checked = test_jobs E lookup h interval force now1 ds (RealTag E d # checked)"
  | (job) p where "RealTag E d \<notin> set checked" "test_jobs E lookup h interval force now1 (d # ds) checked =
      (obj_tag d, RealTag E d, p) # test_jobs E lookup h interval force now1 ds (RealTag E d # checked)"
proof -
  let ?fresh = "\<not> force \<and> recently_tested h interval (now1 d) (RealTag E d)"
  consider "RealTag E d \<in> set checked \<or> ?fresh" | "RealTag E d \<notin> set checked" "\<not> ?fresh" "lookup (RealTag E d) = None"
    | p where "RealTag E d \<notin> set checked" "\<not> ?fresh" "lookup (RealTag E d) = Some p" by blast
  then show ?thesis
  proof cases
    case 1
    then show ?thesis by (intro skipped) (auto simp: Let_def)
  next
    case 2
    then show ?thesis by (intro missing) (auto simp: Let_def)
  next
    case (3 p)
    then show ?thesis by (intro job [of p]) (auto simp: Let_def)
  qed
qed

lemma test_jobs_distinct:
  "distinct (map job_real (test_jobs E lookup h interval force now1 ds checked)) \<and>
   (\<forall>j \<in> set (test_jobs E lookup h interval force now1 ds checked). job_real j \<notin> set checked)"
proof (induction ds arbitrary: checked)
  case (Cons d ds)
  have ih: "distinct (map job_real (test_jobs E lookup h interval force now1 ds (RealTag E d # checked)))"
    "\<forall>j \<in> set (test_jobs E lookup h interval force now1 ds (RealTag E d # checked)). job_real j \<noteq> RealTag E d \<and> job_real j \<notin> set checked"
    using Cons [of "RealTag E d # checked"] by auto
  then have "RealTag E d \<notin> job_real ` set (test_jobs E lookup h interval force now1 ds (RealTag E d # checked))" by fastforce
  with Cons [of checked] ih show ?case
    by (cases rule: test_jobs_cases [of E lookup h interval force now1 d ds checked]) auto
qed simp

lemma test_jobs_forced:
  "d \<in> set ds \<Longrightarrow> lookup (RealTag E d) = Some p \<Longrightarrow> RealTag E d \<notin> set checked \<Longrightarrow>
   \<exists>tag. (tag, RealTag E d, p) \<in> set (test_jobs E lookup h interval True now1 ds checked)"
proof (induction ds arbitrary: checked)
  case (Cons e ds)
  show ?case
  proof (cases "RealTag E e = RealTag E d")
    case True
    then show ?thesis using Cons.prems by (auto simp: Let_def)
  next
    case False
    with Cons.prems have d: "d \<in> set ds" by auto
    show ?thesis using Cons.IH [OF d, of checked] Cons.IH [OF d, of "RealTag E e # checked"] Cons.prems False
      by (auto simp: Let_def split: option.splits)
  qed
qed simp

definition job_effect :: "test_outcome \<Rightarrow> test_job \<Rightarrow> (string \<rightharpoonup> URLTestHistory) \<Rightarrow> (string \<rightharpoonup> URLTestHistory)" where
  "job_effect outcome j m =
     m(job_real j := (case outcome (snd (snd j)) of Inl e \<Rightarrow> None | Inr (t, n) \<Rightarrow> Some \<lparr>uh_Time = n, uh_Delay = t\<rparr>))"

definition job_result :: "test_outcome \<Rightarrow> test_job \<Rightarrow> (string \<rightharpoonup> 16 word) \<Rightarrow> (string \<rightharpoonup> 16 word)" where
  "job_result outcome j r = (case outcome (snd (snd j)) of Inl e \<Rightarrow> r | Inr (t, n) \<Rightarrow> r(fst j \<mapsto> t))"

lemma run_job_eq:
  "run_job outcome j (h, r) = (notifyUpdated (delayHistory_update (job_effect outcome j) h), job_result outcome j r)"
  by (cases j) (auto simp: job_effect_def job_result_def DeleteURLTestHistory_def StoreURLTestHistory_def
    split: sum.splits intro: arg_cong [where f = notifyUpdated])

lemma notifyUpdated_delayHistory: "notifyUpdated (delayHistory_update f h) = delayHistory_update f (notifyUpdated h)"
  by (simp add: notifyUpdated_def)

lemma run_job_commute:
  assumes "i = j \<or> fst i \<noteq> fst j \<and> job_real i \<noteq> job_real j"
  shows "run_job outcome i \<circ> run_job outcome j = run_job outcome j \<circ> run_job outcome i"
proof (cases "i = j")
  case False
  with assms have "job_effect outcome i \<circ> job_effect outcome j = job_effect outcome j \<circ> job_effect outcome i"
    "job_result outcome i \<circ> job_result outcome j = job_result outcome j \<circ> job_result outcome i"
    by (auto simp: fun_eq_iff job_effect_def job_result_def split: sum.splits)
  then show ?thesis
    by (auto simp: fun_eq_iff run_job_eq notifyUpdated_delayHistory comp_def)
qed simp

lemma schedule_irrelevant:
  assumes "inj_on obj_tag (set ds)" and "mset js = mset (test_jobs E lookup h interval force now1 ds [])"
  shows "fold (run_job outcome) js = fold (run_job outcome) (test_jobs E lookup h interval force now1 ds [])"
proof (rule fold_multiset_equiv [OF _ assms(2)])
  fix i j assume ij: "i \<in> set js" "j \<in> set js"
  let ?T = "test_jobs E lookup h interval force now1 ds []"
  have set: "set js = set ?T" using assms(2) by (metis set_mset_mset)
  have inj: "inj_on job_real (set ?T)" using test_jobs_distinct by (metis distinct_map)
  have "fst i \<noteq> fst j \<and> job_real i \<noteq> job_real j" if "i \<noteq> j"
  proof -
    have ne: "job_real i \<noteq> job_real j" using inj_onD [OF inj, of i j] ij set that by auto
    obtain d e where "d \<in> set ds" "e \<in> set ds" "fst i = obj_tag d" "fst j = obj_tag e" "job_real i = RealTag E d" "job_real j = RealTag E e"
      using ij set test_jobs_from by (metis prod.collapse job_real_simp)
    with ne assms(1) show ?thesis by (auto dest: inj_onD)
  qed
  then show "run_job outcome i \<circ> run_job outcome j = run_job outcome j \<circ> run_job outcome i"
    by (intro run_job_commute) auto
qed

lemma fold_jobs_history:
  "distinct (map job_real js) \<Longrightarrow>
   delayHistory (fst (fold (run_job outcome) js (h, r))) rt =
     (case find (\<lambda>j. job_real j = rt) js of None \<Rightarrow> delayHistory h rt | Some j \<Rightarrow> job_effect outcome j Map.empty rt)"
proof (induction js arbitrary: h r)
  case (Cons j js)
  have dist: "distinct (map job_real js)" "job_real j \<notin> job_real ` set js" using Cons.prems by auto
  have "find (\<lambda>i. job_real i = job_real j) js = None"
    unfolding find_None_iff using dist(2) by (metis rev_image_eqI)
  then show ?case
    using Cons.IH [OF dist(1)] by (auto simp: run_job_eq notifyUpdated_def job_effect_def split: option.splits)
qed simp

text \<open>Every outbound is measured under its own tag, and the manager knows it by that tag.\<close>

definition plain_outbounds :: "'dst group_env \<Rightarrow> (string \<Rightarrow> obj option) \<Rightarrow> obj list \<Rightarrow> bool" where
  "plain_outbounds E lookup ds \<longleftrightarrow> (\<forall>d \<in> set ds. ge_Now E d = None \<and> lookup (obj_tag d) = Some d)"

lemma plain_RealTag: "plain_outbounds E lookup ds \<Longrightarrow> d \<in> set ds \<Longrightarrow> RealTag E d = obj_tag d"
  by (simp add: plain_outbounds_def RealTag_def)

lemma plain_inj: "plain_outbounds E lookup ds \<Longrightarrow> inj_on obj_tag (set ds)"
proof (rule inj_onI)
  fix x y assume p: "plain_outbounds E lookup ds" "x \<in> set ds" "y \<in> set ds" and eq: "obj_tag x = obj_tag y"
  from p have "Some x = lookup (obj_tag x)" by (simp add: plain_outbounds_def)
  also have "\<dots> = lookup (obj_tag y)" by (simp only: eq)
  also have "\<dots> = Some y" using p by (simp add: plain_outbounds_def)
  finally show "x = y" by (simp only: option.inject)
qed

lemma forced_measured:
  assumes "plain_outbounds E lookup ds" and "d \<in> set ds"
  shows "measured E (fst (fold (run_job outcome) (test_jobs E lookup h interval True now1 ds []) (h, r))) d =
    (case outcome d of Inl e \<Rightarrow> None | Inr (t, n) \<Rightarrow> Some (unat t))"
proof -
  let ?T = "test_jobs E lookup h interval True now1 ds []"
  have rt: "RealTag E d = obj_tag d" "lookup (obj_tag d) = Some d" using assms by (auto simp: plain_outbounds_def RealTag_def)
  obtain j where j: "find (\<lambda>j. job_real j = obj_tag d) ?T = Some j"
    using test_jobs_forced [OF assms(2), of lookup E d "[]" h interval now1] rt
    by (cases "find (\<lambda>j. job_real j = obj_tag d) ?T") (auto simp: find_None_iff)
  then have "j \<in> set ?T" "job_real j = obj_tag d" by (auto simp: find_Some_iff)
  moreover obtain t q p where jp: "j = (t, q, p)" by (cases j)
  ultimately have "lookup (obj_tag d) = Some p" using test_jobs_from [of t q p E lookup h interval True now1 ds "[]"] by auto
  with jp rt(2) have "snd (snd j) = d" by simp
  moreover have "distinct (map job_real ?T)" using test_jobs_distinct by blast
  ultimately show ?thesis
    using fold_jobs_history [of ?T outcome h r "obj_tag d"] j \<open>job_real j = obj_tag d\<close>
    by (simp add: measured_def rt(1) job_effect_def split: sum.splits prod.splits)
qed

section \<open>A forced check\<close>

definition next_selected :: "obj option \<Rightarrow> obj option \<times> bool \<Rightarrow> obj option" where
  "next_selected cur x = (if fst x \<noteq> None \<and> (cur = None \<or> snd x) then fst x else cur)"

lemma same_selected:
  "ug_selectedTCP g = v \<Longrightarrow> g\<lparr>ug_selectedTCP := v\<rparr> = g" "ug_selectedUDP g = v \<Longrightarrow> g\<lparr>ug_selectedUDP := v\<rparr> = g"
  by (cases g, simp)+

lemma update_tcp_selected:
  assumes "inj_on obj_id (set (ug_outbounds g))" and "selected_ok E g NetworkTCP"
    and "\<And>x. fst (group_Select E h g NetworkTCP) = Some x \<Longrightarrow> x \<in> set (ug_outbounds g)"
  shows "fst (update_tcp E h g) = g\<lparr>ug_selectedTCP := next_selected (ug_selectedTCP g) (group_Select E h g NetworkTCP)\<rparr>"
proof -
  have "x = y" if "fst (group_Select E h g NetworkTCP) = Some x" "ug_selectedTCP g = Some y" "obj_id x = obj_id y" for x y
    using inj_onD [OF assms(1) that(3) assms(3) [OF that(1)]] assms(2) that(2) by (simp add: selected_ok_def selected_for_def)
  note eq = this
  obtain a b where ab: "group_Select E h g NetworkTCP = (a, b)" by (cases "group_Select E h g NetworkTCP")
  show ?thesis
  proof (cases a)
    case None
    then show ?thesis using ab by (simp add: update_tcp_def next_selected_def)
  next
    case (Some x)
    show ?thesis
    proof (cases "ug_selectedTCP g")
      case cur: (Some y)
      have "obj_id x = obj_id y \<Longrightarrow> x = y" using eq [of x y] ab Some cur by simp
      then show ?thesis using ab Some cur by (auto simp: update_tcp_def next_selected_def same_obj_def same_selected)
    qed (use ab Some in \<open>simp add: update_tcp_def next_selected_def\<close>)
  qed
qed

lemma update_udp_selected:
  assumes "inj_on obj_id (set (ug_outbounds g))" and "selected_ok E g NetworkUDP"
    and "\<And>x. fst (group_Select E h g NetworkUDP) = Some x \<Longrightarrow> x \<in> set (ug_outbounds g)"
  shows "fst (update_udp E h g) = g\<lparr>ug_selectedUDP := next_selected (ug_selectedUDP g) (group_Select E h g NetworkUDP)\<rparr>"
proof -
  have "x = y" if "fst (group_Select E h g NetworkUDP) = Some x" "ug_selectedUDP g = Some y" "obj_id x = obj_id y" for x y
    using inj_onD [OF assms(1) that(3) assms(3) [OF that(1)]] assms(2) that(2)
    by (simp add: selected_ok_def selected_for_def NetworkTCP_def NetworkUDP_def)
  note eq = this
  obtain a b where ab: "group_Select E h g NetworkUDP = (a, b)" by (cases "group_Select E h g NetworkUDP")
  show ?thesis
  proof (cases a)
    case None
    then show ?thesis using ab by (simp add: update_udp_def next_selected_def)
  next
    case (Some x)
    show ?thesis
    proof (cases "ug_selectedUDP g")
      case cur: (Some y)
      have "obj_id x = obj_id y \<Longrightarrow> x = y" using eq [of x y] ab Some cur by simp
      then show ?thesis using ab Some cur by (auto simp: update_udp_def next_selected_def same_obj_def same_selected)
    qed (use ab Some in \<open>simp add: update_udp_def next_selected_def\<close>)
  qed
qed

lemma Select_in_group:
  assumes "selected_ok E g network" and "fst (group_Select E h g network) = Some x"
  shows "x \<in> set (ug_outbounds g) \<and> supports E network x"
proof (cases "snd (min_loop E h network (ug_tolerance g) (ug_outbounds g) (initial_min E h g network))")
  case None
  with assms(2) have "find (\<lambda>d. network \<in> set (ge_Network E d)) (ug_outbounds g) = Some x" by (simp add: group_Select_def)
  then show ?thesis by (auto simp: find_Some_iff supports_def)
next
  case (Some y)
  have "snd (initial_min E h g network) = Some y \<Longrightarrow> selected_for g network = Some y"
    by (auto simp: initial_min_def split: option.splits)
  with min_loop_member [OF Some] assms Some show ?thesis by (auto simp: group_Select_def selected_ok_def)
qed

lemma group_Select_udp [simp]: "group_Select E h (g\<lparr>ug_selectedTCP := x\<rparr>) NetworkUDP = group_Select E h g NetworkUDP"
  by (simp add: group_Select_def initial_min_def selected_for_def NetworkTCP_def NetworkUDP_def cong: option.case_cong)

lemma selected_for_simps [simp]:
  "selected_for g NetworkTCP = ug_selectedTCP g" "selected_for g NetworkUDP = ug_selectedUDP g"
  by (simp_all add: selected_for_def NetworkTCP_def NetworkUDP_def)

lemma performUpdateCheck_selected:
  assumes "inj_on obj_id (set (ug_outbounds g))" and "selected_ok E g NetworkTCP" and "selected_ok E g NetworkUDP"
    and "performUpdateCheck E h g closed = (g', closed')" and "network = NetworkTCP \<or> network = NetworkUDP"
  shows "selected_for g' network = next_selected (selected_for g network) (group_Select E h g network)"
proof -
  let ?g1 = "g\<lparr>ug_selectedTCP := next_selected (ug_selectedTCP g) (group_Select E h g NetworkTCP)\<rparr>"
  have t: "fst (update_tcp E h g) = ?g1" using assms(1,2) Select_in_group [OF assms(2)] by (intro update_tcp_selected) auto
  have "fst (update_udp E h ?g1) = ?g1\<lparr>ug_selectedUDP := next_selected (ug_selectedUDP g) (group_Select E h g NetworkUDP)\<rparr>"
    using update_udp_selected [of ?g1 E h] assms(1,3) Select_in_group [OF assms(3)] by (simp add: selected_ok_def)
  with t assms(4) have "ug_selectedTCP g' = next_selected (ug_selectedTCP g) (group_Select E h g NetworkTCP)"
    "ug_selectedUDP g' = next_selected (ug_selectedUDP g) (group_Select E h g NetworkUDP)"
    by (auto simp: performUpdateCheck_def split: prod.splits if_splits)
  with assms(5) show ?thesis by auto
qed


section \<open>The goroutine that watches a group\<close>

lemma CheckOutbounds_keeps:
  assumes "CheckOutbounds E lookup now1 outcome sched force g h closed = (g', h', closed')"
  shows "ug_ticker g' = ug_ticker g \<and> ug_closed g' = ug_closed g \<and> ug_started g' = ug_started g \<and> ug_checking g' = ug_checking g"
proof -
  have "ug_ticker (fst (update_tcp E x y)) = ug_ticker y \<and> ug_closed (fst (update_tcp E x y)) = ug_closed y \<and>
      ug_started (fst (update_tcp E x y)) = ug_started y \<and> ug_checking (fst (update_tcp E x y)) = ug_checking y"
    "ug_ticker (fst (update_udp E x y)) = ug_ticker y \<and> ug_closed (fst (update_udp E x y)) = ug_closed y \<and>
      ug_started (fst (update_udp E x y)) = ug_started y \<and> ug_checking (fst (update_udp E x y)) = ug_checking y" for x y
    by (simp_all add: update_tcp_def update_udp_def split: prod.splits option.splits)
  note k = this
  show ?thesis
  proof (cases "ug_checking g")
    case False
    with assms obtain h1 where "performUpdateCheck E h1 g closed = (g', closed')"
      by (auto simp: CheckOutbounds_def urlTest_def Let_def split: prod.splits)
    then show ?thesis
      using k(1) [of h1 g] k(2) [of h1 "fst (update_tcp E h1 g)"]
      by (auto simp: performUpdateCheck_def split: prod.splits if_splits)
  qed (use assms in \<open>simp add: CheckOutbounds_def urlTest_def\<close>)
qed

text \<open>
  The life of a tested group: \<open>PostStart\<close>, \<open>Touch\<close> and \<open>Close\<close> from anywhere, and the events of the goroutines
  that run \<open>loopCheck\<close>; \<open>ws_loops\<close> is their number.  A goroutine sees the close signal only when the channel is closed.
\<close>

record watch_state =
  ws_group :: URLTestGroup
  ws_loops :: nat

inductive watch_step :: "'dst group_env \<Rightarrow> watch_state \<Rightarrow> watch_state \<Rightarrow> bool" for E where
  w_post_start: "watch_step E s \<lparr>ws_group = group_PostStart now1 (ws_group s), ws_loops = ws_loops s\<rparr>"
| w_touch: "Touch now1 (ws_group s) = (g, spawned) \<Longrightarrow>
    watch_step E s \<lparr>ws_group = g, ws_loops = ws_loops s + (if spawned then 1 else 0)\<rparr>"
| w_close: "group_Close (ws_group s) = (g, Ok ()) \<Longrightarrow> watch_step E s \<lparr>ws_group = g, ws_loops = ws_loops s\<rparr>"
| w_begin: "0 < ws_loops s \<Longrightarrow>
    loopCheck (\<lambda>(g, h, closed). CheckOutbounds E lookup clock outcome sched False g h closed) now1 [] (ws_group s, x) = (True, g, x') \<Longrightarrow>
    watch_step E s \<lparr>ws_group = g, ws_loops = ws_loops s\<rparr>"
| w_event: "0 < ws_loops s \<Longrightarrow> (e = CloseSignal \<longrightarrow> ug_closed (ws_group s)) \<Longrightarrow>
    check_events (\<lambda>(g, h, closed). CheckOutbounds E lookup clock outcome sched False g h closed) [e] (ws_group s, x) = (waiting, g, x') \<Longrightarrow>
    watch_step E s \<lparr>ws_group = g, ws_loops = ws_loops s - (if waiting then 0 else 1)\<rparr>"

definition watch_inv :: "watch_state \<Rightarrow> bool" where
  "watch_inv s \<longleftrightarrow> ws_loops s \<le> 1 \<and> (0 < ws_loops s \<longrightarrow> ug_ticker (ws_group s)) \<and>
     (ug_ticker (ws_group s) \<and> \<not> ug_closed (ws_group s) \<longrightarrow> ws_loops s = 1)"

lemma watch_inv_step: "watch_step E s s' \<Longrightarrow> watch_inv s \<Longrightarrow> watch_inv s'"
proof (induction rule: watch_step.induct)
  case (w_event s e lookup clock outcome sched x waiting g x')
  show ?case
  proof (cases e)
    case CloseSignal
    with w_event show ?thesis by (auto simp: watch_inv_def)
  next
    case (TickSignal now1)
    obtain h closed where x: "x = (h, closed)" by (cases x)
    show ?thesis
    proof (cases "now1 - ug_lastActive (ws_group s) > ug_idleTimeout (ws_group s)")
      case True
      with w_event TickSignal x show ?thesis by (auto simp: watch_inv_def)
    next
      case False
      with w_event.hyps(3) TickSignal x have "CheckOutbounds E lookup clock outcome sched False (ws_group s) h closed = (g, x')" and w: waiting
        by auto
      then have "ug_ticker g = ug_ticker (ws_group s)" "ug_closed g = ug_closed (ws_group s)"
        using CheckOutbounds_keeps by (cases x', blast)+
      with w_event.prems w show ?thesis by (simp add: watch_inv_def)
    qed
  qed
next
  case (w_begin s lookup clock outcome sched now1 x g x')
  obtain h closed where x: "x = (h, closed)" by (cases x)
  obtain h' closed' where x': "x' = (h', closed')" by (cases x')
  have "ug_ticker g = ug_ticker (ws_group s) \<and> ug_closed g = ug_closed (ws_group s)"
  proof (cases "now1 - ug_lastActive (ws_group s) > ug_interval (ws_group s)")
    case True
    with w_begin.hyps(2) x x' have "CheckOutbounds E lookup clock outcome sched False (ws_group s\<lparr>ug_lastActive := now1\<rparr>) h closed = (g, h', closed')"
      by (simp add: loopCheck_def)
    from CheckOutbounds_keeps [OF this] show ?thesis by simp
  qed (use w_begin.hyps(2) in \<open>simp add: loopCheck_def\<close>)
  with w_begin.prems show ?case by (simp add: watch_inv_def)
qed (auto simp: watch_inv_def group_PostStart_def Touch_def group_Close_def split: if_splits)

text \<open>
  C26: Whatever happens to a tested group, at most one goroutine watches it; while one does there is a ticker, so that
  it never reads a nil ticker; and while there is a ticker of a group that is not closed, one watches it.
\<close>

theorem one_watcher:
  assumes "NewURLTestGroup outbounds link interval tolerance idleTimeout external = Ok g0"
    and "(watch_step E)\<^sup>*\<^sup>* \<lparr>ws_group = g0, ws_loops = 0\<rparr> s"
  shows "ws_loops s \<le> 1 \<and> (0 < ws_loops s \<longrightarrow> ug_ticker (ws_group s)) \<and>
    (ug_ticker (ws_group s) \<and> \<not> ug_closed (ws_group s) \<longrightarrow> ws_loops s = 1)"
proof -
  have "watch_inv \<lparr>ws_group = g0, ws_loops = 0\<rparr>"
    using assms(1) by (auto simp: watch_inv_def NewURLTestGroup_def Let_def split: if_splits)
  from assms(2) this have "watch_inv s" by (induction rule: rtranclp_induct) (auto intro: watch_inv_step)
  then show ?thesis by (simp add: watch_inv_def)
qed

section \<open>What the hypotheses keep out\<close>

text \<open>A group is closed twice, and one that has no ticker is not closed at all: the next use starts a goroutine.\<close>

lemma double_close_panics:
  "ug_ticker g \<Longrightarrow> \<not> ug_closed g \<Longrightarrow> snd (group_Close (fst (group_Close g))) = Panic ''close of closed channel''"
  by (simp add: group_Close_def)

lemma idle_close_forgotten:
  "ug_started g \<Longrightarrow> \<not> ug_ticker g \<Longrightarrow> group_Close g = (g, Ok ()) \<and> snd (Touch now1 (fst (group_Close g)))"
  by (simp add: group_Close_def Touch_def)

definition demo_genv :: "unit group_env" where
  "demo_genv = \<lparr>ge_Network = (\<lambda>_. [NetworkTCP, NetworkUDP]), ge_Now = (\<lambda>_. None), ge_NetworkName = take 3,
     ge_Dial = (\<lambda>_ _ _. Inr 1), ge_Listen = (\<lambda>_ _. Inr 1), ge_ConnectionHandler = (\<lambda>_. False), ge_PacketHandler = (\<lambda>_. False)\<rparr>"

definition demo_tested :: "16 word \<Rightarrow> URLTestGroup" where
  "demo_tested tol =
     \<lparr>ug_outbounds = [demo_obj 1 ''a'', demo_obj 2 ''b''], ug_link = [], ug_interval = 3, ug_tolerance = tol,
      ug_idleTimeout = 30, ug_checking = False, ug_selectedTCP = None, ug_selectedUDP = None,
      ug_group = NewGroup, ug_external = False, ug_ticker = False, ug_closed = False,
      ug_started = False, ug_lastActive = 0\<rparr>"

definition demo_history :: "16 word \<Rightarrow> 16 word \<Rightarrow> HistoryStorage" where
  "demo_history da db = \<lparr>delayHistory = [''a'' \<mapsto> \<lparr>uh_Time = 0, uh_Delay = da\<rparr>, ''b'' \<mapsto> \<lparr>uh_Time = 0, uh_Delay = db\<rparr>], updateHook = None\<rparr>"

lemmas group_eval = group_Select_def demo_tested_def demo_genv_def demo_history_def LoadURLTestHistory_def initial_min_def
  RealTag_def NetworkTCP_def NetworkUDP_def selected_for_def

text \<open>A delay of zero counts as none, so that a slower outbound takes its place; a sum that overflows does the same.\<close>

lemma zero_delay_replaced:
  "group_Select demo_genv (demo_history 0 200) (demo_tested 50) NetworkTCP = (Some (demo_obj 2 ''b''), True)"
  by (simp add: group_eval)

lemma tolerance_overflow:
  "group_Select demo_genv (demo_history 100 65500) (demo_tested 50) NetworkTCP = (Some (demo_obj 2 ''b''), True)"
  by (simp add: group_eval)

text \<open>A failed connection removes the delay stored under the tag of the outbound, not that of a nested group.\<close>

lemma nested_failure_kept:
  assumes "ge_Now E x = Some t" and "t \<noteq> obj_tag x" and "dial x = Inl e"
  shows "measured E (fst (snd (use_outbound dial ext (Some x) g h))) x = measured E h x"
  using assms by (simp add: use_outbound_def DeleteURLTestHistory_def notifyUpdated_def measured_def RealTag_def)

text \<open>Before the first check the full network name is looked up, which no outbound lists.\<close>

lemma dial_tcp4_fails:
  "snd (snd (group_DialContext demo_genv 0 False ''tcp4'' () (demo_tested 50) NewHistoryStorage)) =
     Err (ENew [AStr ''missing supported outbound''])"
  by (simp add: group_DialContext_def Touch_def use_outbound_def NewHistoryStorage_def group_eval Let_def)

section \<open>Witnesses\<close>

definition demo_outs :: outbound_manager where
  "demo_outs = (outbound_NewManager [])\<lparr>byTag := [''a'' \<mapsto> demo_obj 1 ''a'', ''b'' \<mapsto> demo_obj 2 ''b'']\<rparr>"

definition demo_eps :: manager where
  "demo_eps = \<lparr>started = False, stage = StartStateInitialize, objects = [], byTag = Map.empty\<rparr>"

definition demo_sel :: Selector where
  "demo_sel = \<lparr>sel_Tag = ''proxy'', sel_tags = [''a'', ''b''], sel_defaultTag = [], sel_outbounds = Map.empty,
     sel_selected = None, sel_group = NewGroup, sel_external = False\<rparr>"

abbreviation demo_saved :: "btree CacheFile" where
  "demo_saved \<equiv> snd (StoreSelected bolt_tree ''proxy'' ''b'' demo_cache)"

lemma demo_lookup: "outbound_Outbound demo_eps demo_outs ''a'' = Some (demo_obj 1 ''a'')" "outbound_Outbound demo_eps demo_outs ''b'' = Some (demo_obj 2 ''b'')"
  by (simp_all add: outbound_Outbound_def demo_outs_def)

lemma demo_not_cached: "LoadSelected bolt_tree demo_cache ''proxy'' = []"
  unfolding LoadSelected_content [OF bolt_tree_ok]
  by (simp add: content_def cf_path_of_def demo_cache_def bolt_tree_def)

theorem selection_survives_restart_witness:
  "\<exists>s2. Selector_Start bolt_tree demo_eps demo_outs (Some demo_saved) demo_sel = (s2, Ok ()) \<and>
     map_option obj_id (sel_selected s2) = Some 2"
proof -
  let ?m = "[''a'' \<mapsto> demo_obj 1 ''a'', ''b'' \<mapsto> demo_obj 2 ''b'']"
  let ?s1 = "demo_sel\<lparr>sel_outbounds := ?m, sel_selected := Some (demo_obj 1 ''a'')\<rparr>"
  let ?s2 = "?s1\<lparr>sel_selected := Some (demo_obj 2 ''b'')\<rparr>"
  have new: "NewSelector ''proxy'' \<lparr>so_Outbounds = [''a'', ''b''], so_Default = [], so_Interrupt = False\<rparr> = Ok demo_sel"
    by (simp add: NewSelector_def demo_sel_def)
  have start: "Selector_Start bolt_tree demo_eps demo_outs (Some demo_cache) demo_sel = (?s1, Ok ())"
    by (simp add: Selector_Start_def demo_sel_def demo_lookup cached_selection_def demo_not_cached fun_upd_twist)
  have "SelectOutbound bolt_tree ''b'' ?s1 (Some demo_cache) [] = (True, ?s2, Some demo_saved, [])"
    by (simp add: SelectOutbound_def same_obj_def demo_sel_def Group_Interrupt_def NewGroup_def)
  moreover have "fst (StoreSelected bolt_tree (sel_Tag ?s1) ''b'' demo_cache) = None"
    by (simp add: demo_sel_def StoreSelected_def cache_eval)
  ultimately have "select_run bolt_tree (?s1, demo_cache, []) (?s2, demo_saved, [])"
    by (rule one_selected [OF none_selected])
  from selection_survives_restart [OF bolt_tree_ok new _ _ start this]
  show ?thesis by (auto simp: same_obj_def)
qed

lemma demo_selected_ok: "selected_ok demo_genv (demo_tested tol) network"
  by (simp add: selected_ok_def selected_for_def demo_tested_def)

theorem Select_within_tolerance_witness:
  "\<exists>n. group_Select demo_genv (demo_history 120 80) (demo_tested 50) NetworkTCP = (Some (demo_obj 1 ''a''), True) \<and>
     measured demo_genv (demo_history 120 80) (demo_obj 1 ''a'') = Some n \<and> n \<le> 80 + 50"
proof -
  let ?h = "demo_history 120 80" and ?g = "demo_tested 50"
  have ok: "selected_ok demo_genv ?g NetworkTCP" by (rule demo_selected_ok)
  have del: "delays_ok demo_genv ?h (ug_tolerance ?g) (ug_outbounds ?g)"
    by (simp add: delays_ok_def measured_def group_eval)
  have "supports demo_genv NetworkTCP x" for x by (simp add: supports_def demo_genv_def)
  moreover have "measured demo_genv ?h (demo_obj 1 ''a'') = Some 120" "measured demo_genv ?h (demo_obj 2 ''b'') = Some 80"
    by (simp_all add: measured_def group_eval)
  moreover have "group_Select demo_genv ?h ?g NetworkTCP = (Some (demo_obj 1 ''a''), True)" by (simp add: group_eval)
  ultimately show ?thesis
    using Select_within_tolerance [OF ok del] by (simp add: demo_tested_def)
qed


theorem one_watcher_witness:
  "ws_loops \<lparr>ws_group = (demo_tested 50)\<lparr>ug_started := True, ug_ticker := True, ug_lastActive := 5\<rparr>, ws_loops = 1\<rparr> \<le> 1 \<and>
   (\<exists>g0. NewURLTestGroup [demo_obj 1 ''a'', demo_obj 2 ''b''] [] 3 50 30 False = Ok g0 \<and>
     (watch_step demo_genv)\<^sup>*\<^sup>* \<lparr>ws_group = g0, ws_loops = 0\<rparr>
       \<lparr>ws_group = (demo_tested 50)\<lparr>ug_started := True, ug_ticker := True, ug_lastActive := 5\<rparr>, ws_loops = 1\<rparr>)"
proof -
  obtain g0 where g0: "NewURLTestGroup [demo_obj 1 ''a'', demo_obj 2 ''b''] [] 3 50 30 False = Ok g0"
    by (simp add: NewURLTestGroup_def)
  let ?a = "\<lparr>ws_group = group_PostStart 5 g0, ws_loops = 0\<rparr>"
  let ?b = "\<lparr>ws_group = (demo_tested 50)\<lparr>ug_started := True, ug_ticker := True, ug_lastActive := 5\<rparr>, ws_loops = 1\<rparr>"
  have "watch_step demo_genv \<lparr>ws_group = g0, ws_loops = 0\<rparr> ?a"
    using w_post_start [of demo_genv "\<lparr>ws_group = g0, ws_loops = 0\<rparr>" 5] by simp
  moreover have "watch_step demo_genv ?a ?b"
    using w_touch [of 6 ?a "ws_group ?b" True demo_genv] g0
    by (auto simp: Touch_def group_PostStart_def NewURLTestGroup_def demo_tested_def)
  ultimately have r: "(watch_step demo_genv)\<^sup>*\<^sup>* \<lparr>ws_group = g0, ws_loops = 0\<rparr> ?b"
    by (meson converse_rtranclp_into_rtranclp rtranclp.rtrancl_refl)
  from one_watcher [OF g0 r] g0 r show ?thesis by blast
qed

end
