(* ===== verification/Router_Start.thy ===== *)
theory Router_Start
  imports Rule_Set_Load Rule_Start
begin

text \<open>
  The router as a component: its construction, start and stop (\<open>core/route/router.go\<close>), the tests on options that
  decide what it needs (\<open>core/route/rule_conds.go\<close>).  The slice
  of rule sets is a list; the map holds positions in it.  A started rule holds the view of a rule set at that time.  The rule sets are started concurrently in
  the source, by a group that gives up at the first error; here they are started in an order that is an argument.
\<close>

section \<open>Conditions on options\<close>

fun hasRule :: "(full_options \<Rightarrow> bool) \<Rightarrow> 'a route_options list \<Rightarrow> bool" where
  "hasRule cond [] = False"
| "hasRule cond (RouteDefault o' a # rs) = (if cond o' then True else hasRule cond rs)"
| "hasRule cond (RouteLogical subs md neg a # rs) = (if hasRule cond subs then True else hasRule cond rs)"
| "hasRule cond (RouteUnknown t # rs) = hasRule cond rs"

text \<open>The source repeats the function for the type of DNS rules.\<close>

definition hasDNSRule :: "(full_options \<Rightarrow> bool) \<Rightarrow> DNSRuleActionOptions route_options list \<Rightarrow> bool" where
  "hasDNSRule = hasRule"

definition isProcessRule :: "full_options \<Rightarrow> bool" where
  "isProcessRule r \<longleftrightarrow> o_ProcessName r \<noteq> [] \<or> o_ProcessPath r \<noteq> [] \<or> o_ProcessPathRegex r \<noteq> [] \<or>
     o_PackageName r \<noteq> [] \<or> o_User r \<noteq> [] \<or> o_UserID r \<noteq> []"

definition isProcessDNSRule :: "full_options \<Rightarrow> bool" where
  "isProcessDNSRule r \<longleftrightarrow> o_ProcessName r \<noteq> [] \<or> o_ProcessPath r \<noteq> [] \<or> o_ProcessPathRegex r \<noteq> [] \<or>
     o_PackageName r \<noteq> [] \<or> o_User r \<noteq> [] \<or> o_UserID r \<noteq> []"

definition isWIFIRule :: "full_options \<Rightarrow> bool" where
  "isWIFIRule r \<longleftrightarrow> o_WIFISSID r \<noteq> [] \<or> o_WIFIBSSID r \<noteq> []"

definition isWIFIDNSRule :: "full_options \<Rightarrow> bool" where
  "isWIFIDNSRule r \<longleftrightarrow> o_WIFISSID r \<noteq> [] \<or> o_WIFIBSSID r \<noteq> []"

section \<open>Rule sets of either kind\<close>

fun any_Metadata :: "any_rule_set \<Rightarrow> RuleSetMetadata" where
  "any_Metadata (LocalSet s) =
     \<lparr>md_ContainsProcessRule = lrs_ContainsProcessRule (ls_set s), md_ContainsWIFIRule = lrs_ContainsWIFIRule (ls_set s),
      md_ContainsIPCIDRRule = lrs_ContainsIPCIDRRule (ls_set s)\<rparr>"
| "any_Metadata (RemoteSet s) = rrs_metadata s"

fun any_rules :: "any_rule_set \<Rightarrow> unit rule list" where
  "any_rules (LocalSet s) = lrs_rules (ls_set s)"
| "any_rules (RemoteSet s) = rrs_rules s"

fun any_refs :: "any_rule_set \<Rightarrow> int" where
  "any_refs (LocalSet s) = lrs_refs (ls_set s)"
| "any_refs (RemoteSet s) = rrs_refs s"

fun any_Name :: "any_rule_set \<Rightarrow> string" where
  "any_Name (LocalSet s) = lrs_tag (ls_set s)"
| "any_Name (RemoteSet s) = rso_Tag (rrs_options s)"

fun any_IncRef :: "any_rule_set \<Rightarrow> any_rule_set" where
  "any_IncRef (LocalSet s) = LocalSet (ls_set_update LocalRuleSet_IncRef s)"
| "any_IncRef (RemoteSet s) = RemoteSet (remote_IncRef s)"

fun any_Cleanup :: "any_rule_set \<Rightarrow> any_rule_set" where
  "any_Cleanup (LocalSet s) = LocalSet (ls_set_update LocalRuleSet_Cleanup s)"
| "any_Cleanup (RemoteSet s) = RemoteSet (remote_Cleanup s)"

fun any_Close :: "any_rule_set \<Rightarrow> any_rule_set" where
  "any_Close (LocalSet s) = LocalSet (local_Close s)"
| "any_Close (RemoteSet s) = RemoteSet (remote_Close s)"

definition any_view :: "loops \<Rightarrow> rule_env \<Rightarrow> any_rule_set \<Rightarrow> rule_set" where
  "any_view L env s = \<lparr>set_Name = any_Name s, set_Match = match_rules L env (any_rules s),
     ContainsIPCIDRRule = md_ContainsIPCIDRRule (any_Metadata s)\<rparr>"

text \<open>\<open>we\<close> is the error of the watcher of a file, if any.\<close>

fun any_StartContext ::
    "('m, 'g, 'd, 'w) load_env \<Rightarrow> manager \<Rightarrow> outbound_manager \<Rightarrow> go_error option \<Rightarrow> any_rule_set \<Rightarrow>
     start_context \<times> 'd CacheFile option \<times> 'w \<Rightarrow> unit res \<times> any_rule_set \<times> start_context \<times> 'd CacheFile option \<times> 'w" where
  "any_StartContext H eps outs we (LocalSet s) x = (Ok (), LocalSet (local_StartContext we s), x)"
| "any_StartContext H eps outs we (RemoteSet s) (ctx, cf, w) =
     (case remote_StartContext H eps outs ctx s cf w of (r, ctx', s', cf', w') \<Rightarrow> (r, RemoteSet s', ctx', cf', w'))"

section \<open>The router\<close>

record 'p router_state =
  rs_rules :: "RuleAction option rule list"
  rs_needFindProcess :: bool
  rs_ruleSets :: "any_rule_set list"
  rs_ruleSetMap :: "string \<rightharpoonup> nat"
  rs_processSearcher :: "'p option"
  rs_needWIFIState :: bool
  rs_trackers :: "nat list"
  rs_started :: bool

definition NewRouter ::
    "'a route_options list \<Rightarrow> DNSRuleActionOptions route_options list \<Rightarrow> bool \<Rightarrow> 'p router_state" where
  "NewRouter routeRules dnsRules findProcess =
     \<lparr>rs_rules = [],
      rs_needFindProcess = hasRule isProcessRule routeRules \<or> hasDNSRule isProcessDNSRule dnsRules \<or> findProcess,
      rs_ruleSets = [], rs_ruleSetMap = Map.empty, rs_processSearcher = None,
      rs_needWIFIState = hasRule isWIFIRule routeRules \<or> hasDNSRule isWIFIDNSRule dnsRules,
      rs_trackers = [], rs_started = False\<rparr>"

fun init_rules ::
    "('o \<Rightarrow> RuleAction option rule res) \<Rightarrow> nat \<Rightarrow> 'o list \<Rightarrow> 'p router_state \<Rightarrow> 'p router_state \<times> unit res" where
  "init_rules new i [] r = (r, Ok ())"
| "init_rules new i (o' # os) r =
     (case new o' of
        Err e \<Rightarrow> (r, Err (ECause e [AStr ''parse rule['', AInt (int i), AStr '']'']))
      | Panic p \<Rightarrow> (r, Panic p)
      | Ok x \<Rightarrow> init_rules new (i + 1) os (r\<lparr>rs_rules := rs_rules r @ [x]\<rparr>))"

fun init_rule_sets ::
    "(rule_set_options \<Rightarrow> any_rule_set res) \<Rightarrow> nat \<Rightarrow> rule_set_options list \<Rightarrow> 'p router_state \<Rightarrow> 'p router_state \<times> unit res" where
  "init_rule_sets new i [] r = (r, Ok ())"
| "init_rule_sets new i (o' # os) r =
     (if rs_ruleSetMap r (rso_Tag o') \<noteq> None then (r, Err (ENew [AStr ''duplicate rule-set tag: '', AStr (rso_Tag o')]))
      else case new o' of
        Err e \<Rightarrow> (r, Err (ECause e [AStr ''parse rule-set['', AInt (int i), AStr '']'']))
      | Panic p \<Rightarrow> (r, Panic p)
      | Ok x \<Rightarrow>
          init_rule_sets new (i + 1) os
            (r\<lparr>rs_ruleSets := rs_ruleSets r @ [x], rs_ruleSetMap := (rs_ruleSetMap r)(rso_Tag o' \<mapsto> length (rs_ruleSets r))\<rparr>))"

definition router_Initialize ::
    "('o \<Rightarrow> RuleAction option rule res) \<Rightarrow> (rule_set_options \<Rightarrow> any_rule_set res) \<Rightarrow> 'o list \<Rightarrow> rule_set_options list \<Rightarrow>
     'p router_state \<Rightarrow> 'p router_state \<times> unit res" where
  "router_Initialize newRule newSet routeRules sets r =
     (case init_rules newRule 0 routeRules r of
        (r1, Ok _) \<Rightarrow> init_rule_sets newSet 0 sets r1
      | (r1, e) \<Rightarrow> (r1, e))"

text \<open>The rule sets in the order of the list of positions, up to the first error.\<close>

fun start_rule_sets ::
    "('m, 'g, 'd, 'w) load_env \<Rightarrow> manager \<Rightarrow> outbound_manager \<Rightarrow> (nat \<Rightarrow> go_error option) \<Rightarrow> nat list \<Rightarrow> any_rule_set list \<Rightarrow>
     start_context \<times> 'd CacheFile option \<times> 'w \<Rightarrow> unit res \<times> any_rule_set list \<times> start_context \<times> 'd CacheFile option \<times> 'w" where
  "start_rule_sets H eps outs we [] sets x = (Ok (), sets, x)"
| "start_rule_sets H eps outs we (i # is) sets x =
     (case any_StartContext H eps outs (we i) (sets ! i) x of
        (Ok _, s, x') \<Rightarrow> start_rule_sets H eps outs we is (sets[i := s]) x'
      | (Err e, s, x') \<Rightarrow> (Err (ECause e [AStr ''initialize rule-set['', AInt (int i), AStr '']'']), sets[i := s], x')
      | (Panic p, s, x') \<Rightarrow> (Panic p, sets[i := s], x'))"

definition find_searcher :: "'p option \<Rightarrow> go_error + 'p \<Rightarrow> bool \<Rightarrow> 'p option \<Rightarrow> 'p option" where
  "find_searcher platform newSearcher needed old =
     (if \<not> needed then old
      else case platform of
        Some p \<Rightarrow> Some p
      | None \<Rightarrow> (case newSearcher of Inl e \<Rightarrow> old | Inr p \<Rightarrow> Some p))"

definition start_all_sets ::
    "('m, 'g, 'd, 'w) load_env \<Rightarrow> manager \<Rightarrow> outbound_manager \<Rightarrow> (nat \<Rightarrow> go_error option) \<Rightarrow> nat list \<Rightarrow> any_rule_set list \<Rightarrow>
     'd CacheFile option \<Rightarrow> 'w \<Rightarrow> unit res \<times> any_rule_set list \<times> start_context \<times> 'd CacheFile option \<times> 'w" where
  "start_all_sets H eps outs we order sets cf w =
     (if sets = [] then (Ok (), [], Map.empty, cf, w)
      else start_rule_sets H eps outs we order sets (Map.empty, cf, w))"

definition router_start_sets ::
    "('m, 'g, 'd, 'w) load_env \<Rightarrow> manager \<Rightarrow> outbound_manager \<Rightarrow> (nat \<Rightarrow> go_error option) \<Rightarrow> nat list \<Rightarrow> 'p option \<Rightarrow> go_error + 'p \<Rightarrow>
     'p router_state \<Rightarrow> 'd CacheFile option \<Rightarrow> 'w \<Rightarrow> 'p router_state \<times> unit res \<times> 'd CacheFile option \<times> 'w" where
  "router_start_sets H eps outs we order platform newSearcher r cf w =
     (case start_all_sets H eps outs we order (rs_ruleSets r) cf w of
        (Ok _, sets, _, cf', w') \<Rightarrow>
          let needed = rs_needFindProcess r \<or> list_ex (\<lambda>s. md_ContainsProcessRule (any_Metadata s)) sets in
          (r\<lparr>rs_ruleSets := sets,
             rs_needWIFIState := rs_needWIFIState r \<or> list_ex (\<lambda>s. md_ContainsWIFIRule (any_Metadata s)) sets,
             rs_processSearcher := find_searcher platform newSearcher needed (rs_processSearcher r)\<rparr>, Ok (), cf', w')
      | (e, sets, _, cf', w') \<Rightarrow> (r\<lparr>rs_ruleSets := sets\<rparr>, e, cf', w'))"

definition router_RuleSet :: "'p router_state \<Rightarrow> string \<Rightarrow> any_rule_set option" where
  "router_RuleSet r tag = map_option (\<lambda>i. rs_ruleSets r ! i) (rs_ruleSetMap r tag)"

definition take_refs :: "string list \<Rightarrow> 'p router_state \<Rightarrow> 'p router_state" where
  "take_refs tags r = fold (\<lambda>t r. case rs_ruleSetMap r t of
       None \<Rightarrow> r
     | Some i \<Rightarrow> r\<lparr>rs_ruleSets := (rs_ruleSets r)[i := any_IncRef (rs_ruleSets r ! i)]\<rparr>) tags r"

fun post_start_rules ::
    "(string \<rightharpoonup> rule_set) \<Rightarrow> nat \<Rightarrow> RuleAction option rule list \<Rightarrow> (RuleAction option rule list \<times> string list) res" where
  "post_start_rules lookup i [] = Ok ([], [])"
| "post_start_rules lookup i (x # xs) =
     (case rule_Start lookup x of
        Ok (x', refs) \<Rightarrow> bindR (post_start_rules lookup (i + 1) xs) (\<lambda>(xs', refs'). Ok (x' # xs', refs @ refs'))
      | Err e \<Rightarrow> Err (ECause e [AStr ''initialize rule['', AInt (int i), AStr '']''])
      | Panic p \<Rightarrow> Panic p)"

text \<open>
  \<open>PostStart\<close> of a rule set only starts the goroutine of a remote one and returns nil.  After an error the router is
  closed.
\<close>

definition router_post_start :: "loops \<Rightarrow> rule_env \<Rightarrow> 'p router_state \<Rightarrow> 'p router_state \<times> unit res" where
  "router_post_start L env r =
     (case post_start_rules (\<lambda>t. map_option (any_view L env) (router_RuleSet r t)) 0 (rs_rules r) of
        Ok (xs, refs) \<Rightarrow> ((take_refs refs r)\<lparr>rs_rules := xs, rs_started := True\<rparr>, Ok ())
      | Err e \<Rightarrow> (r, Err e)
      | Panic p \<Rightarrow> (r, Panic p))"

definition router_cleanup :: "'p router_state \<Rightarrow> 'p router_state" where
  "router_cleanup r = r\<lparr>rs_ruleSets := map any_Cleanup (rs_ruleSets r)\<rparr>"

definition router_Start ::
    "('m, 'g, 'd, 'w) load_env \<Rightarrow> loops \<Rightarrow> manager \<Rightarrow> outbound_manager \<Rightarrow> (nat \<Rightarrow> go_error option) \<Rightarrow> nat list \<Rightarrow> 'p option \<Rightarrow> go_error + 'p \<Rightarrow>
     StartStage \<Rightarrow> 'p router_state \<Rightarrow> 'd CacheFile option \<Rightarrow> 'w \<Rightarrow> 'p router_state \<times> unit res \<times> 'd CacheFile option \<times> 'w" where
  "router_Start H L eps outs we order platform newSearcher st r cf w =
     (case st of
        StartStateStart \<Rightarrow> router_start_sets H eps outs we order platform newSearcher r cf w
      | StartStatePostStart \<Rightarrow> (case router_post_start L (le_rule H) r of (r', e) \<Rightarrow> (r', e, cf, w))
      | StartStateStarted \<Rightarrow> (router_cleanup r, Ok (), cf, w)
      | StartStateInitialize \<Rightarrow> (r, Ok (), cf, w))"

text \<open>No rule item has a method \<open>Close\<close>, and closing a rule set returns nil.\<close>

definition router_Close :: "'p router_state \<Rightarrow> 'p router_state \<times> go_error option" where
  "router_Close r = (r\<lparr>rs_ruleSets := map any_Close (rs_ruleSets r)\<rparr>, None)"

definition router_NeedWIFIState :: "'p router_state \<Rightarrow> bool" where
  "router_NeedWIFIState r = rs_needWIFIState r"

definition AppendTracker :: "nat \<Rightarrow> 'p router_state \<Rightarrow> 'p router_state" where
  "AppendTracker t r = r\<lparr>rs_trackers := rs_trackers r @ [t]\<rparr>"

end
