(* ===== verification/Router_Properties.thy ===== *)
theory Router_Properties
  imports Router_Start Rule_Set_Properties
begin

text \<open>
  The start of the router: it looks for processes exactly when a rule in force has a condition on them, and
  afterwards the rule sets that rules refer to keep their rules, while the others are emptied.
\<close>

section \<open>Conditions on processes\<close>

fun is_process_item :: "rule_item \<Rightarrow> bool" where
  "is_process_item (IProcess _) = True"
| "is_process_item (IProcessPath _) = True"
| "is_process_item (IProcessPathRegex _) = True"
| "is_process_item (IPackageName _) = True"
| "is_process_item (IUser _) = True"
| "is_process_item (IUserId _) = True"
| "is_process_item _ = False"

fun tree_ex :: "('act abstractDefaultRule \<Rightarrow> bool) \<Rightarrow> 'act rule \<Rightarrow> bool" where
  "tree_ex P (DefaultRule r) = P r"
| "tree_ex P (LogicalRule rs md neg a) = list_ex (tree_ex P) rs"

definition asks_process :: "'act rule \<Rightarrow> bool" where
  "asks_process = tree_ex (\<lambda>r. list_ex is_process_item (allItems r))"

fun step_items :: "step \<Rightarrow> rule_item list" where
  "step_items (Add g i) = [i]"
| "step_items _ = []"

lemma run_steps_all: "run_steps ss r = Inr r' \<Longrightarrow> allItems r' = allItems r @ concat (map step_items ss)"
proof (induction ss r rule: run_steps.induct)
  case (3 g i ss r)
  then show ?case by (cases g) auto
qed simp_all

definition step_asks :: "step \<Rightarrow> bool" where
  "step_asks s = list_ex is_process_item (step_items s)"

lemma run_steps_asks:
  assumes "run_steps ss (empty_rule neg act) = Inr r"
  shows "list_ex is_process_item (allItems r) = list_ex step_asks ss"
  using run_steps_all [OF assms] by (simp add: empty_rule_def list_ex_iff step_asks_def)

lemma step_asks_simps [simp]:
  "step_asks (add_if b g i) = (b \<and> is_process_item i)"
  "step_asks (fail_if b e) = False" "step_asks (ip_version_step v) = False"
  "step_asks (or_else b s t) = (if b then step_asks s else step_asks t)"
  "(\<And>v. \<not> is_process_item (f v)) \<Longrightarrow> \<not> step_asks (try_if b g x f)"
  "(\<And>v. \<not> is_process_item (f v)) \<Longrightarrow> \<not> step_asks (raw_if y g f)"
  "\<not> is_process_item i \<Longrightarrow> \<not> step_asks (Add g i)"
  by (auto simp: step_asks_def add_if_def fail_if_def ip_version_step_def or_else_def try_if_def raw_if_def
      split: sum.splits option.splits)

lemma regex_asks:
  assumes "run_steps ss r = Inr r'" and "try_if b g x f \<in> set ss" and "\<And>v. is_process_item (f v)"
  shows "step_asks (try_if b g x f) = b"
proof (cases x)
  case (Inl e)
  have "\<not> b"
  proof
    assume b
    with Inl have "try_if b g x f = Fail e" by (simp add: try_if_def)
    with assms(2) run_steps_no_fail [OF assms(1), of e] show False by simp
  qed
  then show ?thesis by (simp add: step_asks_def try_if_def)
qed (use assms(3) in \<open>simp add: step_asks_def try_if_def\<close>)

lemma process_steps_ask:
  assumes "run_steps ss r = Inr r'" and "set (process_steps env o') \<subseteq> set ss"
  shows "list_ex step_asks (process_steps env o') \<longleftrightarrow>
    o_ProcessName o' \<noteq> [] \<or> o_ProcessPath o' \<noteq> [] \<or> o_ProcessPathRegex o' \<noteq> [] \<or> o_PackageName o' \<noteq> []"
proof -
  have "step_asks (try_if (o_ProcessPathRegex o' \<noteq> []) GItems
      (with_cause ''process_path_regex'' (NewProcessPathRegexItem env (o_ProcessPathRegex o'))) IProcessPathRegex) = (o_ProcessPathRegex o' \<noteq> [])"
    using assms by (intro regex_asks) (auto simp: process_steps_def)
  then show ?thesis by (auto simp: process_steps_def)
qed

lemmas other_steps = domain_step_def keyword_steps_def source_cidr_step_def cidr_step_def port_steps_def
  network_steps_def geo_steps_def user_steps_def rule_set_step_def

lemma NewDefaultRule_asks:
  assumes "NewDefaultRule env o' act = Inr r"
  shows "list_ex is_process_item (allItems r) \<longleftrightarrow> isProcessRule o'"
proof -
  note run = assms [unfolded NewDefaultRule_def]
  show ?thesis
    unfolding run_steps_asks [OF run] list_ex_append
    by (subst process_steps_ask [OF run]) (auto simp: other_steps isProcessRule_def)
qed

lemma NewDefaultDNSRule_asks:
  assumes "NewDefaultDNSRule env o' act = Inr r"
  shows "list_ex is_process_item (allItems r) \<longleftrightarrow> isProcessDNSRule o'"
proof -
  note run = assms [unfolded NewDefaultDNSRule_def]
  show ?thesis
    unfolding run_steps_asks [OF run] list_ex_append
    by (subst process_steps_ask [OF run]) (auto simp: other_steps isProcessDNSRule_def)
qed

lemma NewDefaultHeadlessRule_asks:
  assumes "NewDefaultHeadlessRule env mgr o' = Inr r"
  shows "list_ex is_process_item (allItems r) \<longleftrightarrow> isProcessHeadlessRule o'"
proof -
  note run = assms [unfolded NewDefaultHeadlessRule_def]
  show ?thesis
    unfolding run_steps_asks [OF run] list_ex_append
    by (subst process_steps_ask [OF run]) (auto simp: other_steps isProcessHeadlessRule_def)
qed

lemma hasRule_Cons: "hasRule cond (x # xs) = (hasRule cond [x] \<or> hasRule cond xs)"
  by (cases x) auto

definition default_asks :: "('a, 'act) rule_maker \<Rightarrow> (full_options \<Rightarrow> bool) \<Rightarrow> bool" where
  "default_asks M cond \<longleftrightarrow> (\<forall>o' act r. mk_default M o' act = Inr r \<longrightarrow> list_ex is_process_item (allItems r) = cond o')"

lemma new_rule_asks:
  "new_rule M check o' = Ok R \<Longrightarrow> default_asks M cond \<Longrightarrow> asks_process R = hasRule cond [o']"
  "new_sub_rules M i os = Ok Rs \<Longrightarrow> default_asks M cond \<Longrightarrow> list_ex asks_process Rs = hasRule cond os"
proof (induction M check o' and M i os arbitrary: R and Rs rule: new_rule_new_sub_rules.induct)
  case (1 M check o' a)
  then show ?case by (auto simp: asks_process_def default_asks_def split: if_splits res.splits sum.splits)
next
  case (2 M check rs md neg a)
  from "2.prems"(1) obtain act subs where s: "mk_valid M (RouteLogical rs md neg a)" "\<not> target_missing M check a" "mk_action M a = Ok act"
    "md = LogicalTypeAnd \<or> md = LogicalTypeOr" "new_sub_rules M 0 rs = Ok subs" "R = LogicalRule subs md neg act"
    by (auto split: if_splits res.splits)
  have "list_ex asks_process subs = hasRule cond rs"
    using "2.IH" [OF _ s(2,3) _ s(5) "2.prems"(2)] s(1,4) by blast
  with s(6) show ?case by (simp add: asks_process_def)
next
  case (5 M i r rs)
  from "5.prems"(1) obtain x xs where x: "new_rule M False r = Ok x" "new_sub_rules M (i + 1) rs = Ok xs" "Rs = x # xs"
    by (auto split: res.splits)
  with "5.IH"(1) [OF x(1) "5.prems"(2)] "5.IH"(2) [OF x(1,2) "5.prems"(2)] show ?case unfolding hasRule_Cons [of _ r rs] by simp
qed simp_all

lemma NewRule_asks: "NewRule env aenv ok check o' = Ok R \<Longrightarrow> asks_process R = hasRule isProcessRule [o']"
  unfolding NewRule_def by (rule new_rule_asks(1)) (auto simp: default_asks_def NewDefaultRule_asks)

lemma NewDNSRule_asks: "NewDNSRule env aenv ok check o' = Ok R \<Longrightarrow> asks_process R = hasDNSRule isProcessDNSRule [o']"
  unfolding NewDNSRule_def hasDNSRule_def by (rule new_rule_asks(1)) (auto simp: default_asks_def NewDefaultDNSRule_asks)

lemma hasHeadlessRule_Cons: "hasHeadlessRule cond (x # xs) = (hasHeadlessRule cond [x] \<or> hasHeadlessRule cond xs)"
  by (cases x) auto

lemma NewHeadlessRule_asks:
  "NewHeadlessRule A env mgr o' = Ok R \<Longrightarrow> asks_process R = hasHeadlessRule isProcessHeadlessRule [o']"
  "sub_rules A env mgr i os = Ok Rs \<Longrightarrow> list_ex asks_process Rs = hasHeadlessRule isProcessHeadlessRule os"
proof (induction A env mgr o' and A env mgr i os arbitrary: R and Rs rule: NewHeadlessRule_sub_rules.induct)
  case (1 A env mgr o')
  then show ?case by (auto simp: asks_process_def NewDefaultHeadlessRule_asks split: if_splits sum.splits)
next
  case (2 A env mgr rs md neg)
  from "2.prems" obtain subs where s: "sub_rules A env mgr 0 rs = Ok subs" "R = LogicalRule subs md neg ()"
    "HeadlessRule_IsValid A (LogicalOptions rs md neg) = Ok True" "md = LogicalTypeAnd \<or> md = LogicalTypeOr"
    by (auto split: if_splits res.splits bool.splits)
  have "list_ex asks_process subs = hasHeadlessRule isProcessHeadlessRule rs"
    using "2.IH" [OF s(3) refl _ s(1)] s(4) by blast
  with s(2) show ?case by (simp add: asks_process_def)
next
  case (5 A env mgr i r rs)
  then obtain x xs where x: "NewHeadlessRule A env mgr r = Ok x" "sub_rules A env mgr (i + 1) rs = Ok xs" "Rs = x # xs"
    by (auto split: res.splits)
  with 5 show ?case unfolding hasHeadlessRule_Cons [of _ r rs] by simp
qed simp_all

lemma load_rules_asks:
  "load_rules A env mgr i os = Ok Rs \<Longrightarrow> list_ex asks_process Rs = hasHeadlessRule isProcessHeadlessRule os"
proof (induction os arbitrary: i Rs)
  case (Cons r rs)
  then obtain x xs where x: "NewHeadlessRule A env mgr r = Ok x" "load_rules A env mgr (i + 1) rs = Ok xs" "Rs = x # xs"
    by (auto split: res.splits)
  with Cons.IH [OF x(2)] NewHeadlessRule_asks(1) [OF x(1)] show ?case unfolding hasHeadlessRule_Cons [of _ r rs] by simp
qed simp

section \<open>Rule sets and their metadata\<close>

text \<open>What a rule set says about itself is true of its rules.\<close>

definition honest :: "any_rule_set \<Rightarrow> bool" where
  "honest s \<longleftrightarrow> (md_ContainsProcessRule (any_Metadata s) \<longleftrightarrow> list_ex asks_process (any_rules s))"

lemma reloadRules_honest:
  "reloadRules A env mgr hs s = (s', Ok ()) \<Longrightarrow> lrs_ContainsProcessRule s' = list_ex asks_process (lrs_rules s')"
  by (auto simp: reloadRules_def load_rules_asks split: res.splits)

lemma NewLocalRuleSet_honest:
  assumes "NewLocalRuleSet H opts w = Ok s"
  shows "honest (LocalSet s)"
proof (cases "rso_Type opts = RuleSetTypeInline")
  case True
  with assms show ?thesis
    by (auto simp: NewLocalRuleSet_def NewInlineRuleSet_def bindR_Ok honest_def dest!: reloadRules_honest split: if_splits prod.splits res.splits)
next
  case False
  with assms show ?thesis
    by (auto simp: NewLocalRuleSet_def reloadFile_def Let_def honest_def dest!: reloadRules_honest
      split: if_splits prod.splits res.splits option.splits sum.splits)
qed

lemma NewRuleSet_honest: "NewRuleSet H opts w = Ok s \<Longrightarrow> honest s"
  by (auto simp: NewRuleSet_def bindR_Ok NewLocalRuleSet_honest split: if_splits)
    (simp add: honest_def NewRemoteRuleSet_def)

text \<open>
  A property of rule sets that loading keeps and that depends on rules, metadata and references only is kept by
  everything the start does.
\<close>

lemma not_modified_keeps: "not_modified H s cf w = (s', cf', w') \<Longrightarrow>
    rrs_rules s' = rrs_rules s \<and> rrs_metadata s' = rrs_metadata s \<and> rrs_refs s' = rrs_refs s"
  by (auto simp: not_modified_def Let_def split: prod.splits option.splits)

lemma store_content_keeps: "store_content H raw etag s cf w = (s', cf', w') \<Longrightarrow>
    rrs_rules s' = rrs_rules s \<and> rrs_metadata s' = rrs_metadata s \<and> rrs_refs s' = rrs_refs s"
  by (auto simp: store_content_def Let_def split: prod.splits if_splits)

locale set_property =
  fixes H :: "('m, 'g, 'd, 'w) load_env" and Q :: "any_rule_set \<Rightarrow> bool"
  assumes loaded: "loadBytes H raw s = (s', r) \<Longrightarrow> Q (RemoteSet s) \<Longrightarrow> Q (RemoteSet s')"
    and frame: "any_rules y = any_rules x \<Longrightarrow> any_Metadata y = any_Metadata x \<Longrightarrow> any_refs y = any_refs x \<Longrightarrow> Q x \<Longrightarrow> Q y"
begin

lemma remote_frame:
  "rrs_rules s' = rrs_rules s \<and> rrs_metadata s' = rrs_metadata s \<and> rrs_refs s' = rrs_refs s \<Longrightarrow> Q (RemoteSet s) \<Longrightarrow> Q (RemoteSet s')"
  by (rule frame [of "RemoteSet s'" "RemoteSet s"]) auto

lemma fetched:
  assumes "fetch H ctx s cf w = (r, ctx', s', cf', w')" and "Q (RemoteSet s)"
  shows "Q (RemoteSet s')"
  using assms unfolding fetch_def Let_def
  by (auto split: prod.splits option.splits http_result.splits if_splits sum.splits res.splits
    dest: loaded not_modified_keeps store_content_keeps intro: remote_frame)

lemma restored: "restore_cached H cf s = (s', r) \<Longrightarrow> Q (RemoteSet s) \<Longrightarrow> Q (RemoteSet s')"
  by (auto simp: restore_cached_def dest: loaded split: option.splits prod.splits res.splits intro: remote_frame)

lemma remote_started:
  assumes "remote_StartContext H eps outs ctx s cf w = (r, ctx', s', cf', w')" and "Q (RemoteSet s)"
  shows "Q (RemoteSet s')"
proof -
  have d: "Q (RemoteSet (s\<lparr>rrs_dialer := dl\<rparr>))" for dl by (rule remote_frame [OF _ assms(2)]) simp
  have t: "Q (RemoteSet (x\<lparr>rrs_ticker := True\<rparr>))" if "Q (RemoteSet x)" for x by (rule remote_frame [OF _ that]) simp
  show ?thesis
    using assms unfolding remote_StartContext_def
    by (auto split: res.splits prod.splits if_splits intro!: t
      dest: restored [OF _ d] dest!: fetched [OF _ restored [OF _ d]])
qed

lemma any_started:
  assumes "any_StartContext H eps outs we s x = (r, s', x')" and "Q s"
  shows "Q s'"
proof (cases s)
  case (LocalSet l)
  have "ls_set (local_StartContext we l) = ls_set l" by (simp add: local_StartContext_def)
  with assms LocalSet show ?thesis by (auto intro: frame [of _ s])
next
  case (RemoteSet m)
  obtain ctx cf w where x: "x = (ctx, cf, w)" by (cases x)
  with assms RemoteSet show ?thesis by (auto split: prod.splits dest: remote_started)
qed

lemma all_started:
  "start_rule_sets H eps outs we order sets x = (r, sets', x') \<Longrightarrow> \<forall>i \<in> set order. i < length sets \<Longrightarrow> list_all Q sets \<Longrightarrow>
   list_all Q sets' \<and> length sets' = length sets"
proof (induction order arbitrary: sets x)
  case (Cons i js)
  obtain r1 s1 x1 where s1: "any_StartContext H eps outs (we i) (sets ! i) x = (r1, s1, x1)" by (metis prod_cases3)
  have "Q s1" using any_started [OF s1] Cons.prems by (simp add: list_all_length)
  then have "list_all Q (sets[i := s1])" using Cons.prems(2,3) by (auto simp: list_all_length nth_list_update)
  with Cons.prems Cons.IH [of "sets[i := s1]" x1] s1 show ?case by (auto split: res.splits)
qed simp

lemma start_all:
  "start_all_sets H eps outs we order sets cf w = (r, sets', x') \<Longrightarrow> \<forall>i \<in> set order. i < length sets \<Longrightarrow> list_all Q sets \<Longrightarrow>
   list_all Q sets' \<and> length sets' = length sets"
  by (auto simp: start_all_sets_def split: if_splits dest: all_started)

end

interpretation honest_sets: set_property H honest for H
  by unfold_locales (auto simp: loadBytes_def Let_def honest_def load_rules_asks split: res.splits)

interpretation referred_sets: set_property H "\<lambda>s. any_refs s = k" for H k
  by unfold_locales (auto simp: loadBytes_def Let_def split: res.splits)

lemma start_keeps_refs:
  "start_rule_sets H eps outs we order sets x = (r, sets', x') \<Longrightarrow> map any_refs sets' = map any_refs sets"
proof (induction order arbitrary: sets x)
  case (Cons i js)
  obtain r1 s1 x1 where s1: "any_StartContext H eps outs (we i) (sets ! i) x = (r1, s1, x1)" by (metis prod_cases3)
  have "any_refs s1 = any_refs (sets ! i)" using referred_sets.any_started [OF s1] by simp
  then have "map any_refs (sets[i := s1]) = map any_refs sets"
    by (metis list_update_beyond list_update_id map_update not_le_imp_less nth_map)
  with Cons.prems Cons.IH [of "sets[i := s1]" x1] s1 show ?case by (auto split: res.splits)
qed simp

section \<open>Looking for processes\<close>

lemma init_rules_Ok:
  "init_rules new i os r = (r', Ok ()) \<Longrightarrow>
   \<exists>xs. list_all2 (\<lambda>o' x. new o' = Ok x) os xs \<and> r' = r\<lparr>rs_rules := rs_rules r @ xs\<rparr>"
proof (induction new i os r rule: init_rules.induct)
  case (2 new i o' os r)
  then obtain x where x: "new o' = Ok x" "init_rules new (i + 1) os (r\<lparr>rs_rules := rs_rules r @ [x]\<rparr>) = (r', Ok ())"
    by (auto split: res.splits)
  from "2.IH" [OF x] obtain xs where "list_all2 (\<lambda>o' x. new o' = Ok x) os xs" "r' = r\<lparr>rs_rules := rs_rules r @ x # xs\<rparr>" by auto
  with x(1) show ?case by (intro exI [of _ "x # xs"]) auto
qed simp

lemma init_rule_sets_Ok:
  "init_rule_sets new i os r = (r', Ok ()) \<Longrightarrow>
   \<exists>xs m. list_all2 (\<lambda>o' x. new o' = Ok x) os xs \<and> r' = r\<lparr>rs_ruleSets := rs_ruleSets r @ xs, rs_ruleSetMap := m\<rparr>"
proof (induction new i os r rule: init_rule_sets.induct)
  case (1 new i r)
  then show ?case by (intro exI [of _ "[]"] exI [of _ "rs_ruleSetMap r"]) simp
next
  case (2 new i o' os r)
  from "2.prems" obtain x where x: "rs_ruleSetMap r (rso_Tag o') = None" "new o' = Ok x"
    "init_rule_sets new (i + 1) os (r\<lparr>rs_ruleSets := rs_ruleSets r @ [x], rs_ruleSetMap := (rs_ruleSetMap r)(rso_Tag o' \<mapsto> length (rs_ruleSets r))\<rparr>) = (r', Ok ())"
    by (auto split: res.splits if_splits)
  from "2.IH" [OF _ x(2,3)] x(1) obtain xs m where "list_all2 (\<lambda>o' x. new o' = Ok x) os xs"
    "r' = r\<lparr>rs_ruleSets := rs_ruleSets r @ x # xs, rs_ruleSetMap := m\<rparr>" by auto
  with x(2) show ?case by (intro exI [of _ "x # xs"] exI [of _ m]) auto
qed

lemma built_ask:
  assumes "list_all2 (\<lambda>o' x. new o' = Ok x) os xs" and "\<And>o' x. new o' = Ok x \<Longrightarrow> asks_process x = hasRule cond [o']"
  shows "list_ex asks_process xs = hasRule cond os"
  using assms(1)
proof (induction rule: list_all2_induct)
  case (Cons o' os x xs)
  with assms(2) show ?case unfolding hasRule_Cons [of cond o' os] by simp
qed simp

text \<open>
  C24: A router that was built from its options and started looks for the process of a connection exactly when this
  was asked for or when a condition on processes or users is in force: in a route rule, in a DNS rule, or in a rule of a rule set that was
  loaded, at any depth; provided that a way to look for processes exists.
\<close>

theorem router_finds_processes:
  assumes "router_Initialize (NewRule env aenv ok False) (\<lambda>o'. NewRuleSet H o' w0) routeRules sets
      (NewRouter routeRules dnsRules findProcess) = (r1, Ok ())"
    and "list_all2 (\<lambda>o' R. NewDNSRule env daenv dok True o' = Ok R) dnsRules Rd"
    and "router_Start H L eps outs we order platform newSearcher StartStateStart r1 cf w = (r2, Ok (), cf', w')"
    and "\<forall>i \<in> set order. i < length (rs_ruleSets r1)"
    and "platform \<noteq> None \<or> newSearcher = Inr p"
  shows "rs_processSearcher r2 \<noteq> None \<longleftrightarrow>
    findProcess \<or> list_ex asks_process (rs_rules r2) \<or> list_ex asks_process Rd \<or>
    list_ex (\<lambda>s. list_ex asks_process (any_rules s)) (rs_ruleSets r2)"
proof -
  let ?r0 = "NewRouter routeRules dnsRules findProcess"
  obtain ra where ra: "init_rules (NewRule env aenv ok False) 0 routeRules ?r0 = (ra, Ok ())"
    "init_rule_sets (\<lambda>o'. NewRuleSet H o' w0) 0 sets ra = (r1, Ok ())"
    using assms(1) by (auto simp: router_Initialize_def split: prod.splits res.splits)
  obtain xs where xs: "list_all2 (\<lambda>o' x. NewRule env aenv ok False o' = Ok x) routeRules xs" "ra = ?r0\<lparr>rs_rules := xs\<rparr>"
    using init_rules_Ok [OF ra(1)] by (auto simp: NewRouter_def)
  obtain ss m where ss: "list_all2 (\<lambda>o' x. NewRuleSet H o' w0 = Ok x) sets ss" "r1 = ra\<lparr>rs_ruleSets := ss, rs_ruleSetMap := m\<rparr>"
    using init_rule_sets_Ok [OF ra(2)] xs(2) by (auto simp: NewRouter_def)
  have "list_all honest ss" using ss(1) by (induction rule: list_all2_induct) (auto dest: NewRuleSet_honest)
  moreover obtain sets' x' where st: "start_all_sets H eps outs we order ss cf w = (Ok (), sets', x')"
    and r2: "rs_ruleSets r2 = sets'" "rs_rules r2 = xs"
      "rs_processSearcher r2 = find_searcher platform newSearcher (rs_needFindProcess r1 \<or> list_ex (\<lambda>s. md_ContainsProcessRule (any_Metadata s)) sets') None"
    using assms(3) ss(2) xs(2) by (auto simp: router_Start_def router_start_sets_def Let_def NewRouter_def split: prod.splits res.splits)
  ultimately have honest: "list_all honest sets'"
    using honest_sets.start_all [OF st] assms(4) ss(2) by simp
  have "rs_processSearcher r2 \<noteq> None \<longleftrightarrow> rs_needFindProcess r1 \<or> list_ex (\<lambda>s. md_ContainsProcessRule (any_Metadata s)) sets'"
    using r2(3) assms(5) by (auto simp: find_searcher_def split: option.splits)
  moreover have "list_ex asks_process xs = hasRule isProcessRule routeRules"
    using xs(1) by (rule built_ask) (rule NewRule_asks)
  moreover have "list_ex asks_process Rd = hasDNSRule isProcessDNSRule dnsRules"
    unfolding hasDNSRule_def using assms(2) by (rule built_ask) (simp add: NewDNSRule_asks [unfolded hasDNSRule_def])
  moreover have "list_ex (\<lambda>s. md_ContainsProcessRule (any_Metadata s)) sets' = list_ex (\<lambda>s. list_ex asks_process (any_rules s)) sets'"
    using honest by (induction sets') (auto simp: honest_def)
  moreover have "rs_needFindProcess r1 = (hasRule isProcessRule routeRules \<or> hasDNSRule isProcessDNSRule dnsRules \<or> findProcess)"
    using ss(2) xs(2) by (simp add: NewRouter_def)
  ultimately show ?thesis using r2(1,2) by auto
qed

section \<open>References\<close>

lemma post_start_refs: "post_start_rules lookup i xs = Ok (xs', refs) \<Longrightarrow> refs = concat (map rule_tags xs)"
proof (induction lookup i xs arbitrary: xs' refs rule: post_start_rules.induct)
  case (2 lookup i x xs)
  then show ?case by (fastforce simp: bindR_Ok split: res.splits dest: rule_Start_refs(1))
qed simp

lemma any_IncRef_simps [simp]:
  "any_refs (any_IncRef s) = any_refs s + 1" "any_rules (any_IncRef s) = any_rules s"
  by (cases s; simp add: LocalRuleSet_IncRef_def remote_IncRef_def)+

lemma any_Cleanup_rules: "any_rules (any_Cleanup s) = (if any_refs s = 0 then [] else any_rules s)"
  by (cases s) (simp_all add: LocalRuleSet_Cleanup_def remote_Cleanup_def)

text \<open>The map leads to different positions of the slice.\<close>

definition map_ok :: "'p router_state \<Rightarrow> bool" where
  "map_ok r \<longleftrightarrow> (\<forall>t i. rs_ruleSetMap r t = Some i \<longrightarrow> i < length (rs_ruleSets r)) \<and>
     (\<forall>t u i. rs_ruleSetMap r t = Some i \<longrightarrow> rs_ruleSetMap r u = Some i \<longrightarrow> t = u)"

lemma take_refs_step:
  assumes "map_ok r" and "rs_ruleSetMap r t = Some i"
  shows "rs_ruleSetMap (take_refs tags r) = rs_ruleSetMap r \<and> length (rs_ruleSets (take_refs tags r)) = length (rs_ruleSets r) \<and>
    any_refs (rs_ruleSets (take_refs tags r) ! i) = any_refs (rs_ruleSets r ! i) + int (count_list tags t) \<and>
    any_rules (rs_ruleSets (take_refs tags r) ! i) = any_rules (rs_ruleSets r ! i)"
  using assms
proof (induction tags arbitrary: r)
  case (Cons u tags)
  show ?case
  proof (cases "rs_ruleSetMap r u")
    case None
    with Cons show ?thesis by (auto simp: take_refs_def)
  next
    case (Some j)
    let ?r = "r\<lparr>rs_ruleSets := (rs_ruleSets r)[j := any_IncRef (rs_ruleSets r ! j)]\<rparr>"
    have ok: "map_ok ?r" using Cons.prems(1) by (simp add: map_ok_def)
    have eq: "take_refs (u # tags) r = take_refs tags ?r" using Some by (simp add: take_refs_def)
    have i: "i < length (rs_ruleSets r)" and ij: "i = j \<longleftrightarrow> u = t"
      using Cons.prems Some unfolding map_ok_def by (blast, auto)
    from Cons.IH [OF ok] Cons.prems(2) show ?thesis unfolding eq using i ij
      by (cases "u = t") (auto simp: nth_list_update)
  qed
qed (simp add: take_refs_def)

lemma init_rule_sets_ok:
  "init_rule_sets new i os r = (r', e) \<Longrightarrow> map_ok r \<Longrightarrow> map_ok r'"
proof (induction new i os r rule: init_rule_sets.induct)
  case (2 new i o' os r)
  show ?case
  proof (cases "rs_ruleSetMap r (rso_Tag o') = None \<and> (\<exists>x. new o' = Ok x)")
    case True
    then obtain x where x: "rs_ruleSetMap r (rso_Tag o') = None" "new o' = Ok x" by auto
    let ?r = "r\<lparr>rs_ruleSets := rs_ruleSets r @ [x], rs_ruleSetMap := (rs_ruleSetMap r)(rso_Tag o' \<mapsto> length (rs_ruleSets r))\<rparr>"
    have "map_ok ?r" using "2.prems"(2) x(1) by (fastforce simp: map_ok_def less_Suc_eq)
    with 2 x show ?thesis by auto
  qed (use 2 in \<open>auto split: res.splits if_splits\<close>)
qed simp

lemma NewRuleSet_unused: "NewRuleSet H opts w = Ok s \<Longrightarrow> any_refs s = 0"
proof -
  have "reloadRules A env mgr hs x = (x', r) \<Longrightarrow> lrs_refs x' = lrs_refs x" for A env mgr hs x x' r
    by (auto simp: reloadRules_def split: res.splits)
  then show "NewRuleSet H opts w = Ok s \<Longrightarrow> any_refs s = 0"
    by (fastforce simp: NewRuleSet_def NewLocalRuleSet_def NewInlineRuleSet_def NewRemoteRuleSet_def reloadFile_def bindR_Ok Let_def
      split: if_splits prod.splits res.splits sum.splits option.splits)
qed

text \<open>
  C20: After the stages of the start a rule set that is referred to, by a route rule or by the DNS rules, which take their references before, has
  the rules it was started with, and every other one has none.
\<close>

theorem used_rule_sets_stay:
  assumes "router_Initialize newRule (\<lambda>o'. NewRuleSet H o' w0) routeRules sets (NewRouter opts dnsRules findProcess) = (r1, Ok ())"
    and "router_Start H L eps outs we order platform newSearcher StartStateStart (take_refs dnsTags r1) cf w = (r2, Ok (), cf', w')"
    and "router_Start H L eps outs we order platform newSearcher StartStatePostStart r2 cf' w' = (r3, Ok (), cf2, w2)"
    and "router_Start H L eps outs we order platform newSearcher StartStateStarted r3 cf2 w2 = (r4, Ok (), cf3, w3)"
    and "rs_ruleSetMap r1 t = Some i"
  shows "router_RuleSet r4 t = Some (rs_ruleSets r4 ! i) \<and>
    any_rules (rs_ruleSets r4 ! i) =
      (if t \<in> set dnsTags \<or> t \<in> set (concat (map rule_tags (rs_rules r2))) then any_rules (rs_ruleSets r2 ! i) else [])"
proof -
  obtain ra where ra: "init_rules newRule 0 routeRules (NewRouter opts dnsRules findProcess) = (ra, Ok ())"
    "init_rule_sets (\<lambda>o'. NewRuleSet H o' w0) 0 sets ra = (r1, Ok ())"
    using assms(1) by (auto simp: router_Initialize_def split: prod.splits res.splits)
  have ra0: "rs_ruleSets ra = []" "rs_ruleSetMap ra = Map.empty" using init_rules_Ok [OF ra(1)] by (auto simp: NewRouter_def)
  obtain ss m where ss: "list_all2 (\<lambda>o' x. NewRuleSet H o' w0 = Ok x) sets ss" "r1 = ra\<lparr>rs_ruleSets := ss, rs_ruleSetMap := m\<rparr>"
    using init_rule_sets_Ok [OF ra(2)] ra0(1) by auto
  have ok1: "map_ok r1" using init_rule_sets_ok [OF ra(2)] ra0 by (simp add: map_ok_def)
  have i: "i < length (rs_ruleSets r1)" using ok1 assms(5) by (simp add: map_ok_def)
  have un1: "any_refs (rs_ruleSets r1 ! i) = 0"
    using ss i by (auto simp: list_all2_conv_all_nth intro: NewRuleSet_unused)
  let ?ra = "take_refs dnsTags r1"
  note sa = take_refs_step [OF ok1 assms(5), of dnsTags]
  obtain sets' x' where st: "start_all_sets H eps outs we order (rs_ruleSets ?ra) cf w = (Ok (), sets', x')"
    and r2: "rs_ruleSets r2 = sets'" "rs_ruleSetMap r2 = rs_ruleSetMap ?ra"
    using assms(2) by (auto simp: router_Start_def router_start_sets_def Let_def split: prod.splits res.splits)
  have same: "map any_refs (rs_ruleSets r2) = map any_refs (rs_ruleSets ?ra)"
    using st r2(1) by (auto simp: start_all_sets_def split: if_splits dest: start_keeps_refs)
  then have len: "length (rs_ruleSets r2) = length (rs_ruleSets r1)" using sa by (metis length_map)
  have ok2: "map_ok r2" and t2: "rs_ruleSetMap r2 t = Some i" using ok1 sa r2(2) len assms(5) by (auto simp: map_ok_def)
  have z: "any_refs (rs_ruleSets r2 ! i) = int (count_list dnsTags t)"
    using arg_cong [OF same, of "\<lambda>xs. xs ! i"] sa un1 i len by simp
  obtain xs refs where ps: "post_start_rules (\<lambda>t. map_option (any_view L (le_rule H)) (router_RuleSet r2 t)) 0 (rs_rules r2) = Ok (xs, refs)"
    and r3: "rs_ruleSets r3 = rs_ruleSets (take_refs refs r2)" "rs_ruleSetMap r3 = rs_ruleSetMap (take_refs refs r2)"
    using assms(3) by (auto simp: router_Start_def router_post_start_def split: prod.splits res.splits)
  note refs = post_start_refs [OF ps]
  note s3 = take_refs_step [OF ok2 t2, of refs]
  have r4: "rs_ruleSets r4 = map any_Cleanup (rs_ruleSets r3)" "rs_ruleSetMap r4 = rs_ruleSetMap r3"
    using assms(4) by (auto simp: router_Start_def router_cleanup_def)
  have "any_rules (rs_ruleSets r4 ! i) = (if count_list dnsTags t = 0 \<and> count_list refs t = 0 then [] else any_rules (rs_ruleSets r2 ! i))"
    using r4(1) s3 r3 i len z by (simp add: any_Cleanup_rules)
  moreover have "router_RuleSet r4 t = Some (rs_ruleSets r4 ! i)" using r4(2) r3(2) s3 t2 by (simp add: router_RuleSet_def)
  ultimately show ?thesis using refs by (auto simp: count_list_0_iff)
qed

section \<open>Witnesses\<close>

definition demo_aenv :: "unit action_env" where
  "demo_aenv = \<lparr>M_ParseSocksaddrHostPort = (\<lambda>h p. \<lparr>sa_Addr = AddrNone, sa_Port = p, sa_Fqdn = h\<rparr>), Socksaddr_IsValid = (\<lambda>_. True),
     Socksaddr_AddrString = sa_Fqdn, dialer_New = (\<lambda>_. Inr 0), Descriptions_of = (\<lambda>_. []), Duration_String = (\<lambda>_. []),
     Prefix_String = (\<lambda>_. []), Rcode_String = (\<lambda>_. []), A_ToString = (\<lambda>_. [])\<rparr>"

definition apps_options :: rule_set_options where
  "apps_options = \<lparr>rso_Type = ''inline'', rso_Tag = ''apps'', rso_Format = [],
     rso_Rules = [DefaultOptions (empty_headless\<lparr>o_ProcessName := [''curl'']\<rparr>)], rso_Path = [],
     rso_URL = [], rso_Detour = [], rso_UpdateInterval = 0\<rparr>"

definition apps_rule :: "unit rule" where
  "apps_rule = DefaultRule ((empty_rule False ())\<lparr>items := [IProcess (NewProcessItem [''curl''])],
     allItems := [IProcess (NewProcessItem [''curl''])]\<rparr>)"

definition apps_set :: any_rule_set where
  "apps_set = LocalSet \<lparr>ls_set = \<lparr>lrs_tag = ''apps'', lrs_rules = [apps_rule], lrs_ContainsProcessRule = True, lrs_ContainsWIFIRule = False,
     lrs_ContainsIPCIDRRule = False, lrs_refs = 0\<rparr>, ls_format = [], ls_watcher = None, ls_watching = False\<rparr>"

lemma apps_built: "NewRuleSet demo_load apps_options 0 = Ok apps_set"
proof -
  have "NewHeadlessRule A env mgr (DefaultOptions (empty_headless\<lparr>o_ProcessName := [''curl'']\<rparr>)) = Ok apps_rule" for A env mgr
    by (simp add: apps_rule_def build_eval)
  then show ?thesis
    by (simp add: NewRuleSet_def NewLocalRuleSet_def NewInlineRuleSet_def reloadRules_def apps_options_def apps_set_def
      RuleSetTypeInline_def isProcessHeadlessRule_def isWIFIHeadlessRule_def isIPCIDRHeadlessRule_def Let_def
      del: NewHeadlessRule.simps)
     (simp add: build_eval)
qed

definition apps_router :: "unit router_state" where
  "apps_router = (NewRouter ([] :: unit RuleActionOptions route_options list) [] False)\<lparr>rs_ruleSets := [apps_set], rs_ruleSetMap := [''apps'' \<mapsto> 0]\<rparr>"

lemma apps_initialized:
  "router_Initialize (NewRule demo_net_env demo_aenv (\<lambda>_. True) False) (\<lambda>o'. NewRuleSet demo_load o' 0) [] [apps_options]
     (NewRouter ([] :: unit RuleActionOptions route_options list) [] False) = (apps_router, Ok ())"
proof -
  have "rso_Tag apps_options = ''apps''" by (simp add: apps_options_def)
  then show ?thesis by (simp add: router_Initialize_def apps_built NewRouter_def apps_router_def)
qed

lemma apps_started:
  "router_Start demo_load loops_ref eps outs (\<lambda>_. None) [0] (Some ()) (Inr ()) StartStateStart apps_router None w =
     (apps_router\<lparr>rs_processSearcher := Some ()\<rparr>, Ok (), None, w)"
  by (simp add: router_Start_def router_start_sets_def start_all_sets_def apps_router_def apps_set_def local_StartContext_def
    find_searcher_def NewRouter_def hasDNSRule_def)

theorem router_finds_processes_witness:
  "\<exists>r2. router_Start demo_load loops_ref (endpoint_NewManager) (outbound_NewManager []) (\<lambda>_. None) [0] (Some ()) (Inr ()) StartStateStart
       apps_router None 0 = (r2, Ok (), None, 0) \<and> rs_processSearcher r2 \<noteq> None"
proof -
  let ?r2 = "apps_router\<lparr>rs_processSearcher := Some ()\<rparr>"
  have "list_all2 (\<lambda>o' R. NewDNSRule demo_net_env demo_aenv (\<lambda>_. True) True o' = Ok R) [] []" by simp
  moreover have "\<forall>i \<in> set [0 :: nat]. i < length (rs_ruleSets apps_router)" by (simp add: apps_router_def)
  moreover have "list_ex (\<lambda>s. list_ex asks_process (any_rules s)) (rs_ruleSets ?r2)"
    by (simp add: apps_router_def apps_set_def apps_rule_def asks_process_def)
  ultimately have "rs_processSearcher ?r2 \<noteq> None"
    using router_finds_processes [OF apps_initialized _ apps_started] by blast
  with apps_started show ?thesis by blast
qed

theorem used_rule_sets_stay_witness:
  "\<exists>r4. router_Start demo_load loops_ref (endpoint_NewManager) (outbound_NewManager []) (\<lambda>_. None) [0] (Some ()) (Inr ()) StartStateStarted
      ((take_refs [''apps''] apps_router)\<lparr>rs_processSearcher := Some (), rs_started := True\<rparr>) None 0 = (r4, Ok (), None, 0) \<and>
    any_rules (rs_ruleSets r4 ! 0) = [apps_rule]"
proof -
  let ?r1 = "take_refs [''apps''] apps_router"
  let ?r2 = "?r1\<lparr>rs_processSearcher := Some ()\<rparr>" and ?r3 = "?r1\<lparr>rs_processSearcher := Some (), rs_started := True\<rparr>"
  have r: "rs_rules ?r1 = []" by (simp add: apps_router_def NewRouter_def take_refs_def)
  have s: "router_Start demo_load loops_ref eps outs (\<lambda>_. None) [0] (Some ()) (Inr ()) StartStateStart ?r1 None 0 = (?r2, Ok (), None, 0)" for eps outs
    by (simp add: router_Start_def router_start_sets_def start_all_sets_def apps_router_def apps_set_def local_StartContext_def
      find_searcher_def NewRouter_def hasDNSRule_def take_refs_def LocalRuleSet_IncRef_def)
  have p: "router_Start demo_load loops_ref eps outs (\<lambda>_. None) [0] (Some ()) (Inr ()) StartStatePostStart ?r2 None 0 = (?r3, Ok (), None, 0)" for eps outs
    using r by (simp add: router_Start_def router_post_start_def take_refs_def)
  have i: "rs_ruleSetMap apps_router ''apps'' = Some 0" by (simp add: apps_router_def)
  have c: "router_Start demo_load loops_ref eps outs (\<lambda>_. None) [0] (Some ()) (Inr ()) StartStateStarted ?r3 None 0 =
      (router_cleanup ?r3, Ok (), None, 0)" for eps outs
    by (simp add: router_Start_def)
  have "any_rules (rs_ruleSets ?r2 ! 0) = [apps_rule]" by (simp add: apps_router_def apps_set_def take_refs_def LocalRuleSet_IncRef_def)
  with used_rule_sets_stay [OF apps_initialized s p c i] c show ?thesis by auto
qed

end
