(* ===== verification/Text_Lines.thy ===== *)
theory Text_Lines
  imports Srs
begin

text \<open>
  Reading text files line by line, as \<open>core/dns/transport/hosts/hosts_file.go\<close> and
  \<open>core/dns/transport/local/resolv_unix.go\<close> do it: \<open>ReadLine\<close> of a \<open>bufio.Reader\<close>, which cuts long lines into pieces, the loop
  that joins the pieces again, and \<open>strings.Fields\<close>.  The loop is compared with cutting the text at its
  line feeds.
\<close>

section \<open>Package bufio\<close>

definition defaultBufSize :: nat where
  "defaultBufSize = 4096"

definition LF :: char where "LF = CHR 0x0A"
definition CR :: char where "CR = CHR 0x0D"

text \<open>The end of a line that \<open>ReadLine\<close> drops with the line feed.\<close>

definition drop_CR :: "string \<Rightarrow> string" where
  "drop_CR l = (if l \<noteq> [] \<and> last l = CR then butlast l else l)"

text \<open>
  \<open>ReadLine\<close> of a reader with a buffer of \<open>B\<close> bytes: the line, whether more of it follows, and the rest.  A carriage return at
  the end of a full buffer is put back, since a line feed may follow.
\<close>

definition ReadLine :: "nat \<Rightarrow> rd \<Rightarrow> go_error + (string \<times> bool \<times> rd)" where
  "ReadLine B r =
     (let d = rd_data r; l = takeWhile (\<lambda>c. c \<noteq> LF) (take B d) in
      if d = [] then Inl (rd_end r)
      else if LF \<in> set (take B d) then Inr (drop_CR l, False, r\<lparr>rd_data := drop (length l + 1) d\<rparr>)
      else if length d < B then Inr (d, False, r\<lparr>rd_data := []\<rparr>)
      else let p = drop_CR (take B d) in Inr (p, True, r\<lparr>rd_data := drop (length p) d\<rparr>))"

text \<open>The loop of both sources up to the line: the lines it works on, and the error that ends it.\<close>

lemma ReadLine_shrinks:
  assumes "ReadLine B r = Inr (l, b, r')" and "1 < B"
  shows "length (rd_data r') < length (rd_data r)"
proof -
  have "0 < length (drop_CR (take B (rd_data r)))" if "\<not> length (rd_data r) < B"
  proof -
    have "length (butlast (take B (rd_data r))) = B - 1" using that by simp
    then show ?thesis using that assms(2) by (auto simp: drop_CR_def simp del: length_butlast)
  qed
  then show ?thesis using assms(1)
    by (auto simp: ReadLine_def Let_def split: if_splits)
qed

function (sequential) read_lines :: "nat \<Rightarrow> string \<Rightarrow> rd \<Rightarrow> string list \<times> go_error" where
  "read_lines B prefix r =
     (if B \<le> 1 then ([], rd_end r) else
      case ReadLine B r of
        Inl e \<Rightarrow> ([], e)
      | Inr (l, isPrefix, r') \<Rightarrow>
          if isPrefix then read_lines B (prefix @ l) r'
          else case read_lines B [] r' of (ls, e) \<Rightarrow> ((prefix @ l) # ls, e))"
  by pat_completeness auto
termination
  by (relation "measure (\<lambda>(B, prefix, r). length (rd_data r))") (auto dest: ReadLine_shrinks)

declare read_lines.simps [simp del]

definition file_lines :: "rd \<Rightarrow> string list \<times> go_error" where
  "file_lines r = read_lines defaultBufSize [] r"

section \<open>Package strings\<close>

text \<open>
  The length of the white space at the front of a string in bytes: one of the six ASCII characters, or one of the code points
  that \<open>unicode.IsSpace\<close> knows, in UTF-8.  The first byte of such a sequence occurs in no other.
\<close>

definition ascii_space :: "char \<Rightarrow> bool" where
  "ascii_space c = (let n = of_char c :: nat in n = 32 \<or> (9 \<le> n \<and> n \<le> 13))"

fun space_len :: "string \<Rightarrow> nat" where
  "space_len [] = 0"
| "space_len (a # s) =
     (if ascii_space a then 1
      else let n = of_char a :: nat; ns = map of_char (take 2 s) :: nat list in
        if n = 0xC2 \<and> take 1 ns \<in> {[0x85], [0xA0]} then 2
        else if n = 0xE1 \<and> ns = [0x9A, 0x80] then 3
        else if n = 0xE2 \<and> (case ns of [m, k] \<Rightarrow> m = 0x80 \<and> ((0x80 \<le> k \<and> k \<le> 0x8A) \<or> k \<in> {0xA8, 0xA9, 0xAF}) | _ \<Rightarrow> False) then 3
        else if n = 0xE2 \<and> ns = [0x81, 0x9F] then 3
        else if n = 0xE3 \<and> ns = [0x80, 0x80] then 3
        else 0)"

text \<open>\<open>strings.Fields\<close>: \<open>w\<close> is the field that is being read.\<close>

function (sequential) fields_loop :: "string \<Rightarrow> string \<Rightarrow> string list" where
  "fields_loop w [] = (if w = [] then [] else [w])"
| "fields_loop w (c # s) =
     (if space_len (c # s) = 0 then fields_loop (w @ [c]) s
      else (if w = [] then [] else [w]) @ fields_loop [] (drop (space_len (c # s)) (c # s)))"
  by pat_completeness auto
termination
  by (relation "measure (\<lambda>(w, s). length s)") auto

definition strings_Fields :: "string \<Rightarrow> string list" where
  "strings_Fields s = fields_loop [] s"

section \<open>The loop and the line feeds\<close>

text \<open>A text cut at its line feeds; what follows the last one is a line unless it is empty.\<close>

fun text_lines :: "string \<Rightarrow> string \<Rightarrow> string list" where
  "text_lines w [] = (if w = [] then [] else [w])"
| "text_lines w (c # s) = (if c = LF then drop_CR w # text_lines [] s else text_lines (w @ [c]) s)"

text \<open>The length of what follows the last line feed.\<close>

definition tail_length :: "string \<Rightarrow> nat" where
  "tail_length s = length (takeWhile (\<lambda>c. c \<noteq> LF) (rev s))"

lemma text_lines_run: "LF \<notin> set a \<Longrightarrow> text_lines w (a @ s) = text_lines (w @ a) s"
  by (induction a arbitrary: w) auto

lemma tail_length_whole: "LF \<notin> set s \<Longrightarrow> tail_length s = length s"
  unfolding tail_length_def by (subst takeWhile_eq_all_conv [THEN iffD2]) auto

lemma tail_length_LF: "tail_length (a @ LF # s) = tail_length s"
proof (cases "LF \<in> set s")
  case True
  then show ?thesis by (auto simp: tail_length_def takeWhile_append)
next
  case False
  then have "takeWhile (\<lambda>c. c \<noteq> LF) (rev s @ LF # rev a) = rev s @ takeWhile (\<lambda>c. c \<noteq> LF) (LF # rev a)"
    by (intro takeWhile_append2) auto
  then show ?thesis using tail_length_whole [OF False] by (simp add: tail_length_def)
qed

lemma tail_length_run: "LF \<notin> set a \<Longrightarrow> LF \<in> set s \<Longrightarrow> tail_length (a @ s) = tail_length s"
  by (auto simp: tail_length_def takeWhile_append)

lemma drop_CR_append: "l \<noteq> [] \<Longrightarrow> drop_CR (p @ l) = p @ drop_CR l"
  by (auto simp: drop_CR_def butlast_append)

text \<open>
  The loop does not depend on the size of the buffer: the lines are those between the line feeds, as long as what follows the last
  line feed fits into the buffer.
\<close>

lemma ReadLine_LF:
  assumes "d = l @ LF # s" and "LF \<notin> set l" and "length l < B"
  shows "ReadLine B \<lparr>rd_data = d, rd_end = e\<rparr> = Inr (drop_CR l, False, \<lparr>rd_data = s, rd_end = e\<rparr>)"
proof -
  obtain n where n: "B = length l + Suc n" using assms(3) less_iff_Suc_add by auto
  have "take B d = l @ LF # take n s" using assms(1) by (simp add: n)
  moreover have "takeWhile (\<lambda>c. c \<noteq> LF) (l @ LF # take n s) = l" using assms(2) by (auto simp: takeWhile_append)
  ultimately show ?thesis using assms(1) by (simp add: ReadLine_def Let_def)
qed

lemma first_LF:
  assumes "LF \<in> set (take B d)"
  obtains l s where "d = l @ LF # s" and "LF \<notin> set l" and "length l < B"
proof -
  from split_list_first [OF assms] obtain l u where u: "take B d = l @ LF # u" "LF \<notin> set l" by blast
  then have "d = l @ LF # (u @ drop B d)" by (metis append.assoc append_Cons append_take_drop_id)
  moreover from u(1) have "length l < B" by (metis add_lessD1 length_append length_take length_Cons less_add_Suc1 min_less_iff_conj plus_1_eq_Suc add_Suc_right)
  ultimately show ?thesis using that u(2) by blast
qed

lemma drop_CR_LF_free: "LF \<notin> set l \<Longrightarrow> LF \<notin> set (drop_CR l)"
  by (auto simp: drop_CR_def dest: in_set_butlastD)

lemma read_lines_text:
  assumes "1 < B" and "tail_length d < B" and "prefix = [] \<or> LF \<in> set d"
    and "drop_CR prefix = prefix \<or> (d \<noteq> [] \<and> hd d = CR)"
  shows "read_lines B prefix \<lparr>rd_data = d, rd_end = e\<rparr> = (text_lines prefix d, e)"
  using assms
proof (induction "length d" arbitrary: prefix d rule: less_induct)
  case less
  consider (none) "d = []" | (line) "LF \<in> set (take B d)" | (rest) "d \<noteq> []" "LF \<notin> set d" "length d < B"
    | (piece) "LF \<notin> set (take B d)" "B \<le> length d"
    by (metis linorder_not_less take_all less_imp_le)
  then show ?case
  proof cases
    case none
    then show ?thesis using less.prems by (simp add: read_lines.simps [of B] ReadLine_def)
  next
    case line
    then obtain l s where d: "d = l @ LF # s" "LF \<notin> set l" "length l < B" by (rule first_LF)
    have "drop_CR (prefix @ l) = prefix @ drop_CR l"
      using less.prems(4) d(1) by (cases "l = []") (auto simp: drop_CR_append LF_def CR_def drop_CR_def [of "[]"])
    moreover have "read_lines B [] \<lparr>rd_data = s, rd_end = e\<rparr> = (text_lines [] s, e)"
      using less.prems(1,2) d(1) by (intro less.hyps) (auto simp: tail_length_LF drop_CR_def)
    ultimately show ?thesis
      using less.prems(1) d(2) ReadLine_LF [OF d, of e] by (simp add: read_lines.simps [of B prefix "\<lparr>rd_data = d, rd_end = e\<rparr>"]) (simp add: d(1) text_lines_run)
  next
    case rest
    then have "prefix = []" using less.prems(3) by simp
    moreover have "read_lines B [] \<lparr>rd_data = [], rd_end = e\<rparr> = ([], e)"
      using less.prems(1) by (simp add: read_lines.simps [of B] ReadLine_def)
    moreover have "ReadLine B \<lparr>rd_data = d, rd_end = e\<rparr> = Inr (d, False, \<lparr>rd_data = [], rd_end = e\<rparr>)"
      using rest by (simp add: ReadLine_def Let_def)
    ultimately show ?thesis
      using less.prems(1) rest text_lines_run [of d "[]" "[]"] by (simp add: read_lines.simps [of B "[]" "\<lparr>rd_data = d, rd_end = e\<rparr>"])
  next
    case piece
    define p where "p = drop_CR (take B d)"
    define q where "q = drop (length p) d"
    have "take B d \<noteq> []" using piece less.prems(1) by auto
    obtain c where c: "take B d = p @ c" "c = [] \<or> c = [CR]"
      unfolding p_def drop_CR_def using append_butlast_last_id [OF \<open>take B d \<noteq> []\<close>] by (metis append_Nil2)
    have d: "d = p @ q" unfolding q_def by (metis append_eq_conv_conj append_take_drop_id c(1) append.assoc)
    have "length (p @ c) = B" using c(1) piece(2) by (metis length_take min.absorb2)
    then have p: "p \<noteq> []" using less.prems(1) c(2) by auto
    have free: "LF \<notin> set p" using piece(1) by (metis p_def drop_CR_LF_free)
    have "LF \<in> set d" using less.prems(2) piece(2) tail_length_whole [of d] by force
    then have q: "LF \<in> set q" using free by (simp add: d)
    have "drop_CR (prefix @ p) = prefix @ p \<or> (q \<noteq> [] \<and> hd q = CR)"
    proof (cases "c = []")
      case True
      then have "drop_CR p = p" using c(1) p_def by simp
      then show ?thesis using p by (simp add: drop_CR_append)
    next
      case False
      then have "take B d = p @ [CR]" using c by simp
      then have "q = CR # drop B d" unfolding q_def using append_take_drop_id [of B d] by (metis append.assoc append_Cons append_Nil append_eq_conv_conj)
      then show ?thesis by simp
    qed
    moreover have "tail_length q < B" using less.prems(2) tail_length_run [OF free q] by (simp add: d)
    ultimately have "read_lines B (prefix @ p) \<lparr>rd_data = q, rd_end = e\<rparr> = (text_lines (prefix @ p) q, e)"
      using p q less.prems(1) by (intro less.hyps) (auto simp: d)
    moreover have "ReadLine B \<lparr>rd_data = d, rd_end = e\<rparr> = Inr (p, True, \<lparr>rd_data = q, rd_end = e\<rparr>)"
      using piece less.prems(1) by (auto simp: ReadLine_def Let_def p_def q_def)
    moreover have "text_lines prefix d = text_lines (prefix @ p) q" using free by (simp add: d text_lines_run)
    ultimately show ?thesis using less.prems(1) by (simp add: read_lines.simps [of B prefix])
  qed
qed

lemma file_lines_text:
  "tail_length d < defaultBufSize \<Longrightarrow> file_lines \<lparr>rd_data = d, rd_end = e\<rparr> = (text_lines [] d, e)"
  unfolding file_lines_def by (intro read_lines_text) (auto simp: defaultBufSize_def drop_CR_def)

text \<open>A last line without a line feed that fills the buffer exactly is lost: its piece waits for more, and the end of the file comes first.\<close>

lemma full_last_line_lost:
  "file_lines \<lparr>rd_data = replicate defaultBufSize CHR ''x'', rd_end = e\<rparr> = ([], e)"
proof -
  let ?d = "replicate defaultBufSize CHR ''x''"
  have "last ?d = CHR ''x''" by (simp add: defaultBufSize_def)
  then have "drop_CR ?d = ?d" by (simp add: drop_CR_def CR_def)
  then have "ReadLine defaultBufSize \<lparr>rd_data = ?d, rd_end = e\<rparr> = Inr (?d, True, \<lparr>rd_data = [], rd_end = e\<rparr>)"
    by (simp add: ReadLine_def Let_def LF_def) (simp add: defaultBufSize_def)
  moreover have "read_lines defaultBufSize p \<lparr>rd_data = [], rd_end = e\<rparr> = ([], e)" for p
    by (simp add: read_lines.simps [of defaultBufSize] ReadLine_def)
  ultimately show ?thesis
    unfolding file_lines_def by (subst read_lines.simps) (simp add: defaultBufSize_def)
qed

end
