(* ===== verification/Dns_Hosts.thy ===== *)
theory Dns_Hosts
  imports Text_Lines Dns_Client_Properties Fakeip_Store "HOL-Library.AList"
begin

text \<open>
  The DNS transports that answer without a server: \<open>core/dns/transport/hosts\<close>, names from files and from the options, and
  \<open>core/dns/transport/fakeip/fakeip.go\<close>, fake addresses from the store.  The files are reread when their time or size
  changed, which is looked at every five seconds.  \<open>hosts_env\<close> is the file system and the parser of addresses at one moment.
\<close>

section \<open>Files\<close>

record hosts_env =
  he_Stat :: "string \<Rightarrow> go_error + (int \<times> int)"
  he_Open :: "string \<Rightarrow> go_error + rd"
  he_ParseAddr :: "string \<Rightarrow> go_error + addr"
  he_CanonicalName :: "string \<Rightarrow> string"

definition cacheMaxAge :: int where
  "cacheMaxAge = 5 * 10 ^ 9"

text \<open>The map of names is an association list; the zero time is 0.\<close>

record hosts_File =
  hf_path :: string
  hf_byName :: "(string \<times> addr list) list"
  hf_expire :: int
  hf_modTime :: int
  hf_size :: int

definition NewFile :: "string \<Rightarrow> hosts_File" where
  "NewFile path = \<lparr>hf_path = path, hf_byName = [], hf_expire = 0, hf_modTime = 0, hf_size = 0\<rparr>"

definition names_of :: "(string \<times> addr list) list \<Rightarrow> string \<Rightarrow> addr list" where
  "names_of m n = (case map_of m n of None \<Rightarrow> [] | Some xs \<Rightarrow> xs)"

fun add_names :: "hosts_env \<Rightarrow> addr \<Rightarrow> string list \<Rightarrow> (string \<times> addr list) list \<Rightarrow> (string \<times> addr list) list" where
  "add_names E a [] m = m"
| "add_names E a (field # fs) m =
     (let canonicalName = he_CanonicalName E field in
      add_names E a fs (AList.update canonicalName (names_of m canonicalName @ [a]) m))"

text \<open>The part of a line before its comment.\<close>

definition uncommented :: "string \<Rightarrow> string" where
  "uncommented line =
     (let commentIndex = strings_Index line ''#'' in if commentIndex \<noteq> -1 then take (nat commentIndex) line else line)"

definition add_line :: "hosts_env \<Rightarrow> string \<Rightarrow> (string \<times> addr list) list \<Rightarrow> (string \<times> addr list) list" where
  "add_line E line m =
     (let fields = strings_Fields (uncommented line) in
      if length fields < 2 then m
      else case he_ParseAddr E (hd fields) of Inl e \<Rightarrow> m | Inr a \<Rightarrow> add_names E a (tl fields) m)"

text \<open>The loop over the lines; an error other than the end of the file gives nothing.\<close>

definition read_hosts :: "hosts_env \<Rightarrow> rd \<Rightarrow> (string \<times> addr list) list option" where
  "read_hosts E r =
     (case file_lines r of (ls, e) \<Rightarrow> if e = ioEOF then Some (fold (add_line E) ls []) else None)"

definition file_update :: "hosts_env \<Rightarrow> int \<Rightarrow> hosts_File \<Rightarrow> hosts_File" where
  "file_update E now f =
     (if now < hf_expire f \<and> length (hf_byName f) > 0 then f
      else case he_Stat E (hf_path f) of
        Inl e \<Rightarrow> f
      | Inr (modTime, size') \<Rightarrow>
          if hf_modTime f = modTime \<and> hf_size f = size' then f\<lparr>hf_expire := now + cacheMaxAge\<rparr>
          else case he_Open E (hf_path f) of
            Inl e \<Rightarrow> f
          | Inr r \<Rightarrow>
              case read_hosts E r of
                None \<Rightarrow> f
              | Some byName \<Rightarrow> f\<lparr>hf_expire := now + cacheMaxAge, hf_modTime := modTime, hf_size := size', hf_byName := byName\<rparr>)"

definition file_Lookup :: "hosts_env \<Rightarrow> int \<Rightarrow> string \<Rightarrow> hosts_File \<Rightarrow> addr list \<times> hosts_File" where
  "file_Lookup E now name f =
     (let f' = file_update E now f in (names_of (hf_byName f') (he_CanonicalName E name), f'))"

section \<open>The transport for hosts files\<close>

definition DefaultPath :: string where
  "DefaultPath = ''/etc/hosts''"

definition DefaultDNSTTL :: "32 word" where
  "DefaultDNSTTL = 600"

record HostsDNSServerOptions =
  ho_Path :: "string list"
  ho_Predefined :: "(string \<times> addr list) list option"

record hosts_Transport =
  ht_adapter :: TransportAdapter
  ht_files :: "hosts_File list"
  ht_predefined :: "(string \<times> addr list) list"

text \<open>\<open>base\<close> expands a path of the options.\<close>

definition hosts_NewTransport ::
    "hosts_env \<Rightarrow> (string \<Rightarrow> string) \<Rightarrow> string \<Rightarrow> HostsDNSServerOptions \<Rightarrow> hosts_Transport" where
  "hosts_NewTransport E base tag opts =
     \<lparr>ht_adapter = NewTransportAdapter ''hosts'' tag [],
      ht_files = (if ho_Path opts = [] then [NewFile DefaultPath] else map (\<lambda>path. NewFile (base path)) (ho_Path opts)),
      ht_predefined =
        (case ho_Predefined opts of
           None \<Rightarrow> []
         | Some es \<Rightarrow> fold (\<lambda>(k, v). AList.update (he_CanonicalName E k) v) es [])\<rparr>"

fun lookup_files :: "hosts_env \<Rightarrow> int \<Rightarrow> string \<Rightarrow> hosts_File list \<Rightarrow> addr list \<times> hosts_File list" where
  "lookup_files E now domain [] = ([], [])"
| "lookup_files E now domain (f # fs) =
     (case file_Lookup E now domain f of
        (addresses, f') \<Rightarrow>
          if length addresses > 0 then (addresses, f' # fs)
          else case lookup_files E now domain fs of (r, fs') \<Rightarrow> (r, f' # fs'))"

definition name_error :: "dns_msg \<Rightarrow> dns_Question \<Rightarrow> dns_msg" where
  "name_error message question =
     dns_msg_zero\<lparr>msg_Id := msg_Id message, msg_Rcode := RcodeNameError, msg_Response := True, msg_Question := [question]\<rparr>"

definition hosts_Exchange ::
    "hosts_env \<Rightarrow> int \<Rightarrow> dns_msg \<Rightarrow> hosts_Transport \<Rightarrow> dns_msg res \<times> hosts_Transport" where
  "hosts_Exchange E now message t =
     (case msg_Question message of
        [] \<Rightarrow> (Panic ''index out of range'', t)
      | question # _ \<Rightarrow>
          let domain = he_CanonicalName E (q_Name question) in
          if q_Qtype question = TypeA \<or> q_Qtype question = TypeAAAA then
            case map_of (ht_predefined t) domain of
              Some addresses \<Rightarrow> (Ok (FixedResponse (msg_Id message) question addresses DefaultDNSTTL), t)
            | None \<Rightarrow>
                case lookup_files E now domain (ht_files t) of
                  (addresses, files) \<Rightarrow>
                    (Ok (if length addresses > 0 then FixedResponse (msg_Id message) question addresses DefaultDNSTTL
                         else name_error message question), t\<lparr>ht_files := files\<rparr>)
          else (Ok (name_error message question), t))"

section \<open>The transport for fake addresses\<close>

record 's fakeip_Transport =
  ft_adapter :: TransportAdapter
  ft_store :: "'s Store"

text \<open>A range that is not given is the zero prefix.\<close>

definition fakeip_NewTransport :: "string \<Rightarrow> Prefix option \<Rightarrow> Prefix option \<Rightarrow> 's fakeip_Transport" where
  "fakeip_NewTransport tag range4 range6 =
     \<lparr>ft_adapter = NewTransportAdapter ''fakeip'' tag [],
      ft_store = NewStore (case range4 of None \<Rightarrow> Prefix_zero | Some p \<Rightarrow> p) (case range6 of None \<Rightarrow> Prefix_zero | Some p \<Rightarrow> p)\<rparr>"

definition fakeip_Start ::
    "'d bolt \<Rightarrow> (string \<Rightarrow> addr) \<Rightarrow> 'd CacheFile option \<Rightarrow> StartStage \<Rightarrow> (MemoryStorage + 'd CacheFile) fakeip_Transport \<Rightarrow>
     unit res \<times> (MemoryStorage + 'd CacheFile) fakeip_Transport" where
  "fakeip_Start B fromIP cacheFile stg t =
     (if stg \<noteq> StartStateStart then (Ok (), t)
      else case store_Start B fromIP cacheFile (ft_store t) of (r, s) \<Rightarrow> (r, t\<lparr>ft_store := s\<rparr>))"

definition fakeip_Close :: "'s FakeIPStorage \<Rightarrow> 's fakeip_Transport \<Rightarrow> go_error option \<times> 's fakeip_Transport" where
  "fakeip_Close ops t = (case store_Close ops (ft_store t) of (e, s) \<Rightarrow> (e, t\<lparr>ft_store := s\<rparr>))"

definition fakeip_Exchange ::
    "('a, 'b, 'w) dns_env \<Rightarrow> 's FakeIPStorage \<Rightarrow> dns_msg \<Rightarrow> 's fakeip_Transport \<Rightarrow> dns_msg res \<times> 's fakeip_Transport" where
  "fakeip_Exchange D ops message t =
     (case msg_Question message of
        [] \<Rightarrow> (Panic ''index out of range'', t)
      | question # _ \<Rightarrow>
          if q_Qtype question \<noteq> TypeA \<and> q_Qtype question \<noteq> TypeAAAA
          then (Err (ENew [AStr ''only IP queries are supported by fakeip'']), t)
          else case store_Create ops (FqdnToDomain D (q_Name question)) (q_Qtype question = TypeAAAA) (ft_store t) of
            (r, s) \<Rightarrow> (bindR r (\<lambda>address. Ok (FixedResponse (msg_Id message) question [address] DefaultDNSTTL)), t\<lparr>ft_store := s\<rparr>))"

section \<open>What a file says\<close>

text \<open>The pairs of names and addresses of a text, in the order they are written.\<close>

definition line_pairs :: "hosts_env \<Rightarrow> string \<Rightarrow> (string \<times> addr) list" where
  "line_pairs E line =
     (case strings_Fields (takeWhile (\<lambda>c. c \<noteq> CHR ''#'') line) of
        ip # ns \<Rightarrow> (case he_ParseAddr E ip of Inl e \<Rightarrow> [] | Inr a \<Rightarrow> [(he_CanonicalName E n, a). n \<leftarrow> ns])
      | [] \<Rightarrow> [])"

text \<open>The addresses that the lines of a file give a name, for the lines that are read and for the lines of the text.\<close>

definition read_addresses :: "hosts_env \<Rightarrow> rd \<Rightarrow> string \<Rightarrow> addr list" where
  "read_addresses E r name = [a. line \<leftarrow> fst (file_lines r), (n, a) \<leftarrow> line_pairs E line, n = he_CanonicalName E name]"

definition host_addresses :: "hosts_env \<Rightarrow> string \<Rightarrow> string \<Rightarrow> addr list" where
  "host_addresses E txt name =
     [a. line \<leftarrow> text_lines [] txt, (n, a) \<leftarrow> line_pairs E line, n = he_CanonicalName E name]"

lemma read_addresses_text:
  "tail_length txt < defaultBufSize \<Longrightarrow> read_addresses E \<lparr>rd_data = txt, rd_end = e\<rparr> name = host_addresses E txt name"
  by (simp add: read_addresses_def host_addresses_def file_lines_text)

lemma uncommented_eq: "uncommented line = takeWhile (\<lambda>c. c \<noteq> CHR ''#'') line"
proof (cases "CHR ''#'' \<in> set line")
  case True
  then obtain a b where l: "line = a @ CHR ''#'' # b" "CHR ''#'' \<notin> set a" by (meson split_list_first)
  then have "takeWhile (\<lambda>c. c \<noteq> CHR ''#'') line = a" by (auto simp: takeWhile_append)
  then show ?thesis using l by (simp add: uncommented_def strings_Index_append Let_def)
next
  case False
  then have "\<forall>c \<in> set line. c \<noteq> CHR ''#''" by auto
  then have "takeWhile (\<lambda>c. c \<noteq> CHR ''#'') line = line" by (rule takeWhile_eq_all_conv [THEN iffD2])
  moreover have "uncommented line = line" using strings_Index_char [of line "CHR ''#''"] False by (simp add: uncommented_def)
  ultimately show ?thesis by (simp only:)
qed

lemma names_of_add_names:
  "names_of (add_names E a fs m) n = names_of m n @ [a. (x, a) \<leftarrow> map (\<lambda>f. (he_CanonicalName E f, a)) fs, x = n]"
proof (induction fs arbitrary: m)
  case (Cons f fs)
  have "names_of (AList.update k v m) n = (if n = k then v else names_of m n)" for k v
    by (simp add: names_of_def update_conv')
  then show ?case by (simp add: Cons.IH Let_def)
qed simp

lemma names_of_add_line: "names_of (add_line E l m) n = names_of m n @ [a. (x, a) \<leftarrow> line_pairs E l, x = n]"
proof (cases "strings_Fields (uncommented l)")
  case Nil
  then show ?thesis by (simp add: add_line_def line_pairs_def uncommented_eq)
next
  case (Cons ip ns)
  show ?thesis
  proof (cases "he_ParseAddr E ip")
    case (Inr a)
    with Cons have "names_of (add_line E l m) n = names_of (add_names E a ns m) n" by (cases ns) (simp_all add: add_line_def)
    with Cons Inr show ?thesis by (simp add: names_of_add_names line_pairs_def uncommented_eq)
  qed (use Cons in \<open>simp add: add_line_def line_pairs_def uncommented_eq Let_def\<close>)
qed

lemma names_of_fold:
  "names_of (fold (add_line E) ls m) n = names_of m n @ [a. l \<leftarrow> ls, (x, a) \<leftarrow> line_pairs E l, x = n]"
  by (induction ls arbitrary: m) (simp_all add: names_of_add_line)

lemma read_hosts_addresses:
  "read_hosts E r = Some m \<Longrightarrow> names_of m (he_CanonicalName E name) = read_addresses E r name"
  by (auto simp: read_hosts_def read_addresses_def names_of_fold names_of_def [of "[]"] split: prod.splits if_splits)

section \<open>Where an answer comes from\<close>

text \<open>
  The file system over time: \<open>E t\<close> is what the calls answer at the time \<open>t\<close>.  Parsing an address and the canonical form of a name do not depend on
  the time.
\<close>

definition timeless_names :: "(int \<Rightarrow> hosts_env) \<Rightarrow> bool" where
  "timeless_names E \<longleftrightarrow> (\<forall>t. he_ParseAddr (E t) = he_ParseAddr (E 0) \<and> he_CanonicalName (E t) = he_CanonicalName (E 0))"

text \<open>A file that cannot be read at a moment.\<close>

definition unreadable :: "hosts_env \<Rightarrow> string \<Rightarrow> bool" where
  "unreadable E path \<longleftrightarrow> (\<exists>e. he_Stat E path = Inl e) \<or> (\<exists>e. he_Open E path = Inl e) \<or>
     (\<exists>r. he_Open E path = Inr r \<and> snd (file_lines r) \<noteq> ioEOF)"

fun lookups :: "(int \<Rightarrow> hosts_env) \<Rightarrow> (int \<times> string) list \<Rightarrow> hosts_File \<Rightarrow> hosts_File" where
  "lookups E [] f = f"
| "lookups E ((now, name) # rs) f = lookups E rs (snd (file_Lookup (E now) now name f))"

text \<open>
  The names of a file are those of the contents \<open>r\<close> that were read at a time \<open>u\<close>, when the file had the mark \<open>mk\<close> (its time and
  size); it was seen with this mark at \<open>v\<close> for the last time.
\<close>

definition read_at :: "(int \<Rightarrow> hosts_env) \<Rightarrow> string \<Rightarrow> int \<Rightarrow> rd \<Rightarrow> int \<times> int \<Rightarrow> int \<Rightarrow> hosts_File \<Rightarrow> bool" where
  "read_at E path u r mk v f \<longleftrightarrow> u \<le> v \<and> he_Open (E u) path = Inr r \<and> he_Stat (E u) path = Inr mk \<and> he_Stat (E v) path = Inr mk \<and>
     (\<forall>name. names_of (hf_byName f) (he_CanonicalName (E 0) name) = read_addresses (E 0) r name) \<and>
     (hf_modTime f, hf_size f) = mk \<and> hf_expire f = v + cacheMaxAge"

definition file_inv :: "(int \<Rightarrow> hosts_env) \<Rightarrow> string \<Rightarrow> int \<Rightarrow> hosts_File \<Rightarrow> bool" where
  "file_inv E path t f \<longleftrightarrow> hf_path f = path \<and>
     ((hf_byName f = [] \<and> hf_modTime f = 0 \<and> hf_size f = 0) \<or> (\<exists>u r mk v. v \<le> t \<and> read_at E path u r mk v f))"

lemma read_addresses_cong:
  "he_ParseAddr E = he_ParseAddr E' \<Longrightarrow> he_CanonicalName E = he_CanonicalName E' \<Longrightarrow> read_addresses E = read_addresses E'"
  unfolding read_addresses_def [abs_def] line_pairs_def [abs_def] by (simp only:)

lemma read_hosts_None: "read_hosts E r = None \<Longrightarrow> snd (file_lines r) \<noteq> ioEOF"
  by (auto simp: read_hosts_def split: prod.splits if_splits)

text \<open>What an update does: nothing while the names are fresh, nothing when the file cannot be read, otherwise it sees the mark unchanged or reads.\<close>

lemma file_update_cases:
  assumes "hf_path f = path"
  obtains (fresh) "file_update E now f = f" "now < hf_expire f" "hf_byName f \<noteq> []"
    | (failed) "file_update E now f = f" "unreadable E path"
    | (same) mk where "he_Stat E path = Inr mk" "(hf_modTime f, hf_size f) = mk" "file_update E now f = f\<lparr>hf_expire := now + cacheMaxAge\<rparr>"
    | (changed) mt sz r m where "he_Stat E path = Inr (mt, sz)" "he_Open E path = Inr r" "read_hosts E r = Some m"
        "file_update E now f = f\<lparr>hf_expire := now + cacheMaxAge, hf_modTime := mt, hf_size := sz, hf_byName := m\<rparr>"
proof (cases "now < hf_expire f \<and> hf_byName f \<noteq> []")
  case False
  then have u: "file_update E now f = (case he_Stat E path of Inl e \<Rightarrow> f | Inr (modTime, size') \<Rightarrow>
      if hf_modTime f = modTime \<and> hf_size f = size' then f\<lparr>hf_expire := now + cacheMaxAge\<rparr>
      else case he_Open E path of Inl e \<Rightarrow> f | Inr r \<Rightarrow> case read_hosts E r of None \<Rightarrow> f
        | Some m \<Rightarrow> f\<lparr>hf_expire := now + cacheMaxAge, hf_modTime := modTime, hf_size := size', hf_byName := m\<rparr>)"
    using assms by (auto simp: file_update_def)
  show ?thesis
  proof (cases "he_Stat E path")
    case (Inl e)
    then show ?thesis using failed u by (simp add: unreadable_def)
  next
    case (Inr mk)
    obtain mt sz where mk: "mk = (mt, sz)" by (cases mk)
    show ?thesis
    proof (cases "hf_modTime f = mt \<and> hf_size f = sz")
      case True
      then show ?thesis using same [of mk] u Inr mk by simp
    next
      case diff: False
      show ?thesis
      proof (cases "he_Open E path")
        case op: (Inl e)
        then show ?thesis using failed u Inr mk diff by (auto simp: unreadable_def)
      next
        case op: (Inr r)
        show ?thesis
        proof (cases "read_hosts E r")
          case None
          then show ?thesis using failed u Inr mk diff op read_hosts_None by (auto simp: unreadable_def)
        next
          case (Some m)
          have "file_update E now f = f\<lparr>hf_expire := now + cacheMaxAge, hf_modTime := mt, hf_size := sz, hf_byName := m\<rparr>"
            using u Inr mk diff op Some by auto
          with Inr mk op Some show ?thesis using changed by blast
        qed
      qed
    qed
  qed
next
  case True
  then have "file_update E now f = f" by (simp add: file_update_def)
  with True show ?thesis using fresh by blast
qed

text \<open>An answer at a time: from contents that were read, and whose mark was seen less than five seconds ago unless the file cannot be read now.\<close>

definition answer_from :: "(int \<Rightarrow> hosts_env) \<Rightarrow> string \<Rightarrow> int \<Rightarrow> (string \<Rightarrow> addr list) \<Rightarrow> bool" where
  "answer_from E path now ans \<longleftrightarrow>
     (\<exists>u r mk. u \<le> now \<and> he_Open (E u) path = Inr r \<and> he_Stat (E u) path = Inr mk \<and> ans = read_addresses (E 0) r \<and>
        ((\<exists>v. u \<le> v \<and> v \<le> now \<and> now < v + cacheMaxAge \<and> he_Stat (E v) path = Inr mk) \<or> unreadable (E now) path)) \<or>
     (ans = (\<lambda>_. []) \<and> (unreadable (E now) path \<or> he_Stat (E now) path = Inr (0, 0)))"

lemma answer_fromI:
  assumes "read_at E path u r mk v f" and "v \<le> now" and "now < v + cacheMaxAge \<or> unreadable (E now) path"
  shows "answer_from E path now (\<lambda>name. names_of (hf_byName f) (he_CanonicalName (E 0) name))"
proof -
  have "(\<lambda>name. names_of (hf_byName f) (he_CanonicalName (E 0) name)) = read_addresses (E 0) r"
    using assms(1) by (auto simp: read_at_def)
  moreover have "u \<le> v" "he_Open (E u) path = Inr r" "he_Stat (E u) path = Inr mk" "he_Stat (E v) path = Inr mk"
    using assms(1) by (auto simp: read_at_def)
  ultimately show ?thesis
    unfolding answer_from_def using assms(2,3) by (intro disjI1 exI [of _ u] exI [of _ r] exI [of _ mk]) auto
qed

lemma file_invI: "hf_path f = path \<Longrightarrow> read_at E path u r mk v f \<Longrightarrow> v \<le> t \<Longrightarrow> file_inv E path t f"
  unfolding file_inv_def by blast

lemma file_update_answers:
  assumes "timeless_names E" and "file_inv E path t f" and "t \<le> now"
  shows "file_inv E path now (file_update (E now) now f) \<and>
    answer_from E path now (\<lambda>name. names_of (hf_byName (file_update (E now) now f)) (he_CanonicalName (E 0) name))"
proof -
  define f' where "f' = file_update (E now) now f"
  have path: "hf_path f = path" using assms(2) by (simp add: file_inv_def)
  have names: "he_CanonicalName (E now) = he_CanonicalName (E 0)" "read_addresses (E now) = read_addresses (E 0)"
    using assms(1) by (auto simp: timeless_names_def intro!: read_addresses_cong)
  have age: "now < now + cacheMaxAge" by (simp add: cacheMaxAge_def)
  have none: "(\<lambda>name. names_of [] (he_CanonicalName (E 0) name)) = (\<lambda>_. [])" by (simp add: names_of_def)
  have "(hf_byName f = [] \<and> hf_modTime f = 0 \<and> hf_size f = 0) \<or> (\<exists>u r mk v. v \<le> now \<and> read_at E path u r mk v f)"
    using assms(2,3) unfolding file_inv_def by (meson order_trans)
  then consider (never) "hf_byName f = []" "hf_modTime f = 0" "hf_size f = 0"
    | (read) u r mk v where "v \<le> now" "read_at E path u r mk v f" by blast
  note from_f = this
  have "file_inv E path now f' \<and> answer_from E path now (\<lambda>name. names_of (hf_byName f') (he_CanonicalName (E 0) name))"
    using path
  proof (cases rule: file_update_cases [of f path "E now" now, case_names fresh failed same changed])
    case fresh
    from from_f show ?thesis
    proof cases
      case (read u r mk v)
      then have "now < v + cacheMaxAge" using fresh by (simp add: read_at_def)
      then show ?thesis using fresh(1) answer_fromI [OF read(2,1)] file_invI [OF path read(2,1)] by (simp add: f'_def)
    qed (use fresh in simp)
  next
    case failed
    from from_f show ?thesis
    proof cases
      case never
      then show ?thesis using failed path none by (auto simp: f'_def file_inv_def answer_from_def)
    next
      case (read u r mk v)
      then show ?thesis using failed answer_fromI [OF read(2,1)] file_invI [OF path read(2,1)] by (simp add: f'_def)
    qed
  next
    case (same mk')
    from from_f show ?thesis
    proof cases
      case never
      then show ?thesis using same path none by (auto simp: f'_def file_inv_def answer_from_def)
    next
      case (read u r mk v)
      then have "mk' = mk" using same by (simp add: read_at_def)
      then have "read_at E path u r mk now f'" using read same by (auto simp: read_at_def f'_def)
      moreover have "hf_path f' = path" using same path by (simp add: f'_def)
      ultimately show ?thesis using answer_fromI [of E path u r mk now f' now] file_invI [of f' path E u r mk now now] age by simp
    qed
  next
    case (changed mt sz r m)
    have "read_at E path now r (mt, sz) now f'"
      using changed read_hosts_addresses [OF changed(3)] by (simp add: read_at_def f'_def names)
    moreover have "hf_path f' = path" using changed path by (simp add: f'_def)
    ultimately show ?thesis using answer_fromI [of E path now r "(mt, sz)" now f' now] file_invI [of f' path E now r "(mt, sz)" now now] age by simp
  qed
  then show ?thesis by (simp only: f'_def)
qed

lemma lookups_inv:
  assumes "timeless_names E" and "file_inv E path t f" and "sorted (t # map fst rs)"
  shows "file_inv E path (last (t # map fst rs)) (lookups E rs f)"
  using assms(2,3)
proof (induction rs arbitrary: t f)
  case (Cons r rs)
  obtain now name where r: "r = (now, name)" by (cases r)
  have "file_inv E path now (snd (file_Lookup (E now) now name f))"
    using file_update_answers [OF assms(1) Cons.prems(1), of now] Cons.prems(2) by (simp add: r file_Lookup_def Let_def)
  from Cons.IH [OF this] Cons.prems(2) show ?case by (simp add: r)
qed simp

lemma file_inv_New: "file_inv E path t (NewFile path)"
  by (simp add: file_inv_def NewFile_def)


text \<open>A file that is changed after three seconds.\<close>

definition demo_text :: "int \<Rightarrow> string" where
  "demo_text t = (if t < 3 * 10 ^ 9 then ''10.0.0.1 a b'' @ [LF] else ''10.0.0.2 b # a'' @ [LF] @ ''10.0.0.3 a b'' @ [LF])"

definition demo_hosts :: "int \<Rightarrow> hosts_env" where
  "demo_hosts t = \<lparr>he_Stat = (\<lambda>_. Inr (if t < 3 * 10 ^ 9 then 1 else 2, int (length (demo_text t)))),
     he_Open = (\<lambda>_. Inr \<lparr>rd_data = demo_text t, rd_end = ioEOF\<rparr>),
     he_ParseAddr = (\<lambda>s. if strings_HasPrefix s ''10.0.0.'' then Inr (Addr4 (word_of_nat (0x0A000000 + of_char (last s) - 48))) else Inl ErrInvalid),
     he_CanonicalName = (\<lambda>s. s @ ''.'')\<rparr>"

lemma demo_hosts_tail: "tail_length (demo_text t) < defaultBufSize"
  by (simp add: demo_text_def tail_length_def defaultBufSize_def)

lemma demo_hosts_readable: "\<not> unreadable (demo_hosts t) path"
  by (simp add: unreadable_def demo_hosts_def file_lines_text [OF demo_hosts_tail])

lemma demo_hosts_after:
  assumes "\<not> u < 3 * 10 ^ 9"
  shows "read_addresses (demo_hosts 0) \<lparr>rd_data = demo_text u, rd_end = ioEOF\<rparr> ''b'' = [Addr4 0x0A000002, Addr4 0x0A000003]"
proof -
  from assms have "demo_text u = ''10.0.0.2 b # a'' @ [LF] @ ''10.0.0.3 a b'' @ [LF]" by (simp add: demo_text_def)
  moreover have "host_addresses (demo_hosts 0) (''10.0.0.2 b # a'' @ [LF] @ ''10.0.0.3 a b'' @ [LF]) ''b'' = [Addr4 0x0A000002, Addr4 0x0A000003]"
    by (simp add: host_addresses_def demo_hosts_def line_pairs_def strings_Fields_def ascii_space_def LF_def drop_CR_def CR_def)
  ultimately show ?thesis using read_addresses_text [OF demo_hosts_tail [of u], of "demo_hosts 0" ioEOF "''b''"] by simp
qed


section \<open>Answers\<close>

text \<open>The files are asked in their order, and the first that knows the name answers.\<close>

lemma lookup_files_first:
  "fst (lookup_files E now domain fs) =
     (case dropWhile (\<lambda>f. fst (file_Lookup E now domain f) = []) fs of [] \<Rightarrow> [] | f # _ \<Rightarrow> fst (file_Lookup E now domain f))"
  by (induction fs) (auto split: prod.splits)

lemma fixed_answers_addresses:
  "map rr_Data (fixed_answers q ttl as) =
     (if q_Qtype q = TypeA then map (RD_A \<circ> addr_AsSlice) (filter addr_Is4 as)
      else if q_Qtype q = TypeAAAA then map (RD_AAAA \<circ> addr_AsSlice) (filter addr_Is6 as) else [])"
  by (induction as) (auto simp: fixed_rr_def TypeA_def TypeAAAA_def)

text \<open>Every query with a question gets a response of its id to its question; names that are not known do not exist.\<close>

lemma hosts_Exchange_answers:
  assumes "msg_Question message = q # qs"
  shows "\<exists>m t'. hosts_Exchange E now message t = (Ok m, t') \<and> msg_Id m = msg_Id message \<and> msg_Response m \<and>
    msg_Question m = [q] \<and> msg_Rcode m \<in> {RcodeSuccess, RcodeNameError} \<and>
    (msg_Rcode m = RcodeNameError \<longrightarrow> msg_Answer m = [])"
  using assms
  by (auto simp: hosts_Exchange_def Let_def FixedResponse_def fixed_header_def name_error_def dns_msg_zero_def rcodes
      split: option.splits prod.splits)

text \<open>
  C21: The transport for fake addresses answers a query for a name that has no address yet with one record, whose address
  is in the range of its family; the store then gives the name of the query for this address, without its last dot,
  and the same query is answered the same way again without changing the store.
\<close>

theorem fakeip_answer_resolves:
  assumes "fs_storage (ft_store t) = Some st" and "can_assign six (ft_store t)"
    and "msg_Question message = q # qs" and "q_Qtype q = (if six then TypeAAAA else TypeA)"
    and "st_LoadDomain (any_ops B M) st (FqdnToDomain D (q_Name q)) six = None"
  shows "\<exists>a m t'. fakeip_Exchange D (any_ops B M) message t = (Ok m, t') \<and>
    msg_Id m = msg_Id message \<and> msg_Question m = [q] \<and> msg_Rcode m = RcodeSuccess \<and>
    map rr_Data (msg_Answer m) = [(if six then RD_AAAA else RD_A) (addr_AsSlice a)] \<and>
    Prefix_Contains (range_of six (ft_store t)) a \<and>
    store_Lookup (any_ops B M) (ft_store t') a = Ok (Some (FqdnToDomain D (q_Name q))) \<and>
    fakeip_Exchange D (any_ops B M) message t' = (Ok m, t')"
proof -
  define a where "a = next_address (range_of six (ft_store t)) (current_of six (ft_store t))"
  define m where "m = FixedResponse (msg_Id message) q [a] DefaultDNSTTL"
  have ne: "TypeA \<noteq> TypeAAAA" by (simp add: TypeA_def TypeAAAA_def)
  from any.create_fresh [OF assms(1,5,2)] obtain st' where
    st': "store_Create (any_ops B M) (FqdnToDomain D (q_Name q)) six (ft_store t) = (Ok a, (set_current six a (ft_store t))\<lparr>fs_storage := Some st'\<rparr>)"
      "st_Load (any_ops B M) st' = (st_Load (any_ops B M) st)(a \<mapsto> FqdnToDomain D (q_Name q))"
      "st_LoadDomain (any_ops B M) st' (FqdnToDomain D (q_Name q)) six = Some a"
    unfolding a_def by blast
  define t' where "t' = t\<lparr>ft_store := (set_current six a (ft_store t))\<lparr>fs_storage := Some st'\<rparr>\<rparr>"
  have ex: "fakeip_Exchange D (any_ops B M) message t = (Ok m, t')"
    using assms(3,4) st'(1) by (cases six) (auto simp: fakeip_Exchange_def ne t'_def m_def)
  have "store_Create (any_ops B M) (FqdnToDomain D (q_Name q)) six (ft_store t') = (Ok a, ft_store t')"
    using st'(3) by (intro any.create_again) (simp_all add: t'_def)
  then have again: "fakeip_Exchange D (any_ops B M) message t' = (Ok m, t')"
    using assms(3,4) by (cases six) (auto simp: fakeip_Exchange_def ne m_def)
  have "in_family six a" using assms(2) unfolding a_def can_assign_def by (intro next_address_family) auto
  then have fam: "if six then addr_Is6 a else addr_Is4 a" by (cases a) (auto simp: in_family_def addr_Is4_def)
  have "Prefix_Contains (range_of six (ft_store t)) a"
    using assms(2) unfolding a_def can_assign_def by (intro next_address_Contains) auto
  moreover have "map rr_Data (msg_Answer m) = [(if six then RD_AAAA else RD_A) (addr_AsSlice a)]"
    using fam assms(4) by (simp add: m_def FixedResponse_def fixed_answers_addresses TypeA_def TypeAAAA_def del: fixed_answers.simps split: if_splits)
  moreover have "msg_Id m = msg_Id message \<and> msg_Question m = [q] \<and> msg_Rcode m = RcodeSuccess"
    by (simp add: m_def FixedResponse_def fixed_header_def dns_msg_zero_def)
  moreover have "store_Lookup (any_ops B M) (ft_store t') a = Ok (Some (FqdnToDomain D (q_Name q)))"
    by (simp add: store_Lookup_def t'_def st'(2))
  ultimately show ?thesis using ex again by (intro exI [of _ a] exI [of _ m] exI [of _ t']) simp
qed

definition demo_a_query :: dns_msg where
  "demo_a_query = dns_msg_zero\<lparr>msg_Id := 7, msg_RecursionDesired := True,
     msg_Question := [\<lparr>q_Name = ''example.com.'', q_Qtype = TypeA, q_Qclass = ClassINET\<rparr>]\<rparr>"

theorem fakeip_answer_resolves_witness:
  "\<exists>a m t'. fakeip_Exchange (ref_dns_env (\<lambda>_. Inl ErrInvalid)) (any_ops bolt_tree (\<lambda>_. AddrNone)) demo_a_query
      \<lparr>ft_adapter = NewTransportAdapter ''fakeip'' ''f'' [], ft_store = demo_store\<rparr> = (Ok m, t') \<and>
     map rr_Data (msg_Answer m) = [RD_A (addr_AsSlice a)] \<and>
     store_Lookup (any_ops bolt_tree (\<lambda>_. AddrNone)) (ft_store t') a = Ok (Some ''example.com'')"
proof -
  have "can_assign False demo_store"
    by (simp add: demo_store_eq can_assign_def demo_range_def current_of_def range_of_def in_family_def
        first_address_def PrefixFrom_def Prefix_Contains_def Prefix_IsValid_def)
  moreover have "st_LoadDomain (any_ops bolt_tree (\<lambda>_. AddrNone)) (Inl NewMemoryStorage) ''example.com'' False = None"
    by (simp add: any_ops_def sum_ops_def mem_ops_def mem_FakeIPLoadDomain_def NewMemoryStorage_def)
  ultimately show ?thesis
    using fakeip_answer_resolves [of "\<lparr>ft_adapter = NewTransportAdapter ''fakeip'' ''f'' [], ft_store = demo_store\<rparr>" "Inl NewMemoryStorage" False
        demo_a_query "\<lparr>q_Name = ''example.com.'', q_Qtype = TypeA, q_Qclass = ClassINET\<rparr>" "[]" bolt_tree "\<lambda>_. AddrNone" "ref_dns_env (\<lambda>_. Inl ErrInvalid)"]
    by (auto simp: demo_store_eq demo_a_query_def FqdnToDomain_def ref_dns_env_def over_env_def)
qed

end
