(* ===== verification/Dns_Wire.thy ===== *)
theory Dns_Wire
  imports Srs Dns_Message "HOL-Library.Multiset"
begin

text \<open>
  DNS over streams: the framing of messages and the transport over TCP (\<open>core/dns/transport/tcp.go\<close>), and the pool of connections of the
  transport over TLS (\<open>core/dns/transport/tls.go\<close>).  \<open>wire_env\<close> is the foreign encoder: the length of the uncompressed message,
  packing with compression, and unpacking.  The pool is a step relation, since queries run at the same time.
\<close>

section \<open>Messages on a stream\<close>

record wire_env =
  we_Len :: "dns_msg \<Rightarrow> nat"
  we_Pack :: "dns_msg \<Rightarrow> go_error + string"
  we_Unpack :: "string \<Rightarrow> go_error + dns_msg"

definition ErrShortRead :: go_error where
  "ErrShortRead = EForeign ''short read''"

definition ReadMessage :: "wire_env \<Rightarrow> dns_msg reader" where
  "ReadMessage E =
     bindP (read_full_n 2) (\<lambda>b.
       let responseLen = be_value b in
       if responseLen < 10 then failP ErrShortRead
       else bindP (read_full_n responseLen) (\<lambda>buffer.
         case we_Unpack E buffer of Inl e \<Rightarrow> failP e | Inr message \<Rightarrow> retP message))"

text \<open>The bytes that are written: the length is that of the message without compression, in sixteen bits.\<close>

definition WriteMessage :: "wire_env \<Rightarrow> 16 word \<Rightarrow> dns_msg \<Rightarrow> string res" where
  "WriteMessage E messageId message =
     (let requestLen = we_Len E message in
      case we_Pack E (message\<lparr>msg_Id := messageId\<rparr>) of
        Inl e \<Rightarrow> Err e
      | Inr rawMessage \<Rightarrow> Ok (be_bytes 2 (requestLen mod 2 ^ 16) @ rawMessage))"

section \<open>TCP\<close>

text \<open>A connection: the error of a write, if any, and what can be read after the bytes were written.\<close>

record stream_conn =
  sc_Write :: "string \<Rightarrow> go_error option"
  sc_Read :: "string \<Rightarrow> rd"

definition stream_exchange :: "wire_env \<Rightarrow> 16 word \<Rightarrow> stream_conn \<Rightarrow> dns_msg \<Rightarrow> dns_msg res option" where
  "stream_exchange E ident conn message =
     (case WriteMessage E ident message of
        Ok bytes \<Rightarrow>
          (case sc_Write conn bytes of
             Some e \<Rightarrow> Some (Err e)
           | None \<Rightarrow> map_option (\<lambda>r. bindR r (\<lambda>(m, _). Ok m)) (ReadMessage E (sc_Read conn bytes)))
      | Err e \<Rightarrow> Some (Err e)
      | Panic s \<Rightarrow> Some (Panic s))"

definition tcp_Exchange :: "wire_env \<Rightarrow> go_error + stream_conn \<Rightarrow> dns_msg \<Rightarrow> dns_msg res option" where
  "tcp_Exchange E dial message =
     (case dial of Inl e \<Rightarrow> Some (Err e) | Inr conn \<Rightarrow> stream_exchange E 0 conn message)"

section \<open>TLS\<close>

record tlsDNSConn =
  tc_id :: nat
  tc_queryId :: "16 word"

text \<open>
  The transport with the connections that are open: those of the pool, those that a query uses now, and a counter for new ones.
\<close>

record TLSTransport =
  tls_connections :: "tlsDNSConn list"
  tls_busy :: "tlsDNSConn list"
  tls_next :: nat
  tls_closed :: "nat list"

definition NewTLSRaw :: TLSTransport where
  "NewTLSRaw = \<lparr>tls_connections = [], tls_busy = [], tls_next = 0, tls_closed = []\<rparr>"

text \<open>The beginning of \<open>Exchange\<close>: a connection of the pool, or nil.\<close>

definition tls_PopFront :: "TLSTransport \<Rightarrow> tlsDNSConn option \<times> TLSTransport" where
  "tls_PopFront t =
     (case tls_connections t of
        [] \<Rightarrow> (None, t)
      | conn # cs \<Rightarrow> (Some conn, t\<lparr>tls_connections := cs, tls_busy := conn # tls_busy t\<rparr>))"

definition tls_dial :: "TLSTransport \<Rightarrow> tlsDNSConn \<times> TLSTransport" where
  "tls_dial t =
     (let conn = \<lparr>tc_id = tls_next t, tc_queryId = 0\<rparr> in
      (conn, t\<lparr>tls_next := Suc (tls_next t), tls_busy := conn # tls_busy t\<rparr>))"

text \<open>
  \<open>exchange\<close>: the result of writing and reading on the connection is \<open>peer\<close>.  A connection that failed is closed, the other one
  goes back to the end of the pool.
\<close>

definition tls_exchange ::
    "wire_env \<Rightarrow> (nat \<Rightarrow> stream_conn) \<Rightarrow> dns_msg \<Rightarrow> tlsDNSConn \<Rightarrow> TLSTransport \<Rightarrow> dns_msg res option \<times> TLSTransport" where
  "tls_exchange E peer message conn t =
     (let conn' = conn\<lparr>tc_queryId := tc_queryId conn + 1\<rparr>;
          busy = remove1 conn (tls_busy t);
          failed = t\<lparr>tls_busy := busy, tls_closed := tc_id conn # tls_closed t\<rparr>
      in case WriteMessage E (tc_queryId conn') message of
           Err e \<Rightarrow> (Some (Err (ECause e [AStr ''write request''])), failed)
         | Panic s \<Rightarrow> (Some (Panic s), failed)
         | Ok bytes \<Rightarrow>
             (case sc_Write (peer (tc_id conn)) bytes of
                Some e \<Rightarrow> (Some (Err (ECause e [AStr ''write request''])), failed)
              | None \<Rightarrow>
                  (case ReadMessage E (sc_Read (peer (tc_id conn)) bytes) of
                     Some (Ok (response, _)) \<Rightarrow>
                       (Some (Ok response), t\<lparr>tls_busy := busy, tls_connections := tls_connections t @ [conn']\<rparr>)
                   | Some (Err e) \<Rightarrow> (Some (Err (ECause e [AStr ''read response''])), failed)
                   | Some (Panic s) \<Rightarrow> (Some (Panic s), failed)
                   | None \<Rightarrow> (None, failed))))"

text \<open>\<open>Exchange\<close> when nothing runs beside it: a pooled connection first, then, when that fails, a new one.\<close>

definition tls_Exchange ::
    "wire_env \<Rightarrow> (nat \<Rightarrow> stream_conn) \<Rightarrow> go_error option \<Rightarrow> dns_msg \<Rightarrow> TLSTransport \<Rightarrow> dns_msg res option \<times> TLSTransport" where
  "tls_Exchange E peer dialErr message t =
     (let fresh = (\<lambda>t. case dialErr of
            Some e \<Rightarrow> (Some (Err e), t)
          | None \<Rightarrow> (case tls_dial t of (conn, t') \<Rightarrow> tls_exchange E peer message conn t'))
      in case tls_PopFront t of
           (None, t') \<Rightarrow> fresh t'
         | (Some conn, t') \<Rightarrow>
             (case tls_exchange E peer message conn t' of
                (Some (Ok response), t2) \<Rightarrow> (Some (Ok response), t2)
              | (Some (Err e), t2) \<Rightarrow> fresh t2
              | (r, t2) \<Rightarrow> (r, t2)))"

definition tls_Close :: "TLSTransport \<Rightarrow> TLSTransport" where
  "tls_Close t = t\<lparr>tls_connections := [], tls_closed := map tc_id (tls_connections t) @ tls_closed t\<rparr>"

text \<open>Queries at the same time: each takes a connection, works on it, and gives it back or closes it.\<close>

inductive tls_step :: "wire_env \<Rightarrow> TLSTransport \<Rightarrow> TLSTransport \<Rightarrow> bool" for E where
  take_pooled: "tls_PopFront t = (Some conn, t') \<Longrightarrow> tls_step E t t'"
| take_new: "tls_dial t = (conn, t') \<Longrightarrow> tls_step E t t'"
| finish: "conn \<in> set (tls_busy t) \<Longrightarrow> tls_exchange E peer message conn t = (r, t') \<Longrightarrow> tls_step E t t'"
| close_all: "tls_step E t (tls_Close t)"

section \<open>Round trip\<close>

text \<open>What the encoder promises for a message: it is read back, and compression does not shorten it.\<close>

definition wire_ok :: "wire_env \<Rightarrow> 16 word \<Rightarrow> dns_msg \<Rightarrow> bool" where
  "wire_ok E ident m \<longleftrightarrow>
     (\<exists>raw. we_Pack E (m\<lparr>msg_Id := ident\<rparr>) = Inr raw \<and> we_Unpack E raw = Inr (m\<lparr>msg_Id := ident\<rparr>) \<and>
        length raw = we_Len E m \<and> 10 \<le> length raw)"

lemma ReadMessage_framed:
  assumes "10 \<le> n" and "n < 2 ^ 16" and "length raw = n"
  shows "ReadMessage E \<lparr>rd_data = be_bytes 2 n @ raw @ rest, rd_end = e\<rparr> =
    (case we_Unpack E raw of Inl e' \<Rightarrow> Some (Err e') | Inr m \<Rightarrow> Some (Ok (m, \<lparr>rd_data = rest, rd_end = e\<rparr>)))"
proof -
  have "be_value (be_bytes 2 n) = n" using assms(2) by (intro be_value_bytes) simp
  then show ?thesis
    using assms by (auto simp: ReadMessage_def bindP_def read_full_n_def failP_def retP_def Let_def split: sum.splits)
qed

text \<open>
  A message that is written to a stream is read from it as the same message with the given id, and what follows it
  on the stream stays; the message has less than 65536 bytes, and compression does not shorten it.
\<close>

theorem stream_roundtrip:
  assumes "wire_ok E ident m" and "we_Len E m < 2 ^ 16"
  shows "\<exists>bytes. WriteMessage E ident m = Ok bytes \<and>
    (\<forall>rest e. ReadMessage E \<lparr>rd_data = bytes @ rest, rd_end = e\<rparr> = Some (Ok (m\<lparr>msg_Id := ident\<rparr>, \<lparr>rd_data = rest, rd_end = e\<rparr>)))"
proof -
  from assms(1) obtain raw where raw: "we_Pack E (m\<lparr>msg_Id := ident\<rparr>) = Inr raw" "we_Unpack E raw = Inr (m\<lparr>msg_Id := ident\<rparr>)"
    "length raw = we_Len E m" "10 \<le> length raw" by (auto simp: wire_ok_def)
  have "WriteMessage E ident m = Ok (be_bytes 2 (we_Len E m) @ raw)" using assms(2) by (simp add: WriteMessage_def raw(1))
  moreover have "ReadMessage E \<lparr>rd_data = (be_bytes 2 (we_Len E m) @ raw) @ rest, rd_end = e\<rparr> =
      Some (Ok (m\<lparr>msg_Id := ident\<rparr>, \<lparr>rd_data = rest, rd_end = e\<rparr>))" for rest e
    using ReadMessage_framed [of "we_Len E m" raw E rest e] raw assms(2) by simp
  ultimately show ?thesis by blast
qed

text \<open>
  When compression shortens the message, its length on the wire is too large: a reader of the message alone meets the end of the stream, and
  with another message behind it takes bytes of that.
\<close>

lemma compressed_length_wrong:
  assumes "we_Pack E (m\<lparr>msg_Id := ident\<rparr>) = Inr raw" and "length raw < we_Len E m" and "10 \<le> we_Len E m"
    and "we_Len E m < 2 ^ 16" and "raw \<noteq> []"
  shows "\<exists>bytes. WriteMessage E ident m = Ok bytes \<and>
    ReadMessage E \<lparr>rd_data = bytes, rd_end = ioEOF\<rparr> = Some (Err ioErrUnexpectedEOF)"
proof -
  have "be_value (be_bytes 2 (we_Len E m)) = we_Len E m" using assms(4) by (intro be_value_bytes) simp
  then show ?thesis
    using assms by (auto simp: WriteMessage_def ReadMessage_def bindP_def read_full_n_def Let_def)
qed

text \<open>A reader never panics and never blocks for ever on a stream that ends.\<close>

lemma ReadMessage_total: "ReadMessage E r \<noteq> None \<and> ReadMessage E r \<noteq> Some (Panic s)"
  by (auto simp: ReadMessage_def bindP_def read_full_n_def failP_def retP_def Let_def split: sum.splits)

section \<open>The pool\<close>

text \<open>Every connection is in one place: in the pool, with a query, or closed.\<close>

definition pool_ids :: "TLSTransport \<Rightarrow> nat multiset" where
  "pool_ids t = mset (map tc_id (tls_connections t)) + mset (map tc_id (tls_busy t)) + mset (tls_closed t)"

definition pool_inv :: "TLSTransport \<Rightarrow> bool" where
  "pool_inv t \<longleftrightarrow> pool_ids t = mset [0..<tls_next t]"

lemma pool_inv_New: "pool_inv NewTLSRaw"
  by (simp add: pool_inv_def pool_ids_def NewTLSRaw_def)

lemma pool_inv_iff:
  "pool_inv t \<longleftrightarrow> distinct (map tc_id (tls_connections t) @ map tc_id (tls_busy t) @ tls_closed t) \<and>
     set (map tc_id (tls_connections t) @ map tc_id (tls_busy t) @ tls_closed t) = {..<tls_next t}"
proof -
  have "pool_inv t \<longleftrightarrow> mset (map tc_id (tls_connections t) @ map tc_id (tls_busy t) @ tls_closed t) = mset [0..<tls_next t]"
    by (simp add: pool_inv_def pool_ids_def union_assoc)
  also have "\<dots> \<longleftrightarrow> distinct (map tc_id (tls_connections t) @ map tc_id (tls_busy t) @ tls_closed t) \<and>
     set (map tc_id (tls_connections t) @ map tc_id (tls_busy t) @ tls_closed t) = set [0..<tls_next t]"
    by (metis distinct_upt mset_eq_imp_distinct_iff mset_eq_setD set_eq_iff_mset_eq_distinct)
  finally show ?thesis by (simp add: lessThan_atLeast0)
qed

lemma mset_busy:
  assumes "conn \<in> set xs"
  shows "mset (map tc_id xs) = add_mset (tc_id conn) (mset (map tc_id (remove1 conn xs)))"
proof -
  have "mset xs = add_mset conn (mset (remove1 conn xs))" using assms by simp
  then show ?thesis by (metis image_mset_add_mset mset_map)
qed

text \<open>A query leaves its connection in the pool with the next number, or closed.\<close>

lemma tls_exchange_moves:
  assumes "tls_exchange E peer message conn t = (r, t')"
  obtains (pooled) response where "r = Some (Ok response)"
      "t' = t\<lparr>tls_busy := remove1 conn (tls_busy t), tls_connections := tls_connections t @ [conn\<lparr>tc_queryId := tc_queryId conn + 1\<rparr>]\<rparr>"
    | (failed) "\<forall>response. r \<noteq> Some (Ok response)"
      "t' = t\<lparr>tls_busy := remove1 conn (tls_busy t), tls_closed := tc_id conn # tls_closed t\<rparr>"
proof -
  from assms consider response where "r = Some (Ok response)"
      "t' = t\<lparr>tls_busy := remove1 conn (tls_busy t), tls_connections := tls_connections t @ [conn\<lparr>tc_queryId := tc_queryId conn + 1\<rparr>]\<rparr>"
    | "\<forall>response. r \<noteq> Some (Ok response)"
      "t' = t\<lparr>tls_busy := remove1 conn (tls_busy t), tls_closed := tc_id conn # tls_closed t\<rparr>"
    unfolding tls_exchange_def Let_def by (auto split: res.splits option.splits)
  then show ?thesis using pooled failed by cases
qed

lemma pool_inv_step: "tls_step E t t' \<Longrightarrow> pool_inv t \<Longrightarrow> pool_inv t'"
proof (induction rule: tls_step.induct)
  case (take_pooled t conn t')
  then show ?case by (auto simp: pool_inv_def pool_ids_def tls_PopFront_def split: list.splits)
next
  case (take_new t conn t')
  then show ?case by (auto simp: tls_dial_def pool_inv_def pool_ids_def Let_def atLeast0_lessThan_Suc)
next
  case (finish conn t peer message r t')
  from finish.hyps(2) have "pool_ids t' = pool_ids t \<and> tls_next t' = tls_next t"
    by (cases rule: tls_exchange_moves) (simp_all add: pool_ids_def mset_busy [OF finish.hyps(1)] del: mset_map)
  then show ?case using finish.prems by (simp add: pool_inv_def)
next
  case (close_all t)
  then show ?case by (simp add: pool_inv_def pool_ids_def tls_Close_def add.commute add.left_commute)
qed

text \<open>
  C22: However the queries of a TLS transport overlap, no connection is used by two queries at the same time, none that is in the pool or in use
  was closed, and no connection is lost: each that was made is in the pool, in use or closed.
\<close>

theorem tls_connections_exclusive:
  assumes "(tls_step E)\<^sup>*\<^sup>* NewTLSRaw t"
  shows "distinct (map tc_id (tls_connections t)) \<and> distinct (map tc_id (tls_busy t)) \<and>
    set (map tc_id (tls_connections t)) \<inter> set (map tc_id (tls_busy t)) = {} \<and>
    (set (map tc_id (tls_connections t)) \<union> set (map tc_id (tls_busy t))) \<inter> set (tls_closed t) = {} \<and>
    set (map tc_id (tls_connections t)) \<union> set (map tc_id (tls_busy t)) \<union> set (tls_closed t) = {..<tls_next t}"
proof -
  from assms have "pool_inv t" by (induction rule: rtranclp_induct) (auto intro: pool_inv_step pool_inv_New)
  then show ?thesis unfolding pool_inv_iff by (auto simp: distinct_append)
qed

text \<open>
  A query over TLS fails only when a new connection fails: when a pooled connection does, it is closed and the query is sent again over a
  new one.
\<close>

theorem tls_Exchange_retries:
  assumes "tls_Exchange E peer dialErr message t = (Some (Err e), t')"
  shows "dialErr = Some e \<or>
    (\<exists>t2 conn. dialErr = None \<and> tc_queryId conn = 0 \<and> tc_id conn = tls_next t \<and> tls_exchange E peer message conn t2 = (Some (Err e), t') \<and>
       tls_next t2 = Suc (tls_next t))"
proof -
  define fresh where "fresh = (\<lambda>t. case dialErr of
      Some e \<Rightarrow> (Some (Err e), t) | None \<Rightarrow> (case tls_dial t of (conn, t') \<Rightarrow> tls_exchange E peer message conn t'))"
  have step: ?thesis if "fresh t1 = (Some (Err e), t')" and "tls_next t1 = tls_next t" for t1
    using that by (cases dialErr) (force simp: fresh_def tls_dial_def Let_def)+
  show ?thesis
  proof (cases "tls_connections t")
    case Nil
    then show ?thesis
      using assms step [of t] by (simp add: tls_Exchange_def fresh_def [symmetric] tls_PopFront_def)
  next
    case (Cons conn cs)
    define t1 where "t1 = t\<lparr>tls_connections := cs, tls_busy := conn # tls_busy t\<rparr>"
    obtain r t2 where x: "tls_exchange E peer message conn t1 = (r, t2)" by (meson prod.exhaust)
    from x have "tls_next t2 = tls_next t" by (cases rule: tls_exchange_moves) (auto simp: t1_def)
    moreover have "fresh t2 = (Some (Err e), t')"
      using assms Cons x unfolding tls_Exchange_def fresh_def [symmetric]
      by (auto simp: tls_PopFront_def t1_def [symmetric] Let_def split: option.splits res.splits)
    ultimately show ?thesis using step by blast
  qed
qed

text \<open>A query that is answered after \<open>Close\<close> puts its connection into the pool, where nothing closes it.\<close>

lemma close_misses_busy:
  assumes "tls_exchange E peer message conn (tls_Close t) = (Some (Ok response), t')"
  shows "tc_id conn \<in> set (map tc_id (tls_connections t'))"
  using assms by (cases rule: tls_exchange_moves) auto

section \<open>Instances\<close>

definition demo_wire :: wire_env where
  "demo_wire = \<lparr>we_Len = (\<lambda>m. 12), we_Pack = (\<lambda>m. Inr (be_bytes 2 (unat (msg_Id m)) @ replicate 10 CHR 0x00)),
     we_Unpack = (\<lambda>b. Inr (dns_msg_zero\<lparr>msg_Id := word_of_nat (be_value (take 2 b))\<rparr>))\<rparr>"

lemma demo_wire_ok: "wire_ok demo_wire ident dns_msg_zero"
  by (simp add: wire_ok_def demo_wire_def be_value_word)

theorem stream_roundtrip_witness:
  "\<exists>bytes. WriteMessage demo_wire 5 dns_msg_zero = Ok bytes \<and>
     ReadMessage demo_wire \<lparr>rd_data = bytes @ ''next'', rd_end = ioEOF\<rparr> =
       Some (Ok (dns_msg_zero\<lparr>msg_Id := 5\<rparr>, \<lparr>rd_data = ''next'', rd_end = ioEOF\<rparr>))"
  using stream_roundtrip [OF demo_wire_ok, of 5] by (auto simp: demo_wire_def)

definition demo_echo :: stream_conn where
  "demo_echo = \<lparr>sc_Write = (\<lambda>_. None), sc_Read = (\<lambda>b. \<lparr>rd_data = b, rd_end = ioEOF\<rparr>)\<rparr>"

theorem tls_connections_exclusive_witness:
  "\<exists>t. (tls_step demo_wire)\<^sup>*\<^sup>* NewTLSRaw t \<and> map tc_id (tls_connections t) = [] \<and> map tc_id (tls_busy t) = [1, 0] \<and>
     distinct (map tc_id (tls_busy t))"
proof -
  let ?t = "snd (tls_dial (snd (tls_dial NewTLSRaw)))"
  have "tls_step demo_wire NewTLSRaw (snd (tls_dial NewTLSRaw))" by (rule take_new [OF surjective_pairing])
  moreover have "tls_step demo_wire (snd (tls_dial NewTLSRaw)) ?t" by (rule take_new [OF surjective_pairing])
  ultimately have r: "(tls_step demo_wire)\<^sup>*\<^sup>* NewTLSRaw ?t" by (meson converse_rtranclp_into_rtranclp rtranclp.rtrancl_refl)
  have "map tc_id (tls_connections ?t) = []" "map tc_id (tls_busy ?t) = [1, 0]" by (simp_all add: tls_dial_def NewTLSRaw_def Let_def)
  moreover have "distinct (map tc_id (tls_busy ?t))" using tls_connections_exclusive [OF r] by blast
  ultimately show ?thesis using r by (intro exI [of _ ?t] conjI)
qed

definition demo_broken :: stream_conn where
  "demo_broken = \<lparr>sc_Write = (\<lambda>_. Some (EForeign ''broken pipe'')), sc_Read = (\<lambda>b. \<lparr>rd_data = [], rd_end = ioEOF\<rparr>)\<rparr>"

theorem tls_Exchange_retries_witness:
  "\<exists>e t' t2 conn. tls_Exchange demo_wire (\<lambda>_. demo_broken) None dns_msg_zero
       (NewTLSRaw\<lparr>tls_connections := [\<lparr>tc_id = 0, tc_queryId = 4\<rparr>], tls_next := 1\<rparr>) = (Some (Err e), t') \<and> tc_id conn = 1 \<and>
     tls_exchange demo_wire (\<lambda>_. demo_broken) dns_msg_zero conn t2 = (Some (Err e), t')"
proof -
  let ?t = "NewTLSRaw\<lparr>tls_connections := [\<lparr>tc_id = 0, tc_queryId = 4\<rparr>], tls_next := 1\<rparr>"
  obtain e t' where x: "tls_Exchange demo_wire (\<lambda>_. demo_broken) None dns_msg_zero ?t = (Some (Err e), t')"
    by (simp add: tls_Exchange_def tls_PopFront_def NewTLSRaw_def tls_exchange_def WriteMessage_def demo_wire_def demo_broken_def tls_dial_def Let_def)
  from tls_Exchange_retries [OF x] show ?thesis using x by fastforce
qed

end
