(* ===== verification/Dns_Local.thy ===== *)
theory Dns_Local
  imports Dns_Hosts Dns_Wire Rule_Action
begin

text \<open>
  The transport that asks the servers of the system (\<open>core/dns/transport/local\<close>): the configuration from \<open>resolv.conf\<close>
  (\<open>resolv.go\<close>, \<open>resolv_unix.go\<close>, \<open>resolv_default.go\<close>), and the queries with it (\<open>local.go\<close>).  \<open>resolv_env\<close> is what the
  configuration is read from, \<open>local_env\<close> the network: dialing, packing, the names of servers; \<open>'w\<close> is the state of the world, which every dialing
  changes.  A call that never returns is \<open>None\<close>: dialing without a deadline in the context, and reading and writing on a connection without
  a deadline, may block.
\<close>

section \<open>The configuration\<close>

record dnsConfig =
  dc_servers :: "string list"
  dc_search :: "string list"
  dc_ndots :: int
  dc_timeout :: int
  dc_attempts :: int
  dc_rotate :: bool
  dc_unknownOpt :: bool
  dc_lookup :: "string list"
  dc_err :: "go_error option"
  dc_mtime :: int
  dc_soffset :: "32 word"
  dc_singleRequest :: bool
  dc_useTCP :: bool
  dc_trustAD :: bool
  dc_noReload :: bool

text \<open>An open file: the result of its \<open>Stat\<close>, a modification time, and its contents.\<close>

record resolv_env =
  re_Open :: "string \<Rightarrow> go_error + ((go_error + int) \<times> rd)"
  re_Stat :: "string \<Rightarrow> go_error + int"
  re_ParseAddr :: "string \<Rightarrow> go_error + addr"
  re_Fqdn :: "string \<Rightarrow> string"
  re_Hostname :: "go_error + string"

definition defaultNS :: "string list" where
  "defaultNS = [''127.0.0.1:53'', ''[::1]:53'']"

definition dnsDefaultSearch :: "resolv_env \<Rightarrow> string list" where
  "dnsDefaultSearch E =
     (case re_Hostname E of
        Inl e \<Rightarrow> []
      | Inr hn \<Rightarrow>
          let i = strings_Index hn ''.'' in
          if i \<ge> 0 \<and> i < int (length hn) - 1 then [re_Fqdn E (drop (nat (i + 1)) hn)] else [])"

definition net_JoinHostPort :: "string \<Rightarrow> string \<Rightarrow> string" where
  "net_JoinHostPort host port =
     (if CHR '':'' \<in> set host then ''['' @ host @ '']:'' @ port else host @ '':'' @ port)"

definition big :: nat where "big = 0xFFFFFF"

fun dtoi_loop :: "nat \<Rightarrow> nat \<Rightarrow> string \<Rightarrow> nat \<times> nat \<times> bool" where
  "dtoi_loop n i [] = (if i = 0 then (0, 0, False) else (n, i, True))"
| "dtoi_loop n i (c # s) =
     (case digit_val c of
        None \<Rightarrow> if i = 0 then (0, 0, False) else (n, i, True)
      | Some d \<Rightarrow> let n' = n * 10 + d in if n' \<ge> big then (big, i, False) else dtoi_loop n' (Suc i) s)"

definition dtoi :: "string \<Rightarrow> nat \<times> nat \<times> bool" where
  "dtoi s = dtoi_loop 0 0 s"

definition opt_line :: "string \<Rightarrow> dnsConfig \<Rightarrow> dnsConfig" where
  "opt_line s conf =
     (if strings_HasPrefix s ''ndots:'' then
        let n = fst (dtoi (drop 6 s)) in conf\<lparr>dc_ndots := (if n > 15 then 15 else int n)\<rparr>
      else if strings_HasPrefix s ''timeout:'' then
        let n = fst (dtoi (drop 8 s)) in conf\<lparr>dc_timeout := (if n < 1 then 1 else int n) * 10 ^ 9\<rparr>
      else if strings_HasPrefix s ''attempts:'' then
        let n = fst (dtoi (drop 9 s)) in conf\<lparr>dc_attempts := (if n < 1 then 1 else int n)\<rparr>
      else if s = ''rotate'' then conf\<lparr>dc_rotate := True\<rparr>
      else if s = ''single-request'' \<or> s = ''single-request-reopen'' then conf\<lparr>dc_singleRequest := True\<rparr>
      else if s = ''use-vc'' \<or> s = ''usevc'' \<or> s = ''tcp'' then conf\<lparr>dc_useTCP := True\<rparr>
      else if s = ''trust-ad'' then conf\<lparr>dc_trustAD := True\<rparr>
      else if s = ''edns0'' then conf
      else if s = ''no-reload'' then conf\<lparr>dc_noReload := True\<rparr>
      else conf\<lparr>dc_unknownOpt := True\<rparr>)"

definition config_fields :: "resolv_env \<Rightarrow> string list \<Rightarrow> dnsConfig \<Rightarrow> dnsConfig" where
  "config_fields E f conf =
     (case f of
        [] \<Rightarrow> conf
      | key # args \<Rightarrow>
          if key = ''nameserver'' then
            (if args \<noteq> [] \<and> length (dc_servers conf) < 3 then
               (case re_ParseAddr E (hd args) of
                  Inl e \<Rightarrow> conf
                | Inr a \<Rightarrow> conf\<lparr>dc_servers := dc_servers conf @ [net_JoinHostPort (hd args) ''53'']\<rparr>)
             else conf)
          else if key = ''domain'' then
            (if args \<noteq> [] then conf\<lparr>dc_search := [re_Fqdn E (hd args)]\<rparr> else conf)
          else if key = ''search'' then conf\<lparr>dc_search := filter (\<lambda>name. name \<noteq> ''.'') (map (re_Fqdn E) args)\<rparr>
          else if key = ''options'' then fold opt_line args conf
          else if key = ''lookup'' then conf\<lparr>dc_lookup := args\<rparr>
          else conf\<lparr>dc_unknownOpt := True\<rparr>)"

definition config_line :: "resolv_env \<Rightarrow> string \<Rightarrow> dnsConfig \<Rightarrow> dnsConfig" where
  "config_line E line conf =
     (if line \<noteq> [] \<and> (hd line = CHR '';'' \<or> hd line = CHR ''#'') then conf
      else config_fields E (strings_Fields line) conf)"

definition initial_config :: dnsConfig where
  "initial_config = \<lparr>dc_servers = [], dc_search = [], dc_ndots = 1, dc_timeout = 5 * 10 ^ 9, dc_attempts = 2,
     dc_rotate = False, dc_unknownOpt = False, dc_lookup = [], dc_err = None, dc_mtime = 0, dc_soffset = 0,
     dc_singleRequest = False, dc_useTCP = False, dc_trustAD = False, dc_noReload = False\<rparr>"

definition default_config :: "resolv_env \<Rightarrow> go_error \<Rightarrow> dnsConfig" where
  "default_config E e = initial_config\<lparr>dc_servers := defaultNS, dc_search := dnsDefaultSearch E, dc_err := Some e\<rparr>"

definition dnsReadConfig :: "resolv_env \<Rightarrow> string \<Rightarrow> dnsConfig" where
  "dnsReadConfig E name =
     (case re_Open E name of
        Inl e \<Rightarrow> default_config E e
      | Inr (Inl e, _) \<Rightarrow> default_config E e
      | Inr (Inr mtime, r) \<Rightarrow>
          let conf = fold (config_line E) (fst (file_lines r)) (initial_config\<lparr>dc_mtime := mtime\<rparr>);
              conf1 = (if dc_servers conf = [] then conf\<lparr>dc_servers := defaultNS\<rparr> else conf)
          in if dc_search conf1 = [] then conf1\<lparr>dc_search := dnsDefaultSearch E\<rparr> else conf1)"

section \<open>Using the configuration\<close>

definition serverOffset :: "dnsConfig \<Rightarrow> 32 word \<times> dnsConfig" where
  "serverOffset c = (if dc_rotate c then (dc_soffset c, c\<lparr>dc_soffset := dc_soffset c + 1\<rparr>) else (0, c))"

definition avoidDNS :: "string \<Rightarrow> bool" where
  "avoidDNS name =
     (if name = [] then True
      else strings_HasSuffix (if last name = CHR ''.'' then butlast name else name) ''.onion'')"

definition nameList :: "int \<Rightarrow> string list \<Rightarrow> string \<Rightarrow> string list" where
  "nameList ndots search name =
     (let l = length name; rooted = (l > 0 \<and> last name = CHR ''.'') in
      if l > 254 \<or> (l = 254 \<and> \<not> rooted) then []
      else if rooted then (if avoidDNS name then [] else [name])
      else
        let hasNdots = (int (length (filter (\<lambda>c. c = CHR ''.'') name)) \<ge> ndots);
            name' = name @ ''.'';
            own = (if \<not> avoidDNS name' then [name'] else []);
            found = filter (\<lambda>fqdn. \<not> avoidDNS fqdn \<and> length fqdn \<le> 254) (map (\<lambda>suffix. name' @ suffix) search)
        in (if hasNdots then own else []) @ found @ (if \<not> hasNdots then own else []))"

record resolverConfig =
  rc_lastChecked :: int
  rc_dnsConfig :: dnsConfig

text \<open>\<open>None\<close> is the state before the first use; \<open>taken\<close> says that another goroutine holds the semaphore.\<close>

definition tryUpdate :: "resolv_env \<Rightarrow> int \<Rightarrow> bool \<Rightarrow> string \<Rightarrow> resolverConfig option \<Rightarrow> resolverConfig" where
  "tryUpdate E now taken name st =
     (let conf = (case st of Some c \<Rightarrow> c | None \<Rightarrow> \<lparr>rc_lastChecked = now, rc_dnsConfig = dnsReadConfig E ''/etc/resolv.conf''\<rparr>) in
      if dc_noReload (rc_dnsConfig conf) \<or> taken \<or> rc_lastChecked conf > now - 5 * 10 ^ 9 then conf
      else
        let conf1 = conf\<lparr>rc_lastChecked := now\<rparr>;
            mtime = (case re_Stat E name of Inl e \<Rightarrow> 0 | Inr t \<Rightarrow> t)
        in if mtime = dc_mtime (rc_dnsConfig conf) then conf1 else conf1\<lparr>rc_dnsConfig := dnsReadConfig E name\<rparr>)"

section \<open>Queries\<close>

record datagram_conn =
  dg_Write :: "int option \<Rightarrow> string \<Rightarrow> go_error option option"
  dg_Read :: "int option \<Rightarrow> string \<Rightarrow> (go_error + string) option"

text \<open>
  Connections with the deadline that is set on them.  A stream gives the bytes that arrive and the error that follows them; without one it blocks
  behind them.
\<close>

record timed_conn =
  td_Write :: "int option \<Rightarrow> string \<Rightarrow> go_error option option"
  td_Read :: "int option \<Rightarrow> string \<Rightarrow> string \<times> go_error option"

text \<open>
  Dialing takes the deadline of the context.  \<open>le_CauseNil\<close> is what \<open>E.Cause\<close> does with an error that is nil.
\<close>

record 'w local_env =
  le_wire :: wire_env
  le_Now :: "'w \<Rightarrow> int"
  le_DialUDP :: "int option \<Rightarrow> Socksaddr \<Rightarrow> 'w \<Rightarrow> (go_error + datagram_conn) option \<times> 'w"
  le_DialTCP :: "int option \<Rightarrow> Socksaddr \<Rightarrow> 'w \<Rightarrow> (go_error + timed_conn) option \<times> 'w"
  le_EMSGSIZE :: "go_error \<Rightarrow> bool"
  le_RandomId :: "'w \<Rightarrow> 16 word"
  le_SetEdns0 :: "dns_msg \<Rightarrow> dns_msg"
  le_ParseSocksaddr :: "string \<Rightarrow> Socksaddr"
  le_Addresses :: "dns_msg \<Rightarrow> addr list"
  le_Errors :: "go_error list \<Rightarrow> go_error"
  le_CauseNil :: "string \<Rightarrow> dns_msg res"

text \<open>\<open>ctx.Deadline()\<close> and \<open>SetDeadline\<close>: the deadline of the context, if it has one, but at most the timeout from now on.\<close>

definition conn_deadline :: "int option \<Rightarrow> int \<Rightarrow> int \<Rightarrow> int option" where
  "conn_deadline ctxDeadline timeout now =
     (case ctxDeadline of
        Some deadline \<Rightarrow>
          if deadline \<noteq> 0 then Some (let newDeadline = now + timeout in if deadline > newDeadline then newDeadline else deadline) else None
      | None \<Rightarrow> None)"

text \<open>Whether reading one message ends within the bytes that arrive.\<close>

definition message_arrives :: "string \<Rightarrow> bool" where
  "message_arrives d \<longleftrightarrow> 2 \<le> length d \<and> (let n = be_value (take 2 d) in n < 10 \<or> 2 + n \<le> length d)"

text \<open>Reading a message ends, and without a panic.\<close>

definition read_result :: "('a \<times> rd) res option \<Rightarrow> go_error + 'a" where
  "read_result r = (case r of Some (Ok (m, _)) \<Rightarrow> Inr m | Some (Err e) \<Rightarrow> Inl e | _ \<Rightarrow> Inl ErrInvalid)"

definition read_timed :: "wire_env \<Rightarrow> string \<times> go_error option \<Rightarrow> (go_error + dns_msg) option" where
  "read_timed E x =
     (case x of
        (d, Some e) \<Rightarrow> Some (read_result (ReadMessage E \<lparr>rd_data = d, rd_end = e\<rparr>))
      | (d, None) \<Rightarrow> if message_arrives d then Some (read_result (ReadMessage E \<lparr>rd_data = d, rd_end = ioEOF\<rparr>)) else None)"

definition exchangeTCP ::
    "'w local_env \<Rightarrow> int option \<Rightarrow> Socksaddr \<Rightarrow> dns_msg \<Rightarrow> int \<Rightarrow> 'w \<Rightarrow> (go_error + dns_msg) option \<times> 'w" where
  "exchangeTCP L ctxDeadline server request timeout w =
     (case le_DialTCP L ctxDeadline server w of
        (None, w') \<Rightarrow> (None, w')
      | (Some (Inl e), w') \<Rightarrow> (Some (Inl e), w')
      | (Some (Inr conn), w') \<Rightarrow>
          let deadline = conn_deadline ctxDeadline timeout (le_Now L w') in
          (case WriteMessage (le_wire L) 0 request of
             Ok bytes \<Rightarrow>
               (case td_Write conn deadline bytes of
                  None \<Rightarrow> (None, w')
                | Some (Some e) \<Rightarrow> (Some (Inl e), w')
                | Some None \<Rightarrow> (read_timed (le_wire L) (td_Read conn deadline bytes), w'))
           | Err e \<Rightarrow> (Some (Inl e), w')
           | Panic s \<Rightarrow> (Some (Inl ErrInvalid), w')))"

definition exchangeUDP ::
    "'w local_env \<Rightarrow> int option \<Rightarrow> Socksaddr \<Rightarrow> dns_msg \<Rightarrow> int \<Rightarrow> 'w \<Rightarrow> (go_error + dns_msg) option \<times> 'w" where
  "exchangeUDP L ctxDeadline server request timeout w =
     (case le_DialUDP L ctxDeadline server w of
        (None, w') \<Rightarrow> (None, w')
      | (Some (Inl e), w') \<Rightarrow> (Some (Inl e), w')
      | (Some (Inr conn), w') \<Rightarrow>
          let deadline = conn_deadline ctxDeadline timeout (le_Now L w') in
          (case we_Pack (le_wire L) request of
             Inl e \<Rightarrow> (Some (Inl (ECause e [AStr ''pack request''])), w')
           | Inr rawMessage \<Rightarrow>
               (case dg_Write conn deadline rawMessage of
                  None \<Rightarrow> (None, w')
                | Some (Some e) \<Rightarrow>
                    if le_EMSGSIZE L e then exchangeTCP L ctxDeadline server request timeout w'
                    else (Some (Inl (ECause e [AStr ''write request''])), w')
                | Some None \<Rightarrow>
                    (case dg_Read conn deadline rawMessage of
                       None \<Rightarrow> (None, w')
                     | Some (Inl e) \<Rightarrow>
                         if le_EMSGSIZE L e then exchangeTCP L ctxDeadline server request timeout w'
                         else (Some (Inl (ECause e [AStr ''read response''])), w')
                     | Some (Inr buffer) \<Rightarrow>
                         (case we_Unpack (le_wire L) buffer of
                            Inl e \<Rightarrow> (Some (Inl (ECause e [AStr ''unpack response''])), w')
                          | Inr response \<Rightarrow>
                              if msg_Truncated response then exchangeTCP L ctxDeadline server request timeout w'
                              else (Some (Inr response), w'))))))"

text \<open>The bit for authenticated data is not part of the messages of the model.\<close>

definition exchangeOne ::
    "'w local_env \<Rightarrow> int option \<Rightarrow> Socksaddr \<Rightarrow> dns_Question \<Rightarrow> int \<Rightarrow> bool \<Rightarrow> 'w \<Rightarrow> (go_error + dns_msg) option \<times> 'w" where
  "exchangeOne L ctxDeadline server question timeout useTCP w =
     (let server' = (if sa_Port server = 0 then server\<lparr>sa_Port := 53\<rparr> else server);
          request = le_SetEdns0 L (dns_msg_zero\<lparr>msg_Id := le_RandomId L w, msg_RecursionDesired := True, msg_Question := [question]\<rparr>)
      in if \<not> useTCP then exchangeUDP L ctxDeadline server' request timeout w else exchangeTCP L ctxDeadline server' request timeout w)"

text \<open>One round over the servers, from the offset on; the index is computed in 32 bits.\<close>

definition server_at :: "string list \<Rightarrow> 32 word \<Rightarrow> nat \<Rightarrow> string" where
  "server_at servers off j = servers ! unat ((off + word_of_nat j) mod word_of_nat (length servers))"

fun try_servers ::
    "(string \<Rightarrow> 'w \<Rightarrow> (go_error + dns_msg) option \<times> 'w) \<Rightarrow> string list \<Rightarrow> go_error option \<Rightarrow> 'w \<Rightarrow> (go_error option + dns_msg) option \<times> 'w" where
  "try_servers ask [] lastErr w = (Some (Inl lastErr), w)"
| "try_servers ask (s # ss) lastErr w =
     (case ask s w of
        (None, w') \<Rightarrow> (None, w')
      | (Some (Inl e), w') \<Rightarrow> try_servers ask ss (Some e) w'
      | (Some (Inr response), w') \<Rightarrow> (Some (Inr response), w'))"

definition tryOneName ::
    "'w local_env \<Rightarrow> int option \<Rightarrow> dnsConfig \<Rightarrow> string \<Rightarrow> dns_Question \<Rightarrow> 'w \<Rightarrow> dns_msg res option \<times> dnsConfig \<times> 'w" where
  "tryOneName L ctxDeadline config fqdn question w =
     (case serverOffset config of
        (off, config') \<Rightarrow>
          let servers = dc_servers config;
              round = map (server_at servers off) [0..<length servers];
              ask = (\<lambda>server. exchangeOne L ctxDeadline (le_ParseSocksaddr L server) (question\<lparr>q_Name := fqdn\<rparr>) (dc_timeout config) (dc_useTCP config))
          in case try_servers ask (concat (replicate (nat (dc_attempts config)) round)) None w of
               (None, w') \<Rightarrow> (None, config', w')
             | (Some (Inr response), w') \<Rightarrow> (Some (Ok response), config', w')
             | (Some (Inl lastErr), w') \<Rightarrow>
                 (Some (case lastErr of Some e \<Rightarrow> Err (ECause e [AStr fqdn]) | None \<Rightarrow> le_CauseNil L fqdn), config', w'))"

text \<open>
  A response of Go may be nil: \<open>Ok None\<close> is a nil response without an error.
\<close>

fun single_loop ::
    "'w local_env \<Rightarrow> int option \<Rightarrow> dns_Question \<Rightarrow> string list \<Rightarrow> go_error option \<Rightarrow> dnsConfig \<Rightarrow> 'w \<Rightarrow>
     dns_msg option res option \<times> dnsConfig \<times> 'w" where
  "single_loop L d q [] lastErr c w = (Some (case lastErr of None \<Rightarrow> Ok None | Some e \<Rightarrow> Err e), c, w)"
| "single_loop L d q (fqdn # fs) lastErr c w =
     (case tryOneName L d c fqdn q w of
        (None, c', w') \<Rightarrow> (None, c', w')
      | (Some (Panic p), c', w') \<Rightarrow> (Some (Panic p), c', w')
      | (Some (Err e), c', w') \<Rightarrow> single_loop L d q fs (Some e) c' w'
      | (Some (Ok response), c', w') \<Rightarrow> (Some (Ok (Some response)), c', w'))"

definition exchangeSingleRequest ::
    "'w local_env \<Rightarrow> int option \<Rightarrow> dns_Question \<Rightarrow> string \<Rightarrow> dnsConfig \<Rightarrow> 'w \<Rightarrow> dns_msg option res option \<times> dnsConfig \<times> 'w" where
  "exchangeSingleRequest L d q domain c w = single_loop L d q (nameList (dc_ndots c) (dc_search c) domain) None c w"

text \<open>What a racer reports: a response that carries no address is an error.\<close>

definition racer_result :: "'w local_env \<Rightarrow> dns_msg res \<Rightarrow> dns_msg res" where
  "racer_result L r =
     bindR r (\<lambda>response.
       if msg_Rcode response \<noteq> RcodeSuccess then Err (ERcode (msg_Rcode response))
       else if length (le_Addresses L response) = 0 then Err (ERcode RcodeSuccess)
       else Ok response)"

text \<open>The racers, one for each name; one that never returns reports nothing.\<close>

fun racers ::
    "'w local_env \<Rightarrow> int option \<Rightarrow> dns_Question \<Rightarrow> string list \<Rightarrow> dnsConfig \<Rightarrow> 'w \<Rightarrow> dns_msg res option list \<times> dnsConfig \<times> 'w" where
  "racers L d q [] c w = ([], c, w)"
| "racers L d q (fqdn # fs) c w =
     (case tryOneName L d c fqdn q w of
        (r, c', w') \<Rightarrow> case racers L d q fs c' w' of (rs, c2, w2) \<Rightarrow> (map_option (racer_result L) r # rs, c2, w2))"

text \<open>What the loop of \<open>exchangeParallel\<close> receives, in this order: results of racers, or the end of the context.\<close>

datatype par_event = Reported nat | CtxDone go_error

fun par_loop ::
    "'w local_env \<Rightarrow> dns_msg res option list \<Rightarrow> go_error list \<Rightarrow> par_event list \<Rightarrow> dns_msg res option" where
  "par_loop L results errs [] = None"
| "par_loop L results errs (CtxDone e # es) = Some (Err e)"
| "par_loop L results errs (Reported i # es) =
     (case results ! i of
        None \<Rightarrow> par_loop L results errs es
      | Some (Ok response) \<Rightarrow> Some (Ok response)
      | Some (Panic p) \<Rightarrow> Some (Panic p)
      | Some (Err e) \<Rightarrow>
          if length (errs @ [e]) = length results then Some (Err (le_Errors L (errs @ [e])))
          else par_loop L results (errs @ [e]) es)"

text \<open>\<open>None\<close> is a call that still waits when the events are used up.\<close>

definition exchangeParallel ::
    "'w local_env \<Rightarrow> int option \<Rightarrow> dns_Question \<Rightarrow> string \<Rightarrow> par_event list \<Rightarrow> dnsConfig \<Rightarrow> 'w \<Rightarrow>
     dns_msg option res option \<times> dnsConfig \<times> 'w" where
  "exchangeParallel L d q domain events c w =
     (case racers L d q (nameList (dc_ndots c) (dc_search c) domain) c w of
        (results, c', w') \<Rightarrow> (map_option (\<lambda>r. bindR r (\<lambda>m. Ok (Some m))) (par_loop L results [] events), c', w'))"

record local_Transport =
  lt_hosts :: hosts_File
  lt_resolv :: "resolverConfig option"

definition local_NewTransport :: local_Transport where
  "local_NewTransport = \<lparr>lt_hosts = NewFile DefaultPath, lt_resolv = None\<rparr>"

definition local_Exchange ::
    "('a, 'b, 'v) dns_env \<Rightarrow> hosts_env \<Rightarrow> resolv_env \<Rightarrow> 'w local_env \<Rightarrow> int \<Rightarrow> bool \<Rightarrow> int option \<Rightarrow> par_event list \<Rightarrow> dns_msg \<Rightarrow> local_Transport \<Rightarrow> 'w \<Rightarrow>
     dns_msg option res option \<times> local_Transport \<times> 'w" where
  "local_Exchange D H E L now taken ctxDeadline events message t w =
     (case msg_Question message of
        [] \<Rightarrow> (Some (Panic ''index out of range''), t, w)
      | question # _ \<Rightarrow>
          let isIP = (q_Qtype question = TypeA \<or> q_Qtype question = TypeAAAA);
              found = (if isIP then file_Lookup H now (FqdnToDomain D (q_Name question)) (lt_hosts t) else ([], lt_hosts t));
              t1 = t\<lparr>lt_hosts := snd found\<rparr>
          in if fst found \<noteq> [] then (Some (Ok (Some (FixedResponse (msg_Id message) question (fst found) DefaultDNSTTL))), t1, w)
             else
               let rc = tryUpdate E now taken ''/etc/resolv.conf'' (lt_resolv t);
                   finish = (\<lambda>c. t1\<lparr>lt_resolv := Some (rc\<lparr>rc_dnsConfig := c\<rparr>)\<rparr>)
               in if dc_singleRequest (rc_dnsConfig rc) \<or> \<not> isIP
                  then (case exchangeSingleRequest L ctxDeadline question (q_Name question) (rc_dnsConfig rc) w of
                          (r, c, w') \<Rightarrow> (r, finish c, w'))
                  else (case exchangeParallel L ctxDeadline question (q_Name question) events (rc_dnsConfig rc) w of
                          (r, c, w') \<Rightarrow> (r, finish c, w')))"

end
