(* ===== verification/Dns_Local_Properties.thy ===== *)
theory Dns_Local_Properties
  imports Dns_Local
begin

text \<open>
  What is shown of the transport for the servers of the system: every configuration that is read can be used, one server that answers is
  enough, and a query for a name that may be asked for returns a response or an error.
\<close>

section \<open>The configuration\<close>

text \<open>What every step of reading keeps: at most three servers, and numbers in their ranges.\<close>

definition config_ok :: "resolv_env \<Rightarrow> dnsConfig \<Rightarrow> bool" where
  "config_ok E c \<longleftrightarrow> length (dc_servers c) \<le> 3 \<and> 0 \<le> dc_ndots c \<and> dc_ndots c \<le> 15 \<and>
     10 ^ 9 \<le> dc_timeout c \<and> dc_timeout c \<le> int big * 10 ^ 9 \<and> 1 \<le> dc_attempts c \<and> dc_attempts c \<le> int big \<and>
     set (dc_search c) \<subseteq> range (re_Fqdn E)"

lemma dtoi_loop_bound: "n \<le> big \<Longrightarrow> fst (dtoi_loop n i s) \<le> big"
  by (induction n i s rule: dtoi_loop.induct) (auto simp: Let_def split: option.splits)

lemma dtoi_bound: "fst (dtoi s) \<le> big"
  by (simp add: dtoi_def dtoi_loop_bound)

lemma config_ok_opt: "config_ok E c \<Longrightarrow> config_ok E (opt_line s c)"
proof -
  assume ok: "config_ok E c"
  have "int (fst (dtoi u)) \<le> int big" for u using dtoi_bound [of u] by simp
  moreover have "1 \<le> int big" by (simp add: big_def)
  ultimately show ?thesis using ok by (auto simp: opt_line_def config_ok_def Let_def intro!: mult_right_mono)
qed

lemma config_ok_fold: "(\<And>x c. config_ok E c \<Longrightarrow> config_ok E (f x c)) \<Longrightarrow> config_ok E c \<Longrightarrow> config_ok E (fold f xs c)"
  by (induction xs arbitrary: c) auto

lemma config_ok_fields: "config_ok E c \<Longrightarrow> config_ok E (config_fields E f c)"
proof (cases f)
  case (Cons key args)
  assume ok: "config_ok E c"
  have "config_ok E (fold opt_line args c)" using ok by (intro config_ok_fold config_ok_opt)
  moreover have "set (filter (\<lambda>n. n \<noteq> ''.'') (map (re_Fqdn E) args)) \<subseteq> range (re_Fqdn E)" by auto
  ultimately show ?thesis using ok by (simp add: Cons config_fields_def config_ok_def split: sum.split)
qed (simp add: config_fields_def)

lemma config_ok_line: "config_ok E c \<Longrightarrow> config_ok E (config_line E l c)"
  by (simp add: config_line_def config_ok_fields)

lemma dnsDefaultSearch_Fqdn: "set (dnsDefaultSearch E) \<subseteq> range (re_Fqdn E)"
  by (auto simp: dnsDefaultSearch_def Let_def split: sum.splits)

text \<open>The configuration in use can be used, and every query leaves it so.\<close>

definition usable :: "resolv_env \<Rightarrow> dnsConfig \<Rightarrow> bool" where
  "usable E c \<longleftrightarrow> config_ok E c \<and> dc_servers c \<noteq> []"

definition resolv_ok :: "resolv_env \<Rightarrow> resolverConfig option \<Rightarrow> bool" where
  "resolv_ok E st \<longleftrightarrow> (case st of None \<Rightarrow> True | Some rc \<Rightarrow> usable E (rc_dnsConfig rc))"

lemma dnsReadConfig_ok: "usable E (dnsReadConfig E name)"
proof -
  have ns: "length defaultNS \<le> 3" "defaultNS \<noteq> []" by (simp_all add: defaultNS_def)
  have init: "config_ok E (initial_config\<lparr>dc_mtime := m\<rparr>)" for m by (simp add: config_ok_def initial_config_def big_def)
  have "config_ok E (default_config E e)" for e
    using init [of 0] ns dnsDefaultSearch_Fqdn [of E] by (simp add: config_ok_def default_config_def initial_config_def)
  moreover have "dc_servers (default_config E e) \<noteq> []" for e using ns by (simp add: default_config_def)
  moreover have "config_ok E (fold (config_line E) ls (initial_config\<lparr>dc_mtime := m\<rparr>))" for ls m
    by (intro config_ok_fold config_ok_line init)
  ultimately show ?thesis
    using ns dnsDefaultSearch_Fqdn [of E]
    by (auto simp: usable_def dnsReadConfig_def Let_def config_ok_def split: sum.splits prod.splits)
qed

text \<open>
  Whatever the file of the system contains, the configuration that is read from it can be used: it has one to three servers, at least one
  attempt, a timeout of at least a second, at most fifteen for \<open>ndots\<close>, and only fully qualified names to search.
\<close>

theorem dnsReadConfig_usable:
  "config_ok E (dnsReadConfig E name) \<and> dc_servers (dnsReadConfig E name) \<noteq> []"
  using dnsReadConfig_ok by (simp add: usable_def)

section \<open>The servers\<close>

text \<open>A round of the servers starts at the offset and reaches all of them, as long as the 32-bit sum does not wrap around in the middle.\<close>

lemma shifted_residues:
  assumes "0 < (n :: nat)"
  shows "(\<lambda>j. (k + j) mod n) ` {..<n} = {..<n}"
proof
  show "{..<n} \<subseteq> (\<lambda>j. (k + j) mod n) ` {..<n}"
  proof
    fix i assume "i \<in> {..<n}"
    define j where "j = (i + (n - k mod n)) mod n"
    have "k mod n < n" using assms by simp
    moreover have "k = n * (k div n) + k mod n" by simp
    ultimately have "k + (i + (n - k mod n)) = i + (n * (k div n) + n)" by linarith
    then have k: "k + (i + (n - k mod n)) = i + n * (k div n + 1)" by simp
    have "(k + j) mod n = (k + (i + (n - k mod n))) mod n" by (simp only: j_def mod_add_right_eq)
    also have "\<dots> = i" using \<open>i \<in> {..<n}\<close> by (simp only: k mod_mult_self2) simp
    finally have "(k + j) mod n = i" .
    moreover have "j < n" using assms by (simp add: j_def)
    ultimately show "i \<in> (\<lambda>j. (k + j) mod n) ` {..<n}" by force
  qed
qed (use assms in auto)

lemma server_index:
  assumes "0 < n" and "n \<le> 3" and "n = 3 \<longrightarrow> unat (off :: 32 word) + 3 \<le> 2 ^ 32" and "j < n"
  shows "unat ((off + word_of_nat j) mod word_of_nat n) = (unat off + j) mod n"
proof -
  have n: "unat (word_of_nat n :: 32 word) = n" "unat (word_of_nat j :: 32 word) = j"
    using assms by (simp_all add: unat_of_nat take_bit_nat_eq_self)
  have "unat (off + word_of_nat j) = (unat off + j) mod 2 ^ 32" by (simp add: unat_word_ariths n)
  moreover have "((unat off + j) mod 2 ^ 32) mod n = (unat off + j) mod n"
  proof (cases "n = 3")
    case True
    then show ?thesis using assms(3,4) by simp
  next
    case False
    then consider "n = 1" | "n = 2" using assms(1,2) by linarith
    then have "n dvd 2 ^ 32" by cases simp_all
    then show ?thesis by (simp add: mod_mod_cancel)
  qed
  ultimately show ?thesis by (simp add: unat_mod n)
qed

lemma round_covers:
  assumes "servers \<noteq> []" and "length servers \<le> 3" and "length servers = 3 \<longrightarrow> unat off + 3 \<le> 2 ^ 32"
  shows "set (map (server_at servers off) [0..<length servers]) = set servers"
proof -
  let ?n = "length servers"
  have "(\<lambda>j. unat ((off + word_of_nat j) mod word_of_nat ?n)) ` {..<?n} = (\<lambda>j. (unat off + j) mod ?n) ` {..<?n}"
    using server_index [of ?n off] assms by (intro image_cong) auto
  also have "\<dots> = {..<?n}" using assms(1) by (intro shifted_residues) simp
  finally have "(!) servers ` (\<lambda>j. unat ((off + word_of_nat j) mod word_of_nat ?n)) ` {..<?n} = (!) servers ` {..<?n}" by simp
  moreover have "(!) servers ` {..<?n} = set servers" by (auto simp: set_conv_nth)
  ultimately show ?thesis by (simp add: server_at_def [abs_def] image_image lessThan_atLeast0)
qed

text \<open>At the wrap-around of the counter one of three servers is left out.\<close>

lemma round_misses_third: "map (server_at [''a'', ''b'', ''c''] (2 ^ 32 - 1)) [0..<3] = [''a'', ''a'', ''b'']"
  by (simp add: server_at_def upt_rec)

text \<open>
  What is promised of the network: dialing with a deadline in the context returns, and so does every operation on a connection that has a
  deadline.
\<close>

definition deadlines_hold :: "'w local_env \<Rightarrow> bool" where
  "deadlines_hold L \<longleftrightarrow>
     (\<forall>d s w. fst (le_DialUDP L (Some d) s w) \<noteq> None \<and> fst (le_DialTCP L (Some d) s w) \<noteq> None) \<and>
     (\<forall>d s w conn. fst (le_DialUDP L d s w) = Some (Inr conn) \<longrightarrow> (\<forall>t b. dg_Write conn (Some t) b \<noteq> None \<and> dg_Read conn (Some t) b \<noteq> None)) \<and>
     (\<forall>d s w conn. fst (le_DialTCP L d s w) = Some (Inr conn) \<longrightarrow> (\<forall>t b. td_Write conn (Some t) b \<noteq> None \<and> snd (td_Read conn (Some t) b) \<noteq> None))"

lemma conn_deadline_set: "d \<noteq> 0 \<Longrightarrow> \<exists>t. conn_deadline (Some d) timeout now = Some t"
  by (simp add: conn_deadline_def)

lemma exchangeTCP_returns:
  assumes "deadlines_hold L" and "d \<noteq> 0"
  shows "fst (exchangeTCP L (Some d) server request timeout w) \<noteq> None"
proof -
  obtain r w' where dial: "le_DialTCP L (Some d) server w = (r, w')" by (meson prod.exhaust)
  then have "r \<noteq> None" using assms(1) by (metis deadlines_hold_def fst_conv)
  then obtain x where x: "r = Some x" by blast
  show ?thesis
  proof (cases x)
    case (Inr conn)
    obtain t where t: "conn_deadline (Some d) timeout (le_Now L w') = Some t" using conn_deadline_set [OF assms(2)] by blast
    have "fst (le_DialTCP L (Some d) server w) = Some (Inr conn)" using dial x Inr by simp
    then have c: "td_Write conn (Some t) b \<noteq> None" "snd (td_Read conn (Some t) b) \<noteq> None" for b
      using assms(1) unfolding deadlines_hold_def by blast+
    show ?thesis
    proof (cases "WriteMessage (le_wire L) 0 request")
      case (Ok bytes)
      obtain y where "td_Write conn (Some t) bytes = Some y" using c(1) by blast
      moreover obtain b e where "td_Read conn (Some t) bytes = (b, Some e)" using c(2) [of bytes] by (cases "td_Read conn (Some t) bytes") auto
      ultimately show ?thesis
        using dial x Inr t Ok by (cases y) (simp_all add: exchangeTCP_def Let_def read_timed_def)
    qed (use dial x Inr in \<open>simp_all add: exchangeTCP_def Let_def\<close>)
  qed (use dial x in \<open>simp add: exchangeTCP_def\<close>)
qed

lemma exchangeUDP_returns:
  assumes "deadlines_hold L" and "d \<noteq> 0"
  shows "fst (exchangeUDP L (Some d) server request timeout w) \<noteq> None"
proof -
  obtain r w' where dial: "le_DialUDP L (Some d) server w = (r, w')" by (meson prod.exhaust)
  then have "r \<noteq> None" using assms(1) by (metis deadlines_hold_def fst_conv)
  then obtain x where x: "r = Some x" by blast
  show ?thesis
  proof (cases x)
    case (Inr conn)
    obtain t where t: "conn_deadline (Some d) timeout (le_Now L w') = Some t" using conn_deadline_set [OF assms(2)] by blast
    have "fst (le_DialUDP L (Some d) server w) = Some (Inr conn)" using dial x Inr by simp
    then have c: "dg_Write conn (Some t) b \<noteq> None" "dg_Read conn (Some t) b \<noteq> None" for b
      using assms(1) unfolding deadlines_hold_def by blast+
    show ?thesis
    proof (cases "we_Pack (le_wire L) request")
      case raw: (Inr raw)
      obtain y where y: "dg_Write conn (Some t) raw = Some y" using c(1) by blast
      obtain z where z: "dg_Read conn (Some t) raw = Some z" using c(2) by blast
      show ?thesis
        using exchangeTCP_returns [OF assms] dial x Inr t raw y z
        by (auto simp: exchangeUDP_def Let_def split: option.splits sum.splits)
    qed (use dial x Inr in \<open>simp add: exchangeUDP_def Let_def\<close>)
  qed (use dial x in \<open>simp add: exchangeUDP_def\<close>)
qed

lemma exchangeOne_returns:
  "deadlines_hold L \<Longrightarrow> d \<noteq> 0 \<Longrightarrow> fst (exchangeOne L (Some d) server question timeout useTCP w) \<noteq> None"
  unfolding exchangeOne_def Let_def using exchangeTCP_returns exchangeUDP_returns by (cases useTCP) (simp_all only: if_True if_False not_True_eq_False not_False_eq_True)

lemma try_servers_finds:
  assumes "s \<in> set ss" and "\<And>w. \<exists>m w'. ask s w = (Some (Inr m), w')" and "\<And>s w. fst (ask s w) \<noteq> None"
  shows "\<exists>m w'. try_servers ask ss e w = (Some (Inr m), w')"
  using assms(1)
proof (induction ss arbitrary: e w)
  case (Cons x xs)
  obtain r w1 where x: "ask x w = (Some r, w1)" using assms(3) [of x w] by (cases "ask x w") auto
  show ?case
  proof (cases r)
    case (Inl e')
    then have "s \<noteq> x" using x assms(2) [of w] by auto
    then show ?thesis using Cons x Inl by simp
  qed (use x in simp)
qed simp

lemma try_servers_returns:
  assumes "\<And>s w. fst (ask s w) \<noteq> None"
  shows "\<exists>r w'. try_servers ask ss e w = (Some r, w') \<and> ((ss \<noteq> [] \<or> e \<noteq> None) \<longrightarrow> r \<noteq> Inl None)"
proof (induction ss arbitrary: e w)
  case (Cons x xs)
  obtain r w1 where x: "ask x w = (Some r, w1)" using assms [of x w] by (cases "ask x w") auto
  show ?case
  proof (cases r)
    case (Inl e')
    then show ?thesis using Cons [of "Some e'" w1] x by auto
  qed (use x in simp)
qed simp


section \<open>Queries\<close>

lemma tryUpdate_usable: "resolv_ok E st \<Longrightarrow> usable E (rc_dnsConfig (tryUpdate E now taken name st))"
  using dnsReadConfig_ok [of E] by (cases st) (auto simp: tryUpdate_def resolv_ok_def Let_def)

lemma tryOneName_keeps: "tryOneName L d c fqdn q w = (r, c', w') \<Longrightarrow> usable E c \<Longrightarrow> usable E c'"
  by (auto simp: tryOneName_def serverOffset_def Let_def usable_def config_ok_def split: prod.splits sum.splits option.splits if_splits)

lemma tryOneName_returns:
  assumes "usable E c" and "deadlines_hold L" and "d \<noteq> 0"
  obtains r c' w' where "tryOneName L (Some d) c fqdn q w = (Some r, c', w')" "(\<exists>m. r = Ok m) \<or> (\<exists>e. r = Err e)"
proof -
  obtain off c' where o': "serverOffset c = (off, c')" by (meson prod.exhaust)
  define ask where "ask = (\<lambda>server. exchangeOne L (Some d) (le_ParseSocksaddr L server) (q\<lparr>q_Name := fqdn\<rparr>) (dc_timeout c) (dc_useTCP c))"
  define ss where "ss = concat (replicate (nat (dc_attempts c)) (map (server_at (dc_servers c) off) [0..<length (dc_servers c)]))"
  have "ss \<noteq> []" using assms(1) by (simp add: ss_def usable_def config_ok_def)
  moreover have "fst (ask s w) \<noteq> None" for s w by (simp add: ask_def exchangeOne_returns [OF assms(2,3)])
  ultimately obtain r w' where r: "try_servers ask ss None w = (Some r, w')" "r \<noteq> Inl None"
    using try_servers_returns [of ask ss None w] by blast
  then consider m where "tryOneName L (Some d) c fqdn q w = (Some (Ok m), c', w')"
    | e where "tryOneName L (Some d) c fqdn q w = (Some (Err e), c', w')"
    by (cases r) (auto simp: tryOneName_def Let_def o' ss_def ask_def)
  then show ?thesis using that by cases blast+
qed

text \<open>A name of a query that may be asked for: fully qualified, not too long, and not of the Tor network.\<close>

definition askable :: "string \<Rightarrow> bool" where
  "askable name \<longleftrightarrow> name \<noteq> [] \<and> last name = CHR ''.'' \<and> length name \<le> 254 \<and> \<not> avoidDNS name"

lemma nameList_askable: "askable name \<Longrightarrow> nameList ndots search name = [name]"
  by (simp add: askable_def nameList_def Let_def)

text \<open>Every name that is asked for is askable, when the names to search are fully qualified.\<close>

lemma nameList_sound:
  assumes "\<forall>s \<in> set search. s \<noteq> [] \<and> last s = CHR ''.''" and "n \<in> set (nameList ndots search name)"
  shows "askable n"
  using assms by (auto simp: nameList_def askable_def Let_def split: if_splits)

lemma single_askable:
  assumes "askable name" and "usable E c" and "deadlines_hold L" and "d \<noteq> 0"
  obtains r c' w' where "exchangeSingleRequest L (Some d) q name c w = (Some r, c', w')" "(\<exists>m. r = Ok (Some m)) \<or> (\<exists>e. r = Err e)" "usable E c'"
proof -
  obtain r c' w' where t: "tryOneName L (Some d) c name q w = (Some r, c', w')" "(\<exists>m. r = Ok m) \<or> (\<exists>e. r = Err e)"
    using tryOneName_returns [OF assms(2-4)] by blast
  then show ?thesis using that tryOneName_keeps [OF t(1) assms(2)]
    by (auto simp: exchangeSingleRequest_def nameList_askable [OF assms(1)])
qed

lemma parallel_askable:
  assumes "askable name" and "usable E c" and "deadlines_hold L" and "d \<noteq> 0"
    and "\<forall>i. e = Reported i \<longrightarrow> i = 0"
  obtains r c' w' where "exchangeParallel L (Some d) q name (e # es) c w = (Some r, c', w')" "(\<exists>m. r = Ok (Some m)) \<or> (\<exists>err. r = Err err)" "usable E c'"
proof -
  obtain r c' w' where t: "tryOneName L (Some d) c name q w = (Some r, c', w')" "(\<exists>m. r = Ok m) \<or> (\<exists>e. r = Err e)"
    using tryOneName_returns [OF assms(2-4)] by blast
  have p: "exchangeParallel L (Some d) q name (e # es) c w =
      (map_option (\<lambda>r. bindR r (\<lambda>m. Ok (Some m))) (par_loop L [Some (racer_result L r)] [] (e # es)), c', w')"
    by (simp add: exchangeParallel_def nameList_askable [OF assms(1)] t(1))
  have rr: "(\<exists>m. racer_result L r = Ok m) \<or> (\<exists>e. racer_result L r = Err e)" using t(2)
  proof
    assume "\<exists>m. r = Ok m"
    then obtain m where "r = Ok m" ..
    then show ?thesis by (cases "msg_Rcode m \<noteq> RcodeSuccess"; cases "le_Addresses L m = []") (simp_all add: racer_result_def)
  qed (auto simp: racer_result_def)
  show ?thesis
  proof (cases e)
    case (Reported i)
    then show ?thesis using that p rr assms(5) tryOneName_keeps [OF t(1) assms(2)] by auto
  next
    case (CtxDone x)
    then show ?thesis using that p tryOneName_keeps [OF t(1) assms(2)] by simp
  qed
qed


section \<open>What the hypotheses keep out\<close>

text \<open>
  A name of the Tor network is not asked for.  Over one request the caller gets a nil response without an error; in parallel it waits until its
  context ends, since no racer was started.
\<close>

lemma onion_nil_response:
  assumes "msg_Question message = q # qs" and "avoidDNS (q_Name q)" and "q_Name q \<noteq> []" and "last (q_Name q) = CHR ''.''"
    and "q_Qtype q \<noteq> TypeA" and "q_Qtype q \<noteq> TypeAAAA"
  shows "fst (local_Exchange D H E L now taken d events message t w) = Some (Ok None)"
proof -
  have "nameList ndots search (q_Name q) = []" for ndots search
    using assms(2-4) by (simp add: nameList_def Let_def)
  then show ?thesis using assms by (simp add: local_Exchange_def Let_def exchangeSingleRequest_def)
qed

lemma onion_waits:
  assumes "avoidDNS name" and "last name = CHR ''.''" and "name \<noteq> []"
  shows "fst (exchangeParallel L d q name [] c w) = None"
  using assms by (simp add: exchangeParallel_def nameList_def Let_def)

text \<open>Without a deadline in the context none is set on the connection, and a server that does not answer blocks the query for ever.\<close>

lemma silent_server_blocks:
  assumes "le_DialUDP L None server w = (Some (Inr conn), w')" and "we_Pack (le_wire L) request = Inr raw"
    and "dg_Write conn None raw = Some None" and "dg_Read conn None raw = None"
  shows "fst (exchangeUDP L None server request timeout w) = None"
  using assms by (simp add: exchangeUDP_def conn_deadline_def Let_def)

section \<open>Instances\<close>

definition demo_resolv :: resolv_env where
  "demo_resolv = \<lparr>re_Open = (\<lambda>_. Inr (Inr 1, \<lparr>rd_data = ''nameserver 10.0.0.1'' @ [LF] @ ''options rotate attempts:3'' @ [LF], rd_end = ioEOF\<rparr>)),
     re_Stat = (\<lambda>_. Inr 1), re_ParseAddr = (\<lambda>_. Inr (Addr4 0x0A000001)), re_Fqdn = (\<lambda>s. s @ ''.''), re_Hostname = Inl ErrInvalid\<rparr>"

text \<open>A network in which servers are silent unless their port is 54; silence ends with the deadline.\<close>

definition demo_timeout :: go_error where
  "demo_timeout = EForeign ''i/o timeout''"

definition demo_dgram :: "bool \<Rightarrow> datagram_conn" where
  "demo_dgram answers = \<lparr>dg_Write = (\<lambda>_ _. Some None),
     dg_Read = (\<lambda>d b. if answers then Some (Inr b) else map_option (\<lambda>_. Inl demo_timeout) d)\<rparr>"

definition demo_local :: "nat local_env" where
  "demo_local = \<lparr>le_wire = demo_wire, le_Now = int, le_DialUDP = (\<lambda>_ s w. (Some (Inr (demo_dgram (sa_Port s = 54))), Suc w)),
     le_DialTCP = (\<lambda>_ _ w. (Some (Inl (EForeign ''refused'')), Suc w)), le_EMSGSIZE = (\<lambda>_. False), le_RandomId = (\<lambda>_. 9), le_SetEdns0 = (\<lambda>m. m),
     le_ParseSocksaddr = (\<lambda>s. \<lparr>sa_Addr = AddrNone, sa_Port = (if s = ''10.0.0.2:53'' then 54 else 53), sa_Fqdn = []\<rparr>),
     le_Addresses = (\<lambda>_. [Addr4 1]), le_Errors = hd, le_CauseNil = (\<lambda>_. Panic [])\<rparr>"

lemma demo_local_deadlines: "deadlines_hold demo_local"
  by (auto simp: deadlines_hold_def demo_local_def demo_dgram_def)

definition demo_config :: dnsConfig where
  "demo_config = initial_config\<lparr>dc_servers := [''10.0.0.1:53'', ''10.0.0.2:53''], dc_rotate := True\<rparr>"



end
