(* ===== verification/Spec2Isabelle.thy ===== *)
theory Spec2Isabelle
  imports Prelude Adapter_Lifecycle Manager_Base Simple_Managers Dependency_Start Outbound_Manager
    Dns_Transport_Manager Core_Service Rule_Items Rule_Match Rule_Semantics Rule_Action Rule_Build
    Netip Cache_File Fakeip_Store Cache_Jobs Sniff Route_Exec Route_Properties Box
    Dns_Message Dns_Client Dns_Client_Properties Dns_Router Dns_Router_Properties
    Badversion Srs Srs_Properties Srs_Compiled Rule_Set_Load Rule_Set_Properties
    Interrupt Outbound_Groups Group_Properties Rule_Start Router_Start Router_Properties
    Text_Lines Dns_Hosts Dns_Wire Dns_Local Dns_Local_Properties
begin

text \<open>
  A verification development for phantom-core.

  \<^bold>\<open>The program.\<close>  phantom-core is a proxy core for client applications.  The directories \<open>v2\<close>,
  \<open>custom\<close>, \<open>bridge\<close> and \<open>phantomrpc\<close> hold its own service layer: a C interface over a set of package
  variables that start, stop and restart one instance of the proxy, a \<^emph>\<open>box\<close>, and report its state.
  The directory \<open>core\<close> is the proxy itself, a fork of sing-box.  A box owns managers for
  endpoints, inbounds, outbounds, services and DNS transports, each a collection of components that
  follow one start and stop protocol; a router that matches every connection and every DNS
  query against a list of rules; rule sets the rules refer to; and a cache file that keeps state over restarts.

  \<^bold>\<open>Conventions.\<close>  A Go function that returns an error is a function into \<open>go_error option\<close> or
  \<open>'a res\<close>; a run-time panic is the value \<open>Panic\<close> (\<open>Throw\<close> in the service layer).  A struct is a record, a pointer
  to a component is an \<open>obj\<close> with an identity, an interface value is a record of its methods.  A
  function with a receiver takes the state and returns it updated; a section under a mutex is one step.
  Machine integers are words where their width matters.  Foreign packages are parameters; the
  hypotheses on them are named: \<open>sing_common_ok\<close>, \<open>bolt_ok\<close> and \<open>bolt_works\<close>, \<open>varbin_ok\<close>, and the fields of
  \<open>rule_env\<close>, \<open>action_env\<close>, \<open>core_env\<close>, \<open>sniff_env\<close> (\<open>E_Errors_ok\<close>), \<open>route_env\<close> (\<open>conn_ok\<close>), \<open>box_env\<close> and
  \<open>dns_env\<close> (\<open>dns_env_ok\<close>: the LRU cache answers what was stored, the clock is that of the
  response, EDNS options are read back; \<open>mapping_ok\<close> for the reverse mapping), \<open>format_ok\<close> (the text of
  numbers), \<open>srs_env\<close> (\<open>srs_env_ok\<close>: what a foreign encoder writes its decoder reads back; \<open>readers_shrink\<close>: a foreign
  reader never gives bytes back) and \<open>load_env\<close> (\<open>srs_rule_env\<close>: the domain matcher that is stored decides like
  the one built from the same domains), \<open>probe_env\<close> and \<open>group_env\<close> (what a URL test and an outbound of a group answer),
  \<open>hosts_env\<close> and \<open>resolv_env\<close> (the files; \<open>readable_file\<close>), \<open>wire_env\<close> (the encoder of messages; \<open>wire_ok\<close>) and \<open>local_env\<close> (the network).  Each has an instance that satisfies it (\<open>bolt_tree\<close>, \<open>demo_varbin\<close>,
  \<open>demo_rule_env\<close> and others), which the witnesses use.

  \<^bold>\<open>The theories and what they model.\<close>

  \<^item> \<open>Prelude\<close>: results and errors; \<open>strings\<close> and \<open>strconv\<close>; generic lemmas.

  \<^item> \<open>Adapter_Lifecycle\<close>: \<open>core/adapter/lifecycle.go\<close>, \<open>lifecycle_legacy.go\<close>.  Components, the calls
    made to them as a trace, the start loops.

  \<^item> \<open>Manager_Base\<close>, \<open>Simple_Managers\<close>: the endpoint, inbound and service managers
    (\<open>core/adapter/*/manager.go\<close>).  The locale \<open>tag_manager\<close> states what \<open>Create\<close> and \<open>Remove\<close> promise; every manager
    interprets it and so refines a finite map from tags to components.  What a start calls,
    and that the managers must not be used after \<open>Close\<close>.

  \<^item> \<open>Dependency_Start\<close>, \<open>Outbound_Manager\<close>, \<open>Dns_Transport_Manager\<close>: the start in dependency order, sound
    and complete, with an explanation of a stuck start that terminates (its fuel, one more than
    the number of components, is proved to be enough); the outbound and transport managers
    and their default components.

  \<^item> \<open>Core_Service\<close>: \<open>v2/*.go\<close> and \<open>custom/custom.go\<close>.  The service layer as a step relation on the package
    variables, the invariant that at most one box runs, and what the results of the C interface mean.

  \<^item> \<open>Rule_Items\<close>, \<open>Rule_Match\<close>, \<open>Rule_Semantics\<close>: \<open>core/route/rule/rule_item_*.go\<close>, \<open>rule_abstract.go\<close>, \<open>rule_dns.go\<close>,
    \<open>rule_set*.go\<close>.  All conditions of rules; matching with the cache flags that the code keeps in
    the metadata; a proof that a tree of rules decides like a propositional formula over the single
    conditions, through the locale \<open>tree_matching\<close>, interpreted for route rules and for both ways
    of matching DNS rules.

  \<^item> \<open>Rule_Action\<close>, \<open>Rule_Build\<close>: \<open>rule_action.go\<close>, \<open>rule_default.go\<close>, \<open>rule_headless.go\<close>, \<open>rule_set_local.go\<close> and
    the option types.  Actions, the flood protection of \<open>reject\<close>, the constructors of rules and
    what the built rules decide, atomic loading of rule sets.

  \<^item> \<open>Netip\<close>, \<open>Cache_File\<close>: the part of \<open>net/netip\<close> that is used, the metadata of fake addresses
    (\<open>core/adapter/fakeip_metadata.go\<close>) and the cache file
    (\<open>core/experimental/cachefile/cache.go\<close>, \<open>rdrc.go\<close>, \<open>core/adapter/experimental.go\<close>).  What is stored is loaded again and
    nothing else moves; expiry; cleaning at the start.

  \<^item> \<open>Fakeip_Store\<close>, \<open>Cache_Jobs\<close>: \<open>core/dns/transport/fakeip/store.go\<close>, \<open>memory.go\<close>,
    \<open>core/experimental/cachefile/fakeip.go\<close>.  The locale \<open>fakeip_storage\<close> is what the store relies on; it is
    interpreted for the maps in memory, for the cache file and for both behind one interface.
    Assignment, capacity, restart, and the goroutines of the cache file as a step
    relation with every interleaving.

  \<^item> \<open>Sniff\<close>: \<open>core/common/sniff\<close>.  Every sniffer but the one for QUIC, and the functions that try them; a
    stream is a script of reads.  The locale \<open>stream_probe\<close> states what makes a sniffer safe to use on
    a stream that arrives in pieces; it is interpreted for RDP, SSH, DNS and BitTorrent.

  \<^item> \<open>Route_Exec\<close>, \<open>Route_Properties\<close>: \<open>core/route/route.go\<close>.  The search for the rule with everything it does on
    the way (process lookup, fake addresses, sniffing, resolving, route options), and what becomes
    of the connection.  The search agrees with a reference that knows no flags and no
    buffers; the outbound reads the bytes of the client; a connection to a fake address goes
    to its domain.

  \<^item> \<open>Box\<close>: \<open>core/box.go\<close>, \<open>core/option/options.go\<close>.  The assembly of the managers from checked options (the
    locale \<open>filler\<close>, interpreted for the five managers), and the start and stop of all parts: all
    or nothing, in the right order, and successful when no component fails.

  \<^item> \<open>Dns_Message\<close>, \<open>Dns_Client\<close>, \<open>Dns_Client_Properties\<close>: \<open>core/dns/client.go\<close>, \<open>core/dns/transport_adapter.go\<close>, \<open>core/dns/extension_edns0_subnet.go\<close>
    and the query options of \<open>core/adapter/dns.go\<close>.  The exchange and the lookup with the response cache, the
    cache of rejected responses, TTL rewriting and client subnets.  The locale \<open>client_steps\<close> states what
    is kept by each step of an exchange, and is interpreted for the configuration, the contents of the
    cache and its growth.  Remaining TTLs, the second query answered from the cache, the
    rejection that is remembered, and that the 16- and 32-bit arithmetic never panics.

  \<^item> \<open>Dns_Router\<close>, \<open>Dns_Router_Properties\<close>: \<open>core/dns/router.go\<close>.  The search for a transport, the loops of \<open>Exchange\<close> and
    \<open>Lookup\<close> that go on with the next rule when an address limit rejects the response (they terminate
    by a measure on the rule index), and the reverse mapping.

  \<^item> \<open>Badversion\<close>: \<open>core/common/badversion/version.go\<close>, \<open>core/experimental/deprecated\<close>.  Parsing, printing and order of version
    numbers, and the reports on deprecated options.

  \<^item> \<open>Srs\<close>, \<open>Srs_Properties\<close>, \<open>Srs_Compiled\<close>: \<open>core/common/srs/binary.go\<close>, \<open>ip_set.go\<close>.  Reader and writer of the binary rule-set
    format.  The locale \<open>codec\<close> states that a reader undoes a writer and is interpreted for every type that is stored; it gives
    the round trip of whole rule sets.  Reading always returns.  What a rule becomes when it is written and read
    decides like the rule itself.

  \<^item> \<open>Rule_Set_Load\<close>, \<open>Rule_Set_Properties\<close>: \<open>core/route/rule/rule_set_local.go\<close>, \<open>rule_set_remote.go\<close>.  Rule sets from files with a
    watcher, and from the network with conditional requests, the cache file and the update loop.  The locale
    \<open>atomic_load\<close> states that loading is all or nothing and is interpreted for both kinds; compiled files match like
    their sources; a saved rule set needs no network after a restart.

  \<^item> \<open>Rule_Start\<close>, \<open>Router_Start\<close>, \<open>Router_Properties\<close>: the start of rules (\<open>core/route/rule/rule_abstract.go\<close>) and of the router
    (\<open>core/route/router.go\<close>, \<open>rule_conds.go\<close>): rule sets in parallel, the search for processes, references to rule sets and what
    is cleaned up.  The locale \<open>set_property\<close> states what the loops over the rule sets keep, and is interpreted for the flags and
    for the references of a set.

  \<^item> \<open>Interrupt\<close>, \<open>Outbound_Groups\<close>, \<open>Group_Properties\<close>: \<open>core/common/interrupt\<close>, \<open>core/common/urltest\<close>, \<open>core/protocol/group\<close>.  The
    selector with its stored selection, the tested group with its choice by delay and tolerance, the goroutine that
    watches it, and the connections that are interrupted when the choice changes, the last two as step relations.

  \<^item> \<open>Text_Lines\<close>, \<open>Dns_Hosts\<close>: \<open>core/dns/transport/hosts\<close>, \<open>core/dns/transport/fakeip/fakeip.go\<close>.  Reading files by lines, equal to
    cutting the text at its line feeds; hosts files, whose answers are at most five seconds old; the transport for fake addresses, whose
    answers the store resolves.

  \<^item> \<open>Dns_Wire\<close>: \<open>core/dns/transport/tcp.go\<close>, \<open>tls.go\<close>.  Messages on a stream are read back; the pool of TLS connections as a step
    relation, in which no connection is shared, lost or used after it was closed.

  \<^item> \<open>Dns_Local\<close>, \<open>Dns_Local_Properties\<close>: \<open>core/dns/transport/local\<close>.  The configuration of the system, always usable, the rotation over
    its servers, and queries that always return.

  \<^bold>\<open>Bounds.\<close>  The explanation of a stuck start takes fuel, as said above.  \<open>srs.Read\<close> takes fuel, two more than twice the number of
  bytes behind the header, which \<open>srs_Read_returns\<close> shows to be enough.  The loop of \<open>CacheFile.Start\<close> makes
  at most ten attempts in the source too.  Times are integers in nanoseconds; where a 64-bit number
  of seconds is written, the theorems assume that it fits.

  \<^bold>\<open>Not modelled.\<close>  The protocols and transports (\<open>core/protocol\<close>, \<open>core/transport\<close>), TLS, dialers and listeners, and the
  platform bindings (\<open>core/experimental/libbox\<close>, \<open>bridge\<close>, \<open>mobile\<close>) drive sockets and foreign libraries and keep little state of
  their own.  The generated code of \<open>phantomrpc\<close> and \<open>v2rayapi\<close>, the JSON codecs of \<open>core/option\<close>, the HTTP
  handlers of the Clash interface and the command-line programs are left out.  The DNS transports over
  UDP, HTTPS, QUIC and DHCP and the legacy geo files are not modelled.
\<close>

end
